(* ===== verification/Py_Prelude.thy ===== *)
theory Py_Prelude
  imports Complex_Main "HOL-Library.AList"
begin

text \<open>
  Shared vocabulary of the development: Python values and dictionaries, exceptions as the left
  side of a sum, world-passing computations (\<open>('w, 'a) io\<close>) with the two control structures the
  services use (sequencing and \<^verbatim>\<open>try / except / else\<close>), the string and number functions of the
  standard library that the modelled code calls, and the generic lemmas the components share.
  A \<open>string\<close> is the sequence of characters of a Python \<^verbatim>\<open>str\<close>.
\<close>

section \<open>Lemma collections\<close>

named_theorems io_simps \<open>evaluation of world-passing computations\<close>
named_theorems keeps_intros \<open>every step of a computation stays inside a relation on worlds\<close>
named_theorems dict_simps \<open>lookups in updated dictionaries\<close>

section \<open>Python values\<close>

datatype pyval =
    PNone
  | PBool bool
  | PInt int
  | PDec rat
  | PFloat rat
  | PStr string
  | PList "pyval list"
  | PDict "(string \<times> pyval) list"

type_synonym item = "(string \<times> pyval) list"

fun truthy :: "pyval \<Rightarrow> bool" where
  "truthy PNone = False"
| "truthy (PBool b) = b"
| "truthy (PInt i) = (i \<noteq> 0)"
| "truthy (PDec q) = (q \<noteq> 0)"
| "truthy (PFloat q) = (q \<noteq> 0)"
| "truthy (PStr s) = (s \<noteq> [])"
| "truthy (PList xs) = (xs \<noteq> [])"
| "truthy (PDict d) = (d \<noteq> [])"

text \<open>\<open>a or b\<close>: the first operand when it is truthy, otherwise the second.\<close>

definition py_or :: "pyval \<Rightarrow> pyval \<Rightarrow> pyval" where
  "py_or a b = (if truthy a then a else b)"

text \<open>\<^verbatim>\<open>isinstance(v, str) and v\<close>: the value as a non-empty string.\<close>

fun nonempty_str :: "pyval \<Rightarrow> string option" where
  "nonempty_str (PStr s) = (if s = [] then None else Some s)"
| "nonempty_str _ = None"

text \<open>The checks \<^verbatim>\<open>isinstance(v, str)\<close>, \<^verbatim>\<open>dict\<close>, \<^verbatim>\<open>list\<close> and \<^verbatim>\<open>int\<close> (of which \<^verbatim>\<open>bool\<close> is a subclass), with the value.\<close>

fun as_str :: "pyval \<Rightarrow> string option" where
  "as_str (PStr s) = Some s"
| "as_str _ = None"

fun as_dict :: "pyval \<Rightarrow> item option" where
  "as_dict (PDict d) = Some d"
| "as_dict _ = None"

fun as_list :: "pyval \<Rightarrow> pyval list option" where
  "as_list (PList xs) = Some xs"
| "as_list _ = None"

fun as_int :: "pyval \<Rightarrow> int option" where
  "as_int (PInt i) = Some i"
| "as_int (PBool b) = Some (if b then 1 else 0)"
| "as_int _ = None"

lemma as_str_Some [simp]: "as_str v = Some s \<longleftrightarrow> v = PStr s"
  by (cases v) auto

lemma as_dict_Some [simp]: "as_dict v = Some d \<longleftrightarrow> v = PDict d"
  by (cases v) auto

lemma as_list_Some [simp]: "as_list v = Some xs \<longleftrightarrow> v = PList xs"
  by (cases v) auto

lemma nonempty_str_Some [simp]: "nonempty_str v = Some s \<longleftrightarrow> v = PStr s \<and> s \<noteq> []"
  by (cases v) auto

fun opt_val :: "string option \<Rightarrow> pyval" where
  "opt_val None = PNone"
| "opt_val (Some s) = PStr s"

text \<open>\<^verbatim>\<open>str(v or '')\<close> on a value: strings stand for themselves, \<open>show_val\<close> renders the rest.\<close>

definition text_or_empty :: "(pyval \<Rightarrow> string) \<Rightarrow> pyval \<Rightarrow> string" where
  "text_or_empty show_val v = (if truthy v then (case as_str v of Some s \<Rightarrow> s | None \<Rightarrow> show_val v) else [])"

section \<open>Dictionaries\<close>

text \<open>
  A dictionary is an association list in insertion order. \<open>dget d k\<close> is \<^verbatim>\<open>d.get(k)\<close>,
  \<open>dget_or d k v\<close> is \<^verbatim>\<open>d.get(k, v)\<close>, \<open>dset k v d\<close> is \<^verbatim>\<open>d[k] = v\<close> and \<open>ddel k d\<close> is
  \<^verbatim>\<open>d.pop(k, None)\<close>.
\<close>

definition dget_or :: "item \<Rightarrow> string \<Rightarrow> pyval \<Rightarrow> pyval" where
  "dget_or d k v = (case map_of d k of None \<Rightarrow> v | Some x \<Rightarrow> x)"

definition dget :: "item \<Rightarrow> string \<Rightarrow> pyval" where
  "dget d k = dget_or d k PNone"

definition dset :: "string \<Rightarrow> pyval \<Rightarrow> item \<Rightarrow> item" where
  "dset k v d = AList.update k v d"

definition ddel :: "string \<Rightarrow> item \<Rightarrow> item" where
  "ddel k d = AList.delete k d"

lemma map_of_dset [dict_simps, simp]: "map_of (dset k v d) j = (if j = k then Some v else map_of d j)"
  by (simp add: dset_def update_conv)

lemma map_of_ddel [dict_simps, simp]: "map_of (ddel k d) j = (if j = k then None else map_of d j)"
  by (auto simp: ddel_def delete_conv)

lemma dget_or_dset [dict_simps, simp]: "dget_or (dset k v d) j x = (if j = k then v else dget_or d j x)"
  by (simp add: dget_or_def)

lemma dget_dset [dict_simps, simp]: "dget (dset k v d) j = (if j = k then v else dget d j)"
  by (simp add: dget_def)

lemma dget_Nil [dict_simps, simp]: "dget [] k = PNone"
  by (simp add: dget_def dget_or_def)

lemma dget_or_Nil [dict_simps, simp]: "dget_or [] k v = v"
  by (simp add: dget_or_def)

lemma dget_Cons [dict_simps]: "dget ((k, v) # d) j = (if j = k then v else dget d j)"
  by (simp add: dget_def dget_or_def)

lemma dget_ddel [dict_simps, simp]: "dget (ddel k d) j = (if j = k then PNone else dget d j)"
  by (simp add: dget_def dget_or_def)

section \<open>Exceptions\<close>

text \<open>
  One constructor per exception class that the modelled code raises or distinguishes. The string
  arguments of \<open>ClientError\<close> are the service's error code and the rendered message; a request
  rejected by a condition expression carries the code \<open>ConditionalCheckFailedException\<close>.
  \<open>OtherError\<close> is any further subclass of \<^verbatim>\<open>Exception\<close>, by class name and message.
\<close>

datatype exn =
    ClientError string string
  | HTTPException int string
  | RuntimeError string
  | ValueError string
  | AttributeError
  | TypeError
  | KeyError string
  | AssertionError
  | PoolExhaustedError string
  | RunInstancesFailure string string string
  | SessionNotFoundError string
  | OwnerMismatchError string
  | JwtConfigError string
  | JwtInvalidError string
  | TranscriberError string string
  | StripeSignatureError string
  | OtherError string string

definition ccf_code :: string where
  "ccf_code = ''ConditionalCheckFailedException''"

fun is_ccf :: "exn \<Rightarrow> bool" where
  "is_ccf (ClientError c _) = (c = ccf_code)"
| "is_ccf _ = False"

fun is_client_error :: "exn \<Rightarrow> bool" where
  "is_client_error (ClientError _ _) = True"
| "is_client_error _ = False"

text \<open>The service's error code (\<^verbatim>\<open>exc.response['Error']['Code']\<close>), empty when there is none.\<close>

fun error_code :: "exn \<Rightarrow> string" where
  "error_code (ClientError c _) = c"
| "error_code _ = []"

fun is_jwt_invalid :: "exn \<Rightarrow> bool" where
  "is_jwt_invalid (JwtInvalidError _) = True"
| "is_jwt_invalid _ = False"

text \<open>\<^verbatim>\<open>v.get(k)\<close> on a value that need not be a dictionary.\<close>

definition get_attr :: "pyval \<Rightarrow> string \<Rightarrow> exn + pyval" where
  "get_attr v k = (case as_dict v of Some d \<Rightarrow> Inr (dget d k) | None \<Rightarrow> Inl AttributeError)"

text \<open>\<^verbatim>\<open>v.get(k, d)\<close>.\<close>

definition get_default :: "pyval \<Rightarrow> string \<Rightarrow> pyval \<Rightarrow> exn + pyval" where
  "get_default v k d = (case as_dict v of Some m \<Rightarrow> Inr (dget_or m k d) | None \<Rightarrow> Inl AttributeError)"

text \<open>Evaluation of one fallible expression after another.\<close>

definition and_then :: "exn + 'a \<Rightarrow> ('a \<Rightarrow> exn + 'b) \<Rightarrow> exn + 'b" where
  "and_then r f = (case r of Inl e \<Rightarrow> Inl e | Inr x \<Rightarrow> f x)"

lemma and_then_simps [simp]: "and_then (Inl e) f = Inl e" "and_then (Inr x) f = f x"
  by (simp_all add: and_then_def)

lemma and_then_Inr_iff: "and_then r f = Inr y \<longleftrightarrow> (\<exists>x. r = Inr x \<and> f x = Inr y)"
  by (cases r) auto

text \<open>\<^verbatim>\<open>json.dumps\<close> of a dictionary: a \<^verbatim>\<open>Decimal\<close> in it is a \<^verbatim>\<open>TypeError\<close>. The text is kept as the dictionary.\<close>

fun json_plain :: "pyval \<Rightarrow> bool" where
  "json_plain (PDec q) = False"
| "json_plain (PList xs) = list_all json_plain xs"
| "json_plain (PDict d) = list_all (\<lambda>(k, v). json_plain v) d"
| "json_plain _ = True"

definition json_dumps :: "item \<Rightarrow> exn + item" where
  "json_dumps d = (if json_plain (PDict d) then Inr d else Inl TypeError)"

text \<open>
  Validation of an optional string field, and lists converted element by element, stopping at the
  first failure.
\<close>

definition opt_str_field :: "pyval \<Rightarrow> string option option" where
  "opt_str_field v = (if v = PNone then Some None else map_option Some (as_str v))"

fun traverse :: "('a \<Rightarrow> 'b option) \<Rightarrow> 'a list \<Rightarrow> 'b list option" where
  "traverse f [] = Some []"
| "traverse f (x # xs) =
     (case f x of None \<Rightarrow> None | Some y \<Rightarrow> map_option (\<lambda>ys. y # ys) (traverse f xs))"

fun map_records :: "('a \<Rightarrow> exn + 'b) \<Rightarrow> 'a list \<Rightarrow> exn + 'b list" where
  "map_records f [] = Inr []"
| "map_records f (x # xs) =
     (case f x of Inl e \<Rightarrow> Inl e
      | Inr y \<Rightarrow> (case map_records f xs of Inl e \<Rightarrow> Inl e | Inr ys \<Rightarrow> Inr (y # ys)))"

section \<open>World-passing computations\<close>

type_synonym ('w, 'a) io = "'w \<Rightarrow> (exn + 'a) \<times> 'w"

definition retE :: "'a \<Rightarrow> ('w, 'a) io" where
  "retE x w = (Inr x, w)"

definition raiseE :: "exn \<Rightarrow> ('w, 'a) io" where
  "raiseE e w = (Inl e, w)"

definition liftE :: "exn + 'a \<Rightarrow> ('w, 'a) io" where
  "liftE r w = (r, w)"

definition bindE :: "('w, 'a) io \<Rightarrow> ('a \<Rightarrow> ('w, 'b) io) \<Rightarrow> ('w, 'b) io" where
  "bindE m f w = (case m w of (Inl e, w') \<Rightarrow> (Inl e, w') | (Inr x, w') \<Rightarrow> f x w')"

text \<open>\<open>tryE m h f\<close>: \<^verbatim>\<open>try: x = m  except Exception as e: h(e)  else: f(x)\<close>.\<close>

definition tryE :: "('w, 'a) io \<Rightarrow> (exn \<Rightarrow> ('w, 'b) io) \<Rightarrow> ('a \<Rightarrow> ('w, 'b) io) \<Rightarrow> ('w, 'b) io" where
  "tryE m h f w = (case m w of (Inl e, w') \<Rightarrow> h e w' | (Inr x, w') \<Rightarrow> f x w')"

text \<open>\<open>for x in xs: body(x)\<close>, stopping at the first exception.\<close>

fun forE :: "('a \<Rightarrow> ('w, unit) io) \<Rightarrow> 'a list \<Rightarrow> ('w, unit) io" where
  "forE f [] = retE ()"
| "forE f (x # xs) = bindE (f x) (\<lambda>_. forE f xs)"

text \<open>\<^verbatim>\<open>[f(x) for x in xs]\<close> for a computation \<open>f\<close>, from the left.\<close>

fun mapE :: "('a \<Rightarrow> ('w, 'b) io) \<Rightarrow> 'a list \<Rightarrow> ('w, 'b list) io" where
  "mapE f [] = retE []"
| "mapE f (x # xs) = bindE (f x) (\<lambda>y. bindE (mapE f xs) (\<lambda>ys. retE (y # ys)))"

lemma retE_apply [io_simps]: "retE x w = (Inr x, w)"
  by (simp add: retE_def)

lemma raiseE_apply [io_simps]: "raiseE e w = (Inl e, w)"
  by (simp add: raiseE_def)

lemma liftE_apply [io_simps]: "liftE r w = (r, w)"
  by (simp add: liftE_def)

lemma bindE_Inr_iff:
  "bindE m f w = (Inr y, w'') \<longleftrightarrow> (\<exists>x w'. m w = (Inr x, w') \<and> f x w' = (Inr y, w''))"
  by (auto simp: bindE_def split: prod.splits sum.splits)

lemma bindE_Inl_iff:
  "bindE m f w = (Inl e, w'') \<longleftrightarrow>
     m w = (Inl e, w'') \<or> (\<exists>x w'. m w = (Inr x, w') \<and> f x w' = (Inl e, w''))"
  by (auto simp: bindE_def split: prod.splits sum.splits)

lemma tryE_iff:
  "tryE m h f w = p \<longleftrightarrow>
     (\<exists>e w'. m w = (Inl e, w') \<and> h e w' = p) \<or> (\<exists>x w'. m w = (Inr x, w') \<and> f x w' = p)"
  by (auto simp: tryE_def split: prod.splits sum.splits)

lemma bindE_Inr [io_simps]: "m w = (Inr x, w') \<Longrightarrow> bindE m f w = f x w'"
  by (simp add: bindE_def)

lemma bindE_Inl [io_simps]: "m w = (Inl e, w') \<Longrightarrow> bindE m f w = (Inl e, w')"
  by (simp add: bindE_def)

lemma tryE_Inr [io_simps]: "m w = (Inr x, w') \<Longrightarrow> tryE m h f w = f x w'"
  by (simp add: tryE_def)

lemma tryE_Inl [io_simps]: "m w = (Inl e, w') \<Longrightarrow> tryE m h f w = h e w'"
  by (simp add: tryE_def)

lemma bindE_retE [io_simps]: "bindE (retE x) f = f x"
  by (rule ext) (simp add: bindE_def retE_def)

lemma bindE_raiseE [io_simps]: "bindE (raiseE e) f = raiseE e"
  by (rule ext) (simp add: bindE_def raiseE_def)

lemma bindE_assoc: "bindE (bindE m f) g = bindE m (\<lambda>x. bindE (f x) g)"
  by (rule ext) (simp add: bindE_def split: prod.splits sum.splits)

section \<open>Frame and invariant reasoning\<close>

text \<open>
  \<open>keeps R m\<close>: whatever \<open>m\<close> does and however it ends, the worlds before and after are related by
  \<open>R\<close>. For a reflexive and transitive \<open>R\<close> this is compositional, so a statement about every
  execution of a handler, its failures included, is proved by walking over its text.
\<close>

definition keeps :: "('w \<Rightarrow> 'w \<Rightarrow> bool) \<Rightarrow> ('w, 'a) io \<Rightarrow> bool" where
  "keeps R m \<longleftrightarrow> (\<forall>w. R w (snd (m w)))"

definition preorder_on_worlds :: "('w \<Rightarrow> 'w \<Rightarrow> bool) \<Rightarrow> bool" where
  "preorder_on_worlds R \<longleftrightarrow> (\<forall>w. R w w) \<and> (\<forall>a b c. R a b \<longrightarrow> R b c \<longrightarrow> R a c)"

lemma keepsI: "(\<And>w r w'. m w = (r, w') \<Longrightarrow> R w w') \<Longrightarrow> keeps R m"
  by (simp add: keeps_def) (metis prod.collapse)

lemma keepsD: "keeps R m \<Longrightarrow> m w = (r, w') \<Longrightarrow> R w w'"
  unfolding keeps_def by (metis snd_conv)

lemma keeps_retE [keeps_intros]: "preorder_on_worlds R \<Longrightarrow> keeps R (retE x)"
  by (simp add: keeps_def preorder_on_worlds_def retE_def)

lemma keeps_raiseE [keeps_intros]: "preorder_on_worlds R \<Longrightarrow> keeps R (raiseE e)"
  by (simp add: keeps_def preorder_on_worlds_def raiseE_def)

lemma keeps_liftE [keeps_intros]: "preorder_on_worlds R \<Longrightarrow> keeps R (liftE r)"
  by (simp add: keeps_def preorder_on_worlds_def liftE_def)

lemma keeps_bindE [keeps_intros]:
  assumes "preorder_on_worlds R" "keeps R m" "\<And>x. keeps R (f x)"
  shows "keeps R (bindE m f)"
  using assms unfolding keeps_def bindE_def preorder_on_worlds_def
  by (auto split: prod.splits sum.splits) (metis snd_conv)+

lemma keeps_tryE [keeps_intros]:
  assumes "preorder_on_worlds R" "keeps R m" "\<And>e. keeps R (h e)" "\<And>x. keeps R (f x)"
  shows "keeps R (tryE m h f)"
  using assms unfolding keeps_def tryE_def preorder_on_worlds_def
  by (auto split: prod.splits sum.splits) (metis snd_conv)+

lemma keeps_forE [keeps_intros]:
  assumes "preorder_on_worlds R" "\<And>x. keeps R (f x)"
  shows "keeps R (forE f xs)"
  using assms by (induction xs) (auto intro!: keeps_intros)

lemma keeps_mapE [keeps_intros]:
  assumes "preorder_on_worlds R" "\<And>x. keeps R (f x)"
  shows "keeps R (mapE f xs)"
  using assms by (induction xs) (auto intro!: keeps_intros)

section \<open>Strings and numbers of the standard library\<close>

definition starts_with :: "string \<Rightarrow> string \<Rightarrow> bool" where
  "starts_with s p = (take (length p) s = p)"

text \<open>\<^verbatim>\<open>str.isspace\<close> on the characters up to \<open>255\<close>, as \<^verbatim>\<open>str.strip\<close> and the class \<^verbatim>\<open>\\s\<close> use it.\<close>

definition is_space :: "char \<Rightarrow> bool" where
  "is_space c = (let n = (of_char c :: nat) in
     9 \<le> n \<and> n \<le> 13 \<or> 28 \<le> n \<and> n \<le> 32 \<or> n = 133 \<or> n = 160)"

definition lstrip :: "string \<Rightarrow> string" where
  "lstrip s = dropWhile is_space s"

definition rstrip :: "string \<Rightarrow> string" where
  "rstrip s = rev (dropWhile is_space (rev s))"

definition strip :: "string \<Rightarrow> string" where
  "strip s = rstrip (lstrip s)"

definition lower_char :: "char \<Rightarrow> char" where
  "lower_char c = (let n = (of_char c :: nat) in if 65 \<le> n \<and> n \<le> 90 then char_of (n + 32) else c)"

definition lower :: "string \<Rightarrow> string" where
  "lower s = map lower_char s"

text \<open>\<^verbatim>\<open>s.split(sep, n)\<close> for a one-character separator: at most \<open>n\<close> cuts, from the left.\<close>

fun split_char :: "char \<Rightarrow> nat \<Rightarrow> string \<Rightarrow> string list" where
  "split_char c 0 s = [s]"
| "split_char c (Suc n) s =
     (case dropWhile (\<lambda>x. x \<noteq> c) s of
        [] \<Rightarrow> [s]
      | _ # rest \<Rightarrow> takeWhile (\<lambda>x. x \<noteq> c) s # split_char c n rest)"

lemma cut_at_char:
  assumes "c \<notin> set a"
  shows "dropWhile (\<lambda>x. x \<noteq> c) (a @ c # b) = c # b" "takeWhile (\<lambda>x. x \<noteq> c) (a @ c # b) = a"
  using assms by (induction a) auto

lemma split_char_cut:
  "c \<notin> set a \<Longrightarrow> split_char c (Suc n) (a @ c # b) = a # split_char c n b"
  by (simp add: cut_at_char)

text \<open>The first cut of a longer string, read backwards.\<close>

lemma split_char_Cons:
  assumes "split_char c (Suc n) s = a # b # bs"
  shows "\<exists>rest. s = a @ c # rest \<and> c \<notin> set a \<and> split_char c n rest = b # bs"
proof (cases "dropWhile (\<lambda>x. x \<noteq> c) s")
  case Nil
  with assms show ?thesis by simp
next
  case (Cons d rest)
  then have "d = c" by (metis (mono_tags, lifting) hd_dropWhile list.discI list.sel(1))
  moreover have "s = takeWhile (\<lambda>x. x \<noteq> c) s @ d # rest" using Cons by (metis takeWhile_dropWhile_id)
  moreover have "a = takeWhile (\<lambda>x. x \<noteq> c) s" "split_char c n rest = b # bs" using assms Cons by auto
  ultimately show ?thesis by (metis (mono_tags, lifting) set_takeWhileD)
qed

text \<open>\<^verbatim>\<open>sep.join(xs)\<close>.\<close>

fun join_with :: "string \<Rightarrow> string list \<Rightarrow> string" where
  "join_with sep [] = []"
| "join_with sep [x] = x"
| "join_with sep (x # xs) = x @ sep @ join_with sep xs"

fun dec_digits :: "nat \<Rightarrow> string" where
  "dec_digits n = (if n < 10 then [char_of (48 + n)]
                   else dec_digits (n div 10) @ [char_of (48 + n mod 10)])"

declare dec_digits.simps [simp del]

definition str_int :: "int \<Rightarrow> string" where
  "str_int i = (if i < 0 then CHR ''-'' # dec_digits (nat (- i)) else dec_digits (nat i))"

text \<open>Zero-padded decimal, as \<^verbatim>\<open>%0nd\<close>.\<close>

definition pad_int :: "nat \<Rightarrow> int \<Rightarrow> string" where
  "pad_int n i = (let s = str_int i in replicate (n - length s) (CHR ''0'') @ s)"

section \<open>UTC timestamps\<close>

text \<open>
  A timezone-aware UTC \<^verbatim>\<open>datetime\<close> is its number of microseconds since the epoch.
  \<open>isoformat\<close> is \<^verbatim>\<open>datetime.isoformat\<close>: the date by the proleptic Gregorian calendar, the
  microseconds only when they are not zero, and the offset \<^verbatim>\<open>+00:00\<close>.
\<close>

definition civil_from_days :: "int \<Rightarrow> int \<times> int \<times> int" where
  "civil_from_days z0 =
     (let z = z0 + 719468;
          era = z div 146097;
          doe = z mod 146097;
          yoe = (doe - doe div 1460 + doe div 36524 - doe div 146096) div 365;
          doy = doe - (365 * yoe + yoe div 4 - yoe div 100);
          mp = (5 * doy + 2) div 153;
          d = doy - (153 * mp + 2) div 5 + 1;
          m = (if mp < 10 then mp + 3 else mp - 9);
          y = yoe + era * 400 + (if m \<le> 2 then 1 else 0)
      in (y, m, d))"

definition isoformat :: "int \<Rightarrow> string" where
  "isoformat us =
     (let secs = us div 1000000; frac = us mod 1000000;
          days = secs div 86400; sod = secs mod 86400;
          (y, m, d) = civil_from_days days
      in pad_int 4 y @ ''-'' @ pad_int 2 m @ ''-'' @ pad_int 2 d @ ''T'' @
         pad_int 2 (sod div 3600) @ '':'' @ pad_int 2 (sod div 60 mod 60) @ '':'' @
         pad_int 2 (sod mod 60) @
         (if frac = 0 then [] else ''.'' @ pad_int 6 frac) @ ''+00:00'')"

text \<open>\<^verbatim>\<open>isoformat(timespec='milliseconds')\<close>.\<close>

definition isoformat_ms :: "int \<Rightarrow> string" where
  "isoformat_ms us =
     take 19 (isoformat (us - us mod 1000000)) @ ''.'' @ pad_int 3 (us mod 1000000 div 1000) @ ''+00:00''"

text \<open>\<^verbatim>\<open>int(dt.timestamp())\<close> for a time after the epoch.\<close>

definition epoch_secs :: "int \<Rightarrow> int" where
  "epoch_secs us = us div 1000000"

section \<open>Integers from values\<close>

text \<open>\<^verbatim>\<open>int(value)\<close> of a \<^verbatim>\<open>Decimal\<close> truncates towards zero.\<close>

definition trunc_rat :: "rat \<Rightarrow> int" where
  "trunc_rat q = (if q < 0 then \<lceil>q\<rceil> else \<lfloor>q\<rfloor>)"

lemma trunc_rat_of_int [simp]: "trunc_rat (of_int i) = i"
  by (simp add: trunc_rat_def)

fun digits_val :: "nat \<Rightarrow> string \<Rightarrow> nat option" where
  "digits_val acc [] = Some acc"
| "digits_val acc (c # s) =
     (let n = (of_char c :: nat) in if 48 \<le> n \<and> n \<le> 57 then digits_val (acc * 10 + (n - 48)) s else None)"

text \<open>\<^verbatim>\<open>int(s)\<close>: blanks around, a sign, decimal digits with single underscores between them.\<close>

fun join_groups :: "string list \<Rightarrow> string option" where
  "join_groups [] = Some []"
| "join_groups (g # gs) = (if g = [] then None else map_option (\<lambda>t. g @ t) (join_groups gs))"

definition unsigned_int :: "string \<Rightarrow> nat option" where
  "unsigned_int s = Option.bind (join_groups (split_char (CHR ''_'') (length s) s)) (digits_val 0)"

definition int_of_str :: "string \<Rightarrow> int option" where
  "int_of_str s0 =
     (case strip s0 of
        [] \<Rightarrow> None
      | c # s \<Rightarrow>
          if c = CHR ''-'' then map_option (\<lambda>n. - int n) (unsigned_int s)
          else if c = CHR ''+'' then map_option int (unsigned_int s)
          else map_option int (unsigned_int (c # s)))"

text \<open>\<^verbatim>\<open>int(v)\<close>: \<open>None\<close> stands for its \<^verbatim>\<open>TypeError\<close> or \<^verbatim>\<open>ValueError\<close>.\<close>

fun to_int :: "pyval \<Rightarrow> int option" where
  "to_int (PInt i) = Some i"
| "to_int (PBool b) = Some (if b then 1 else 0)"
| "to_int (PDec q) = Some (trunc_rat q)"
| "to_int (PFloat q) = Some (trunc_rat q)"
| "to_int (PStr s) = int_of_str s"
| "to_int _ = None"

section \<open>Responses of client libraries\<close>

text \<open>\<open>for x in v.get(k) or []\<close>: the elements, or the exception of the access.\<close>

definition resp_list :: "pyval \<Rightarrow> string \<Rightarrow> exn + pyval list" where
  "resp_list v k =
     (case get_attr v k of
        Inl e \<Rightarrow> Inl e
      | Inr x \<Rightarrow>
          if \<not> truthy x then Inr []
          else (case as_list x of Some xs \<Rightarrow> Inr xs | None \<Rightarrow> Inl TypeError))"

end
