(* ===== verification/Cloud.thy ===== *)
theory Cloud
  imports Py_Prelude
begin

text \<open>
  The services outside the repository, as parameters of the model. DynamoDB is a record of
  operations on an abstract state; what the code relies on (conditional writes are atomic, a read
  returns the stored row, numbers come back as \<^verbatim>\<open>Decimal\<close>) is the predicate \<open>ddb_ok\<close>, used as a
  named hypothesis. Every other external call (EventBridge, SQS, S3, EC2, CloudWatch, Stripe, the
  transcription backend, ...) is recorded in the world's \<open>trace\<close> and answered by \<open>svc\<close>, an
  arbitrary function of the calls so far. \<open>mem_env\<close> is a concrete environment with an in-memory
  table, used to show that the hypotheses can hold.
\<close>

section \<open>DynamoDB expressions\<close>

text \<open>The condition and update expressions the code writes, as syntax.\<close>

datatype cond =
    CTrue
  | AttrExists string
  | AttrNotExists string
  | AttrEq string pyval
  | AttrNe string pyval
  | AttrPrefix string string
  | CAnd cond cond
  | COr cond cond

datatype upd = SetAttr string pyval | RemoveAttr string

text \<open>What the resource layer stores for a Python value: integers become \<^verbatim>\<open>Decimal\<close>.\<close>

fun ddb_val :: "pyval \<Rightarrow> pyval" where
  "ddb_val (PInt i) = PDec (of_int i)"
| "ddb_val (PList xs) = PList (map ddb_val xs)"
| "ddb_val (PDict d) = PDict (map (\<lambda>(k, v). (k, ddb_val v)) d)"
| "ddb_val v = v"

definition ddb_item :: "item \<Rightarrow> item" where
  "ddb_item it = map (\<lambda>(k, v). (k, ddb_val v)) it"

fun eval_cond :: "cond \<Rightarrow> item \<Rightarrow> bool" where
  "eval_cond CTrue it = True"
| "eval_cond (AttrExists a) it = (map_of it a \<noteq> None)"
| "eval_cond (AttrNotExists a) it = (map_of it a = None)"
| "eval_cond (AttrEq a v) it = (map_of it a = Some (ddb_val v))"
| "eval_cond (AttrNe a v) it = (map_of it a \<noteq> Some (ddb_val v))"
| "eval_cond (AttrPrefix a p) it = (case Option.bind (map_of it a) as_str of None \<Rightarrow> False | Some s \<Rightarrow> starts_with s p)"
| "eval_cond (CAnd c d) it = (eval_cond c it \<and> eval_cond d it)"
| "eval_cond (COr c d) it = (eval_cond c it \<or> eval_cond d it)"

fun apply_upd :: "upd \<Rightarrow> item \<Rightarrow> item" where
  "apply_upd (SetAttr a v) it = dset a (ddb_val v) it"
| "apply_upd (RemoveAttr a) it = ddel a it"

definition apply_upds :: "upd list \<Rightarrow> item \<Rightarrow> item" where
  "apply_upds us it = fold apply_upd us it"

lemma apply_upds_Nil [simp]: "apply_upds [] it = it"
  by (simp add: apply_upds_def)

lemma apply_upds_Cons [simp]: "apply_upds (u # us) it = apply_upds us (apply_upd u it)"
  by (simp add: apply_upds_def)

lemma map_of_ddb_item: "map_of (ddb_item it) k = map_option ddb_val (map_of it k)"
  by (induction it) (auto simp: ddb_item_def)

text \<open>An item that is absent is compared as one without attributes.\<close>

definition row_attrs :: "item option \<Rightarrow> item" where
  "row_attrs r = (case r of None \<Rightarrow> [] | Some it \<Rightarrow> it)"

lemma row_attrs_simps [simp]: "row_attrs None = []" "row_attrs (Some it) = it"
  by (simp_all add: row_attrs_def)

section \<open>The environment and the world\<close>

record query =
  q_index :: "string option"
  q_hash :: "string \<times> pyval"
  q_prefix :: "(string \<times> string) option"
  q_limit :: "int option"
  q_forward :: bool
  q_start :: "item option"

record page =
  p_items :: "item list"
  p_last :: "item option"

text \<open>Calls to the other services, with the arguments the code passes.\<close>

datatype call =
    PutEvents string string item string
  | PutMetric string string string
  | AuditStdout item
  | AuditMemory item
  | PostToConnection string item
  | SqsSend string pyval string
  | SqsReceive string int int "int option"
  | SqsDelete string string
  | SqsDeleteBatch string "(pyval \<times> pyval) list"
  | S3GetObject string string
  | Transcribe pyval string
  | PresignPut string string string int int
  | BatchSubmit string string string "(string \<times> string) list"
  | BatchTerminate string string
  | AddBackgroundTask string string
  | Ec2Run item
  | Ec2Describe "(string \<times> string list) list"
  | Ec2DescribeId string
  | Ec2Terminate string
  | StripeCheckout item
  | StripeCreateCustomer string string
  | StripePortal string string
  | StripeVerify string string string
  | CostExplorer string item
  | S3PutObject string string item string
  | S3PutText string string string string
  | S3Download string string string
  | LoadModel string string
  | RunModel string
  | ClaudeMessages item
  | SesSendEmail item
  | WebhookPost string item "item option"
  | WebhookClose
  | SleepSeconds rat
  | EcsDescribe string string
  | TargetHealth string
  | FilterLogEvents string int int string
  | GetMetricData "item list" int int
  | Imds string

record 't world =
  db :: 't
  trace :: "call list"
  ticks :: nat

record audit_settings =
  audit_backend :: string
  audit_table :: string

record 't env =
  d_get :: "string \<Rightarrow> item \<Rightarrow> 't \<Rightarrow> (exn + item option) \<times> 't"
  d_put :: "string \<Rightarrow> item \<Rightarrow> cond \<Rightarrow> 't \<Rightarrow> (exn + unit) \<times> 't"
  d_update :: "string \<Rightarrow> item \<Rightarrow> upd list \<Rightarrow> cond \<Rightarrow> 't \<Rightarrow> (exn + item) \<times> 't"
  d_query :: "string \<Rightarrow> query \<Rightarrow> 't \<Rightarrow> (exn + page) \<times> 't"
  d_scan :: "string \<Rightarrow> cond \<Rightarrow> item option \<Rightarrow> 't \<Rightarrow> (exn + page) \<times> 't"
  key_attrs :: "string \<Rightarrow> string list"
  svc :: "call list \<Rightarrow> call \<Rightarrow> exn + pyval"
  clock :: "nat \<Rightarrow> int"
  monotonic :: "nat \<Rightarrow> rat"
  gen_id :: "nat \<Rightarrow> string"
  entropy :: "nat \<Rightarrow> nat"
  shuffled :: "nat \<Rightarrow> int list \<Rightarrow> int list"
  parse_dt :: "string \<Rightarrow> int option"
  pyd_dt :: "pyval \<Rightarrow> int option"
  pyd_int :: "pyval \<Rightarrow> int option"
  pyd_float :: "pyval \<Rightarrow> rat option"
  utf8 :: "string \<Rightarrow> string"
  str_exn :: "exn \<Rightarrow> string"
  json_dt :: "int \<Rightarrow> string"
  audit_cfg :: audit_settings

definition on_db :: "('t \<Rightarrow> (exn + 'a) \<times> 't) \<Rightarrow> ('t world, 'a) io" where
  "on_db f w = (case f (db w) of (r, t) \<Rightarrow> (r, w\<lparr>db := t\<rparr>))"

definition get_item :: "'t env \<Rightarrow> string \<Rightarrow> item \<Rightarrow> ('t world, item option) io" where
  "get_item E tbl k = on_db (d_get E tbl k)"

definition put_item :: "'t env \<Rightarrow> string \<Rightarrow> item \<Rightarrow> cond \<Rightarrow> ('t world, unit) io" where
  "put_item E tbl it c = on_db (d_put E tbl it c)"

definition update_item :: "'t env \<Rightarrow> string \<Rightarrow> item \<Rightarrow> upd list \<Rightarrow> cond \<Rightarrow> ('t world, item) io" where
  "update_item E tbl k us c = on_db (d_update E tbl k us c)"

definition query_items :: "'t env \<Rightarrow> string \<Rightarrow> query \<Rightarrow> ('t world, page) io" where
  "query_items E tbl q = on_db (d_query E tbl q)"

definition scan_items :: "'t env \<Rightarrow> string \<Rightarrow> cond \<Rightarrow> item option \<Rightarrow> ('t world, page) io" where
  "scan_items E tbl c k = on_db (d_scan E tbl c k)"

definition invoke :: "'t env \<Rightarrow> call \<Rightarrow> ('t world, pyval) io" where
  "invoke E c w = (svc E (trace w) c, w\<lparr>trace := trace w @ [c]\<rparr>)"

text \<open>
  Inputs that no argument determines: the \<open>n\<close>-th reading of the clock (microseconds), of the
  monotonic clock (seconds), of the
  identifier generators, of \<^verbatim>\<open>os.urandom\<close> and of \<^verbatim>\<open>random.shuffle\<close> is an arbitrary function of \<open>n\<close>.
  \<open>parse_dt\<close> is \<^verbatim>\<open>datetime.fromisoformat\<close>; \<open>pyd_dt\<close>, \<open>pyd_int\<close>, \<open>pyd_float\<close> and \<open>json_dt\<close> are the
  validation library's conversions of a value to a timestamp, an integer or a float and its JSON form
  of a timestamp. \<open>utf8\<close> is \<^verbatim>\<open>bytes.decode('utf-8', 'replace')\<close> and \<open>str_exn\<close> is \<^verbatim>\<open>str(exc)\<close>.
\<close>

definition tick :: "(nat \<Rightarrow> 'a) \<Rightarrow> ('t world, 'a) io" where
  "tick f w = (Inr (f (ticks w)), w\<lparr>ticks := Suc (ticks w)\<rparr>)"

definition utcnow :: "'t env \<Rightarrow> ('t world, int) io" where
  "utcnow E = tick (clock E)"

definition new_id :: "'t env \<Rightarrow> ('t world, string) io" where
  "new_id E = tick (gen_id E)"

text \<open>An effect of the process itself (a line printed, an object handed over), which cannot fail.\<close>

definition note_call :: "call \<Rightarrow> ('t world, unit) io" where
  "note_call c w = (Inr (), w\<lparr>trace := trace w @ [c]\<rparr>)"

section \<open>What the code relies on\<close>

text \<open>
  \<open>V t tbl k\<close> is the row a table state holds. A conditional write that returns was applied to a
  row satisfying its condition; one rejected with the condition failure changed nothing and its
  condition was false; any other failure (throttling, timeout) leaves the outcome open: the write
  may or may not have been applied.
\<close>

type_synonym 't db_view = "'t \<Rightarrow> string \<Rightarrow> item \<Rightarrow> item option"

definition store_row :: "(string \<Rightarrow> item \<Rightarrow> item option) \<Rightarrow> string \<Rightarrow> item \<Rightarrow> item \<Rightarrow>
    (string \<Rightarrow> item \<Rightarrow> item option)" where
  "store_row v tbl k it = v(tbl := (v tbl)(k \<mapsto> it))"

lemma store_row_apply:
  "store_row v tbl k it tbl' k' = (if tbl' = tbl \<and> k' = k then Some it else v tbl' k')"
  by (simp add: store_row_def)

definition write_outcome :: "bool \<Rightarrow> 'v \<Rightarrow> 'v \<Rightarrow> (exn + 'a) \<Rightarrow> 'v \<Rightarrow> bool" where
  "write_outcome c old new r now =
     (case r of
        Inr _ \<Rightarrow> c \<and> now = new
      | Inl e \<Rightarrow> if is_ccf e then \<not> c \<and> now = old else now = old \<or> c \<and> now = new)"

definition key_of :: "'t env \<Rightarrow> string \<Rightarrow> item \<Rightarrow> item" where
  "key_of E tbl it = map (\<lambda>a. (a, dget it a)) (key_attrs E tbl)"

text \<open>A missing row is created from its key by an update.\<close>

definition updated_row :: "item \<Rightarrow> upd list \<Rightarrow> item option \<Rightarrow> item" where
  "updated_row k us r = apply_upds us (case r of None \<Rightarrow> ddb_item k | Some it \<Rightarrow> it)"

definition writes_ok :: "'t env \<Rightarrow> 't db_view \<Rightarrow> bool" where
  "writes_ok E V \<longleftrightarrow>
     (\<forall>tbl it c t r t'. d_put E tbl it c t = (r, t') \<longrightarrow>
        (let k = ddb_item (key_of E tbl it) in
         write_outcome (eval_cond c (row_attrs (V t tbl k))) (V t)
           (store_row (V t) tbl k (ddb_item it)) r (V t'))) \<and>
     (\<forall>tbl k us c t r t'. d_update E tbl k us c t = (r, t') \<longrightarrow>
        (let row = V t tbl (ddb_item k); new = updated_row k us row in
         write_outcome (eval_cond c (row_attrs row)) (V t)
           (store_row (V t) tbl (ddb_item k) new) r (V t') \<and>
         (\<forall>it. r = Inr it \<longrightarrow> it = new)))"

definition reads_ok :: "'t env \<Rightarrow> 't db_view \<Rightarrow> bool" where
  "reads_ok E V \<longleftrightarrow>
     (\<forall>tbl k t r t'. d_get E tbl k t = (r, t') \<longrightarrow>
        V t' = V t \<and> (\<forall>i. r = Inr i \<longrightarrow> i = V t tbl (ddb_item k))) \<and>
     (\<forall>tbl q t r t'. d_query E tbl q t = (r, t') \<longrightarrow> V t' = V t) \<and>
     (\<forall>tbl c s t r t'. d_scan E tbl c s t = (r, t') \<longrightarrow> V t' = V t)"

definition ddb_ok :: "'t env \<Rightarrow> 't db_view \<Rightarrow> bool" where
  "ddb_ok E V \<longleftrightarrow> reads_ok E V \<and> writes_ok E V"

abbreviation rows :: "'t db_view \<Rightarrow> 't world \<Rightarrow> string \<Rightarrow> item \<Rightarrow> item option" where
  "rows V w \<equiv> V (db w)"

text \<open>The calls that a computation adds to the trace.\<close>

definition new_calls :: "'t world \<Rightarrow> 't world \<Rightarrow> call list" where
  "new_calls w w' = drop (length (trace w)) (trace w')"

lemma get_item_cases:
  assumes "ddb_ok E V" "get_item E tbl k w = (r, w')"
  shows "rows V w' = rows V w" "trace w' = trace w" "r = Inr i \<Longrightarrow> i = rows V w tbl (ddb_item k)"
proof -
  from assms(2) obtain t where g: "d_get E tbl k (db w) = (r, t)" and w': "w' = w\<lparr>db := t\<rparr>"
    by (auto simp: get_item_def on_db_def split: prod.splits)
  from assms(1) have "V t = V (db w) \<and> (\<forall>i. r = Inr i \<longrightarrow> i = V (db w) tbl (ddb_item k))"
    using g by (simp add: ddb_ok_def reads_ok_def)
  then show "rows V w' = rows V w" "trace w' = trace w" "r = Inr i \<Longrightarrow> i = rows V w tbl (ddb_item k)"
    using w' by auto
qed

lemma query_items_cases:
  assumes "ddb_ok E V" "query_items E tbl q w = (r, w')"
  shows "rows V w' = rows V w" "trace w' = trace w"
  using assms by (auto simp: query_items_def on_db_def ddb_ok_def reads_ok_def split: prod.splits)

lemma scan_items_cases:
  assumes "ddb_ok E V" "scan_items E tbl c s w = (r, w')"
  shows "rows V w' = rows V w" "trace w' = trace w"
  using assms by (auto simp: scan_items_def on_db_def ddb_ok_def reads_ok_def split: prod.splits)

lemma put_item_cases:
  assumes "ddb_ok E V" "put_item E tbl it c w = (r, w')" "k = ddb_item (key_of E tbl it)"
  shows "write_outcome (eval_cond c (row_attrs (rows V w tbl k))) (rows V w)
           (store_row (rows V w) tbl k (ddb_item it)) r (rows V w')"
    and "trace w' = trace w"
  using assms by (auto simp: put_item_def on_db_def ddb_ok_def writes_ok_def Let_def split: prod.splits)

lemma update_item_cases:
  assumes "ddb_ok E V" "update_item E tbl k us c w = (r, w')"
  shows "write_outcome (eval_cond c (row_attrs (rows V w tbl (ddb_item k)))) (rows V w)
           (store_row (rows V w) tbl (ddb_item k) (updated_row k us (rows V w tbl (ddb_item k))))
           r (rows V w')"
    and "r = Inr it \<Longrightarrow> it = updated_row k us (rows V w tbl (ddb_item k))"
    and "trace w' = trace w"
proof -
  from assms(2) obtain t where g: "d_update E tbl k us c (db w) = (r, t)" and w': "w' = w\<lparr>db := t\<rparr>"
    by (auto simp: update_item_def on_db_def split: prod.splits)
  have "let row = V (db w) tbl (ddb_item k); new = updated_row k us row in
         write_outcome (eval_cond c (row_attrs row)) (V (db w))
           (store_row (V (db w)) tbl (ddb_item k) new) r (V t) \<and> (\<forall>it. r = Inr it \<longrightarrow> it = new)"
    using assms(1) g by (simp add: ddb_ok_def writes_ok_def)
  then show "write_outcome (eval_cond c (row_attrs (rows V w tbl (ddb_item k)))) (rows V w)
           (store_row (rows V w) tbl (ddb_item k) (updated_row k us (rows V w tbl (ddb_item k))))
           r (rows V w')"
    and "r = Inr it \<Longrightarrow> it = updated_row k us (rows V w tbl (ddb_item k))"
    and "trace w' = trace w"
    using w' by (auto simp: Let_def)
qed

lemma write_outcome_simps:
  "write_outcome c old new (Inr x) now \<longleftrightarrow> c \<and> now = new"
  "is_ccf e \<Longrightarrow> write_outcome c old new (Inl e) now \<longleftrightarrow> \<not> c \<and> now = old"
  "\<not> is_ccf e \<Longrightarrow> write_outcome c old new (Inl e) now \<longleftrightarrow> now = old \<or> c \<and> now = new"
  by (simp_all add: write_outcome_def)

lemma write_outcome_weak: "write_outcome c old new r now \<Longrightarrow> now = old \<or> c \<and> now = new"
  by (auto simp: write_outcome_def split: sum.splits if_splits)

lemma invoke_cases:
  assumes "invoke E c w = (r, w')"
  shows "rows V w' = rows V w" "trace w' = trace w @ [c]" "r = svc E (trace w) c"
  using assms by (auto simp: invoke_def)

lemma tick_cases:
  assumes "tick f w = (r, w')"
  shows "rows V w' = rows V w" "trace w' = trace w" "r = Inr (f (ticks w))"
  using assms by (auto simp: tick_def)

lemma note_call_cases:
  assumes "note_call c w = (r, w')"
  shows "rows V w' = rows V w" "trace w' = trace w @ [c]" "r = Inr ()"
  using assms by (auto simp: note_call_def)

section \<open>Relations on worlds for frame arguments\<close>

text \<open>The rows of the database are only related by \<open>R\<close>; any calls may be appended.\<close>

definition rows_rel :: "'t db_view \<Rightarrow> ((string \<Rightarrow> item \<Rightarrow> item option) \<Rightarrow>
    (string \<Rightarrow> item \<Rightarrow> item option) \<Rightarrow> bool) \<Rightarrow> 't world \<Rightarrow> 't world \<Rightarrow> bool" where
  "rows_rel V R w w' \<longleftrightarrow> R (rows V w) (rows V w')"

lemma preorder_rows_rel:
  "(\<And>a. R a a) \<Longrightarrow> (\<And>a b c. R a b \<Longrightarrow> R b c \<Longrightarrow> R a c) \<Longrightarrow> preorder_on_worlds (rows_rel V R)"
  unfolding preorder_on_worlds_def rows_rel_def by blast

lemma keeps_same_rows:
  assumes "preorder_on_worlds (rows_rel V R)"
    and "\<And>w r w'. m w = (r, w') \<Longrightarrow> rows V w' = rows V w"
  shows "keeps (rows_rel V R) m"
proof (rule keepsI)
  fix w r w' assume "m w = (r, w')"
  then have "rows V w' = rows V w" by (rule assms(2))
  then have "rows_rel V R w w' = rows_rel V R w w" by (simp add: rows_rel_def)
  then show "rows_rel V R w w'" using assms(1) by (simp add: preorder_on_worlds_def)
qed

lemma keeps_get_item [keeps_intros]:
  "ddb_ok E V \<Longrightarrow> preorder_on_worlds (rows_rel V R) \<Longrightarrow> keeps (rows_rel V R) (get_item E tbl k)"
  by (erule keeps_same_rows) (rule get_item_cases(1))

lemma keeps_query_items [keeps_intros]:
  "ddb_ok E V \<Longrightarrow> preorder_on_worlds (rows_rel V R) \<Longrightarrow> keeps (rows_rel V R) (query_items E tbl q)"
  by (erule keeps_same_rows) (rule query_items_cases(1))

lemma keeps_scan_items [keeps_intros]:
  "ddb_ok E V \<Longrightarrow> preorder_on_worlds (rows_rel V R) \<Longrightarrow> keeps (rows_rel V R) (scan_items E tbl c s)"
  by (erule keeps_same_rows) (rule scan_items_cases(1))

lemma keeps_invoke [keeps_intros]:
  "preorder_on_worlds (rows_rel V R) \<Longrightarrow> keeps (rows_rel V R) (invoke E c)"
  by (erule keeps_same_rows) (rule invoke_cases(1))

lemma keeps_tick [keeps_intros]:
  "preorder_on_worlds (rows_rel V R) \<Longrightarrow> keeps (rows_rel V R) (tick f)"
  by (erule keeps_same_rows) (rule tick_cases(1))

lemma keeps_note_call [keeps_intros]:
  "preorder_on_worlds (rows_rel V R) \<Longrightarrow> keeps (rows_rel V R) (note_call c)"
  by (erule keeps_same_rows) (rule note_call_cases(1))

lemma keeps_utcnow [keeps_intros]:
  "preorder_on_worlds (rows_rel V R) \<Longrightarrow> keeps (rows_rel V R) (utcnow E)"
  unfolding utcnow_def by (rule keeps_tick)

lemma keeps_new_id [keeps_intros]:
  "preorder_on_worlds (rows_rel V R) \<Longrightarrow> keeps (rows_rel V R) (new_id E)"
  unfolding new_id_def by (rule keeps_tick)

lemma keeps_update_item:
  assumes "ddb_ok E V" "\<And>a. R a a"
    and "\<And>v. eval_cond c (row_attrs (v tbl (ddb_item k))) \<Longrightarrow>
           R v (store_row v tbl (ddb_item k) (updated_row k us (v tbl (ddb_item k))))"
  shows "keeps (rows_rel V R) (update_item E tbl k us c)"
proof (rule keepsI)
  fix w r w' assume "update_item E tbl k us c w = (r, w')"
  from write_outcome_weak [OF update_item_cases(1) [OF assms(1) this]] show "rows_rel V R w w'"
    using assms(2,3) by (auto simp: rows_rel_def)
qed

lemma keeps_put_item:
  assumes "ddb_ok E V" "\<And>a. R a a" "key = ddb_item (key_of E tbl it)"
    and "\<And>v. eval_cond c (row_attrs (v tbl key)) \<Longrightarrow> R v (store_row v tbl key (ddb_item it))"
  shows "keeps (rows_rel V R) (put_item E tbl it c)"
proof (rule keepsI)
  fix w r w' assume "put_item E tbl it c w = (r, w')"
  from write_outcome_weak [OF put_item_cases(1) [OF assms(1) this assms(3)]] show "rows_rel V R w w'"
    using assms(2,4) by (auto simp: rows_rel_def)
qed

text \<open>One table stays as it is.\<close>

definition same_table :: "string \<Rightarrow> (string \<Rightarrow> item \<Rightarrow> item option) \<Rightarrow> (string \<Rightarrow> item \<Rightarrow> item option) \<Rightarrow> bool" where
  "same_table tbl v v' \<longleftrightarrow> v' tbl = v tbl"

lemma preorder_same_table [simp]: "preorder_on_worlds (rows_rel V (same_table tbl))"
  by (rule preorder_rows_rel) (auto simp: same_table_def)

lemma keeps_update_other [keeps_intros]:
  "ddb_ok E V \<Longrightarrow> tbl \<noteq> t \<Longrightarrow> keeps (rows_rel V (same_table t)) (update_item E tbl k us c)"
  by (rule keeps_update_item) (auto simp: same_table_def store_row_def)

lemma keeps_put_other [keeps_intros]:
  "ddb_ok E V \<Longrightarrow> tbl \<noteq> t \<Longrightarrow> keeps (rows_rel V (same_table t)) (put_item E tbl it c)"
  by (rule keeps_put_item [OF _ _ refl]) (auto simp: same_table_def store_row_def)

lemma same_tableD: "keeps (rows_rel V (same_table t)) m \<Longrightarrow> m w = (r, w') \<Longrightarrow> rows V w' t = rows V w t"
  using keepsD [of "rows_rel V (same_table t)" m w r w'] by (simp add: rows_rel_def same_table_def)

section \<open>The calls a computation adds\<close>

text \<open>Only calls satisfying \<open>P\<close> are appended to the trace.\<close>

definition only_calls :: "(call \<Rightarrow> bool) \<Rightarrow> 't world \<Rightarrow> 't world \<Rightarrow> bool" where
  "only_calls P w w' \<longleftrightarrow> (\<exists>cs. trace w' = trace w @ cs \<and> list_all P cs)"

lemma preorder_only_calls [intro, simp]: "preorder_on_worlds (only_calls P)"
  unfolding preorder_on_worlds_def only_calls_def by (auto simp: list_all_iff)

lemma only_calls_new: "only_calls P w w' \<Longrightarrow> c \<in> set (new_calls w w') \<Longrightarrow> P c"
  by (auto simp: only_calls_def new_calls_def list_all_iff)

lemma only_calls_on_db [keeps_intros]: "keeps (only_calls P) (on_db f)"
  by (rule keepsI) (auto simp: on_db_def only_calls_def split: prod.splits)

lemma only_calls_tick [keeps_intros]: "keeps (only_calls P) (tick f)"
  by (rule keepsI) (auto simp: tick_def only_calls_def)

lemma only_calls_invoke [keeps_intros]: "P c \<Longrightarrow> keeps (only_calls P) (invoke E c)"
  by (rule keepsI) (auto simp: invoke_def only_calls_def)

lemma only_calls_note [keeps_intros]: "P c \<Longrightarrow> keeps (only_calls P) (note_call c)"
  by (rule keepsI) (auto simp: note_call_def only_calls_def)

lemma only_calls_db [keeps_intros]:
  "keeps (only_calls P) (get_item E tbl k)" "keeps (only_calls P) (put_item E tbl it c)"
  "keeps (only_calls P) (update_item E tbl k us c)" "keeps (only_calls P) (query_items E tbl q)"
  "keeps (only_calls P) (scan_items E tbl c s)" "keeps (only_calls P) (utcnow E)" "keeps (only_calls P) (new_id E)"
  unfolding get_item_def put_item_def update_item_def query_items_def scan_items_def utcnow_def new_id_def
  by (rule only_calls_on_db only_calls_tick)+

section \<open>A concrete environment\<close>

text \<open>
  An in-memory store whose operations never fail other than by their condition, for the witnesses:
  \<open>keys\<close> names the key attributes of a table, \<open>answer\<close> the other services. Queries and scans
  return no rows.
\<close>

type_synonym mem = "string \<Rightarrow> item \<Rightarrow> item option"

definition mem_env :: "(string \<Rightarrow> string list) \<Rightarrow> (call list \<Rightarrow> call \<Rightarrow> exn + pyval) \<Rightarrow> mem env" where
  "mem_env keys answer =
     \<lparr>d_get = (\<lambda>tbl k t. (Inr (t tbl (ddb_item k)), t)),
      d_put = (\<lambda>tbl it c t.
        let k = ddb_item (map (\<lambda>a. (a, dget it a)) (keys tbl)) in
        if eval_cond c (row_attrs (t tbl k)) then (Inr (), store_row t tbl k (ddb_item it))
        else (Inl (ClientError ccf_code []), t)),
      d_update = (\<lambda>tbl k us c t.
        let row = t tbl (ddb_item k); new = updated_row k us row in
        if eval_cond c (row_attrs row) then (Inr new, store_row t tbl (ddb_item k) new)
        else (Inl (ClientError ccf_code []), t)),
      d_query = (\<lambda>tbl q t. (Inr \<lparr>p_items = [], p_last = None\<rparr>, t)),
      d_scan = (\<lambda>tbl c s t. (Inr \<lparr>p_items = [], p_last = None\<rparr>, t)),
      key_attrs = keys,
      svc = answer,
      clock = (\<lambda>n. 0),
      monotonic = (\<lambda>n. of_nat n),
      gen_id = (\<lambda>n. ''id-'' @ str_int (int n)),
      entropy = (\<lambda>n. n),
      shuffled = (\<lambda>n xs. xs),
      parse_dt = (\<lambda>s. if s = isoformat 0 then Some 0 else None),
      pyd_dt = (\<lambda>v. if v = PStr (isoformat 0) then Some 0 else None),
      pyd_int = as_int,
      pyd_float = (\<lambda>v. case v of PInt i \<Rightarrow> Some (of_int i) | PFloat q \<Rightarrow> Some q | _ \<Rightarrow> None),
      utf8 = (\<lambda>s. s),
      str_exn = (\<lambda>e. ''error''),
      json_dt = isoformat,
      audit_cfg = \<lparr>audit_backend = ''stdout'', audit_table = ''panakoes-audit-log''\<rparr>\<rparr>"

definition mem_view :: "mem db_view" where
  "mem_view t = t"

lemma mem_env_reads: "reads_ok (mem_env keys answer) mem_view"
  by (simp add: reads_ok_def mem_env_def mem_view_def)

lemma mem_env_writes: "writes_ok (mem_env keys answer) mem_view"
proof -
  have ccf: "is_ccf (ClientError ccf_code [])" by simp
  show ?thesis
    unfolding writes_ok_def mem_env_def mem_view_def key_of_def
    by (simp add: Let_def write_outcome_def ccf split: if_split)
qed

lemma mem_env_ok: "ddb_ok (mem_env keys answer) mem_view"
  by (simp add: ddb_ok_def mem_env_reads mem_env_writes)

lemma mem_env_svc [simp]: "svc (mem_env keys answer) = answer"
  by (simp add: mem_env_def)

lemma mem_env_key_attrs [simp]: "key_attrs (mem_env keys answer) = keys"
  by (simp add: mem_env_def)

end
