(* ===== verification/Audit_Log.thy ===== *)
theory Audit_Log
  imports Cloud
begin

text \<open>
  The audit library (\<^verbatim>\<open>services/audit-lib\<close>): the validated \<open>AuditEvent\<close>, the choice of a store from
  the settings, the key layout of the DynamoDB store and the entry point \<open>record_event\<close> that the
  other services call. The package-level singleton \<^verbatim>\<open>_store\<close> is resolved from the settings, which
  never change in a process, so it is modelled by resolving it at each call.
\<close>

record audit_args =
  ra_actor_id :: string
  ra_actor_type :: string
  ra_action :: string
  ra_resource_type :: string
  ra_resource_id :: string
  ra_source_service :: string
  ra_details :: item

record audit_event =
  ae_timestamp :: int
  ae_actor_id :: string
  ae_actor_type :: string
  ae_action :: string
  ae_resource_type :: string
  ae_resource_id :: string
  ae_source_service :: string
  ae_request_id :: string
  ae_details :: item
  ae_source_ip :: "string option"

section \<open>Validation\<close>

definition actor_types :: "string list" where
  "actor_types = [''user'', ''service'', ''system'', ''anonymous'']"

definition is_lower :: "char \<Rightarrow> bool" where
  "is_lower c = (let n = (of_char c :: nat) in 97 \<le> n \<and> n \<le> 122)"

definition is_ident_char :: "char \<Rightarrow> bool" where
  "is_ident_char c = (let n = (of_char c :: nat) in
     97 \<le> n \<and> n \<le> 122 \<or> 48 \<le> n \<and> n \<le> 57 \<or> n = 95)"

fun ident :: "string \<Rightarrow> bool" where
  "ident [] = False"
| "ident (c # cs) = (is_lower c \<and> list_all is_ident_char cs)"

text \<open>
  \<^verbatim>\<open>_ACTION_RE\<close>: two identifiers around one dot. The value has been stripped before the validator
  sees it, so that \<^verbatim>\<open>$\<close> before a final newline plays no role.
\<close>

definition action_re :: "string \<Rightarrow> bool" where
  "action_re s = (case split_char (CHR ''.'') 1 s of [a, b] \<Rightarrow> ident a \<and> ident b | _ \<Rightarrow> False)"

text \<open>\<open>AuditEvent(**payload)\<close> with the defaults \<open>ts\<close> and \<open>rid\<close>, \<open>now\<close> the validator's clock.\<close>

definition make_audit_event :: "int \<Rightarrow> int \<Rightarrow> string \<Rightarrow> audit_args \<Rightarrow> exn + audit_event" where
  "make_audit_event ts now rid a =
     (if strip (ra_actor_id a) = [] then Inl (ValueError ''actor_id'')
      else if ra_actor_type a \<notin> set actor_types then Inl (ValueError ''actor_type'')
      else if \<not> action_re (strip (ra_action a)) then Inl (ValueError ''action'')
      else if strip (ra_resource_type a) = [] then Inl (ValueError ''resource_type'')
      else if strip (ra_resource_id a) = [] then Inl (ValueError ''resource_id'')
      else if strip (ra_source_service a) = [] then Inl (ValueError ''source_service'')
      else if ts - now > 5000000 then Inl (ValueError ''timestamp must be in the past or present (UTC)'')
      else Inr \<lparr>ae_timestamp = ts, ae_actor_id = strip (ra_actor_id a), ae_actor_type = ra_actor_type a,
             ae_action = strip (ra_action a), ae_resource_type = strip (ra_resource_type a),
             ae_resource_id = strip (ra_resource_id a), ae_source_service = strip (ra_source_service a),
             ae_request_id = rid, ae_details = ra_details a, ae_source_ip = None\<rparr>)"

section \<open>Stores\<close>

datatype audit_store = DynamoDBAuditStore string | MemoryAuditStore | StdoutAuditStore

definition select_store_from_env :: "audit_settings \<Rightarrow> audit_store" where
  "select_store_from_env cfg =
     (if audit_backend cfg = ''dynamodb'' then DynamoDBAuditStore (audit_table cfg)
      else if audit_backend cfg = ''memory'' then MemoryAuditStore
      else StdoutAuditStore)"

text \<open>\<^verbatim>\<open>json.loads(event.model_dump_json())\<close>.\<close>

definition event_json :: "'t env \<Rightarrow> audit_event \<Rightarrow> item" where
  "event_json E ev =
     [(''timestamp'', PStr (json_dt E (ae_timestamp ev))),
      (''actor_id'', PStr (ae_actor_id ev)),
      (''actor_type'', PStr (ae_actor_type ev)),
      (''action'', PStr (ae_action ev)),
      (''resource_type'', PStr (ae_resource_type ev)),
      (''resource_id'', PStr (ae_resource_id ev)),
      (''source_service'', PStr (ae_source_service ev)),
      (''request_id'', PStr (ae_request_id ev)),
      (''details'', PDict (ae_details ev)),
      (''source_ip'', opt_val (ae_source_ip ev))]"

definition build_item :: "'t env \<Rightarrow> audit_event \<Rightarrow> item" where
  "build_item E ev =
     [(''pk'', PStr (''AUDIT#'' @ ae_source_service ev @ ''#'' @ ae_actor_id ev)),
      (''sk'', PStr (isoformat (ae_timestamp ev) @ ''#'' @ ae_request_id ev))] @ event_json E ev"

fun store_record :: "'t env \<Rightarrow> audit_store \<Rightarrow> audit_event \<Rightarrow> ('t world, unit) io" where
  "store_record E (DynamoDBAuditStore tbl) ev = put_item E tbl (build_item E ev) CTrue"
| "store_record E MemoryAuditStore ev = note_call (AuditMemory (event_json E ev))"
| "store_record E StdoutAuditStore ev = note_call (AuditStdout (event_json E ev))"

section \<open>The entry point\<close>

text \<open>The caller may name the request; an identifier of blanks only fails validation.\<close>

definition request_id_of :: "'t env \<Rightarrow> string option \<Rightarrow> ('t world, string) io" where
  "request_id_of E given =
     (case given of
        None \<Rightarrow> new_id E
      | Some r \<Rightarrow> liftE (if strip r = [] then Inl (ValueError ''request_id'') else Inr (strip r)))"

definition record_event_as :: "'t env \<Rightarrow> string option \<Rightarrow> audit_args \<Rightarrow> ('t world, audit_event) io" where
  "record_event_as E given a =
     bindE (utcnow E) (\<lambda>ts.
     bindE (request_id_of E given) (\<lambda>rid.
     bindE (utcnow E) (\<lambda>now.
     bindE (liftE (make_audit_event ts now rid a)) (\<lambda>ev.
     bindE (store_record E (select_store_from_env (audit_cfg E)) ev) (\<lambda>_. retE ev)))))"

text \<open>Without a request identifier, as most callers use it.\<close>

definition record_event :: "'t env \<Rightarrow> audit_args \<Rightarrow> ('t world, audit_event) io" where
  "record_event E a = record_event_as E None a"

lemma record_event_eq:
  "record_event E a =
     bindE (utcnow E) (\<lambda>ts.
     bindE (new_id E) (\<lambda>rid.
     bindE (utcnow E) (\<lambda>now.
     bindE (liftE (make_audit_event ts now rid a)) (\<lambda>ev.
     bindE (store_record E (select_store_from_env (audit_cfg E)) ev) (\<lambda>_. retE ev)))))"
  by (simp add: record_event_def record_event_as_def request_id_of_def)

section \<open>Lemmas\<close>

text \<open>An event exists only when every field is well formed; its identifiers carry no outer blanks.\<close>

definition audit_event_wf :: "audit_event \<Rightarrow> bool" where
  "audit_event_wf ev \<longleftrightarrow> ae_actor_id ev \<noteq> [] \<and> ae_actor_type ev \<in> set actor_types \<and>
     action_re (ae_action ev) \<and> ae_resource_type ev \<noteq> [] \<and> ae_resource_id ev \<noteq> [] \<and>
     ae_source_service ev \<noteq> []"

lemma make_audit_event_wf: "make_audit_event ts now rid a = Inr ev \<Longrightarrow> audit_event_wf ev"
  by (auto simp: make_audit_event_def audit_event_wf_def split: if_splits)

lemma make_audit_event_fields:
  "make_audit_event ts now rid a = Inr ev \<Longrightarrow>
     ae_timestamp ev = ts \<and> ae_request_id ev = rid \<and> ae_action ev = strip (ra_action a) \<and>
     ae_actor_id ev = strip (ra_actor_id a) \<and> ae_details ev = ra_details a \<and>
     ts \<le> now + 5000000"
  by (auto simp: make_audit_event_def split: if_splits)

text \<open>
  Other tables than the audit table are untouched by \<open>record_event\<close>, however it ends.
\<close>

definition audit_writes_only :: "'t env \<Rightarrow> (string \<Rightarrow> item \<Rightarrow> item option) \<Rightarrow>
    (string \<Rightarrow> item \<Rightarrow> item option) \<Rightarrow> bool" where
  "audit_writes_only E v v' \<longleftrightarrow> (\<forall>tbl. tbl \<noteq> audit_table (audit_cfg E) \<longrightarrow> v' tbl = v tbl)"

lemma keeps_record_event_as_rel:
  assumes "ddb_ok E V" "preorder_on_worlds (rows_rel V R)" "\<And>a. R a a"
    and "\<And>v k it. R v (store_row v (audit_table (audit_cfg E)) k it)"
  shows "keeps (rows_rel V R) (record_event_as E given a)"
proof -
  have "keeps (rows_rel V R) (store_record E (select_store_from_env (audit_cfg E)) ev)" for ev
    using assms
    by (auto simp: select_store_from_env_def intro!: keeps_put_item [OF assms(1,3) refl] keeps_intros)
  moreover have "keeps (rows_rel V R) (request_id_of E given)"
    unfolding request_id_of_def by (cases given) (auto intro!: keeps_intros assms(2))
  ultimately show ?thesis
    unfolding record_event_as_def by (intro keeps_intros assms(2))
qed

lemma keeps_record_event_rel:
  assumes "ddb_ok E V" "preorder_on_worlds (rows_rel V R)" "\<And>a. R a a"
    and "\<And>v k it. R v (store_row v (audit_table (audit_cfg E)) k it)"
  shows "keeps (rows_rel V R) (record_event E a)"
  unfolding record_event_def using assms by (rule keeps_record_event_as_rel)

lemma keeps_record_event:
  assumes "ddb_ok E V"
  shows "keeps (rows_rel V (audit_writes_only E)) (record_event E a)"
  by (rule keeps_record_event_rel [OF assms])
    (auto simp: audit_writes_only_def store_row_def intro!: preorder_rows_rel)

lemma record_event_other_tables:
  assumes "ddb_ok E V" "record_event E a w = (r, w')" "tbl \<noteq> audit_table (audit_cfg E)"
  shows "rows V w' tbl = rows V w tbl"
  using keepsD [OF keeps_record_event [OF assms(1)] assms(2)] assms(3)
  by (simp add: rows_rel_def audit_writes_only_def)

text \<open>The audit library makes no call of another service.\<close>

lemma record_event_as_calls:
  assumes "\<And>x. P (AuditStdout x)" "\<And>x. P (AuditMemory x)"
  shows "keeps (only_calls P) (record_event_as E given a)"
proof -
  have "keeps (only_calls P) (store_record E st ev)" for st ev
    using assms by (cases st) (auto intro: keeps_intros)
  moreover have "keeps (only_calls P) (request_id_of E given)"
    unfolding request_id_of_def by (cases given) (auto intro!: keeps_intros)
  ultimately show ?thesis
    unfolding record_event_as_def by (intro keeps_intros preorder_only_calls)
qed

lemma record_event_calls [keeps_intros]:
  assumes "\<And>x. P (AuditStdout x)" "\<And>x. P (AuditMemory x)"
  shows "keeps (only_calls P) (record_event E a)"
  unfolding record_event_def using assms by (rule record_event_as_calls)

end
