(* ===== verification/Owner_Scope.thy ===== *)
theory Owner_Scope
  imports Audit_Log
begin

text \<open>
  The contract of a multi-tenant API over one table: a call on behalf of one user leaves every row
  that belongs to another user as it is, whatever the database answers and however the call ends.
  The interface is the dispatch of the API's calls (\<open>serve\<close>), the ownership of rows (\<open>owned\<close>) and the
  setting the service runs in (\<open>setting\<close>): any database behaviour allowed by \<open>ddb_ok\<close> and, for the
  HTTP services (\<open>tenant_table\<close>), the key schema they expect and an audit log kept elsewhere.
\<close>

definition serve_all :: "(string \<Rightarrow> 'c \<Rightarrow> ('t world, unit) io) \<Rightarrow> (string \<times> 'c) list \<Rightarrow> 't world \<Rightarrow> 't world" where
  "serve_all serve history w = fold (\<lambda>(uid, c) w. snd (serve uid c w)) history w"

lemma serve_all_simps [simp]:
  "serve_all serve [] w = w"
  "serve_all serve ((uid, c) # history) w = serve_all serve history (snd (serve uid c w))"
  by (simp_all add: serve_all_def)

definition tenant_table :: "'t env \<Rightarrow> 't db_view \<Rightarrow> string \<Rightarrow> string list \<Rightarrow> bool" where
  "tenant_table E V tbl schema \<longleftrightarrow>
     ddb_ok E V \<and> audit_table (audit_cfg E) \<noteq> tbl \<and> key_attrs E tbl = schema"

lemma tenant_table_ddb: "tenant_table E V tbl schema \<Longrightarrow> ddb_ok E V"
  by (simp add: tenant_table_def)

definition rows_protected :: "string \<Rightarrow> (string \<Rightarrow> item \<Rightarrow> item \<Rightarrow> bool) \<Rightarrow> string \<Rightarrow>
    (string \<Rightarrow> item \<Rightarrow> item option) \<Rightarrow> (string \<Rightarrow> item \<Rightarrow> item option) \<Rightarrow> bool" where
  "rows_protected tbl owned uid v v' \<longleftrightarrow>
     (\<forall>k row u. v tbl k = Some row \<longrightarrow> owned u k row \<longrightarrow> u \<noteq> uid \<longrightarrow> v' tbl k = Some row)"

lemma rows_protected_refl [simp]: "rows_protected tbl owned uid v v"
  by (simp add: rows_protected_def)

lemma rows_protected_preorder: "preorder_on_worlds (rows_rel V (rows_protected tbl owned uid))"
  by (rule preorder_rows_rel) (auto simp: rows_protected_def)

lemma keeps_audit_protected:
  assumes "tenant_table E V tbl schema"
  shows "keeps (rows_rel V (rows_protected tbl owned uid)) (record_event E a)"
  using assms unfolding tenant_table_def
  by (intro keeps_record_event_rel rows_protected_preorder)
    (auto simp: rows_protected_def store_row_apply)

locale owner_scoped =
  fixes setting :: bool and V :: "'t db_view" and tbl :: string
    and owned :: "string \<Rightarrow> item \<Rightarrow> item \<Rightarrow> bool"
    and serve :: "string \<Rightarrow> 'c \<Rightarrow> ('t world, unit) io"
  assumes scoped: "setting \<Longrightarrow>
      keeps (rows_rel V (rows_protected tbl owned uid)) (serve uid c)"
begin

lemma isolated_step:
  assumes setting "rows V w tbl k = Some row" "owned owner k row" "owner \<noteq> uid"
  shows "rows V (snd (serve uid c w)) tbl k = Some row"
proof -
  have "rows_rel V (rows_protected tbl owned uid) w (snd (serve uid c w))"
    using keepsD [OF scoped [OF assms(1)]] by (metis prod.collapse)
  with assms(2-) show ?thesis by (auto simp: rows_rel_def rows_protected_def)
qed

lemma isolated_history:
  assumes setting "rows V w tbl k = Some row" "owned owner k row"
    and "owner \<notin> fst ` set history"
  shows "rows V (serve_all serve history w) tbl k = Some row"
  using assms(2,4)
proof (induction history arbitrary: w)
  case (Cons h hs)
  obtain uid c where "h = (uid, c)" by force
  with Cons isolated_step [OF assms(1) Cons.prems(1) assms(3)] show ?case by simp
qed simp

end

end
