(* ===== verification/Auth.thy ===== *)
theory Auth
  imports Py_Prelude
begin

text \<open>
  Token handling. The bearer-header parser and the HS256 check the FastAPI services share
  (\<^verbatim>\<open>session-manager/.../auth.py\<close>, of which ingestion-api, query-api, billing and notification carry
  copies), the service-actor gate of gpu-spawner, the admin gate with step-up MFA of admin-api, and
  the client library's \<open>JwtValidator\<close>, \<open>JwksJwtValidator\<close> and \<open>JwksCache\<close>. The token library itself
  (signature, expiry, issuer and audience checks) is the parameter \<open>jwt_lib\<close>.
\<close>

section \<open>The bearer header\<close>

text \<open>
  \<^verbatim>\<open>^Bearer\\s+(.+)$\<close> on a stripped string: the scheme without regard to case, at least one blank, and
  a rest without line break (a dot does not match one).
\<close>

definition extract_bearer_token :: "string option \<Rightarrow> string option" where
  "extract_bearer_token authorization =
     (case authorization of
        None \<Rightarrow> None
      | Some a \<Rightarrow>
          (let s = strip a; after = drop 6 s; rest = dropWhile is_space after in
           if a \<noteq> [] \<and> lower (take 6 s) = ''bearer'' \<and> after \<noteq> [] \<and> is_space (hd after) \<and>
              rest \<noteq> [] \<and> CHR 0x0A \<notin> set rest
           then (if strip rest = [] then None else Some (strip rest))
           else None))"

section \<open>The token library\<close>

datatype jwt_error = ExpiredSignatureError | InvalidTokenError | OtherJwtFailure exn

record jwt_settings =
  jwt_secret :: string
  jwt_issuer :: string
  jwt_audience :: string

text \<open>
  \<open>decode key algorithms issuer audience token\<close>, the unverified reads of header and payload, the
  construction of a key from a JWK, and the validation library's conversion to an integer.
\<close>

record jwt_lib =
  decode :: "string \<Rightarrow> string list \<Rightarrow> string \<Rightarrow> string \<Rightarrow> string \<Rightarrow> jwt_error + item"
  unverified_header :: "string \<Rightarrow> jwt_error + item"
  unverified_payload :: "string \<Rightarrow> item option"
  key_from_jwk :: "item \<Rightarrow> jwt_error + string"
  coerce_int :: "pyval \<Rightarrow> int option"

text \<open>The handlers \<^verbatim>\<open>except ExpiredSignatureError\<close> and \<^verbatim>\<open>except InvalidTokenError\<close>; the rest propagates.\<close>

fun on_jwt_error :: "exn \<Rightarrow> exn \<Rightarrow> jwt_error \<Rightarrow> exn" where
  "on_jwt_error expired invalid ExpiredSignatureError = expired"
| "on_jwt_error expired invalid InvalidTokenError = invalid"
| "on_jwt_error expired invalid (OtherJwtFailure e) = e"

definition unauthorized :: "string \<Rightarrow> exn" where
  "unauthorized detail = HTTPException 401 detail"

definition forbidden :: "string \<Rightarrow> exn" where
  "forbidden detail = HTTPException 403 detail"

section \<open>Session-manager: the authenticated user\<close>

record authenticated_user =
  au_user_id :: string
  au_email :: string
  au_session_id :: string

definition verify_jwt :: "jwt_lib \<Rightarrow> string \<Rightarrow> jwt_settings \<Rightarrow> exn + authenticated_user" where
  "verify_jwt L token S =
     (case decode L (jwt_secret S) [''HS256''] (jwt_issuer S) (jwt_audience S) token of
        Inl e \<Rightarrow> Inl (on_jwt_error (unauthorized ''token expired'') (unauthorized ''invalid token'') e)
      | Inr payload \<Rightarrow>
          (case (nonempty_str (dget payload ''sub''), nonempty_str (dget payload ''email''),
                 nonempty_str (dget payload ''jti'')) of
             (Some sub, Some email, Some jti) \<Rightarrow>
               Inr \<lparr>au_user_id = sub, au_email = email, au_session_id = jti\<rparr>
           | _ \<Rightarrow> Inl (unauthorized ''invalid token claims'')))"

definition get_current_user :: "jwt_lib \<Rightarrow> string option \<Rightarrow> jwt_settings \<Rightarrow> exn + authenticated_user" where
  "get_current_user L authorization S =
     (case extract_bearer_token authorization of
        None \<Rightarrow> Inl (unauthorized ''missing or malformed Authorization header'')
      | Some token \<Rightarrow> verify_jwt L token S)"

section \<open>Gpu-spawner: service actors\<close>

record principal =
  pr_actor_id :: string
  pr_actor_type :: string
  pr_session_id :: string

definition verify_principal :: "jwt_lib \<Rightarrow> string \<Rightarrow> jwt_settings \<Rightarrow> exn + principal" where
  "verify_principal L token S =
     (case decode L (jwt_secret S) [''HS256''] (jwt_issuer S) (jwt_audience S) token of
        Inl e \<Rightarrow> Inl (on_jwt_error (unauthorized ''token expired'') (unauthorized ''invalid token'') e)
      | Inr payload \<Rightarrow>
          (case (nonempty_str (dget payload ''sub''), nonempty_str (dget payload ''jti'')) of
             (Some sub, Some jti) \<Rightarrow>
               (case as_str (dget payload ''actor_type'') of
                  Some t \<Rightarrow>
                    if t = ''user'' \<or> t = ''service''
                    then Inr \<lparr>pr_actor_id = sub, pr_actor_type = t, pr_session_id = jti\<rparr>
                    else Inl (unauthorized ''invalid token claims'')
                | None \<Rightarrow> Inl (unauthorized ''invalid token claims''))
           | _ \<Rightarrow> Inl (unauthorized ''invalid token claims'')))"

definition get_current_principal :: "jwt_lib \<Rightarrow> string option \<Rightarrow> jwt_settings \<Rightarrow> exn + principal" where
  "get_current_principal L authorization S =
     (case extract_bearer_token authorization of
        None \<Rightarrow> Inl (unauthorized ''missing or malformed Authorization header'')
      | Some token \<Rightarrow> verify_principal L token S)"

definition require_service_actor :: "principal \<Rightarrow> exn + principal" where
  "require_service_actor p =
     (if pr_actor_type p \<noteq> ''service'' then Inl (forbidden ''service-actor token required'') else Inr p)"

section \<open>The client library: claims and validators\<close>

record jwt_claims =
  cl_sub :: string
  cl_iss :: string
  cl_aud :: string
  cl_iat :: int
  cl_exp :: int
  cl_jti :: "string option"
  cl_scopes :: "string list"
  cl_role :: "string option"
  cl_mfa_step_up_at :: "int option"

text \<open>The field validators of \<open>JwtClaims\<close>: \<open>None\<close> is a \<^verbatim>\<open>ValidationError\<close>.\<close>

fun req_str :: "pyval \<Rightarrow> string option" where
  "req_str (PStr s) = (if strip s = [] then None else Some (strip s))"
| "req_str _ = None"

fun optional_str :: "pyval \<Rightarrow> string option option" where
  "optional_str PNone = Some None"
| "optional_str (PStr s) = Some (Some (strip s))"
| "optional_str _ = None"

fun str_list :: "pyval list \<Rightarrow> string list option" where
  "str_list [] = Some []"
| "str_list (PStr s # xs) = map_option (\<lambda>ys. strip s # ys) (str_list xs)"
| "str_list _ = None"

definition scopes_field :: "item \<Rightarrow> string list option" where
  "scopes_field p = (case map_of p ''scopes'' of
     None \<Rightarrow> Some [] | Some (PList xs) \<Rightarrow> str_list xs | Some _ \<Rightarrow> None)"

definition optional_int :: "jwt_lib \<Rightarrow> pyval \<Rightarrow> int option option" where
  "optional_int L v = (if v = PNone then Some None else map_option Some (coerce_int L v))"

definition claims_of :: "jwt_lib \<Rightarrow> item \<Rightarrow> jwt_claims option" where
  "claims_of L p =
     (case (req_str (dget p ''sub''), req_str (dget p ''iss''), req_str (dget p ''aud''),
            coerce_int L (dget p ''iat''), coerce_int L (dget p ''exp''),
            optional_str (dget p ''jti''), scopes_field p, optional_str (dget p ''role''),
            optional_int L (dget p ''mfa_step_up_at'')) of
        (Some sub, Some iss, Some aud, Some iat, Some ex, Some jti, Some scopes, Some role, Some mfa) \<Rightarrow>
          Some \<lparr>cl_sub = sub, cl_iss = iss, cl_aud = aud, cl_iat = iat, cl_exp = ex, cl_jti = jti,
                cl_scopes = scopes, cl_role = role, cl_mfa_step_up_at = mfa\<rparr>
      | _ \<Rightarrow> None)"

definition checked_claims :: "jwt_lib \<Rightarrow> jwt_error + item \<Rightarrow> exn + jwt_claims" where
  "checked_claims L r =
     (case r of
        Inl e \<Rightarrow> Inl (on_jwt_error (JwtInvalidError ''token expired'') (JwtInvalidError ''invalid token'') e)
      | Inr payload \<Rightarrow>
          (case claims_of L payload of
             None \<Rightarrow> Inl (JwtInvalidError ''invalid token claims'')
           | Some c \<Rightarrow> Inr c))"

definition validate :: "jwt_lib \<Rightarrow> jwt_settings \<Rightarrow> string \<Rightarrow> exn + jwt_claims" where
  "validate L S token =
     checked_claims L (decode L (jwt_secret S) [''HS256''] (jwt_issuer S) (jwt_audience S) token)"

section \<open>The JWKS cache\<close>

record cache_entry =
  keys_by_kid :: item
  expires_at :: rat

text \<open>
  The cache and the two inputs it consumes: the \<open>n\<close>-th fetch of the document and the \<open>n\<close>-th
  reading of the monotonic clock.
\<close>

record jwks_state =
  jw_cached :: "cache_entry option"
  fetches :: nat
  reads :: nat

record jwks_cfg =
  jc_url :: string
  jc_ttl :: int
  jc_fetcher :: "nat \<Rightarrow> exn + item"
  jc_now :: "nat \<Rightarrow> rat"

definition jwks_fetch :: "jwks_cfg \<Rightarrow> (jwks_state, item) io" where
  "jwks_fetch C s = (jc_fetcher C (fetches s), s\<lparr>fetches := Suc (fetches s)\<rparr>)"

definition jwks_now :: "jwks_cfg \<Rightarrow> (jwks_state, rat) io" where
  "jwks_now C s = (Inr (jc_now C (reads s)), s\<lparr>reads := Suc (reads s)\<rparr>)"

definition index_key :: "pyval \<Rightarrow> item \<Rightarrow> item" where
  "index_key v acc =
     (case as_dict v of
        None \<Rightarrow> acc
      | Some jwk \<Rightarrow>
          (case as_str (dget jwk ''kid'') of None \<Rightarrow> acc | Some kid \<Rightarrow> dset kid (PDict jwk) acc))"

definition index_keys :: "pyval list \<Rightarrow> item" where
  "index_keys ks = fold index_key ks []"

definition jwks_refresh :: "jwks_cfg \<Rightarrow> (jwks_state, cache_entry) io" where
  "jwks_refresh C =
     bindE (jwks_fetch C) (\<lambda>document.
     (case as_list (dget document ''keys'') of
        Some ks \<Rightarrow>
          bindE (jwks_now C) (\<lambda>t s.
            let entry = \<lparr>keys_by_kid = index_keys ks, expires_at = t + of_int (jc_ttl C)\<rparr>
            in (Inr entry, s\<lparr>jw_cached := Some entry\<rparr>))
      | None \<Rightarrow> raiseE (JwtConfigError ''JWKS endpoint returned no keys array'')))"

definition lookup_kid :: "cache_entry \<Rightarrow> string \<Rightarrow> pyval option" where
  "lookup_kid entry kid = map_of (keys_by_kid entry) kid"

definition jwks_current :: "jwks_cfg \<Rightarrow> (jwks_state, cache_entry) io" where
  "jwks_current C s =
     (case jw_cached s of
        None \<Rightarrow> jwks_refresh C s
      | Some entry \<Rightarrow>
          bindE (jwks_now C) (\<lambda>t. if expires_at entry \<le> t then jwks_refresh C else retE entry) s)"

definition jwks_get :: "jwks_cfg \<Rightarrow> string \<Rightarrow> (jwks_state, pyval) io" where
  "jwks_get C kid =
     bindE (jwks_current C) (\<lambda>entry.
     (case lookup_kid entry kid of
        Some jwk \<Rightarrow> retE jwk
      | None \<Rightarrow>
          bindE (jwks_refresh C) (\<lambda>entry'.
          (case lookup_kid entry' kid of
             None \<Rightarrow> raiseE (JwtInvalidError ''jwks endpoint has no key for kid'')
           | Some jwk \<Rightarrow> retE jwk))))"

text \<open>
  \<open>JwksJwtValidator.validate\<close>: the key named by the header, RS256 only. The second half, from the
  JWK on, is \<open>verify_with_jwk\<close>.
\<close>

definition verify_with_jwk :: "jwt_lib \<Rightarrow> jwt_settings \<Rightarrow> string \<Rightarrow> pyval \<Rightarrow> exn + jwt_claims" where
  "verify_with_jwk L S token jwk =
     (case as_dict jwk of
        None \<Rightarrow> Inl TypeError
      | Some d \<Rightarrow>
          (case key_from_jwk L d of
             Inl e \<Rightarrow> Inl (on_jwt_error (JwtInvalidError ''invalid token'') (JwtInvalidError ''invalid token'') e)
           | Inr key \<Rightarrow>
               checked_claims L (decode L key [''RS256''] (jwt_issuer S) (jwt_audience S) token)))"

definition jwks_validate :: "jwt_lib \<Rightarrow> jwks_cfg \<Rightarrow> jwt_settings \<Rightarrow> string \<Rightarrow> (jwks_state, jwt_claims) io" where
  "jwks_validate L C S token =
     (case unverified_header L token of
        Inl e \<Rightarrow> raiseE (on_jwt_error (JwtInvalidError ''invalid token'') (JwtInvalidError ''invalid token'') e)
      | Inr header \<Rightarrow>
          (case nonempty_str (dget header ''kid'') of
             None \<Rightarrow> raiseE (JwtInvalidError ''invalid token: missing kid'')
           | Some kid \<Rightarrow> bindE (jwks_get C kid) (\<lambda>jwk. liftE (verify_with_jwk L S token jwk))))"

section \<open>Admin-api: roles and step-up MFA\<close>

definition default_step_up_max_age :: int where
  "default_step_up_max_age = 300"

text \<open>\<open>raw\<close> is the variable's value, \<open>parsed\<close> what \<^verbatim>\<open>int\<close> makes of it (\<open>None\<close>: \<^verbatim>\<open>ValueError\<close>).\<close>

definition step_up_max_age_seconds :: "string \<Rightarrow> int option \<Rightarrow> int" where
  "step_up_max_age_seconds raw parsed =
     (if raw = [] then default_step_up_max_age
      else case parsed of
             None \<Rightarrow> default_step_up_max_age
           | Some p \<Rightarrow> if p \<le> 0 then default_step_up_max_age else p)"

definition get_jwt_claims :: "(string \<Rightarrow> exn + jwt_claims) \<Rightarrow> string option \<Rightarrow> exn + jwt_claims" where
  "get_jwt_claims validator authorization =
     (case extract_bearer_token authorization of
        None \<Rightarrow> Inl (unauthorized ''missing or malformed Authorization header'')
      | Some token \<Rightarrow>
          (case validator token of
             Inl e \<Rightarrow> Inl (if is_jwt_invalid e then unauthorized ''invalid token'' else e)
           | Inr c \<Rightarrow> Inr c))"

definition require_admin :: "jwt_claims \<Rightarrow> exn + jwt_claims" where
  "require_admin c =
     (if cl_role c \<noteq> Some ''admin'' then Inl (forbidden ''admin role required'') else Inr c)"

definition require_admin_with_step_up :: "int \<Rightarrow> int \<Rightarrow> jwt_claims \<Rightarrow> exn + jwt_claims" where
  "require_admin_with_step_up now max_age c =
     (case require_admin c of
        Inl e \<Rightarrow> Inl e
      | Inr c \<Rightarrow>
          (case cl_mfa_step_up_at c of
             None \<Rightarrow> Inl (forbidden ''step-up MFA required'')
           | Some stamp \<Rightarrow>
               if now - stamp > max_age
               then Inl (forbidden ''step-up MFA required (claim too old)'')
               else Inr c))"

section \<open>Lemmas\<close>

lemma strip_noop: "s \<noteq> [] \<Longrightarrow> \<not> is_space (hd s) \<Longrightarrow> \<not> is_space (last s) \<Longrightarrow> strip s = s"
proof -
  assume a: "s \<noteq> []" "\<not> is_space (hd s)" "\<not> is_space (last s)"
  have "lstrip s = s" using a by (cases s) (auto simp: lstrip_def)
  moreover have "dropWhile is_space (rev s) = rev s"
    using a by (cases s rule: rev_cases) auto
  ultimately show ?thesis by (simp add: strip_def rstrip_def)
qed

lemma hd_lstrip: "lstrip s \<noteq> [] \<Longrightarrow> \<not> is_space (hd (lstrip s))"
  unfolding lstrip_def by (rule hd_dropWhile)

lemma last_rstrip: "rstrip s \<noteq> [] \<Longrightarrow> \<not> is_space (last (rstrip s))"
  unfolding rstrip_def by (simp add: last_rev hd_dropWhile)

lemma hd_rstrip: "rstrip s \<noteq> [] \<Longrightarrow> hd (rstrip s) = hd s"
proof -
  assume "rstrip s \<noteq> []"
  moreover have "s = rstrip s @ rev (takeWhile is_space (rev s))"
    unfolding rstrip_def by (metis rev_append rev_rev_ident takeWhile_dropWhile_id)
  ultimately show ?thesis by (metis hd_append2)
qed

lemma strip_ends:
  assumes "strip s \<noteq> []"
  shows "\<not> is_space (hd (strip s))" "\<not> is_space (last (strip s))"
proof -
  have "lstrip s \<noteq> []" using assms by (auto simp: strip_def rstrip_def)
  then show "\<not> is_space (hd (strip s))"
    using assms hd_lstrip hd_rstrip by (simp add: strip_def)
  show "\<not> is_space (last (strip s))" using assms last_rstrip by (simp add: strip_def)
qed

lemma strip_Nil: "strip [] = []"
  by (simp add: strip_def lstrip_def rstrip_def)

lemma strip_idem: "strip (strip s) = strip s"
proof (cases "strip s = []")
  case True
  then show ?thesis by (simp only: True strip_Nil)
next
  case False
  then show ?thesis using strip_ends by (simp add: strip_noop)
qed

lemma extract_bearer_token_stripped:
  "extract_bearer_token h = Some t \<Longrightarrow> t \<noteq> [] \<and> strip t = t"
  by (auto simp: extract_bearer_token_def Let_def strip_idem split: option.splits if_splits)

text \<open>A header \<^verbatim>\<open>Bearer <token>\<close>, in any letter case of the scheme, yields the token.\<close>

lemma extract_bearer_token_complete:
  assumes "lower scheme = ''bearer''" "t \<noteq> []" "list_all (\<lambda>c. \<not> is_space c) t"
  shows "extract_bearer_token (Some (scheme @ '' '' @ t)) = Some t"
proof -
  have "length (lower scheme) = 6" using assms(1) by simp
  then have len: "length scheme = 6" by (simp add: lower_def)
  obtain c cs where scheme: "scheme = c # cs" using len by (cases scheme) auto
  have "lower_char c = CHR ''b''" using assms(1) scheme by (simp add: lower_def)
  then have c: "\<not> is_space c" by (auto simp: lower_char_def is_space_def Let_def split: if_splits)
  have lastt: "\<not> is_space (last t)" using assms(2,3) by (simp add: list_all_iff)
  have hdt: "\<not> is_space (hd t)" using assms(2,3) by (simp add: list_all_iff)
  have s: "strip (scheme @ '' '' @ t) = scheme @ '' '' @ t"
    by (rule strip_noop) (use scheme c lastt assms(2) in auto)
  have sp: "is_space (CHR '' '')" by (simp add: is_space_def)
  have nl: "is_space (CHR 0x0A)" by (simp add: is_space_def)
  have rest: "dropWhile is_space ('' '' @ t) = t" using hdt assms(2) sp by (cases t) auto
  have nol: "CHR 0x0A \<notin> set t" using assms(3) nl by (auto simp: list_all_iff)
  have "strip t = t" using assms(2) hdt lastt by (rule strip_noop)
  then show ?thesis
    using assms(1,2) s len rest nol sp \<open>strip t = t\<close>
    by (simp add: extract_bearer_token_def Let_def del: dropWhile_eq_Nil_conv)
qed

text \<open>What a successful check of the claims establishes.\<close>

lemma claims_of_sub: "claims_of L p = Some c \<Longrightarrow> cl_sub c \<noteq> []"
  by (auto simp: claims_of_def split: option.splits elim!: req_str.elims split: if_splits)

lemma validate_Inr:
  assumes "validate L S token = Inr c"
  shows "\<exists>payload. decode L (jwt_secret S) [''HS256''] (jwt_issuer S) (jwt_audience S) token = Inr payload
           \<and> claims_of L payload = Some c"
  using assms by (auto simp: validate_def checked_claims_def split: sum.splits option.splits)

section \<open>The contract of a validator\<close>

text \<open>What the services that gate a route rely on: accepted claims name a subject.\<close>

locale token_validator =
  fixes validator :: "string \<Rightarrow> exn + jwt_claims"
  assumes sub_nonempty: "validator token = Inr c \<Longrightarrow> cl_sub c \<noteq> []"
begin

lemma get_jwt_claims_cases:
  assumes "get_jwt_claims validator h = Inr c"
  shows "\<exists>token. extract_bearer_token h = Some token \<and> validator token = Inr c \<and> cl_sub c \<noteq> []"
  using assms sub_nonempty
  by (auto simp: get_jwt_claims_def split: option.splits sum.splits)

lemma admin_gate:
  assumes "get_jwt_claims validator h = Inr c" "require_admin_with_step_up now max_age c = Inr c'"
  shows "c' = c \<and> cl_sub c \<noteq> [] \<and> cl_role c = Some ''admin'' \<and>
         (\<exists>stamp. cl_mfa_step_up_at c = Some stamp \<and> now \<le> stamp + max_age)"
  using get_jwt_claims_cases [OF assms(1)] assms(2)
  by (auto simp: require_admin_with_step_up_def require_admin_def split: option.splits if_splits)

end

interpretation hs256: token_validator "validate L S" for L S
  by unfold_locales (auto dest!: validate_Inr dest: claims_of_sub)

section \<open>The JWKS cache\<close>

definition kid_indexed :: "item \<Rightarrow> bool" where
  "kid_indexed acc \<longleftrightarrow> (\<forall>k u. map_of acc k = Some u \<longrightarrow> (\<exists>d. u = PDict d \<and> dget d ''kid'' = PStr k))"

lemma index_key_indexed: "kid_indexed acc \<Longrightarrow> kid_indexed (index_key v acc)"
  by (auto simp: kid_indexed_def index_key_def split: option.splits)

lemma index_keys_indexed: "kid_indexed (index_keys ks)"
proof -
  have "kid_indexed acc \<Longrightarrow> kid_indexed (fold index_key ks acc)" for acc
    by (induction ks arbitrary: acc) (auto simp: index_key_indexed)
  from this [of "[]"] show ?thesis by (simp add: index_keys_def kid_indexed_def)
qed

definition entry_wf :: "cache_entry \<Rightarrow> bool" where
  "entry_wf e \<longleftrightarrow> kid_indexed (keys_by_kid e)"

definition jwks_wf :: "jwks_state \<Rightarrow> bool" where
  "jwks_wf s \<longleftrightarrow> (\<forall>e. jw_cached s = Some e \<longrightarrow> entry_wf e)"

lemma jwks_refresh_Inr:
  assumes "jwks_refresh C s = (Inr e, s')"
  shows "jw_cached s' = Some e \<and> entry_wf e \<and> fetches s' = Suc (fetches s) \<and> reads s' = Suc (reads s) \<and>
         expires_at e = jc_now C (reads s) + of_int (jc_ttl C) \<and>
         (\<exists>doc ks. jc_fetcher C (fetches s) = Inr doc \<and> dget doc ''keys'' = PList ks \<and>
            keys_by_kid e = index_keys ks)"
  using assms
  by (auto simp: jwks_refresh_def bindE_Inr_iff jwks_fetch_def jwks_now_def raiseE_def Let_def
      entry_wf_def index_keys_indexed split: option.splits)

lemma jwks_refresh_any:
  assumes "jwks_refresh C s = (r, s')"
  shows "fetches s' = Suc (fetches s) \<and> (jwks_wf s \<longrightarrow> jwks_wf s')"
proof (cases r)
  case (Inr e)
  with jwks_refresh_Inr assms show ?thesis by (auto simp: jwks_wf_def)
next
  case (Inl e)
  with assms show ?thesis
    by (auto simp: jwks_refresh_def bindE_Inl_iff jwks_fetch_def jwks_now_def raiseE_def Let_def jwks_wf_def
        split: option.splits)
qed

lemma jwks_current_cases:
  assumes "jwks_current C s = (r, s')"
  obtains (hit) e where "jw_cached s = Some e" "r = Inr e" "jc_now C (reads s) < expires_at e"
      "jw_cached s' = Some e" "fetches s' = fetches s"
  | (fetched) s0 where "jwks_refresh C s0 = (r, s')" "fetches s0 = fetches s" "jw_cached s0 = jw_cached s"
proof (cases "jw_cached s")
  case None
  with assms fetched [of s] show ?thesis by (simp add: jwks_current_def)
next
  case (Some e)
  show ?thesis
  proof (cases "expires_at e \<le> jc_now C (reads s)")
    case True
    with assms Some fetched [of "s\<lparr>reads := Suc (reads s)\<rparr>"] show ?thesis
      by (simp add: jwks_current_def bindE_def jwks_now_def)
  next
    case False
    with assms Some hit [of e] show ?thesis
      by (auto simp: jwks_current_def bindE_def jwks_now_def retE_def)
  qed
qed

text \<open>Both validators meet the contract of the gates; the JWKS one for every cache state.\<close>

lemma checked_claims_Inr:
  "checked_claims L r = Inr c \<longleftrightarrow> (\<exists>payload. r = Inr payload \<and> claims_of L payload = Some c)"
  by (auto simp: checked_claims_def split: sum.splits option.splits)

lemma verify_with_jwk_Inr:
  assumes "verify_with_jwk L S token jwk = Inr c"
  obtains d key payload where "jwk = PDict d" "key_from_jwk L d = Inr key"
    "decode L key [''RS256''] (jwt_issuer S) (jwt_audience S) token = Inr payload"
    "claims_of L payload = Some c"
proof (cases "as_dict jwk")
  case None
  with assms show ?thesis by (simp add: verify_with_jwk_def)
next
  case (Some d)
  with assms that show ?thesis
    by (cases "key_from_jwk L d") (auto simp: verify_with_jwk_def checked_claims_Inr)
qed

lemma jwks_validate_Inr:
  assumes "jwks_validate L C S token s = (Inr c, s')"
  obtains header kid jwk where "unverified_header L token = Inr header" "dget header ''kid'' = PStr kid"
    "jwks_get C kid s = (Inr jwk, s')" "verify_with_jwk L S token jwk = Inr c"
  using assms unfolding jwks_validate_def
  by (auto simp: bindE_Inr_iff liftE_def raiseE_def split: sum.split_asm option.split_asm)

interpretation rs256: token_validator "\<lambda>token. fst (jwks_validate L C S token s)" for L C S s
proof
  fix token c
  assume "fst (jwks_validate L C S token s) = Inr c"
  then obtain s' where "jwks_validate L C S token s = (Inr c, s')" by (metis prod.collapse)
  then show "cl_sub c \<noteq> []" by (auto elim!: jwks_validate_Inr verify_with_jwk_Inr dest: claims_of_sub)
qed

section \<open>Properties\<close>

text \<open>
  The FastAPI gate accepts exactly the requests whose bearer token the token library verifies
  with the configured secret, HS256, issuer and audience and whose claims \<^verbatim>\<open>sub\<close>, \<^verbatim>\<open>email\<close> and
  \<^verbatim>\<open>jti\<close> are non-empty strings, and the user it returns is read from those claims.
\<close>

lemma get_current_user_spec:
  "get_current_user L h S = Inr u \<longleftrightarrow>
     (\<exists>token payload. extract_bearer_token h = Some token \<and>
        decode L (jwt_secret S) [''HS256''] (jwt_issuer S) (jwt_audience S) token = Inr payload \<and>
        dget payload ''sub'' = PStr (au_user_id u) \<and> au_user_id u \<noteq> [] \<and>
        dget payload ''email'' = PStr (au_email u) \<and> au_email u \<noteq> [] \<and>
        dget payload ''jti'' = PStr (au_session_id u) \<and> au_session_id u \<noteq> [])"
proof
  assume "get_current_user L h S = Inr u"
  then show "\<exists>token payload. extract_bearer_token h = Some token \<and>
        decode L (jwt_secret S) [''HS256''] (jwt_issuer S) (jwt_audience S) token = Inr payload \<and>
        dget payload ''sub'' = PStr (au_user_id u) \<and> au_user_id u \<noteq> [] \<and>
        dget payload ''email'' = PStr (au_email u) \<and> au_email u \<noteq> [] \<and>
        dget payload ''jti'' = PStr (au_session_id u) \<and> au_session_id u \<noteq> []"
    by (auto simp: get_current_user_def verify_jwt_def split: option.split_asm sum.split_asm)
next
  assume "\<exists>token payload. extract_bearer_token h = Some token \<and>
        decode L (jwt_secret S) [''HS256''] (jwt_issuer S) (jwt_audience S) token = Inr payload \<and>
        dget payload ''sub'' = PStr (au_user_id u) \<and> au_user_id u \<noteq> [] \<and>
        dget payload ''email'' = PStr (au_email u) \<and> au_email u \<noteq> [] \<and>
        dget payload ''jti'' = PStr (au_session_id u) \<and> au_session_id u \<noteq> []"
  then show "get_current_user L h S = Inr u"
    by (auto simp: get_current_user_def verify_jwt_def)
qed

text \<open>
  A header made of the scheme \<^verbatim>\<open>Bearer\<close> in any letter case, one blank and a token without
  blanks yields exactly that token.
\<close>

lemma bearer_roundtrip:
  assumes "lower scheme = ''bearer''" "t \<noteq> []" "list_all (\<lambda>c. \<not> is_space c) t"
  shows "extract_bearer_token (Some (scheme @ '' '' @ t)) = Some t"
  using assms by (rule extract_bearer_token_complete)

text \<open>
  The administrative gate: a request passes role check and step-up check only with a bearer
  token that verifies under HS256 with the configured secret, issuer and audience, whose subject is
  not empty, whose role is \<^verbatim>\<open>admin\<close>, and whose second-factor stamp is at most \<open>max_age\<close> seconds old.
\<close>

lemma admin_gate_sound:
  assumes "get_jwt_claims (validate L S) h = Inr c" "require_admin_with_step_up now max_age c = Inr c'"
  shows "c' = c \<and> cl_sub c \<noteq> [] \<and> cl_role c = Some ''admin'' \<and>
     (\<exists>stamp. cl_mfa_step_up_at c = Some stamp \<and> now \<le> stamp + max_age) \<and>
     (\<exists>token payload. extract_bearer_token h = Some token \<and>
        decode L (jwt_secret S) [''HS256''] (jwt_issuer S) (jwt_audience S) token = Inr payload \<and>
        claims_of L payload = Some c)"
  using hs256.admin_gate [OF assms] hs256.get_jwt_claims_cases [OF assms(1)] validate_Inr by metis

text \<open>
  A cache entry made of the \<open>n\<close>-th document of the endpoint, a cache that holds nothing else, and a key
  that the endpoint published: an object of the key array of one of its documents.
\<close>

definition filled_from :: "jwks_cfg \<Rightarrow> nat \<Rightarrow> cache_entry \<Rightarrow> bool" where
  "filled_from C n e \<longleftrightarrow>
     (\<exists>doc ks. jc_fetcher C n = Inr doc \<and> dget doc ''keys'' = PList ks \<and> keys_by_kid e = index_keys ks)"

definition cache_published :: "jwks_cfg \<Rightarrow> jwks_state \<Rightarrow> bool" where
  "cache_published C s \<longleftrightarrow> (\<forall>e. jw_cached s = Some e \<longrightarrow> (\<exists>n. filled_from C n e))"

definition published_key :: "jwks_cfg \<Rightarrow> item \<Rightarrow> bool" where
  "published_key C jwk \<longleftrightarrow>
     (\<exists>n doc ks. jc_fetcher C n = Inr doc \<and> dget doc ''keys'' = PList ks \<and> PDict jwk \<in> set ks)"

lemma index_keys_member: "map_of (index_keys ks) kid = Some v \<Longrightarrow> v \<in> set ks"
proof -
  have "map_of (fold index_key ks acc) kid = Some v \<Longrightarrow> v \<in> set ks \<or> map_of acc kid = Some v" for acc
  proof (induction ks arbitrary: acc)
    case (Cons k ks)
    have "map_of (index_key k acc) kid = Some v \<Longrightarrow> v = k \<or> map_of acc kid = Some v"
      by (cases k) (auto simp: index_key_def split: option.splits if_splits)
    with Cons show ?case by auto
  qed simp
  from this [of "[]"] show "map_of (index_keys ks) kid = Some v \<Longrightarrow> v \<in> set ks" by (simp add: index_keys_def)
qed

lemma filled_published: "filled_from C n e \<Longrightarrow> lookup_kid e kid = Some (PDict jwk) \<Longrightarrow> published_key C jwk"
  unfolding filled_from_def published_key_def lookup_kid_def using index_keys_member by fastforce

lemma jwks_get_cases:
  assumes "jwks_wf s" "jwks_get C kid s = (Inr jwk, s')"
  obtains e where "entry_wf e" "jw_cached s' = Some e" "lookup_kid e kid = Some jwk"
    "fetches s' \<le> fetches s + 2"
    "fetches s' = fetches s \<longrightarrow> jw_cached s = Some e \<and> jc_now C (reads s) < expires_at e"
    "fetches s' \<noteq> fetches s \<longrightarrow> filled_from C (fetches s' - 1) e"
proof -
  obtain e s1 where cur: "jwks_current C s = (Inr e, s1)"
    and rest: "(case lookup_kid e kid of
        Some jwk \<Rightarrow> retE jwk
      | None \<Rightarrow>
          bindE (jwks_refresh C) (\<lambda>entry'.
          (case lookup_kid entry' kid of
             None \<Rightarrow> raiseE (JwtInvalidError ''jwks endpoint has no key for kid'')
           | Some jwk \<Rightarrow> retE jwk))) s1 = (Inr jwk, s')"
    using assms(2) unfolding jwks_get_def bindE_Inr_iff by blast
  have e: "entry_wf e \<and> jw_cached s1 = Some e \<and> fetches s1 \<ge> fetches s \<and> fetches s1 \<le> Suc (fetches s) \<and>
      (fetches s1 = fetches s \<longrightarrow> jw_cached s = Some e \<and> jc_now C (reads s) < expires_at e) \<and>
      (fetches s1 \<noteq> fetches s \<longrightarrow> filled_from C (fetches s1 - 1) e)"
    using cur
  proof (cases rule: jwks_current_cases)
    case (hit e0)
    with assms(1) show ?thesis by (auto simp: jwks_wf_def)
  next
    case (fetched s0)
    with jwks_refresh_Inr [OF fetched(1)] show ?thesis by (auto simp: filled_from_def)
  qed
  show ?thesis
  proof (cases "lookup_kid e kid")
    case (Some k)
    with rest e that [of e] show ?thesis by (auto simp: retE_def)
  next
    case None
    with rest obtain e' where e': "jwks_refresh C s1 = (Inr e', s')" "lookup_kid e' kid = Some jwk"
      by (auto simp: bindE_Inr_iff retE_def raiseE_def split: option.split_asm)
    with jwks_refresh_Inr [OF e'(1)] e that [of e'] show ?thesis by (auto simp: filled_from_def)
  qed
qed

lemma lookup_kid_filed:
  "entry_wf e \<Longrightarrow> lookup_kid e kid = Some jwk \<Longrightarrow> \<exists>d. jwk = PDict d \<and> dget d ''kid'' = PStr kid"
  by (auto simp: entry_wf_def kid_indexed_def lookup_kid_def)

text \<open>
  The key cache fails closed. A key it returns is an object filed under the requested \<^verbatim>\<open>kid\<close>;
  without a fetch it comes from an entry whose expiry lies after the clock reading; otherwise it
  comes from the document fetched last, which is now the cached entry; a lookup fetches at most
  twice; and the cache stays indexed by \<^verbatim>\<open>kid\<close>.
\<close>

lemma jwks_get_sound:
  assumes "jwks_wf s" "jwks_get C kid s = (Inr jwk, s')"
  shows "(\<exists>d. jwk = PDict d \<and> dget d ''kid'' = PStr kid) \<and> jwks_wf s' \<and>
     fetches s' \<le> fetches s + 2 \<and>
     (\<exists>e. jw_cached s' = Some e \<and> lookup_kid e kid = Some jwk) \<and>
     (fetches s' = fetches s \<longrightarrow>
        (\<exists>e. jw_cached s = Some e \<and> jc_now C (reads s) < expires_at e \<and> lookup_kid e kid = Some jwk))"
proof -
  from assms obtain e where "entry_wf e" "jw_cached s' = Some e" "lookup_kid e kid = Some jwk"
    "fetches s' \<le> fetches s + 2"
    "fetches s' = fetches s \<longrightarrow> jw_cached s = Some e \<and> jc_now C (reads s) < expires_at e"
    "fetches s' \<noteq> fetches s \<longrightarrow> filled_from C (fetches s' - 1) e"
    by (rule jwks_get_cases)
  then show ?thesis using lookup_kid_filed by (auto simp: jwks_wf_def)
qed

text \<open>
  The key a token was checked with: it is the entry under the token's \<^verbatim>\<open>kid\<close> in the key cache, which holds
  what it held before and is not expired, or what the endpoint answered last.
\<close>

definition key_from_cache :: "jwks_cfg \<Rightarrow> jwks_state \<Rightarrow> jwks_state \<Rightarrow> string \<Rightarrow> item \<Rightarrow> bool" where
  "key_from_cache C before after kid jwk \<longleftrightarrow>
     (\<exists>e. jw_cached after = Some e \<and> lookup_kid e kid = Some (PDict jwk) \<and> dget jwk ''kid'' = PStr kid \<and>
        (if fetches after = fetches before then jw_cached before = Some e \<and> jc_now C (reads before) < expires_at e
         else filled_from C (fetches after - 1) e))"

lemma key_from_cache_published:
  "key_from_cache C before after kid jwk \<Longrightarrow> cache_published C before \<Longrightarrow> cache_published C after \<and> published_key C jwk"
  by (auto simp: key_from_cache_def cache_published_def intro: filled_published split: if_splits)

lemma jwks_validate_verified:
  assumes "jwks_wf s" "jwks_validate L C S token s = (Inr c, s')"
  shows "\<exists>header kid jwk key payload. unverified_header L token = Inr header \<and>
     dget header ''kid'' = PStr kid \<and> key_from_cache C s s' kid jwk \<and> key_from_jwk L jwk = Inr key \<and>
     decode L key [''RS256''] (jwt_issuer S) (jwt_audience S) token = Inr payload \<and>
     claims_of L payload = Some c"
proof -
  obtain header kid v where h: "unverified_header L token = Inr header" "dget header ''kid'' = PStr kid"
    and get: "jwks_get C kid s = (Inr v, s')" and v: "verify_with_jwk L S token v = Inr c"
    using assms(2) by (rule jwks_validate_Inr)
  obtain jwk key payload where j: "v = PDict jwk" "key_from_jwk L jwk = Inr key"
    "decode L key [''RS256''] (jwt_issuer S) (jwt_audience S) token = Inr payload" "claims_of L payload = Some c"
    using v by (rule verify_with_jwk_Inr)
  obtain e where e: "entry_wf e" "jw_cached s' = Some e" "lookup_kid e kid = Some v"
      "fetches s' = fetches s \<longrightarrow> jw_cached s = Some e \<and> jc_now C (reads s) < expires_at e"
      "fetches s' \<noteq> fetches s \<longrightarrow> filled_from C (fetches s' - 1) e"
    using assms(1) get by (rule jwks_get_cases)
  have "key_from_cache C s s' kid jwk"
    using e j(1) lookup_kid_filed [OF e(1,3)] by (auto simp: key_from_cache_def)
  with h j show ?thesis by blast
qed

text \<open>
  An accepted RS256 token names in its header the key it was checked with, and that key was
  published under this \<^verbatim>\<open>kid\<close>; only RS256 is offered to the library, so a token signed with a
  shared secret cannot be checked against the public key.
\<close>

lemma jwks_validate_sound:
  assumes "jwks_wf s" "cache_published C s" "jwks_validate L C S token s = (Inr c, s')"
  shows "\<exists>header kid jwk key payload. unverified_header L token = Inr header \<and>
     dget header ''kid'' = PStr kid \<and> dget jwk ''kid'' = PStr kid \<and> published_key C jwk \<and> key_from_jwk L jwk = Inr key \<and>
     decode L key [''RS256''] (jwt_issuer S) (jwt_audience S) token = Inr payload \<and>
     claims_of L payload = Some c"
  using jwks_validate_verified [OF assms(1,3)] key_from_cache_published [OF _ assms(2)]
  unfolding key_from_cache_def by meson

section \<open>Witnesses\<close>

definition demo_claims :: item where
  "demo_claims = [(''sub'', PStr ''root''), (''iss'', PStr ''iss''), (''aud'', PStr ''aud''), (''iat'', PInt 1),
     (''exp'', PInt 900), (''role'', PStr ''admin''), (''mfa_step_up_at'', PInt 100)]"

definition demo_lib :: jwt_lib where
  "demo_lib = \<lparr>
     decode = (\<lambda>key algs iss aud token.
        if token = ''tok'' \<and> (key = ''secret'' \<and> algs = [''HS256''] \<or> key = ''public'' \<and> algs = [''RS256''])
        then Inr demo_claims else Inl InvalidTokenError),
     unverified_header = (\<lambda>_. Inr [(''kid'', PStr ''k1'')]),
     unverified_payload = (\<lambda>_. Some demo_claims),
     key_from_jwk = (\<lambda>_. Inr ''public''),
     coerce_int = as_int\<rparr>"

definition demo_jwt_settings :: jwt_settings where
  "demo_jwt_settings = \<lparr>jwt_secret = ''secret'', jwt_issuer = ''iss'', jwt_audience = ''aud''\<rparr>"

definition demo_jwks :: jwks_cfg where
  "demo_jwks = \<lparr>jc_url = ''u'', jc_ttl = 600,
     jc_fetcher = (\<lambda>_. Inr [(''keys'', PList [PDict [(''kid'', PStr ''k1''), (''n'', PStr ''x'')]])]),
     jc_now = (\<lambda>n. of_nat n)\<rparr>"

definition demo_cache :: jwks_state where
  "demo_cache = \<lparr>jw_cached = None, fetches = 0, reads = 0\<rparr>"

lemma demo_cache_wf: "jwks_wf demo_cache"
  by (simp add: jwks_wf_def demo_cache_def)

lemma demo_jwks_get:
  "jwks_get demo_jwks ''k1'' demo_cache = (Inr (PDict [(''kid'', PStr ''k1''), (''n'', PStr ''x'')]),
     \<lparr>jw_cached = Some \<lparr>keys_by_kid = [(''k1'', PDict [(''kid'', PStr ''k1''), (''n'', PStr ''x'')])],
        expires_at = 600\<rparr>, fetches = 1, reads = 1\<rparr>)"
  by (simp add: jwks_get_def jwks_current_def jwks_refresh_def jwks_fetch_def jwks_now_def bindE_def retE_def
      demo_jwks_def demo_cache_def index_keys_def index_key_def lookup_kid_def dget_Cons dset_def Let_def)

end
