(* ===== verification/Session_Manager.thy ===== *)
theory Session_Manager
  imports Owner_Scope Auth
begin

text \<open>
  The session manager (\<^verbatim>\<open>services/session-manager\<close>): the session-status state machine
  (\<^verbatim>\<open>models.py\<close>), the DynamoDB store (\<^verbatim>\<open>storage/dynamodb.py\<close>) and the routes
  (\<^verbatim>\<open>routes/sessions.py\<close>). A handler is a world-passing computation; the HTTP error it ends with is
  the exception it raises.
\<close>

section \<open>The status state machine\<close>

datatype session_status = Starting | Active | Paused | Completed | Errored

fun status_str :: "session_status \<Rightarrow> string" where
  "status_str Starting = ''starting''"
| "status_str Active = ''active''"
| "status_str Paused = ''paused''"
| "status_str Completed = ''completed''"
| "status_str Errored = ''errored''"

definition all_statuses :: "session_status list" where
  "all_statuses = [Starting, Active, Paused, Completed, Errored]"

definition parse_status :: "pyval \<Rightarrow> session_status option" where
  "parse_status v = (case as_str v of None \<Rightarrow> None | Some s \<Rightarrow> find (\<lambda>x. status_str x = s) all_statuses)"

fun allowed_transitions :: "session_status \<Rightarrow> session_status list" where
  "allowed_transitions Starting = [Active, Errored]"
| "allowed_transitions Active = [Paused, Completed, Errored]"
| "allowed_transitions Paused = [Active, Completed, Errored]"
| "allowed_transitions Completed = []"
| "allowed_transitions Errored = []"

definition is_terminal :: "session_status \<Rightarrow> bool" where
  "is_terminal s \<longleftrightarrow> s \<in> {Completed, Errored}"

definition is_allowed_transition :: "session_status \<Rightarrow> session_status \<Rightarrow> bool" where
  "is_allowed_transition a b \<longleftrightarrow> b \<in> set (allowed_transitions a)"

section \<open>Requests and records\<close>

record session_settings =
  sessions_table_name :: string
  session_ttl_seconds :: int
  list_max_limit :: int

record update_request =
  rq_status :: "session_status option"
  rq_gpu_instance_id :: "string option"

record session_record =
  sr_session_id :: string
  sr_user_id :: string
  sr_status :: session_status
  sr_language :: string
  sr_gpu_instance_id :: "string option"
  sr_created_at :: int
  sr_updated_at :: int
  sr_expires_at :: int

text \<open>\<open>CreateSessionRequest\<close>: the language, stripped, of two to eight characters; \<^verbatim>\<open>en\<close> by default.\<close>

definition parse_create_request :: "item \<Rightarrow> exn + string" where
  "parse_create_request body =
     (if \<not> set (map fst body) \<subseteq> {''language''} then Inl (HTTPException 422 ''extra fields'')
      else case as_str (dget_or body ''language'' (PStr ''en'')) of
             None \<Rightarrow> Inl (HTTPException 422 ''language'')
           | Some l \<Rightarrow> let s = strip l in
               if 2 \<le> length s \<and> length s \<le> 8 then Inr s else Inl (HTTPException 422 ''language''))"

definition parse_update_request :: "item \<Rightarrow> exn + update_request" where
  "parse_update_request body =
     (if \<not> set (map fst body) \<subseteq> {''status'', ''gpu_instance_id''}
      then Inl (HTTPException 422 ''extra fields'')
      else
        let st = dget body ''status''; gpu = dget body ''gpu_instance_id'' in
        if st \<noteq> PNone \<and> parse_status st = None then Inl (HTTPException 422 ''status'')
        else if gpu = PNone
             then Inr \<lparr>rq_status = parse_status st, rq_gpu_instance_id = None\<rparr>
        else case as_str gpu of
               None \<Rightarrow> Inl (HTTPException 422 ''gpu_instance_id'')
             | Some g \<Rightarrow>
                 if 1 \<le> length (strip g) \<and> length (strip g) \<le> 64
                 then Inr \<lparr>rq_status = parse_status st, rq_gpu_instance_id = Some (strip g)\<rparr>
                 else Inl (HTTPException 422 ''gpu_instance_id''))"

section \<open>The store\<close>

definition to_dynamo :: "session_record \<Rightarrow> item" where
  "to_dynamo r =
     [(''session_id'', PStr (sr_session_id r)),
      (''user_id'', PStr (sr_user_id r)),
      (''status'', PStr (status_str (sr_status r))),
      (''language'', PStr (sr_language r)),
      (''created_at'', PStr (isoformat (sr_created_at r))),
      (''updated_at'', PStr (isoformat (sr_updated_at r))),
      (''ttl_epoch_seconds'', PInt (sr_expires_at r))] @
     (case sr_gpu_instance_id r of None \<Rightarrow> [] | Some g \<Rightarrow> [(''gpu_instance_id'', PStr g)])"

fun undec :: "pyval \<Rightarrow> pyval" where
  "undec (PDec q) = PInt (trunc_rat q)"
| "undec v = v"

fun clean_item :: "item \<Rightarrow> item \<Rightarrow> item" where
  "clean_item [] cleaned = cleaned"
| "clean_item ((key, v) # rest) cleaned =
     clean_item rest
       (dset (if key = ''ttl_epoch_seconds'' then ''expires_at'' else key) (undec v) cleaned)"

text \<open>\<open>SessionRecord.model_validate\<close>: \<open>None\<close> is a \<^verbatim>\<open>ValidationError\<close>.\<close>

definition validate_session :: "'t env \<Rightarrow> item \<Rightarrow> session_record option" where
  "validate_session E d =
     (case (as_str (dget d ''session_id''), as_str (dget d ''user_id''), parse_status (dget d ''status''),
            as_str (dget d ''language''), opt_str_field (dget d ''gpu_instance_id''),
            pyd_dt E (dget d ''created_at''), pyd_dt E (dget d ''updated_at''),
            pyd_int E (dget d ''expires_at'')) of
        (Some sid, Some uid, Some st, Some lang, Some gpu, Some c, Some u, Some ex) \<Rightarrow>
          Some \<lparr>sr_session_id = sid, sr_user_id = uid, sr_status = st, sr_language = lang,
                sr_gpu_instance_id = gpu, sr_created_at = c, sr_updated_at = u, sr_expires_at = ex\<rparr>
      | _ \<Rightarrow> None)"

definition from_dynamo :: "'t env \<Rightarrow> item \<Rightarrow> exn + session_record" where
  "from_dynamo E it =
     (case validate_session E (clean_item it []) of
        None \<Rightarrow> Inl (ValueError ''SessionRecord'')
      | Some r \<Rightarrow> Inr r)"

definition session_key :: "string \<Rightarrow> item" where
  "session_key sid = [(''session_id'', PStr sid)]"

definition store_put :: "'t env \<Rightarrow> string \<Rightarrow> session_record \<Rightarrow> ('t world, unit) io" where
  "store_put E tbl r = put_item E tbl (to_dynamo r) (AttrNotExists ''session_id'')"

definition store_get :: "'t env \<Rightarrow> string \<Rightarrow> string \<Rightarrow> string \<Rightarrow> ('t world, session_record option) io" where
  "store_get E tbl user_id session_id =
     bindE (get_item E tbl (session_key session_id)) (\<lambda>i.
     (case i of
        None \<Rightarrow> retE None
      | Some it \<Rightarrow>
          bindE (liftE (from_dynamo E it)) (\<lambda>r.
            if sr_user_id r \<noteq> user_id then retE None else retE (Some r))))"

definition set_clauses :: "item \<Rightarrow> upd list" where
  "set_clauses updates = map (\<lambda>(a, v). SetAttr a v) updates"

definition store_update :: "'t env \<Rightarrow> string \<Rightarrow> string \<Rightarrow> string \<Rightarrow> item \<Rightarrow> ('t world, session_record) io" where
  "store_update E tbl user_id session_id updates =
     (if updates = [] then raiseE (ValueError ''updates dict must not be empty'')
      else
        bindE (get_item E tbl (session_key session_id)) (\<lambda>existing.
        (case existing of
           None \<Rightarrow> raiseE (SessionNotFoundError session_id)
         | Some _ \<Rightarrow>
             tryE (update_item E tbl (session_key session_id) (set_clauses updates)
                     (AttrEq ''user_id'' (PStr user_id)))
               (\<lambda>e. if is_ccf e then raiseE (OwnerMismatchError session_id) else raiseE e)
               (\<lambda>attrs. liftE (from_dynamo E attrs)))))"

text \<open>The start key of the next page: the cursor's row, when it belongs to the caller.\<close>

definition list_anchor :: "'t env \<Rightarrow> string \<Rightarrow> string \<Rightarrow> string option \<Rightarrow> ('t world, item option) io" where
  "list_anchor E tbl user_id cursor =
     (case cursor of
        None \<Rightarrow> retE None
      | Some c \<Rightarrow>
          bindE (get_item E tbl (session_key c)) (\<lambda>i.
          (case i of
             None \<Rightarrow> retE None
           | Some anchor \<Rightarrow>
               if dget anchor ''user_id'' \<noteq> PStr user_id then retE None
               else (case map_of anchor ''created_at'' of
                       None \<Rightarrow> raiseE (KeyError ''created_at'')
                     | Some created \<Rightarrow>
                         retE (Some [(''session_id'', PStr c), (''user_id'', PStr user_id),
                                     (''created_at'', created)])))))"

definition list_for_user :: "'t env \<Rightarrow> string \<Rightarrow> string \<Rightarrow> int \<Rightarrow> string option \<Rightarrow>
    ('t world, session_record list \<times> string option) io" where
  "list_for_user E tbl user_id limit cursor =
     bindE (list_anchor E tbl user_id cursor) (\<lambda>start.
     bindE (query_items E tbl
        \<lparr>q_index = Some ''UserSessionsIndex'', q_hash = (''user_id'', PStr user_id), q_prefix = None,
         q_limit = Some limit, q_forward = False, q_start = start\<rparr>) (\<lambda>response.
     bindE (liftE (map_records (from_dynamo E) (p_items response))) (\<lambda>items.
     retE (items, (case p_last response of
                     None \<Rightarrow> None
                   | Some k \<Rightarrow> as_str (dget k ''session_id''))))))"

section \<open>The routes\<close>

definition not_found :: exn where
  "not_found = HTTPException 404 ''session not found''"

definition session_audit :: "string \<Rightarrow> string \<Rightarrow> string \<Rightarrow> item \<Rightarrow> audit_args" where
  "session_audit user_id action session_id details =
     \<lparr>ra_actor_id = user_id, ra_actor_type = ''user'', ra_action = action, ra_resource_type = ''session'',
      ra_resource_id = session_id, ra_source_service = ''session-manager'', ra_details = details\<rparr>"

definition create_session :: "'t env \<Rightarrow> session_settings \<Rightarrow> string \<Rightarrow> string \<Rightarrow> ('t world, session_record) io" where
  "create_session E S user_id language =
     bindE (utcnow E) (\<lambda>now.
     bindE (new_id E) (\<lambda>ulid.
     let session_id = ''sess_'' @ ulid;
         record = \<lparr>sr_session_id = session_id, sr_user_id = user_id, sr_status = Starting,
                   sr_language = language, sr_gpu_instance_id = None, sr_created_at = now,
                   sr_updated_at = now, sr_expires_at = epoch_secs now + session_ttl_seconds S\<rparr>
     in bindE (store_put E (sessions_table_name S) record) (\<lambda>_.
        bindE (record_event E (session_audit user_id ''session.created'' session_id
                 [(''language'', PStr language)])) (\<lambda>_.
        retE record))))"

definition get_session :: "'t env \<Rightarrow> session_settings \<Rightarrow> string \<Rightarrow> string \<Rightarrow> ('t world, session_record) io" where
  "get_session E S user_id session_id =
     bindE (store_get E (sessions_table_name S) user_id session_id) (\<lambda>r.
     (case r of None \<Rightarrow> raiseE not_found | Some record \<Rightarrow> retE record))"

definition list_sessions :: "'t env \<Rightarrow> session_settings \<Rightarrow> string \<Rightarrow> int \<Rightarrow> string option \<Rightarrow>
    ('t world, session_record list \<times> string option) io" where
  "list_sessions E S user_id limit cursor =
     (if limit < 1 \<or> 100 < limit then raiseE (HTTPException 422 ''limit'')
      else list_for_user E (sessions_table_name S) user_id (min limit (list_max_limit S)) cursor)"

text \<open>
  \<^verbatim>\<open>PATCH\<close> in its two parts: reading and validating against the row read, then writing. Another
  request may run between the two.
\<close>

definition patch_updates :: "update_request \<Rightarrow> int \<Rightarrow> item" where
  "patch_updates req now =
     [(''updated_at'', PStr (isoformat now))] @
     (case rq_status req of None \<Rightarrow> [] | Some st \<Rightarrow> [(''status'', PStr (status_str st))]) @
     (case rq_gpu_instance_id req of None \<Rightarrow> [] | Some g \<Rightarrow> [(''gpu_instance_id'', PStr g)])"

definition check_transition :: "session_status \<Rightarrow> session_status option \<Rightarrow> exn + unit" where
  "check_transition previous requested =
     (case requested of
        None \<Rightarrow> Inr ()
      | Some st \<Rightarrow>
          if \<not> is_allowed_transition previous st
          then Inl (HTTPException 409 (''illegal status transition: '' @ status_str previous @ '' -> '' @
                 status_str st))
          else Inr ())"

definition update_check :: "'t env \<Rightarrow> session_settings \<Rightarrow> string \<Rightarrow> string \<Rightarrow> update_request \<Rightarrow>
    ('t world, session_status \<times> item) io" where
  "update_check E S user_id session_id req =
     (if rq_status req = None \<and> rq_gpu_instance_id req = None
      then raiseE (HTTPException 422 ''at least one of 'status' or 'gpu_instance_id' must be provided'')
      else
        bindE (store_get E (sessions_table_name S) user_id session_id) (\<lambda>r.
        (case r of
           None \<Rightarrow> raiseE not_found
         | Some current \<Rightarrow>
             bindE (utcnow E) (\<lambda>now.
             bindE (liftE (check_transition (sr_status current) (rq_status req))) (\<lambda>_.
             retE (sr_status current, patch_updates req now))))))"

text \<open>\<^verbatim>\<open>except (SessionNotFoundError, OwnerMismatchError)\<close>: both become the 404.\<close>

fun missing_to_404 :: "exn \<Rightarrow> exn" where
  "missing_to_404 (SessionNotFoundError _) = not_found"
| "missing_to_404 (OwnerMismatchError _) = not_found"
| "missing_to_404 e = e"

definition update_commit :: "'t env \<Rightarrow> session_settings \<Rightarrow> string \<Rightarrow> string \<Rightarrow> update_request \<Rightarrow>
    session_status \<times> item \<Rightarrow> ('t world, session_record) io" where
  "update_commit E S user_id session_id req checked =
     tryE (store_update E (sessions_table_name S) user_id session_id (snd checked))
       (\<lambda>e. raiseE (missing_to_404 e))
       (\<lambda>updated.
          (case rq_status req of
             Some st \<Rightarrow>
               if st \<noteq> fst checked
               then bindE (record_event E (session_audit user_id ''session.status_changed'' session_id
                      [(''from'', PStr (status_str (fst checked))), (''to'', PStr (status_str st))]))
                      (\<lambda>_. retE updated)
               else retE updated
           | None \<Rightarrow> retE updated))"

definition update_session :: "'t env \<Rightarrow> session_settings \<Rightarrow> string \<Rightarrow> string \<Rightarrow> update_request \<Rightarrow>
    ('t world, session_record) io" where
  "update_session E S user_id session_id req =
     bindE (update_check E S user_id session_id req) (update_commit E S user_id session_id req)"

definition delete_session :: "'t env \<Rightarrow> session_settings \<Rightarrow> string \<Rightarrow> string \<Rightarrow> ('t world, unit) io" where
  "delete_session E S user_id session_id =
     bindE (store_get E (sessions_table_name S) user_id session_id) (\<lambda>r.
     (case r of
        None \<Rightarrow> raiseE not_found
      | Some current \<Rightarrow>
          bindE (utcnow E) (\<lambda>now.
          tryE (store_update E (sessions_table_name S) user_id session_id
                  [(''status'', PStr ''errored''), (''updated_at'', PStr (isoformat now)),
                   (''ttl_epoch_seconds'', PInt (epoch_secs now))])
            (\<lambda>e. raiseE (missing_to_404 e))
            (\<lambda>_. bindE (record_event E (session_audit user_id ''session.deleted'' session_id
                    [(''previous_status'', PStr (status_str (sr_status current)))])) (\<lambda>_. retE ())))))"

section \<open>What a successful read establishes\<close>

lemma store_get_Some:
  assumes "ddb_ok E V" "store_get E tbl uid sid w = (Inr (Some r), w')"
  obtains row where "rows V w tbl (session_key sid) = Some row" "from_dynamo E row = Inr r"
    "sr_user_id r = uid" "rows V w' = rows V w"
proof -
  from assms(2) obtain i w1 where g: "get_item E tbl (session_key sid) w = (Inr i, w1)"
    and i: "i \<noteq> None" and rest: "from_dynamo E (the i) = Inr r \<and> sr_user_id r = uid \<and> w' = w1"
    by (auto simp: store_get_def bindE_Inr_iff liftE_def retE_def split: option.split_asm if_split_asm)
  have key: "ddb_item (session_key sid) = session_key sid" by (simp add: ddb_item_def session_key_def)
  from get_item_cases [OF assms(1) g] i rest that show ?thesis by (auto simp: key)
qed

lemma ddb_session_key [simp]: "ddb_item (session_key sid) = session_key sid"
  by (simp add: ddb_item_def session_key_def)

lemma parse_status_str: "parse_status (PStr (status_str s)) = Some s"
  by (cases s) (simp_all add: parse_status_def all_statuses_def)

lemma parse_status_Some: "parse_status v = Some s \<Longrightarrow> v = PStr (status_str s)"
  by (auto simp: parse_status_def all_statuses_def split: option.splits if_splits)

section \<open>Other users' rows\<close>

text \<open>
  The calls a caller can make, as the service dispatches them.
\<close>

datatype session_call =
    CreateCall string
  | GetCall string
  | ListCall int "string option"
  | PatchCall string update_request
  | DeleteCall string

fun serve_session :: "'t env \<Rightarrow> session_settings \<Rightarrow> string \<Rightarrow> session_call \<Rightarrow> ('t world, unit) io" where
  "serve_session E S uid (CreateCall lang) = bindE (create_session E S uid lang) (\<lambda>_. retE ())"
| "serve_session E S uid (GetCall sid) = bindE (get_session E S uid sid) (\<lambda>_. retE ())"
| "serve_session E S uid (ListCall limit cursor) = bindE (list_sessions E S uid limit cursor) (\<lambda>_. retE ())"
| "serve_session E S uid (PatchCall sid req) = bindE (update_session E S uid sid req) (\<lambda>_. retE ())"
| "serve_session E S uid (DeleteCall sid) = delete_session E S uid sid"

definition owned_row :: "string \<Rightarrow> item \<Rightarrow> item \<Rightarrow> bool" where
  "owned_row uid k row \<longleftrightarrow> map_of row ''session_id'' \<noteq> None \<and> map_of row ''user_id'' = Some (PStr uid)"

lemma keeps_store_put:
  assumes "ddb_ok E V"
  shows "keeps (rows_rel V (rows_protected tbl owned_row uid)) (store_put E tbl r)"
  unfolding store_put_def
  by (rule keeps_put_item [OF assms _ refl]) (auto simp: rows_protected_def owned_row_def store_row_apply)

lemma keeps_store_get:
  assumes "ddb_ok E V"
  shows "keeps (rows_rel V (rows_protected tbl owned_row uid)) (store_get E tbl u sid)"
  unfolding store_get_def
  by (auto intro!: keeps_intros rows_protected_preorder assms split: option.split)

lemma keeps_owner_update:
  assumes "ddb_ok E V"
  shows "keeps (rows_rel V (rows_protected tbl owned_row uid)) (update_item E tbl k us (AttrEq ''user_id'' (PStr uid)))"
  by (rule keeps_update_item [OF assms]) (auto simp: rows_protected_def owned_row_def store_row_apply)

lemma keeps_store_update:
  assumes "ddb_ok E V"
  shows "keeps (rows_rel V (rows_protected tbl owned_row uid)) (store_update E tbl uid sid ups)"
  unfolding store_update_def
  by (auto intro!: keeps_intros keeps_owner_update rows_protected_preorder assms split: option.split)

lemmas keeps_session_steps =
  keeps_store_put keeps_store_get keeps_store_update

lemma keeps_list_sessions:
  assumes "ddb_ok E V"
  shows "keeps (rows_rel V (rows_protected tbl owned_row uid)) (list_sessions E S u limit cursor)"
  unfolding list_sessions_def list_for_user_def list_anchor_def
  by (auto intro!: keeps_intros rows_protected_preorder assms split: option.split)

lemma keeps_update_session:
  assumes "tenant_table E V (sessions_table_name S) schema"
  shows "keeps (rows_rel V (rows_protected (sessions_table_name S) owned_row uid)) (update_session E S uid sid req)"
  unfolding update_session_def update_check_def update_commit_def
  by (auto intro!: keeps_intros rows_protected_preorder keeps_session_steps [OF tenant_table_ddb [OF assms]] keeps_audit_protected [OF assms] split: option.split)

lemma keeps_serve_session:
  assumes "tenant_table E V (sessions_table_name S) schema"
  shows "keeps (rows_rel V (rows_protected (sessions_table_name S) owned_row uid)) (serve_session E S uid c)"
proof (cases c)
  case (CreateCall lang)
  then show ?thesis
    by (auto simp: create_session_def Let_def intro!: keeps_intros rows_protected_preorder
        keeps_session_steps [OF tenant_table_ddb [OF assms]] keeps_audit_protected [OF assms])
next
  case (DeleteCall sid)
  then show ?thesis
    by (auto simp: delete_session_def intro!: keeps_intros rows_protected_preorder
        keeps_session_steps [OF tenant_table_ddb [OF assms]] keeps_audit_protected [OF assms]
        split: option.split)
qed (auto simp: get_session_def intro!: keeps_intros rows_protected_preorder
      keeps_session_steps [OF tenant_table_ddb [OF assms]] keeps_audit_protected [OF assms]
      keeps_update_session [OF assms] keeps_list_sessions [OF tenant_table_ddb [OF assms]]
      split: option.split)

interpretation session_api: owner_scoped "tenant_table E V (sessions_table_name S) [''session_id'']" V
    "sessions_table_name S" owned_row
    "serve_session E S" for E V S
  by unfold_locales (rule keeps_serve_session)

section \<open>What an update writes\<close>

lemma from_dynamo_Inr: "from_dynamo E it = Inr r \<longleftrightarrow> validate_session E (clean_item it []) = Some r"
  by (auto simp: from_dynamo_def split: option.splits)

lemma check_transition_Inr:
  "check_transition p s = Inr u \<longleftrightarrow> (\<forall>st. s = Some st \<longrightarrow> is_allowed_transition p st)"
  by (auto simp: check_transition_def split: option.splits)

lemma update_check_Inr:
  assumes "ddb_ok E V" "update_check E S uid sid req w = (Inr c, w')"
  obtains row cur now where "rows V w (sessions_table_name S) (session_key sid) = Some row"
    "from_dynamo E row = Inr cur" "sr_user_id cur = uid"
    "\<forall>st. rq_status req = Some st \<longrightarrow> is_allowed_transition (sr_status cur) st"
    "c = (sr_status cur, patch_updates req now)" "rows V w' = rows V w" "now = clock E (ticks w)"
proof -
  from assms(2) obtain cur w1 now w2 where get: "store_get E (sessions_table_name S) uid sid w = (Inr (Some cur), w1)"
    and now: "utcnow E w1 = (Inr now, w2)" and w': "w' = w2"
    and c: "c = (sr_status cur, patch_updates req now)" "check_transition (sr_status cur) (rq_status req) = Inr ()"
    by (auto simp: update_check_def bindE_Inr_iff raiseE_def liftE_def retE_def split: if_split_asm option.split_asm)
  have "ticks w1 = ticks w"
    using get by (auto simp: store_get_def bindE_def get_item_def on_db_def liftE_def retE_def
        split: sum.split_asm option.split_asm prod.split_asm if_split_asm)
  with now have "rows V w2 = rows V w1" "now = clock E (ticks w)" by (auto simp: utcnow_def tick_def)
  moreover obtain row where "rows V w (sessions_table_name S) (session_key sid) = Some row"
    "from_dynamo E row = Inr cur" "sr_user_id cur = uid" "rows V w1 = rows V w"
    using store_get_Some [OF assms(1) get] by blast
  ultimately show ?thesis using c w' by (intro that) (simp_all add: check_transition_Inr)
qed

lemma update_check_Inl:
  assumes "ddb_ok E V" "update_check E S uid sid req w = (Inl e, w')"
  shows "rows V w' = rows V w"
proof -
  have "preorder_on_worlds (rows_rel V (\<lambda>a b. a = b))" by (rule preorder_rows_rel) auto
  then have "keeps (rows_rel V (\<lambda>a b. a = b)) (update_check E S uid sid req)"
    unfolding update_check_def store_get_def
    by (auto intro!: keeps_intros assms(1) split: option.split)
  from keepsD [OF this assms(2)] show ?thesis by (simp add: rows_rel_def)
qed

lemma store_update_outcome:
  assumes "ddb_ok E V" "store_update E tbl uid sid ups w = (r, w')"
  shows "rows V w' = rows V w \<and> (\<forall>x. r \<noteq> Inr x) \<or>
     (\<exists>row. rows V w tbl (session_key sid) = Some row \<and> map_of row ''user_id'' = Some (PStr uid) \<and>
        rows V w' = store_row (rows V w) tbl (session_key sid) (apply_upds (set_clauses ups) row) \<and>
        (\<forall>x. r = Inr x \<longrightarrow> from_dynamo E (apply_upds (set_clauses ups) row) = Inr x))"
proof (cases "ups = []")
  case True
  with assms(2) show ?thesis by (auto simp: store_update_def raiseE_def)
next
  case False
  obtain i w1 where g: "get_item E tbl (session_key sid) w = (i, w1)" by fastforce
  note get = get_item_cases [OF assms(1) g]
  show ?thesis
  proof (cases "\<exists>row. i = Inr (Some row)")
    case False
    with assms(2) \<open>ups \<noteq> []\<close> g get show ?thesis
      by (auto simp: store_update_def bindE_def raiseE_def split: sum.splits option.splits)
  next
    case True
    then obtain row where i: "i = Inr (Some row)" by auto
    obtain q w2 where u: "update_item E tbl (session_key sid) (set_clauses ups)
        (AttrEq ''user_id'' (PStr uid)) w1 = (q, w2)" by fastforce
    from assms(2) \<open>ups \<noteq> []\<close> g i u
    have r: "w' = w2" "r = (case q of Inl e \<Rightarrow> Inl (if is_ccf e then OwnerMismatchError sid else e)
                                    | Inr att \<Rightarrow> from_dynamo E att)"
      by (auto simp: store_update_def bindE_def tryE_def raiseE_def liftE_def split: sum.splits if_splits)
    note upd = update_item_cases [OF assms(1) u]
    have row: "rows V w tbl (session_key sid) = Some row" "rows V w1 = rows V w" using get i by auto
    show ?thesis
    proof (cases q)
      case (Inl e)
      with write_outcome_weak [OF upd(1)] row r show ?thesis
        by (auto simp: updated_row_def split: if_splits)
    next
      case (Inr it)
      with upd row r show ?thesis by (auto simp: updated_row_def write_outcome_simps)
    qed
  qed
qed

lemma update_commit_outcome:
  assumes "ddb_ok E V" "audit_table (audit_cfg E) \<noteq> sessions_table_name S"
    and "update_commit E S uid sid req c w = (r, w')"
  shows "rows V w' (sessions_table_name S) = rows V w (sessions_table_name S) \<and> (\<forall>x. r \<noteq> Inr x) \<or>
     (\<exists>row. rows V w (sessions_table_name S) (session_key sid) = Some row \<and>
        map_of row ''user_id'' = Some (PStr uid) \<and>
        rows V w' (sessions_table_name S) =
          (rows V w (sessions_table_name S))(session_key sid \<mapsto> apply_upds (set_clauses (snd c)) row) \<and>
        (\<forall>x. r = Inr x \<longrightarrow> from_dynamo E (apply_upds (set_clauses (snd c)) row) = Inr x))"
proof -
  let ?T = "sessions_table_name S"
  obtain q w1 where u: "store_update E ?T uid sid (snd c) w = (q, w1)" by fastforce
  have "rows V w' ?T = rows V w1 ?T" "\<forall>x. r = Inr x \<longrightarrow> q = Inr x"
    using assms(3) u record_event_other_tables [OF assms(1) _ assms(2) [symmetric]]
    by (auto simp: update_commit_def tryE_def raiseE_def retE_def bindE_def
        split: sum.splits option.splits if_splits prod.splits)
  with store_update_outcome [OF assms(1) u] show ?thesis by (auto simp: store_row_def)
qed

lemma patch_updates_effect:
  "map_of (apply_upds (set_clauses (patch_updates req now)) row) ''user_id'' = map_of row ''user_id''"
  "map_of (apply_upds (set_clauses (patch_updates req now)) row) ''status'' =
     (case rq_status req of None \<Rightarrow> map_of row ''status'' | Some st \<Rightarrow> Some (PStr (status_str st)))"
  by (auto simp: patch_updates_def set_clauses_def split: option.splits)

text \<open>
  What the row of a session holds under an attribute after a PATCH: the time of the request under
  \<^verbatim>\<open>updated_at\<close>, the values of the body under the attributes it names, the stored value under every other.
\<close>

fun patched_attr :: "update_request \<Rightarrow> int \<Rightarrow> item \<Rightarrow> string \<Rightarrow> pyval option" where
  "patched_attr req now row a =
     (if a = ''updated_at'' then Some (PStr (isoformat now))
      else if a = ''status'' \<and> rq_status req \<noteq> None then map_option (\<lambda>st. PStr (status_str st)) (rq_status req)
      else if a = ''gpu_instance_id'' \<and> rq_gpu_instance_id req \<noteq> None then map_option PStr (rq_gpu_instance_id req)
      else map_of row a)"

lemma patch_updates_attr:
  "map_of (apply_upds (set_clauses (patch_updates req now)) row) a = patched_attr req now row a"
  by (auto simp: patch_updates_def set_clauses_def split: option.splits)

section \<open>Properties\<close>

text \<open>
  C2. A PATCH either writes the row it names or fails and leaves the sessions table as it was. The row
  written was read as a record of the caller, the new status (when one was requested) is an allowed
  successor of the status read, and of the row's attributes exactly those of the request and the
  time of the update change: any other attribute, the owner among them, keeps its value and no other row
  changes. A PATCH that is answered with a record wrote, and the record is the decoding of the new row (a
  failing audit log, or an answer of the database that is lost, leaves the row written and the request failed).
\<close>

theorem update_session_transitions:
  assumes "ddb_ok E V" "audit_table (audit_cfg E) \<noteq> sessions_table_name S"
    and "update_session E S uid sid req w = (r, w')"
  shows "(\<exists>e. r = Inl e) \<and> rows V w' (sessions_table_name S) = rows V w (sessions_table_name S) \<or>
     (\<exists>row new cur. rows V w (sessions_table_name S) (session_key sid) = Some row \<and>
        rows V w' (sessions_table_name S) = (rows V w (sessions_table_name S))(session_key sid \<mapsto> new) \<and>
        from_dynamo E row = Inr cur \<and> sr_user_id cur = uid \<and>
        (\<forall>st. rq_status req = Some st \<longrightarrow> st \<in> set (allowed_transitions (sr_status cur))) \<and>
        (\<forall>a. map_of new a = patched_attr req (clock E (ticks w)) row a) \<and>
        (\<forall>rec. r = Inr rec \<longrightarrow> from_dynamo E new = Inr rec))"
proof -
  obtain q w1 where chk: "update_check E S uid sid req w = (q, w1)" by fastforce
  show ?thesis
  proof (cases q)
    case (Inl e)
    with chk assms(3) update_check_Inl [OF assms(1)] show ?thesis
      by (auto simp: update_session_def bindE_def)
  next
    case (Inr c)
    obtain row cur now where cur: "rows V w (sessions_table_name S) (session_key sid) = Some row"
        "from_dynamo E row = Inr cur" "sr_user_id cur = uid"
        "\<forall>st. rq_status req = Some st \<longrightarrow> is_allowed_transition (sr_status cur) st"
        "c = (sr_status cur, patch_updates req now)" "rows V w1 = rows V w" "now = clock E (ticks w)"
      using update_check_Inr [OF assms(1)] chk Inr by metis
    from assms(3) chk Inr have "update_commit E S uid sid req c w1 = (r, w')"
      by (simp add: update_session_def bindE_def)
    from update_commit_outcome [OF assms(1,2) this] cur show ?thesis
      by (cases r) (auto simp: patch_updates_attr is_allowed_transition_def simp del: patched_attr.simps)
  qed
qed

text \<open>
  C1. Owner isolation. Over any history of calls made by other users, whatever the database
  answers, a row that belongs to a user keeps its content.
\<close>

theorem session_owner_isolation:
  assumes "tenant_table E V (sessions_table_name S) [''session_id'']"
    and "rows V w (sessions_table_name S) k = Some row" "owned_row owner k row"
    and "owner \<notin> fst ` set history"
  shows "rows V (serve_all (serve_session E S) history w) (sessions_table_name S) k = Some row"
  using assms by (rule session_api.isolated_history)

text \<open>
  A record that is read by GET is the caller's, and it is the decoding of the stored row; the
  read changes no row.
\<close>

lemma get_session_owned:
  assumes "ddb_ok E V" "get_session E S uid sid w = (Inr r, w')"
  shows "sr_user_id r = uid \<and> rows V w' = rows V w \<and>
     (\<exists>row. rows V w (sessions_table_name S) (session_key sid) = Some row \<and> from_dynamo E row = Inr r)"
proof -
  from assms(2) have "store_get E (sessions_table_name S) uid sid w = (Inr (Some r), w')"
    by (auto simp: get_session_def bindE_Inr_iff raiseE_def retE_def split: option.split_asm)
  from store_get_Some [OF assms(1) this] show ?thesis by blast
qed

lemma decode_encode:
  assumes "pyd_dt E (PStr (isoformat (sr_created_at r))) = Some (sr_created_at r)"
    and "pyd_dt E (PStr (isoformat (sr_updated_at r))) = Some (sr_updated_at r)"
    and "pyd_int E (PInt (sr_expires_at r)) = Some (sr_expires_at r)"
  shows "from_dynamo E (ddb_item (to_dynamo r)) = Inr r"
  using assms
  by (cases "sr_gpu_instance_id r")
    (simp_all add: from_dynamo_Inr validate_session_def to_dynamo_def ddb_item_def
      parse_status_str opt_str_field_def)

text \<open>
  Encoding a record for DynamoDB, storing it (integers become decimals) and decoding what is
  read returns the record, for every record whose two timestamps and expiry the validation library
  reads back.
\<close>

lemma session_roundtrip:
  assumes "pyd_dt E (PStr (isoformat (sr_created_at r))) = Some (sr_created_at r)"
    and "pyd_dt E (PStr (isoformat (sr_updated_at r))) = Some (sr_updated_at r)"
    and "pyd_int E (PInt (sr_expires_at r)) = Some (sr_expires_at r)"
  shows "from_dynamo E (ddb_item (to_dynamo r)) = Inr r"
  by (rule decode_encode [OF assms])

section \<open>Well-formed rows\<close>

text \<open>The conditions of the model on one attribute of a row, and on the row: what \<open>from_dynamo\<close> accepts.\<close>

definition attr_ok :: "'t env \<Rightarrow> string \<Rightarrow> pyval \<Rightarrow> bool" where
  "attr_ok E a v =
     (if a \<in> {''session_id'', ''user_id'', ''language''} then as_str v \<noteq> None
      else if a = ''status'' then parse_status v \<noteq> None
      else if a = ''gpu_instance_id'' then opt_str_field v \<noteq> None
      else if a \<in> {''created_at'', ''updated_at''} then pyd_dt E v \<noteq> None
      else if a = ''ttl_epoch_seconds'' then pyd_int E v \<noteq> None
      else a \<noteq> ''expires_at'')"

definition session_attrs :: "string list" where
  "session_attrs = [''session_id'', ''user_id'', ''status'', ''language'', ''gpu_instance_id'',
     ''created_at'', ''updated_at'', ''ttl_epoch_seconds'']"

definition session_row_wf :: "'t env \<Rightarrow> item \<Rightarrow> bool" where
  "session_row_wf E row \<longleftrightarrow> distinct (map fst row) \<and> map_of row ''expires_at'' = None \<and>
     (\<forall>a \<in> set session_attrs. attr_ok E a (undec (dget row a)))"

lemma map_of_clean:
  assumes "distinct (map fst it)" "map_of it ''expires_at'' = None"
  shows "map_of (clean_item it acc) k =
    (if k = ''expires_at'' \<and> map_of it ''ttl_epoch_seconds'' \<noteq> None then map_option undec (map_of it ''ttl_epoch_seconds'')
     else if k \<noteq> ''ttl_epoch_seconds'' \<and> map_of it k \<noteq> None then map_option undec (map_of it k) else map_of acc k)"
  using assms
proof (induction it arbitrary: acc)
  case (Cons p it)
  obtain a v where p: "p = (a, v)" by (cases p)
  have a: "map_of it a = None" "a \<noteq> ''expires_at''" "map_of it ''expires_at'' = None" "distinct (map fst it)"
    using Cons.prems p by (auto simp: map_of_eq_None_iff split: if_splits)
  show ?case
    unfolding p clean_item.simps Cons.IH [OF a(4,3)] using a(1-3)
    by (cases "a = ''ttl_epoch_seconds''"; cases "k = a"; cases "k = ''expires_at''"; simp)
qed simp

lemma dget_clean:
  assumes "distinct (map fst it)" "map_of it ''expires_at'' = None"
  shows "k \<noteq> ''expires_at'' \<Longrightarrow> k \<noteq> ''ttl_epoch_seconds'' \<Longrightarrow> dget (clean_item it []) k = undec (dget it k)"
    and "dget (clean_item it []) ''expires_at'' = undec (dget it ''ttl_epoch_seconds'')"
  using assms by (auto simp: dget_def dget_or_def map_of_clean split: option.splits)

text \<open>A well-formed row is one that every read of the service decodes.\<close>

lemma session_row_wf_decodes:
  "session_row_wf E row \<longleftrightarrow> distinct (map fst row) \<and> map_of row ''expires_at'' = None \<and> (\<exists>r. from_dynamo E row = Inr r)"
proof (cases "distinct (map fst row) \<and> map_of row ''expires_at'' = None")
  case True
  let ?d = "\<lambda>k. undec (dget row k)"
  have "(\<exists>r. from_dynamo E row = Inr r) \<longleftrightarrow> as_str (?d ''session_id'') \<noteq> None \<and> as_str (?d ''user_id'') \<noteq> None \<and>
      parse_status (?d ''status'') \<noteq> None \<and> as_str (?d ''language'') \<noteq> None \<and> opt_str_field (?d ''gpu_instance_id'') \<noteq> None \<and>
      pyd_dt E (?d ''created_at'') \<noteq> None \<and> pyd_dt E (?d ''updated_at'') \<noteq> None \<and> pyd_int E (?d ''ttl_epoch_seconds'') \<noteq> None"
    using dget_clean [of row] True unfolding from_dynamo_Inr validate_session_def
    by (simp del: map_of_eq_None_iff as_str_Some split: option.split)
  with True show ?thesis
    by (simp add: session_row_wf_def session_attrs_def attr_ok_def del: map_of_eq_None_iff)
qed (auto simp: session_row_wf_def)

lemma distinct_dset: "distinct (map fst it) \<Longrightarrow> distinct (map fst (dset k v it))"
  by (simp add: dset_def distinct_update)

lemma updates_keep_wf:
  assumes "session_row_wf E row" "list_all (\<lambda>(a, v). attr_ok E a (undec (ddb_val v))) ups"
  shows "session_row_wf E (apply_upds (set_clauses ups) row)"
  using assms
proof (induction ups arbitrary: row)
  case (Cons p ups)
  obtain a v where p: "p = (a, v)" by (cases p)
  have "a \<noteq> ''expires_at''" using Cons.prems(2) p by (auto simp: attr_ok_def)
  then have "session_row_wf E (dset a (ddb_val v) row)"
    using Cons.prems p by (auto simp: session_row_wf_def distinct_dset)
  with Cons show ?case by (simp add: set_clauses_def p)
qed (simp add: set_clauses_def)

text \<open>Every row of the table is well formed, as a relation that the steps of a request keep.\<close>

definition rows_wf :: "'t env \<Rightarrow> string \<Rightarrow> (string \<Rightarrow> item \<Rightarrow> item option) \<Rightarrow> bool" where
  "rows_wf E tbl v \<longleftrightarrow> (\<forall>k row. v tbl k = Some row \<longrightarrow> session_row_wf E row)"

definition stays_wf :: "'t env \<Rightarrow> string \<Rightarrow> (string \<Rightarrow> item \<Rightarrow> item option) \<Rightarrow> (string \<Rightarrow> item \<Rightarrow> item option) \<Rightarrow> bool" where
  "stays_wf E tbl v v' \<longleftrightarrow> (rows_wf E tbl v \<longrightarrow> rows_wf E tbl v')"

lemma preorder_stays_wf [simp, intro]: "preorder_on_worlds (rows_rel V (stays_wf E tbl))"
  by (rule preorder_rows_rel) (auto simp: stays_wf_def)

text \<open>The validation library reads the instants of the clock and integers back.\<close>

definition wf_setting :: "'t env \<Rightarrow> 't db_view \<Rightarrow> session_settings \<Rightarrow> bool" where
  "wf_setting E V S \<longleftrightarrow> ddb_ok E V \<and> sessions_table_name S \<noteq> audit_table (audit_cfg E) \<and>
     (\<forall>n. pyd_dt E (PStr (isoformat (clock E n))) \<noteq> None) \<and> (\<forall>i. pyd_int E (PInt i) \<noteq> None)"

lemma wf_record:
  assumes "pyd_dt E (PStr (isoformat (sr_created_at r))) \<noteq> None" "pyd_dt E (PStr (isoformat (sr_updated_at r))) \<noteq> None"
    and "\<forall>i. pyd_int E (PInt i) \<noteq> None"
  shows "session_row_wf E (ddb_item (to_dynamo r))"
  using assms
  by (cases "sr_gpu_instance_id r")
    (auto simp: session_row_wf_def to_dynamo_def ddb_item_def session_attrs_def attr_ok_def dget_Cons parse_status_str opt_str_field_def)

lemma keeps_put_wf:
  assumes "wf_setting E V S" "pyd_dt E (PStr (isoformat (sr_created_at r))) \<noteq> None"
    and "pyd_dt E (PStr (isoformat (sr_updated_at r))) \<noteq> None"
  shows "keeps (rows_rel V (stays_wf E (sessions_table_name S))) (store_put E (sessions_table_name S) r)"
  using assms wf_record [OF assms(2,3)] unfolding store_put_def
  by (intro keeps_put_item [OF _ _ refl]) (auto simp: wf_setting_def stays_wf_def rows_wf_def store_row_apply)

lemma keeps_update_wf:
  assumes "ddb_ok E V" "list_all (\<lambda>(a, v). attr_ok E a (undec (ddb_val v))) ups"
  shows "keeps (rows_rel V (stays_wf E tbl)) (store_update E tbl uid sid ups)"
proof -
  have "keeps (rows_rel V (stays_wf E tbl)) (update_item E tbl (session_key sid) (set_clauses ups) (AttrEq ''user_id'' (PStr uid)))"
    by (rule keeps_update_item [OF assms(1)])
      (use updates_keep_wf [OF _ assms(2)] in \<open>auto simp: stays_wf_def rows_wf_def store_row_apply updated_row_def row_attrs_def split: option.splits\<close>)
  then show ?thesis
    unfolding store_update_def by (auto intro!: keeps_intros assms(1) split: option.split)
qed

lemma keeps_audit_wf:
  assumes "wf_setting E V S"
  shows "keeps (rows_rel V (stays_wf E (sessions_table_name S))) (record_event E a)"
  using assms by (intro keeps_record_event_rel) (auto simp: wf_setting_def stays_wf_def rows_wf_def store_row_apply)

lemma keeps_get_wf:
  assumes "wf_setting E V S"
  shows "keeps (rows_rel V (stays_wf E (sessions_table_name S))) (store_get E (sessions_table_name S) uid sid)"
  unfolding store_get_def
  by (auto intro!: keeps_intros split: option.split) (use assms in \<open>simp add: wf_setting_def\<close>)


text \<open>What a PATCH and a DELETE write is well formed.\<close>

lemma patch_updates_wf:
  assumes "wf_setting E V S"
  shows "list_all (\<lambda>(a, v). attr_ok E a (undec (ddb_val v))) (patch_updates req (clock E n))"
  using assms
  by (cases "rq_status req"; cases "rq_gpu_instance_id req")
    (simp_all add: patch_updates_def attr_ok_def parse_status_str opt_str_field_def wf_setting_def)

lemma deletion_wf:
  assumes "wf_setting E V S"
  shows "list_all (\<lambda>(a, v). attr_ok E a (undec (ddb_val v)))
    [(''status'', PStr ''errored''), (''updated_at'', PStr (isoformat (clock E n))), (''ttl_epoch_seconds'', PInt i)]"
  using assms parse_status_str [of Errored] by (simp add: attr_ok_def wf_setting_def)

text \<open>A clock reading passed on: the continuation need only be kept for readings of the clock.\<close>

lemma keeps_after_utcnow:
  assumes "preorder_on_worlds (rows_rel V R)" "\<And>n. keeps (rows_rel V R) (f (clock E n))"
  shows "keeps (rows_rel V R) (bindE (utcnow E) f)"
proof (rule keepsI)
  fix w r w' assume "bindE (utcnow E) f w = (r, w')"
  then have "f (clock E (ticks w)) (w\<lparr>ticks := Suc (ticks w)\<rparr>) = (r, w')" by (simp add: bindE_def utcnow_def tick_def)
  from keepsD [OF assms(2) this] show "rows_rel V R w w'" by (simp add: rows_rel_def)
qed

lemma keeps_update_session_wf:
  assumes "wf_setting E V S"
  shows "keeps (rows_rel V (stays_wf E (sessions_table_name S))) (update_session E S uid sid req)"
proof -
  have ok: "ddb_ok E V" using assms by (simp add: wf_setting_def)
  let ?R = "rows_rel V (stays_wf E (sessions_table_name S))"
  have commit: "keeps ?R (update_commit E S uid sid req (st, patch_updates req (clock E n)))" for st n
    unfolding update_commit_def snd_conv fst_conv
    by (auto intro!: keeps_intros keeps_update_wf [OF ok patch_updates_wf [OF assms]] keeps_audit_wf [OF assms] split: option.split)
  have tail: "keeps ?R (bindE (bindE (utcnow E) (\<lambda>now. bindE (liftE (check_transition s (rq_status req)))
      (\<lambda>_. retE (s, patch_updates req now)))) (update_commit E S uid sid req))" for s
    unfolding bindE_assoc
    by (rule keeps_after_utcnow) (auto simp: io_simps intro!: keeps_intros commit)
  have found: "keeps ?R (bindE (case r of None \<Rightarrow> raiseE not_found
      | Some current \<Rightarrow> bindE (utcnow E) (\<lambda>now. bindE (liftE (check_transition (sr_status current) (rq_status req)))
          (\<lambda>_. retE (sr_status current, patch_updates req now)))) (update_commit E S uid sid req))" for r
    by (cases r) (auto simp: io_simps intro!: keeps_intros tail)
  show ?thesis
  proof (cases "rq_status req = None \<and> rq_gpu_instance_id req = None")
    case True
    then show ?thesis by (simp add: update_session_def update_check_def io_simps) (intro keeps_intros preorder_stays_wf)
  next
    case False
    then have "update_session E S uid sid req = bindE (store_get E (sessions_table_name S) uid sid)
       (\<lambda>r. bindE (case r of None \<Rightarrow> raiseE not_found
          | Some current \<Rightarrow> bindE (utcnow E) (\<lambda>now. bindE (liftE (check_transition (sr_status current) (rq_status req)))
             (\<lambda>_. retE (sr_status current, patch_updates req now)))) (update_commit E S uid sid req))"
      by (auto simp: update_session_def update_check_def bindE_assoc)
    then show ?thesis using keeps_bindE [OF preorder_stays_wf keeps_get_wf [OF assms] found] by simp
  qed
qed

lemma keeps_serve_wf:
  assumes "wf_setting E V S"
  shows "keeps (rows_rel V (stays_wf E (sessions_table_name S))) (serve_session E S uid c)"
proof (cases c)
  case (CreateCall lang)
  have "keeps (rows_rel V (stays_wf E (sessions_table_name S))) (create_session E S uid lang)"
    unfolding create_session_def Let_def
    by (rule keeps_after_utcnow)
      (use assms in \<open>auto intro!: keeps_intros keeps_put_wf [OF assms] keeps_audit_wf [OF assms] simp: wf_setting_def\<close>)
  with CreateCall show ?thesis by (auto intro!: keeps_intros)
next
  case (DeleteCall sid)
  have ok: "ddb_ok E V" using assms by (simp add: wf_setting_def)
  from DeleteCall show ?thesis
    by (auto simp: delete_session_def intro!: keeps_intros keeps_after_utcnow keeps_get_wf [OF assms]
        keeps_update_wf [OF ok deletion_wf [OF assms]] keeps_audit_wf [OF assms] split: option.split)
next
  case (ListCall limit cursor)
  then show ?thesis using assms
    by (auto simp: list_sessions_def list_for_user_def list_anchor_def wf_setting_def intro!: keeps_intros split: option.split)
qed (auto simp: get_session_def intro!: keeps_intros keeps_get_wf [OF assms] keeps_update_session_wf [OF assms] split: option.split)

lemma history_wf:
  assumes "wf_setting E V S"
  shows "stays_wf E (sessions_table_name S) (rows V w) (rows V (serve_all (serve_session E S) history w))"
proof (induction history arbitrary: w)
  case (Cons c history)
  obtain r w1 where run: "serve_session E S (fst c) (snd c) w = (r, w1)" by fastforce
  have "stays_wf E (sessions_table_name S) (rows V w) (rows V w1)"
    using keepsD [OF keeps_serve_wf [OF assms] run] by (simp add: rows_rel_def)
  with Cons.IH [of w1] run show ?case by (cases c) (simp add: stays_wf_def)
qed (simp add: stays_wf_def)

text \<open>
  C31. The table stays typed: over any history of calls of any users, whatever the database answers, if
  every row of the session table was one the service decodes, every row still is, so no call ever makes
  a session unreadable.
\<close>

theorem session_rows_stay_decodable:
  assumes "wf_setting E V S" "rows_wf E (sessions_table_name S) (rows V w)"
    and "rows V (serve_all (serve_session E S) history w) (sessions_table_name S) k = Some row"
  shows "session_row_wf E row \<and> (\<exists>r. from_dynamo E row = Inr r)"
  using history_wf [OF assms(1), of w history] assms(2,3) session_row_wf_decodes [of E row]
  by (auto simp: stays_wf_def rows_wf_def)

section \<open>Witnesses\<close>

definition demo_settings :: session_settings where
  "demo_settings = \<lparr>sessions_table_name = ''s'', session_ttl_seconds = 60, list_max_limit = 100\<rparr>"

definition demo_record :: "session_status \<Rightarrow> session_record" where
  "demo_record st = \<lparr>sr_session_id = ''a'', sr_user_id = ''alice'', sr_status = st, sr_language = ''en'',
     sr_gpu_instance_id = None, sr_created_at = 0, sr_updated_at = 0, sr_expires_at = 60\<rparr>"

definition demo_env :: "mem env" where
  "demo_env = mem_env (\<lambda>_. [''session_id'']) (\<lambda>_ _. Inr PNone)"

definition demo_world :: "session_status \<Rightarrow> mem world" where
  "demo_world st = \<lparr>db = (\<lambda>tbl k. if tbl = ''s'' \<and> k = session_key ''a''
                                 then Some (ddb_item (to_dynamo (demo_record st))) else None),
                    trace = [], ticks = 0\<rparr>"

lemma demo_env_ok: "ddb_ok demo_env mem_view"
  by (simp add: demo_env_def mem_env_ok)

lemma demo_env_simps [simp]:
  "pyd_dt demo_env v = (if v = PStr (isoformat 0) then Some 0 else None)"
  "pyd_int demo_env = as_int" "clock demo_env n = 0"
  "audit_cfg demo_env = \<lparr>audit_backend = ''stdout'', audit_table = ''panakoes-audit-log''\<rparr>"
  "key_attrs demo_env tbl = [''session_id'']"
  "gen_id demo_env n = ''id-'' @ str_int (int n)"
  by (simp_all add: demo_env_def mem_env_def)

lemma demo_get: "get_item demo_env tbl k w = (Inr (db w tbl (ddb_item k)), w)"
  by (simp add: get_item_def on_db_def demo_env_def mem_env_def)

lemma demo_update: "update_item demo_env tbl k us c w =
  (let row = db w tbl (ddb_item k); new = updated_row k us row in
   if eval_cond c (row_attrs row) then (Inr new, w\<lparr>db := store_row (db w) tbl (ddb_item k) new\<rparr>)
   else (Inl (ClientError ccf_code []), w))"
  by (simp add: update_item_def on_db_def demo_env_def mem_env_def Let_def)

lemma demo_decode: "from_dynamo demo_env (ddb_item (to_dynamo (demo_record st))) = Inr (demo_record st)"
  by (rule decode_encode) (simp_all add: demo_record_def)

definition to_status :: "session_status \<Rightarrow> update_request" where
  "to_status st = \<lparr>rq_status = Some st, rq_gpu_instance_id = None\<rparr>"

lemma demo_patched:
  "apply_upds (set_clauses (patch_updates (to_status st) 0)) (ddb_item (to_dynamo (demo_record s))) =
     ddb_item (to_dynamo (demo_record st))"
  by (simp add: to_status_def patch_updates_def set_clauses_def to_dynamo_def demo_record_def ddb_item_def
      dset_def)

lemma demo_world_row: "db (demo_world st) ''s'' (session_key ''a'') = Some (ddb_item (to_dynamo (demo_record st)))"
  by (simp add: demo_world_def)

lemma demo_record_simps [simp]: "sr_user_id (demo_record s) = ''alice''" "sr_status (demo_record s) = s"
  by (simp_all add: demo_record_def)

lemma demo_check:
  assumes "db w ''s'' (session_key ''a'') = Some (ddb_item (to_dynamo (demo_record s)))"
    and "is_allowed_transition s st"
  shows "update_check demo_env demo_settings ''alice'' ''a'' (to_status st) w =
     (Inr (s, patch_updates (to_status st) 0), w\<lparr>ticks := Suc (ticks w)\<rparr>)"
  using assms
  by (simp add: update_check_def store_get_def bindE_def retE_def liftE_def demo_get demo_decode utcnow_def
      tick_def check_transition_def demo_settings_def to_status_def)

lemma demo_strings:
  "strip ''alice'' = ''alice''" "action_re (strip ''session.status_changed'')" "strip ''session'' \<noteq> []"
  "strip ''a'' \<noteq> []" "strip ''session-manager'' \<noteq> []" "''user'' \<in> set actor_types"
  by code_simp+

lemma demo_audit:
  "\<exists>x w'. record_event demo_env (session_audit ''alice'' ''session.status_changed'' ''a'' det) w = (Inr x, w') \<and>
     db w' = db w"
  using demo_strings
  by (simp add: record_event_eq session_audit_def make_audit_event_def utcnow_def new_id_def tick_def
      bindE_def liftE_def retE_def select_store_from_env_def note_call_def)

lemma demo_commit:
  assumes row: "db w ''s'' (session_key ''a'') = Some (ddb_item (to_dynamo (demo_record s)))"
    and c: "c = (previous, patch_updates (to_status st) 0)"
  shows "\<exists>w'. update_commit demo_env demo_settings ''alice'' ''a'' (to_status st) c w = (Inr (demo_record st), w') \<and>
     db w' ''s'' (session_key ''a'') = Some (ddb_item (to_dynamo (demo_record st)))"
proof -
  have owner: "map_of (ddb_item (to_dynamo (demo_record s))) ''user_id'' = Some (PStr ''alice'')"
    by (simp add: demo_record_def to_dynamo_def ddb_item_def)
  have ne: "patch_updates (to_status st) 0 \<noteq> []" by (simp add: patch_updates_def)
  define w1 where "w1 = w\<lparr>db := store_row (db w) ''s'' (session_key ''a'') (ddb_item (to_dynamo (demo_record st)))\<rparr>"
  have "store_update demo_env ''s'' ''alice'' ''a'' (patch_updates (to_status st) 0) w = (Inr (demo_record st), w1)"
    using row owner ne
    by (simp add: store_update_def bindE_def tryE_def liftE_def demo_get demo_update updated_row_def
        demo_patched demo_decode w1_def Let_def)
  moreover obtain x w2 where "record_event demo_env (session_audit ''alice'' ''session.status_changed'' ''a''
      [(''from'', PStr (status_str previous)), (''to'', PStr (status_str st))]) w1 = (Inr x, w2)" "db w2 = db w1"
    using demo_audit by blast
  ultimately show ?thesis
    by (auto simp: update_commit_def demo_settings_def c tryE_def bindE_def retE_def to_status_def w1_def
        store_row_def)
qed

theorem update_session_transitions_witness:
  "\<exists>r new. fst (update_session demo_env demo_settings ''alice'' ''a'' (to_status Paused) (demo_world Active)) = Inr r \<and>
     rows mem_view (snd (update_session demo_env demo_settings ''alice'' ''a'' (to_status Paused)
      (demo_world Active))) ''s'' (session_key ''a'') = Some new \<and>
     from_dynamo demo_env new = Inr r \<and> map_of new ''status'' = Some (PStr ''paused'') \<and>
     map_of new ''language'' = Some (PStr ''en'')"
proof -
  let ?w = "demo_world Active"
  have chk: "update_check demo_env demo_settings ''alice'' ''a'' (to_status Paused) ?w =
      (Inr (Active, patch_updates (to_status Paused) 0), ?w\<lparr>ticks := Suc (ticks ?w)\<rparr>)"
    by (rule demo_check) (simp_all add: demo_world_row is_allowed_transition_def)
  have "db (?w\<lparr>ticks := Suc (ticks ?w)\<rparr>) ''s'' (session_key ''a'') = Some (ddb_item (to_dynamo (demo_record Active)))"
    by (simp add: demo_world_row)
  from demo_commit [OF this refl] obtain w' where run:
      "update_session demo_env demo_settings ''alice'' ''a'' (to_status Paused) ?w = (Inr (demo_record Paused), w')"
    and row: "db w' ''s'' (session_key ''a'') = Some (ddb_item (to_dynamo (demo_record Paused)))"
    using chk by (auto simp: update_session_def bindE_def)
  have "audit_table (audit_cfg demo_env) \<noteq> sessions_table_name demo_settings" by (simp add: demo_settings_def)
  from update_session_transitions [OF demo_env_ok this run] obtain new where
      "db w' ''s'' (session_key ''a'') = Some new" "from_dynamo demo_env new = Inr (demo_record Paused)"
      "\<forall>a. map_of new a = patched_attr (to_status Paused) 0 (ddb_item (to_dynamo (demo_record Active))) a"
    by (auto simp: demo_settings_def mem_view_def demo_world_row simp del: patched_attr.simps)
  with run show ?thesis
    by (auto simp: mem_view_def to_status_def demo_record_def to_dynamo_def ddb_item_def)
qed

theorem session_owner_isolation_witness:
  "rows mem_view (serve_all (serve_session demo_env demo_settings)
     [(''mallory'', PatchCall ''a'' (to_status Errored)), (''mallory'', DeleteCall ''a''), (''mallory'', CreateCall ''en'')]
     (demo_world Active)) ''s'' (session_key ''a'') = Some (ddb_item (to_dynamo (demo_record Active)))"
  using session_owner_isolation [of demo_env mem_view demo_settings "demo_world Active" "session_key ''a''"
      "ddb_item (to_dynamo (demo_record Active))" "''alice''"
      "[(''mallory'', PatchCall ''a'' (to_status Errored)), (''mallory'', DeleteCall ''a''),
        (''mallory'', CreateCall ''en'')]"]
  by (simp add: tenant_table_def demo_env_ok demo_settings_def demo_world_def mem_view_def owned_row_def demo_record_def to_dynamo_def
      ddb_item_def)

theorem session_rows_stay_decodable_witness:
  "\<exists>row r. rows mem_view (serve_all (serve_session demo_env demo_settings) [(''mallory'', DeleteCall ''a'')] (demo_world Active))
     ''s'' (session_key ''a'') = Some row \<and> from_dynamo demo_env row = Inr r"
proof -
  let ?w = "serve_all (serve_session demo_env demo_settings) [(''mallory'', DeleteCall ''a'')] (demo_world Active)"
  have row: "rows mem_view ?w ''s'' (session_key ''a'') = Some (ddb_item (to_dynamo (demo_record Active)))"
    by (simp add: delete_session_def store_get_def demo_get bindE_def liftE_def demo_world_row demo_decode retE_def raiseE_def
        demo_settings_def mem_view_def)
  have "wf_setting demo_env mem_view demo_settings" by (simp add: wf_setting_def demo_env_ok demo_settings_def)
  moreover have "rows_wf demo_env (sessions_table_name demo_settings) (rows mem_view (demo_world Active))"
    using wf_record [of demo_env "demo_record Active"]
    by (auto simp: rows_wf_def demo_world_def mem_view_def demo_settings_def demo_record_def)
  ultimately show ?thesis
    using session_rows_stay_decodable [of demo_env mem_view demo_settings "demo_world Active" "[(''mallory'', DeleteCall ''a'')]"] row
    by (auto simp: demo_settings_def)
qed

section \<open>Two interleaved updates\<close>

text \<open>
  The write does not re-check the status, only the owner: when two PATCH requests of one user both
  validate against \<^verbatim>\<open>active\<close> before either writes, the one to \<^verbatim>\<open>completed\<close> is answered with the
  completed record and the other then moves the completed session to \<^verbatim>\<open>paused\<close>, a transition that
  the table forbids; one after the other, the second request is answered 409.
\<close>

lemma interleaved_patches_leave_terminal:
  "fst (bindE (update_check demo_env demo_settings ''alice'' ''a'' (to_status Paused)) (\<lambda>c1.
        bindE (update_check demo_env demo_settings ''alice'' ''a'' (to_status Completed)) (\<lambda>c2.
        bindE (update_commit demo_env demo_settings ''alice'' ''a'' (to_status Completed) c2) (\<lambda>r2.
        bindE (update_commit demo_env demo_settings ''alice'' ''a'' (to_status Paused) c1) (\<lambda>r1.
        retE (r2, r1))))) (demo_world Active)) = Inr (demo_record Completed, demo_record Paused) \<and>
   allowed_transitions Completed = [] \<and>
   fst (bindE (update_session demo_env demo_settings ''alice'' ''a'' (to_status Completed)) (\<lambda>_.
        update_session demo_env demo_settings ''alice'' ''a'' (to_status Paused)) (demo_world Active)) =
     Inl (HTTPException 409 ''illegal status transition: completed -> paused'')"
proof -
  let ?w = "demo_world Active" and ?row = "\<lambda>w s. db w ''s'' (session_key ''a'') = Some (ddb_item (to_dynamo (demo_record s)))"
  have t: "is_allowed_transition Active Paused" "is_allowed_transition Active Completed"
    by (simp_all add: is_allowed_transition_def)
  define u where "u = ?w\<lparr>ticks := Suc (ticks ?w)\<rparr>"
  define v where "v = u\<lparr>ticks := Suc (ticks u)\<rparr>"
  have r: "?row ?w Active" "?row u Active" "?row v Active" by (simp_all add: u_def v_def demo_world_row)
  note c1 = demo_check [OF r(1) t(1), folded u_def] and c2 = demo_check [OF r(2) t(2), folded v_def]
    and c3 = demo_check [OF r(1) t(2), folded u_def]
  obtain w1 where w1: "update_commit demo_env demo_settings ''alice'' ''a'' (to_status Completed)
      (Active, patch_updates (to_status Completed) 0) v = (Inr (demo_record Completed), w1)" "?row w1 Completed"
    using demo_commit [OF r(3) refl] by blast
  obtain w2 where w2: "update_commit demo_env demo_settings ''alice'' ''a'' (to_status Paused)
      (Active, patch_updates (to_status Paused) 0) w1 = (Inr (demo_record Paused), w2)"
    using demo_commit [OF w1(2) refl] by blast
  obtain w3 where w3: "update_commit demo_env demo_settings ''alice'' ''a'' (to_status Completed)
      (Active, patch_updates (to_status Completed) 0) u = (Inr (demo_record Completed), w3)" "?row w3 Completed"
    using demo_commit [OF r(2) refl] by blast
  have "fst (update_check demo_env demo_settings ''alice'' ''a'' (to_status Paused) w3) =
      Inl (HTTPException 409 ''illegal status transition: completed -> paused'')"
    using w3(2)
    by (simp add: update_check_def store_get_def bindE_def retE_def liftE_def demo_get demo_decode utcnow_def
      tick_def check_transition_def demo_settings_def to_status_def is_allowed_transition_def)
  then have "fst (update_session demo_env demo_settings ''alice'' ''a'' (to_status Paused) w3) =
      Inl (HTTPException 409 ''illegal status transition: completed -> paused'')"
    by (auto simp: update_session_def bindE_def split: prod.splits)
  then show ?thesis
    using c1 c2 c3 w1(1) w2 w3(1) by (simp add: bindE_def retE_def update_session_def [of _ _ _ _ "to_status Completed"])
qed

end
