(* ===== verification/Ingestion.thy ===== *)
theory Ingestion
  imports Owner_Scope Auth
begin

text \<open>
  The ingestion API (\<^verbatim>\<open>services/ingestion-api\<close>): file-name sanitisation and object keys
  (\<^verbatim>\<open>storage/s3.py\<close>), the DynamoDB store (\<^verbatim>\<open>storage/dynamodb.py\<close>), the routes (\<^verbatim>\<open>routes/\<close>) and the
  background transcription (\<^verbatim>\<open>transcription.py\<close>). The transcription backend is a parameter.
\<close>

section \<open>Object keys\<close>

definition is_alnum :: "char \<Rightarrow> bool" where
  "is_alnum c = (let n = (of_char c :: nat) in
     48 \<le> n \<and> n \<le> 57 \<or> 65 \<le> n \<and> n \<le> 90 \<or> 97 \<le> n \<and> n \<le> 122)"

definition filename_safe :: "char \<Rightarrow> bool" where
  "filename_safe c = (is_alnum c \<or> c = CHR ''.'' \<or> c = CHR ''_'' \<or> c = CHR ''-'')"

definition sanitize_filename :: "string \<Rightarrow> string" where
  "sanitize_filename filename =
     (let cleaned = map (\<lambda>c. if filename_safe c then c else CHR ''_'') (strip filename);
          cleaned = dropWhile (\<lambda>c. c = CHR ''.'') cleaned
      in if cleaned = [] then ''unnamed'' else cleaned)"

definition build_object_key :: "string \<Rightarrow> string \<Rightarrow> string \<Rightarrow> string" where
  "build_object_key user_id ingestion_id filename =
     ''audio/'' @ user_id @ ''/'' @ ingestion_id @ ''/'' @ sanitize_filename filename"

section \<open>Transcripts\<close>

text \<open>
  \<^verbatim>\<open>TranscriptWordModel\<close>, \<^verbatim>\<open>TranscriptSegmentModel\<close> and \<^verbatim>\<open>TranscriptModel\<close>; the shared dataclasses
  \<^verbatim>\<open>TranscriptionResult\<close>, ... have the same fields. A float is the rational its shortest decimal
  form denotes.
\<close>

record transcript_word =
  tw_text :: string
  tw_start :: rat
  tw_end :: rat

record transcript_segment =
  ts_text :: string
  ts_start :: rat
  ts_end :: rat
  ts_words :: "transcript_word list"

record transcript =
  tr_text :: string
  tr_segments :: "transcript_segment list"
  tr_language :: "string option"
  tr_duration :: "rat option"

record transcription_result =
  res_text :: string
  res_segments :: "transcript_segment list"
  res_language :: "string option"
  res_duration :: "rat option"

definition to_transcript_model :: "transcription_result \<Rightarrow> transcript" where
  "to_transcript_model result =
     \<lparr>tr_text = res_text result,
      tr_segments = map (\<lambda>s. \<lparr>ts_text = ts_text s, ts_start = ts_start s, ts_end = ts_end s,
         ts_words = map (\<lambda>w. \<lparr>tw_text = tw_text w, tw_start = tw_start w, tw_end = tw_end w\<rparr>) (ts_words s)\<rparr>)
         (res_segments result),
      tr_language = res_language result, tr_duration = res_duration result\<rparr>"

text \<open>The JSON form of a transcript, floats rendered by \<open>num\<close>.\<close>

definition word_json :: "(rat \<Rightarrow> pyval) \<Rightarrow> transcript_word \<Rightarrow> pyval" where
  "word_json num w = PDict [(''text'', PStr (tw_text w)), (''start'', num (tw_start w)), (''end'', num (tw_end w))]"

definition segment_json :: "(rat \<Rightarrow> pyval) \<Rightarrow> transcript_segment \<Rightarrow> pyval" where
  "segment_json num s = PDict [(''text'', PStr (ts_text s)), (''start'', num (ts_start s)),
     (''end'', num (ts_end s)), (''words'', PList (map (word_json num) (ts_words s)))]"

definition transcript_json :: "(rat \<Rightarrow> pyval) \<Rightarrow> transcript \<Rightarrow> pyval" where
  "transcript_json num t = PDict [(''text'', PStr (tr_text t)),
     (''segments'', PList (map (segment_json num) (tr_segments t))),
     (''language'', opt_val (tr_language t)),
     (''duration_seconds'', (case tr_duration t of None \<Rightarrow> PNone | Some q \<Rightarrow> num q))]"

text \<open>\<open>_strip_none\<close>: dictionary entries with the value \<^verbatim>\<open>None\<close> disappear at every depth.\<close>

fun strip_none :: "pyval \<Rightarrow> pyval" where
  "strip_none (PDict d) = PDict (map (\<lambda>(k, v). (k, strip_none v)) (filter (\<lambda>(k, v). v \<noteq> PNone) d))"
| "strip_none (PList xs) = PList (map strip_none xs)"
| "strip_none v = v"

fun decimal_to_native :: "pyval \<Rightarrow> pyval" where
  "decimal_to_native (PDec q) = (if q = of_int \<lfloor>q\<rfloor> then PInt \<lfloor>q\<rfloor> else PFloat q)"
| "decimal_to_native (PDict d) = PDict (map (\<lambda>(k, v). (k, decimal_to_native v)) d)"
| "decimal_to_native (PList xs) = PList (map decimal_to_native xs)"
| "decimal_to_native v = v"

section \<open>Validation of stored transcripts\<close>

text \<open>\<open>model_validate\<close> of the nested models; \<open>None\<close> is a \<^verbatim>\<open>ValidationError\<close>.\<close>

definition list_field :: "(pyval \<Rightarrow> 'a option) \<Rightarrow> item \<Rightarrow> string \<Rightarrow> 'a list option" where
  "list_field f d k = Option.bind (as_list (dget_or d k (PList []))) (traverse f)"

definition validate_word :: "'t env \<Rightarrow> pyval \<Rightarrow> transcript_word option" where
  "validate_word E v =
     Option.bind (as_dict v) (\<lambda>d.
     (case (as_str (dget d ''text''), pyd_float E (dget d ''start''), pyd_float E (dget d ''end'')) of
        (Some t, Some s, Some e) \<Rightarrow> Some \<lparr>tw_text = t, tw_start = s, tw_end = e\<rparr>
      | _ \<Rightarrow> None))"

definition validate_segment :: "'t env \<Rightarrow> pyval \<Rightarrow> transcript_segment option" where
  "validate_segment E v =
     Option.bind (as_dict v) (\<lambda>d.
     (case (as_str (dget d ''text''), pyd_float E (dget d ''start''), pyd_float E (dget d ''end''),
            list_field (validate_word E) d ''words'') of
        (Some t, Some s, Some e, Some ws) \<Rightarrow> Some \<lparr>ts_text = t, ts_start = s, ts_end = e, ts_words = ws\<rparr>
      | _ \<Rightarrow> None))"

definition opt_float_field :: "'t env \<Rightarrow> pyval \<Rightarrow> rat option option" where
  "opt_float_field E v = (if v = PNone then Some None else map_option Some (pyd_float E v))"

definition validate_transcript :: "'t env \<Rightarrow> pyval \<Rightarrow> transcript option" where
  "validate_transcript E v =
     Option.bind (as_dict v) (\<lambda>d.
     (case (as_str (dget d ''text''), list_field (validate_segment E) d ''segments'',
            opt_str_field (dget d ''language''), opt_float_field E (dget d ''duration_seconds'')) of
        (Some t, Some ss, Some l, Some q) \<Rightarrow>
          Some \<lparr>tr_text = t, tr_segments = ss, tr_language = l, tr_duration = q\<rparr>
      | _ \<Rightarrow> None))"

section \<open>Records\<close>

datatype ingestion_status = IngPending | IngUploaded | IngFailed

fun ingestion_status_str :: "ingestion_status \<Rightarrow> string" where
  "ingestion_status_str IngPending = ''pending''"
| "ingestion_status_str IngUploaded = ''uploaded''"
| "ingestion_status_str IngFailed = ''failed''"

datatype transcript_status = TsPending | TsSucceeded | TsFailed

fun transcript_status_str :: "transcript_status \<Rightarrow> string" where
  "transcript_status_str TsPending = ''pending''"
| "transcript_status_str TsSucceeded = ''succeeded''"
| "transcript_status_str TsFailed = ''failed''"

definition parse_literal :: "('a \<Rightarrow> string) \<Rightarrow> 'a list \<Rightarrow> pyval \<Rightarrow> 'a option" where
  "parse_literal f xs v = (case as_str v of None \<Rightarrow> None | Some s \<Rightarrow> find (\<lambda>x. f x = s) xs)"

record ingestion_record =
  in_ingestion_id :: string
  in_user_id :: string
  in_filename :: string
  in_content_type :: string
  in_size_bytes :: int
  in_s3_key :: string
  in_status :: ingestion_status
  in_created_at :: int
  in_updated_at :: int
  in_transcript_status :: "transcript_status option"
  in_transcript :: "transcript option"
  in_transcript_error :: "string option"

definition opt_transcript_status :: "pyval \<Rightarrow> transcript_status option option" where
  "opt_transcript_status v =
     (if v = PNone then Some None
      else map_option Some (parse_literal transcript_status_str [TsPending, TsSucceeded, TsFailed] v))"

definition opt_transcript :: "'t env \<Rightarrow> pyval \<Rightarrow> transcript option option" where
  "opt_transcript E v = (if v = PNone then Some None else map_option Some (validate_transcript E v))"

definition validate_ingestion :: "'t env \<Rightarrow> item \<Rightarrow> ingestion_record option" where
  "validate_ingestion E d =
     (case (as_str (dget d ''ingestion_id''), as_str (dget d ''user_id''), as_str (dget d ''filename''),
            as_str (dget d ''content_type''), pyd_int E (dget d ''size_bytes''), as_str (dget d ''s3_key'')) of
        (Some iid, Some uid, Some fn, Some ct, Some sz, Some key) \<Rightarrow>
          (case (parse_literal ingestion_status_str [IngPending, IngUploaded, IngFailed] (dget d ''status''),
                 pyd_dt E (dget d ''created_at''), pyd_dt E (dget d ''updated_at''),
                 opt_transcript_status (dget d ''transcript_status''), opt_transcript E (dget d ''transcript''),
                 opt_str_field (dget d ''transcript_error_message'')) of
             (Some st, Some c, Some u, Some ts, Some tr, Some em) \<Rightarrow>
               Some \<lparr>in_ingestion_id = iid, in_user_id = uid, in_filename = fn, in_content_type = ct,
                     in_size_bytes = sz, in_s3_key = key, in_status = st, in_created_at = c,
                     in_updated_at = u, in_transcript_status = ts, in_transcript = tr,
                     in_transcript_error = em\<rparr>
           | _ \<Rightarrow> None)
      | _ \<Rightarrow> None)"

section \<open>The store\<close>

definition user_pk :: "string \<Rightarrow> string" where
  "user_pk user_id = ''USER#'' @ user_id"

definition ingestion_sk :: "string \<Rightarrow> string" where
  "ingestion_sk ingestion_id = ''INGESTION#'' @ ingestion_id"

definition ingestion_key :: "string \<Rightarrow> string \<Rightarrow> item" where
  "ingestion_key user_id ingestion_id =
     [(''pk'', PStr (user_pk user_id)), (''sk'', PStr (ingestion_sk ingestion_id))]"

definition ing_to_dynamo :: "ingestion_record \<Rightarrow> item" where
  "ing_to_dynamo r =
     [(''pk'', PStr (user_pk (in_user_id r))),
      (''sk'', PStr (ingestion_sk (in_ingestion_id r))),
      (''ingestion_id'', PStr (in_ingestion_id r)),
      (''user_id'', PStr (in_user_id r)),
      (''filename'', PStr (in_filename r)),
      (''content_type'', PStr (in_content_type r)),
      (''size_bytes'', PInt (in_size_bytes r)),
      (''s3_key'', PStr (in_s3_key r)),
      (''status'', PStr (ingestion_status_str (in_status r))),
      (''created_at'', PStr (isoformat (in_created_at r))),
      (''updated_at'', PStr (isoformat (in_updated_at r)))] @
     (case in_transcript_status r of None \<Rightarrow> [] | Some s \<Rightarrow> [(''transcript_status'', PStr (transcript_status_str s))]) @
     (case in_transcript r of None \<Rightarrow> [] | Some t \<Rightarrow> [(''transcript'', transcript_json PFloat t)]) @
     (case in_transcript_error r of None \<Rightarrow> [] | Some m \<Rightarrow> [(''transcript_error_message'', PStr m)])"

definition ing_from_dynamo :: "'t env \<Rightarrow> item \<Rightarrow> exn + ingestion_record" where
  "ing_from_dynamo E it =
     (case validate_ingestion E (map (\<lambda>(k, v). (k, decimal_to_native v)) it) of
        None \<Rightarrow> Inl (ValueError ''IngestionRecord'')
      | Some r \<Rightarrow> Inr r)"

definition ing_put :: "'t env \<Rightarrow> string \<Rightarrow> ingestion_record \<Rightarrow> ('t world, unit) io" where
  "ing_put E tbl r = put_item E tbl (ing_to_dynamo r) CTrue"

definition ing_get :: "'t env \<Rightarrow> string \<Rightarrow> string \<Rightarrow> string \<Rightarrow> ('t world, ingestion_record option) io" where
  "ing_get E tbl user_id ingestion_id =
     bindE (get_item E tbl (ingestion_key user_id ingestion_id)) (\<lambda>i.
     (case i of
        None \<Rightarrow> retE None
      | Some it \<Rightarrow> bindE (liftE (ing_from_dynamo E it)) (\<lambda>r. retE (Some r))))"

definition set_transcript_pending :: "'t env \<Rightarrow> string \<Rightarrow> string \<Rightarrow> string \<Rightarrow> ('t world, unit) io" where
  "set_transcript_pending E tbl user_id ingestion_id =
     bindE (update_item E tbl (ingestion_key user_id ingestion_id)
       [SetAttr ''transcript_status'' (PStr ''pending''), RemoveAttr ''transcript_error_message''] CTrue)
       (\<lambda>_. retE ())"

definition set_transcript_succeeded :: "'t env \<Rightarrow> string \<Rightarrow> string \<Rightarrow> string \<Rightarrow> transcript \<Rightarrow> ('t world, unit) io" where
  "set_transcript_succeeded E tbl user_id ingestion_id t =
     bindE (update_item E tbl (ingestion_key user_id ingestion_id)
       [SetAttr ''transcript_status'' (PStr ''succeeded''),
        SetAttr ''transcript'' (strip_none (transcript_json PDec t)),
        RemoveAttr ''transcript_error_message''] CTrue)
       (\<lambda>_. retE ())"

definition set_transcript_failed :: "'t env \<Rightarrow> string \<Rightarrow> string \<Rightarrow> string \<Rightarrow> string \<Rightarrow> ('t world, unit) io" where
  "set_transcript_failed E tbl user_id ingestion_id error_message =
     bindE (update_item E tbl (ingestion_key user_id ingestion_id)
       [SetAttr ''transcript_status'' (PStr ''failed''),
        SetAttr ''transcript_error_message'' (PStr (take 500 error_message))] CTrue)
       (\<lambda>_. retE ())"

text \<open>The cursor of the next page is the identifier behind the prefix of the last key.\<close>

definition next_ingestion_cursor :: "item option \<Rightarrow> string option" where
  "next_ingestion_cursor last_key =
     (case last_key of
        None \<Rightarrow> None
      | Some k \<Rightarrow>
          (case as_str (dget k ''sk'') of
             None \<Rightarrow> None
           | Some sk \<Rightarrow> if starts_with sk ''INGESTION#'' then Some (drop 10 sk) else None))"

definition ing_list_for_user :: "'t env \<Rightarrow> string \<Rightarrow> string \<Rightarrow> int \<Rightarrow> string option \<Rightarrow>
    ('t world, ingestion_record list \<times> string option) io" where
  "ing_list_for_user E tbl user_id limit cursor =
     bindE (query_items E tbl
        \<lparr>q_index = None, q_hash = (''pk'', PStr (user_pk user_id)), q_prefix = Some (''sk'', ''INGESTION#''),
         q_limit = Some limit, q_forward = True,
         q_start = map_option (ingestion_key user_id) cursor\<rparr>) (\<lambda>response.
     bindE (liftE (map_records (ing_from_dynamo E) (p_items response))) (\<lambda>items.
     retE (items, next_ingestion_cursor (p_last response))))"

section \<open>The routes\<close>

record ingestion_settings =
  ingestion_table_name :: string
  ingestion_bucket :: string
  presigned_url_ttl_seconds :: int
  ing_list_max_limit :: int

record create_request =
  cr_filename :: string
  cr_content_type :: string
  cr_size_bytes :: int

text \<open>\<open>CreateIngestionRequest\<close>: no further fields, strings stripped and bounded, the size in range.\<close>

definition bounded_str :: "nat \<Rightarrow> pyval \<Rightarrow> string option" where
  "bounded_str n v =
     (case as_str v of
        None \<Rightarrow> None
      | Some s \<Rightarrow> if 1 \<le> length (strip s) \<and> length (strip s) \<le> n then Some (strip s) else None)"

definition parse_create_ingestion :: "'t env \<Rightarrow> item \<Rightarrow> exn + create_request" where
  "parse_create_ingestion E body =
     (if \<not> set (map fst body) \<subseteq> {''filename'', ''content_type'', ''size_bytes''}
      then Inl (HTTPException 422 ''extra fields'')
      else
        (case (bounded_str 512 (dget body ''filename''), bounded_str 128 (dget body ''content_type''),
               pyd_int E (dget body ''size_bytes'')) of
           (Some fn, Some ct, Some sz) \<Rightarrow>
             if 1 \<le> sz \<and> sz \<le> 10 * 1024 * 1024 * 1024
             then Inr \<lparr>cr_filename = fn, cr_content_type = ct, cr_size_bytes = sz\<rparr>
             else Inl (HTTPException 422 ''size_bytes'')
         | _ \<Rightarrow> Inl (HTTPException 422 ''body'')))"

record create_response =
  cp_ingestion_id :: string
  cp_upload_url :: pyval
  cp_expires_at :: int

definition new_ingestion :: "string \<Rightarrow> string \<Rightarrow> create_request \<Rightarrow> int \<Rightarrow> ingestion_record" where
  "new_ingestion user_id ingestion_id req now =
     \<lparr>in_ingestion_id = ingestion_id, in_user_id = user_id, in_filename = cr_filename req,
      in_content_type = cr_content_type req, in_size_bytes = cr_size_bytes req,
      in_s3_key = build_object_key user_id ingestion_id (cr_filename req), in_status = IngPending,
      in_created_at = now, in_updated_at = now, in_transcript_status = None, in_transcript = None,
      in_transcript_error = None\<rparr>"

definition generate_put_url :: "'t env \<Rightarrow> string \<Rightarrow> string \<Rightarrow> string \<Rightarrow> int \<Rightarrow> int \<Rightarrow> ('t world, pyval) io" where
  "generate_put_url E bucket key content_type size_bytes expires =
     invoke E (PresignPut bucket key content_type size_bytes expires)"

definition create_ingestion :: "'t env \<Rightarrow> ingestion_settings \<Rightarrow> string \<Rightarrow> create_request \<Rightarrow>
    ('t world, create_response) io" where
  "create_ingestion E S user_id req =
     bindE (new_id E) (\<lambda>ingestion_id.
     bindE (utcnow E) (\<lambda>now.
     let record = new_ingestion user_id ingestion_id req now in
     bindE (ing_put E (ingestion_table_name S) record) (\<lambda>_.
     bindE (generate_put_url E (ingestion_bucket S) (in_s3_key record) (cr_content_type req)
              (cr_size_bytes req) (presigned_url_ttl_seconds S)) (\<lambda>upload_url.
     let expires_at = now + presigned_url_ttl_seconds S * 1000000 in
     bindE (record_event E
        \<lparr>ra_actor_id = user_id, ra_actor_type = ''user'', ra_action = ''ingestion.intent_created'',
         ra_resource_type = ''ingestion'', ra_resource_id = ingestion_id, ra_source_service = ''ingestion-api'',
         ra_details = [(''filename'', PStr (cr_filename req)), (''content_type'', PStr (cr_content_type req)),
                       (''size_bytes'', PInt (cr_size_bytes req))]\<rparr>) (\<lambda>_.
     retE \<lparr>cp_ingestion_id = ingestion_id, cp_upload_url = upload_url, cp_expires_at = expires_at\<rparr>)))))"

definition ingestion_not_found :: exn where
  "ingestion_not_found = HTTPException 404 ''ingestion not found''"

definition get_ingestion :: "'t env \<Rightarrow> ingestion_settings \<Rightarrow> string \<Rightarrow> string \<Rightarrow> ('t world, ingestion_record) io" where
  "get_ingestion E S user_id ingestion_id =
     bindE (ing_get E (ingestion_table_name S) user_id ingestion_id) (\<lambda>r.
     (case r of None \<Rightarrow> raiseE ingestion_not_found | Some record \<Rightarrow> retE record))"

definition list_ingestions :: "'t env \<Rightarrow> ingestion_settings \<Rightarrow> string \<Rightarrow> int \<Rightarrow> string option \<Rightarrow>
    ('t world, ingestion_record list \<times> string option) io" where
  "list_ingestions E S user_id limit cursor =
     (if limit < 1 \<or> 100 < limit then raiseE (HTTPException 422 ''limit'')
      else ing_list_for_user E (ingestion_table_name S) user_id (min limit (ing_list_max_limit S)) cursor)"

text \<open>\<^verbatim>\<open>POST /api/v1/transcribe/{id}\<close>: the HTTP status and the record.\<close>

definition request_transcription :: "'t env \<Rightarrow> ingestion_settings \<Rightarrow> string \<Rightarrow> string \<Rightarrow>
    ('t world, int \<times> ingestion_record) io" where
  "request_transcription E S user_id ingestion_id =
     bindE (ing_get E (ingestion_table_name S) user_id ingestion_id) (\<lambda>r.
     (case r of
        None \<Rightarrow> raiseE ingestion_not_found
      | Some record \<Rightarrow>
          if in_transcript_status record = Some TsSucceeded then retE (200, record)
          else if in_transcript_status record = Some TsPending then retE (202, record)
          else
            bindE (set_transcript_pending E (ingestion_table_name S) user_id ingestion_id) (\<lambda>_.
            bindE (note_call (AddBackgroundTask ingestion_id user_id)) (\<lambda>_.
            bindE (ing_get E (ingestion_table_name S) user_id ingestion_id) (\<lambda>refreshed.
            (case refreshed of
               None \<Rightarrow> raiseE AssertionError
             | Some rec \<Rightarrow> retE (202, rec)))))))"

section \<open>The background transcription\<close>

text \<open>The environment variables the dispatch reads, and the backends it can build.\<close>

record transcriber_env =
  transcriber_backend :: "string option"
  groq_api_key :: "string option"
  openai_api_key :: "string option"
  openai_installed :: bool

datatype transcriber = GroqTranscriberBackend string | OpenAITranscriberBackend string

fun api_key_set :: "string option \<Rightarrow> bool" where
  "api_key_set None = False"
| "api_key_set (Some k) = (k \<noteq> [])"

definition get_transcriber :: "transcriber_env \<Rightarrow> exn + transcriber" where
  "get_transcriber cfg =
     (let backend_name = lower (strip (case transcriber_backend cfg of None \<Rightarrow> ''groq'' | Some b \<Rightarrow> b)) in
      if backend_name = ''groq'' then
        (if api_key_set (groq_api_key cfg) then Inr (GroqTranscriberBackend (the (groq_api_key cfg)))
         else Inl (RuntimeError ''TRANSCRIBER_BACKEND=groq but GROQ_API_KEY is not set''))
      else if backend_name = ''openai'' then
        (if \<not> api_key_set (openai_api_key cfg)
         then Inl (RuntimeError ''TRANSCRIBER_BACKEND=openai but OPENAI_API_KEY is not set'')
         else if openai_installed cfg then Inr (OpenAITranscriberBackend (the (openai_api_key cfg)))
         else Inl (RuntimeError ''panakoes-transcriber-openai is not installed in this service''))
      else Inl (RuntimeError (''Unknown TRANSCRIBER_BACKEND='' @ backend_name)))"

text \<open>A backend: the calls so far, the audio and the file name to a result or an exception.\<close>

type_synonym backend = "call list \<Rightarrow> pyval \<Rightarrow> string \<Rightarrow> exn + transcription_result"

definition call_backend :: "backend \<Rightarrow> pyval \<Rightarrow> string \<Rightarrow> ('t world, transcription_result) io" where
  "call_backend B audio filename w =
     (B (trace w) audio filename, w\<lparr>trace := trace w @ [Transcribe audio filename]\<rparr>)"

fun transcriber_error_class :: "exn \<Rightarrow> string option" where
  "transcriber_error_class (TranscriberError cls _) = Some cls"
| "transcriber_error_class _ = None"

text \<open>The error message of each handler: \<open>TranscriberError\<close> with its class, anything else as unexpected.\<close>

definition backend_error_message :: "'t env \<Rightarrow> exn \<Rightarrow> string" where
  "backend_error_message E e =
     (case transcriber_error_class e of
        Some cls \<Rightarrow> cls @ '': '' @ str_exn E e
      | None \<Rightarrow> ''unexpected error: '' @ str_exn E e)"

definition fetch_error_message :: "'t env \<Rightarrow> exn \<Rightarrow> string" where
  "fetch_error_message E e = ''audio fetch failed: '' @ str_exn E e"

definition transcribe_ingestion :: "'t env \<Rightarrow> backend \<Rightarrow> string \<Rightarrow> string \<Rightarrow> string \<Rightarrow> string \<Rightarrow>
    ('t world, unit) io" where
  "transcribe_ingestion E B tbl bucket user_id ingestion_id =
     bindE (ing_get E tbl user_id ingestion_id) (\<lambda>r.
     (case r of
        None \<Rightarrow> retE ()
      | Some record \<Rightarrow>
          tryE (invoke E (S3GetObject bucket (in_s3_key record)))
            (\<lambda>e. set_transcript_failed E tbl user_id ingestion_id (fetch_error_message E e))
            (\<lambda>audio_bytes.
               tryE (call_backend B audio_bytes (in_filename record))
                 (\<lambda>e. set_transcript_failed E tbl user_id ingestion_id (backend_error_message E e))
                 (\<lambda>result. set_transcript_succeeded E tbl user_id ingestion_id (to_transcript_model result)))))"

section \<open>Lemmas: keys and stored transcripts\<close>

lemma user_pk_inject [simp]: "user_pk u = user_pk v \<longleftrightarrow> u = v"
  by (simp add: user_pk_def)

lemma ddb_ingestion_key [simp]: "ddb_item (ingestion_key u i) = ingestion_key u i"
  by (simp add: ddb_item_def ingestion_key_def)

lemma ingestion_key_inject [simp]: "ingestion_key u i = ingestion_key v j \<longleftrightarrow> u = v \<and> i = j"
  by (auto simp: ingestion_key_def ingestion_sk_def)

lemma traverse_map: "(\<And>x. x \<in> set xs \<Longrightarrow> g (h x) = Some x) \<Longrightarrow> traverse g (map h xs) = Some xs"
  by (induction xs) auto

lemma dget_map_value: "dget (map (\<lambda>(k, v). (k, f v)) d) j = (case map_of d j of None \<Rightarrow> PNone | Some v \<Rightarrow> f v)"
  by (induction d) (auto simp: dget_Cons)

text \<open>What reading a stored value returns: integers written come back as integers, decimals as numbers.\<close>

definition reads_back :: "pyval \<Rightarrow> pyval" where
  "reads_back v = decimal_to_native (ddb_val v)"

lemma reads_back_simps [simp]:
  "reads_back (PStr s) = PStr s" "reads_back PNone = PNone" "reads_back (PInt i) = PInt i"
  "reads_back (PList xs) = PList (map reads_back xs)"
  "reads_back (PDict d) = PDict (map (\<lambda>(k, v). (k, reads_back v)) d)"
  by (auto simp: reads_back_def)

definition float_lib_ok :: "'t env \<Rightarrow> bool" where
  "float_lib_ok E \<longleftrightarrow> (\<forall>i. pyd_float E (PInt i) = Some (of_int i)) \<and> (\<forall>q. pyd_float E (PFloat q) = Some q)"

lemma pyd_float_back [simp]: "float_lib_ok E \<Longrightarrow> pyd_float E (reads_back (PDec q)) = Some q"
  by (auto simp: float_lib_ok_def reads_back_def split: if_splits)

lemma reads_back_PDec_not_None [simp]: "reads_back (PDec q) \<noteq> PNone"
  by (simp add: reads_back_def)

lemma word_stored:
  "strip_none (word_json PDec w) =
     PDict [(''text'', PStr (tw_text w)), (''start'', PDec (tw_start w)), (''end'', PDec (tw_end w))]"
  by (simp add: word_json_def)

lemma word_roundtrip:
  "float_lib_ok E \<Longrightarrow> validate_word E (reads_back (strip_none (word_json PDec w))) = Some w"
  by (simp add: word_stored validate_word_def dget_Cons)

lemma segment_roundtrip:
  assumes "float_lib_ok E"
  shows "validate_segment E (reads_back (strip_none (segment_json PDec s))) = Some s"
proof -
  have "traverse (validate_word E) (map (\<lambda>w. reads_back (strip_none (word_json PDec w))) (ts_words s)) = Some (ts_words s)"
    by (rule traverse_map) (rule word_roundtrip [OF assms])
  then show ?thesis
    using assms
    by (simp add: segment_json_def validate_segment_def list_field_def dget_Cons dget_or_def comp_def)
qed

lemma transcript_roundtrip:
  assumes "float_lib_ok E"
  shows "validate_transcript E (reads_back (strip_none (transcript_json PDec t))) = Some t"
proof -
  have "traverse (validate_segment E) (map (\<lambda>s. reads_back (strip_none (segment_json PDec s))) (tr_segments t)) =
      Some (tr_segments t)"
    by (rule traverse_map) (rule segment_roundtrip [OF assms])
  then show ?thesis
    using assms
    by (cases "tr_language t"; cases "tr_duration t")
      (simp_all add: transcript_json_def validate_transcript_def list_field_def dget_Cons dget_or_def comp_def
        opt_str_field_def opt_float_field_def)
qed

lemma validate_ingestion_iff:
  "validate_ingestion E d = Some r \<longleftrightarrow>
     dget d ''ingestion_id'' = PStr (in_ingestion_id r) \<and> dget d ''user_id'' = PStr (in_user_id r) \<and>
     dget d ''filename'' = PStr (in_filename r) \<and> dget d ''content_type'' = PStr (in_content_type r) \<and>
     pyd_int E (dget d ''size_bytes'') = Some (in_size_bytes r) \<and> dget d ''s3_key'' = PStr (in_s3_key r) \<and>
     parse_literal ingestion_status_str [IngPending, IngUploaded, IngFailed] (dget d ''status'') = Some (in_status r) \<and>
     pyd_dt E (dget d ''created_at'') = Some (in_created_at r) \<and>
     pyd_dt E (dget d ''updated_at'') = Some (in_updated_at r) \<and>
     opt_transcript_status (dget d ''transcript_status'') = Some (in_transcript_status r) \<and>
     opt_transcript E (dget d ''transcript'') = Some (in_transcript r) \<and>
     opt_str_field (dget d ''transcript_error_message'') = Some (in_transcript_error r)"
  (is "?L \<longleftrightarrow> ?R")
proof
  assume ?L
  then show ?R unfolding validate_ingestion_def by (auto split: option.split_asm)
next
  assume ?R
  then show ?L unfolding validate_ingestion_def by simp
qed

lemma ing_from_dynamo_iff:
  "ing_from_dynamo E it = Inr r \<longleftrightarrow> validate_ingestion E (map (\<lambda>(k, v). (k, decimal_to_native v)) it) = Some r"
  by (auto simp: ing_from_dynamo_def split: option.splits)

definition failed_record :: "ingestion_record \<Rightarrow> string \<Rightarrow> ingestion_record" where
  "failed_record r m = r\<lparr>in_transcript_status := Some TsFailed, in_transcript_error := Some (take 500 m)\<rparr>"

lemma parse_transcript_status [simp]:
  "opt_transcript_status (PStr ''pending'') = Some (Some TsPending)"
  "opt_transcript_status (PStr ''succeeded'') = Some (Some TsSucceeded)"
  "opt_transcript_status (PStr ''failed'') = Some (Some TsFailed)"
  by (simp_all add: opt_transcript_status_def parse_literal_def)

lemma native_ddb [simp]: "decimal_to_native (ddb_val v) = reads_back v"
  by (simp add: reads_back_def)

lemma decode_pending:
  assumes "ing_from_dynamo E it = Inr r"
  shows "ing_from_dynamo E (apply_upds [SetAttr ''transcript_status'' (PStr ''pending''),
     RemoveAttr ''transcript_error_message''] it) =
     Inr (r\<lparr>in_transcript_status := Some TsPending, in_transcript_error := None\<rparr>)"
  using assms by (simp add: ing_from_dynamo_iff validate_ingestion_iff dget_map_value opt_str_field_def)

lemma decode_failed:
  assumes "ing_from_dynamo E it = Inr r"
  shows "ing_from_dynamo E (apply_upds [SetAttr ''transcript_status'' (PStr ''failed''),
     SetAttr ''transcript_error_message'' (PStr (take 500 m))] it) = Inr (failed_record r m)"
  using assms
  by (simp add: ing_from_dynamo_iff validate_ingestion_iff dget_map_value opt_str_field_def failed_record_def)

lemma decode_succeeded:
  assumes "ing_from_dynamo E it = Inr r" "float_lib_ok E"
  shows "ing_from_dynamo E (apply_upds [SetAttr ''transcript_status'' (PStr ''succeeded''),
     SetAttr ''transcript'' (strip_none (transcript_json PDec t)), RemoveAttr ''transcript_error_message''] it) =
     Inr (r\<lparr>in_transcript_status := Some TsSucceeded, in_transcript := Some t, in_transcript_error := None\<rparr>)"
proof -
  have "opt_transcript E (reads_back (strip_none (transcript_json PDec t))) = Some (Some t)"
    using transcript_roundtrip [OF assms(2)] by (simp add: opt_transcript_def transcript_json_def)
  with assms(1) show ?thesis
    by (simp add: ing_from_dynamo_iff validate_ingestion_iff dget_map_value opt_str_field_def)
qed

text \<open>The three writes, when they succeed.\<close>

lemma update_row_Inr:
  assumes "ddb_ok E V" "bindE (update_item E tbl k us CTrue) (\<lambda>_. retE ()) w = (Inr (), w')"
    and "rows V w tbl (ddb_item k) = Some row"
  shows "rows V w' = store_row (rows V w) tbl (ddb_item k) (apply_upds us row) \<and> trace w' = trace w"
proof -
  from assms(2) obtain it where u: "update_item E tbl k us CTrue w = (Inr it, w')"
    by (auto simp: bindE_Inr_iff retE_def)
  from update_item_cases [OF assms(1) u] assms(3) show ?thesis
    by (simp add: write_outcome_simps updated_row_def)
qed

lemma set_transcript_pending_Inr:
  assumes "ddb_ok E V" "set_transcript_pending E tbl uid iid w = (Inr (), w')"
    and "rows V w tbl (ingestion_key uid iid) = Some row" "ing_from_dynamo E row = Inr r"
  shows "\<exists>new. rows V w' = store_row (rows V w) tbl (ingestion_key uid iid) new \<and> trace w' = trace w \<and>
     ing_from_dynamo E new = Inr (r\<lparr>in_transcript_status := Some TsPending, in_transcript_error := None\<rparr>)"
  using update_row_Inr [OF assms(1,2) [unfolded set_transcript_pending_def], of row] assms(3)
    decode_pending [OF assms(4)] by auto

text \<open>
  A write of one row with its answer: it is answered and the row is stored, or it fails and the row is
  stored all the same (the answer was lost) or no row changed.
\<close>

definition row_written :: "'t db_view \<Rightarrow> string \<Rightarrow> item \<Rightarrow> item \<Rightarrow> exn + unit \<Rightarrow> 't world \<Rightarrow> 't world \<Rightarrow> bool" where
  "row_written V tbl k new res w w' \<longleftrightarrow>
     rows V w' = store_row (rows V w) tbl k new \<or> (\<exists>e. res = Inl e) \<and> rows V w' = rows V w"

lemma update_row_written:
  assumes "ddb_ok E V" "bindE (update_item E tbl k us CTrue) (\<lambda>_. retE ()) w = (res, w')"
    and "rows V w tbl (ddb_item k) = Some row"
  shows "row_written V tbl (ddb_item k) (apply_upds us row) res w w' \<and> trace w' = trace w"
proof -
  obtain q w1 where u: "update_item E tbl k us CTrue w = (q, w1)" by fastforce
  have "w' = w1" "\<forall>e. q = Inl e \<longrightarrow> res = Inl e"
    using assms(2) u by (auto simp: bindE_def retE_def split: sum.splits)
  with update_item_cases [OF assms(1) u] assms(3) show ?thesis
    by (cases q) (auto simp: write_outcome_def row_written_def updated_row_def split: if_splits)
qed

lemma ing_get_Inr:
  assumes "ddb_ok E V" "ing_get E tbl uid iid w = (Inr x, w')"
  shows "rows V w' = rows V w \<and> trace w' = trace w \<and>
     (case rows V w tbl (ingestion_key uid iid) of
        None \<Rightarrow> x = None
      | Some row \<Rightarrow> \<exists>r. x = Some r \<and> ing_from_dynamo E row = Inr r)"
proof -
  from assms(2) obtain i w1 where g: "get_item E tbl (ingestion_key uid iid) w = (Inr i, w1)"
    and x: "(i = None \<and> x = None \<or> (\<exists>row r. i = Some row \<and> ing_from_dynamo E row = Inr r \<and> x = Some r)) \<and> w' = w1"
    by (auto simp: ing_get_def bindE_Inr_iff liftE_def retE_def split: option.split_asm)
  from get_item_cases [OF assms(1) g] x show ?thesis by auto
qed

lemma ing_get_bind:
  assumes "ddb_ok E V" "bindE (ing_get E tbl uid iid) f w = (Inr y, w')"
    and "rows V w tbl (ingestion_key uid iid) = Some row" "ing_from_dynamo E row = Inr r"
  obtains w1 where "ing_get E tbl uid iid w = (Inr (Some r), w1)" "rows V w1 = rows V w" "trace w1 = trace w"
    "f (Some r) w1 = (Inr y, w')"
proof -
  from assms(2) obtain x w1 where x: "ing_get E tbl uid iid w = (Inr x, w1)" "f x w1 = (Inr y, w')"
    by (auto simp: bindE_Inr_iff)
  with ing_get_Inr [OF assms(1) x(1)] assms(3,4) that [of w1] show ?thesis by auto
qed

section \<open>Properties: file names and records\<close>

lemma sanitize_chars: "list_all filename_safe (sanitize_filename s)"
proof -
  have u: "filename_safe (CHR ''_'')" by (simp add: filename_safe_def)
  have "list_all filename_safe (dropWhile P (map (\<lambda>c. if filename_safe c then c else CHR ''_'') t))" for P t
    using u by (auto simp: list_all_iff dest!: set_dropWhileD)
  moreover have "list_all filename_safe ''unnamed''" by code_simp
  ultimately show ?thesis by (simp add: sanitize_filename_def Let_def)
qed

text \<open>
  A sanitised file name is never empty, contains only ASCII letters, digits, dots, hyphens and
  underscores (so no slash, percent sign or blank), and does not begin with a dot.
\<close>

lemma sanitize_filename_safe:
  "sanitize_filename s \<noteq> [] \<and> list_all filename_safe (sanitize_filename s) \<and>
   hd (sanitize_filename s) \<noteq> CHR ''.''"
  using sanitize_chars hd_dropWhile [of "\<lambda>c. c = CHR ''.''"]
  by (auto simp: sanitize_filename_def Let_def)

text \<open>
  A transcript written to the table (floats as decimals, \<^verbatim>\<open>None\<close> entries dropped) and read back
  (decimals as integers or floats) validates to the same transcript, nested segments and words
  included.
\<close>

lemma stored_transcript_roundtrip:
  assumes "float_lib_ok E"
  shows "validate_transcript E (decimal_to_native (ddb_val (strip_none (transcript_json PDec t)))) = Some t"
  using transcript_roundtrip [OF assms] by simp

section \<open>Properties: the background task\<close>

text \<open>What the task is for, as a function of the record and the answers of S3 and the backend.\<close>

definition transcription_outcome :: "'t env \<Rightarrow> backend \<Rightarrow> string \<Rightarrow> call list \<Rightarrow> ingestion_record \<Rightarrow> ingestion_record" where
  "transcription_outcome E B bucket calls r =
     (let fetch = S3GetObject bucket (in_s3_key r) in
      case svc E calls fetch of
        Inl e \<Rightarrow> failed_record r (fetch_error_message E e)
      | Inr audio \<Rightarrow>
          (case B (calls @ [fetch]) audio (in_filename r) of
             Inl e \<Rightarrow> failed_record r (backend_error_message E e)
           | Inr result \<Rightarrow> r\<lparr>in_transcript_status := Some TsSucceeded,
                            in_transcript := Some (to_transcript_model result),
                            in_transcript_error := None\<rparr>))"

text \<open>The calls of the task: the fetch, and the backend's when the fetch was answered.\<close>

definition transcription_calls :: "'t env \<Rightarrow> string \<Rightarrow> call list \<Rightarrow> ingestion_record \<Rightarrow> call list" where
  "transcription_calls E bucket calls r =
     (let fetch = S3GetObject bucket (in_s3_key r) in
      fetch # (case svc E calls fetch of Inl _ \<Rightarrow> [] | Inr audio \<Rightarrow> [Transcribe audio (in_filename r)]))"

text \<open>What the task does after its record was read, whatever the write of the outcome answers.\<close>

lemma transcribe_found:
  assumes "ddb_ok E V" "float_lib_ok E"
    and "tryE (invoke E (S3GetObject bucket (in_s3_key r)))
       (\<lambda>e. set_transcript_failed E tbl uid iid (fetch_error_message E e))
       (\<lambda>audio. tryE (call_backend B audio (in_filename r))
          (\<lambda>e. set_transcript_failed E tbl uid iid (backend_error_message E e))
          (\<lambda>result. set_transcript_succeeded E tbl uid iid (to_transcript_model result))) w = (res, w')"
    and "rows V w tbl (ingestion_key uid iid) = Some row" "ing_from_dynamo E row = Inr r"
  shows "trace w' = trace w @ transcription_calls E bucket (trace w) r \<and>
     (\<exists>new. row_written V tbl (ingestion_key uid iid) new res w w' \<and>
        ing_from_dynamo E new = Inr (transcription_outcome E B bucket (trace w) r))"
proof -
  let ?fetch = "S3GetObject bucket (in_s3_key r)" and ?key = "ingestion_key uid iid"
  define w2 where "w2 = w\<lparr>trace := trace w @ [?fetch]\<rparr>"
  note written = update_row_written [OF assms(1), of tbl ?key, simplified]
  have w2: "rows V w2 = rows V w" "rows V w2 tbl ?key = Some row" using assms(4) by (simp_all add: w2_def)
  show ?thesis
  proof (cases "svc E (trace w) ?fetch")
    case (Inl e)
    then have "set_transcript_failed E tbl uid iid (fetch_error_message E e) w2 = (res, w')"
      using assms(3) by (simp add: tryE_def invoke_def w2_def)
    from written [OF this [unfolded set_transcript_failed_def] w2(2)] decode_failed [OF assms(5)] Inl w2(1)
    show ?thesis by (auto simp: w2_def transcription_outcome_def transcription_calls_def row_written_def)
  next
    case (Inr audio)
    define w3 where "w3 = w2\<lparr>trace := trace w2 @ [Transcribe audio (in_filename r)]\<rparr>"
    have w3: "rows V w3 = rows V w" "rows V w3 tbl ?key = Some row" using w2 by (simp_all add: w3_def)
    show ?thesis
    proof (cases "B (trace w @ [?fetch]) audio (in_filename r)")
      case (Inl e)
      then have "set_transcript_failed E tbl uid iid (backend_error_message E e) w3 = (res, w')"
        using assms(3) Inr by (simp add: tryE_def invoke_def call_backend_def w2_def w3_def)
      from written [OF this [unfolded set_transcript_failed_def] w3(2)] decode_failed [OF assms(5)] Inr Inl w3(1)
      show ?thesis by (auto simp: w2_def w3_def transcription_outcome_def transcription_calls_def row_written_def)
    next
      fix result assume res: "B (trace w @ [?fetch]) audio (in_filename r) = Inr result"
      then have "set_transcript_succeeded E tbl uid iid (to_transcript_model result) w3 = (res, w')"
        using assms(3) Inr by (simp add: tryE_def invoke_def call_backend_def w2_def w3_def)
      from written [OF this [unfolded set_transcript_succeeded_def] w3(2)] decode_succeeded [OF assms(5,2)] Inr res w3(1)
      show ?thesis by (auto simp: w2_def w3_def transcription_outcome_def transcription_calls_def row_written_def)
    qed
  qed
qed

text \<open>The row the task leaves, which the theories of the backends build on.\<close>

lemma transcribe_ingestion_row:
  assumes "ddb_ok E V" "float_lib_ok E"
    and "transcribe_ingestion E B tbl bucket uid iid w = (Inr (), w')"
    and "rows V w tbl (ingestion_key uid iid) = Some row" "ing_from_dynamo E row = Inr r"
  shows "\<exists>new. rows V w' = store_row (rows V w) tbl (ingestion_key uid iid) new \<and>
     ing_from_dynamo E new = Inr (transcription_outcome E B bucket (trace w) r)"
proof -
  obtain w1 where get: "rows V w1 = rows V w" "trace w1 = trace w"
    "tryE (invoke E (S3GetObject bucket (in_s3_key r)))
       (\<lambda>e. set_transcript_failed E tbl uid iid (fetch_error_message E e))
       (\<lambda>audio. tryE (call_backend B audio (in_filename r))
          (\<lambda>e. set_transcript_failed E tbl uid iid (backend_error_message E e))
          (\<lambda>result. set_transcript_succeeded E tbl uid iid (to_transcript_model result))) w1 = (Inr (), w')"
    using assms(3) unfolding transcribe_ingestion_def
    by (rule ing_get_bind [OF assms(1) _ assms(4,5)]) simp
  from transcribe_found [OF assms(1,2) get(3) _ assms(5)] assms(4) get(1,2)
  show ?thesis by (simp add: row_written_def)
qed

lemma trace_new_calls: "trace w' = trace w @ cs \<Longrightarrow> new_calls w w' = cs"
  by (simp add: new_calls_def)

text \<open>
  C5. Every ending of the background task, over the answer to the read of its record. A read that
  raises ends the task with that exception, a record that vanished ends it normally, and one that does not
  decode ends it with the decoding error; each time no row is written and no call is made. Otherwise the
  audio is fetched (and handed to the backend when the fetch is answered), and one write stores a row that
  decodes to the outcome those two answers determine: \<^verbatim>\<open>failed\<close> with a message of at most 500
  characters when either raises, \<^verbatim>\<open>succeeded\<close> with exactly the backend's transcript when both answer,
  every other field of the record and every other row unchanged. The task returns only if that row is
  stored; if the write fails, the task raises and the row is as it was, or stored with the answer lost.
\<close>

theorem transcribe_ingestion_outcome:
  assumes "ddb_ok E V" "float_lib_ok E" "transcribe_ingestion E B tbl bucket uid iid w = (res, w')"
  shows "case fst (get_item E tbl (ingestion_key uid iid) w) of
     Inl e \<Rightarrow> res = Inl e \<and> rows V w' = rows V w \<and> new_calls w w' = []
   | Inr _ \<Rightarrow>
      (case rows V w tbl (ingestion_key uid iid) of
         None \<Rightarrow> res = Inr () \<and> rows V w' = rows V w \<and> new_calls w w' = []
       | Some row \<Rightarrow>
          (case ing_from_dynamo E row of
             Inl e \<Rightarrow> res = Inl e \<and> rows V w' = rows V w \<and> new_calls w w' = []
           | Inr r \<Rightarrow>
               new_calls w w' = transcription_calls E bucket (trace w) r \<and>
               (\<exists>new. row_written V tbl (ingestion_key uid iid) new res w w' \<and>
                  ing_from_dynamo E new = Inr (transcription_outcome E B bucket (trace w) r))))"
proof -
  obtain g w1 where g: "get_item E tbl (ingestion_key uid iid) w = (g, w1)" by fastforce
  note get = get_item_cases [OF assms(1) g]
  show ?thesis
  proof (cases g)
    case (Inl e)
    with assms(3) g get show ?thesis
      by (simp add: transcribe_ingestion_def ing_get_def bindE_def new_calls_def)
  next
    case (Inr i)
    with get have i: "rows V w tbl (ingestion_key uid iid) = i" by simp
    show ?thesis
    proof (cases i)
      case None
      with assms(3) g get Inr i show ?thesis
        by (simp add: transcribe_ingestion_def ing_get_def bindE_def retE_def new_calls_def)
    next
      case (Some row)
      show ?thesis
      proof (cases "ing_from_dynamo E row")
        case (Inl e)
        with assms(3) g get Inr i Some show ?thesis
          by (simp add: transcribe_ingestion_def ing_get_def bindE_def liftE_def retE_def new_calls_def)
      next
        fix r assume r: "ing_from_dynamo E row = Inr r"
        with assms(3) g Inr Some have "tryE (invoke E (S3GetObject bucket (in_s3_key r)))
           (\<lambda>e. set_transcript_failed E tbl uid iid (fetch_error_message E e))
           (\<lambda>audio. tryE (call_backend B audio (in_filename r))
              (\<lambda>e. set_transcript_failed E tbl uid iid (backend_error_message E e))
              (\<lambda>result. set_transcript_succeeded E tbl uid iid (to_transcript_model result))) w1 = (res, w')"
          by (simp add: transcribe_ingestion_def ing_get_def bindE_def liftE_def retE_def)
        from transcribe_found [OF assms(1,2) this _ r] g get Inr i Some r
        show ?thesis by (simp add: trace_new_calls row_written_def)
      qed
    qed
  qed
qed

text \<open>
  \<^verbatim>\<open>POST /transcribe\<close> schedules a background task exactly when the stored record has neither a
  succeeded nor a pending transcription; it then answers 202 with a record that is pending. A
  succeeded record is answered 200 and a pending one 202, without a task and without a write.
\<close>

lemma request_transcription_cases:
  assumes "ddb_ok E V" "request_transcription E S uid iid w = (Inr (code, rec), w')"
    and "rows V w (ingestion_table_name S) (ingestion_key uid iid) = Some row" "ing_from_dynamo E row = Inr r"
  shows "case in_transcript_status r of
       Some TsSucceeded \<Rightarrow> code = 200 \<and> rec = r \<and> rows V w' = rows V w \<and> trace w' = trace w
     | Some TsPending \<Rightarrow> code = 202 \<and> rec = r \<and> rows V w' = rows V w \<and> trace w' = trace w
     | _ \<Rightarrow> code = 202 \<and> rec = r\<lparr>in_transcript_status := Some TsPending, in_transcript_error := None\<rparr> \<and>
            trace w' = trace w @ [AddBackgroundTask iid uid]"
proof -
  let ?T = "ingestion_table_name S" and ?key = "ingestion_key uid iid"
  obtain w1 where get: "ing_get E ?T uid iid w = (Inr (Some r), w1)" "rows V w1 = rows V w" "trace w1 = trace w"
    using assms(2) unfolding request_transcription_def by (rule ing_get_bind [OF assms(1) _ assms(3,4)])
  show ?thesis
  proof (cases "in_transcript_status r = Some TsSucceeded \<or> in_transcript_status r = Some TsPending")
    case True
    with assms(2) get show ?thesis by (auto simp: request_transcription_def bindE_def retE_def)
  next
    case False
    then obtain w2 w3 w4 where upd: "set_transcript_pending E ?T uid iid w1 = (Inr (), w2)"
      and note_: "note_call (AddBackgroundTask iid uid) w2 = (Inr (), w3)"
      and get2: "ing_get E ?T uid iid w3 = (Inr (Some rec), w4)" and fin: "code = 202" "w' = w4"
      using assms(2) get(1)
      by (auto simp: request_transcription_def bindE_Inr_iff retE_def raiseE_def split: option.split_asm)
    have "\<exists>new. rows V w2 = store_row (rows V w1) ?T ?key new \<and> trace w2 = trace w1 \<and>
       ing_from_dynamo E new = Inr (r\<lparr>in_transcript_status := Some TsPending, in_transcript_error := None\<rparr>)"
      using set_transcript_pending_Inr [OF assms(1) upd _ assms(4)] assms(3) get(2) by simp
    with note_call_cases [OF note_] ing_get_Inr [OF assms(1) get2] get fin False
    show ?thesis by (auto simp: store_row_apply split: option.splits transcript_status.splits)
  qed
qed

section \<open>Tenant isolation\<close>

datatype ingestion_call =
    CreateIngestion create_request
  | GetIngestion string
  | ListIngestions int "string option"
  | RequestTranscription string
  | BackgroundTranscription string

fun serve_ingestion :: "'t env \<Rightarrow> ingestion_settings \<Rightarrow> backend \<Rightarrow> string \<Rightarrow> ingestion_call \<Rightarrow> ('t world, unit) io" where
  "serve_ingestion E S B uid (CreateIngestion req) = bindE (create_ingestion E S uid req) (\<lambda>_. retE ())"
| "serve_ingestion E S B uid (GetIngestion iid) = bindE (get_ingestion E S uid iid) (\<lambda>_. retE ())"
| "serve_ingestion E S B uid (ListIngestions limit cursor) = bindE (list_ingestions E S uid limit cursor) (\<lambda>_. retE ())"
| "serve_ingestion E S B uid (RequestTranscription iid) = bindE (request_transcription E S uid iid) (\<lambda>_. retE ())"
| "serve_ingestion E S B uid (BackgroundTranscription iid) =
     transcribe_ingestion E B (ingestion_table_name S) (ingestion_bucket S) uid iid"

text \<open>A row belongs to the user in its partition key.\<close>

definition owned_partition :: "string \<Rightarrow> item \<Rightarrow> item \<Rightarrow> bool" where
  "owned_partition uid k row \<longleftrightarrow> dget k ''pk'' = PStr (user_pk uid)"

lemma owned_ingestion_key [simp]: "owned_partition u (ingestion_key v i) row \<longleftrightarrow> u = v"
  by (auto simp: owned_partition_def ingestion_key_def dget_Cons)

lemma keeps_update_own:
  assumes "tenant_table E V tbl schema"
  shows "keeps (rows_rel V (rows_protected tbl owned_partition uid)) (update_item E tbl (ingestion_key uid iid) us c)"
  by (rule keeps_update_item [OF tenant_table_ddb [OF assms]]) (auto simp: rows_protected_def store_row_apply)

lemma keeps_ing_get:
  assumes "tenant_table E V tbl schema"
  shows "keeps (rows_rel V (rows_protected tbl owned_partition uid)) (ing_get E tbl u iid)"
  unfolding ing_get_def
  by (auto intro!: keeps_intros rows_protected_preorder tenant_table_ddb [OF assms] split: option.split)

lemma ddb_new_ingestion_key:
  "key_attrs E tbl = [''pk'', ''sk''] \<Longrightarrow> ddb_item (key_of E tbl (ing_to_dynamo r)) =
     ingestion_key (in_user_id r) (in_ingestion_id r)"
  by (simp add: key_of_def ing_to_dynamo_def dget_Cons ddb_item_def ingestion_key_def)

lemma keeps_ing_put:
  assumes "tenant_table E V tbl [''pk'', ''sk'']" "in_user_id r = uid"
  shows "keeps (rows_rel V (rows_protected tbl owned_partition uid)) (ing_put E tbl r)"
proof -
  have "key_attrs E tbl = [''pk'', ''sk'']" using assms(1) by (simp add: tenant_table_def)
  from ddb_new_ingestion_key [OF this] show ?thesis
    unfolding ing_put_def
    by (intro keeps_put_item [OF tenant_table_ddb [OF assms(1)] _ refl])
      (auto simp: rows_protected_def store_row_apply assms(2))
qed

lemma keeps_call_backend:
  "preorder_on_worlds (rows_rel V R) \<Longrightarrow> keeps (rows_rel V R) (call_backend B a f)"
  by (erule keeps_same_rows) (auto simp: call_backend_def)

lemmas keeps_ingestion_steps = keeps_update_own keeps_ing_get keeps_audit_protected

lemma keeps_transcribe:
  assumes "tenant_table E V tbl schema"
  shows "keeps (rows_rel V (rows_protected tbl owned_partition uid)) (transcribe_ingestion E B tbl bucket uid iid)"
  unfolding transcribe_ingestion_def set_transcript_failed_def set_transcript_succeeded_def
  by (auto intro!: keeps_intros rows_protected_preorder keeps_call_backend keeps_ingestion_steps [OF assms]
      split: option.split)

lemma keeps_request_transcription:
  assumes "tenant_table E V (ingestion_table_name S) schema"
  shows "keeps (rows_rel V (rows_protected (ingestion_table_name S) owned_partition uid))
     (request_transcription E S uid iid)"
  unfolding request_transcription_def set_transcript_pending_def
  by (auto intro!: keeps_intros rows_protected_preorder keeps_ingestion_steps [OF assms] split: option.split)

lemma keeps_create_ingestion:
  assumes "tenant_table E V (ingestion_table_name S) [''pk'', ''sk'']"
  shows "keeps (rows_rel V (rows_protected (ingestion_table_name S) owned_partition uid)) (create_ingestion E S uid req)"
proof -
  have "in_user_id (new_ingestion uid i req n) = uid" for i n by (simp add: new_ingestion_def)
  then show ?thesis
    unfolding create_ingestion_def generate_put_url_def Let_def
    by (intro keeps_intros rows_protected_preorder keeps_ing_put [OF assms] keeps_audit_protected [OF assms])
qed

lemma keeps_serve_ingestion:
  assumes "tenant_table E V (ingestion_table_name S) [''pk'', ''sk'']"
  shows "keeps (rows_rel V (rows_protected (ingestion_table_name S) owned_partition uid)) (serve_ingestion E S B uid c)"
proof (cases c)
  case (ListIngestions limit cursor)
  then show ?thesis
    by (auto simp: list_ingestions_def ing_list_for_user_def
        intro!: keeps_intros rows_protected_preorder tenant_table_ddb [OF assms])
next
  case (GetIngestion iid)
  then show ?thesis
    by (auto simp: get_ingestion_def intro!: keeps_intros rows_protected_preorder keeps_ing_get [OF assms]
        split: option.split)
qed (auto intro!: keeps_intros rows_protected_preorder keeps_create_ingestion [OF assms]
      keeps_request_transcription [OF assms] keeps_transcribe [OF assms])

interpretation ingestion_api: owner_scoped "tenant_table E V (ingestion_table_name S) [''pk'', ''sk'']" V
    "ingestion_table_name S" owned_partition
    "serve_ingestion E S B" for E V S B
  by unfold_locales (rule keeps_serve_ingestion)

text \<open>
  Tenant isolation of the ingestion table: over any history of API calls and background tasks of
  other users, whatever the database and the other services answer, the rows of a user's partition
  keep their content.
\<close>

lemma ingestion_owner_isolation:
  assumes "tenant_table E V (ingestion_table_name S) [''pk'', ''sk'']"
    and "rows V w (ingestion_table_name S) k = Some row" "dget k ''pk'' = PStr (user_pk owner)"
    and "owner \<notin> fst ` set history"
  shows "rows V (serve_all (serve_ingestion E S B) history w) (ingestion_table_name S) k = Some row"
  using assms(1,2) _ assms(4)
  by (rule ingestion_api.isolated_history) (simp add: owned_partition_def assms(3))

section \<open>Witnesses\<close>

definition ing_demo_env :: "(call list \<Rightarrow> call \<Rightarrow> exn + pyval) \<Rightarrow> mem env" where
  "ing_demo_env answer = mem_env (\<lambda>_. [''pk'', ''sk'']) answer"

definition ing_demo_settings :: ingestion_settings where
  "ing_demo_settings = \<lparr>ingestion_table_name = ''t'', ingestion_bucket = ''b'', presigned_url_ttl_seconds = 900,
     ing_list_max_limit = 100\<rparr>"

definition ing_demo_record :: "transcript_status option \<Rightarrow> ingestion_record" where
  "ing_demo_record ts = \<lparr>in_ingestion_id = ''i'', in_user_id = ''alice'', in_filename = ''a.wav'',
      in_content_type = ''audio/wav'', in_size_bytes = 7, in_s3_key = ''audio/alice/i/a.wav'',
      in_status = IngUploaded, in_created_at = 0, in_updated_at = 0, in_transcript_status = ts,
      in_transcript = None, in_transcript_error = None\<rparr>"

definition ing_demo_row :: "transcript_status option \<Rightarrow> item" where
  "ing_demo_row ts = ddb_item (ing_to_dynamo (ing_demo_record ts))"

definition ing_demo_world :: "transcript_status option \<Rightarrow> mem world" where
  "ing_demo_world ts = \<lparr>db = (\<lambda>tbl k. if tbl = ''t'' \<and> k = ingestion_key ''alice'' ''i'' then Some (ing_demo_row ts)
                                    else None), trace = [], ticks = 0\<rparr>"

definition demo_transcript :: transcript where
  "demo_transcript = \<lparr>tr_text = ''hi'', tr_segments = [\<lparr>ts_text = ''hi'', ts_start = 0, ts_end = 5 / 2,
     ts_words = [\<lparr>tw_text = ''hi'', tw_start = 0, tw_end = 1\<rparr>]\<rparr>], tr_language = Some ''en'', tr_duration = None\<rparr>"

definition demo_backend :: backend where
  "demo_backend calls audio fn = Inr \<lparr>res_text = tr_text demo_transcript, res_segments = tr_segments demo_transcript,
     res_language = tr_language demo_transcript, res_duration = tr_duration demo_transcript\<rparr>"

lemma ing_demo_ok: "ddb_ok (ing_demo_env answer) mem_view"
  by (simp add: ing_demo_env_def mem_env_ok)

lemma ing_demo_floats: "float_lib_ok (ing_demo_env answer)"
  by (simp add: ing_demo_env_def float_lib_ok_def mem_env_def)

lemma ing_demo_get: "get_item (ing_demo_env answer) tbl k w = (Inr (db w tbl (ddb_item k)), w)"
  by (simp add: get_item_def on_db_def ing_demo_env_def mem_env_def)

lemma ing_demo_update: "update_item (ing_demo_env answer) tbl k us CTrue w =
  (Inr (updated_row k us (db w tbl (ddb_item k))),
   w\<lparr>db := store_row (db w) tbl (ddb_item k) (updated_row k us (db w tbl (ddb_item k)))\<rparr>)"
  by (simp add: update_item_def on_db_def ing_demo_env_def mem_env_def Let_def)

lemma ing_demo_decode: "ing_from_dynamo (ing_demo_env answer) (ing_demo_row ts) = Inr (ing_demo_record ts)"
proof -
  have "pyd_dt (ing_demo_env answer) (PStr (isoformat 0)) = Some 0" "pyd_int (ing_demo_env answer) = as_int"
    by (simp_all add: ing_demo_env_def mem_env_def)
  moreover have "opt_transcript_status PNone = Some None" by (simp add: opt_transcript_status_def)
  ultimately show ?thesis
    by (cases ts; (cases "the ts")?)
      (simp_all add: ing_from_dynamo_iff validate_ingestion_iff ing_demo_row_def ing_to_dynamo_def ddb_item_def
        ing_demo_record_def dget_Cons parse_literal_def opt_transcript_def opt_str_field_def)
qed

lemma ing_demo_row_stored: "rows mem_view (ing_demo_world ts) ''t'' (ingestion_key ''alice'' ''i'') = Some (ing_demo_row ts)"
  by (simp add: ing_demo_world_def mem_view_def)

lemma ing_demo_runs:
  "\<exists>w'. transcribe_ingestion (ing_demo_env (\<lambda>_ _. Inr (PStr ''bytes''))) demo_backend ''t'' ''b'' ''alice'' ''i''
     (ing_demo_world (Some TsPending)) = (Inr (), w')"
  using ing_demo_row_stored [of "Some TsPending"]
  by (simp add: transcribe_ingestion_def ing_get_def bindE_def tryE_def retE_def liftE_def ing_demo_get
        ing_demo_decode ing_demo_update set_transcript_succeeded_def invoke_def call_backend_def
        demo_backend_def mem_view_def ing_demo_env_def [of "\<lambda>_ _. Inr (PStr ''bytes'')", THEN arg_cong [of _ _ svc]])

theorem transcribe_ingestion_outcome_witness:
  "\<exists>w' new. transcribe_ingestion (ing_demo_env (\<lambda>_ _. Inr (PStr ''bytes''))) demo_backend ''t'' ''b'' ''alice'' ''i''
       (ing_demo_world (Some TsPending)) = (Inr (), w') \<and>
     rows mem_view w' ''t'' (ingestion_key ''alice'' ''i'') = Some new \<and>
     ing_from_dynamo (ing_demo_env (\<lambda>_ _. Inr (PStr ''bytes''))) new =
       Inr ((ing_demo_record (Some TsPending))\<lparr>in_transcript_status := Some TsSucceeded,
              in_transcript := Some demo_transcript\<rparr>)"
proof -
  let ?E = "ing_demo_env (\<lambda>_ _. Inr (PStr ''bytes''))" and ?w = "ing_demo_world (Some TsPending)"
  obtain w' where run: "transcribe_ingestion ?E demo_backend ''t'' ''b'' ''alice'' ''i'' ?w = (Inr (), w')"
    using ing_demo_runs by blast
  have out: "transcription_outcome ?E demo_backend ''b'' (trace ?w) (ing_demo_record (Some TsPending)) =
      (ing_demo_record (Some TsPending))\<lparr>in_transcript_status := Some TsSucceeded,
         in_transcript := Some demo_transcript\<rparr>"
    by (simp add: transcription_outcome_def demo_backend_def ing_demo_env_def mem_env_def ing_demo_record_def
        to_transcript_model_def demo_transcript_def)
  from transcribe_ingestion_outcome [OF ing_demo_ok ing_demo_floats run] run out
    ing_demo_row_stored [of "Some TsPending"] ing_demo_decode [of "\<lambda>_ _. Inr (PStr ''bytes'')" "Some TsPending"]
  show ?thesis by (auto simp: store_row_apply row_written_def ing_demo_get mem_view_def)
qed

lemma ing_demo_tenant:
  "tenant_table (ing_demo_env answer) mem_view (ingestion_table_name ing_demo_settings) [''pk'', ''sk'']"
  by (simp add: tenant_table_def ing_demo_ok ing_demo_settings_def) (simp add: ing_demo_env_def mem_env_def)

section \<open>A transcript that cannot be stored\<close>

text \<open>
  An environment whose table rejects an item with a transcript, as DynamoDB does beyond its item
  size limit.
\<close>

definition oversize_env :: "mem env" where
  "oversize_env = (ing_demo_env (\<lambda>_ _. Inr PNone))\<lparr>d_update := (\<lambda>tbl k us c t.
     if (\<exists>v \<in> set us. (case v of SetAttr a _ \<Rightarrow> a = ''transcript'' | RemoveAttr _ \<Rightarrow> False))
     then (Inl (ClientError ''ValidationException'' ''item size''), t)
     else d_update (ing_demo_env (\<lambda>_ _. Inr PNone)) tbl k us c t)\<rparr>"

text \<open>
  Only the fetch and the backend call are guarded: when the write of a finished transcript is
  rejected, the task raises and the row stays \<^verbatim>\<open>pending\<close>; every later request for this record is then
  answered 202 without scheduling anything, so the transcription is stuck.
\<close>

lemma rejected_transcript_stays_pending:
  "\<exists>e w1 rec w2. transcribe_ingestion oversize_env demo_backend ''t'' ''b'' ''alice'' ''i''
       (ing_demo_world (Some TsPending)) = (Inl e, w1) \<and>
     rows mem_view w1 ''t'' (ingestion_key ''alice'' ''i'') = Some (ing_demo_row (Some TsPending)) \<and>
     request_transcription oversize_env ing_demo_settings ''alice'' ''i'' w1 = (Inr (202, rec), w2) \<and>
     in_transcript_status rec = Some TsPending \<and> trace w2 = trace w1"
proof -
  let ?w = "ing_demo_world (Some TsPending)" and ?row = "ing_demo_row (Some TsPending)"
  have get: "get_item oversize_env tbl k w = (Inr (db w tbl (ddb_item k)), w)" for tbl k w
    by (simp add: get_item_def on_db_def oversize_env_def ing_demo_env_def mem_env_def)
  have dec: "ing_from_dynamo oversize_env ?row = Inr (ing_demo_record (Some TsPending))"
    using ing_demo_decode [of "\<lambda>_ _. Inr PNone" "Some TsPending"]
    by (simp add: oversize_env_def ing_from_dynamo_iff validate_ingestion_iff opt_transcript_def dget_map_value
        ing_demo_row_def ing_to_dynamo_def ddb_item_def ing_demo_record_def dget_Cons)
  have upd: "update_item oversize_env tbl k [a, SetAttr ''transcript'' v, b] c w =
      (Inl (ClientError ''ValidationException'' ''item size''), w)" for tbl k a v b c w
    by (simp add: update_item_def on_db_def oversize_env_def)
  define w1 where "w1 = ?w\<lparr>trace := [S3GetObject ''b'' ''audio/alice/i/a.wav'', Transcribe PNone ''a.wav'']\<rparr>"
  have ans: "svc oversize_env c x = Inr PNone" for c x by (simp add: oversize_env_def ing_demo_env_def)
  have names: "in_s3_key (ing_demo_record s) = ''audio/alice/i/a.wav''" "in_filename (ing_demo_record s) = ''a.wav''" for s
    by (simp_all add: ing_demo_record_def)
  have run: "transcribe_ingestion oversize_env demo_backend ''t'' ''b'' ''alice'' ''i'' ?w =
      (Inl (ClientError ''ValidationException'' ''item size''), w1)"
    using ans names by (simp add: transcribe_ingestion_def ing_get_def bindE_def tryE_def retE_def liftE_def
        get dec upd ing_demo_world_def set_transcript_succeeded_def invoke_def call_backend_def
        demo_backend_def w1_def)
  have row: "db w1 ''t'' (ingestion_key ''alice'' ''i'') = Some ?row"
    by (simp add: w1_def ing_demo_world_def)
  have "request_transcription oversize_env ing_demo_settings ''alice'' ''i'' w1 =
      (Inr (202, ing_demo_record (Some TsPending)), w1)"
    using row by (simp add: request_transcription_def ing_get_def bindE_def retE_def liftE_def get dec
        ing_demo_settings_def) (simp add: ing_demo_record_def)
  with run row show ?thesis by (auto simp: mem_view_def ing_demo_record_def)
qed

end
