(* ===== verification/Event_Router.thy ===== *)
theory Event_Router
  imports Ingestion
begin

text \<open>
  The event router (\<^verbatim>\<open>services/event-router\<close>): decoding and parsing of S3 object keys
  (\<^verbatim>\<open>key_parser.py\<close>, of which transcribe-worker carries a copy), the two notification shapes, and the
  handler that flips a record from \<^verbatim>\<open>pending\<close> to \<^verbatim>\<open>uploaded\<close> and publishes the upload
  (\<^verbatim>\<open>handler.py\<close>). \<open>utf8\<close> of the environment decodes the bytes of percent escapes.
\<close>

section \<open>URL decoding\<close>

definition hex_val :: "char \<Rightarrow> nat option" where
  "hex_val c = (let n = (of_char c :: nat) in
     if 48 \<le> n \<and> n \<le> 57 then Some (n - 48)
     else if 65 \<le> n \<and> n \<le> 70 then Some (n - 55)
     else if 97 \<le> n \<and> n \<le> 102 then Some (n - 87)
     else None)"

text \<open>\<^verbatim>\<open>unquote_to_bytes\<close> on an ASCII string: a percent sign that no two hex digits follow stays.\<close>

fun percent_decode :: "string \<Rightarrow> string" where
  "percent_decode [] = []"
| "percent_decode (c # a # b # s) =
     (if c = CHR ''%'' \<and> hex_val a \<noteq> None \<and> hex_val b \<noteq> None
      then char_of (16 * the (hex_val a) + the (hex_val b)) # percent_decode s
      else c # percent_decode (a # b # s))"
| "percent_decode (c # s) = c # percent_decode s"

definition is_ascii :: "char \<Rightarrow> bool" where
  "is_ascii c = ((of_char c :: nat) < 128)"

text \<open>\<^verbatim>\<open>unquote\<close>: runs of ASCII characters are decoded, the characters between them kept.\<close>

function unquote_runs :: "(string \<Rightarrow> string) \<Rightarrow> string \<Rightarrow> string" where
  "unquote_runs dec [] = []"
| "unquote_runs dec (c # s) =
     (if is_ascii c
      then dec (percent_decode (takeWhile is_ascii (c # s))) @ unquote_runs dec (dropWhile is_ascii s)
      else c # unquote_runs dec s)"
  by pat_completeness auto
termination
  by (relation "measure (\<lambda>(dec, s). length s)") (auto simp: le_imp_less_Suc length_dropWhile_le)

definition unquote :: "(string \<Rightarrow> string) \<Rightarrow> string \<Rightarrow> string" where
  "unquote dec s = (if CHR ''%'' \<notin> set s then s else unquote_runs dec s)"

definition unquote_plus :: "(string \<Rightarrow> string) \<Rightarrow> string \<Rightarrow> string" where
  "unquote_plus dec s = unquote dec (map (\<lambda>c. if c = CHR ''+'' then CHR '' '' else c) s)"

section \<open>Object keys\<close>

record parsed_key =
  pk_user_id :: string
  pk_ingestion_id :: string
  pk_filename :: string

definition parse_object_key :: "(string \<Rightarrow> string) \<Rightarrow> string \<Rightarrow> parsed_key option" where
  "parse_object_key dec raw_key =
     (let decoded = unquote_plus dec raw_key in
      if \<not> starts_with decoded ''audio/'' then None
      else (case split_char (CHR ''/'') 2 (drop 6 decoded) of
              [user_id, ingestion_id, filename] \<Rightarrow>
                if user_id = [] \<or> ingestion_id = [] \<or> filename = [] then None
                else Some \<lparr>pk_user_id = user_id, pk_ingestion_id = ingestion_id, pk_filename = filename\<rparr>
            | _ \<Rightarrow> None))"

section \<open>S3 notifications\<close>

text \<open>\<^verbatim>\<open>(v.get(k1) or {}).get(k2)\<close> on a dictionary.\<close>

definition nested_get :: "item \<Rightarrow> string \<Rightarrow> string \<Rightarrow> exn + pyval" where
  "nested_get d k1 k2 = get_attr (py_or (dget d k1) (PDict [])) k2"

definition bucket_and_key :: "item \<Rightarrow> exn + (string \<times> string) option" where
  "bucket_and_key d =
     (case nested_get d ''bucket'' ''name'' of
        Inl e \<Rightarrow> Inl e
      | Inr bucket \<Rightarrow>
          (case nested_get d ''object'' ''key'' of
             Inl e \<Rightarrow> Inl e
           | Inr key \<Rightarrow>
               (case (as_str bucket, as_str key) of
                  (Some b, Some k) \<Rightarrow> Inr (Some (b, k))
                | _ \<Rightarrow> Inr None)))"

text \<open>The \<^verbatim>\<open>s3\<close> object of a raw record, when it and its container are dictionaries.\<close>

definition record_s3 :: "pyval \<Rightarrow> item option" where
  "record_s3 rec = Option.bind (as_dict rec) (\<lambda>d. as_dict (dget d ''s3''))"

fun raw_records :: "pyval list \<Rightarrow> exn + (string \<times> string) list" where
  "raw_records [] = Inr []"
| "raw_records (rec # recs) =
     (case record_s3 rec of
        None \<Rightarrow> raw_records recs
      | Some s3 \<Rightarrow>
          (case bucket_and_key s3 of
             Inl e \<Rightarrow> Inl e
           | Inr bk \<Rightarrow>
               (case raw_records recs of
                  Inl e \<Rightarrow> Inl e
                | Inr out \<Rightarrow> Inr (case bk of None \<Rightarrow> out | Some x \<Rightarrow> x # out))))"

definition extract_s3_records :: "item \<Rightarrow> exn + (string \<times> string) list" where
  "extract_s3_records event =
     (case (dget event ''source'' = PStr ''aws.s3'', as_dict (dget event ''detail'')) of
        (True, Some detail) \<Rightarrow>
          (case bucket_and_key detail of
             Inl e \<Rightarrow> Inl e
           | Inr None \<Rightarrow> Inr []
           | Inr (Some x) \<Rightarrow> Inr [x])
      | _ \<Rightarrow>
          (case as_list (dget event ''Records'') of
             None \<Rightarrow> Inr []
           | Some records \<Rightarrow> raw_records records))"

section \<open>The router\<close>

record router_settings =
  ddb_ingestion_table :: string
  eventbridge_bus_name :: string
  metric_namespace :: string
  event_source :: string
  event_detail_type :: string

text \<open>\<open>load_settings\<close> from the two required variables (absent is the empty string).\<close>

definition load_router_settings :: "string \<Rightarrow> string \<Rightarrow> exn + router_settings" where
  "load_router_settings table bus =
     (if table = [] then Inl (RuntimeError ''DDB_INGESTION_TABLE env var is required'')
      else if bus = [] then Inl (RuntimeError ''EVENTBRIDGE_BUS_NAME env var is required'')
      else Inr \<lparr>ddb_ingestion_table = table, eventbridge_bus_name = bus,
                metric_namespace = ''panakoes/dev/event-router'', event_source = ''panakoes.ingest'',
                event_detail_type = ''AudioUploaded''\<rparr>)"

text \<open>The metric is best effort: only a \<open>ClientError\<close> is swallowed.\<close>

definition emit_unknown :: "'t env \<Rightarrow> router_settings \<Rightarrow> string \<Rightarrow> ('t world, unit) io" where
  "emit_unknown E S reason =
     tryE (invoke E (PutMetric (metric_namespace S) ''unknown_record'' reason))
       (\<lambda>e. if is_client_error e then retE () else raiseE e)
       (\<lambda>_. retE ())"

definition record_exists :: "'t env \<Rightarrow> router_settings \<Rightarrow> parsed_key \<Rightarrow> ('t world, bool) io" where
  "record_exists E S parsed =
     bindE (get_item E (ddb_ingestion_table S) (ingestion_key (pk_user_id parsed) (pk_ingestion_id parsed)))
       (\<lambda>i. retE (i \<noteq> None))"

definition mark_condition :: cond where
  "mark_condition = CAnd (CAnd (AttrExists ''pk'') (AttrExists ''sk'')) (AttrEq ''status'' (PStr ''pending''))"

definition mark_uploaded :: "'t env \<Rightarrow> router_settings \<Rightarrow> parsed_key \<Rightarrow> ('t world, bool) io" where
  "mark_uploaded E S parsed =
     bindE (utcnow E) (\<lambda>now.
     tryE (update_item E (ddb_ingestion_table S) (ingestion_key (pk_user_id parsed) (pk_ingestion_id parsed))
             [SetAttr ''status'' (PStr ''uploaded''), SetAttr ''updated_at'' (PStr (isoformat now))]
             mark_condition)
       (\<lambda>e. if is_ccf e
            then bindE (record_exists E S parsed) (\<lambda>exists.
                 if \<not> exists
                 then bindE (emit_unknown E S ''record_missing'') (\<lambda>_. retE False)
                 else retE False)
            else raiseE e)
       (\<lambda>_. retE True))"

definition uploaded_detail :: "parsed_key \<Rightarrow> item" where
  "uploaded_detail parsed =
     [(''user_id'', PStr (pk_user_id parsed)), (''ingestion_id'', PStr (pk_ingestion_id parsed)),
      (''filename'', PStr (pk_filename parsed))]"

definition publish_call :: "router_settings \<Rightarrow> parsed_key \<Rightarrow> call" where
  "publish_call S parsed =
     PutEvents (event_source S) (event_detail_type S) (uploaded_detail parsed) (eventbridge_bus_name S)"

definition publish_audio_uploaded :: "'t env \<Rightarrow> router_settings \<Rightarrow> parsed_key \<Rightarrow> ('t world, unit) io" where
  "publish_audio_uploaded E S parsed = bindE (invoke E (publish_call S parsed)) (\<lambda>_. retE ())"

definition handle_one :: "'t env \<Rightarrow> router_settings \<Rightarrow> string \<Rightarrow> ('t world, bool) io" where
  "handle_one E S raw_key =
     (case parse_object_key (utf8 E) raw_key of
        None \<Rightarrow> bindE (emit_unknown E S ''unparseable_key'') (\<lambda>_. retE False)
      | Some parsed \<Rightarrow>
          bindE (mark_uploaded E S parsed) (\<lambda>marked.
          if \<not> marked then retE False
          else bindE (publish_audio_uploaded E S parsed) (\<lambda>_. retE True)))"

fun handle_all :: "'t env \<Rightarrow> router_settings \<Rightarrow> (string \<times> string) list \<Rightarrow> int \<Rightarrow> ('t world, int) io" where
  "handle_all E S [] published = retE published"
| "handle_all E S (rec # recs) published =
     bindE (handle_one E S (snd rec)) (\<lambda>b. handle_all E S recs (if b then published + 1 else published))"

definition process :: "'t env \<Rightarrow> router_settings \<Rightarrow> item \<Rightarrow> ('t world, int) io" where
  "process E S event = bindE (liftE (extract_s3_records event)) (\<lambda>records. handle_all E S records 0)"

definition router_lambda_handler :: "'t env \<Rightarrow> string \<Rightarrow> string \<Rightarrow> item \<Rightarrow> ('t world, int \<times> int) io" where
  "router_lambda_handler E table bus event =
     bindE (liftE (load_router_settings table bus)) (\<lambda>S.
     bindE (process E S event) (\<lambda>processed. retE (200, processed)))"

section \<open>Decoding undoes the encoding of a key\<close>

text \<open>
  The encodings S3 may use for a key: a character stands for itself (other than \<^verbatim>\<open>%\<close> and \<^verbatim>\<open>+\<close>), a
  blank may be written \<^verbatim>\<open>+\<close>, and any ASCII character may be written as a percent escape.
\<close>

inductive url_encodes :: "string \<Rightarrow> string \<Rightarrow> bool" where
  enc_Nil: "url_encodes [] []"
| enc_literal: "url_encodes r s \<Longrightarrow> c \<noteq> CHR ''%'' \<Longrightarrow> c \<noteq> CHR ''+'' \<Longrightarrow> is_ascii c \<Longrightarrow> url_encodes (c # r) (c # s)"
| enc_plus: "url_encodes r s \<Longrightarrow> url_encodes (CHR ''+'' # r) (CHR '' '' # s)"
| enc_escape: "url_encodes r s \<Longrightarrow> hex_val a = Some x \<Longrightarrow> hex_val b = Some y \<Longrightarrow> 16 * x + y < 128 \<Longrightarrow>
     url_encodes (CHR ''%'' # a # b # r) (char_of (16 * x + y) # s)"

definition ascii_decoder :: "(string \<Rightarrow> string) \<Rightarrow> bool" where
  "ascii_decoder dec \<longleftrightarrow> (\<forall>s. list_all is_ascii s \<longrightarrow> dec s = s)"

definition plus_to_blank :: "char \<Rightarrow> char" where
  "plus_to_blank c = (if c = CHR ''+'' then CHR '' '' else c)"

lemma hex_val_ascii: "hex_val c = Some x \<Longrightarrow> is_ascii c \<and> c \<noteq> CHR ''+'' \<and> c \<noteq> CHR ''%''"
  by (auto simp: hex_val_def is_ascii_def Let_def split: if_splits)

lemma percent_decode_literal: "c \<noteq> CHR ''%'' \<Longrightarrow> percent_decode (c # s) = c # percent_decode s"
proof (cases s)
  case (Cons a t)
  assume "c \<noteq> CHR ''%''"
  with Cons show ?thesis by (cases t) simp_all
qed simp

lemma url_encodes_decode:
  assumes "url_encodes r s"
  shows "percent_decode (map plus_to_blank r) = s \<and> list_all is_ascii (map plus_to_blank r) \<and> list_all is_ascii s"
  using assms
proof (induction rule: url_encodes.induct)
  case (enc_escape r s a x b y)
  have "plus_to_blank a = a" "plus_to_blank b = b" "is_ascii a" "is_ascii b"
    using hex_val_ascii [OF enc_escape(2)] hex_val_ascii [OF enc_escape(3)] by (auto simp: plus_to_blank_def)
  moreover have "is_ascii (char_of (16 * x + y))" using enc_escape(4) by (simp add: is_ascii_def)
  moreover have "is_ascii (CHR ''%'')" by (simp add: is_ascii_def)
  ultimately show ?case using enc_escape by (simp add: plus_to_blank_def [of "CHR ''%''"])
next
  case (enc_plus r s)
  moreover have "is_ascii (CHR '' '')" by (simp add: is_ascii_def)
  ultimately show ?case by (simp add: plus_to_blank_def [of "CHR ''+''"] percent_decode_literal)
next
  case (enc_literal r s c)
  then show ?case by (simp add: plus_to_blank_def [of c] percent_decode_literal)
qed simp

lemma percent_decode_none: "CHR ''%'' \<notin> set s \<Longrightarrow> percent_decode s = s"
proof (induction s)
  case (Cons c s)
  then have "c \<noteq> CHR ''%''" by auto
  with Cons show ?case by (simp add: percent_decode_literal)
qed simp

lemma unquote_plus_encoded:
  assumes "url_encodes raw key" "ascii_decoder dec"
  shows "unquote_plus dec raw = key"
proof -
  let ?m = "map plus_to_blank raw"
  have m: "percent_decode ?m = key" "list_all is_ascii ?m" "list_all is_ascii key"
    using url_encodes_decode [OF assms(1)] by auto
  have eq: "unquote_plus dec raw = unquote dec ?m"
    unfolding unquote_plus_def plus_to_blank_def ..
  show ?thesis
  proof (cases "CHR ''%'' \<in> set ?m")
    case False
    with m(1) percent_decode_none eq show ?thesis by (simp add: unquote_def)
  next
    case True
    then obtain c s where cs: "?m = c # s" by (cases ?m) auto
    with m(2) have all: "is_ascii c" "takeWhile is_ascii (c # s) = c # s" "dropWhile is_ascii s = []"
      by (auto simp: list_all_iff takeWhile_eq_all_conv)
    have "dec key = key" using assms(2) m(3) by (simp add: ascii_decoder_def)
    moreover have "unquote_runs dec ?m = dec (percent_decode ?m)"
      unfolding cs unquote_runs.simps(2) all by (simp add: all)
    ultimately show ?thesis using True m(1) eq by (simp add: unquote_def)
  qed
qed

lemma split_key:
  assumes "CHR ''/'' \<notin> set u" "CHR ''/'' \<notin> set i"
  shows "split_char (CHR ''/'') 2 (u @ ''/'' @ i @ ''/'' @ f) = [u, i, f]"
proof -
  have "split_char (CHR ''/'') (Suc (Suc 0)) (u @ CHR ''/'' # (i @ CHR ''/'' # f)) = [u, i, f]"
    by (simp only: split_char_cut [OF assms(1)] split_char_cut [OF assms(2)] split_char.simps(1))
  then show ?thesis by (simp add: numeral_2_eq_2)
qed

text \<open>
  C39. The router recovers what the ingestion API put into an object key: for a user and an ingestion
  identifier without slashes, any file name and any URL encoding of the key, parsing yields the two
  identifiers and the sanitised file name.
\<close>

theorem object_key_roundtrip:
  assumes "url_encodes raw (build_object_key u i f)" "ascii_decoder dec"
    and "u \<noteq> []" "i \<noteq> []" "CHR ''/'' \<notin> set u" "CHR ''/'' \<notin> set i"
  shows "parse_object_key dec raw =
     Some \<lparr>pk_user_id = u, pk_ingestion_id = i, pk_filename = sanitize_filename f\<rparr>"
proof -
  have ne: "sanitize_filename f \<noteq> []" by (auto simp: sanitize_filename_def Let_def)
  have dec: "unquote_plus dec raw = ''audio/'' @ u @ ''/'' @ i @ ''/'' @ sanitize_filename f"
    using unquote_plus_encoded [OF assms(1,2)] by (simp add: build_object_key_def)
  have "starts_with (''audio/'' @ x) ''audio/''" "drop 6 (''audio/'' @ x) = x" for x
    by (simp_all add: starts_with_def)
  with dec split_key [OF assms(5,6), of "sanitize_filename f"] assms(3,4) ne show ?thesis
    by (simp add: parse_object_key_def Let_def del: append.simps append_Cons split_char.simps add: append_Nil)
qed

text \<open>Parsing is exact: a parsed key is the decoded key, cut at its first three slashes.\<close>

lemma parse_object_key_sound:
  assumes "parse_object_key dec raw = Some p"
  shows "unquote_plus dec raw = ''audio/'' @ pk_user_id p @ ''/'' @ pk_ingestion_id p @ ''/'' @ pk_filename p"
    and "pk_user_id p \<noteq> []" "pk_ingestion_id p \<noteq> []" "pk_filename p \<noteq> []"
    and "CHR ''/'' \<notin> set (pk_user_id p)" "CHR ''/'' \<notin> set (pk_ingestion_id p)"
proof -
  let ?d = "unquote_plus dec raw"
  have pre: "starts_with ?d ''audio/''" using assms by (auto simp: parse_object_key_def Let_def split: if_splits)
  then obtain u i f where cut: "split_char (CHR ''/'') (Suc (Suc 0)) (drop 6 ?d) = [u, i, f]"
    and p: "p = \<lparr>pk_user_id = u, pk_ingestion_id = i, pk_filename = f\<rparr>" "u \<noteq> []" "i \<noteq> []" "f \<noteq> []"
    using assms unfolding parse_object_key_def Let_def numeral_2_eq_2
    by (auto simp del: split_char.simps split: list.split_asm if_split_asm)
  obtain r1 where r1: "drop 6 ?d = u @ CHR ''/'' # r1" "CHR ''/'' \<notin> set u"
    "split_char (CHR ''/'') (Suc 0) r1 = [i, f]"
    using split_char_Cons [OF cut] by auto
  obtain r2 where r2: "r1 = i @ CHR ''/'' # r2" "CHR ''/'' \<notin> set i" "split_char (CHR ''/'') 0 r2 = [f]"
    using split_char_Cons [OF r1(3)] by auto
  have "take 6 ?d = ''audio/''" using pre by (simp add: starts_with_def eval_nat_numeral)
  then have "?d = ''audio/'' @ drop 6 ?d" by (metis append_take_drop_id)
  with r1 r2 p show "?d = ''audio/'' @ pk_user_id p @ ''/'' @ pk_ingestion_id p @ ''/'' @ pk_filename p"
    and "pk_user_id p \<noteq> []" "pk_ingestion_id p \<noteq> []" "pk_filename p \<noteq> []"
    and "CHR ''/'' \<notin> set (pk_user_id p)" "CHR ''/'' \<notin> set (pk_ingestion_id p)"
    by auto
qed

section \<open>What one notification does\<close>

definition router_row :: "'t db_view \<Rightarrow> router_settings \<Rightarrow> parsed_key \<Rightarrow> 't world \<Rightarrow> item option" where
  "router_row V S p w = rows V w (ddb_ingestion_table S) (ingestion_key (pk_user_id p) (pk_ingestion_id p))"

text \<open>The row waits for its upload.\<close>

definition awaits_upload :: "item option \<Rightarrow> bool" where
  "awaits_upload r \<longleftrightarrow> (\<exists>row. r = Some row \<and> map_of row ''pk'' \<noteq> None \<and> map_of row ''sk'' \<noteq> None \<and>
     map_of row ''status'' = Some (PStr ''pending''))"

definition is_uploaded :: "item option \<Rightarrow> bool" where
  "is_uploaded r \<longleftrightarrow> (\<exists>row. r = Some row \<and> map_of row ''status'' = Some (PStr ''uploaded''))"

lemma uploaded_not_awaiting: "is_uploaded r \<Longrightarrow> \<not> awaits_upload r"
  by (auto simp: is_uploaded_def awaits_upload_def)

lemma mark_condition_awaits: "eval_cond mark_condition (row_attrs r) \<longleftrightarrow> awaits_upload r"
  by (cases r) (auto simp: mark_condition_def awaits_upload_def)

lemma record_exists_cases:
  assumes "ddb_ok E V" "record_exists E S p w = (r, w')"
  shows "rows V w' = rows V w" "trace w' = trace w" "r = Inr b \<Longrightarrow> b = (router_row V S p w \<noteq> None)"
proof -
  obtain g w1 where g: "get_item E (ddb_ingestion_table S) (ingestion_key (pk_user_id p) (pk_ingestion_id p)) w = (g, w1)"
    by fastforce
  note get = get_item_cases [OF assms(1) g]
  from assms(2) g show "rows V w' = rows V w" "trace w' = trace w"
    using get by (auto simp: record_exists_def bindE_def retE_def split: sum.splits)
  from assms(2) g show "r = Inr b \<Longrightarrow> b = (router_row V S p w \<noteq> None)"
    using get by (auto simp: record_exists_def bindE_def retE_def router_row_def split: sum.splits)
qed

lemma emit_unknown_cases:
  assumes "emit_unknown E S reason w = (r, w')"
  shows "rows V w' = rows V w" "trace w' = trace w @ [PutMetric (metric_namespace S) ''unknown_record'' reason]"
proof -
  obtain q w1 where q: "invoke E (PutMetric (metric_namespace S) ''unknown_record'' reason) w = (q, w1)" by fastforce
  with assms have "w' = w1"
    by (auto simp: emit_unknown_def tryE_def retE_def raiseE_def split: sum.splits if_splits)
  with invoke_cases [OF q] show "rows V w' = rows V w"
    "trace w' = trace w @ [PutMetric (metric_namespace S) ''unknown_record'' reason]" by auto
qed

lemma mark_uploaded_cases:
  assumes "ddb_ok E V" "mark_uploaded E S p w = (r, w')"
  shows "(awaits_upload (router_row V S p w) \<and> is_uploaded (router_row V S p w') \<and> trace w' = trace w \<and>
           (\<forall>k tbl. tbl \<noteq> ddb_ingestion_table S \<or> k \<noteq> ingestion_key (pk_user_id p) (pk_ingestion_id p) \<longrightarrow>
              rows V w' tbl k = rows V w tbl k) \<and> r \<noteq> Inr False) \<or>
         (rows V w' = rows V w \<and> r \<noteq> Inr True \<and>
           (trace w' = trace w \<or> trace w' = trace w @ [PutMetric (metric_namespace S) ''unknown_record'' ''record_missing'']))"
proof -
  let ?T = "ddb_ingestion_table S" and ?key = "ingestion_key (pk_user_id p) (pk_ingestion_id p)"
  obtain now w1 where now: "utcnow E w = (Inr now, w1)" by (simp add: utcnow_def tick_def)
  then have w1: "rows V w1 = rows V w" "trace w1 = trace w" by (simp_all add: utcnow_def tick_cases)
  let ?us = "[SetAttr ''status'' (PStr ''uploaded''), SetAttr ''updated_at'' (PStr (isoformat now))]"
  obtain q w2 where u: "update_item E ?T ?key ?us mark_condition w1 = (q, w2)" by fastforce
  note upd = update_item_cases [OF assms(1) u]
  define moved where "moved = (awaits_upload (router_row V S p w) \<and>
      rows V w2 = store_row (rows V w) ?T ?key (updated_row ?key ?us (rows V w ?T ?key)))"
  have movedD: "is_uploaded (router_row V S p w2) \<and>
      (\<forall>k tbl. tbl \<noteq> ?T \<or> k \<noteq> ?key \<longrightarrow> rows V w2 tbl k = rows V w tbl k)" if moved
    using that by (auto simp: moved_def router_row_def is_uploaded_def store_row_apply updated_row_def)
  have out: "write_outcome (awaits_upload (router_row V S p w)) (rows V w)
      (store_row (rows V w) ?T ?key (updated_row ?key ?us (rows V w ?T ?key))) q (rows V w2)"
    using upd(1) by (simp add: w1 mark_condition_awaits router_row_def)
  show ?thesis
  proof (cases q)
    case (Inr it)
    with out have moved by (simp add: moved_def write_outcome_simps)
    moreover have "r = Inr True" "w' = w2"
      using assms(2) now u Inr by (simp_all add: mark_uploaded_def bindE_def tryE_def retE_def)
    ultimately show ?thesis using movedD upd(3) w1 by (auto simp: moved_def)
  next
    case (Inl e)
    show ?thesis
    proof (cases "is_ccf e")
      case False
      then have "r = Inl e" "w' = w2"
        using assms(2) now u Inl by (simp_all add: mark_uploaded_def bindE_def tryE_def raiseE_def)
      moreover have "rows V w2 = rows V w \<or> moved" using out Inl False by (simp add: moved_def write_outcome_simps)
      ultimately show ?thesis using movedD upd(3) w1 by (auto simp: moved_def)
    next
      case True
      with out Inl have same: "rows V w2 = rows V w" by (simp add: write_outcome_simps)
      obtain b w3 where ex: "record_exists E S p w2 = (b, w3)" by fastforce
      note exs = record_exists_cases(1,2) [OF assms(1) ex]
      show ?thesis
      proof (cases "b = Inr False")
        case False
        then have "w' = w3" "r \<noteq> Inr True"
          using assms(2) now u Inl True ex
          by (auto simp: mark_uploaded_def bindE_def tryE_def retE_def split: sum.splits if_splits)
        with same exs upd(3) w1 show ?thesis by simp
      next
        case missing: True
        obtain m w4 where em: "emit_unknown E S ''record_missing'' w3 = (m, w4)" by fastforce
        have "w' = w4" "r \<noteq> Inr True"
          using assms(2) now u Inl True ex missing em
          by (auto simp: mark_uploaded_def bindE_def tryE_def retE_def split: sum.splits)
        with same exs upd(3) w1 emit_unknown_cases(1) [OF em, of V] emit_unknown_cases(2) [OF em] show ?thesis by simp
      qed
    qed
  qed
qed

text \<open>
  The database's answer to the conditional write of the mark, and the move itself: a row waiting for its
  upload gets the status \<^verbatim>\<open>uploaded\<close> and the time of the update; its other attributes and every other
  row stay.
\<close>

definition mark_answer :: "'t env \<Rightarrow> router_settings \<Rightarrow> parsed_key \<Rightarrow> 't world \<Rightarrow> exn + item" where
  "mark_answer E S p w =
     fst (update_item E (ddb_ingestion_table S) (ingestion_key (pk_user_id p) (pk_ingestion_id p))
       [SetAttr ''status'' (PStr ''uploaded''), SetAttr ''updated_at'' (PStr (isoformat (clock E (ticks w))))]
       mark_condition (w\<lparr>ticks := Suc (ticks w)\<rparr>))"

definition row_moved :: "'t db_view \<Rightarrow> router_settings \<Rightarrow> parsed_key \<Rightarrow> int \<Rightarrow> 't world \<Rightarrow> 't world \<Rightarrow> bool" where
  "row_moved V S p now w w' \<longleftrightarrow>
     (\<exists>row. router_row V S p w = Some row \<and> awaits_upload (Some row) \<and>
        rows V w' = store_row (rows V w) (ddb_ingestion_table S) (ingestion_key (pk_user_id p) (pk_ingestion_id p))
          (apply_upds [SetAttr ''status'' (PStr ''uploaded''), SetAttr ''updated_at'' (PStr (isoformat now))] row))"

lemma mark_uploaded_answer:
  assumes "ddb_ok E V" "mark_uploaded E S p w = (r, w')"
  shows "case mark_answer E S p w of
      Inr _ \<Rightarrow> r = Inr True \<and> trace w' = trace w \<and> row_moved V S p (clock E (ticks w)) w w'
    | Inl e \<Rightarrow> r \<noteq> Inr True \<and>
        (if is_ccf e
         then \<not> awaits_upload (router_row V S p w) \<and> rows V w' = rows V w \<and>
              (trace w' = trace w \<or> trace w' = trace w @ [PutMetric (metric_namespace S) ''unknown_record'' ''record_missing''])
         else r = Inl e \<and> trace w' = trace w \<and> (rows V w' = rows V w \<or> row_moved V S p (clock E (ticks w)) w w'))"
proof -
  let ?T = "ddb_ingestion_table S" and ?key = "ingestion_key (pk_user_id p) (pk_ingestion_id p)"
  let ?now = "clock E (ticks w)"
  define w1 where "w1 = w\<lparr>ticks := Suc (ticks w)\<rparr>"
  have now: "utcnow E w = (Inr ?now, w1)" by (simp add: utcnow_def tick_def w1_def)
  have w1: "rows V w1 = rows V w" "trace w1 = trace w" by (simp_all add: w1_def)
  let ?us = "[SetAttr ''status'' (PStr ''uploaded''), SetAttr ''updated_at'' (PStr (isoformat ?now))]"
  obtain q w2 where u: "update_item E ?T ?key ?us mark_condition w1 = (q, w2)" by fastforce
  then have q: "mark_answer E S p w = q" by (simp add: mark_answer_def w1_def)
  note upd = update_item_cases [OF assms(1) u]
  have out: "write_outcome (awaits_upload (router_row V S p w)) (rows V w)
      (store_row (rows V w) ?T ?key (updated_row ?key ?us (rows V w ?T ?key))) q (rows V w2)"
    using upd(1) by (simp add: w1 mark_condition_awaits router_row_def)
  have moved: "row_moved V S p ?now w w2" if "awaits_upload (router_row V S p w)"
      "rows V w2 = store_row (rows V w) ?T ?key (updated_row ?key ?us (rows V w ?T ?key))"
    using that by (auto simp: row_moved_def router_row_def awaits_upload_def updated_row_def)
  show ?thesis
  proof (cases q)
    case (Inr it)
    with assms(2) now u have "r = Inr True" "w' = w2" by (simp_all add: mark_uploaded_def bindE_def tryE_def retE_def)
    with out Inr moved upd(3) w1 show ?thesis by (simp add: q write_outcome_simps)
  next
    case (Inl e)
    show ?thesis
    proof (cases "is_ccf e")
      case False
      with assms(2) now u Inl have "r = Inl e" "w' = w2"
        by (simp_all add: mark_uploaded_def bindE_def tryE_def raiseE_def)
      with out Inl False moved upd(3) w1 show ?thesis by (auto simp: q write_outcome_simps)
    next
      case True
      with out Inl have same: "rows V w2 = rows V w" "\<not> awaits_upload (router_row V S p w)"
        by (simp_all add: write_outcome_simps)
      have "r \<noteq> Inr True"
        using assms(2) now u Inl True
        by (auto simp: mark_uploaded_def bindE_def tryE_def retE_def split: sum.splits prod.splits if_splits)
      with same mark_uploaded_cases [OF assms] Inl True show ?thesis by (simp add: q)
    qed
  qed
qed

section \<open>Properties: publication\<close>

definition published :: "call list \<Rightarrow> bool" where
  "published calls \<longleftrightarrow> (\<exists>s d det b. PutEvents s d det b \<in> set calls)"

lemma handle_one_cases:
  assumes "ddb_ok E V" "handle_one E S raw w = (r, w')"
  obtains (silent) "\<not> published (new_calls w w')" "r \<noteq> Inr True"
      "rows V w' = rows V w \<or> (\<exists>p. parse_object_key (utf8 E) raw = Some p \<and> awaits_upload (router_row V S p w) \<and>
         is_uploaded (router_row V S p w'))"
  | (sent) p where "parse_object_key (utf8 E) raw = Some p" "awaits_upload (router_row V S p w)"
      "is_uploaded (router_row V S p w')" "new_calls w w' = [publish_call S p]"
      "r = (case svc E (trace w) (publish_call S p) of Inl e \<Rightarrow> Inl e | Inr _ \<Rightarrow> Inr True)"
      "\<forall>k tbl. tbl \<noteq> ddb_ingestion_table S \<or> k \<noteq> ingestion_key (pk_user_id p) (pk_ingestion_id p) \<longrightarrow>
         rows V w' tbl k = rows V w tbl k"
proof (cases "parse_object_key (utf8 E) raw")
  case None
  obtain m w1 where em: "emit_unknown E S ''unparseable_key'' w = (m, w1)" by fastforce
  have "w' = w1" "r \<noteq> Inr True"
    using assms(2) None em by (auto simp: handle_one_def bindE_def retE_def split: sum.splits)
  then show ?thesis
    using silent emit_unknown_cases(1) [OF em, of V] emit_unknown_cases(2) [OF em]
    by (simp add: new_calls_def published_def)
next
  case (Some p)
  obtain m w1 where mk: "mark_uploaded E S p w = (m, w1)" by fastforce
  note marked = mark_uploaded_cases [OF assms(1) mk]
  show ?thesis
  proof (cases "m = Inr True")
    case False
    then have "w' = w1" "r \<noteq> Inr True"
      using assms(2) Some mk by (auto simp: handle_one_def bindE_def retE_def split: sum.splits)
    then show ?thesis
      using silent marked Some by (auto simp: new_calls_def published_def)
  next
    case True
    have pub: "w' = w1\<lparr>trace := trace w1 @ [publish_call S p]\<rparr>"
      "r = (case svc E (trace w1) (publish_call S p) of Inl e \<Rightarrow> Inl e | Inr _ \<Rightarrow> Inr True)"
      using assms(2) Some mk True
      by (auto simp: handle_one_def bindE_def retE_def publish_audio_uploaded_def invoke_def split: sum.splits)
    with marked True show ?thesis
      by (intro sent [OF Some]) (auto simp: new_calls_def router_row_def)
  qed
qed

text \<open>
  C4. What one notification does, for every key and every answer of the database. The event of the
  parsed user, ingestion and file is published exactly when the conditional write of the mark was answered
  with success; then the row was waiting for its upload and has become \<^verbatim>\<open>uploaded\<close>, no other attribute but
  the time of the update and no other row changed, the event is the only call, and success is reported
  exactly when EventBridge took it. A key that does not parse, or a row that is not waiting, writes nothing
  and at most counts an unknown record. The one other ending is a write whose answer was lost (neither
  success nor the condition failure): nothing is published, its exception ends the invocation, and
  the row is as it was or has been moved.
\<close>

theorem handle_one_publication:
  assumes "ddb_ok E V" "handle_one E S raw w = (r, w')"
  shows "case parse_object_key (utf8 E) raw of
     None \<Rightarrow> r \<noteq> Inr True \<and> rows V w' = rows V w \<and>
       new_calls w w' = [PutMetric (metric_namespace S) ''unknown_record'' ''unparseable_key'']
   | Some p \<Rightarrow>
       (case mark_answer E S p w of
          Inr _ \<Rightarrow> row_moved V S p (clock E (ticks w)) w w' \<and> new_calls w w' = [publish_call S p] \<and>
            r = (case svc E (trace w) (publish_call S p) of Inl e \<Rightarrow> Inl e | Inr _ \<Rightarrow> Inr True)
        | Inl e \<Rightarrow> r \<noteq> Inr True \<and>
            (if is_ccf e
             then \<not> awaits_upload (router_row V S p w) \<and> rows V w' = rows V w \<and>
               new_calls w w' \<in> {[], [PutMetric (metric_namespace S) ''unknown_record'' ''record_missing'']}
             else r = Inl e \<and> new_calls w w' = [] \<and>
               (rows V w' = rows V w \<or> row_moved V S p (clock E (ticks w)) w w')))"
proof (cases "parse_object_key (utf8 E) raw")
  case None
  obtain m w1 where em: "emit_unknown E S ''unparseable_key'' w = (m, w1)" by fastforce
  have "w' = w1" "r \<noteq> Inr True"
    using assms(2) None em by (auto simp: handle_one_def bindE_def retE_def split: sum.splits)
  then show ?thesis
    using None emit_unknown_cases(1) [OF em, of V] emit_unknown_cases(2) [OF em] by (simp add: new_calls_def)
next
  case (Some p)
  obtain m w1 where mk: "mark_uploaded E S p w = (m, w1)" by fastforce
  note marked = mark_uploaded_answer [OF assms(1) mk]
  show ?thesis
  proof (cases "mark_answer E S p w")
    case (Inl e)
    then have "m \<noteq> Inr True" using marked by simp
    then have "w' = w1" "r \<noteq> Inr True" "\<forall>x. m = Inl x \<longrightarrow> r = Inl x"
      using assms(2) Some mk by (auto simp: handle_one_def bindE_def retE_def split: sum.splits)
    then show ?thesis using Some Inl marked by (auto simp: new_calls_def split: if_splits)
  next
    case (Inr it)
    have "w' = w1\<lparr>trace := trace w1 @ [publish_call S p]\<rparr>"
      "r = (case svc E (trace w1) (publish_call S p) of Inl e \<Rightarrow> Inl e | Inr _ \<Rightarrow> Inr True)"
      using assms(2) Some mk Inr marked
      by (auto simp: handle_one_def bindE_def retE_def publish_audio_uploaded_def invoke_def split: sum.splits)
    then show ?thesis using Some Inr marked by (simp add: new_calls_def row_moved_def)
  qed
qed

text \<open>
  Redelivery is idempotent: a notification for a row that is \<^verbatim>\<open>uploaded\<close> already publishes
  nothing, does not report success and leaves every row as it is.
\<close>

lemma redelivery_publishes_nothing:
  assumes "ddb_ok E V" "parse_object_key (utf8 E) raw = Some p" "is_uploaded (router_row V S p w)"
    and "handle_one E S raw w = (r, w')"
  shows "\<not> published (new_calls w w') \<and> r \<noteq> Inr True \<and> rows V w' = rows V w"
  using assms(1,4)
proof (cases rule: handle_one_cases)
  case silent
  with assms(2,3) uploaded_not_awaiting show ?thesis by auto
next
  case (sent q)
  with assms(2,3) uploaded_not_awaiting show ?thesis by auto
qed

text \<open>
  The two steps are not one: when EventBridge rejects the event after the row was marked, the
  invocation fails with the row \<^verbatim>\<open>uploaded\<close>, and every redelivery that finds the rows as they were
  left publishes nothing, so no event for this upload is ever published again.
\<close>

lemma rejected_event_is_lost:
  assumes "ddb_ok E V" "parse_object_key (utf8 E) raw = Some p"
    and "handle_one E S raw w = (Inl e, w1)" "published (new_calls w w1)"
    and "rows V w2 = rows V w1" "handle_one E S raw w2 = (r, w3)"
  shows "is_uploaded (router_row V S p w1) \<and> \<not> published (new_calls w2 w3) \<and> r \<noteq> Inr True"
proof -
  have up: "is_uploaded (router_row V S p w1)"
    using assms(1,3)
  proof (cases rule: handle_one_cases)
    case silent
    with assms(4) show ?thesis by simp
  next
    case (sent q)
    with assms(2) show ?thesis by simp
  qed
  then have "is_uploaded (router_row V S p w2)" using assms(5) by (simp add: router_row_def)
  from assms(1,6) have "\<not> published (new_calls w2 w3) \<and> r \<noteq> Inr True"
  proof (cases rule: handle_one_cases)
    case silent
    then show ?thesis by simp
  next
    case (sent q)
    with \<open>is_uploaded (router_row V S p w2)\<close> assms(2) uploaded_not_awaiting show ?thesis by auto
  qed
  with up show ?thesis by simp
qed

section \<open>Witnesses\<close>

definition router_demo_settings :: router_settings where
  "router_demo_settings = \<lparr>ddb_ingestion_table = ''t'', eventbridge_bus_name = ''bus'',
     metric_namespace = ''m'', event_source = ''panakoes.ingest'', event_detail_type = ''AudioUploaded''\<rparr>"

definition router_demo_world :: "string \<Rightarrow> mem world" where
  "router_demo_world st = \<lparr>db = (\<lambda>tbl k. if tbl = ''t'' \<and> k = ingestion_key ''u'' ''i''
       then Some [(''pk'', PStr (user_pk ''u'')), (''sk'', PStr (ingestion_sk ''i'')), (''status'', PStr st)]
       else None), trace = [], ticks = 0\<rparr>"

definition demo_parsed :: parsed_key where
  "demo_parsed = \<lparr>pk_user_id = ''u'', pk_ingestion_id = ''i'', pk_filename = ''a.wav''\<rparr>"

theorem object_key_roundtrip_witness:
  "parse_object_key (\<lambda>s. s) ''audio/u/%69/a.wav'' = Some demo_parsed"
proof -
  have lit: "\<And>r s c. url_encodes r s \<Longrightarrow> c \<noteq> CHR ''%'' \<and> c \<noteq> CHR ''+'' \<and> is_ascii c \<Longrightarrow> url_encodes (c # r) (c # s)"
    by (simp add: enc_literal)
  have char_i: "char_of (105 :: nat) = CHR ''i''" by code_simp
  have esc: "url_encodes (CHR ''%'' # CHR ''6'' # CHR ''9'' # r) (CHR ''i'' # s)" if "url_encodes r s" for r s
    using enc_escape [OF that, of "CHR ''6''" 6 "CHR ''9''" 9] by (simp add: hex_val_def char_i)
  have san: "sanitize_filename ''a.wav'' = ''a.wav''" by code_simp
  have "url_encodes ''audio/u/%69/a.wav'' (build_object_key ''u'' ''i'' ''a.wav'')"
    unfolding build_object_key_def san append.simps
    by (intro lit esc enc_Nil) (simp_all add: is_ascii_def)
  from object_key_roundtrip [OF this, of "\<lambda>s. s"] show ?thesis
    by (simp add: ascii_decoder_def san demo_parsed_def)
qed

lemma demo_parse: "parse_object_key (\<lambda>s. s) ''audio/u/i/a.wav'' = Some demo_parsed"
  by code_simp

definition router_env :: "(call list \<Rightarrow> call \<Rightarrow> exn + pyval) \<Rightarrow> mem env" where
  "router_env answer = ing_demo_env answer"

lemma router_env_simps: "ddb_ok (router_env a) mem_view" "utf8 (router_env a) = (\<lambda>s. s)" "svc (router_env a) = a"
  unfolding router_env_def by (rule ing_demo_ok) (simp_all add: ing_demo_env_def mem_env_def)

lemma router_env_update: "update_item (router_env a) tbl k us c w =
  (let row = db w tbl (ddb_item k); new = updated_row k us row in
   if eval_cond c (row_attrs row) then (Inr new, w\<lparr>db := store_row (db w) tbl (ddb_item k) new\<rparr>)
   else (Inl (ClientError ccf_code []), w))"
  by (simp add: update_item_def on_db_def router_env_def ing_demo_env_def mem_env_def Let_def)

lemma router_demo_run:
  "\<exists>w'. handle_one (router_env a) router_demo_settings ''audio/u/i/a.wav'' (router_demo_world ''pending'') =
     ((case a [] (publish_call router_demo_settings demo_parsed) of Inl e \<Rightarrow> Inl e | Inr _ \<Rightarrow> Inr True), w') \<and>
     trace w' = [publish_call router_demo_settings demo_parsed]"
proof -
  have aw: "eval_cond mark_condition [(''pk'', PStr (user_pk ''u'')), (''sk'', PStr (ingestion_sk ''i'')),
      (''status'', PStr ''pending'')]" by (simp add: mark_condition_def)
  show ?thesis
    by (simp add: handle_one_def router_env_simps demo_parse mark_uploaded_def bindE_def tryE_def utcnow_def tick_def
        router_env_update Let_def router_demo_world_def router_demo_settings_def demo_parsed_def aw retE_def
        publish_audio_uploaded_def invoke_def split: sum.split)
qed

theorem handle_one_publication_witness:
  "\<exists>w'. handle_one (router_env (\<lambda>_ _. Inr PNone)) router_demo_settings ''audio/u/i/a.wav''
      (router_demo_world ''pending'') = (Inr True, w') \<and>
     row_moved mem_view router_demo_settings demo_parsed 0 (router_demo_world ''pending'') w' \<and>
     new_calls (router_demo_world ''pending'') w' = [publish_call router_demo_settings demo_parsed]"
proof -
  let ?E = "router_env (\<lambda>_ _. Inr PNone)" and ?w = "router_demo_world ''pending''"
  obtain w' where run: "handle_one ?E router_demo_settings ''audio/u/i/a.wav'' ?w = (Inr True, w')"
    using router_demo_run [of "\<lambda>_ _. Inr PNone"] by auto
  have "\<exists>it. mark_answer ?E router_demo_settings demo_parsed ?w = Inr it"
    by (simp add: mark_answer_def router_env_update Let_def router_demo_world_def router_demo_settings_def
        demo_parsed_def mark_condition_def)
  moreover have "clock ?E (ticks ?w) = 0" by (simp add: router_env_def ing_demo_env_def mem_env_def)
  ultimately show ?thesis
    using handle_one_publication [OF router_env_simps(1) run] run demo_parse
    by (auto simp: router_env_simps(2))
qed

end
