(* ===== verification/Transcribe_Worker.thy ===== *)
theory Transcribe_Worker
  imports Event_Router
begin

text \<open>
  The transcribe worker (\<^verbatim>\<open>services/transcribe-worker\<close>): SQS records with S3 events inside
  (\<^verbatim>\<open>handler.py\<close>), the AWS Batch submission (\<^verbatim>\<open>batch_dispatch.py\<close>), and the partial-batch response. The
  key parser is the one of the event router; \<open>loads\<close> is \<^verbatim>\<open>json.loads\<close> (\<open>None\<close> for its exceptions) and
  \<open>backend_of\<close> the transcription backend that a constructed transcriber stands for.
\<close>

record worker_settings =
  wk_table :: string
  wk_bucket :: string

record worker_env =
  we_backend :: "string option"
  we_queue :: "string option"
  we_definition :: "string option"
  we_transcriber :: transcriber_env
  loads :: "string \<Rightarrow> pyval option"
  backend_of :: "transcriber \<Rightarrow> backend"

definition load_worker_settings :: "string \<Rightarrow> string \<Rightarrow> exn + worker_settings" where
  "load_worker_settings table bucket =
     (if table = [] then Inl (RuntimeError ''DDB_INGESTION_TABLE env var is required'')
      else if bucket = [] then Inl (RuntimeError ''AUDIO_UPLOADS_BUCKET env var is required'')
      else Inr \<lparr>wk_table = table, wk_bucket = bucket\<rparr>)"

section \<open>The message body\<close>

definition first_record :: "pyval list \<Rightarrow> exn + (string \<times> string) option" where
  "first_record records =
     (case records of
        [] \<Rightarrow> Inr None
      | rec # _ \<Rightarrow> (case record_s3 rec of None \<Rightarrow> Inr None | Some s3 \<Rightarrow> bucket_and_key s3))"

definition s3_event_of_payload :: "item \<Rightarrow> exn + (string \<times> string) option" where
  "s3_event_of_payload payload =
     (case (dget payload ''source'' = PStr ''aws.s3'', as_dict (dget payload ''detail'')) of
        (True, Some detail) \<Rightarrow> bucket_and_key detail
      | _ \<Rightarrow>
          (case as_list (dget payload ''Records'') of
             None \<Rightarrow> Inr None
           | Some records \<Rightarrow> first_record records))"

definition extract_s3_event :: "worker_env \<Rightarrow> string \<Rightarrow> exn + (string \<times> string) option" where
  "extract_s3_event W body =
     (case Option.bind (loads W body) as_dict of
        None \<Rightarrow> Inr None
      | Some payload \<Rightarrow> s3_event_of_payload payload)"

section \<open>Batch submission\<close>

definition batch_call :: "worker_env \<Rightarrow> worker_settings \<Rightarrow> string \<Rightarrow> string \<Rightarrow> string \<Rightarrow> call" where
  "batch_call W S user_id ingestion_id s3_input_key =
     BatchSubmit (take 128 (''transcribe-'' @ ingestion_id))
       (case we_queue W of None \<Rightarrow> ''panakoes-dev-transcribe-queue'' | Some q \<Rightarrow> q)
       (case we_definition W of None \<Rightarrow> ''panakoes-dev-transcribe-batch'' | Some d \<Rightarrow> d)
       [(''TARGET_MODE'', ''ingestion''), (''S3_INPUT_BUCKET'', wk_bucket S), (''S3_INPUT_KEY'', s3_input_key),
        (''INGESTION_ID'', ingestion_id), (''USER_ID'', user_id), (''DDB_INGESTION_TABLE'', wk_table S)]"

definition job_id_of :: "string \<Rightarrow> pyval \<Rightarrow> exn + string" where
  "job_id_of ingestion_id resp =
     (case get_attr resp ''jobId'' of
        Inl e \<Rightarrow> Inl e
      | Inr v \<Rightarrow> (case nonempty_str v of
                   None \<Rightarrow> Inl (RuntimeError (''batch.submit_job returned no jobId for ingestion '' @ ingestion_id))
                 | Some j \<Rightarrow> Inr j))"

definition submit_batch_job :: "'t env \<Rightarrow> worker_env \<Rightarrow> worker_settings \<Rightarrow> string \<Rightarrow> string \<Rightarrow> string \<Rightarrow>
    ('t world, string) io" where
  "submit_batch_job E W S user_id ingestion_id s3_input_key =
     tryE (invoke E (batch_call W S user_id ingestion_id s3_input_key))
       (\<lambda>e. raiseE (if is_client_error e then RuntimeError (''batch.submit_job failed for ingestion '' @ ingestion_id @ '': '' @ str_exn E e) else e))
       (\<lambda>resp. liftE (job_id_of ingestion_id resp))"

section \<open>The worker\<close>

fun is_rate_limit :: "exn \<Rightarrow> bool" where
  "is_rate_limit (TranscriberError cls _) = (cls = ''TranscriberRateLimitError'')"
| "is_rate_limit _ = False"

definition backend_name :: "worker_env \<Rightarrow> string" where
  "backend_name W = lower (strip (case we_backend W of None \<Rightarrow> ''groq'' | Some b \<Rightarrow> b))"

text \<open>The synchronous path, from the construction of the transcriber on.\<close>

definition transcribe_now :: "'t env \<Rightarrow> worker_env \<Rightarrow> worker_settings \<Rightarrow> parsed_key \<Rightarrow> ('t world, unit) io" where
  "transcribe_now E W S p =
     bindE (liftE (get_transcriber (we_transcriber W))) (\<lambda>t.
     transcribe_ingestion E (backend_of W t) (wk_table S) (wk_bucket S) (pk_user_id p) (pk_ingestion_id p))"

text \<open>\<open>_dispatch\<close> returns the message identifier when the message must be retried.\<close>

definition dispatch :: "'t env \<Rightarrow> worker_env \<Rightarrow> worker_settings \<Rightarrow> parsed_key \<Rightarrow> pyval \<Rightarrow>
    ('t world, pyval option) io" where
  "dispatch E W S p message_id =
     bindE (ing_get E (wk_table S) (pk_user_id p) (pk_ingestion_id p)) (\<lambda>r.
     (case r of
        None \<Rightarrow> retE None
      | Some record \<Rightarrow>
          if in_transcript_status record = Some TsSucceeded then retE None
          else if in_transcript_status record = Some TsPending then retE None
          else
            bindE (set_transcript_pending E (wk_table S) (pk_user_id p) (pk_ingestion_id p)) (\<lambda>_.
            if backend_name W = ''batch''
            then tryE (submit_batch_job E W S (pk_user_id p) (pk_ingestion_id p) (in_s3_key record))
                   (\<lambda>e. retE (Some message_id))
                   (\<lambda>_. retE None)
            else tryE (transcribe_now E W S p)
                   (\<lambda>e. if is_rate_limit e then retE (Some message_id) else retE None)
                   (\<lambda>_. retE None))))"

definition process_record :: "'t env \<Rightarrow> worker_env \<Rightarrow> worker_settings \<Rightarrow> item \<Rightarrow> ('t world, pyval option) io" where
  "process_record E W S record =
     (let message_id = dget_or record ''messageId'' (PStr []) in
      case nonempty_str (dget_or record ''body'' (PStr [])) of
        None \<Rightarrow> retE None
      | Some body \<Rightarrow>
          bindE (liftE (extract_s3_event W body)) (\<lambda>s3_info.
          (case s3_info of
             None \<Rightarrow> retE None
           | Some (bucket, key) \<Rightarrow>
               if bucket \<noteq> wk_bucket S then retE None
               else (case parse_object_key (utf8 E) key of
                       None \<Rightarrow> retE None
                     | Some parsed \<Rightarrow> dispatch E W S parsed message_id))))"

fun process_records :: "'t env \<Rightarrow> worker_env \<Rightarrow> worker_settings \<Rightarrow> pyval list \<Rightarrow> ('t world, pyval list) io" where
  "process_records E W S [] = retE []"
| "process_records E W S (rec # recs) =
     (case as_dict rec of
        None \<Rightarrow> process_records E W S recs
      | Some record \<Rightarrow>
          bindE (process_record E W S record) (\<lambda>failed_id.
          bindE (process_records E W S recs) (\<lambda>ids.
          retE (case failed_id of None \<Rightarrow> ids | Some m \<Rightarrow> if truthy m then m # ids else ids))))"

text \<open>The response: the identifiers of the messages to retain.\<close>

definition process_event :: "'t env \<Rightarrow> worker_env \<Rightarrow> worker_settings \<Rightarrow> item \<Rightarrow> ('t world, pyval list) io" where
  "process_event E W S event =
     (case as_list (py_or (dget event ''Records'') (PList [])) of
        None \<Rightarrow> retE []
      | Some records \<Rightarrow> process_records E W S records)"

definition worker_lambda_handler :: "'t env \<Rightarrow> worker_env \<Rightarrow> string \<Rightarrow> string \<Rightarrow> item \<Rightarrow> ('t world, pyval list) io" where
  "worker_lambda_handler E W table bucket event =
     bindE (liftE (load_worker_settings table bucket)) (\<lambda>S. process_event E W S event)"

section \<open>Lemmas\<close>

text \<open>The state of the row of a parsed key, as the store decodes it.\<close>

definition upload_status :: "'t env \<Rightarrow> 't db_view \<Rightarrow> worker_settings \<Rightarrow> parsed_key \<Rightarrow> 't world \<Rightarrow>
    transcript_status option \<Rightarrow> bool" where
  "upload_status E V S p w ts \<longleftrightarrow>
     (\<exists>row r. rows V w (wk_table S) (ingestion_key (pk_user_id p) (pk_ingestion_id p)) = Some row \<and>
        ing_from_dynamo E row = Inr r \<and> in_transcript_status r = ts)"

lemma dispatch_skips:
  assumes "ddb_ok E V" "upload_status E V S p w ts" "ts = Some TsPending \<or> ts = Some TsSucceeded"
    and "dispatch E W S p m w = (r, w')"
  shows "rows V w' = rows V w \<and> trace w' = trace w \<and> (r = Inr None \<or> (\<exists>e. r = Inl e))"
proof -
  obtain g w1 where g: "ing_get E (wk_table S) (pk_user_id p) (pk_ingestion_id p) w = (g, w1)" by fastforce
  have same: "rows V w1 = rows V w \<and> trace w1 = trace w"
  proof -
    obtain i w2 where gi: "get_item E (wk_table S) (ingestion_key (pk_user_id p) (pk_ingestion_id p)) w = (i, w2)"
      by fastforce
    with g have "w1 = w2" by (auto simp: ing_get_def bindE_def liftE_def retE_def split: sum.splits option.splits)
    with get_item_cases [OF assms(1) gi] show ?thesis by simp
  qed
  show ?thesis
  proof (cases g)
    case (Inl e)
    with assms(4) g same show ?thesis by (auto simp: dispatch_def bindE_def)
  next
    case (Inr x)
    obtain row rec where row: "rows V w (wk_table S) (ingestion_key (pk_user_id p) (pk_ingestion_id p)) = Some row"
      "ing_from_dynamo E row = Inr rec" "in_transcript_status rec = ts"
      using assms(2) by (auto simp: upload_status_def)
    from ing_get_Inr [OF assms(1) g [unfolded Inr]] row have "x = Some rec" by auto
    with assms(3,4) g Inr row same show ?thesis by (auto simp: dispatch_def bindE_def retE_def)
  qed
qed

lemma submit_batch_job_rows:
  assumes "submit_batch_job E W S u i k w = (r, w')"
  shows "rows V w' = rows V w"
  using assms by (auto simp: submit_batch_job_def tryE_def invoke_def raiseE_def liftE_def split: sum.splits)

text \<open>Exceptions of the table are not those of a transcription backend.\<close>

definition table_errors_plain :: "'t env \<Rightarrow> bool" where
  "table_errors_plain E \<longleftrightarrow>
     (\<forall>tbl k t e t'. d_get E tbl k t = (Inl e, t') \<longrightarrow> \<not> is_rate_limit e) \<and>
     (\<forall>tbl k us c t e t'. d_update E tbl k us c t = (Inl e, t') \<longrightarrow> \<not> is_rate_limit e)"

lemma table_access_plain:
  assumes "table_errors_plain E"
  shows "get_item E tbl k w = (Inl e, w') \<Longrightarrow> \<not> is_rate_limit e"
    and "update_item E tbl k us c w = (Inl e, w') \<Longrightarrow> \<not> is_rate_limit e"
  using assms unfolding table_errors_plain_def get_item_def update_item_def on_db_def
  by (auto split: prod.splits) blast+

lemma ing_get_plain:
  assumes "table_errors_plain E" "ing_get E tbl u i w = (Inl e, w')"
  shows "\<not> is_rate_limit e"
  using assms(2) table_access_plain(1) [OF assms(1)]
  by (auto simp: ing_get_def bindE_Inl_iff liftE_def retE_def ing_from_dynamo_def split: option.splits)

lemma set_transcript_plain:
  assumes "table_errors_plain E"
  shows "set_transcript_failed E tbl u i msg w = (Inl e, w') \<Longrightarrow> \<not> is_rate_limit e"
    and "set_transcript_succeeded E tbl u i t w = (Inl e, w') \<Longrightarrow> \<not> is_rate_limit e"
  using table_access_plain(2) [OF assms]
  by (auto simp: set_transcript_failed_def set_transcript_succeeded_def bindE_Inl_iff retE_def)

lemma transcribe_plain:
  assumes "table_errors_plain E" "transcribe_ingestion E B tbl b u i w = (Inl e, w')"
  shows "\<not> is_rate_limit e"
  using assms(2) ing_get_plain [OF assms(1)] set_transcript_plain [OF assms(1)]
  by (auto simp: transcribe_ingestion_def bindE_Inl_iff retE_def tryE_iff split: option.splits)

lemma get_transcriber_plain: "get_transcriber cfg = Inl e \<Longrightarrow> \<not> is_rate_limit e"
  by (auto simp: get_transcriber_def Let_def split: if_splits)

lemma transcribe_now_plain:
  assumes "table_errors_plain E" "transcribe_now E W S p w = (Inl e, w')"
  shows "\<not> is_rate_limit e"
  using assms(2) get_transcriber_plain transcribe_plain [OF assms(1)]
  by (auto simp: transcribe_now_def bindE_Inl_iff liftE_def)

section \<open>Properties\<close>

text \<open>
  C32. An upload is handed to a backend at most once: for a record whose transcription is pending or
  has succeeded, a redelivered message calls nothing, writes nothing and is acknowledged (unless the
  table itself fails).
\<close>

theorem dispatch_idempotent:
  assumes "ddb_ok E V" "upload_status E V S p w (Some ts)" "ts \<noteq> TsFailed"
    and "dispatch E W S p m w = (r, w')"
  shows "rows V w' = rows V w \<and> trace w' = trace w \<and> r \<noteq> Inr (Some x)"
proof -
  have "Some ts = Some TsPending \<or> Some ts = Some TsSucceeded" using assms(3) by (cases ts) auto
  from dispatch_skips [OF assms(1,2) this assms(4)] show ?thesis by auto
qed

text \<open>
  A batch submission that failed is not retried: the message is handed back to the queue, but the
  row was marked \<^verbatim>\<open>pending\<close> before the submission and stays so, hence every redelivery that finds it
  as it was left is skipped and acknowledged without a submission.
\<close>

lemma failed_submission_is_never_retried:
  assumes "ddb_ok E V" "backend_name W = ''batch''"
    and "dispatch E W S p m w = (Inr (Some m), w1)"
    and "rows V w2 = rows V w1" "dispatch E W S p m' w2 = (r, w3)"
  shows "upload_status E V S p w1 (Some TsPending) \<and> trace w3 = trace w2 \<and> r \<noteq> Inr (Some m')"
proof -
  let ?key = "ingestion_key (pk_user_id p) (pk_ingestion_id p)"
  obtain x w0 where get: "ing_get E (wk_table S) (pk_user_id p) (pk_ingestion_id p) w = (Inr x, w0)"
    using assms(3) by (auto simp: dispatch_def bindE_Inr_iff)
  obtain rec w4 where x: "x = Some rec"
    and upd: "set_transcript_pending E (wk_table S) (pk_user_id p) (pk_ingestion_id p) w0 = (Inr (), w4)"
    and sub: "\<exists>q. submit_batch_job E W S (pk_user_id p) (pk_ingestion_id p) (in_s3_key rec) w4 = (q, w1)"
    using assms(2,3) get
    by (auto simp: dispatch_def bindE_def tryE_def retE_def split: option.splits if_splits sum.splits prod.splits)
  obtain row where row: "rows V w0 (wk_table S) ?key = Some row" "ing_from_dynamo E row = Inr rec"
    using ing_get_Inr [OF assms(1) get] x by (auto split: option.splits)
  have "\<exists>new. rows V w4 = store_row (rows V w0) (wk_table S) ?key new \<and>
      ing_from_dynamo E new = Inr (rec\<lparr>in_transcript_status := Some TsPending, in_transcript_error := None\<rparr>)"
    using set_transcript_pending_Inr [OF assms(1) upd row] by blast
  moreover have "rows V w1 = rows V w4" using sub submit_batch_job_rows by blast
  ultimately have pend: "upload_status E V S p w1 (Some TsPending)"
    by (auto simp: upload_status_def store_row_apply)
  then have "upload_status E V S p w2 (Some TsPending)" using assms(4) by (simp add: upload_status_def)
  from dispatch_skips [OF assms(1) this _ assms(5)] pend show ?thesis by auto
qed

text \<open>
  The synchronous path never asks the queue for a retry, rate limits included: the transcription
  task turns every exception of the backend into a \<^verbatim>\<open>failed\<close> record before the handler for rate limits
  could see it.
\<close>

lemma synchronous_dispatch_never_retries:
  assumes "table_errors_plain E" "backend_name W \<noteq> ''batch''"
    and "dispatch E W S p m w = (Inr r, w')"
  shows "r = None"
  using assms transcribe_now_plain [OF assms(1)]
  by (auto simp: dispatch_def bindE_Inr_iff tryE_iff retE_def split: option.split_asm if_split_asm)

section \<open>Witnesses\<close>

definition worker_demo_settings :: worker_settings where
  "worker_demo_settings = \<lparr>wk_table = ''t'', wk_bucket = ''b''\<rparr>"

definition worker_demo_key :: parsed_key where
  "worker_demo_key = \<lparr>pk_user_id = ''alice'', pk_ingestion_id = ''i'', pk_filename = ''a.wav''\<rparr>"

definition worker_demo_env :: "string \<Rightarrow> backend \<Rightarrow> worker_env" where
  "worker_demo_env name B = \<lparr>we_backend = Some name, we_queue = None, we_definition = None,
     we_transcriber = \<lparr>transcriber_backend = Some name, groq_api_key = Some ''k'', openai_api_key = None,
        openai_installed = False\<rparr>,
     loads = (\<lambda>_. None), backend_of = (\<lambda>_. B)\<rparr>"

definition rate_limited :: backend where
  "rate_limited calls audio fn = Inl (TranscriberError ''TranscriberRateLimitError'' ''slow down'')"

lemma worker_demo_status: "upload_status (ing_demo_env a) mem_view worker_demo_settings worker_demo_key (ing_demo_world ts) ts"
  using ing_demo_decode ing_demo_row_stored
  by (auto simp: upload_status_def worker_demo_settings_def worker_demo_key_def ing_demo_record_def)

lemma ing_demo_plain: "table_errors_plain (ing_demo_env a)"
  by (simp add: table_errors_plain_def ing_demo_env_def mem_env_def Let_def)

lemma worker_demo_decode_pending:
  "ing_from_dynamo (ing_demo_env a) (updated_row (ingestion_key ''alice'' ''i'')
     [SetAttr ''transcript_status'' (PStr ''pending''), RemoveAttr ''transcript_error_message'']
     (Some (ing_demo_row None))) = Inr ((ing_demo_record None)\<lparr>in_transcript_status := Some TsPending,
        in_transcript_error := None\<rparr>)"
  using decode_pending [OF ing_demo_decode] by (simp add: updated_row_def)

theorem dispatch_idempotent_witness:
  "trace (snd (dispatch (ing_demo_env (\<lambda>_ _. Inr PNone)) (worker_demo_env ''batch'' demo_backend) worker_demo_settings
     worker_demo_key (PStr ''m'') (ing_demo_world (Some TsSucceeded)))) = []"
proof -
  obtain r w' where run: "dispatch (ing_demo_env (\<lambda>_ _. Inr PNone)) (worker_demo_env ''batch'' demo_backend)
      worker_demo_settings worker_demo_key (PStr ''m'') (ing_demo_world (Some TsSucceeded)) = (r, w')" by fastforce
  from dispatch_idempotent [OF ing_demo_ok worker_demo_status _ this] run
  show ?thesis by (simp add: ing_demo_world_def)
qed

lemma worker_demo_names: "backend_name (worker_demo_env ''batch'' B) = ''batch''"
  "backend_name (worker_demo_env ''groq'' B) = ''groq''"
  by (simp add: backend_name_def worker_demo_env_def, code_simp)+

end
