(* ===== verification/Pool_Claim.thy ===== *)
theory Pool_Claim
  imports Owner_Scope
begin

text \<open>
  The frame-queue pool of the GPU spawner (\<^verbatim>\<open>gpu-spawner/.../pool_claim.py\<close>): one row per queue, claimed
  by a session through a conditional update, drained, and released through a conditional update. The
  drain loop ends by the monotonic clock; the model runs it with fuel and a theorem below shows
  that no execution with an advancing clock runs out of it.
\<close>

record pool_cfg =
  pool_table :: string
  drain_max_seconds :: rat
  drain_fuel :: nat

record pool_claim_result =
  queue_url :: string
  pool_id :: int

definition pool_key :: "int \<Rightarrow> item" where
  "pool_key i = [(''pool_queue_id'', PInt i)]"

section \<open>Release\<close>

definition release :: "'t env \<Rightarrow> pool_cfg \<Rightarrow> int \<Rightarrow> string \<Rightarrow> ('t world, unit) io" where
  "release E C i session_id =
     tryE (update_item E (pool_table C) (pool_key i) [RemoveAttr ''claimed_by'', RemoveAttr ''claimed_at'']
             (AttrEq ''claimed_by'' (PStr session_id)))
       (\<lambda>e. if is_ccf e then retE () else raiseE e)
       (\<lambda>_. retE ())"

section \<open>Draining a queue\<close>

text \<open>The entries of a batch deletion: messages that carry both identifiers.\<close>

fun drain_entries :: "pyval list \<Rightarrow> exn + (pyval \<times> pyval) list" where
  "drain_entries [] = Inr []"
| "drain_entries (m # ms) =
     (case as_dict m of
        None \<Rightarrow> Inl AttributeError
      | Some d \<Rightarrow>
          (case drain_entries ms of
             Inl e \<Rightarrow> Inl e
           | Inr es \<Rightarrow>
               Inr (if truthy (dget d ''MessageId'') \<and> truthy (dget d ''ReceiptHandle'')
                    then (dget d ''MessageId'', dget d ''ReceiptHandle'') # es else es)))"

definition out_of_fuel :: exn where
  "out_of_fuel = OtherError ''OutOfFuel'' ''drain''"

fun drain_loop :: "'t env \<Rightarrow> string \<Rightarrow> rat \<Rightarrow> nat \<Rightarrow> nat \<Rightarrow> ('t world, nat) io" where
  "drain_loop E url deadline discarded 0 = raiseE out_of_fuel"
| "drain_loop E url deadline discarded (Suc fuel) =
     bindE (tick (monotonic E)) (\<lambda>t.
     if deadline \<le> t then retE discarded
     else
       bindE (invoke E (SqsReceive url 10 0 None)) (\<lambda>resp.
       bindE (liftE (resp_list resp ''Messages'')) (\<lambda>msgs.
       if msgs = [] then retE discarded
       else
         bindE (liftE (drain_entries msgs)) (\<lambda>entries.
         if entries = [] then retE discarded
         else
           bindE (invoke E (SqsDeleteBatch url entries)) (\<lambda>_.
           drain_loop E url deadline (discarded + length entries) fuel)))))"

definition drain :: "'t env \<Rightarrow> pool_cfg \<Rightarrow> string \<Rightarrow> ('t world, nat) io" where
  "drain E C url =
     bindE (tick (monotonic E)) (\<lambda>t. drain_loop E url (t + drain_max_seconds C) 0 (drain_fuel C))"

section \<open>Claim\<close>

fun candidate_ids :: "item list \<Rightarrow> int list" where
  "candidate_ids [] = []"
| "candidate_ids (it # its) =
     (case to_int (dget it ''pool_queue_id'') of
        None \<Rightarrow> candidate_ids its
      | Some i \<Rightarrow> i # candidate_ids its)"

definition scan_unclaimed :: "'t env \<Rightarrow> pool_cfg \<Rightarrow> ('t world, int list) io" where
  "scan_unclaimed E C =
     bindE (scan_items E (pool_table C) (AttrNotExists ''claimed_by'') None) (\<lambda>resp.
     retE (candidate_ids (p_items resp)))"

text \<open>The conditional write, and what follows it when it succeeds.\<close>

definition claim_row :: "'t env \<Rightarrow> pool_cfg \<Rightarrow> string \<Rightarrow> int \<Rightarrow> ('t world, item) io" where
  "claim_row E C session_id i =
     bindE (utcnow E) (\<lambda>now.
     update_item E (pool_table C) (pool_key i)
       [SetAttr ''claimed_by'' (PStr session_id), SetAttr ''claimed_at'' (PStr (isoformat now))]
       (AttrNotExists ''claimed_by''))"

fun claim_loop :: "'t env \<Rightarrow> pool_cfg \<Rightarrow> string \<Rightarrow> int list \<Rightarrow> ('t world, pool_claim_result) io" where
  "claim_loop E C sid [] = raiseE (PoolExhaustedError ''pool exhausted: every candidate lost the conditional race'')"
| "claim_loop E C sid (i # is) =
     tryE (claim_row E C sid i)
       (\<lambda>e. if is_ccf e then claim_loop E C sid is else raiseE e)
       (\<lambda>_.
          bindE (get_item E (pool_table C) (pool_key i)) (\<lambda>row.
          (case nonempty_str (dget (row_attrs row) ''queue_url'') of
             None \<Rightarrow> bindE (release E C i sid) (\<lambda>_. claim_loop E C sid is)
           | Some url \<Rightarrow>
               bindE (drain E C url) (\<lambda>_. retE \<lparr>queue_url = url, pool_id = i\<rparr>))))"

definition claim :: "'t env \<Rightarrow> pool_cfg \<Rightarrow> string \<Rightarrow> ('t world, pool_claim_result) io" where
  "claim E C session_id =
     bindE (scan_unclaimed E C) (\<lambda>candidates.
     if candidates = [] then raiseE (PoolExhaustedError ''pool exhausted: no unclaimed rows'')
     else bindE (tick (\<lambda>n. shuffled E n candidates)) (claim_loop E C session_id))"

section \<open>A claimed row belongs to its session\<close>

datatype pool_call = ClaimCall | ReleaseCall int

fun serve_pool :: "'t env \<Rightarrow> pool_cfg \<Rightarrow> string \<Rightarrow> pool_call \<Rightarrow> ('t world, unit) io" where
  "serve_pool E C sid ClaimCall = bindE (claim E C sid) (\<lambda>_. retE ())"
| "serve_pool E C sid (ReleaseCall i) = release E C i sid"

definition claimed_by :: "string \<Rightarrow> item \<Rightarrow> item \<Rightarrow> bool" where
  "claimed_by sid k row \<longleftrightarrow> map_of row ''claimed_by'' = Some (PStr sid)"

lemma keeps_release:
  assumes "ddb_ok E V"
  shows "keeps (rows_rel V (rows_protected (pool_table C) claimed_by sid)) (release E C i sid)"
  unfolding release_def
  by (auto intro!: keeps_intros rows_protected_preorder keeps_update_item [OF assms]
      simp: rows_protected_def claimed_by_def store_row_apply)

lemma keeps_claim_row:
  assumes "ddb_ok E V"
  shows "keeps (rows_rel V (rows_protected (pool_table C) claimed_by sid)) (claim_row E C sid i)"
  unfolding claim_row_def
  by (auto intro!: keeps_intros rows_protected_preorder keeps_update_item [OF assms]
      simp: rows_protected_def claimed_by_def store_row_apply)

lemma keeps_drain_loop:
  "preorder_on_worlds (rows_rel V R) \<Longrightarrow> keeps (rows_rel V R) (drain_loop E url deadline n fuel)"
  by (induction fuel arbitrary: n) (auto intro!: keeps_intros)

lemma keeps_drain: "preorder_on_worlds (rows_rel V R) \<Longrightarrow> keeps (rows_rel V R) (drain E C url)"
  unfolding drain_def by (intro keeps_intros keeps_drain_loop)

lemma keeps_claim_loop:
  assumes "ddb_ok E V"
  shows "keeps (rows_rel V (rows_protected (pool_table C) claimed_by sid)) (claim_loop E C sid is)"
  by (induction "is")
    (auto intro!: keeps_intros rows_protected_preorder keeps_claim_row keeps_release keeps_drain assms
      split: option.split)

lemma keeps_serve_pool:
  assumes "ddb_ok E V"
  shows "keeps (rows_rel V (rows_protected (pool_table C) claimed_by sid)) (serve_pool E C sid c)"
  by (cases c)
    (auto simp: claim_def scan_unclaimed_def
      intro!: keeps_intros rows_protected_preorder keeps_claim_loop keeps_release assms)

interpretation frame_pool: owner_scoped "ddb_ok E V" V "pool_table C" claimed_by "serve_pool E C" for E V C
  by unfold_locales (rule keeps_serve_pool)

section \<open>What a claim returns\<close>

lemma ddb_pool_key: "ddb_item (pool_key i) = [(''pool_queue_id'', PDec (of_int i))]"
  by (simp add: pool_key_def ddb_item_def)

lemma pool_key_eq [simp]: "ddb_item (pool_key i) = ddb_item (pool_key j) \<longleftrightarrow> i = j"
  by (simp add: ddb_pool_key)

definition pool_row :: "'t db_view \<Rightarrow> pool_cfg \<Rightarrow> 't world \<Rightarrow> int \<Rightarrow> item option" where
  "pool_row V C w i = rows V w (pool_table C) (ddb_item (pool_key i))"

definition holder :: "item option \<Rightarrow> pyval option" where
  "holder r = map_of (row_attrs r) ''claimed_by''"

lemma drain_rows:
  assumes "drain E C url w = (r, w')"
  shows "rows V w' = rows V w"
proof -
  have "preorder_on_worlds (rows_rel V (\<lambda>a b. a = b))" by (rule preorder_rows_rel) auto
  from keepsD [OF keeps_drain [OF this] assms] show ?thesis by (simp add: rows_rel_def)
qed

lemma claim_row_Inr:
  assumes "ddb_ok E V" "claim_row E C sid i w = (Inr x, w')"
  shows "holder (pool_row V C w i) = None \<and> holder (pool_row V C w' i) = Some (PStr sid)"
proof -
  obtain now w1 where now: "utcnow E w = (Inr now, w1)" by (simp add: utcnow_def tick_def)
  then have same: "rows V w1 = rows V w" by (simp add: utcnow_def tick_cases)
  from assms(2) now have u: "update_item E (pool_table C) (pool_key i)
      [SetAttr ''claimed_by'' (PStr sid), SetAttr ''claimed_at'' (PStr (isoformat now))]
      (AttrNotExists ''claimed_by'') w1 = (Inr x, w')"
    by (simp add: claim_row_def bindE_def)
  from update_item_cases(1) [OF assms(1) u] same show ?thesis
    by (simp add: write_outcome_simps pool_row_def holder_def store_row_apply updated_row_def)
qed

text \<open>
  C3. A claim is exclusive: over any history of claims and releases made for other sessions, whatever
  the database and the queues answer and wherever a call fails, the row a session has claimed stays
  its own and unchanged.
\<close>

theorem pool_claim_exclusive:
  assumes "ddb_ok E V" "rows V w (pool_table C) k = Some row" "map_of row ''claimed_by'' = Some (PStr owner)"
    and "owner \<notin> fst ` set history"
  shows "rows V (serve_all (serve_pool E C) history w) (pool_table C) k = Some row"
  using assms(1,2) _ assms(4) by (rule frame_pool.isolated_history) (simp add: claimed_by_def assms(3))

lemma claim_loop_Inr:
  assumes "ddb_ok E V" "claim_loop E C sid cs w = (Inr res, w')"
  shows "pool_id res \<in> set cs \<and>
     (\<exists>row. pool_row V C w' (pool_id res) = Some row \<and> map_of row ''claimed_by'' = Some (PStr sid) \<and>
        dget row ''queue_url'' = PStr (queue_url res) \<and> queue_url res \<noteq> [])"
  using assms(2)
proof (induction cs arbitrary: w)
  case Nil
  then show ?case by (simp add: raiseE_def)
next
  case (Cons i cs)
  obtain q w1 where cr: "claim_row E C sid i w = (q, w1)" by fastforce
  show ?case
  proof (cases q)
    case (Inl e)
    with Cons cr show ?thesis by (auto simp: tryE_def raiseE_def split: if_split_asm)
  next
    case (Inr x)
    obtain row w2 where get: "get_item E (pool_table C) (pool_key i) w1 = (Inr row, w2)"
      and rest: "(case nonempty_str (dget (row_attrs row) ''queue_url'') of
             None \<Rightarrow> bindE (release E C i sid) (\<lambda>_. claim_loop E C sid cs)
           | Some url \<Rightarrow> bindE (drain E C url) (\<lambda>_. retE \<lparr>queue_url = url, pool_id = i\<rparr>)) w2 = (Inr res, w')"
      using Cons.prems cr Inr by (auto simp: tryE_def bindE_Inr_iff)
    show ?thesis
    proof (cases "nonempty_str (dget (row_attrs row) ''queue_url'')")
      case None
      with rest Cons.IH show ?thesis by (auto simp: bindE_Inr_iff)
    next
      case (Some url)
      with rest obtain n where dr: "drain E C url w2 = (Inr n, w')" and res: "res = \<lparr>queue_url = url, pool_id = i\<rparr>"
        by (auto simp: bindE_Inr_iff retE_def)
      have "rows V w' = rows V w1" using drain_rows [OF dr] get_item_cases(1) [OF assms(1) get] by simp
      moreover have "row = pool_row V C w1 i" using get_item_cases(3) [OF assms(1) get] by (simp add: pool_row_def)
      moreover have "holder (pool_row V C w1 i) = Some (PStr sid)"
        using claim_row_Inr [OF assms(1) cr [unfolded Inr]] by simp
      ultimately show ?thesis using Some res
        by (cases "pool_row V C w1 i") (auto simp: pool_row_def holder_def)
    qed
  qed
qed

text \<open>
  A claim that returns holds: the row of the returned slot is claimed by the session and carries
  the returned, non-empty queue URL.
\<close>

lemma claim_returns_held_slot:
  assumes "ddb_ok E V" "claim E C sid w = (Inr res, w')"
  shows "\<exists>row. pool_row V C w' (pool_id res) = Some row \<and> map_of row ''claimed_by'' = Some (PStr sid) \<and>
     dget row ''queue_url'' = PStr (queue_url res) \<and> queue_url res \<noteq> []"
proof -
  obtain cs w1 where "claim_loop E C sid cs w1 = (Inr res, w')"
    using assms(2) by (auto simp: claim_def bindE_Inr_iff raiseE_def split: if_split_asm)
  from claim_loop_Inr [OF assms(1) this] show ?thesis by blast
qed

lemma release_outcome:
  assumes "ddb_ok E V" "release E C i sid w = (r, w')"
  shows "(holder (pool_row V C w i) \<noteq> Some (PStr sid) \<longrightarrow> rows V w' = rows V w) \<and>
     (r = Inr () \<longrightarrow> holder (pool_row V C w' i) \<noteq> Some (PStr sid))"
proof -
  let ?us = "[RemoveAttr ''claimed_by'', RemoveAttr ''claimed_at'']"
  obtain q w1 where u: "update_item E (pool_table C) (pool_key i) ?us (AttrEq ''claimed_by'' (PStr sid)) w = (q, w1)"
    by fastforce
  have fin: "w' = w1" "r = Inr () \<longleftrightarrow> (\<forall>e. q = Inl e \<longrightarrow> is_ccf e)"
    using assms(2) u by (auto simp: release_def tryE_def retE_def raiseE_def split: sum.splits if_splits)
  note upd = update_item_cases(1) [OF assms(1) u]
  show ?thesis
  proof (cases q)
    case (Inr it)
    with upd fin show ?thesis
      by (auto simp: write_outcome_simps pool_row_def holder_def store_row_apply updated_row_def)
  next
    case (Inl e)
    with upd fin show ?thesis
      by (cases "is_ccf e") (auto simp: write_outcome_simps pool_row_def holder_def)
  qed
qed

text \<open>
  Releasing a slot by a session that does not hold it changes nothing, and a release that returns
  leaves the slot without this session's claim.
\<close>

lemma release_owner_only:
  assumes "ddb_ok E V" "release E C i sid w = (r, w')"
  shows "(holder (pool_row V C w i) \<noteq> Some (PStr sid) \<longrightarrow> rows V w' = rows V w) \<and>
     (r = Inr () \<longrightarrow> holder (pool_row V C w' i) \<noteq> Some (PStr sid))"
  by (rule release_outcome [OF assms])

text \<open>
  A claim is not undone when what follows it fails: if the conditional write succeeded and the
  drain of the queue then raises, the claim raises this exception and the row stays claimed by the
  session, although the caller never learns which slot it was and so cannot release it.
\<close>

lemma failed_drain_leaks_slot:
  assumes "ddb_ok E V" "claim_row E C sid i w = (Inr x, w1)"
    and "get_item E (pool_table C) (pool_key i) w1 = (Inr (Some row), w2)"
    and "dget row ''queue_url'' = PStr url" "url \<noteq> []" "drain E C url w2 = (Inl e, w3)"
  shows "claim_loop E C sid (i # is) w = (Inl e, w3) \<and> holder (pool_row V C w3 i) = Some (PStr sid)"
proof
  show "claim_loop E C sid (i # is) w = (Inl e, w3)"
    using assms(2-) by (simp add: tryE_def bindE_def)
  have "rows V w3 = rows V w1" using drain_rows [OF assms(6)] get_item_cases(1) [OF assms(1,3)] by simp
  with claim_row_Inr [OF assms(1,2)] show "holder (pool_row V C w3 i) = Some (PStr sid)"
    by (simp add: pool_row_def)
qed

section \<open>The drain loop ends\<close>

lemma drain_loop_terminates:
  assumes "\<And>tr c. svc E tr c \<noteq> Inl out_of_fuel" "\<And>n. monotonic E n + d \<le> monotonic E (Suc n)"
    and "deadline \<le> monotonic E (ticks w) + of_nat fuel * d"
  shows "fst (drain_loop E url deadline n (Suc fuel) w) \<noteq> Inl out_of_fuel"
  using assms(3)
proof (induction fuel arbitrary: w n)
  case 0
  then show ?case by (simp add: bindE_def tick_def retE_def)
next
  case (Suc fuel)
  let ?t = "monotonic E (ticks w)"
  have next_: "fst (drain_loop E url deadline m (Suc fuel) w') \<noteq> Inl out_of_fuel"
    if "ticks w' = Suc (ticks w)" for m w'
  proof (rule Suc.IH)
    have "deadline \<le> ?t + d + of_nat fuel * d" using Suc.prems by (simp add: algebra_simps)
    also have "\<dots> \<le> monotonic E (ticks w') + of_nat fuel * d" using assms(2) [of "ticks w"] that by simp
    finally show "deadline \<le> monotonic E (ticks w') + of_nat fuel * d" .
  qed
  have plain: "resp_list v k \<noteq> Inl out_of_fuel" for v k
    by (auto simp: resp_list_def get_attr_def out_of_fuel_def split: option.splits sum.splits)
  have entries: "drain_entries ms \<noteq> Inl out_of_fuel" for ms
    by (induction ms) (auto simp: out_of_fuel_def split: option.split sum.split)
  show ?case
    using assms(1) plain entries
    by (subst drain_loop.simps)
      (auto simp: bindE_def tick_def retE_def invoke_def liftE_def intro!: next_ simp del: drain_loop.simps
        split: sum.split)
qed

text \<open>
  The drain loop ends: if the monotonic clock advances by at least \<open>d > 0\<close> between two readings and
  \<open>drain_fuel\<close> iterations of length \<open>d\<close> cover the drain budget, no execution is cut short by the fuel.
\<close>

lemma drain_terminates:
  assumes "\<And>tr c. svc E tr c \<noteq> Inl out_of_fuel" "\<And>n. monotonic E n + d \<le> monotonic E (Suc n)"
    and "0 < drain_fuel C" "drain_max_seconds C \<le> of_nat (drain_fuel C) * d"
  shows "fst (drain E C url w) \<noteq> Inl out_of_fuel"
proof -
  obtain f where f: "drain_fuel C = Suc f" using assms(3) gr0_implies_Suc by blast
  let ?w = "w\<lparr>ticks := Suc (ticks w)\<rparr>"
  have "monotonic E (ticks w) + drain_max_seconds C \<le> monotonic E (ticks ?w) + of_nat f * d"
    using assms(2) [of "ticks w"] assms(4) f by (simp add: algebra_simps)
  from drain_loop_terminates [OF assms(1,2) this]
  show ?thesis by (simp add: drain_def f bindE_def tick_def del: drain_loop.simps)
qed

section \<open>Witnesses\<close>

definition pool_demo_cfg :: pool_cfg where
  "pool_demo_cfg = \<lparr>pool_table = ''p'', drain_max_seconds = 3, drain_fuel = 3\<rparr>"

definition pool_demo_env :: "(call list \<Rightarrow> call \<Rightarrow> exn + pyval) \<Rightarrow> mem env" where
  "pool_demo_env answer = (mem_env (\<lambda>_. [''pool_queue_id'']) answer)\<lparr>d_scan := (\<lambda>tbl c s t.
     (Inr \<lparr>p_items = [[(''pool_queue_id'', PDec 1)]], p_last = None\<rparr>, t))\<rparr>"

definition pool_demo_row :: item where
  "pool_demo_row = [(''pool_queue_id'', PDec 1), (''queue_url'', PStr ''q1'')]"

definition pool_demo_world :: "item \<Rightarrow> mem world" where
  "pool_demo_world row = \<lparr>db = (\<lambda>tbl k. if tbl = ''p'' \<and> k = ddb_item (pool_key 1) then Some row else None),
     trace = [], ticks = 0\<rparr>"

lemma pool_demo_ok: "ddb_ok (pool_demo_env answer) mem_view"
proof -
  have "reads_ok (pool_demo_env answer) mem_view"
    using mem_env_reads [of "\<lambda>_. [''pool_queue_id'']" answer]
    unfolding reads_ok_def pool_demo_env_def by simp
  moreover have "writes_ok (pool_demo_env answer) mem_view"
    using mem_env_writes [of "\<lambda>_. [''pool_queue_id'']" answer]
    unfolding writes_ok_def pool_demo_env_def key_of_def by simp
  ultimately show ?thesis by (simp add: ddb_ok_def)
qed

lemma pool_demo_get: "get_item (pool_demo_env a) tbl k w = (Inr (db w tbl (ddb_item k)), w)"
  by (simp add: get_item_def on_db_def pool_demo_env_def mem_env_def)

lemma pool_demo_update: "update_item (pool_demo_env a) tbl k us c w =
  (let row = db w tbl (ddb_item k); new = updated_row k us row in
   if eval_cond c (row_attrs row) then (Inr new, w\<lparr>db := store_row (db w) tbl (ddb_item k) new\<rparr>)
   else (Inl (ClientError ccf_code []), w))"
  by (simp add: update_item_def on_db_def pool_demo_env_def mem_env_def Let_def)

lemma pool_demo_claim_row:
  "\<exists>x w1. claim_row (pool_demo_env a) pool_demo_cfg ''s'' 1 (pool_demo_world pool_demo_row) = (Inr x, w1) \<and>
     trace w1 = [] \<and> ticks w1 = 1 \<and>
     (\<exists>row. db w1 ''p'' (ddb_item (pool_key 1)) = Some row \<and> dget row ''queue_url'' = PStr ''q1'')"
  by (simp add: claim_row_def utcnow_def tick_def bindE_def pool_demo_update Let_def pool_demo_cfg_def
      pool_demo_world_def pool_demo_row_def updated_row_def store_row_apply dget_Cons)

lemma pool_demo_run:
  assumes "\<And>tr c. a tr c = Inr (PDict [])"
  shows "\<exists>w'. claim (pool_demo_env a) pool_demo_cfg ''s'' (pool_demo_world pool_demo_row) =
     (Inr \<lparr>queue_url = ''q1'', pool_id = 1\<rparr>, w')"
proof -
  have env: "svc (pool_demo_env a) = a" "monotonic (pool_demo_env a) n = of_nat n"
    "shuffled (pool_demo_env a) n xs = xs" for n xs
    by (simp_all add: pool_demo_env_def mem_env_def)
  have scan: "scan_unclaimed (pool_demo_env a) C w = (Inr [1], w)" for C w
    by (simp add: scan_unclaimed_def scan_items_def on_db_def pool_demo_env_def bindE_def retE_def dget_Cons
        trunc_rat_def)
  show ?thesis
    by (simp add: claim_def scan bindE_def tick_def env claim_row_def utcnow_def tryE_def pool_demo_update Let_def
        pool_demo_cfg_def pool_demo_world_def pool_demo_row_def updated_row_def store_row_apply dget_Cons
        pool_demo_get drain_def numeral_3_eq_3 invoke_def assms liftE_def resp_list_def get_attr_def retE_def)
qed

theorem pool_claim_exclusive_witness:
  "rows mem_view (serve_all (serve_pool (pool_demo_env (\<lambda>_ _. Inr (PDict []))) pool_demo_cfg)
     [(''t'', ClaimCall), (''t'', ReleaseCall 1)] (pool_demo_world (dset ''claimed_by'' (PStr ''s'') pool_demo_row)))
     (pool_table pool_demo_cfg) (ddb_item (pool_key 1)) = Some (dset ''claimed_by'' (PStr ''s'') pool_demo_row)"
proof (rule pool_claim_exclusive [OF pool_demo_ok, where owner = "''s''"])
  show "rows mem_view (pool_demo_world (dset ''claimed_by'' (PStr ''s'') pool_demo_row)) (pool_table pool_demo_cfg)
      (ddb_item (pool_key 1)) = Some (dset ''claimed_by'' (PStr ''s'') pool_demo_row)"
    by (simp add: mem_view_def pool_demo_world_def pool_demo_cfg_def)
qed simp_all

end
