(* ===== verification/User_Data.thy ===== *)
theory User_Data
  imports Py_Prelude
begin

text \<open>
  The boot script that the spawner hands to a GPU instance (\<^verbatim>\<open>_build_user_data\<close> in
  \<^verbatim>\<open>gpu-spawner/.../aws/ec2.py\<close>): the quoting of \<^verbatim>\<open>shlex\<close>, the registry host of an image, the script
  line by line, and its base64 form. \<open>bsl\<close> is a backslash, \<open>sqt\<close> a single quote.
\<close>

section \<open>The standard library: quoting and base64\<close>

abbreviation bsl :: string where
  "bsl \<equiv> [CHR 0x5C]"

abbreviation sqt :: string where
  "sqt \<equiv> [CHR 0x27]"

abbreviation dqt :: string where
  "dqt \<equiv> [CHR 0x22]"

definition shell_safe :: "char \<Rightarrow> bool" where
  "shell_safe c = (let n = (of_char c :: nat) in
     48 \<le> n \<and> n \<le> 57 \<or> 65 \<le> n \<and> n \<le> 90 \<or> 97 \<le> n \<and> n \<le> 122 \<or> c \<in> set ''_@%+=:,./-'')"

text \<open>\<^verbatim>\<open>s.replace\<close> of every single quote by a quoted one.\<close>

fun escape_quotes :: "string \<Rightarrow> string" where
  "escape_quotes [] = []"
| "escape_quotes (c # s) =
     (if [c] = sqt then sqt @ dqt @ sqt @ dqt @ sqt else [c]) @ escape_quotes s"

definition shlex_quote :: "string \<Rightarrow> string" where
  "shlex_quote s =
     (if s = [] then sqt @ sqt
      else if list_all shell_safe s then s
      else sqt @ escape_quotes s @ sqt)"

text \<open>UTF-8 of the characters up to \<open>255\<close>, as byte values.\<close>

fun utf8_bytes :: "string \<Rightarrow> nat list" where
  "utf8_bytes [] = []"
| "utf8_bytes (c # s) =
     (let n = (of_char c :: nat) in if n < 128 then [n] else [192 + n div 64, 128 + n mod 64]) @ utf8_bytes s"

definition b64_char :: "nat \<Rightarrow> char" where
  "b64_char n =
     (if n < 26 then char_of (65 + n) else if n < 52 then char_of (71 + n)
      else if n < 62 then char_of (n - 4) else if n = 62 then CHR ''+'' else CHR ''/'')"

fun b64encode :: "nat list \<Rightarrow> string" where
  "b64encode [] = []"
| "b64encode [a] = [b64_char (a div 4), b64_char (a mod 4 * 16), CHR ''='', CHR ''='']"
| "b64encode [a, b] = [b64_char (a div 4), b64_char (a mod 4 * 16 + b div 16), b64_char (b mod 16 * 4), CHR ''='']"
| "b64encode (a # b # c # bs) =
     [b64_char (a div 4), b64_char (a mod 4 * 16 + b div 16), b64_char (b mod 16 * 4 + c div 64),
      b64_char (c mod 64)] @ b64encode bs"

section \<open>The script\<close>

definition ecr_registry_from_image_uri :: "string \<Rightarrow> string" where
  "ecr_registry_from_image_uri image_uri = takeWhile (\<lambda>c. c \<noteq> CHR ''/'') image_uri"

definition boot_settings :: "string \<Rightarrow> string \<Rightarrow> string \<Rightarrow> string \<Rightarrow> string \<Rightarrow> string list" where
  \<open>boot_settings aws_region registry image_uri session_id ws_mgmt_endpoint = [
      ''#!/bin/bash'',
      ''set -euo pipefail'',
      ''exec > >(tee -a /var/log/panakoes-bootstrap.log) 2>&1'',
      ''echo "[panakoes-bootstrap] starting at $(date -u +%FT%TZ)"'',
      [],
      ''# Ensure SSM agent is running so the operator can `aws ssm start-session`'',
      ''# into the instance for diagnostics + `docker exec`. Deep Learning AMIs'',
      ''# ship SSM agent via snap; we enable + start it defensively (no-op if'',
      ''# already running). Failure is non-fatal: the rest of the bootstrap still'',
      ''# runs even if SSM never comes up.'',
      ''systemctl enable --now snap.amazon-ssm-agent.amazon-ssm-agent.service || '' @ bsl,
      ''    systemctl enable --now amazon-ssm-agent.service || '' @ bsl,
      ''    true'',
      [],
      ''REGION='' @ shlex_quote aws_region,
      ''REGISTRY='' @ shlex_quote registry,
      ''IMAGE_URI='' @ shlex_quote image_uri,
      ''SESSION_ID='' @ shlex_quote session_id,
      ''WS_MGMT_ENDPOINT='' @ shlex_quote ws_mgmt_endpoint,
      [],
      ''# Defensive: jq is required for the status-event JSON below. The'',
      ''# Deep Learning Base GPU AMI ships it but we install it idempotently'',
      ''# so a base-AMI swap does not silently break observability. Failure'',
      ''# is non-fatal; post_status falls back to a no-op when jq is missing.'',
      ''command -v jq >/dev/null 2>&1 || apt-get install -y --no-install-recommends jq || true'']\<close>

definition boot_status :: "string list" where
  \<open>boot_status = [
      [],
      ''# Best-effort status publisher: posts a `status` envelope back to the'',
      ''# session'' @ sqt @ ''s WS connection via the API Gateway management API. The IAM'',
      ''# instance profile carries `execute-api:ManageConnections`. Every'',
      ''# failure path is silenced because the bootstrap MUST NOT abort over'',
      ''# a status emit (e.g. client already disconnected, jq missing, AWS'',
      ''# CLI throttled).'',
      ''post_status() {'',
      ''    local stage="$1"'',
      ''    local detail="$2"'',
      ''    if [ -z "$WS_MGMT_ENDPOINT" ] || [ -z "$SESSION_ID" ]; then'',
      ''        return 0'',
      ''    fi'',
      ''    if ! command -v jq >/dev/null 2>&1; then'',
      ''        return 0'',
      ''    fi'',
      ''    local ts'',
      ''    ts=$(date -u +%Y-%m-%dT%H:%M:%S.%3NZ)'',
      ''    local payload'',
      ''    payload=$(printf '' @ sqt @ ''{"type":"status","stage":%s,"detail":%s,"ts":%s}'' @ sqt @ '' '' @ bsl,
      ''        "$(printf '' @ sqt @ ''%s'' @ sqt @ '' "$stage" | jq -Rs .)" '' @ bsl,
      ''        "$(printf '' @ sqt @ ''%s'' @ sqt @ '' "$detail" | jq -Rs .)" '' @ bsl,
      ''        "$(printf '' @ sqt @ ''%s'' @ sqt @ '' "$ts" | jq -Rs .)")'',
      ''    # `--cli-binary-format raw-in-base64-out` is mandatory: AWS CLI v2'' @ sqt @ ''s'',
      ''    # default for binary parameters is `fileb://` (path) or base64; passing'',
      ''    # a raw JSON string without this flag yields `Invalid base64`. We'',
      ''    # learned this the hard way during the Stage-5 obs deploy: every EC2'',
      ''    # post_status emit failed silently for a full smoke cycle.'',
      ''    aws apigatewaymanagementapi post-to-connection '' @ bsl,
      ''        --cli-binary-format raw-in-base64-out '' @ bsl,
      ''        --endpoint-url "$WS_MGMT_ENDPOINT" '' @ bsl,
      ''        --connection-id "$SESSION_ID" '' @ bsl,
      ''        --data "$payload" '' @ bsl,
      ''        --region "$REGION" >/dev/null 2>&1 || true'',
      ''}'',
      [],
      ''# Authenticate docker to ECR using the instance role.'',
      ''aws ecr get-login-password --region "$REGION" '' @ bsl,
      ''    | docker login --username AWS --password-stdin "$REGISTRY"'',
      ''post_status "ec2-ecr-login" "ECR authenticated"'']\<close>

definition boot_prewarm :: "string list" where
  \<open>boot_prewarm = [
      [],
      ''# Pre-warm the Whisper model + warmup clip in parallel with the docker'',
      ''# pull. The model files live on the root EBS volume that was created from'',
      ''# the whisper-stream AMI snapshot. EBS snapshots are lazy-loaded from S3 on'',
      ''# first touch, so the very first read of a 3 GB model.bin takes ~5-8 min at'',
      ''# ~10 MB/s when faster-whisper finally mmaps it. Reading the file through'',
      ''# `dd` once at boot forces the snapshot fetch synchronously here so the'',
      ''# container'' @ sqt @ ''s `WhisperModel(...)` call hits a hot page cache and returns in'',
      ''# the ~30-60 s GPU init cost the design budgets for.'',
      ''#'',
      ''# Pre-warm runs in the background so it overlaps with the `docker pull`'',
      ''# (also ~3-5 min) instead of serializing. `wait` before `docker run`'',
      ''# guarantees the model is hot before the container starts. Failure is'',
      ''# non-fatal: if the warmup fails the container still works, just slow.'',
      ''MODEL_BIN=/opt/whisper/models/large-v2-ct2/model.bin'',
      ''# Drive EBS lazy-load with 8 parallel readers each covering a 400 MB'',
      ''# slice of the 3 GB model.bin. Sequential single-dd was bottlenecked at'',
      ''# ~10 MB/s (one S3 fetch at a time); 8 parallel readers concurrently'',
      ''# request different blocks, so EBS pulls them in parallel from S3 and'',
      ''# the wall-clock drops from ~9 min to ~1-2 min.'',
      ''warmup_in_background() {'',
      ''    local slice'',
      ''    for slice in 0 400 800 1200 1600 2000 2400 2800; do'',
      ''        ( dd if="$MODEL_BIN" of=/dev/null bs=1M '' @ bsl,
      ''            skip=$slice count=400 status=none 2>/dev/null || true ) &'',
      ''    done'',
      ''    wait'',
      ''}'',
      ''post_status "ec2-prewarm-start" "Pre-warming Whisper model (8 parallel readers)"'',
      ''warmup_in_background &'',
      ''WARMUP_PID=$!'',
      [],
      ''# Pull the transcriber-stream image baked by CI.'',
      ''post_status "ec2-image-pull-start" "Pulling transcriber container image"'',
      ''docker pull "$IMAGE_URI"'',
      ''post_status "ec2-image-pull-done" "Container image pulled"'',
      [],
      ''# Wait for the model pre-warm to finish before running the container.'',
      ''echo "[panakoes-bootstrap] waiting for model pre-warm pid $WARMUP_PID at $(date -u +%FT%TZ)"'',
      ''wait "$WARMUP_PID" || true'',
      ''echo "[panakoes-bootstrap] model pre-warm complete at $(date -u +%FT%TZ)"'',
      ''post_status "ec2-prewarm-done" "Pre-warm complete"'']\<close>

definition boot_env_file :: "string \<Rightarrow> string \<Rightarrow> string \<Rightarrow> string \<Rightarrow> string \<Rightarrow> string \<Rightarrow> string \<Rightarrow> string list" where
  \<open>boot_env_file aws_region session_id frame_queue_url ws_mgmt_endpoint sessions_table frame_pool_table transcripts_bucket = [
      [],
      ''# Write the env file the container reads at startup. Every var the'',
      ''# transcriber-stream README documents as required is set here.'',
      ''cat > /etc/panakoes.env <<EOF'',
      ''PANAKOES_SESSION_ID='' @ shlex_quote session_id,
      ''PANAKOES_CONNECTION_ID='' @ shlex_quote session_id,
      ''FRAME_QUEUE_URL='' @ shlex_quote frame_queue_url,
      ''WS_ENDPOINT='' @ shlex_quote ws_mgmt_endpoint,
      ''STREAMING_SESSIONS_TABLE='' @ shlex_quote sessions_table,
      ''STREAMING_FRAME_POOL_TABLE='' @ shlex_quote frame_pool_table,
      ''TRANSCRIPTS_BUCKET='' @ shlex_quote transcripts_bucket,
      ''AWS_REGION='' @ shlex_quote aws_region,
      ''AWS_DEFAULT_REGION='' @ shlex_quote aws_region,
      ''EOF'',
      ''chmod 600 /etc/panakoes.env'']\<close>

definition boot_run :: "string \<Rightarrow> string list" where
  \<open>boot_run session_id = [
      [],
      ''# Run the container detached. Logs go to journald via the default'',
      ''# docker logging driver so `journalctl -u docker` shows container'',
      ''# output. The Whisper model weights are baked into the AMI at'',
      ''# /opt/whisper and mounted read-only.'',
      ''docker run -d '' @ bsl,
      ''    --name panakoes-stream-transcriber '' @ bsl,
      ''    --restart on-failure:1 '' @ bsl,
      ''    --gpus all '' @ bsl,
      ''    --env-file /etc/panakoes.env '' @ bsl,
      ''    --log-driver awslogs '' @ bsl,
      ''    --log-opt awslogs-region="$REGION" '' @ bsl,
      ''    --log-opt awslogs-group=/panakoes/dev/transcriber-stream '' @ bsl,
      ''    --log-opt awslogs-stream='' @ shlex_quote session_id @ '' '' @ bsl,
      ''    -v /opt/whisper:/opt/whisper:ro '' @ bsl,
      ''    "$IMAGE_URI"'',
      [],
      ''echo "[panakoes-bootstrap] container launched at $(date -u +%FT%TZ)"'',
      ''post_status "ec2-container-launched" "Container starting"'']\<close>

record launch_inputs =
  li_session_id :: string
  li_frame_queue_url :: string
  li_image_uri :: string
  li_ws_mgmt_endpoint :: string
  li_sessions_table :: string
  li_frame_pool_table :: string
  li_transcripts_bucket :: string
  li_aws_region :: string

definition unlines :: "string list \<Rightarrow> string" where
  "unlines ls = concat (map (\<lambda>l. l @ [CHR 0x0A]) ls)"

definition boot_script :: "launch_inputs \<Rightarrow> string" where
  "boot_script x =
     (let registry = ecr_registry_from_image_uri (li_image_uri x) in
      unlines
        (boot_settings (li_aws_region x) registry (li_image_uri x) (li_session_id x) (li_ws_mgmt_endpoint x) @
         boot_status @ boot_prewarm @
         boot_env_file (li_aws_region x) (li_session_id x) (li_frame_queue_url x) (li_ws_mgmt_endpoint x)
           (li_sessions_table x) (li_frame_pool_table x) (li_transcripts_bucket x) @
         boot_run (li_session_id x)))"

definition build_user_data :: "launch_inputs \<Rightarrow> string" where
  "build_user_data x = b64encode (utf8_bytes (boot_script x))"

section \<open>Quoting for the shell\<close>

text \<open>
  Reading one shell word: unquoted safe characters, single-quoted text, and double-quoted text
  without expansions; \<open>None\<close> when the word ends inside quotes or holds an unquoted special character.
\<close>

datatype quote_state = Unquoted | SingleQuoted | DoubleQuoted

fun sh_read :: "quote_state \<Rightarrow> string \<Rightarrow> string option" where
  "sh_read Unquoted [] = Some []"
| "sh_read Unquoted (c # s) =
     (if [c] = sqt then sh_read SingleQuoted s
      else if [c] = dqt then sh_read DoubleQuoted s
      else if shell_safe c then map_option (\<lambda>t. c # t) (sh_read Unquoted s)
      else None)"
| "sh_read SingleQuoted [] = None"
| "sh_read SingleQuoted (c # s) =
     (if [c] = sqt then sh_read Unquoted s else map_option (\<lambda>t. c # t) (sh_read SingleQuoted s))"
| "sh_read DoubleQuoted [] = None"
| "sh_read DoubleQuoted (c # s) =
     (if [c] = dqt then sh_read Unquoted s
      else if c \<in> set ''$`'' \<or> [c] = bsl then None
      else map_option (\<lambda>t. c # t) (sh_read DoubleQuoted s))"

lemma sh_read_escaped: "sh_read SingleQuoted (escape_quotes s @ sqt) = Some s"
  by (induction s) auto

lemma sh_read_safe: "list_all shell_safe s \<Longrightarrow> sh_read Unquoted s = Some s"
  by (induction s) (auto simp: shell_safe_def)

lemma shlex_quote_word: "sh_read Unquoted (shlex_quote s) = Some s"
  using sh_read_escaped [of s] by (auto simp: shlex_quote_def sh_read_safe)

text \<open>
  The assignments of the script assign the values they were built from: whatever characters the
  region, the image, the session identifier and the endpoint contain, the shell reads the right-hand
  side of each of the five lines as one word that is the value.
\<close>

lemma settings_are_words:
  "\<forall>(name, val) \<in> {(''REGION='', li_aws_region x), (''REGISTRY='', ecr_registry_from_image_uri (li_image_uri x)),
       (''IMAGE_URI='', li_image_uri x), (''SESSION_ID='', li_session_id x),
       (''WS_MGMT_ENDPOINT='', li_ws_mgmt_endpoint x)}.
     \<exists>word. name @ word \<in> set (boot_settings (li_aws_region x) (ecr_registry_from_image_uri (li_image_uri x))
         (li_image_uri x) (li_session_id x) (li_ws_mgmt_endpoint x)) \<and> sh_read Unquoted word = Some val"
proof -
  have "''REGION='' @ shlex_quote a \<in> set (boot_settings a b c d e) \<and>
      ''REGISTRY='' @ shlex_quote b \<in> set (boot_settings a b c d e) \<and>
      ''IMAGE_URI='' @ shlex_quote c \<in> set (boot_settings a b c d e) \<and>
      ''SESSION_ID='' @ shlex_quote d \<in> set (boot_settings a b c d e) \<and>
      ''WS_MGMT_ENDPOINT='' @ shlex_quote e \<in> set (boot_settings a b c d e)" for a b c d e
    unfolding boot_settings_def by (simp only: list.set insert_iff simp_thms)
  then show ?thesis using shlex_quote_word by (simp only: ball_simps split_conv) blast
qed

definition user_data_demo :: launch_inputs where
  "user_data_demo = \<lparr>li_session_id = ''a b'', li_frame_queue_url = ''q'', li_image_uri = ''r/i:t'',
     li_ws_mgmt_endpoint = [], li_sessions_table = ''s'', li_frame_pool_table = ''p'', li_transcripts_bucket = ''b'',
     li_aws_region = ''us-east-1''\<rparr>"

text \<open>
  In a here-document with an unquoted delimiter quotes are ordinary characters, and a command
  substitution (dollar and parenthesis, or a backquote) that no backslash escapes is run.
\<close>

fun heredoc_runs :: "string \<Rightarrow> bool" where
  "heredoc_runs [] = False"
| "heredoc_runs [c] = ([c] = ''`'')"
| "heredoc_runs (c # d # s) =
     (if [c] = bsl then heredoc_runs s
      else [c] = ''`'' \<or> [c, d] = ''$('' \<or> heredoc_runs (d # s))"

lemma heredoc_runs_append: "CHR 0x5C \<notin> set p \<Longrightarrow> heredoc_runs s \<Longrightarrow> heredoc_runs (p @ s)"
proof (induction p)
  case (Cons c p)
  then have "c \<noteq> CHR 0x5C" "heredoc_runs (p @ s)" by auto
  then show ?case by (cases "p @ s") auto
qed simp

lemma escape_quotes_append: "escape_quotes (a @ b) = escape_quotes a @ escape_quotes b"
  by (induction a) auto

lemma escape_quotes_no_backslash: "CHR 0x5C \<notin> set a \<Longrightarrow> CHR 0x5C \<notin> set (escape_quotes a)"
  by (induction a) auto

text \<open>
  The environment file of the container is written by a here-document, where the quoting does not
  protect: for a session identifier with a command substitution that no backslash precedes, the
  script contains a line whose substitution the shell of the instance runs.
\<close>

lemma env_file_runs_substitutions:
  assumes "CHR 0x5C \<notin> set a"
  shows "(''PANAKOES_SESSION_ID='' @ shlex_quote (a @ ''$('' @ b)) \<in>
       set (boot_env_file region (a @ ''$('' @ b) url ws st fp tb) \<and>
     heredoc_runs (''PANAKOES_SESSION_ID='' @ shlex_quote (a @ ''$('' @ b))"
proof -
  have "\<not> shell_safe (CHR ''$'')" by (simp add: shell_safe_def)
  then have unsafe: "\<not> list_all shell_safe (a @ ''$('' @ b)" by simp
  have q: "shlex_quote (a @ ''$('' @ b) = (sqt @ escape_quotes a) @ ''$('' @ escape_quotes b @ sqt"
    unfolding shlex_quote_def using unsafe by (simp only: if_False escape_quotes_append append_is_Nil_conv) simp
  have p: "CHR 0x5C \<notin> set (''PANAKOES_SESSION_ID='' @ sqt @ escape_quotes a)"
    using escape_quotes_no_backslash [OF assms] by auto
  have "heredoc_runs (''$('' @ escape_quotes b @ sqt)" by simp
  from heredoc_runs_append [OF p this]
  have "heredoc_runs (''PANAKOES_SESSION_ID='' @ shlex_quote (a @ ''$('' @ b))" by (simp only: q append_assoc)
  moreover have "(''PANAKOES_SESSION_ID='' @ shlex_quote x) \<in> set (boot_env_file region x url ws st fp tb)" for x
    unfolding boot_env_file_def by (simp only: list.set insert_iff simp_thms)
  ultimately show ?thesis by blast
qed

section \<open>Base64\<close>

definition b64_val :: "char \<Rightarrow> nat" where
  "b64_val c = (let n = (of_char c :: nat) in
     if 65 \<le> n \<and> n \<le> 90 then n - 65 else if 97 \<le> n \<and> n \<le> 122 then n - 71
     else if 48 \<le> n \<and> n \<le> 57 then n + 4 else if n = 43 then 62 else 63)"

fun b64decode :: "string \<Rightarrow> nat list" where
  "b64decode (p # q # r # s # t) =
     (let a = b64_val p; b = b64_val q; c = b64_val r; d = b64_val s in
      if [r] = ''='' then [a * 4 + b div 16]
      else if [s] = ''='' then [a * 4 + b div 16, b mod 16 * 16 + c div 4]
      else [a * 4 + b div 16, b mod 16 * 16 + c div 4, c mod 4 * 64 + d] @ b64decode t)"
| "b64decode _ = []"

lemma b64_char_val: "n < 64 \<Longrightarrow> b64_val (b64_char n) = n"
  by (auto simp: b64_val_def b64_char_def Let_def)

lemma b64_char_not_pad: "n < 64 \<Longrightarrow> b64_char n \<noteq> CHR ''=''"
proof
  assume "n < 64" "b64_char n = CHR ''=''"
  then have "b64_val (CHR ''='') = n" using b64_char_val by metis
  moreover have "b64_val (CHR ''='') = 63" by (simp add: b64_val_def)
  ultimately have "b64_char 63 = CHR ''=''" using \<open>b64_char n = CHR ''=''\<close> by simp
  then show False by (simp add: b64_char_def)
qed

lemma b64_roundtrip:
  assumes "list_all (\<lambda>b. b < 256) bs"
  shows "b64decode (b64encode bs) = bs"
  using assms
proof (induction bs rule: b64encode.induct)
  case (2 a)
  then have "a div 4 < 64" "a mod 4 * 16 < 64" by auto
  then show ?case by (simp add: b64_char_val Let_def)
next
  case (3 a b)
  then have n: "a div 4 < 64" "a mod 4 * 16 + b div 16 < 64" "b mod 16 * 4 < 64" by auto
  have "(a mod 4 * 16 + b div 16) div 16 = a mod 4" "(a mod 4 * 16 + b div 16) mod 16 = b div 16"
    using 3 by auto
  with n show ?case by (simp add: b64_char_val b64_char_not_pad Let_def)
next
  case (4 a b c bs)
  then have n: "a div 4 < 64" "a mod 4 * 16 + b div 16 < 64" "b mod 16 * 4 + c div 64 < 64" "c mod 64 < 64" by auto
  have "(a mod 4 * 16 + b div 16) div 16 = a mod 4" "(a mod 4 * 16 + b div 16) mod 16 = b div 16"
    "(b mod 16 * 4 + c div 64) div 4 = b mod 16" "(b mod 16 * 4 + c div 64) mod 4 = c div 64"
    using 4 by auto
  with n 4 show ?case by (simp add: b64_char_val b64_char_not_pad Let_def)
qed simp

lemma utf8_bytes_range: "list_all (\<lambda>b. b < 256) (utf8_bytes s)"
  by (induction s) (auto simp: Let_def of_char_def)

text \<open>
  EC2 hands the instance exactly the script: base64 decoding of the user data gives the UTF-8
  bytes of the script text.
\<close>

lemma user_data_decodes: "b64decode (build_user_data x) = utf8_bytes (boot_script x)"
  unfolding build_user_data_def by (rule b64_roundtrip [OF utf8_bytes_range])

end
