(* ===== verification/Gpu_Spawner.thy ===== *)
theory Gpu_Spawner
  imports Pool_Claim User_Data Auth "HOL-Library.Multiset"
begin

text \<open>
  The GPU spawner (\<^verbatim>\<open>services/gpu-spawner\<close>): the EC2 wrapper (\<^verbatim>\<open>aws/ec2.py\<close>), the status publisher
  (\<^verbatim>\<open>status_publisher.py\<close>), the spawn callback with its eviction of old instances (\<^verbatim>\<open>main.py\<close>), the SQS
  consumer (\<^verbatim>\<open>eventbridge_consumer.py\<close>) and the HTTP routes (\<^verbatim>\<open>routes/spawn.py\<close>). A launch time is an
  integer value of microseconds; \<open>jloads\<close> is \<^verbatim>\<open>json.loads\<close> with \<open>None\<close> for a \<^verbatim>\<open>JSONDecodeError\<close>.
\<close>

section \<open>Instances\<close>

definition run_instances_error_map :: "(string \<times> string) list" where
  "run_instances_error_map =
     [(''InsufficientInstanceCapacity'', ''spot-no-capacity''),
      (''MaxSpotInstanceCountExceeded'', ''spot-no-capacity''),
      (''SpotMaxPriceTooLow'', ''spot-no-capacity''),
      (''InvalidAMIID.NotFound'', ''ami-missing''),
      (''InvalidAMIID.Malformed'', ''ami-missing''),
      (''InvalidAMIID.Unavailable'', ''ami-missing''),
      (''VcpuLimitExceeded'', ''quota-exceeded''),
      (''RequestLimitExceeded'', ''quota-exceeded''),
      (''InstanceLimitExceeded'', ''quota-exceeded''),
      (''InvalidIamInstanceProfile.NotFound'', ''iam-not-ready''),
      (''InvalidIamInstanceProfile.Malformed'', ''iam-not-ready'')]"

fun error_response :: "exn \<Rightarrow> string \<times> string" where
  "error_response (ClientError code msg) = (code, msg)"
| "error_response _ = ([], [])"

definition classify_run_instances_error :: "'t env \<Rightarrow> exn \<Rightarrow> exn" where
  "classify_run_instances_error E e =
     (let (aws_code, msg) = error_response e;
          aws_message = (if msg = [] then str_exn E e else msg);
          code = (case map_of run_instances_error_map aws_code of None \<Rightarrow> ''unknown-spawn-failure'' | Some c \<Rightarrow> c)
      in RunInstancesFailure code aws_code aws_message)"

definition known_states :: "string list" where
  "known_states = [''pending'', ''running'', ''shutting-down'', ''terminated'', ''stopping'', ''stopped'']"

definition coerce_state :: "string option \<Rightarrow> string" where
  "coerce_state raw = (case raw of None \<Rightarrow> ''unknown'' | Some s \<Rightarrow> if s \<in> set known_states then s else ''unknown'')"

record ec2_cfg =
  ami_id :: string
  instance_type :: string
  security_group_id :: string
  subnet_id :: string
  iam_instance_profile :: string
  project_tag :: string
  spawner_tag :: string
  ec2_ws_mgmt_endpoint :: string
  ec2_image_uri :: string
  ec2_sessions_table :: string
  ec2_frame_pool_table :: string
  ec2_transcripts_bucket :: string
  ec2_region :: string

definition tag :: "string \<Rightarrow> string \<Rightarrow> pyval" where
  "tag k v = PDict [(''Key'', PStr k), (''Value'', PStr v)]"

definition tag_specifications :: "ec2_cfg \<Rightarrow> string \<Rightarrow> string \<Rightarrow> pyval" where
  "tag_specifications M session_id user_id = PList
     [PDict [(''ResourceType'', PStr ''instance''),
             (''Tags'', PList [tag ''Project'' (project_tag M), tag ''Spawner'' (spawner_tag M),
                               tag ''SessionId'' session_id, tag ''UserId'' user_id])],
      PDict [(''ResourceType'', PStr ''volume''),
             (''Tags'', PList [tag ''Project'' (project_tag M), tag ''Spawner'' (spawner_tag M),
                               tag ''SessionId'' session_id])]]"

definition launch_inputs_of :: "ec2_cfg \<Rightarrow> string \<Rightarrow> string \<Rightarrow> launch_inputs" where
  "launch_inputs_of M session_id frame_queue_url =
     \<lparr>li_session_id = session_id, li_frame_queue_url = frame_queue_url, li_image_uri = ec2_image_uri M,
      li_ws_mgmt_endpoint = ec2_ws_mgmt_endpoint M, li_sessions_table = ec2_sessions_table M,
      li_frame_pool_table = ec2_frame_pool_table M, li_transcripts_bucket = ec2_transcripts_bucket M,
      li_aws_region = ec2_region M\<rparr>"

definition run_kwargs :: "ec2_cfg \<Rightarrow> string \<Rightarrow> string \<Rightarrow> string \<Rightarrow> item" where
  "run_kwargs M session_id user_id frame_queue_url =
     [(''ImageId'', PStr (ami_id M)), (''InstanceType'', PStr (instance_type M)),
      (''MinCount'', PInt 1), (''MaxCount'', PInt 1), (''SubnetId'', PStr (subnet_id M)),
      (''SecurityGroupIds'', PList [PStr (security_group_id M)]),
      (''IamInstanceProfile'', PDict [(''Name'', PStr (iam_instance_profile M))]),
      (''MetadataOptions'', PDict [(''HttpTokens'', PStr ''required''), (''HttpPutResponseHopLimit'', PInt 2),
                                   (''HttpEndpoint'', PStr ''enabled'')]),
      (''UserData'', PStr (build_user_data (launch_inputs_of M session_id frame_queue_url))),
      (''TagSpecifications'', tag_specifications M session_id user_id)]"

definition launched_id :: "pyval \<Rightarrow> exn + string" where
  "launched_id response =
     (case resp_list response ''Instances'' of
        Inl e \<Rightarrow> Inl e
      | Inr [] \<Rightarrow> Inl (RuntimeError ''ec2:RunInstances returned no instances'')
      | Inr (i # _) \<Rightarrow>
          (case get_attr i ''InstanceId'' of
             Inl e \<Rightarrow> Inl e
           | Inr v \<Rightarrow>
               (case as_str v of
                  None \<Rightarrow> Inl (RuntimeError ''ec2:RunInstances response missing InstanceId'')
                | Some s \<Rightarrow> Inr s)))"

definition run_instance :: "'t env \<Rightarrow> ec2_cfg \<Rightarrow> string \<Rightarrow> string \<Rightarrow> string \<Rightarrow> ('t world, string) io" where
  "run_instance E M session_id user_id frame_queue_url =
     tryE (invoke E (Ec2Run (run_kwargs M session_id user_id frame_queue_url)))
       (\<lambda>e. raiseE (if is_client_error e then classify_run_instances_error E e else e))
       (\<lambda>response. liftE (launched_id response))"

section \<open>Describing and terminating\<close>

record instance_details =
  id_instance_id :: string
  id_state :: string
  id_tags :: "(string \<times> string) list"

text \<open>\<^verbatim>\<open>tags[key] = value\<close> for every tag whose key and value are strings.\<close>

fun tag_dict :: "pyval list \<Rightarrow> (string \<times> string) list \<Rightarrow> exn + (string \<times> string) list" where
  "tag_dict [] acc = Inr acc"
| "tag_dict (t # ts) acc =
     (case as_dict t of
        None \<Rightarrow> Inl AttributeError
      | Some d \<Rightarrow>
          (case (as_str (dget d ''Key''), as_str (dget d ''Value'')) of
             (Some k, Some v) \<Rightarrow> tag_dict ts (AList.update k v acc)
           | _ \<Rightarrow> tag_dict ts acc))"

definition state_name :: "pyval \<Rightarrow> string option" where
  "state_name block = Option.bind (as_dict block) (\<lambda>d. as_str (dget d ''Name''))"

definition details_of :: "string \<Rightarrow> pyval \<Rightarrow> exn + instance_details option" where
  "details_of instance_id inst =
     (case as_dict inst of
        None \<Rightarrow> Inl AttributeError
      | Some d \<Rightarrow>
          if dget d ''InstanceId'' \<noteq> PStr instance_id then Inr None
          else (case resp_list inst ''Tags'' of
                  Inl e \<Rightarrow> Inl e
                | Inr ts \<Rightarrow>
                    (case tag_dict ts [] of
                       Inl e \<Rightarrow> Inl e
                     | Inr tags \<Rightarrow> Inr (Some \<lparr>id_instance_id = instance_id,
                                          id_state = coerce_state (state_name (dget d ''State'')),
                                          id_tags = tags\<rparr>))))"

fun first_details :: "string \<Rightarrow> pyval list \<Rightarrow> exn + instance_details option" where
  "first_details i [] = Inr None"
| "first_details i (x # xs) =
     (case details_of i x of Inl e \<Rightarrow> Inl e | Inr (Some d) \<Rightarrow> Inr (Some d) | Inr None \<Rightarrow> first_details i xs)"

fun search_reservations :: "string \<Rightarrow> pyval list \<Rightarrow> exn + instance_details option" where
  "search_reservations i [] = Inr None"
| "search_reservations i (r # rs) =
     (case resp_list r ''Instances'' of
        Inl e \<Rightarrow> Inl e
      | Inr xs \<Rightarrow>
          (case first_details i xs of
             Inl e \<Rightarrow> Inl e | Inr (Some d) \<Rightarrow> Inr (Some d) | Inr None \<Rightarrow> search_reservations i rs))"

definition find_details :: "string \<Rightarrow> pyval \<Rightarrow> exn + instance_details option" where
  "find_details i response =
     (case resp_list response ''Reservations'' of Inl e \<Rightarrow> Inl e | Inr rs \<Rightarrow> search_reservations i rs)"

definition describe_instance :: "'t env \<Rightarrow> string \<Rightarrow> ('t world, instance_details option) io" where
  "describe_instance E instance_id =
     tryE (invoke E (Ec2DescribeId instance_id))
       (\<lambda>e. if is_client_error e then retE None else raiseE e)
       (\<lambda>response. liftE (find_details instance_id response))"

record running_instance =
  ri_id :: string
  ri_session_id :: "string option"
  ri_launched_at :: pyval

text \<open>The value of the first \<^verbatim>\<open>SessionId\<close> tag, when it is a string.\<close>

fun session_tag :: "pyval list \<Rightarrow> exn + string option" where
  "session_tag [] = Inr None"
| "session_tag (t # ts) =
     (case as_dict t of
        None \<Rightarrow> Inl AttributeError
      | Some d \<Rightarrow> if dget d ''Key'' = PStr ''SessionId'' then Inr (as_str (dget d ''Value'')) else session_tag ts)"

definition running_of :: "pyval \<Rightarrow> exn + running_instance option" where
  "running_of inst =
     (case as_dict inst of
        None \<Rightarrow> Inl AttributeError
      | Some d \<Rightarrow>
          (case as_str (dget d ''InstanceId'') of
             None \<Rightarrow> Inr None
           | Some i \<Rightarrow>
               (case resp_list inst ''Tags'' of
                  Inl e \<Rightarrow> Inl e
                | Inr ts \<Rightarrow>
                    (case session_tag ts of
                       Inl e \<Rightarrow> Inl e
                     | Inr sid \<Rightarrow> Inr (Some \<lparr>ri_id = i, ri_session_id = sid,
                                             ri_launched_at = dget d ''LaunchTime''\<rparr>)))))"

fun running_instances :: "pyval list \<Rightarrow> exn + running_instance list" where
  "running_instances [] = Inr []"
| "running_instances (x # xs) =
     (case running_of x of
        Inl e \<Rightarrow> Inl e
      | Inr r \<Rightarrow>
          (case running_instances xs of
             Inl e \<Rightarrow> Inl e
           | Inr rs \<Rightarrow> Inr (case r of None \<Rightarrow> rs | Some i \<Rightarrow> i # rs)))"

fun all_reservations :: "pyval list \<Rightarrow> exn + running_instance list" where
  "all_reservations [] = Inr []"
| "all_reservations (r # rs) =
     (case resp_list r ''Instances'' of
        Inl e \<Rightarrow> Inl e
      | Inr xs \<Rightarrow>
          (case (running_instances xs, all_reservations rs) of
             (Inl e, _) \<Rightarrow> Inl e
           | (Inr _, Inl e) \<Rightarrow> Inl e
           | (Inr a, Inr b) \<Rightarrow> Inr (a @ b)))"

definition list_running_instances :: "'t env \<Rightarrow> ec2_cfg \<Rightarrow> ('t world, running_instance list) io" where
  "list_running_instances E M =
     bindE (invoke E (Ec2Describe [(''tag:Spawner'', [spawner_tag M]),
                                   (''instance-state-name'', [''pending'', ''running''])])) (\<lambda>response.
     bindE (liftE (resp_list response ''Reservations'')) (\<lambda>rs.
     liftE (all_reservations rs)))"

definition terminated_states :: "pyval \<Rightarrow> exn + string \<times> string" where
  "terminated_states response =
     (case resp_list response ''TerminatingInstances'' of
        Inl e \<Rightarrow> Inl e
      | Inr [] \<Rightarrow> Inl (RuntimeError ''ec2:TerminateInstances returned no instances'')
      | Inr (x # _) \<Rightarrow>
          (case as_dict x of
             None \<Rightarrow> Inl AttributeError
           | Some d \<Rightarrow> Inr (coerce_state (state_name (dget d ''PreviousState'')),
                           coerce_state (state_name (dget d ''CurrentState'')))))"

definition terminate_instance :: "'t env \<Rightarrow> string \<Rightarrow> ('t world, string \<times> string) io" where
  "terminate_instance E instance_id =
     bindE (invoke E (Ec2Terminate instance_id)) (\<lambda>response. liftE (terminated_states response))"

section \<open>Status envelopes\<close>

definition reserved_keys :: "string list" where
  "reserved_keys = [''type'', ''stage'', ''detail'', ''ts'']"

fun add_extra :: "item \<Rightarrow> item \<Rightarrow> item" where
  "add_extra [] env = env"
| "add_extra ((k, v) # rest) env = add_extra rest (if k \<in> set reserved_keys then env else dset k v env)"

definition status_envelope :: "string \<Rightarrow> string \<Rightarrow> string \<Rightarrow> item \<Rightarrow> item" where
  "status_envelope stage detail ts extra =
     add_extra extra [(''type'', PStr ''status''), (''stage'', PStr stage), (''detail'', PStr detail), (''ts'', PStr ts)]"

text \<open>\<open>StatusPublisher.post\<close>: no exception of the management API leaves it.\<close>

definition post_status :: "'t env \<Rightarrow> string \<Rightarrow> string \<Rightarrow> string \<Rightarrow> string \<Rightarrow> item \<Rightarrow> ('t world, bool) io" where
  "post_status E endpoint connection_id stage detail extra =
     (if connection_id = [] \<or> stage = [] then retE False
      else if endpoint = [] then retE False
      else
        bindE (utcnow E) (\<lambda>now.
        tryE (invoke E (PostToConnection connection_id (status_envelope stage detail (isoformat_ms now) extra)))
          (\<lambda>e. retE False)
          (\<lambda>_. retE True)))"

section \<open>The spawn callback\<close>

record spawn_intent =
  si_session_id :: string
  si_user_id :: string
  si_tenant_id :: string

record spawn_cfg =
  sp_pool :: pool_cfg
  sp_ec2 :: ec2_cfg
  sp_sessions_table :: string
  sp_publisher :: "string option"
  sp_max_sessions :: int

definition post_stage :: "'t env \<Rightarrow> spawn_cfg \<Rightarrow> spawn_intent \<Rightarrow> string \<Rightarrow> string \<Rightarrow> item \<Rightarrow> ('t world, unit) io" where
  "post_stage E S intent stage detail extra =
     (case sp_publisher S of
        None \<Rightarrow> retE ()
      | Some endpoint \<Rightarrow>
          tryE (post_status E endpoint (si_session_id intent) stage detail extra)
            (\<lambda>e. retE ())
            (\<lambda>_. retE ()))"

text \<open>
  The sort key of an instance, \<^verbatim>\<open>launched_at or datetime.min\<close>, and the instances to evict so that one
  more fits under the cap.
\<close>

definition datetime_min :: int where
  "datetime_min = - 62135596800000000"

definition launch_key :: "running_instance \<Rightarrow> int" where
  "launch_key r = (case as_int (ri_launched_at r) of None \<Rightarrow> datetime_min | Some t \<Rightarrow> t)"

definition victims :: "int \<Rightarrow> running_instance list \<Rightarrow> running_instance list" where
  "victims cap running =
     (if int (length running) < cap then []
      else take (nat (int (length running) - cap + 1)) (sort_key launch_key running))"

definition evict_one :: "'t env \<Rightarrow> spawn_cfg \<Rightarrow> spawn_intent \<Rightarrow> running_instance \<Rightarrow> ('t world, unit) io" where
  "evict_one E S intent victim =
     (let sid = (case ri_session_id victim of None \<Rightarrow> ''(no-sid)'' | Some s \<Rightarrow> if s = [] then ''(no-sid)'' else s);
          cap = str_int (sp_max_sessions S) in
      bindE (post_stage E S intent ''session-evicted''
               (''At concurrent-session cap ('' @ cap @ ''); evicting older session '' @ sid)
               [(''evicted_instance_id'', PStr (ri_id victim)), (''evicted_session_id'', PStr sid),
                (''cap'', PInt (sp_max_sessions S))]) (\<lambda>_.
      tryE (terminate_instance E (ri_id victim)) (\<lambda>e. retE ()) (\<lambda>_. retE ())))"

definition evict_oldest_if_at_cap :: "'t env \<Rightarrow> spawn_cfg \<Rightarrow> spawn_intent \<Rightarrow> ('t world, unit) io" where
  "evict_oldest_if_at_cap E S intent =
     (if sp_max_sessions S \<le> 0 then retE ()
      else
        tryE (list_running_instances E (sp_ec2 S))
          (\<lambda>e. retE ())
          (\<lambda>running. forE (evict_one E S intent) (victims (sp_max_sessions S) running)))"

definition session_row_update :: "'t env \<Rightarrow> spawn_cfg \<Rightarrow> spawn_intent \<Rightarrow> pool_claim_result \<Rightarrow> ('t world, item) io" where
  "session_row_update E S intent res =
     update_item E (sp_sessions_table S) [(''session_id'', PStr (si_session_id intent))]
       [SetAttr ''frame_queue_url'' (PStr (queue_url res)), SetAttr ''pool_queue_id'' (PInt (pool_id res)),
        SetAttr ''status'' (PStr ''spawning-gpu'')]
       (AttrExists ''session_id'')"

text \<open>What the handler of a failed launch posts: the classified failure, or a general message.\<close>

fun launch_failure :: "exn \<Rightarrow> string \<times> item" where
  "launch_failure (RunInstancesFailure code aws_code msg) =
     (code @ '': '' @ msg, [(''error_code'', PStr code), (''aws_error_code'', PStr aws_code)])"
| "launch_failure _ =
     (''RunInstances failed with an unexpected error'', [(''error_code'', PStr ''unknown-spawn-failure'')])"

text \<open>\<open>give_up\<close>: post the failure, release the slot, raise the exception again.\<close>

definition give_up :: "'t env \<Rightarrow> spawn_cfg \<Rightarrow> spawn_intent \<Rightarrow> pool_claim_result \<Rightarrow> string \<times> item \<Rightarrow> exn \<Rightarrow>
    ('t world, unit) io" where
  "give_up E S intent res what e =
     bindE (post_stage E S intent ''spawn-failed'' (fst what) (snd what)) (\<lambda>_.
     bindE (release E (sp_pool S) (pool_id res) (si_session_id intent)) (\<lambda>_.
     raiseE e))"

definition launch :: "'t env \<Rightarrow> spawn_cfg \<Rightarrow> spawn_intent \<Rightarrow> pool_claim_result \<Rightarrow> ('t world, unit) io" where
  "launch E S intent res =
     bindE (post_stage E S intent ''session-row-updated'' ''Session row updated with frame_queue_url'' []) (\<lambda>_.
     bindE (post_stage E S intent ''run-instances-issued'' ''Requesting EC2 g4dn.xlarge Spot'' []) (\<lambda>_.
     tryE (run_instance E (sp_ec2 S) (si_session_id intent) (si_user_id intent) (queue_url res))
       (\<lambda>e. give_up E S intent res (launch_failure e) e)
       (\<lambda>instance_id.
          post_stage E S intent ''instance-launching'' (''Instance '' @ instance_id @ '' launching'')
            [(''instance_id'', PStr instance_id)])))"

definition spawn_claimed :: "'t env \<Rightarrow> spawn_cfg \<Rightarrow> spawn_intent \<Rightarrow> pool_claim_result \<Rightarrow> ('t world, unit) io" where
  "spawn_claimed E S intent res =
     bindE (post_stage E S intent ''pool-claimed'' (''Pool queue '' @ str_int (pool_id res) @ '' claimed'')
              [(''pool_id'', PInt (pool_id res)), (''queue_url'', PStr (queue_url res))]) (\<lambda>_.
     tryE (session_row_update E S intent res)
       (\<lambda>e. give_up E S intent res
              (''Session row update failed (row missing or DDB error)'',
               [(''error_code'', PStr ''session-row-update-failed'')]) e)
       (\<lambda>_. launch E S intent res))"

fun is_pool_exhausted :: "exn \<Rightarrow> bool" where
  "is_pool_exhausted (PoolExhaustedError _) = True"
| "is_pool_exhausted _ = False"

definition spawn_callback :: "'t env \<Rightarrow> spawn_cfg \<Rightarrow> spawn_intent \<Rightarrow> ('t world, unit) io" where
  "spawn_callback E S intent =
     bindE (post_stage E S intent ''spawn-message-received'' ''Spawn intent picked up from queue'' []) (\<lambda>_.
     bindE (evict_oldest_if_at_cap E S intent) (\<lambda>_.
     tryE (claim E (sp_pool S) (si_session_id intent))
       (\<lambda>e. if is_pool_exhausted e
            then bindE (post_stage E S intent ''spawn-failed''
                   ''All 32 frame queues are claimed; retry in ~60s''
                   [(''error_code'', PStr ''pool-exhausted'')]) (\<lambda>_. raiseE e)
            else raiseE e)
       (\<lambda>res. spawn_claimed E S intent res)))"

section \<open>The consumer\<close>

definition from_event_detail :: "(pyval \<Rightarrow> string) \<Rightarrow> item \<Rightarrow> exn + spawn_intent" where
  "from_event_detail show_val detail =
     (case nonempty_str (dget detail ''session_id'') of
        None \<Rightarrow> Inl (ValueError ''event detail missing session_id'')
      | Some sid \<Rightarrow> Inr \<lparr>si_session_id = sid, si_user_id = text_or_empty show_val (dget detail ''user_id''),
                        si_tenant_id = text_or_empty show_val (dget detail ''tenant_id'')\<rparr>)"

record consumer_cfg =
  co_queue_url :: string
  co_wait :: int
  co_max :: int
  co_visibility :: "int option"
  jloads :: "string \<Rightarrow> pyval option"
  co_show :: "pyval \<Rightarrow> string"

definition dispatch_intent :: "'t env \<Rightarrow> consumer_cfg \<Rightarrow> (spawn_intent \<Rightarrow> ('t world, unit) io) \<Rightarrow> string \<Rightarrow> item \<Rightarrow>
    ('t world, unit) io" where
  "dispatch_intent E Q spawn receipt detail =
     (case from_event_detail (co_show Q) detail of
        Inl _ \<Rightarrow> retE ()
      | Inr intent \<Rightarrow>
          tryE (spawn intent)
            (\<lambda>e. retE ())
            (\<lambda>_. bindE (invoke E (SqsDelete (co_queue_url Q) receipt)) (\<lambda>_. retE ())))"

definition process_message :: "'t env \<Rightarrow> consumer_cfg \<Rightarrow> (spawn_intent \<Rightarrow> ('t world, unit) io) \<Rightarrow> item \<Rightarrow>
    ('t world, unit) io" where
  "process_message E Q spawn message =
     (case (as_str (dget message ''Body''), as_str (dget message ''ReceiptHandle'')) of
        (Some body, Some receipt) \<Rightarrow>
          (case jloads Q body of
             None \<Rightarrow> retE ()
           | Some envelope \<Rightarrow>
               bindE (liftE (get_attr envelope ''detail'')) (\<lambda>d.
               (case as_dict d of None \<Rightarrow> retE () | Some detail \<Rightarrow> dispatch_intent E Q spawn receipt detail)))
      | _ \<Rightarrow> retE ())"

definition process_value :: "'t env \<Rightarrow> consumer_cfg \<Rightarrow> (spawn_intent \<Rightarrow> ('t world, unit) io) \<Rightarrow> pyval \<Rightarrow>
    ('t world, unit) io" where
  "process_value E Q spawn m =
     (case as_dict m of None \<Rightarrow> raiseE AttributeError | Some d \<Rightarrow> process_message E Q spawn d)"

definition poll_once :: "'t env \<Rightarrow> consumer_cfg \<Rightarrow> (spawn_intent \<Rightarrow> ('t world, unit) io) \<Rightarrow> ('t world, nat) io" where
  "poll_once E Q spawn =
     bindE (invoke E (SqsReceive (co_queue_url Q) (co_max Q) (co_wait Q) (co_visibility Q))) (\<lambda>resp.
     bindE (liftE (resp_list resp ''Messages'')) (\<lambda>messages.
     bindE (forE (process_value E Q spawn) messages) (\<lambda>_. retE (length messages))))"

section \<open>The HTTP routes\<close>

definition tag_val :: "instance_details \<Rightarrow> string \<Rightarrow> string option" where
  "tag_val d k = map_of (id_tags d) k"

definition instance_not_found :: exn where
  "instance_not_found = HTTPException 404 ''instance not found''"

definition spawner_audit :: "principal \<Rightarrow> string \<Rightarrow> string \<Rightarrow> item \<Rightarrow> audit_args" where
  "spawner_audit p action instance_id details =
     \<lparr>ra_actor_id = pr_actor_id p, ra_actor_type = ''service'', ra_action = action,
      ra_resource_type = ''ec2_instance'', ra_resource_id = instance_id, ra_source_service = ''gpu-spawner'',
      ra_details = details\<rparr>"

definition spawn_instance :: "'t env \<Rightarrow> ec2_cfg \<Rightarrow> principal \<Rightarrow> string \<Rightarrow> string \<Rightarrow> ('t world, string) io" where
  "spawn_instance E M p session_id user_id =
     bindE (liftE (require_service_actor p)) (\<lambda>p.
     bindE (run_instance E M session_id user_id []) (\<lambda>instance_id.
     bindE (record_event E (spawner_audit p ''gpu_spawner.spawned'' instance_id
              [(''session_id'', PStr session_id), (''user_id'', PStr user_id)])) (\<lambda>_.
     retE instance_id)))"

definition get_instance_state :: "'t env \<Rightarrow> ec2_cfg \<Rightarrow> principal \<Rightarrow> string \<Rightarrow>
    ('t world, string \<times> string \<times> string option \<times> string option) io" where
  "get_instance_state E M p instance_id =
     bindE (describe_instance E instance_id) (\<lambda>details.
     (case details of
        None \<Rightarrow> raiseE instance_not_found
      | Some d \<Rightarrow>
          if tag_val d ''Spawner'' \<noteq> Some (spawner_tag M) then raiseE instance_not_found
          else if pr_actor_type p = ''user'' \<and> tag_val d ''SessionId'' \<noteq> Some (pr_session_id p)
          then raiseE instance_not_found
          else retE (id_instance_id d, id_state d, tag_val d ''SessionId'', tag_val d ''UserId'')))"

definition delete_instance :: "'t env \<Rightarrow> ec2_cfg \<Rightarrow> principal \<Rightarrow> string \<Rightarrow> ('t world, string \<times> string \<times> string) io" where
  "delete_instance E M p instance_id =
     bindE (liftE (require_service_actor p)) (\<lambda>p.
     bindE (describe_instance E instance_id) (\<lambda>details.
     (case details of
        None \<Rightarrow> raiseE instance_not_found
      | Some d \<Rightarrow>
          if tag_val d ''Spawner'' \<noteq> Some (spawner_tag M)
          then raiseE (HTTPException 403 ''instance not owned by this spawner'')
          else
            bindE (terminate_instance E instance_id) (\<lambda>(prev, curr).
            bindE (record_event E (spawner_audit p ''gpu_spawner.terminated'' instance_id
                [(''session_id'', opt_val (tag_val d ''SessionId'')), (''user_id'', opt_val (tag_val d ''UserId'')),
                 (''previous_state'', PStr prev), (''current_state'', PStr curr)])) (\<lambda>_.
            retE (instance_id, prev, curr))))))"

section \<open>Properties: eviction\<close>

text \<open>
  Under a positive cap the eviction makes room for one instance and no more: the survivors are
  fewer than the cap, nothing is evicted below the cap, exactly \<open>cap - 1\<close> survive at or above it, and
  no victim was launched after a survivor.
\<close>

lemma eviction_makes_room:
  assumes "0 < cap"
  shows "\<exists>rest. mset running = mset (victims cap running) + mset rest \<and> int (length rest) < cap \<and>
     (int (length running) < cap \<longrightarrow> victims cap running = []) \<and>
     (cap \<le> int (length running) \<longrightarrow> int (length rest) = cap - 1) \<and>
     (\<forall>v \<in> set (victims cap running). \<forall>r \<in> set rest. launch_key v \<le> launch_key r)"
proof (cases "int (length running) < cap")
  case True
  then show ?thesis by (intro exI [of _ running]) (simp add: victims_def)
next
  case False
  let ?n = "nat (int (length running) - cap + 1)" and ?s = "sort_key launch_key running"
  have n: "?n \<le> length running" "int (length running - ?n) = cap - 1" using False assms by auto
  have sorted: "sorted (map launch_key (take ?n ?s @ drop ?n ?s))" by (simp add: sorted_sort_key)
  have "mset running = mset (take ?n ?s) + mset (drop ?n ?s)"
    by (metis append_take_drop_id mset_append mset_sort)
  moreover have "\<forall>v \<in> set (take ?n ?s). \<forall>r \<in> set (drop ?n ?s). launch_key v \<le> launch_key r"
    using sorted unfolding map_append sorted_append by auto
  ultimately show ?thesis using False n assms
    by (intro exI [of _ "drop ?n ?s"]) (simp add: victims_def)
qed

section \<open>Properties: no slot is kept by a failed launch\<close>

lemma post_stage_ok:
  assumes "post_stage E S intent stage detail extra w = (r, w')"
  shows "r = Inr ()" "rows V w' = rows V w"
  using assms
  by (auto simp: post_stage_def post_status_def tryE_def bindE_def retE_def utcnow_def tick_def invoke_def
      split: option.splits sum.splits if_splits prod.splits)

lemma give_up_outcome:
  assumes "ddb_ok E V" "give_up E S intent res what e w = (r, w')"
  shows "(\<exists>x w1. release E (sp_pool S) (pool_id res) (si_session_id intent) w1 = (Inl x, w') \<and> r = Inl x) \<or>
     (r = Inl e \<and> holder (pool_row V (sp_pool S) w' (pool_id res)) \<noteq> Some (PStr (si_session_id intent)))"
proof -
  obtain u w1 where p: "post_stage E S intent ''spawn-failed'' (fst what) (snd what) w = (u, w1)" by fastforce
  obtain q w2 where rel: "release E (sp_pool S) (pool_id res) (si_session_id intent) w1 = (q, w2)" by fastforce
  have u: "u = Inr ()" using post_stage_ok(1) [OF p] .
  show ?thesis
  proof (cases q)
    case (Inl x)
    with assms(2) p rel u have "r = Inl x" "w' = w2" by (auto simp: give_up_def bindE_def)
    with rel Inl show ?thesis by blast
  next
    case (Inr x)
    with assms(2) p rel u have "r = Inl e" "w' = w2" by (auto simp: give_up_def bindE_def raiseE_def)
    with release_outcome [OF assms(1) rel] Inr show ?thesis by simp
  qed
qed

lemma post_stage_then:
  assumes "bindE (post_stage E S intent stage detail extra) f w = (r, w')"
  obtains w1 where "f () w1 = (r, w')"
proof -
  obtain u w1 where p: "post_stage E S intent stage detail extra w = (u, w1)" by fastforce
  from post_stage_ok(1) [OF p] assms p have "f () w1 = (r, w')" by (simp add: bindE_def)
  then show ?thesis by (rule that)
qed

text \<open>Every exception that leaves the part after the claim has gone through \<open>give_up\<close>.\<close>

lemma launch_failure_gives_up:
  assumes "launch E S intent res w = (Inl e, w')"
  obtains what x w1 where "give_up E S intent res what x w1 = (Inl e, w')"
proof -
  from assms obtain w2 where "bindE (post_stage E S intent ''run-instances-issued'' ''Requesting EC2 g4dn.xlarge Spot'' [])
      (\<lambda>_. tryE (run_instance E (sp_ec2 S) (si_session_id intent) (si_user_id intent) (queue_url res))
       (\<lambda>e. give_up E S intent res (launch_failure e) e)
       (\<lambda>instance_id.
          post_stage E S intent ''instance-launching'' (''Instance '' @ instance_id @ '' launching'')
            [(''instance_id'', PStr instance_id)])) w2 = (Inl e, w')"
    unfolding launch_def by (rule post_stage_then)
  then obtain w3 where run: "tryE (run_instance E (sp_ec2 S) (si_session_id intent) (si_user_id intent) (queue_url res))
       (\<lambda>e. give_up E S intent res (launch_failure e) e)
       (\<lambda>instance_id.
          post_stage E S intent ''instance-launching'' (''Instance '' @ instance_id @ '' launching'')
            [(''instance_id'', PStr instance_id)]) w3 = (Inl e, w')"
    by (rule post_stage_then)
  from run [unfolded tryE_iff] show ?thesis
  proof (elim disjE exE conjE)
    fix x w1 assume "give_up E S intent res (launch_failure x) x w1 = (Inl e, w')"
    then show ?thesis by (rule that)
  next
    fix i w1 assume "post_stage E S intent ''instance-launching'' (''Instance '' @ i @ '' launching'')
        [(''instance_id'', PStr i)] w1 = (Inl e, w')"
    from post_stage_ok(1) [OF this] show ?thesis by simp
  qed
qed

lemma spawn_claimed_failure_gives_up:
  assumes "spawn_claimed E S intent res w = (Inl e, w')"
  obtains what x w1 where "give_up E S intent res what x w1 = (Inl e, w')"
proof -
  from assms obtain w2 where run: "tryE (session_row_update E S intent res)
       (\<lambda>e. give_up E S intent res
              (''Session row update failed (row missing or DDB error)'',
               [(''error_code'', PStr ''session-row-update-failed'')]) e)
       (\<lambda>_. launch E S intent res) w2 = (Inl e, w')"
    unfolding spawn_claimed_def by (rule post_stage_then)
  from run [unfolded tryE_iff] show ?thesis
    by (elim disjE exE conjE) (erule that, erule launch_failure_gives_up, erule that)
qed

text \<open>
  C6. Once a slot is claimed, a spawn that fails gives it back: whichever step raises after the claim,
  the exception reaches the consumer only after the slot's row is no longer claimed by the session,
  unless releasing it failed as well.
\<close>

theorem failed_spawn_releases_slot:
  assumes "ddb_ok E V" "spawn_claimed E S intent res w = (Inl e, w')"
  shows "(\<exists>w1. release E (sp_pool S) (pool_id res) (si_session_id intent) w1 = (Inl e, w')) \<or>
     holder (pool_row V (sp_pool S) w' (pool_id res)) \<noteq> Some (PStr (si_session_id intent))"
proof -
  from assms(2) obtain what x w1 where "give_up E S intent res what x w1 = (Inl e, w')"
    by (rule spawn_claimed_failure_gives_up)
  from give_up_outcome [OF assms(1) this] show ?thesis by blast
qed

section \<open>Properties: the consumer\<close>

text \<open>The spawn a message asks for, with its receipt.\<close>

definition asks_for :: "consumer_cfg \<Rightarrow> item \<Rightarrow> spawn_intent \<Rightarrow> string \<Rightarrow> bool" where
  "asks_for Q message intent receipt \<longleftrightarrow>
     (\<exists>body env detail. dget message ''Body'' = PStr body \<and> dget message ''ReceiptHandle'' = PStr receipt \<and>
        jloads Q body = Some (PDict env) \<and> dget env ''detail'' = PDict detail \<and>
        from_event_detail (co_show Q) detail = Inr intent)"

lemma process_message_spawns:
  assumes "asks_for Q message intent receipt"
  shows "process_message E Q spawn message =
     tryE (spawn intent) (\<lambda>e. retE ()) (\<lambda>_. bindE (invoke E (SqsDelete (co_queue_url Q) receipt)) (\<lambda>_. retE ()))"
  using assms
  by (auto simp: asks_for_def process_message_def dispatch_intent_def get_attr_def bindE_def liftE_def)

lemma process_message_idle:
  assumes "\<And>intent receipt. \<not> asks_for Q message intent receipt" "process_message E Q spawn message w = (r, w')"
  shows "w' = w"
  using assms
  by (auto simp: asks_for_def process_message_def dispatch_intent_def get_attr_def bindE_def liftE_def retE_def
      split: option.split_asm sum.split_asm)

text \<open>
  C33. A message is acknowledged only after its spawn has returned: when the message asks for a spawn,
  that spawn runs once, and either it returns and then exactly this message is deleted, or it raises,
  the consumer goes on and the message stays for redelivery; a message that asks for none has no
  effect at all.
\<close>

theorem message_deleted_only_after_spawn:
  assumes "process_message E Q spawn message w = (r, w')"
  shows "(\<exists>intent receipt. asks_for Q message intent receipt \<and>
        ((\<exists>w1. spawn intent w = (Inr (), w1) \<and>
            w' = w1\<lparr>trace := trace w1 @ [SqsDelete (co_queue_url Q) receipt]\<rparr>) \<or>
         (\<exists>e. spawn intent w = (Inl e, w') \<and> r = Inr ()))) \<or>
     (\<nexists>intent receipt. asks_for Q message intent receipt) \<and> w' = w"
proof (cases "\<exists>intent receipt. asks_for Q message intent receipt")
  case True
  then obtain intent receipt where a: "asks_for Q message intent receipt" by blast
  have "(\<exists>w1. spawn intent w = (Inr (), w1) \<and> w' = w1\<lparr>trace := trace w1 @ [SqsDelete (co_queue_url Q) receipt]\<rparr>) \<or>
      (\<exists>e. spawn intent w = (Inl e, w') \<and> r = Inr ())"
    using assms process_message_spawns [OF a, of E spawn]
    by (auto simp: tryE_def bindE_def invoke_def retE_def split: sum.splits prod.splits)
  with a show ?thesis by blast
next
  case False
  with process_message_idle [OF _ assms] show ?thesis by blast
qed

section \<open>Properties: the routes\<close>

lemma describe_Some:
  assumes "describe_instance E i w = (Inr (Some d), w')"
  obtains response where "svc E (trace w) (Ec2DescribeId i) = Inr response" "find_details i response = Inr (Some d)"
    "trace w' = trace w @ [Ec2DescribeId i]"
  using assms by (auto simp: describe_instance_def tryE_def invoke_def liftE_def retE_def raiseE_def
      split: sum.splits if_splits)

lemma first_details_id: "first_details i xs = Inr (Some d) \<Longrightarrow> id_instance_id d = i"
  by (induction xs) (auto simp: details_of_def split: sum.splits option.splits if_splits)

lemma find_details_id: "find_details i response = Inr (Some d) \<Longrightarrow> id_instance_id d = i"
proof -
  have "search_reservations i rs = Inr (Some d) \<Longrightarrow> id_instance_id d = i" for rs
    by (induction rs) (auto split: sum.splits option.splits dest: first_details_id)
  then show "find_details i response = Inr (Some d) \<Longrightarrow> id_instance_id d = i"
    by (auto simp: find_details_def split: sum.splits)
qed

text \<open>
  The state of an instance is disclosed only when EC2 describes an instance of this identifier
  carrying this spawner's tag, and to a user only when its session tag is the user's session.
\<close>

lemma instance_state_scoped:
  assumes "get_instance_state E M p i w = (Inr (iid, st, sid, uid), w')"
  shows "\<exists>response d. svc E (trace w) (Ec2DescribeId i) = Inr response \<and> find_details i response = Inr (Some d) \<and>
     iid = i \<and> tag_val d ''Spawner'' = Some (spawner_tag M) \<and> sid = tag_val d ''SessionId'' \<and>
     (pr_actor_type p = ''user'' \<longrightarrow> sid = Some (pr_session_id p))"
proof -
  obtain d w1 where d: "describe_instance E i w = (Inr (Some d), w1)"
    and ok: "tag_val d ''Spawner'' = Some (spawner_tag M)" "iid = id_instance_id d" "sid = tag_val d ''SessionId''"
      "pr_actor_type p = ''user'' \<longrightarrow> tag_val d ''SessionId'' = Some (pr_session_id p)"
    using assms by (auto simp: get_instance_state_def bindE_Inr_iff raiseE_def retE_def
        split: option.split_asm if_split_asm)
  from d obtain response where "svc E (trace w) (Ec2DescribeId i) = Inr response" "find_details i response = Inr (Some d)"
    by (rule describe_Some)
  with ok find_details_id show ?thesis by auto
qed

lemma describe_calls: "keeps (only_calls (\<lambda>c. c = Ec2DescribeId i)) (describe_instance E i)"
  unfolding describe_instance_def by (auto intro!: keeps_intros)

definition no_terminate :: "call \<Rightarrow> bool" where
  "no_terminate c \<longleftrightarrow> (\<forall>j. c \<noteq> Ec2Terminate j)"

lemma terminate_calls:
  "keeps (only_calls (\<lambda>c. c = Ec2Terminate i \<or> no_terminate c))
     (bindE (terminate_instance E i) (\<lambda>(prev, curr). bindE (record_event E (a prev curr)) (\<lambda>_. retE (f prev curr))))"
  unfolding terminate_instance_def by (auto intro!: keeps_intros simp: no_terminate_def split: prod.split)

text \<open>
  An instance is terminated over HTTP only by a service actor, only the one named in the request,
  and only after EC2 described it with this spawner's tag.
\<close>

lemma terminate_requires_ownership:
  assumes "delete_instance E M p i w = (r, w')" "Ec2Terminate j \<in> set (new_calls w w')"
  shows "j = i \<and> pr_actor_type p = ''service'' \<and>
     (\<exists>response d. svc E (trace w) (Ec2DescribeId i) = Inr response \<and> find_details i response = Inr (Some d) \<and>
        tag_val d ''Spawner'' = Some (spawner_tag M))"
proof -
  have svc: "pr_actor_type p = ''service''"
    using assms by (auto simp: delete_instance_def require_service_actor_def bindE_def liftE_def new_calls_def
        split: if_splits)
  obtain q w1 where d: "describe_instance E i w = (q, w1)" by fastforce
  have quiet: "Ec2Terminate j \<notin> set (new_calls w w1)"
    using only_calls_new [OF keepsD [OF describe_calls d]] by blast
  obtain dd where q: "q = Inr (Some dd)" and tag: "tag_val dd ''Spawner'' = Some (spawner_tag M)"
    using assms quiet svc d
    by (auto simp: delete_instance_def require_service_actor_def bindE_def liftE_def raiseE_def
        split: sum.splits option.splits if_splits)
  from d q obtain response where resp: "svc E (trace w) (Ec2DescribeId i) = Inr response"
      "find_details i response = Inr (Some dd)" and t1: "trace w1 = trace w @ [Ec2DescribeId i]"
    by (metis describe_Some)
  have "only_calls (\<lambda>c. c = Ec2Terminate i \<or> no_terminate c) w1 w'"
    using assms(1) svc d q tag
    by (auto simp: delete_instance_def require_service_actor_def bindE_Inr liftE_def
        intro!: keepsD [OF terminate_calls])
  then have "j = i" using assms(2) t1 by (auto simp: only_calls_def new_calls_def list_all_iff no_terminate_def)
  with svc resp tag show ?thesis by blast
qed

section \<open>Witnesses\<close>

definition spawn_demo_ec2 :: ec2_cfg where
  "spawn_demo_ec2 = \<lparr>ami_id = ''ami-1'', instance_type = ''g4dn.xlarge'', security_group_id = ''sg-1'',
     subnet_id = ''subnet-1'', iam_instance_profile = ''profile'', project_tag = ''panakoes'',
     spawner_tag = ''gpu-spawner'', ec2_ws_mgmt_endpoint = [], ec2_image_uri = ''image'',
     ec2_sessions_table = ''sessions'', ec2_frame_pool_table = ''p'', ec2_transcripts_bucket = [],
     ec2_region = ''us-east-1''\<rparr>"

definition spawn_demo_cfg :: spawn_cfg where
  "spawn_demo_cfg = \<lparr>sp_pool = pool_demo_cfg, sp_ec2 = spawn_demo_ec2, sp_sessions_table = ''sessions'',
     sp_publisher = None, sp_max_sessions = 0\<rparr>"

definition spawn_demo_intent :: spawn_intent where
  "spawn_demo_intent = \<lparr>si_session_id = ''s'', si_user_id = ''u'', si_tenant_id = []\<rparr>"

definition spawn_demo_claim :: pool_claim_result where
  "spawn_demo_claim = \<lparr>queue_url = ''q1'', pool_id = 1\<rparr>"

definition spawn_demo_world :: "mem world" where
  "spawn_demo_world = pool_demo_world (dset ''claimed_by'' (PStr ''s'') pool_demo_row)"

text \<open>The session's row is missing: the launch is given up and the slot is free again.\<close>

theorem failed_spawn_releases_slot_witness:
  "\<exists>w'. spawn_claimed (pool_demo_env (\<lambda>_ _. Inr (PDict []))) spawn_demo_cfg spawn_demo_intent spawn_demo_claim
       spawn_demo_world = (Inl (ClientError ccf_code []), w') \<and>
     holder (pool_row mem_view pool_demo_cfg spawn_demo_world 1) = Some (PStr ''s'') \<and>
     holder (pool_row mem_view pool_demo_cfg w' 1) \<noteq> Some (PStr ''s'')"
proof -
  let ?E = "pool_demo_env (\<lambda>_ _. Inr (PDict []))"
  obtain w' where run: "spawn_claimed ?E spawn_demo_cfg spawn_demo_intent spawn_demo_claim spawn_demo_world =
      (Inl (ClientError ccf_code []), w')"
    by (simp add: spawn_claimed_def post_stage_def spawn_demo_cfg_def session_row_update_def give_up_def
        release_def bindE_def tryE_def retE_def raiseE_def pool_demo_update Let_def spawn_demo_world_def
        pool_demo_world_def pool_demo_cfg_def spawn_demo_intent_def spawn_demo_claim_def updated_row_def)
  have no_fail: "release ?E pool_demo_cfg i s w \<noteq> (Inl (ClientError ccf_code []), w'')" for i s w w''
    by (simp add: release_def tryE_def pool_demo_update Let_def retE_def)
  have h: "holder (pool_row mem_view pool_demo_cfg spawn_demo_world 1) = Some (PStr ''s'')"
    by (simp add: holder_def pool_row_def mem_view_def spawn_demo_world_def pool_demo_world_def pool_demo_cfg_def)
  from failed_spawn_releases_slot [OF pool_demo_ok run] no_fail
  have "holder (pool_row mem_view pool_demo_cfg w' 1) \<noteq> Some (PStr ''s'')"
    by (simp add: spawn_demo_cfg_def spawn_demo_intent_def spawn_demo_claim_def)
  with run h show ?thesis by blast
qed

definition spawn_demo_consumer :: consumer_cfg where
  "spawn_demo_consumer = \<lparr>co_queue_url = ''spawn-q'', co_wait = 20, co_max = 1, co_visibility = None,
     jloads = (\<lambda>s. if s = ''{}'' then Some (PDict [(''detail'', PDict [(''session_id'', PStr ''s'')])]) else None),
     co_show = (\<lambda>_. [])\<rparr>"

text \<open>A spawn that fails leaves its message on the queue.\<close>

theorem message_deleted_only_after_spawn_witness:
  "process_message (mem_env (\<lambda>_. []) (\<lambda>_ _. Inr (PDict []))) spawn_demo_consumer
      (\<lambda>_. raiseE (RuntimeError ''down'')) [(''Body'', PStr ''{}''), (''ReceiptHandle'', PStr ''r'')] spawn_demo_world =
    (Inr (), spawn_demo_world)"
proof -
  let ?spawn = "\<lambda>_. raiseE (RuntimeError ''down'') :: (mem world, unit) io"
  obtain r w' where run: "process_message (mem_env (\<lambda>_. []) (\<lambda>_ _. Inr (PDict []))) spawn_demo_consumer
      ?spawn [(''Body'', PStr ''{}''), (''ReceiptHandle'', PStr ''r'')] spawn_demo_world = (r, w')" by fastforce
  have "r = Inr ()"
    using run by (auto simp: process_message_def dget_Cons spawn_demo_consumer_def bindE_def liftE_def get_attr_def
        dispatch_intent_def from_event_detail_def tryE_def raiseE_def retE_def)
  moreover have "w' = spawn_demo_world"
    using message_deleted_only_after_spawn [OF run] by (auto simp: raiseE_def)
  ultimately show ?thesis using run by simp
qed

definition spawn_demo_answer :: "call list \<Rightarrow> call \<Rightarrow> exn + pyval" where
  "spawn_demo_answer tr c =
     (case c of
        Ec2DescribeId i \<Rightarrow>
          Inr (PDict [(''Reservations'', PList [PDict [(''Instances'', PList [PDict
            [(''InstanceId'', PStr ''i-1''), (''State'', PDict [(''Name'', PStr ''running'')]),
             (''Tags'', PList [tag ''Spawner'' ''gpu-spawner'', tag ''SessionId'' ''s''])]])]])])
      | _ \<Rightarrow> Inr (PDict [(''TerminatingInstances'', PList [PDict []])]))"

definition spawn_demo_actor :: "string \<Rightarrow> principal" where
  "spawn_demo_actor t = \<lparr>pr_actor_id = ''a'', pr_actor_type = t, pr_session_id = ''s''\<rparr>"

lemma spawn_demo_describe:
  "describe_instance (mem_env (\<lambda>_. []) spawn_demo_answer) ''i-1'' w =
     (Inr (Some \<lparr>id_instance_id = ''i-1'', id_state = ''running'',
        id_tags = [(''Spawner'', ''gpu-spawner''), (''SessionId'', ''s'')]\<rparr>), w\<lparr>trace := trace w @ [Ec2DescribeId ''i-1'']\<rparr>)"
  by (simp add: describe_instance_def tryE_def invoke_def spawn_demo_answer_def liftE_def find_details_def
      resp_list_def get_attr_def dget_Cons details_of_def tag_def state_name_def coerce_state_def known_states_def)

end
