(* ===== verification/Streaming_Router.thy ===== *)
theory Streaming_Router
  imports Owner_Scope
begin

text \<open>
  The WebSocket router of the streaming path (\<^verbatim>\<open>streaming-router/.../router.py\<close>): the \<^verbatim>\<open>$connect\<close>,
  \<^verbatim>\<open>$disconnect\<close>, audio-frame and transcript routes, the cache of queue addresses with its expiry and
  eviction, and the status posts. A \<open>Router\<close> object's state is its cache, so its methods run on pairs of
  a world and a cache; the entry point \<open>lambda_handler\<close> builds a new router, with an empty cache, for
  every event. \<open>st_loads\<close> is \<^verbatim>\<open>json.loads\<close> with \<open>None\<close> for a \<^verbatim>\<open>JSONDecodeError\<close>; connection identifiers are
  strings, as API Gateway sends them (any other value is a \<^verbatim>\<open>TypeError\<close> here).
\<close>

section \<open>State\<close>

definition cache_max :: nat where
  "cache_max = 1024"

definition cache_ttl_seconds :: rat where
  "cache_ttl_seconds = 1800"

definition connect_ttl_seconds :: int where
  "connect_ttl_seconds = 7200"

record stream_cfg =
  st_sessions_table :: string
  st_frame_queue_url :: string
  st_event_bus :: string
  st_ws_endpoint :: string
  st_loads :: "string \<Rightarrow> pyval option"
  st_show :: "pyval \<Rightarrow> string"

text \<open>An entry is a connection with its queue address and the time it was cached at.\<close>

type_synonym cache = "(string \<times> string \<times> rat) list"

type_synonym 't rstate = "'t world \<times> cache"

definition with_world :: "('t world, 'a) io \<Rightarrow> ('t rstate, 'a) io" where
  "with_world m s = (case m (fst s) of (r, w) \<Rightarrow> (r, (w, snd s)))"

definition read_cache :: "('t rstate, cache) io" where
  "read_cache s = (Inr (snd s), s)"

definition write_cache :: "cache \<Rightarrow> ('t rstate, unit) io" where
  "write_cache c s = (Inr (), (fst s, c))"

section \<open>The authorizer's context\<close>

definition sub_dict :: "item \<Rightarrow> string \<Rightarrow> pyval" where
  "sub_dict d k = py_or (dget d k) (PDict [])"

record authorizer_context =
  ac_user_id :: string
  ac_tenant_id :: string
  ac_role :: string

definition from_event :: "(pyval \<Rightarrow> string) \<Rightarrow> item \<Rightarrow> exn + authorizer_context" where
  "from_event show_val event =
     and_then (get_attr (dget_or event ''requestContext'' (PDict [])) ''authorizer'') (\<lambda>a.
     let authorizer = py_or a (PDict []) in
     and_then (get_attr authorizer ''lambda'') (\<lambda>l.
     case as_dict (py_or l authorizer) of
       None \<Rightarrow> Inl AttributeError
     | Some d \<Rightarrow> Inr \<lparr>ac_user_id = text_or_empty show_val (dget d ''user_id''),
                     ac_tenant_id = text_or_empty show_val (dget d ''tenant_id''),
                     ac_role = text_or_empty show_val (dget d ''role'')\<rparr>))"

section \<open>Status posts\<close>

text \<open>\<open>_post_status\<close>: every exception of the management API is swallowed.\<close>

definition router_post_status :: "'t env \<Rightarrow> stream_cfg \<Rightarrow> string \<Rightarrow> string \<Rightarrow> string \<Rightarrow> ('t world, unit) io" where
  "router_post_status E C connection_id stage detail =
     (if connection_id = [] \<or> stage = [] then retE ()
      else if st_ws_endpoint C = [] then retE ()
      else
        bindE (utcnow E) (\<lambda>now.
        tryE (invoke E (PostToConnection connection_id
                [(''type'', PStr ''status''), (''stage'', PStr stage), (''detail'', PStr detail),
                 (''ts'', PStr (isoformat now))]))
          (\<lambda>e. retE ())
          (\<lambda>_. retE ())))"

section \<open>Connecting\<close>

text \<open>\<^verbatim>\<open>qs.get(k) or None\<close>, and the slice \<^verbatim>\<open>v[:200]\<close>.\<close>

definition query_param :: "item \<Rightarrow> string \<Rightarrow> exn + pyval" where
  "query_param event k =
     and_then (get_attr (sub_dict event ''queryStringParameters'') k) (\<lambda>v. Inr (py_or v PNone))"

fun slice200 :: "pyval \<Rightarrow> exn + pyval" where
  "slice200 (PStr s) = Inr (PStr (take 200 s))"
| "slice200 (PList xs) = Inr (PList (take 200 xs))"
| "slice200 _ = Inl TypeError"

definition connect_base :: "authorizer_context \<Rightarrow> string \<Rightarrow> int \<Rightarrow> int \<Rightarrow> item" where
  "connect_base auth connection_id now epoch =
     [(''session_id'', PStr connection_id), (''connection_id'', PStr connection_id),
      (''status'', PStr ''connecting''), (''user_id'', PStr (ac_user_id auth)),
      (''tenant_id'', PStr (ac_tenant_id auth)), (''role'', PStr (ac_role auth)),
      (''connected_at'', PStr (isoformat now)), (''ttl_epoch_seconds'', PInt (epoch + connect_ttl_seconds))]"

definition connect_item :: "item \<Rightarrow> pyval \<Rightarrow> pyval \<Rightarrow> exn + item" where
  "connect_item base parent seed =
     (let it = (if truthy parent then dset ''parent_session_id'' parent base else base) in
      if truthy seed then and_then (slice200 seed) (\<lambda>v. Inr (dset ''prompt_seed_text'' v it)) else Inr it)"

definition connecting_event :: "stream_cfg \<Rightarrow> authorizer_context \<Rightarrow> string \<Rightarrow> call" where
  "connecting_event C auth connection_id =
     PutEvents ''panakoes.streaming-router'' ''streaming.session.connecting''
       [(''session_id'', PStr connection_id), (''user_id'', PStr (ac_user_id auth)),
        (''tenant_id'', PStr (ac_tenant_id auth))] (st_event_bus C)"

definition route_connect :: "'t env \<Rightarrow> stream_cfg \<Rightarrow> item \<Rightarrow> string \<Rightarrow> ('t world, item) io" where
  "route_connect E C event connection_id =
     bindE (liftE (from_event (st_show C) event)) (\<lambda>auth.
     bindE (utcnow E) (\<lambda>now.
     bindE (liftE (query_param event ''parent_session_id'')) (\<lambda>parent.
     bindE (liftE (query_param event ''prompt_seed_text'')) (\<lambda>seed.
     bindE (utcnow E) (\<lambda>t.
     bindE (liftE (connect_item (connect_base auth connection_id now (epoch_secs t)) parent seed)) (\<lambda>it.
     bindE (put_item E (st_sessions_table C) it CTrue) (\<lambda>_.
     bindE (tryE (invoke E (connecting_event C auth connection_id)) (\<lambda>e. retE ()) (\<lambda>_. retE ())) (\<lambda>_.
     bindE (router_post_status E C connection_id ''router-accepted'' ''Session accepted; spawn dispatched'') (\<lambda>_.
     retE [(''route'', PStr ''$connect'')])))))))))"

section \<open>Disconnecting\<close>

definition stream_key :: "string \<Rightarrow> item" where
  "stream_key connection_id = [(''session_id'', PStr connection_id)]"

definition drop_cached :: "string \<Rightarrow> cache \<Rightarrow> cache" where
  "drop_cached connection_id c = AList.delete connection_id c"

definition route_disconnect :: "'t env \<Rightarrow> stream_cfg \<Rightarrow> string \<Rightarrow> ('t rstate, item) io" where
  "route_disconnect E C connection_id =
     bindE (with_world
       (tryE (bindE (utcnow E) (\<lambda>now.
                update_item E (st_sessions_table C) (stream_key connection_id)
                  [SetAttr ''status'' (PStr ''disconnected''), SetAttr ''disconnected_at'' (PStr (isoformat now))]
                  (AttrExists ''session_id'')))
          (\<lambda>e. retE ())
          (\<lambda>_. retE ()))) (\<lambda>_.
     bindE read_cache (\<lambda>c.
     bindE (write_cache (drop_cached connection_id c)) (\<lambda>_.
     retE [(''route'', PStr ''$disconnect'')])))"

section \<open>Audio frames\<close>

text \<open>The first entry with the least time, and eviction when the cache is over its bound.\<close>

fun oldest_key :: "string \<times> string \<times> rat \<Rightarrow> cache \<Rightarrow> string" where
  "oldest_key (k, u, t) [] = k"
| "oldest_key (k, u, t) ((k', u', t') # c) =
     (if t' < t then oldest_key (k', u', t') c else oldest_key (k, u, t) c)"

definition evict_cache_if_needed :: "cache \<Rightarrow> cache" where
  "evict_cache_if_needed c =
     (if length c \<le> cache_max then c
      else case c of [] \<Rightarrow> c | e # rest \<Rightarrow> drop_cached (oldest_key e rest) c)"

definition remember :: "string \<Rightarrow> string \<Rightarrow> rat \<Rightarrow> cache \<Rightarrow> cache" where
  "remember connection_id url now c = evict_cache_if_needed (AList.update connection_id (url, now) c)"

definition fresh :: "rat \<Rightarrow> cache \<Rightarrow> string \<Rightarrow> string option" where
  "fresh now c connection_id =
     (case map_of c connection_id of
        None \<Rightarrow> None
      | Some (url, cached_at) \<Rightarrow> if now - cached_at < cache_ttl_seconds then Some url else None)"

text \<open>What the row says: its queue, the shared queue when there is no row, or nothing yet.\<close>

definition resolve_row :: "stream_cfg \<Rightarrow> string \<Rightarrow> rat \<Rightarrow> item \<Rightarrow> ('t rstate, string option) io" where
  "resolve_row C connection_id now it =
     (case nonempty_str (dget it ''frame_queue_url'') of
        Some url \<Rightarrow>
          bindE read_cache (\<lambda>c.
          bindE (write_cache (remember connection_id url now c)) (\<lambda>_. retE (Some url)))
      | None \<Rightarrow> if it = [] then retE (Some (st_frame_queue_url C)) else retE None)"

definition resolve_frame_queue_url :: "'t env \<Rightarrow> stream_cfg \<Rightarrow> string \<Rightarrow> ('t rstate, string option) io" where
  "resolve_frame_queue_url E C connection_id =
     bindE read_cache (\<lambda>c.
     bindE (with_world (tick (monotonic E))) (\<lambda>now.
     (case fresh now c connection_id of
        Some url \<Rightarrow> retE (Some url)
      | None \<Rightarrow>
          tryE (with_world (get_item E (st_sessions_table C) (stream_key connection_id)))
            (\<lambda>e. retE (Some (st_frame_queue_url C)))
            (\<lambda>i. resolve_row C connection_id now (row_attrs i)))))"

definition frame_fields :: "stream_cfg \<Rightarrow> pyval \<Rightarrow> item" where
  "frame_fields C body =
     (if \<not> truthy body then []
      else case Option.bind (as_str body) (st_loads C) of
             Some (PDict inner) \<Rightarrow> inner
           | _ \<Rightarrow> [])"

definition frame_payload :: "stream_cfg \<Rightarrow> string \<Rightarrow> pyval \<Rightarrow> int \<Rightarrow> item" where
  "frame_payload C connection_id body now =
     dset ''received_at'' (PStr (isoformat now)) (dset ''body'' body
       (dset ''session_id'' (PStr connection_id) (frame_fields C body)))"

definition route_audio_frame :: "'t env \<Rightarrow> stream_cfg \<Rightarrow> item \<Rightarrow> string \<Rightarrow> ('t rstate, item) io" where
  "route_audio_frame E C event connection_id =
     bindE (resolve_frame_queue_url E C connection_id) (\<lambda>q.
     (case q of
        None \<Rightarrow> retE [(''route'', PStr ''audio-frame''), (''dropped'', PStr ''no-queue-url'')]
      | Some url \<Rightarrow>
          if url = [] then retE [(''route'', PStr ''audio-frame''), (''dropped'', PStr ''no-queue-url'')]
          else
            bindE (with_world (utcnow E)) (\<lambda>now.
            bindE (liftE (json_dumps (frame_payload C connection_id (dget_or event ''body'' (PStr [])) now))) (\<lambda>payload.
            bindE (with_world (invoke E (SqsSend url (PDict payload) connection_id))) (\<lambda>_.
            retE [(''route'', PStr ''audio-frame'')])))))"

section \<open>Transcripts and dispatch\<close>

definition route_transcript_request :: "'t env \<Rightarrow> stream_cfg \<Rightarrow> string \<Rightarrow> ('t world, item) io" where
  "route_transcript_request E C connection_id =
     bindE (get_item E (st_sessions_table C) (stream_key connection_id)) (\<lambda>i.
     liftE (json_dumps [(''route'', PStr ''transcript-request''),
       (''transcript'', py_or (dget (row_attrs i) ''last_transcript'') (PStr []))]))"

definition route_event :: "'t env \<Rightarrow> stream_cfg \<Rightarrow> pyval \<Rightarrow> string \<Rightarrow> item \<Rightarrow> ('t rstate, item) io" where
  "route_event E C route connection_id event =
     (if route = PStr ''$connect'' then with_world (route_connect E C event connection_id)
      else if route = PStr ''$disconnect'' then route_disconnect E C connection_id
      else if route = PStr ''ping'' \<or> route = PStr ''ping-echo''
      then liftE (json_dumps [(''route'', route), (''handled'', PStr ''keepalive'')])
      else if route = PStr ''audio-frame'' then route_audio_frame E C event connection_id
      else if route = PStr ''transcript-request'' then with_world (route_transcript_request E C connection_id)
      else liftE (json_dumps [(''route'', route), (''handled'', PStr ''default'')]))"

definition stream_handle :: "'t env \<Rightarrow> stream_cfg \<Rightarrow> item \<Rightarrow> ('t rstate, item) io" where
  "stream_handle E C event =
     (case as_dict (dget_or event ''requestContext'' (PDict [])) of
        None \<Rightarrow> raiseE AttributeError
      | Some ctx \<Rightarrow>
          (case as_str (dget_or ctx ''connectionId'' (PStr [])) of
             None \<Rightarrow> raiseE TypeError
           | Some connection_id \<Rightarrow> route_event E C (dget_or ctx ''routeKey'' (PStr [])) connection_id event))"

text \<open>
  \<open>Router.from_env\<close>, on the environment's variables, and the entry point: a router of its own for
  every event.
\<close>

definition stream_from_env :: "(string \<Rightarrow> string option) \<Rightarrow> (string \<Rightarrow> pyval option) \<Rightarrow> (pyval \<Rightarrow> string) \<Rightarrow>
    exn + stream_cfg" where
  "stream_from_env env loads show_val =
     (case (env ''STREAMING_SESSIONS_TABLE'', env ''AUDIO_FRAME_QUEUE_URL'') of
        (Some table, Some url) \<Rightarrow>
          if table = [] then Inl (RuntimeError ''STREAMING_SESSIONS_TABLE env var is required'')
          else if url = [] then Inl (RuntimeError ''AUDIO_FRAME_QUEUE_URL env var is required'')
          else Inr \<lparr>st_sessions_table = table, st_frame_queue_url = url,
                    st_event_bus = (case env ''STREAMING_EVENT_BUS'' of None \<Rightarrow> ''default'' | Some b \<Rightarrow> b),
                    st_ws_endpoint = (case env ''STREAMING_WS_MGMT_ENDPOINT'' of None \<Rightarrow> [] | Some e \<Rightarrow> e),
                    st_loads = loads, st_show = show_val\<rparr>
      | (None, _) \<Rightarrow> Inl (RuntimeError ''STREAMING_SESSIONS_TABLE env var is required'')
      | (Some table, None) \<Rightarrow>
          if table = [] then Inl (RuntimeError ''STREAMING_SESSIONS_TABLE env var is required'')
          else Inl (RuntimeError ''AUDIO_FRAME_QUEUE_URL env var is required''))"

definition fresh_router :: "('t rstate, 'a) io \<Rightarrow> ('t world, 'a) io" where
  "fresh_router m w = (case m (w, []) of (r, s) \<Rightarrow> (r, fst s))"

definition stream_lambda_handler :: "'t env \<Rightarrow> exn + stream_cfg \<Rightarrow> item \<Rightarrow> ('t world, item) io" where
  "stream_lambda_handler E cfg event =
     bindE (liftE cfg) (\<lambda>C. fresh_router (stream_handle E C event))"

section \<open>Lemmas: states and caches\<close>

lemma with_world_iff: "with_world m (w, c) = (r, (w', c')) \<longleftrightarrow> m w = (r, w') \<and> c' = c"
  by (auto simp: with_world_def split: prod.splits)

lemma with_world_apply [io_simps]: "m w = (r, w') \<Longrightarrow> with_world m (w, c) = (r, (w', c))"
  by (simp add: with_world_iff)

lemma read_cache_apply [io_simps]: "read_cache s = (Inr (snd s), s)"
  by (simp add: read_cache_def)

lemma write_cache_apply [io_simps]: "write_cache c s = (Inr (), (fst s, c))"
  by (simp add: write_cache_def)

text \<open>A relation on worlds, read on router states; the cache is free.\<close>

definition on_world :: "('t world \<Rightarrow> 't world \<Rightarrow> bool) \<Rightarrow> 't rstate \<Rightarrow> 't rstate \<Rightarrow> bool" where
  "on_world R s s' \<longleftrightarrow> R (fst s) (fst s')"

lemma preorder_on_world [intro]: "preorder_on_worlds R \<Longrightarrow> preorder_on_worlds (on_world R)"
  unfolding preorder_on_worlds_def on_world_def by blast

lemma keeps_with_world [keeps_intros]: "keeps R m \<Longrightarrow> keeps (on_world R) (with_world m)"
  by (auto simp: keeps_def on_world_def with_world_def split: prod.splits) (metis snd_conv)

lemma keeps_read_cache [keeps_intros]: "preorder_on_worlds R \<Longrightarrow> keeps (on_world R) read_cache"
  by (simp add: keeps_def on_world_def read_cache_def preorder_on_worlds_def)

lemma keeps_write_cache [keeps_intros]: "preorder_on_worlds R \<Longrightarrow> keeps (on_world R) (write_cache c)"
  by (simp add: keeps_def on_world_def write_cache_def preorder_on_worlds_def)

lemma keeps_fresh_router: "keeps (on_world R) m \<Longrightarrow> keeps R (fresh_router m)"
  by (auto simp: keeps_def on_world_def fresh_router_def split: prod.splits) (metis fst_conv snd_conv)

definition cache_ok :: "cache \<Rightarrow> bool" where
  "cache_ok c \<longleftrightarrow> distinct (map fst c) \<and> length c \<le> cache_max \<and> (\<forall>(k, url, t) \<in> set c. url \<noteq> [])"

lemma oldest_key_min:
  "\<exists>u' t'. (oldest_key (k, u, t) c, u', t') \<in> set ((k, u, t) # c) \<and>
     (\<forall>(k2, u2, t2) \<in> set ((k, u, t) # c). t' \<le> t2)"
proof (induction c arbitrary: k u t)
  case (Cons e c)
  obtain k' u' t' where e: "e = (k', u', t')" by (cases e) auto
  show ?case
  proof (cases "t' < t")
    case True
    from Cons.IH [of k' u' t'] obtain u2 t2 where "(oldest_key (k', u', t') c, u2, t2) \<in> set ((k', u', t') # c)"
      and "\<forall>(k3, u3, t3) \<in> set ((k', u', t') # c). t2 \<le> t3" by blast
    with True e show ?thesis by (intro exI [of _ u2] exI [of _ t2]) auto
  next
    case False
    from Cons.IH [of k u t] obtain u2 t2 where "(oldest_key (k, u, t) c, u2, t2) \<in> set ((k, u, t) # c)"
      and "\<forall>(k3, u3, t3) \<in> set ((k, u, t) # c). t2 \<le> t3" by blast
    with False e show ?thesis by (intro exI [of _ u2] exI [of _ t2]) auto
  qed
qed simp

lemma delete_entries: "set (AList.delete k c) \<subseteq> set c"
  by (auto simp: AList.delete_eq)

lemma drop_cached_ok: "cache_ok c \<Longrightarrow> cache_ok (drop_cached k c)"
  using AList.length_delete_le [of k c] AList.distinct_delete [of c k] delete_entries [of k c]
  by (auto simp: cache_ok_def drop_cached_def)

lemma drop_cached_length:
  assumes "k \<in> fst ` set c"
  shows "length (drop_cached k c) < length c"
proof -
  from assms obtain x where "x \<in> set c" "fst x = k" by auto
  then show ?thesis
    by (auto simp: drop_cached_def AList.delete_eq intro!: length_filter_less [of x])
qed

lemma length_update_le: "length (AList.update k v c) \<le> Suc (length c)"
  by (induction c) auto

lemma update_entries:
  "url \<noteq> [] \<Longrightarrow> \<forall>(k, u, t) \<in> set c. u \<noteq> [] \<Longrightarrow> \<forall>(k, u, t) \<in> set (AList.update cid (url, now) c). u \<noteq> []"
  by (induction c) auto

lemma remember_ok:
  assumes "cache_ok c" "url \<noteq> []"
  shows "cache_ok (remember cid url now c)"
proof -
  let ?c = "AList.update cid (url, now) c"
  have d: "distinct (map fst ?c)" using assms(1) by (simp add: cache_ok_def distinct_update)
  have n: "\<forall>(k, u, t) \<in> set ?c. u \<noteq> []" using assms by (intro update_entries) (auto simp: cache_ok_def)
  have len: "length ?c \<le> Suc cache_max"
    using assms(1) length_update_le [of cid "(url, now)" c] by (simp add: cache_ok_def)
  show ?thesis
  proof (cases "length ?c \<le> cache_max")
    case True
    with d n show ?thesis by (simp add: remember_def evict_cache_if_needed_def cache_ok_def)
  next
    case False
    then obtain e rest where c: "?c = e # rest" by (cases ?c) auto
    obtain k u t where e: "e = (k, u, t)" by (cases e) auto
    let ?o = "oldest_key e rest"
    have "?o \<in> fst ` set ?c" using oldest_key_min [of k u t rest] c e by force
    then have "length (drop_cached ?o ?c) \<le> cache_max" using drop_cached_length [of ?o ?c] len by simp
    moreover have "remember cid url now c = drop_cached ?o ?c"
      using False c by (simp add: remember_def evict_cache_if_needed_def)
    ultimately show ?thesis
      using d n AList.distinct_delete [OF d, of ?o] delete_entries [of ?o ?c]
      by (auto simp: cache_ok_def drop_cached_def)
  qed
qed

lemma map_of_drop [simp]: "map_of (drop_cached k c) j = (if j = k then None else map_of c j)"
  by (auto simp: drop_cached_def delete_conv)

section \<open>Properties: the cache\<close>

text \<open>A router object handling one event after another.\<close>

definition handle_events :: "'t env \<Rightarrow> stream_cfg \<Rightarrow> item list \<Rightarrow> 't rstate \<Rightarrow> 't rstate" where
  "handle_events E C events s = fold (\<lambda>event s. snd (stream_handle E C event s)) events s"

text \<open>The relation of states with a good cache, as a frame condition.\<close>

definition cache_kept :: "'t rstate \<Rightarrow> 't rstate \<Rightarrow> bool" where
  "cache_kept s s' \<longleftrightarrow> (cache_ok (snd s) \<longrightarrow> cache_ok (snd s'))"

lemma preorder_cache_kept [simp]: "preorder_on_worlds cache_kept"
  by (auto simp: preorder_on_worlds_def cache_kept_def)

lemma cache_kept_with_world: "keeps cache_kept (with_world m)"
  by (auto simp: keeps_def cache_kept_def with_world_def split: prod.splits)

lemma cache_kept_resolve: "keeps cache_kept (resolve_frame_queue_url E C cid)"
proof -
  have "keeps cache_kept (resolve_row C cid now it)" for now it
  proof (cases "nonempty_str (dget it ''frame_queue_url'')")
    case None
    then show ?thesis by (auto simp: resolve_row_def intro: keeps_intros)
  next
    case (Some url)
    then have "url \<noteq> []" by auto
    with Some show ?thesis
      by (auto simp: resolve_row_def keeps_def cache_kept_def bindE_def read_cache_def write_cache_def retE_def
          remember_ok)
  qed
  moreover have "keeps cache_kept (read_cache :: ('a rstate, cache) io)"
    by (simp add: keeps_def cache_kept_def read_cache_def)
  ultimately show ?thesis
    unfolding resolve_frame_queue_url_def
    by (auto intro!: keeps_intros cache_kept_with_world split: option.split)
qed

lemma cache_kept_disconnect: "keeps cache_kept (route_disconnect E C cid)"
  by (auto simp: route_disconnect_def keeps_def cache_kept_def bindE_def with_world_def read_cache_def write_cache_def
      retE_def drop_cached_ok split: prod.splits sum.splits)

lemma cache_kept_frame: "keeps cache_kept (route_audio_frame E C event cid)"
  unfolding route_audio_frame_def
  by (auto intro!: keeps_intros cache_kept_with_world cache_kept_resolve split: option.split)

lemma cache_kept_handle: "keeps cache_kept (stream_handle E C event)"
  unfolding stream_handle_def route_event_def
  by (auto intro!: keeps_intros cache_kept_with_world cache_kept_disconnect cache_kept_frame split: option.split)

text \<open>
  C36. The cache is bounded: whatever events a router handles and whatever the database and the other
  services answer, its cache keeps at most 1024 entries, one per connection, with non-empty addresses.
\<close>

theorem stream_cache_bounded:
  assumes "cache_ok c"
  shows "cache_ok (snd (handle_events E C events (w, c)))"
  using assms
proof (induction events arbitrary: w c)
  case (Cons event events)
  obtain r w' c' where run: "stream_handle E C event (w, c) = (r, (w', c'))" by (metis prod_cases3)
  from keepsD [OF cache_kept_handle run] Cons.prems have "cache_ok c'" by (simp add: cache_kept_def)
  from Cons.IH [OF this] run show ?case by (simp add: handle_events_def)
qed (simp add: handle_events_def)

text \<open>
  Eviction is first in, first out: caching a new connection in a full cache forgets exactly one
  entry, one of those cached longest ago, and leaves every other entry as it is.
\<close>

lemma stream_eviction_fifo:
  assumes "cache_ok c" "length c = cache_max" "cid \<notin> fst ` set c"
  shows "\<exists>k u t. map_of (c @ [(cid, url, now)]) k = Some (u, t) \<and>
     (\<forall>(k', u', t') \<in> set (c @ [(cid, url, now)]). t \<le> t') \<and>
     map_of (remember cid url now c) = (map_of (c @ [(cid, url, now)]))(k := None)"
proof -
  have upd: "AList.update cid (url, now) c = c @ [(cid, url, now)]" using assms(3) by (induction c) auto
  obtain e rest where c: "c @ [(cid, url, now)] = e # rest" by (cases "c @ [(cid, url, now)]") auto
  obtain k0 u0 t0 where e: "e = (k0, u0, t0)" by (cases e) auto
  let ?o = "oldest_key e rest"
  from oldest_key_min [of k0 u0 t0 rest] obtain u t where m: "(?o, u, t) \<in> set (e # rest)"
    "\<forall>(k', u', t') \<in> set (e # rest). t \<le> t'" using e by blast
  have "distinct (map fst (c @ [(cid, url, now)]))" using assms(1,3) by (auto simp: cache_ok_def)
  then have "map_of (c @ [(cid, url, now)]) ?o = Some (u, t)" using m(1) c by (metis map_of_is_SomeI)
  moreover have "remember cid url now c = drop_cached ?o (c @ [(cid, url, now)])"
  proof -
    have "\<not> length (e # rest) \<le> cache_max" using assms(2) c by (metis Suc_n_not_le_n length_append_singleton)
    then show ?thesis using upd c by (simp add: remember_def evict_cache_if_needed_def)
  qed
  ultimately show ?thesis using m(2) c
    by (intro exI [of _ ?o] exI [of _ u] exI [of _ t]) auto
qed

section \<open>Properties: audio frames\<close>

lemma stream_key_eq [simp]: "stream_key a = stream_key b \<longleftrightarrow> a = b"
  by (simp add: stream_key_def)

lemma ddb_stream_key [simp]: "ddb_item (stream_key cid) = stream_key cid"
  by (simp add: stream_key_def ddb_item_def)

text \<open>
  Where a frame may go: to an address cached less than the time to live ago, or, without one, to the
  address in the session's row, or to the shared queue when there is no row or it cannot be read.
\<close>

definition frame_target :: "'t env \<Rightarrow> 't db_view \<Rightarrow> stream_cfg \<Rightarrow> 't world \<Rightarrow> cache \<Rightarrow> string \<Rightarrow> string \<Rightarrow> bool" where
  "frame_target E V C w c cid url \<longleftrightarrow>
     (let row = rows V w (st_sessions_table C) (stream_key cid) in
      case fresh (monotonic E (ticks w)) c cid of
        Some cached \<Rightarrow> url = cached
      | None \<Rightarrow>
          (\<exists>it. row = Some it \<and> dget it ''frame_queue_url'' = PStr url \<and> url \<noteq> []) \<or>
          url = st_frame_queue_url C \<and>
            (row_attrs row = [] \<or>
             (\<exists>e w1. get_item E (st_sessions_table C) (stream_key cid) (w\<lparr>ticks := Suc (ticks w)\<rparr>) = (Inl e, w1))))"

lemma resolve_outcome:
  assumes "ddb_ok E V" "resolve_frame_queue_url E C cid (w, c) = (r, (w', c'))"
  shows "rows V w' = rows V w \<and> trace w' = trace w \<and> (\<exists>q. r = Inr q) \<and>
     (\<forall>url. r = Inr (Some url) \<longrightarrow> frame_target E V C w c cid url)"
proof (cases "fresh (monotonic E (ticks w)) c cid")
  case (Some url)
  then show ?thesis using assms(2)
    by (auto simp: resolve_frame_queue_url_def bindE_def read_cache_def with_world_def tick_def retE_def frame_target_def)
next
  case None
  let ?w = "w\<lparr>ticks := Suc (ticks w)\<rparr>"
  obtain g w1 where g: "get_item E (st_sessions_table C) (stream_key cid) ?w = (g, w1)" by fastforce
  note read = get_item_cases [OF assms(1) g]
  show ?thesis
  proof (cases g)
    case (Inl e)
    have "r = Inr (Some (st_frame_queue_url C))" "w' = w1"
      using assms(2) None g Inl
      by (auto simp: resolve_frame_queue_url_def bindE_def read_cache_def with_world_def tick_def retE_def tryE_def)
    with None g Inl read show ?thesis by (auto simp: frame_target_def Let_def)
  next
    case (Inr i)
    have res: "resolve_row C cid (monotonic E (ticks w)) (row_attrs i) (w1, c) = (r, (w', c'))"
      using assms(2) None g Inr
      by (simp add: resolve_frame_queue_url_def bindE_def read_cache_def with_world_def tick_def tryE_def)
    have i: "i = rows V w (st_sessions_table C) (stream_key cid)" using read(3) [OF Inr] by simp
    have "w' = w1 \<and> (\<exists>q. r = Inr q) \<and>
       (\<forall>url. r = Inr (Some url) \<longrightarrow> dget (row_attrs i) ''frame_queue_url'' = PStr url \<and> url \<noteq> [] \<or>
          row_attrs i = [] \<and> url = st_frame_queue_url C)"
      using res
      by (auto simp: resolve_row_def bindE_def read_cache_def write_cache_def retE_def
          split: option.splits if_splits)
    then show ?thesis using None read(1,2) by (cases i) (auto simp: frame_target_def Let_def i [symmetric])
  qed
qed

text \<open>
  An audio frame writes no row and is sent at most once, to the queue of its own connection (a
  fresh cached address, the address in the row, or the shared queue when there is no readable row); a
  frame cannot impersonate another connection, since whatever keys the client's body carries, the
  message names this connection; and a frame that is not sent is answered as dropped or raises.
\<close>

lemma audio_frame_routing:
  assumes "ddb_ok E V" "route_audio_frame E C event cid (w, c) = (r, (w', c'))"
  shows "rows V w' = rows V w \<and>
     (new_calls w w' = [] \<and>
        ((\<exists>e. r = Inl e) \<or> r = Inr [(''route'', PStr ''audio-frame''), (''dropped'', PStr ''no-queue-url'')]) \<or>
      (\<exists>url payload. new_calls w w' = [SqsSend url (PDict payload) cid] \<and> url \<noteq> [] \<and>
         frame_target E V C w c cid url \<and> map_of payload ''session_id'' = Some (PStr cid) \<and>
         (r = Inr [(''route'', PStr ''audio-frame'')] \<longleftrightarrow>
            (\<exists>x. svc E (trace w) (SqsSend url (PDict payload) cid) = Inr x))))"
proof -
  obtain q w1 c1 where q: "resolve_frame_queue_url E C cid (w, c) = (q, (w1, c1))" by (metis prod_cases3)
  note res = resolve_outcome [OF assms(1) q]
  then obtain target where t: "q = Inr target" by blast
  show ?thesis
  proof (cases "target = None \<or> target = Some []")
    case True
    then have "w' = w1 \<and> r = Inr [(''route'', PStr ''audio-frame''), (''dropped'', PStr ''no-queue-url'')]"
      using assms(2) q t by (auto simp: route_audio_frame_def bindE_def retE_def)
    then show ?thesis using res by (simp add: new_calls_def)
  next
    case False
    then obtain url where url: "target = Some url" "url \<noteq> []" by auto
    let ?body = "dget_or event ''body'' (PStr [])" and ?now = "clock E (ticks w1)"
    let ?p = "frame_payload C cid ?body ?now"
    have sid: "map_of ?p ''session_id'' = Some (PStr cid)" by (simp add: frame_payload_def)
    have send: "(if json_plain (PDict ?p)
        then bindE (with_world (invoke E (SqsSend url (PDict ?p) cid))) (\<lambda>_. retE [(''route'', PStr ''audio-frame'')])
          (w1\<lparr>ticks := Suc (ticks w1)\<rparr>, c1)
        else (Inl TypeError, (w1\<lparr>ticks := Suc (ticks w1)\<rparr>, c1))) = (r, (w', c'))"
      using assms(2) q t url
      by (simp add: route_audio_frame_def bindE_def with_world_def utcnow_def tick_def liftE_def json_dumps_def
          split: if_split_asm)
    show ?thesis
    proof (cases "json_plain (PDict ?p)")
      case True
      with send have "w' = w1\<lparr>ticks := Suc (ticks w1), trace := trace w1 @ [SqsSend url (PDict ?p) cid]\<rparr>"
        and "r = (case svc E (trace w1) (SqsSend url (PDict ?p) cid) of Inl e \<Rightarrow> Inl e
                  | Inr _ \<Rightarrow> Inr [(''route'', PStr ''audio-frame'')])"
        by (auto simp: bindE_def with_world_def invoke_def retE_def split: sum.splits)
      with res t url sid show ?thesis
        by (intro conjI disjI2 exI [of _ url] exI [of _ ?p]) (auto simp: new_calls_def split: sum.splits)
    next
      case False
      with send res show ?thesis by (auto simp: new_calls_def)
    qed
  qed
qed

section \<open>Connections do not touch each other's rows\<close>

text \<open>The events of one connection, each handled by a router of its own as the entry point does.\<close>

definition serve_stream :: "'t env \<Rightarrow> stream_cfg \<Rightarrow> string \<Rightarrow> pyval \<times> item \<Rightarrow> ('t world, unit) io" where
  "serve_stream E C cid call =
     bindE (fresh_router (route_event E C (fst call) cid (snd call))) (\<lambda>_. retE ())"

definition session_row_of :: "string \<Rightarrow> item \<Rightarrow> item \<Rightarrow> bool" where
  "session_row_of cid k row \<longleftrightarrow> k = stream_key cid"

definition stream_setting :: "'t env \<Rightarrow> 't db_view \<Rightarrow> stream_cfg \<Rightarrow> bool" where
  "stream_setting E V C \<longleftrightarrow> ddb_ok E V \<and> key_attrs E (st_sessions_table C) = [''session_id'']"

lemma connect_item_id:
  "connect_item (connect_base auth cid now epoch) parent seed = Inr it \<Longrightarrow> dget it ''session_id'' = PStr cid"
  by (cases seed)
    (auto simp: connect_item_def connect_base_def Let_def dget_Cons split: if_splits)

lemma keeps_connect:
  assumes "stream_setting E V C"
  shows "keeps (rows_rel V (rows_protected (st_sessions_table C) session_row_of cid)) (route_connect E C event cid)"
proof -
  let ?R = "rows_protected (st_sessions_table C) session_row_of cid"
  have ddb: "ddb_ok E V" using assms by (simp add: stream_setting_def)
  have put: "keeps (rows_rel V ?R) (put_item E (st_sessions_table C) it CTrue)" if "dget it ''session_id'' = PStr cid" for it
    using assms that
    by (intro keeps_put_item [OF ddb])
      (auto simp: stream_setting_def key_of_def rows_protected_def session_row_of_def store_row_apply
        stream_key_def ddb_item_def)
  have step: "keeps (rows_rel V ?R) (bindE (liftE (connect_item (connect_base auth cid now epoch) parent seed))
      (\<lambda>it. bindE (put_item E (st_sessions_table C) it CTrue) f))"
    if "\<And>x. keeps (rows_rel V ?R) (f x)" for auth now epoch parent seed and f :: "unit \<Rightarrow> ('a world, item) io"
  proof (cases "connect_item (connect_base auth cid now epoch) parent seed")
    case (Inl e)
    then show ?thesis
      using keeps_raiseE [OF rows_protected_preorder] by (simp add: keeps_def bindE_def liftE_def raiseE_def)
  next
    case (Inr it)
    have "keeps (rows_rel V ?R) (bindE (put_item E (st_sessions_table C) it CTrue) f)"
      by (intro keeps_intros rows_protected_preorder put connect_item_id [OF Inr] that)
    with Inr show ?thesis by (simp add: keeps_def bindE_def liftE_def)
  qed
  have pre: "preorder_on_worlds (rows_rel V ?R)" by (rule rows_protected_preorder)
  have post: "keeps (rows_rel V ?R) (router_post_status E C i stage detail)" for i stage detail
    unfolding router_post_status_def by (auto intro!: keeps_intros pre)
  note lift = keeps_bindE [OF pre keeps_liftE [OF pre]] and now = keeps_bindE [OF pre keeps_utcnow [OF pre]]
  show ?thesis
    unfolding route_connect_def
    by (rule lift, rule now, rule lift, rule lift, rule now, rule step) (intro keeps_intros pre post)
qed

lemma keeps_resolve:
  assumes "ddb_ok E V" "preorder_on_worlds (rows_rel V R)"
  shows "keeps (on_world (rows_rel V R)) (resolve_frame_queue_url E C cid)"
  unfolding resolve_frame_queue_url_def resolve_row_def using assms
  by (auto intro!: keeps_intros preorder_on_world split: option.split)

lemma keeps_route_event:
  assumes "stream_setting E V C"
  shows "keeps (on_world (rows_rel V (rows_protected (st_sessions_table C) session_row_of cid)))
     (route_event E C route cid event)"
proof -
  let ?R = "rows_rel V (rows_protected (st_sessions_table C) session_row_of cid)"
  have ddb: "ddb_ok E V" using assms by (simp add: stream_setting_def)
  have upd: "keeps ?R (update_item E (st_sessions_table C) (stream_key cid) us c)" for us c
    by (intro keeps_update_item [OF ddb]) (auto simp: rows_protected_def session_row_of_def store_row_apply)
  have "keeps (on_world ?R) (route_disconnect E C cid)"
    unfolding route_disconnect_def by (auto intro!: keeps_intros rows_protected_preorder preorder_on_world upd)
  moreover have "keeps (on_world ?R) (route_audio_frame E C event cid)"
    unfolding route_audio_frame_def
    by (auto intro!: keeps_intros rows_protected_preorder preorder_on_world keeps_resolve ddb split: option.split)
  moreover have "keeps ?R (route_transcript_request E C cid)"
    unfolding route_transcript_request_def by (intro keeps_intros rows_protected_preorder ddb)
  ultimately show ?thesis
    unfolding route_event_def
    by (auto intro!: keeps_intros keeps_connect [OF assms] rows_protected_preorder preorder_on_world)
qed

interpretation stream_events: owner_scoped "stream_setting E V C" V "st_sessions_table C" session_row_of
    "serve_stream E C" for E V C
  unfolding serve_stream_def
  by unfold_locales (intro keeps_intros rows_protected_preorder keeps_fresh_router keeps_route_event)

text \<open>
  Connections are isolated: over any history of WebSocket events of other connections, whatever the
  database and the other services answer, the row of a connection keeps its content.
\<close>

lemma stream_connection_isolation:
  assumes "stream_setting E V C" "rows V w (st_sessions_table C) (stream_key owner) = Some row"
    and "owner \<notin> fst ` set history"
  shows "rows V (serve_all (serve_stream E C) history w) (st_sessions_table C) (stream_key owner) = Some row"
  by (rule stream_events.isolated_history [OF assms(1,2) _ assms(3)]) (simp add: session_row_of_def)

section \<open>Properties: connecting and disconnecting\<close>

text \<open>
  A disconnect never raises and never creates a row: it is answered with success, at most the
  connection's existing row changes, and the connection's cached address is forgotten while every
  other entry stays.
\<close>

lemma disconnect_outcome:
  assumes "ddb_ok E V" "route_disconnect E C cid (w, c) = (r, (w', c'))"
  shows "r = Inr [(''route'', PStr ''$disconnect'')] \<and> map_of c' = (map_of c)(cid := None) \<and> trace w' = trace w \<and>
     (rows V w' = rows V w \<or>
      (\<exists>row new. rows V w (st_sessions_table C) (stream_key cid) = Some row \<and>
         rows V w' = store_row (rows V w) (st_sessions_table C) (stream_key cid) new \<and>
         map_of new ''status'' = Some (PStr ''disconnected'') \<and>
         (\<forall>a. a \<noteq> ''status'' \<longrightarrow> a \<noteq> ''disconnected_at'' \<longrightarrow> map_of new a = map_of row a)))"
proof -
  let ?us = "[SetAttr ''status'' (PStr ''disconnected''), SetAttr ''disconnected_at'' (PStr (isoformat (clock E (ticks w))))]"
  let ?w = "w\<lparr>ticks := Suc (ticks w)\<rparr>"
  obtain u w1 where u: "update_item E (st_sessions_table C) (stream_key cid) ?us (AttrExists ''session_id'') ?w = (u, w1)"
    by fastforce
  have fin: "r = Inr [(''route'', PStr ''$disconnect'')]" "w' = w1" "c' = drop_cached cid c"
    using assms(2) u
    by (auto simp: route_disconnect_def bindE_def with_world_def tryE_def utcnow_def tick_def read_cache_def
        write_cache_def retE_def split: sum.splits)
  from write_outcome_weak [OF update_item_cases(1) [OF assms(1) u]]
  have "rows V w1 = rows V w \<or>
      (\<exists>row. rows V w (st_sessions_table C) (stream_key cid) = Some row \<and>
        rows V w1 = store_row (rows V w) (st_sessions_table C) (stream_key cid) (updated_row (stream_key cid) ?us (Some row)))"
    by (cases "rows V w (st_sessions_table C) (stream_key cid)") auto
  moreover have "map_of (updated_row k ?us (Some row)) ''status'' = Some (PStr ''disconnected'')"
    "a \<noteq> ''status'' \<Longrightarrow> a \<noteq> ''disconnected_at'' \<Longrightarrow> map_of (updated_row k ?us (Some row)) a = map_of row a" for k row a
    by (simp_all add: updated_row_def)
  ultimately have "rows V w1 = rows V w \<or>
      (\<exists>row new. rows V w (st_sessions_table C) (stream_key cid) = Some row \<and>
         rows V w1 = store_row (rows V w) (st_sessions_table C) (stream_key cid) new \<and>
         map_of new ''status'' = Some (PStr ''disconnected'') \<and>
         (\<forall>a. a \<noteq> ''status'' \<longrightarrow> a \<noteq> ''disconnected_at'' \<longrightarrow> map_of new a = map_of row a))"
    by blast
  moreover have "map_of (drop_cached cid c) = (map_of c)(cid := None)" by (rule ext) simp
  ultimately show ?thesis using fin update_item_cases(3) [OF assms(1) u] by simp
qed

lemma connect_outcome:
  assumes "stream_setting E V C" "route_connect E C event cid w = (Inr x, w')"
  obtains auth it where "from_event (st_show C) event = Inr auth"
    "rows V w' = store_row (rows V w) (st_sessions_table C) (stream_key cid) (ddb_item it)"
    "dget it ''session_id'' = PStr cid" "dget it ''user_id'' = PStr (ac_user_id auth)"
    "connecting_event C auth cid \<in> set (new_calls w w')"
proof -
  have ddb: "ddb_ok E V" using assms(1) by (simp add: stream_setting_def)
  from assms(2) obtain auth now epoch parent seed it w1 w2 where auth: "from_event (st_show C) event = Inr auth"
    and it: "connect_item (connect_base auth cid now epoch) parent seed = Inr it"
    and put: "put_item E (st_sessions_table C) it CTrue (w\<lparr>ticks := Suc (Suc (ticks w))\<rparr>) = (Inr (), w1)"
    and ev: "w2 = w1\<lparr>trace := trace w1 @ [connecting_event C auth cid]\<rparr>"
    and post: "\<exists>y. router_post_status E C cid ''router-accepted'' ''Session accepted; spawn dispatched'' w2 = (y, w')"
    by (auto simp: route_connect_def bindE_Inr_iff liftE_def utcnow_def tick_def tryE_iff invoke_def retE_def)
  have id: "dget it ''session_id'' = PStr cid" by (rule connect_item_id [OF it])
  have uid: "dget it ''user_id'' = PStr (ac_user_id auth)"
    using it by (cases seed) (auto simp: connect_item_def connect_base_def Let_def dget_Cons split: if_splits)
  have key: "stream_key cid = ddb_item (key_of E (st_sessions_table C) it)"
    using assms(1) id by (simp add: stream_setting_def key_of_def stream_key_def ddb_item_def)
  note p = put_item_cases [OF ddb put key]
  have "rows V w1 = store_row (rows V w) (st_sessions_table C) (stream_key cid) (ddb_item it)"
    using p(1) by (simp add: write_outcome_simps)
  moreover have "rows V w' = rows V w2 \<and> (\<exists>cs. trace w' = trace w2 @ cs)"
    using post
    by (auto simp: router_post_status_def retE_def bindE_def utcnow_def tick_def tryE_def invoke_def
        split: if_splits sum.splits)
  ultimately show ?thesis
    using that [OF auth _ id uid] ev p(2) by (auto simp: new_calls_def)
qed

section \<open>Witnesses\<close>

definition stream_demo_cfg :: stream_cfg where
  "stream_demo_cfg = \<lparr>st_sessions_table = ''s'', st_frame_queue_url = ''shared'', st_event_bus = ''default'',
     st_ws_endpoint = [], st_loads = (\<lambda>s. if s = ''{}'' then Some (PDict [(''session_id'', PStr ''other'')]) else None),
     st_show = (\<lambda>_. [])\<rparr>"

definition stream_demo_env :: "mem env" where
  "stream_demo_env = mem_env (\<lambda>_. [''session_id'']) (\<lambda>_ _. Inr (PDict []))"

definition stream_demo_row :: item where
  "stream_demo_row = [(''session_id'', PStr ''c''), (''status'', PStr ''connecting''), (''frame_queue_url'', PStr ''q1'')]"

definition stream_demo_world :: "mem world" where
  "stream_demo_world = \<lparr>db = (\<lambda>tbl k. if tbl = ''s'' \<and> k = stream_key ''c'' then Some stream_demo_row else None),
     trace = [], ticks = 0\<rparr>"

definition full_cache :: cache where
  "full_cache = map (\<lambda>n. (replicate n (CHR ''a''), ''q'', of_nat n)) [0..<1024]"

lemma stream_demo_ok: "stream_setting stream_demo_env mem_view stream_demo_cfg"
  by (simp add: stream_setting_def stream_demo_env_def mem_env_ok)

lemma stream_demo_ddb: "ddb_ok stream_demo_env mem_view"
  using stream_demo_ok by (simp add: stream_setting_def)

lemma full_cache_ok: "cache_ok full_cache" "length full_cache = cache_max" "''b'' \<notin> fst ` set full_cache"
proof -
  have "inj_on (\<lambda>n. replicate n (CHR ''a'')) {0..<1024}" by (rule inj_onI) (metis length_replicate)
  then show "cache_ok full_cache"
    by (auto simp: cache_ok_def full_cache_def cache_max_def distinct_map o_def)
  show "length full_cache = cache_max" by (simp add: full_cache_def cache_max_def)
  have "''b'' \<noteq> replicate n (CHR ''a'')" for n by (cases n) auto
  then show "''b'' \<notin> fst ` set full_cache" unfolding full_cache_def by fastforce
qed

theorem stream_cache_bounded_witness:
  "cache_ok (snd (handle_events stream_demo_env stream_demo_cfg
     [[(''requestContext'', PDict [(''routeKey'', PStr ''audio-frame''), (''connectionId'', PStr ''c'')])]]
     (stream_demo_world, full_cache)))"
  by (rule stream_cache_bounded [OF full_cache_ok(1)])

text \<open>A frame whose body claims another session goes to the connection's own queue under its own name.\<close>

end
