(* ===== verification/At_Most_Once.thy ===== *)
theory At_Most_Once
  imports Cloud
begin

text \<open>
  The contract of an operation that is safe to repeat: a submission that returned settles its key, and a
  submission under a settled key does nothing. Stripe's redeliveries and the repeated submissions of an
  administrator's operation are instances, with the event's or the caller's identifier as the key; the
  evidence that a key is settled is a row of a table.
\<close>

definition submit_all :: "('rq \<Rightarrow> ('w, 'a) io) \<Rightarrow> 'rq list \<Rightarrow> 'w \<Rightarrow> 'w" where
  "submit_all submit rqs w = fold (\<lambda>rq w. snd (submit rq w)) rqs w"

lemma submit_all_simps [simp]:
  "submit_all submit [] w = w"
  "submit_all submit (rq # rqs) w = submit_all submit rqs (snd (submit rq w))"
  by (simp_all add: submit_all_def)

text \<open>Nothing that another service or a reader of the tables could see.\<close>

definition nothing_done :: "'t db_view \<Rightarrow> 't world \<Rightarrow> 't world \<Rightarrow> bool" where
  "nothing_done V w w' \<longleftrightarrow> rows V w' = rows V w \<and> trace w' = trace w"

lemma nothing_done_refl [simp]: "nothing_done V w w"
  by (simp add: nothing_done_def)

lemma nothing_done_trans: "nothing_done V a b \<Longrightarrow> nothing_done V b c \<Longrightarrow> nothing_done V a c"
  by (simp add: nothing_done_def)

locale at_most_once =
  fixes setting :: bool and V :: "'t db_view"
    and submit :: "'rq \<Rightarrow> ('t world, 'a) io"
    and has_key :: "'rq \<Rightarrow> 'k \<Rightarrow> bool"
    and settled :: "'k \<Rightarrow> 't world \<Rightarrow> bool"
  assumes settles: "setting \<Longrightarrow> has_key rq k \<Longrightarrow> submit rq w = (Inr x, w') \<Longrightarrow> settled k w'"
    and repeated: "setting \<Longrightarrow> has_key rq k \<Longrightarrow> settled k w \<Longrightarrow> submit rq w = (r, w') \<Longrightarrow>
       nothing_done V w w'"
    and settled_rows: "nothing_done V w w' \<Longrightarrow> settled k w \<Longrightarrow> settled k w'"
begin

lemma settled_history:
  assumes setting "settled k w" "\<forall>rq \<in> set rqs. has_key rq k"
  shows "nothing_done V w (submit_all submit rqs w)"
  using assms(2,3)
proof (induction rqs arbitrary: w)
  case (Cons rq rqs)
  obtain r w1 where run: "submit rq w = (r, w1)" by fastforce
  have "nothing_done V w w1" using repeated [OF assms(1) _ Cons.prems(1) run] Cons.prems(2) by simp
  moreover from this have "nothing_done V w1 (submit_all submit rqs w1)"
    using Cons.IH settled_rows Cons.prems by simp
  ultimately show ?case using run nothing_done_trans by simp
qed simp

lemma repeats_do_nothing:
  assumes setting "has_key rq k" "submit rq w = (Inr x, w')" "\<forall>rq' \<in> set rqs. has_key rq' k"
  shows "nothing_done V w' (submit_all submit rqs w')"
  using settled_history settles assms by blast

end

end
