(* ===== verification/Ulid.thy ===== *)
theory Ulid
  imports Cloud
begin

text \<open>
  The two ULID generators: \<^verbatim>\<open>new_ulid\<close> of the billing service (\<^verbatim>\<open>billing/.../ulid.py\<close>, sort keys of its
  event log) and \<^verbatim>\<open>_generate_ulid\<close> of the middleware library (\<^verbatim>\<open>correlation.py\<close>, request identifiers).
  The clock and \<^verbatim>\<open>os.urandom\<close> are inputs. The lemmas show that both write the same string for the same
  inputs, that the string determines them, and that string order is the order of the times.
\<close>

definition crockford :: string where
  "crockford = ''0123456789ABCDEFGHJKMNPQRSTVWXYZ''"

text \<open>The loop's characters, least significant first, and the reversed string.\<close>

fun b32_chars :: "nat \<Rightarrow> nat \<Rightarrow> string" where
  "b32_chars v 0 = []"
| "b32_chars v (Suc n) = crockford ! (v mod 32) # b32_chars (v div 32) n"

definition encode_b32 :: "nat \<Rightarrow> nat \<Rightarrow> string" where
  "encode_b32 v len = rev (b32_chars v len)"

text \<open>\<open>new_ulid\<close> from the time in microseconds and the 80 random bits.\<close>

definition timestamp_ms :: "int \<Rightarrow> nat" where
  "timestamp_ms now = nat (now div 1000)"

definition new_ulid :: "int \<Rightarrow> nat \<Rightarrow> string" where
  "new_ulid now random_bits = encode_b32 (timestamp_ms now) 10 @ encode_b32 random_bits 16"

definition generate_ulid :: "int \<Rightarrow> nat \<Rightarrow> string" where
  "generate_ulid now random_bits = rev (b32_chars (or (push_bit 80 (timestamp_ms now)) random_bits) 26)"

text \<open>\<^verbatim>\<open>int.from_bytes(os.urandom(10), 'big')\<close> and \<^verbatim>\<open>secrets.randbits(80)\<close>: some number below \<open>2 ^ 80\<close>.\<close>

definition random80 :: "'t env \<Rightarrow> ('t world, nat) io" where
  "random80 E = tick (\<lambda>n. entropy E n mod 2 ^ 80)"

definition fresh_ulid :: "'t env \<Rightarrow> ('t world, string) io" where
  "fresh_ulid E = bindE (utcnow E) (\<lambda>now. bindE (random80 E) (\<lambda>r. retE (new_ulid now r)))"

section \<open>Reading a number back\<close>

definition b32_val :: "char \<Rightarrow> nat" where
  "b32_val c = length (takeWhile (\<lambda>x. x \<noteq> c) crockford)"

definition decode_b32 :: "string \<Rightarrow> nat" where
  "decode_b32 s = foldl (\<lambda>v c. v * 32 + b32_val c) 0 s"

lemma crockford_length [simp]: "length crockford = 32"
  by (simp add: crockford_def)

lemma crockford_distinct: "distinct crockford"
  by (simp add: crockford_def)

lemma b32_val_nth [simp]: "d < 32 \<Longrightarrow> b32_val (crockford ! d) = d"
  unfolding b32_val_def
  by (subst takeWhile_eq_take_P_nth [where n = d])
    (use crockford_distinct in \<open>auto simp: nth_eq_iff_index_eq\<close>)

lemma encode_b32_Suc: "encode_b32 v (Suc n) = encode_b32 (v div 32) n @ [crockford ! (v mod 32)]"
  by (simp add: encode_b32_def)

lemma encode_b32_length [simp]: "length (encode_b32 v n) = n"
  by (induction n arbitrary: v) (simp_all add: encode_b32_Suc encode_b32_def)

lemma decode_snoc: "decode_b32 (s @ [c]) = decode_b32 s * 32 + b32_val c"
  by (simp add: decode_b32_def)

lemma decode_encode_b32: "decode_b32 (encode_b32 v n) = v mod 32 ^ n"
proof (induction n arbitrary: v)
  case (Suc n)
  have "v mod 32 ^ Suc n = (v div 32) mod 32 ^ n * 32 + v mod 32"
    by (simp add: mod_mult2_eq mult.commute)
  with Suc show ?case by (simp add: encode_b32_Suc decode_snoc)
qed (simp add: encode_b32_def decode_b32_def)

lemma encode_b32_add: "encode_b32 v (n + m) = encode_b32 (v div 32 ^ m) n @ encode_b32 (v mod 32 ^ m) m"
proof (induction m arbitrary: v)
  case (Suc m)
  have d: "v div 32 ^ Suc m = v div 32 div 32 ^ m" by (simp add: div_mult2_eq)
  have m: "v mod 32 ^ Suc m div 32 = v div 32 mod 32 ^ m" "v mod 32 ^ Suc m mod 32 = v mod 32"
    by (simp_all add: mod_mult2_eq mult.commute)
  show ?case using Suc [of "v div 32"] by (simp add: encode_b32_Suc d m del: power_Suc)
qed (simp add: encode_b32_def)

lemma or_push_bit:
  assumes "b < 2 ^ n"
  shows "or (push_bit n a) b = a * 2 ^ n + (b :: nat)"
proof -
  have "b = take_bit n b" using assms by (simp add: take_bit_nat_eq_self)
  then have "and (push_bit n a) b = 0"
    by (intro bit_eqI) (metis bit_0_eq bit_and_iff bit_push_bit_iff bit_take_bit_iff bot_apply bot_bool_def not_le)
  then have "push_bit n a + b = or (push_bit n a) b" by (simp add: disjunctive_add_eq_or)
  then show ?thesis by (simp add: push_bit_eq_mult)
qed

text \<open>
  C36. The two generators agree: for every time whose milliseconds fit 50 bits and 80 random bits, the
  middleware's request identifier is the billing service's sort key, 26 characters from which the time
  and the random bits can be read back.
\<close>

theorem ulid_generators_agree:
  assumes "timestamp_ms now < 2 ^ 50" "random_bits < 2 ^ 80"
  shows "generate_ulid now random_bits = new_ulid now random_bits \<and> length (new_ulid now random_bits) = 26 \<and>
     decode_b32 (take 10 (new_ulid now random_bits)) = timestamp_ms now \<and>
     decode_b32 (drop 10 (new_ulid now random_bits)) = random_bits"
proof -
  let ?t = "timestamp_ms now" and ?r = random_bits
  have p: "(2::nat) ^ 80 = 32 ^ 16" "(2::nat) ^ 50 = 32 ^ 10" by simp_all
  have r: "?r < 32 ^ 16" using assms(2) unfolding p .
  have "encode_b32 (?t * 32 ^ 16 + ?r) (10 + 16) =
      encode_b32 ((?t * 32 ^ 16 + ?r) div 32 ^ 16) 10 @ encode_b32 ((?t * 32 ^ 16 + ?r) mod 32 ^ 16) 16"
    by (rule encode_b32_add)
  moreover have "(?t * 32 ^ 16 + ?r) div 32 ^ 16 = ?t" "(?t * 32 ^ 16 + ?r) mod 32 ^ 16 = ?r"
    using r by simp_all
  ultimately have "generate_ulid now ?r = new_ulid now ?r"
    using or_push_bit [OF assms(2), of ?t] by (simp add: generate_ulid_def new_ulid_def encode_b32_def p)
  moreover have "decode_b32 (take 10 (new_ulid now ?r)) = ?t"
    using assms(1) unfolding p by (simp add: new_ulid_def decode_encode_b32)
  moreover have "decode_b32 (drop 10 (new_ulid now ?r)) = ?r"
    using r by (simp add: new_ulid_def decode_encode_b32)
  ultimately show ?thesis by (simp add: new_ulid_def)
qed

theorem ulid_generators_agree_witness:
  "generate_ulid 1700000000000000 5 = new_ulid 1700000000000000 5 \<and>
   decode_b32 (drop 10 (new_ulid 1700000000000000 5)) = 5"
  using ulid_generators_agree [of 1700000000000000 5] by (simp add: timestamp_ms_def)

section \<open>Order\<close>

text \<open>Strings compare by their code points.\<close>

fun str_less :: "string \<Rightarrow> string \<Rightarrow> bool" where
  "str_less [] s = (s \<noteq> [])"
| "str_less (c # s) [] = False"
| "str_less (c # s) (d # t) = ((of_char c :: nat) < of_char d \<or> c = d \<and> str_less s t)"

lemma str_less_append: "length a = length b \<Longrightarrow>
    str_less (a @ s) (b @ t) \<longleftrightarrow> str_less a b \<or> a = b \<and> str_less s t"
  by (induction a b rule: list_induct2) auto

lemma crockford_increasing: "i < j \<Longrightarrow> j < 32 \<Longrightarrow> (of_char (crockford ! i) :: nat) < of_char (crockford ! j)"
proof -
  have "sorted_wrt (<) (map of_char crockford :: nat list)" by (simp add: crockford_def)
  then show "i < j \<Longrightarrow> j < 32 \<Longrightarrow> (of_char (crockford ! i) :: nat) < of_char (crockford ! j)"
    by (auto simp: sorted_wrt_iff_nth_less)
qed

lemma encode_b32_less:
  "v < u \<Longrightarrow> u < 32 ^ n \<Longrightarrow> str_less (encode_b32 v n) (encode_b32 u n)"
proof (induction n arbitrary: v u)
  case (Suc n)
  have bound: "u div 32 < 32 ^ n" using Suc.prems(2) by (simp add: less_mult_imp_div_less mult.commute)
  show ?case
  proof (cases "v div 32 < u div 32")
    case True
    from Suc.IH [OF this bound] show ?thesis by (simp add: encode_b32_Suc str_less_append)
  next
    case False
    then have eq: "v div 32 = u div 32" using Suc.prems(1) by (simp add: div_le_mono nat_less_le)
    then have "v mod 32 < u mod 32" using Suc.prems(1) by (metis div_mult_mod_eq nat_add_left_cancel_less)
    then have "(of_char (crockford ! (v mod 32)) :: nat) < of_char (crockford ! (u mod 32))"
      by (rule crockford_increasing) simp
    with eq show ?thesis by (simp add: encode_b32_Suc str_less_append)
  qed
qed simp

text \<open>
  Sort keys are ordered by time: of two identifiers made in different milliseconds the later one is
  the greater string, whatever the random bits, so a query that reads the event log backwards sees the
  events newest first.
\<close>

lemma ulid_order_is_time_order:
  assumes "timestamp_ms t1 < timestamp_ms t2" "timestamp_ms t2 < 2 ^ 50"
  shows "str_less (new_ulid t1 r1) (new_ulid t2 r2)"
proof -
  have "timestamp_ms t2 < 32 ^ 10" using assms(2) by simp
  from encode_b32_less [OF assms(1) this] show ?thesis by (simp add: new_ulid_def str_less_append)
qed

end
