(* ===== verification/Billing.thy ===== *)
theory Billing
  imports Owner_Scope At_Most_Once Auth Ulid
begin

text \<open>
  The billing service (\<^verbatim>\<open>services/billing\<close>): request models, the return-address allowlist, the append-only
  event log (\<^verbatim>\<open>storage/dynamodb.py\<close>), the subscription table (\<^verbatim>\<open>storage/subscriptions.py\<close>) and the routes
  (\<^verbatim>\<open>routes/billing.py\<close>) with the webhook's projection. Stripe answers through \<open>svc\<close>; loops over query
  pages run with fuel \<open>bl_page_fuel\<close>.
\<close>

record billing_settings =
  bl_price_pro :: string
  bl_price_team :: string
  bl_success_url :: string
  bl_cancel_url :: string
  bl_webhook_secret :: string
  bl_events_table :: string
  bl_subs_table :: string
  bl_show :: "pyval \<Rightarrow> string"
  bl_page_fuel :: nat

text \<open>The validator of the API key: only test keys start the service.\<close>

definition reject_live_key :: "string \<Rightarrow> exn + string" where
  "reject_live_key key =
     (if starts_with key ''sk_test_'' then Inr key
      else Inl (ValueError ''stripe_api_key must start with 'sk_test_' (TEST mode only in this slice)''))"

section \<open>Return addresses\<close>

text \<open>
  \<^verbatim>\<open>urlparse\<close> as far as scheme and host name: outer control characters and blanks and all tabs and line
  breaks are removed; a scheme is a letter followed by letters, digits and \<^verbatim>\<open>+-.\<close> before the first colon;
  the authority ends at the first slash, question mark or number sign; the host is what follows the last
  at sign, up to a colon. An authority with brackets (an IPv6 literal, or a \<^verbatim>\<open>ValueError\<close>) has no host name here.
\<close>

definition is_c0_or_space :: "char \<Rightarrow> bool" where
  "is_c0_or_space c \<longleftrightarrow> (of_char c :: nat) \<le> 32"

definition clean_url :: "string \<Rightarrow> string" where
  "clean_url url = filter (\<lambda>c. (of_char c :: nat) \<notin> {9, 10, 13}) (dropWhile is_c0_or_space url)"

definition is_ascii_letter :: "char \<Rightarrow> bool" where
  "is_ascii_letter c \<longleftrightarrow> (let n = (of_char c :: nat) in 65 \<le> n \<and> n \<le> 90 \<or> 97 \<le> n \<and> n \<le> 122)"

definition scheme_char :: "char \<Rightarrow> bool" where
  "scheme_char c \<longleftrightarrow> is_ascii_letter c \<or> (let n = (of_char c :: nat) in 48 \<le> n \<and> n \<le> 57) \<or> c \<in> set ''+-.''"

definition split_scheme :: "string \<Rightarrow> string \<times> string" where
  "split_scheme url =
     (case split_char (CHR '':'') 1 url of
        [s, rest] \<Rightarrow>
          if s \<noteq> [] \<and> is_ascii_letter (hd s) \<and> list_all scheme_char s then (lower s, rest) else ([], url)
      | _ \<Rightarrow> ([], url))"

definition netloc_of :: "string \<Rightarrow> string" where
  "netloc_of rest =
     (if take 2 rest = ''//'' then takeWhile (\<lambda>c. c \<notin> set ''/?#'') (drop 2 rest) else [])"

text \<open>\<^verbatim>\<open>rpartition('@')[2]\<close>, then \<^verbatim>\<open>partition(':')[0]\<close>; the part after a percent sign keeps its case.\<close>

definition after_at :: "string \<Rightarrow> string" where
  "after_at s = rev (takeWhile (\<lambda>c. c \<noteq> CHR ''@'') (rev s))"

definition hostname_of :: "string \<Rightarrow> string option" where
  "hostname_of netloc =
     (if CHR ''['' \<in> set netloc \<or> CHR '']'' \<in> set netloc then None
      else let host = takeWhile (\<lambda>c. c \<noteq> CHR '':'') (after_at netloc) in
        if host = [] then None
        else Some (lower (takeWhile (\<lambda>c. c \<noteq> CHR ''%'') host) @ dropWhile (\<lambda>c. c \<noteq> CHR ''%'') host))"

definition allowed_return_url_origins :: "string list" where
  "allowed_return_url_origins = [''https://dmaopcm3hnxog.cloudfront.net'', ''https://panakoes.com'']"

definition is_allowed_return_url :: "string \<Rightarrow> bool" where
  "is_allowed_return_url return_url =
     (let (scheme, rest) = split_scheme (clean_url return_url) in
      lower scheme = ''https'' \<and>
      (case hostname_of (netloc_of rest) of
         None \<Rightarrow> False
       | Some h \<Rightarrow> (''https://'' @ lower h) \<in> set allowed_return_url_origins))"

section \<open>Request models\<close>

definition tiers :: "string list" where
  "tiers = [''pro'', ''team'']"

record checkout_request =
  cr_tier :: string
  cr_seats :: "int option"

definition parse_checkout :: "'t env \<Rightarrow> item \<Rightarrow> exn + checkout_request" where
  "parse_checkout E body =
     (if \<not> set (map fst body) \<subseteq> {''tier'', ''seats''} then Inl (HTTPException 422 ''extra fields'')
      else case as_str (dget body ''tier'') of
             None \<Rightarrow> Inl (HTTPException 422 ''tier'')
           | Some tier \<Rightarrow>
               if tier \<notin> set tiers then Inl (HTTPException 422 ''tier'')
               else if dget body ''seats'' = PNone then Inr \<lparr>cr_tier = tier, cr_seats = None\<rparr>
               else (case pyd_int E (dget body ''seats'') of
                       None \<Rightarrow> Inl (HTTPException 422 ''seats'')
                     | Some n \<Rightarrow>
                         if 1 \<le> n \<and> n \<le> 10000 then Inr \<lparr>cr_tier = tier, cr_seats = Some n\<rparr>
                         else Inl (HTTPException 422 ''seats'')))"

definition parse_portal :: "item \<Rightarrow> exn + string" where
  "parse_portal body =
     (if \<not> set (map fst body) \<subseteq> {''return_url''} then Inl (HTTPException 422 ''extra fields'')
      else case as_str (dget body ''return_url'') of
             None \<Rightarrow> Inl (HTTPException 422 ''return_url'')
           | Some u \<Rightarrow>
               if 1 \<le> length (strip u) \<and> length (strip u) \<le> 2048 then Inr (strip u)
               else Inl (HTTPException 422 ''return_url''))"

section \<open>The event log\<close>

definition billing_pk :: "string \<Rightarrow> string" where
  "billing_pk user_id = ''USER#'' @ user_id"

definition event_sk :: "string \<Rightarrow> string" where
  "event_sk event_id = ''EVENT#'' @ event_id"

definition subscription_event_types :: "string list" where
  "subscription_event_types = [''checkout_completed'', ''subscription_updated'', ''subscription_deleted'',
     ''invoice_paid'', ''invoice_payment_failed'']"

fun coerce_decimals :: "pyval \<Rightarrow> pyval" where
  "coerce_decimals (PDec q) = (if q = of_int \<lfloor>q\<rfloor> then PInt \<lfloor>q\<rfloor> else PFloat q)"
| "coerce_decimals (PDict d) = PDict (map (\<lambda>(k, v). (k, coerce_decimals v)) d)"
| "coerce_decimals (PList xs) = PList (map coerce_decimals xs)"
| "coerce_decimals v = v"

definition coerce_row :: "item \<Rightarrow> item" where
  "coerce_row raw = map (\<lambda>(k, v). (k, coerce_decimals v)) raw"

definition protected_keys :: "string list" where
  "protected_keys = [''pk'', ''sk'', ''event_id'', ''user_id'', ''event_type'', ''created_at'']"

fun merge_attributes :: "item \<Rightarrow> item \<Rightarrow> item" where
  "merge_attributes [] it = it"
| "merge_attributes ((k, v) # rest) it =
     merge_attributes rest (if k \<in> set protected_keys then it else dset k v it)"

definition event_item :: "string \<Rightarrow> string \<Rightarrow> string \<Rightarrow> int \<Rightarrow> item \<Rightarrow> item" where
  "event_item event_id user_id event_type now attributes =
     merge_attributes attributes
       [(''pk'', PStr (billing_pk user_id)), (''sk'', PStr (event_sk event_id)), (''event_id'', PStr event_id),
        (''user_id'', PStr user_id), (''event_type'', PStr event_type), (''created_at'', PStr (isoformat now))]"

definition append_event :: "'t env \<Rightarrow> billing_settings \<Rightarrow> string \<Rightarrow> string \<Rightarrow> item \<Rightarrow> ('t world, string) io" where
  "append_event E S user_id event_type attributes =
     bindE (fresh_ulid E) (\<lambda>event_id.
     bindE (utcnow E) (\<lambda>now.
     bindE (put_item E (bl_events_table S) (event_item event_id user_id event_type now attributes) CTrue) (\<lambda>_.
     retE event_id)))"

text \<open>
  The two readers of the log walk its pages newest first until an event answers them: \<open>pick\<close> says what
  an event answers.
\<close>

definition events_query :: "string \<Rightarrow> item option \<Rightarrow> query" where
  "events_query user_id start =
     \<lparr>q_index = None, q_hash = (''pk'', PStr (billing_pk user_id)), q_prefix = Some (''sk'', ''EVENT#''),
      q_limit = Some 25, q_forward = False, q_start = start\<rparr>"

fun first_pick :: "(item \<Rightarrow> 'a option) \<Rightarrow> item list \<Rightarrow> 'a option" where
  "first_pick pick [] = None"
| "first_pick pick (x # xs) = (case pick x of None \<Rightarrow> first_pick pick xs | Some y \<Rightarrow> Some y)"

definition pages_out_of_fuel :: exn where
  "pages_out_of_fuel = OtherError ''OutOfFuel'' ''pages''"

fun walk_events :: "'t env \<Rightarrow> billing_settings \<Rightarrow> string \<Rightarrow> (item \<Rightarrow> 'a option) \<Rightarrow> nat \<Rightarrow> item option \<Rightarrow>
    ('t world, 'a option) io" where
  "walk_events E S user_id pick 0 start = raiseE pages_out_of_fuel"
| "walk_events E S user_id pick (Suc fuel) start =
     bindE (query_items E (bl_events_table S) (events_query user_id start)) (\<lambda>page.
     (case first_pick pick (map coerce_row (p_items page)) of
        Some y \<Rightarrow> retE (Some y)
      | None \<Rightarrow> (case p_last page of None \<Rightarrow> retE None | Some k \<Rightarrow> walk_events E S user_id pick fuel (Some k))))"

definition subscription_bearing :: "item \<Rightarrow> item option" where
  "subscription_bearing ev =
     (if dget ev ''event_type'' \<in> set (map PStr subscription_event_types) then Some ev else None)"

definition latest_subscription_event :: "'t env \<Rightarrow> billing_settings \<Rightarrow> string \<Rightarrow> ('t world, item option) io" where
  "latest_subscription_event E S user_id = walk_events E S user_id subscription_bearing (bl_page_fuel S) None"

definition find_customer_id :: "'t env \<Rightarrow> billing_settings \<Rightarrow> string \<Rightarrow> ('t world, string option) io" where
  "find_customer_id E S user_id =
     walk_events E S user_id (\<lambda>ev. nonempty_str (dget ev ''stripe_customer_id'')) (bl_page_fuel S) None"

definition latest_event :: "'t env \<Rightarrow> billing_settings \<Rightarrow> string \<Rightarrow> ('t world, item option) io" where
  "latest_event E S user_id =
     bindE (query_items E (bl_events_table S) ((events_query user_id None)\<lparr>q_limit := Some 1\<rparr>)) (\<lambda>page.
     retE (case p_items page of [] \<Rightarrow> None | x # _ \<Rightarrow> Some (coerce_row x)))"

section \<open>The subscription table\<close>

record subscription_state =
  sub_tenant_id :: string
  sub_subscription_id :: string
  sub_event_id :: string
  sub_plan :: string
  sub_status :: string
  sub_period_end :: "int option"
  sub_cancel_at :: "int option"
  sub_quantity :: int
  sub_customer_id :: "string option"

definition subscription_item :: "subscription_state \<Rightarrow> int \<Rightarrow> item" where
  "subscription_item s now =
     [(''tenant_id'', PStr (sub_tenant_id s)), (''subscription_id'', PStr (sub_subscription_id s)),
      (''plan'', PStr (sub_plan s)), (''status'', PStr (sub_status s)), (''quantity'', PInt (sub_quantity s)),
      (''last_event_id'', PStr (sub_event_id s)), (''updated_at'', PStr (isoformat now))] @
     (case sub_period_end s of None \<Rightarrow> [] | Some t \<Rightarrow> [(''current_period_end'', PStr (isoformat t))]) @
     (case sub_cancel_at s of None \<Rightarrow> [] | Some t \<Rightarrow> [(''cancel_at'', PStr (isoformat t))]) @
     (case sub_customer_id s of None \<Rightarrow> [] | Some c \<Rightarrow> if c = [] then [] else [(''stripe_customer_id'', PStr c)])"

definition not_replayed :: "string \<Rightarrow> cond" where
  "not_replayed event_id = COr (AttrNotExists ''last_event_id'') (AttrNe ''last_event_id'' (PStr event_id))"

definition upsert :: "'t env \<Rightarrow> billing_settings \<Rightarrow> subscription_state \<Rightarrow> ('t world, bool) io" where
  "upsert E S s =
     bindE (utcnow E) (\<lambda>now.
     tryE (put_item E (bl_subs_table S) (subscription_item s now) (not_replayed (sub_event_id s)))
       (\<lambda>e. if is_ccf e then retE False else raiseE e)
       (\<lambda>_. retE True))"

definition plan_rank :: "string \<Rightarrow> nat" where
  "plan_rank p = (if p = ''team'' then 2 else if p = ''pro'' then 1 else 0)"

definition live_statuses :: "string list" where
  "live_statuses = [''active'', ''trialing'', ''past_due'']"

text \<open>One row of the reader: the better of the best plan so far and the row's, when its status counts.\<close>

fun unhashable :: "pyval \<Rightarrow> bool" where
  "unhashable (PList _) = True"
| "unhashable (PDict _) = True"
| "unhashable _ = False"

definition better_plan :: "string \<Rightarrow> item \<Rightarrow> exn + string" where
  "better_plan best row =
     (if unhashable (dget row ''status'') then Inl TypeError
      else case as_str (dget row ''status'') of
        None \<Rightarrow> Inr best
      | Some st \<Rightarrow>
          if st \<notin> set live_statuses then Inr best
          else if unhashable (dget row ''plan'') then Inl TypeError
          else (case as_str (dget row ''plan'') of
                  None \<Rightarrow> Inr best
                | Some p \<Rightarrow>
                    if p \<in> {''pro'', ''team'', ''free''} \<and> plan_rank best < plan_rank p then Inr p else Inr best))"

fun best_plan :: "string \<Rightarrow> item list \<Rightarrow> exn + string" where
  "best_plan best [] = Inr best"
| "best_plan best (row # rest) = and_then (better_plan best row) (\<lambda>b. best_plan b rest)"

definition get_plan :: "'t env \<Rightarrow> billing_settings \<Rightarrow> string \<Rightarrow> ('t world, string) io" where
  "get_plan E S tenant_id =
     bindE (query_items E (bl_subs_table S)
        \<lparr>q_index = None, q_hash = (''tenant_id'', PStr tenant_id), q_prefix = None, q_limit = None,
         q_forward = True, q_start = None\<rparr>) (\<lambda>page.
     liftE (best_plan ''free'' (p_items page)))"

section \<open>Checkout and portal\<close>

definition billing_audit :: "string \<Rightarrow> string \<Rightarrow> string \<Rightarrow> string \<Rightarrow> string \<Rightarrow> item \<Rightarrow> audit_args" where
  "billing_audit actor_id actor_type action resource_type resource_id details =
     \<lparr>ra_actor_id = actor_id, ra_actor_type = actor_type, ra_action = action, ra_resource_type = resource_type,
      ra_resource_id = resource_id, ra_source_service = ''billing'', ra_details = details\<rparr>"

definition resolve_price_for_tier :: "string \<Rightarrow> billing_settings \<Rightarrow> string" where
  "resolve_price_for_tier tier S = (if tier = ''pro'' then bl_price_pro S else bl_price_team S)"

definition team_min_seats :: int where
  "team_min_seats = 3"

definition resolve_quantity :: "string \<Rightarrow> int option \<Rightarrow> exn + int" where
  "resolve_quantity tier seats =
     (if tier = ''pro'' then Inr 1
      else case seats of
             None \<Rightarrow> Inl (HTTPException 422 ''team tier requires seats >= 3'')
           | Some n \<Rightarrow>
               if n < team_min_seats then Inl (HTTPException 422 ''team tier requires seats >= 3'') else Inr n)"

definition bad_gateway :: "string \<Rightarrow> exn" where
  "bad_gateway detail = HTTPException 502 detail"

definition create_checkout_session :: "'t env \<Rightarrow> billing_settings \<Rightarrow> authenticated_user \<Rightarrow> checkout_request \<Rightarrow>
    ('t world, string) io" where
  "create_checkout_session E S user req =
     bindE (liftE (resolve_quantity (cr_tier req) (cr_seats req))) (\<lambda>quantity.
     bindE (invoke E (StripeCheckout
        [(''customer_email'', PStr (au_email user)), (''client_reference_id'', PStr (au_user_id user)),
         (''price'', PStr (resolve_price_for_tier (cr_tier req) S)), (''quantity'', PInt quantity),
         (''success_url'', PStr (bl_success_url S)), (''cancel_url'', PStr (bl_cancel_url S))])) (\<lambda>session.
     bindE (liftE (get_attr session ''url'')) (\<lambda>u.
     (case nonempty_str u of
        None \<Rightarrow> raiseE (bad_gateway ''Stripe response missing checkout url'')
      | Some checkout_url \<Rightarrow>
          bindE (liftE (get_attr session ''id'')) (\<lambda>sid.
          let details = [(''tier'', PStr (cr_tier req)), (''seats'', PInt quantity), (''stripe_session_id'', sid)] in
          bindE (append_event E S (au_user_id user) ''checkout_started'' details) (\<lambda>event_id.
          bindE (record_event E (billing_audit (au_user_id user) ''user'' ''billing.checkout_started''
                   ''billing_event'' event_id details)) (\<lambda>_.
          retE checkout_url)))))))"

text \<open>The customer on file, or a new one that is recorded in the log.\<close>

definition customer_for :: "'t env \<Rightarrow> billing_settings \<Rightarrow> authenticated_user \<Rightarrow> ('t world, string) io" where
  "customer_for E S user =
     bindE (find_customer_id E S (au_user_id user)) (\<lambda>found.
     (case found of
        Some c \<Rightarrow> retE c
      | None \<Rightarrow>
          bindE (invoke E (StripeCreateCustomer (au_email user) (au_user_id user))) (\<lambda>customer.
          bindE (liftE (get_attr customer ''id'')) (\<lambda>i.
          (case nonempty_str i of
             None \<Rightarrow> raiseE (bad_gateway ''Stripe response missing customer id'')
           | Some c \<Rightarrow>
               bindE (append_event E S (au_user_id user) ''customer_created'' [(''stripe_customer_id'', PStr c)]) (\<lambda>_.
               retE c))))))"

definition create_portal_session :: "'t env \<Rightarrow> billing_settings \<Rightarrow> authenticated_user \<Rightarrow> string \<Rightarrow>
    ('t world, string) io" where
  "create_portal_session E S user return_url =
     (if \<not> is_allowed_return_url return_url
      then raiseE (HTTPException 422 ''return_url is not on the Panakoes allowlist'')
      else
        bindE (customer_for E S user) (\<lambda>customer_id.
        bindE (invoke E (StripePortal customer_id return_url)) (\<lambda>session.
        bindE (liftE (get_attr session ''url'')) (\<lambda>u.
        (case nonempty_str u of
           None \<Rightarrow> raiseE (bad_gateway ''Stripe response missing portal url'')
         | Some portal_url \<Rightarrow> retE portal_url)))))"

section \<open>The webhook\<close>

definition webhook_event_type_map :: "(string \<times> string) list" where
  "webhook_event_type_map =
     [(''checkout.session.completed'', ''checkout_completed''),
      (''customer.subscription.created'', ''subscription_created''),
      (''customer.subscription.updated'', ''subscription_updated''),
      (''customer.subscription.deleted'', ''subscription_deleted''),
      (''invoice.paid'', ''invoice_paid''),
      (''invoice.payment_failed'', ''invoice_payment_failed'')]"

definition webhook_audit_action_map :: "(string \<times> string) list" where
  "webhook_audit_action_map =
     [(''checkout.session.completed'', ''billing.subscription_changed''),
      (''customer.subscription.created'', ''billing.subscription_changed''),
      (''customer.subscription.updated'', ''billing.subscription_changed''),
      (''customer.subscription.deleted'', ''billing.subscription_changed''),
      (''invoice.paid'', ''billing.payment_succeeded''),
      (''invoice.payment_failed'', ''billing.payment_failed'')]"

definition subscription_state_events :: "string list" where
  "subscription_state_events = [''checkout.session.completed'', ''customer.subscription.created'',
     ''customer.subscription.updated'', ''customer.subscription.deleted'']"

definition user_id_from_event :: "item \<Rightarrow> string option" where
  "user_id_from_event event_object =
     (case nonempty_str (dget event_object ''client_reference_id'') of
        Some u \<Rightarrow> Some u
      | None \<Rightarrow>
          Option.bind (as_dict (dget event_object ''metadata'')) (\<lambda>m. nonempty_str (dget m ''user_id'')))"

text \<open>\<^verbatim>\<open>datetime.fromtimestamp(n, UTC)\<close>: years 1 to 9999.\<close>

definition from_timestamp :: "int \<Rightarrow> exn + int" where
  "from_timestamp n =
     (if - 62135596800 \<le> n \<and> n \<le> 253402300799 then Inr (n * 1000000)
      else Inl (ValueError ''year is out of range''))"

text \<open>\<^verbatim>\<open>items.data[0]\<close> when the shapes are right.\<close>

definition first_line_item :: "item \<Rightarrow> item option" where
  "first_line_item event_object =
     Option.bind (as_dict (dget event_object ''items'')) (\<lambda>items.
     Option.bind (as_list (dget items ''data'')) (\<lambda>data.
     case data of [] \<Rightarrow> None | first # _ \<Rightarrow> as_dict first))"

definition price_of_event :: "item \<Rightarrow> string option" where
  "price_of_event event_object =
     Option.bind (first_line_item event_object) (\<lambda>first.
     Option.bind (as_dict (dget first ''price'')) (\<lambda>price. nonempty_str (dget price ''id'')))"

definition set_opt :: "string \<Rightarrow> string option \<Rightarrow> item \<Rightarrow> item" where
  "set_opt k v d = (case v of None \<Rightarrow> d | Some s \<Rightarrow> dset k (PStr s) d)"

definition extract_subscription_attributes :: "string \<Rightarrow> item \<Rightarrow> exn + item" where
  "extract_subscription_attributes stripe_event_type event_object =
     (let a1 = set_opt ''stripe_customer_id'' (nonempty_str (dget event_object ''customer''))
                 [(''stripe_event_type'', PStr stripe_event_type)];
          a2 = set_opt ''stripe_subscription_id''
                 (nonempty_str (py_or (dget event_object ''subscription'') (dget event_object ''id''))) a1;
          a3 = set_opt ''status'' (nonempty_str (dget event_object ''status'')) a2
      in case as_int (dget event_object ''current_period_end'') of
           None \<Rightarrow> Inr (set_opt ''stripe_price_id'' (price_of_event event_object) a3)
         | Some n \<Rightarrow>
             and_then (from_timestamp n) (\<lambda>t.
               Inr (set_opt ''stripe_price_id'' (price_of_event event_object)
                      (dset ''current_period_end'' (PStr (isoformat t)) a3))))"

definition plan_from_attributes :: "item \<Rightarrow> string" where
  "plan_from_attributes attributes =
     (if dget attributes ''tier'' = PStr ''team'' then ''team''
      else if dget attributes ''tier'' = PStr ''pro'' then ''pro'' else ''free'')"

definition positive_int :: "pyval \<Rightarrow> int option" where
  "positive_int v = (case as_int v of None \<Rightarrow> None | Some n \<Rightarrow> if 0 < n then Some n else None)"

definition event_quantity :: "item \<Rightarrow> int" where
  "event_quantity event_object =
     (case positive_int (dget event_object ''quantity'') of
        Some n \<Rightarrow> n
      | None \<Rightarrow>
          (case Option.bind (first_line_item event_object) (\<lambda>first. positive_int (dget first ''quantity'')) of
             Some n \<Rightarrow> n | None \<Rightarrow> 1))"

definition cancel_time :: "item \<Rightarrow> exn + int option" where
  "cancel_time event_object =
     (case as_int (dget event_object ''cancel_at'') of
        None \<Rightarrow> Inr None
      | Some n \<Rightarrow> and_then (from_timestamp n) (\<lambda>t. Inr (Some t)))"

definition status_of_event :: "(pyval \<Rightarrow> string) \<Rightarrow> item \<Rightarrow> item \<Rightarrow> string" where
  "status_of_event show_val event_object attributes =
     (let v = py_or (py_or (dget attributes ''status'') (dget event_object ''status'')) (PStr ''active'')
      in case as_str v of Some s \<Rightarrow> s | None \<Rightarrow> show_val v)"

definition state_of_event :: "'t env \<Rightarrow> billing_settings \<Rightarrow> string \<Rightarrow> string \<Rightarrow> string \<Rightarrow> string \<Rightarrow> item \<Rightarrow> item \<Rightarrow>
    exn + subscription_state" where
  "state_of_event E S event_type event_id tenant_id subscription_id event_object attributes =
     (let deleted = (event_type = ''customer.subscription.deleted'') in
      and_then (cancel_time event_object) (\<lambda>cancel_at.
        Inr \<lparr>sub_tenant_id = tenant_id, sub_subscription_id = subscription_id, sub_event_id = event_id,
             sub_plan = (if deleted then ''free'' else plan_from_attributes attributes),
             sub_status = (if deleted then ''canceled'' else status_of_event (bl_show S) event_object attributes),
             sub_period_end = Option.bind (nonempty_str (dget attributes ''current_period_end'')) (parse_dt E),
             sub_cancel_at = cancel_at, sub_quantity = event_quantity event_object,
             sub_customer_id = as_str (dget attributes ''stripe_customer_id'')\<rparr>))"

definition apply_subscription_state :: "'t env \<Rightarrow> billing_settings \<Rightarrow> string \<Rightarrow> string \<Rightarrow> string \<Rightarrow> item \<Rightarrow> item \<Rightarrow>
    ('t world, bool) io" where
  "apply_subscription_state E S event_type event_id tenant_id event_object attributes =
     (case nonempty_str (dget attributes ''stripe_subscription_id'') of
        None \<Rightarrow> retE True
      | Some subscription_id \<Rightarrow>
          bindE (liftE (state_of_event E S event_type event_id tenant_id subscription_id event_object attributes)) (\<lambda>s.
          upsert E S s))"

text \<open>The tier is added to the attributes when the price is one of the two configured.\<close>

definition with_tier :: "billing_settings \<Rightarrow> item \<Rightarrow> item" where
  "with_tier S attributes =
     (let price = dget attributes ''stripe_price_id'' in
      if price = PStr (bl_price_pro S) then dset ''tier'' (PStr ''pro'') attributes
      else if price = PStr (bl_price_team S) then dset ''tier'' (PStr ''team'') attributes
      else attributes)"

definition event_object_of :: "item \<Rightarrow> item" where
  "event_object_of event =
     (case Option.bind (as_dict (dget event ''data'')) (\<lambda>d. as_dict (dget d ''object'')) of
        None \<Rightarrow> [] | Some obj \<Rightarrow> obj)"

definition log_webhook_event :: "'t env \<Rightarrow> billing_settings \<Rightarrow> item \<Rightarrow> string \<Rightarrow> string \<Rightarrow> string \<Rightarrow> item \<Rightarrow>
    ('t world, item) io" where
  "log_webhook_event E S event stripe_event_type internal user_id attributes =
     bindE (append_event E S user_id internal attributes) (\<lambda>event_id.
     bindE (record_event E (billing_audit user_id ''user''
        (case map_of webhook_audit_action_map stripe_event_type of None \<Rightarrow> [] | Some a \<Rightarrow> a) ''billing_event'' event_id
        [(''stripe_event_type'', PStr stripe_event_type), (''stripe_event_id'', dget event ''id''),
         (''internal_event_type'', PStr internal)])) (\<lambda>_.
     retE [(''status'', PStr ''ok'')]))"

text \<open>A verified event for a known user: project, then log.\<close>

definition process_webhook_event :: "'t env \<Rightarrow> billing_settings \<Rightarrow> item \<Rightarrow> string \<Rightarrow> string \<Rightarrow> string \<Rightarrow> item \<Rightarrow>
    ('t world, item) io" where
  "process_webhook_event E S event stripe_event_type internal user_id event_object =
     bindE (liftE (extract_subscription_attributes stripe_event_type event_object)) (\<lambda>a.
     let attributes = with_tier S a in
     (case (if stripe_event_type \<in> set subscription_state_events then nonempty_str (dget event ''id'') else None) of
        None \<Rightarrow> log_webhook_event E S event stripe_event_type internal user_id attributes
      | Some stripe_event_id \<Rightarrow>
          bindE (apply_subscription_state E S stripe_event_type stripe_event_id user_id event_object attributes) (\<lambda>applied.
          if \<not> applied
          then retE [(''status'', PStr ''duplicate''), (''stripe_event_id'', PStr stripe_event_id)]
          else log_webhook_event E S event stripe_event_type internal user_id attributes)))"

definition dispatch_webhook_event :: "'t env \<Rightarrow> billing_settings \<Rightarrow> item \<Rightarrow> ('t world, item) io" where
  "dispatch_webhook_event E S event =
     (case as_str (dget event ''type'') of
        None \<Rightarrow> retE [(''status'', PStr ''ignored''), (''reason'', PStr ''missing event type'')]
      | Some t \<Rightarrow>
          (case map_of webhook_event_type_map t of
             None \<Rightarrow> retE [(''status'', PStr ''ignored''), (''stripe_event_type'', PStr t)]
           | Some internal \<Rightarrow>
               (case user_id_from_event (event_object_of event) of
                  None \<Rightarrow> retE [(''status'', PStr ''ignored''), (''reason'', PStr ''no user id on event'')]
                | Some user_id \<Rightarrow>
                    process_webhook_event E S event t internal user_id (event_object_of event))))"

text \<open>
  \<open>StripeSDKAdapter.verify_webhook_signature\<close>: a signature failure of the SDK and a \<^verbatim>\<open>ValueError\<close> become
  \<open>StripeSignatureError\<close>.
\<close>

fun is_signature_failure :: "exn \<Rightarrow> bool" where
  "is_signature_failure (OtherError c _) = (c = ''SignatureVerificationError'')"
| "is_signature_failure (ValueError _) = True"
| "is_signature_failure _ = False"

fun signature_reason :: "exn \<Rightarrow> string option" where
  "signature_reason (StripeSignatureError m) = Some m"
| "signature_reason _ = None"

definition verify_webhook_signature :: "'t env \<Rightarrow> string \<Rightarrow> string \<Rightarrow> string \<Rightarrow> ('t world, item) io" where
  "verify_webhook_signature E payload signature_header secret =
     tryE (invoke E (StripeVerify payload signature_header secret))
       (\<lambda>e. raiseE (if is_signature_failure e then StripeSignatureError (str_exn E e) else e))
       (\<lambda>event. case as_dict event of None \<Rightarrow> raiseE TypeError | Some d \<Rightarrow> retE d)"

definition reject_webhook :: "'t env \<Rightarrow> string \<Rightarrow> string \<Rightarrow> string \<Rightarrow> ('t world, item) io" where
  "reject_webhook E resource_id reason detail =
     bindE (record_event E (billing_audit ''stripe'' ''service'' ''billing.webhook_signature_invalid''
              ''billing_webhook'' resource_id [(''reason'', PStr reason)])) (\<lambda>_.
     raiseE (HTTPException 400 detail))"

definition handle_webhook :: "'t env \<Rightarrow> billing_settings \<Rightarrow> string \<Rightarrow> string option \<Rightarrow> ('t world, item) io" where
  "handle_webhook E S payload stripe_signature =
     (case stripe_signature of
        None \<Rightarrow> reject_webhook E ''missing-signature'' ''missing Stripe-Signature header'' ''missing Stripe-Signature header''
      | Some sig \<Rightarrow>
          if strip sig = []
          then reject_webhook E ''missing-signature'' ''missing Stripe-Signature header'' ''missing Stripe-Signature header''
          else
            tryE (verify_webhook_signature E payload sig (bl_webhook_secret S))
              (\<lambda>e. case signature_reason e of
                     Some m \<Rightarrow> reject_webhook E ''invalid-signature'' m ''invalid Stripe webhook signature''
                   | None \<Rightarrow> raiseE e)
              (\<lambda>event. dispatch_webhook_event E S event))"

section \<open>The subscription view\<close>

definition subscription_statuses :: "string list" where
  "subscription_statuses = [''active'', ''past_due'', ''canceled'', ''incomplete'', ''incomplete_expired'',
     ''trialing'', ''unpaid'', ''paused'']"

record subscription_view =
  sv_tier :: "string option"
  sv_status :: "string option"
  sv_period_end :: "int option"

definition literal_or_none :: "string list \<Rightarrow> pyval \<Rightarrow> string option" where
  "literal_or_none allowed v =
     (case as_str v of None \<Rightarrow> None | Some s \<Rightarrow> if s \<in> set allowed then Some s else None)"

definition view_of_event :: "'t env \<Rightarrow> item \<Rightarrow> subscription_view" where
  "view_of_event E event =
     \<lparr>sv_tier = literal_or_none tiers (dget event ''tier''),
      sv_status = literal_or_none subscription_statuses (dget event ''status''),
      sv_period_end = Option.bind (nonempty_str (dget event ''current_period_end'')) (parse_dt E)\<rparr>"

definition get_subscription :: "'t env \<Rightarrow> billing_settings \<Rightarrow> string \<Rightarrow> ('t world, subscription_view) io" where
  "get_subscription E S user_id =
     bindE (latest_subscription_event E S user_id) (\<lambda>event.
     retE (case event of
             None \<Rightarrow> \<lparr>sv_tier = None, sv_status = None, sv_period_end = None\<rparr>
           | Some ev \<Rightarrow> view_of_event E ev))"

section \<open>Lemmas: the subscription table\<close>

definition subscription_key :: "string \<Rightarrow> string \<Rightarrow> item" where
  "subscription_key tenant_id subscription_id =
     [(''tenant_id'', PStr tenant_id), (''subscription_id'', PStr subscription_id)]"

text \<open>The setting: the table's key, and three different tables.\<close>

definition billing_setting :: "'t env \<Rightarrow> 't db_view \<Rightarrow> billing_settings \<Rightarrow> bool" where
  "billing_setting E V S \<longleftrightarrow> ddb_ok E V \<and> key_attrs E (bl_subs_table S) = [''tenant_id'', ''subscription_id''] \<and>
     bl_events_table S \<noteq> bl_subs_table S \<and> audit_table (audit_cfg E) \<noteq> bl_subs_table S"

definition sub_row :: "'t db_view \<Rightarrow> billing_settings \<Rightarrow> 't world \<Rightarrow> string \<Rightarrow> string \<Rightarrow> item option" where
  "sub_row V S w tenant_id subscription_id = rows V w (bl_subs_table S) (subscription_key tenant_id subscription_id)"

definition last_event :: "item option \<Rightarrow> pyval option" where
  "last_event r = map_of (row_attrs r) ''last_event_id''"

lemma not_replayed_iff [simp]: "eval_cond (not_replayed eid) (row_attrs r) \<longleftrightarrow> last_event r \<noteq> Some (PStr eid)"
  by (auto simp: not_replayed_def last_event_def)

lemma subscription_item_event [simp]:
  "map_of (subscription_item s now) ''last_event_id'' = Some (PStr (sub_event_id s))"
  "map_of (subscription_item s now) ''plan'' = Some (PStr (sub_plan s))"
  "map_of (subscription_item s now) ''status'' = Some (PStr (sub_status s))"
  "dget (subscription_item s now) ''tenant_id'' = PStr (sub_tenant_id s)"
  "dget (subscription_item s now) ''subscription_id'' = PStr (sub_subscription_id s)"
  by (simp_all add: subscription_item_def dget_def dget_or_def)

lemma subscription_item_key:
  assumes "billing_setting E V S"
  shows "subscription_key (sub_tenant_id s) (sub_subscription_id s) =
     ddb_item (key_of E (bl_subs_table S) (subscription_item s now))"
  using assms by (simp add: billing_setting_def key_of_def ddb_item_def subscription_key_def)

lemma upsert_cases:
  assumes "billing_setting E V S" "upsert E S s w = (r, w')"
  defines "old \<equiv> sub_row V S w (sub_tenant_id s) (sub_subscription_id s)"
  shows "trace w' = trace w"
    and "r = Inr True \<Longrightarrow> last_event old \<noteq> Some (PStr (sub_event_id s)) \<and>
      (\<exists>now. rows V w' = store_row (rows V w) (bl_subs_table S)
         (subscription_key (sub_tenant_id s) (sub_subscription_id s)) (ddb_item (subscription_item s now)))"
    and "r = Inr False \<Longrightarrow> last_event old = Some (PStr (sub_event_id s))"
    and "last_event old = Some (PStr (sub_event_id s)) \<Longrightarrow> rows V w' = rows V w \<and> r \<noteq> Inr True"
    and "sub_row V S w' (sub_tenant_id s) (sub_subscription_id s) \<noteq> old \<Longrightarrow>
      last_event (sub_row V S w' (sub_tenant_id s) (sub_subscription_id s)) = Some (PStr (sub_event_id s))"
proof -
  have ddb: "ddb_ok E V" using assms(1) by (simp add: billing_setting_def)
  let ?now = "clock E (ticks w)" and ?w = "w\<lparr>ticks := Suc (ticks w)\<rparr>"
  obtain q w1 where put: "put_item E (bl_subs_table S) (subscription_item s ?now) (not_replayed (sub_event_id s)) ?w = (q, w1)"
    by fastforce
  note p = put_item_cases [OF ddb put subscription_item_key [OF assms(1)]]
  have r: "r = (case q of Inl e \<Rightarrow> if is_ccf e then Inr False else Inl e | Inr _ \<Rightarrow> Inr True)" "w' = w1"
    using assms(2) put
    by (auto simp: upsert_def bindE_def utcnow_def tick_def tryE_def retE_def raiseE_def split: sum.splits if_splits)
  show "trace w' = trace w" using p(2) r by simp
  show "r = Inr True \<Longrightarrow> last_event old \<noteq> Some (PStr (sub_event_id s)) \<and>
      (\<exists>now. rows V w' = store_row (rows V w) (bl_subs_table S)
         (subscription_key (sub_tenant_id s) (sub_subscription_id s)) (ddb_item (subscription_item s now)))"
    using p(1) r by (auto simp: old_def sub_row_def write_outcome_simps split: sum.splits if_splits)
  show "r = Inr False \<Longrightarrow> last_event old = Some (PStr (sub_event_id s))"
    using p(1) r by (auto simp: old_def sub_row_def write_outcome_simps split: sum.splits if_splits)
  show "last_event old = Some (PStr (sub_event_id s)) \<Longrightarrow> rows V w' = rows V w \<and> r \<noteq> Inr True"
    using p(1) r by (auto simp: old_def sub_row_def write_outcome_def split: sum.splits if_splits)
  show "sub_row V S w' (sub_tenant_id s) (sub_subscription_id s) \<noteq> old \<Longrightarrow>
      last_event (sub_row V S w' (sub_tenant_id s) (sub_subscription_id s)) = Some (PStr (sub_event_id s))"
    using write_outcome_weak [OF p(1)] r(2)
    by (auto simp: old_def sub_row_def store_row_apply last_event_def map_of_ddb_item)
qed

lemma state_of_event_fields:
  assumes "state_of_event E S t eid uid sid obj a = Inr s"
  shows "sub_tenant_id s = uid" "sub_subscription_id s = sid" "sub_event_id s = eid"
    "sub_plan s = (if t = ''customer.subscription.deleted'' then ''free'' else plan_from_attributes a)"
    "t = ''customer.subscription.deleted'' \<Longrightarrow> sub_status s = ''canceled''"
  using assms by (auto simp: state_of_event_def and_then_Inr_iff Let_def)

text \<open>The identifier of the subscription an event is about, and the attribute it becomes.\<close>

definition subscription_of :: "item \<Rightarrow> string option" where
  "subscription_of obj = nonempty_str (py_or (dget obj ''subscription'') (dget obj ''id''))"

lemma set_opt_dget [simp]: "dget (set_opt k v d) j = (if j = k then (case v of None \<Rightarrow> dget d j | Some s \<Rightarrow> PStr s) else dget d j)"
  by (auto simp: set_opt_def split: option.split)

lemma attributes_fields:
  assumes "extract_subscription_attributes t obj = Inr a"
  shows "nonempty_str (dget (with_tier S a) ''stripe_subscription_id'') = subscription_of obj"
    and "dget a ''stripe_price_id'' = (case price_of_event obj of None \<Rightarrow> PNone | Some p \<Rightarrow> PStr p)"
    and "dget a ''tier'' = PNone"
proof -
  have ne: "case v of None \<Rightarrow> True | Some s \<Rightarrow> s \<noteq> []" if "v = nonempty_str x" for v x
    using that by (cases x) (auto split: if_splits)
  show "dget a ''stripe_price_id'' = (case price_of_event obj of None \<Rightarrow> PNone | Some p \<Rightarrow> PStr p)"
    and "dget a ''tier'' = PNone"
    using assms
    by (auto simp: extract_subscription_attributes_def Let_def and_then_Inr_iff dget_Cons split: option.splits)
  have "dget a ''stripe_subscription_id'' = (case subscription_of obj of None \<Rightarrow> PNone | Some s \<Rightarrow> PStr s)"
    using assms
    by (auto simp: extract_subscription_attributes_def Let_def and_then_Inr_iff dget_Cons subscription_of_def
        split: option.splits)
  then show "nonempty_str (dget (with_tier S a) ''stripe_subscription_id'') = subscription_of obj"
    using ne [of "subscription_of obj"] by (auto simp: with_tier_def Let_def subscription_of_def split: option.splits)
qed

section \<open>Lemmas: running a subscription event\<close>

text \<open>\<open>event\<close> changes subscription \<open>sid\<close> of user \<open>uid\<close>; its type is \<open>t\<close> and its identifier \<open>eid\<close>.\<close>

definition sub_event :: "item \<Rightarrow> string \<Rightarrow> string \<Rightarrow> string \<Rightarrow> string \<Rightarrow> bool" where
  "sub_event event t eid uid sid \<longleftrightarrow>
     dget event ''type'' = PStr t \<and> t \<in> set subscription_state_events \<and>
     dget event ''id'' = PStr eid \<and> eid \<noteq> [] \<and>
     user_id_from_event (event_object_of event) = Some uid \<and> subscription_of (event_object_of event) = Some sid"

definition duplicate_answer :: "string \<Rightarrow> item" where
  "duplicate_answer eid = [(''status'', PStr ''duplicate''), (''stripe_event_id'', PStr eid)]"

lemma state_events_mapped: "t \<in> set subscription_state_events \<Longrightarrow> \<exists>i. map_of webhook_event_type_map t = Some i"
  by (auto simp: subscription_state_events_def webhook_event_type_map_def)

lemma sub_event_run:
  assumes "sub_event event t eid uid sid" "dispatch_webhook_event E S event w = (r, w')"
  obtains (bad) e where "r = Inl e" "w' = w"
  | (projected) a s q w1 where "extract_subscription_attributes t (event_object_of event) = Inr a"
      "state_of_event E S t eid uid sid (event_object_of event) (with_tier S a) = Inr s"
      "upsert E S s w = (q, w1)"
      "case q of Inl e \<Rightarrow> r = Inl e \<and> w' = w1
       | Inr applied \<Rightarrow> if applied then (\<exists>internal. log_webhook_event E S event t internal uid (with_tier S a) w1 = (r, w'))
                      else r = Inr (duplicate_answer eid) \<and> w' = w1"
proof -
  obtain internal where m: "map_of webhook_event_type_map t = Some internal"
    using assms(1) state_events_mapped by (auto simp: sub_event_def)
  let ?o = "event_object_of event"
  have run: "process_webhook_event E S event t internal uid ?o w = (r, w')"
    using assms m by (simp add: dispatch_webhook_event_def sub_event_def)
  show thesis
  proof (cases "extract_subscription_attributes t ?o")
    case (Inl e)
    with run show thesis by (intro bad [of e]) (auto simp: process_webhook_event_def bindE_def liftE_def)
  next
    case (Inr a)
    have id: "nonempty_str (dget event ''id'') = Some eid" "t \<in> set subscription_state_events"
      "nonempty_str (dget (with_tier S a) ''stripe_subscription_id'') = Some sid"
      using assms(1) attributes_fields(1) [OF Inr, of S] by (simp_all add: sub_event_def)
    show thesis
    proof (cases "state_of_event E S t eid uid sid ?o (with_tier S a)")
      case (Inl e)
      with run Inr id show thesis
        by (intro bad [of e]) (auto simp: process_webhook_event_def bindE_def liftE_def apply_subscription_state_def Let_def)
    next
      case (Inr s)
      obtain q w1 where u: "upsert E S s w = (q, w1)" by fastforce
      have "case q of Inl e \<Rightarrow> r = Inl e \<and> w' = w1
       | Inr applied \<Rightarrow> if applied then (\<exists>internal. log_webhook_event E S event t internal uid (with_tier S a) w1 = (r, w'))
                      else r = Inr (duplicate_answer eid) \<and> w' = w1"
        using run \<open>extract_subscription_attributes t ?o = Inr a\<close> id Inr u
        by (auto simp: process_webhook_event_def bindE_def liftE_def apply_subscription_state_def Let_def retE_def
            duplicate_answer_def split: sum.splits)
      with \<open>extract_subscription_attributes t ?o = Inr a\<close> Inr u show thesis by (intro projected)
    qed
  qed
qed

text \<open>Logging leaves the subscription table as it is.\<close>

lemma keeps_append:
  assumes "billing_setting E V S"
  shows "keeps (rows_rel V (same_table (bl_subs_table S))) (append_event E S uid ty a)"
proof -
  have ddb: "ddb_ok E V" using assms by (simp add: billing_setting_def)
  have "keeps (rows_rel V (same_table (bl_subs_table S))) (put_item E (bl_events_table S) it CTrue)" for it
    using assms by (intro keeps_put_other [OF ddb]) (simp add: billing_setting_def)
  then show ?thesis
    unfolding append_event_def fresh_ulid_def random80_def
    by (intro keeps_intros) (use assms in \<open>simp_all add: billing_setting_def\<close>)
qed

lemma keeps_billing_audit:
  assumes "billing_setting E V S"
  shows "keeps (rows_rel V (same_table (bl_subs_table S))) (record_event E a)"
  using assms
  by (intro keeps_record_event_rel) (auto simp: same_table_def store_row_def billing_setting_def)

lemma log_keeps_subscriptions:
  assumes "billing_setting E V S" "log_webhook_event E S event t internal uid a w = (r, w')"
  shows "rows V w' (bl_subs_table S) = rows V w (bl_subs_table S)"
proof -
  have "keeps (rows_rel V (same_table (bl_subs_table S))) (log_webhook_event E S event t internal uid a)"
    unfolding log_webhook_event_def
    by (intro keeps_intros preorder_same_table keeps_append keeps_billing_audit assms(1))
  from keepsD [OF this assms(2)] show ?thesis by (simp add: rows_rel_def same_table_def)
qed

section \<open>Properties: the webhook\<close>

lemma replay_does_nothing:
  assumes "billing_setting E V S" "sub_event event t eid uid sid"
    and "last_event (sub_row V S w uid sid) = Some (PStr eid)"
    and "dispatch_webhook_event E S event w = (r, w')"
  shows "rows V w' = rows V w \<and> trace w' = trace w \<and> (\<forall>x. r = Inr x \<longrightarrow> x = duplicate_answer eid)"
  using assms(2,4)
proof (cases rule: sub_event_run)
  case (bad e)
  then show ?thesis by simp
next
  case (projected a s q w1)
  note f = state_of_event_fields [OF projected(2)]
  note u = upsert_cases [OF assms(1) projected(3)]
  have "rows V w1 = rows V w" "q \<noteq> Inr True" using u(4) assms(3) f by simp_all
  with projected(4) u(1) show ?thesis by (auto split: sum.split_asm if_split_asm)
qed

lemma applied_event_marks_row:
  assumes "billing_setting E V S" "sub_event event t eid uid sid"
    and "dispatch_webhook_event E S event w = (Inr x, w')"
  shows "last_event (sub_row V S w' uid sid) = Some (PStr eid)"
  using assms(2,3)
proof (cases rule: sub_event_run)
  case (projected a s q w1)
  note f = state_of_event_fields [OF projected(2)]
  note u = upsert_cases [OF assms(1) projected(3)]
  obtain applied where q: "q = Inr applied" using projected(4) by (auto split: sum.split_asm)
  show ?thesis
  proof (cases applied)
    case True
    with projected(4) q obtain internal where "log_webhook_event E S event t internal uid (with_tier S a) w1 = (Inr x, w')"
      by auto
    from log_keeps_subscriptions [OF assms(1) this] have "sub_row V S w' uid sid = sub_row V S w1 uid sid"
      by (simp add: sub_row_def)
    moreover have "last_event (sub_row V S w1 uid sid) = Some (PStr eid)"
      using u(2) q True f by (auto simp: sub_row_def store_row_apply last_event_def map_of_ddb_item)
    ultimately show ?thesis by simp
  next
    case False
    with projected(4) q have "w' = w1" by simp
    have "last_event (sub_row V S w uid sid) = Some (PStr eid)" using u(3) q False f by simp
    moreover from this have "rows V w1 = rows V w" using u(4) f by simp
    ultimately show ?thesis using \<open>w' = w1\<close> by (simp add: sub_row_def)
  qed
qed simp

text \<open>
  C10. Redelivery of a subscription event is idempotent: once an event was answered with success, a
  second delivery that finds the subscription's row as it was left writes nothing, makes no call and is
  answered as a duplicate (or fails), so the event is neither applied nor logged twice.
\<close>

theorem webhook_replay_is_noop:
  assumes "billing_setting E V S" "sub_event event t eid uid sid"
    and "dispatch_webhook_event E S event w = (Inr x, w1)"
    and "sub_row V S w2 uid sid = sub_row V S w1 uid sid"
    and "dispatch_webhook_event E S event w2 = (r, w3)"
  shows "rows V w3 = rows V w2 \<and> trace w3 = trace w2 \<and> (\<forall>y. r = Inr y \<longrightarrow> y = duplicate_answer eid)"
  by (rule replay_does_nothing [OF assms(1,2) _ assms(5)])
    (use applied_event_marks_row [OF assms(1-3)] assms(4) in simp)

text \<open>
  An event whose log entry failed is never logged: when the row was projected and the append or the
  audit then raised, Stripe's retry finds the event's identifier in the row, is answered as a duplicate
  and writes nothing, so the event log stays without the event.
\<close>

lemma failed_log_is_never_repaired:
  assumes "billing_setting E V S" "sub_event event t eid uid sid"
    and "dispatch_webhook_event E S event w = (Inl e, w1)"
    and "sub_row V S w1 uid sid \<noteq> sub_row V S w uid sid"
    and "sub_row V S w2 uid sid = sub_row V S w1 uid sid"
    and "dispatch_webhook_event E S event w2 = (r, w3)"
  shows "rows V w3 = rows V w2 \<and> trace w3 = trace w2 \<and> (\<forall>y. r = Inr y \<longrightarrow> y = duplicate_answer eid)"
proof (rule replay_does_nothing [OF assms(1,2) _ assms(6)])
  have "last_event (sub_row V S w1 uid sid) = Some (PStr eid)"
    using assms(2,3)
  proof (cases rule: sub_event_run)
    case (bad e')
    with assms(4) show ?thesis by simp
  next
    case (projected a s q w')
    note f = state_of_event_fields [OF projected(2)]
    note u = upsert_cases [OF assms(1) projected(3)]
    have rows1: "rows V w1 (bl_subs_table S) = rows V w' (bl_subs_table S)"
      using projected(4) log_keeps_subscriptions [OF assms(1)] by (auto split: sum.split_asm if_split_asm)
    then have same: "sub_row V S w1 uid sid = sub_row V S w' uid sid" by (simp add: sub_row_def)
    with assms(4) have "sub_row V S w' uid sid \<noteq> sub_row V S w uid sid" by simp
    with u(5) f same show ?thesis by simp
  qed
  with assms(5) show "last_event (sub_row V S w2 uid sid) = Some (PStr eid)" by simp
qed

text \<open>The plan a price stands for.\<close>

definition plan_of_price :: "billing_settings \<Rightarrow> string option \<Rightarrow> string" where
  "plan_of_price S price =
     (case price of None \<Rightarrow> ''free''
      | Some p \<Rightarrow> if p = bl_price_pro S then ''pro'' else if p = bl_price_team S then ''team'' else ''free'')"

lemma plan_of_attributes:
  assumes "extract_subscription_attributes t obj = Inr a"
  shows "plan_from_attributes (with_tier S a) = plan_of_price S (price_of_event obj)"
  using attributes_fields(2,3) [OF assms]
  by (auto simp: plan_from_attributes_def with_tier_def plan_of_price_def Let_def split: option.splits)

text \<open>
  C26. What an accepted subscription event leaves behind: the row of its subscription is the event's
  state, with the plan its price stands for (none of the two configured prices is \<^verbatim>\<open>free\<close>), and a deleted
  subscription is always \<^verbatim>\<open>free\<close> and \<^verbatim>\<open>canceled\<close>; no other subscription's row changes.
\<close>

theorem subscription_projection:
  assumes "billing_setting E V S" "sub_event event t eid uid sid"
    and "dispatch_webhook_event E S event w = (Inr [(''status'', PStr ''ok'')], w')"
  shows "\<exists>new. sub_row V S w' uid sid = Some new \<and>
     map_of new ''plan'' = Some (PStr (if t = ''customer.subscription.deleted'' then ''free''
        else plan_of_price S (price_of_event (event_object_of event)))) \<and>
     (t = ''customer.subscription.deleted'' \<longrightarrow> map_of new ''status'' = Some (PStr ''canceled'')) \<and>
     (\<forall>k. k \<noteq> subscription_key uid sid \<longrightarrow> rows V w' (bl_subs_table S) k = rows V w (bl_subs_table S) k)"
  using assms(2,3)
proof (cases rule: sub_event_run)
  case (projected a s q w1)
  note f = state_of_event_fields [OF projected(2)]
  note u = upsert_cases [OF assms(1) projected(3)]
  have ok: "[(''status'', PStr ''ok'')] \<noteq> duplicate_answer eid" by (simp add: duplicate_answer_def)
  with projected(4) obtain internal where q: "q = Inr True"
    and log: "log_webhook_event E S event t internal uid (with_tier S a) w1 = (Inr [(''status'', PStr ''ok'')], w')"
    by (auto split: sum.split_asm if_split_asm)
  from u(2) [OF q] f obtain now where stored: "rows V w1 = store_row (rows V w) (bl_subs_table S)
      (subscription_key uid sid) (ddb_item (subscription_item s now))" by auto
  show ?thesis
    by (intro exI [of _ "ddb_item (subscription_item s now)"])
      (use f stored log_keeps_subscriptions [OF assms(1) log] plan_of_attributes [OF projected(1), of S] in
        \<open>auto simp: sub_row_def store_row_apply map_of_ddb_item\<close>)
qed simp

text \<open>
  Only the last event is remembered: a retry of an earlier event that arrives after a later one has
  been applied is applied again, and the row goes back to the state of the earlier event.
\<close>

lemma stale_event_reverts_row:
  assumes "billing_setting E V S" "sub_event_id a \<noteq> sub_event_id b"
    and "sub_tenant_id b = sub_tenant_id a" "sub_subscription_id b = sub_subscription_id a"
    and "upsert E S a w = (Inr True, w1)" "upsert E S b w1 = (Inr True, w2)" "upsert E S a w2 = (Inr applied, w3)"
  shows "applied \<and> (\<exists>now. sub_row V S w3 (sub_tenant_id a) (sub_subscription_id a) =
     Some (ddb_item (subscription_item a now)))"
proof -
  from upsert_cases(2) [OF assms(1,6) refl] assms(3,4)
  have "last_event (sub_row V S w2 (sub_tenant_id a) (sub_subscription_id a)) = Some (PStr (sub_event_id b))"
    by (auto simp: sub_row_def store_row_apply last_event_def map_of_ddb_item)
  with upsert_cases(3) [OF assms(1,7)] assms(2) have "applied" by (cases applied) auto
  with upsert_cases(2) [OF assms(1,7)] show ?thesis by (auto simp: sub_row_def store_row_apply)
qed

text \<open>Redeliveries are repeats under the event's identifier: any number of them does nothing.\<close>

interpretation webhook_once: at_most_once "billing_setting E V S" V "dispatch_webhook_event E S"
    "\<lambda>event (eid, uid, sid). \<exists>t. sub_event event t eid uid sid"
    "\<lambda>(eid, uid, sid) w. last_event (sub_row V S w uid sid) = Some (PStr eid)" for E V S
proof (unfold_locales, goal_cases)
  case (1 rq k w x w')
  then show ?case by (cases k) (auto intro: applied_event_marks_row)
next
  case (2 rq k w r w')
  then show ?case by (cases k) (auto simp: nothing_done_def dest: replay_does_nothing)
next
  case (3 w w' k)
  then show ?case by (cases k) (simp add: nothing_done_def sub_row_def)
qed

lemma reject_keeps:
  assumes "ddb_ok E V" "tbl \<noteq> audit_table (audit_cfg E)" "reject_webhook E a b c w = (r, w')"
  shows "rows V w' tbl = rows V w tbl"
proof -
  have "keeps (rows_rel V (same_table tbl)) (record_event E x)" for x
    using assms(1,2) by (intro keeps_record_event_rel) (auto simp: same_table_def store_row_def)
  then have "keeps (rows_rel V (same_table tbl)) (reject_webhook E a b c)"
    unfolding reject_webhook_def by (intro keeps_intros preorder_same_table)
  from keepsD [OF this assms(3)] show ?thesis by (simp add: rows_rel_def same_table_def)
qed

text \<open>
  C35. The webhook trusts only Stripe: no table other than the audit log changes unless Stripe's library
  verified this payload with the presented signature under the configured secret.
\<close>

theorem webhook_requires_signature:
  assumes "ddb_ok E V" "handle_webhook E S payload sig w = (r, w')"
    and "tbl \<noteq> audit_table (audit_cfg E)" "rows V w' tbl \<noteq> rows V w tbl"
  shows "\<exists>h event. sig = Some h \<and> svc E (trace w) (StripeVerify payload h (bl_webhook_secret S)) = Inr (PDict event)"
proof (cases sig)
  case None
  with assms reject_keeps [OF assms(1,3)] show ?thesis by (simp add: handle_webhook_def)
next
  case (Some h)
  let ?call = "StripeVerify payload h (bl_webhook_secret S)"
  let ?w1 = "w\<lparr>trace := trace w @ [?call]\<rparr>"
  show ?thesis
  proof (cases "strip h = []")
    case True
    with Some assms reject_keeps [OF assms(1,3)] show ?thesis by (simp add: handle_webhook_def)
  next
    case False
    obtain q w2 where v0: "verify_webhook_signature E payload h (bl_webhook_secret S) w = (q, w2)" by fastforce
    then have w2: "w2 = ?w1" and ok: "q = Inr event \<Longrightarrow> svc E (trace w) ?call = Inr (PDict event)" for event
      by (auto simp: verify_webhook_signature_def tryE_def invoke_def raiseE_def retE_def
          split: option.splits sum.splits)
    note v = v0 [unfolded w2]
    show ?thesis
    proof (cases q)
      case (Inr event)
      with Some ok show ?thesis by blast
    next
      case (Inl e)
      have "rows V w' tbl = rows V ?w1 tbl"
      proof (cases "signature_reason e")
        case None
        with assms(2) Some False v Inl show ?thesis by (simp add: handle_webhook_def tryE_def raiseE_def)
      next
        case (Some m)
        with assms(2) \<open>sig = Some h\<close> False v Inl
        have "reject_webhook E ''invalid-signature'' m ''invalid Stripe webhook signature'' ?w1 = (r, w')"
          by (simp add: handle_webhook_def tryE_def)
        from reject_keeps [OF assms(1,3) this] show ?thesis .
      qed
      with assms(4) show ?thesis by simp
    qed
  qed
qed

section \<open>Properties: checkout, portal and plans\<close>

text \<open>
  The seat rules of a checkout: Stripe is asked for one seat of the pro price or for at least three
  seats of the team price, on behalf of the caller; with fewer seats there is no call at all.
\<close>

lemma checkout_quantities:
  assumes "create_checkout_session E S user req w = (r, w')" "StripeCheckout kw \<in> set (new_calls w w')"
  shows "dget kw ''client_reference_id'' = PStr (au_user_id user) \<and>
     (if cr_tier req = ''pro'' then dget kw ''quantity'' = PInt 1 \<and> dget kw ''price'' = PStr (bl_price_pro S)
      else \<exists>n. cr_seats req = Some n \<and> 3 \<le> n \<and> dget kw ''quantity'' = PInt n \<and> dget kw ''price'' = PStr (bl_price_team S))"
proof -
  define other :: "call \<Rightarrow> bool" where "other c \<longleftrightarrow> (\<forall>kw. c \<noteq> StripeCheckout kw)" for c
  have append: "keeps (only_calls other) (append_event E S u ty a)" for u ty a
    unfolding append_event_def fresh_ulid_def random80_def by (intro keeps_intros preorder_only_calls)
  have audit: "keeps (only_calls other) (record_event E a)" for a
    by (rule record_event_calls) (simp_all add: other_def)
  show ?thesis
  proof (cases "resolve_quantity (cr_tier req) (cr_seats req)")
    case (Inl e)
    with assms show ?thesis by (simp add: create_checkout_session_def bindE_def liftE_def new_calls_def)
  next
    case (Inr n)
    let ?kw = "[(''customer_email'', PStr (au_email user)), (''client_reference_id'', PStr (au_user_id user)),
         (''price'', PStr (resolve_price_for_tier (cr_tier req) S)), (''quantity'', PInt n),
         (''success_url'', PStr (bl_success_url S)), (''cancel_url'', PStr (bl_cancel_url S))]"
    let ?w1 = "w\<lparr>trace := trace w @ [StripeCheckout ?kw]\<rparr>"
    let ?rest = "\<lambda>session. bindE (liftE (get_attr session ''url'')) (\<lambda>u.
      (case nonempty_str u of
        None \<Rightarrow> raiseE (bad_gateway ''Stripe response missing checkout url'')
      | Some checkout_url \<Rightarrow>
          bindE (liftE (get_attr session ''id'')) (\<lambda>sid.
          let details = [(''tier'', PStr (cr_tier req)), (''seats'', PInt n), (''stripe_session_id'', sid)] in
          bindE (append_event E S (au_user_id user) ''checkout_started'' details) (\<lambda>event_id.
          bindE (record_event E (billing_audit (au_user_id user) ''user'' ''billing.checkout_started''
                   ''billing_event'' event_id details)) (\<lambda>_.
          retE checkout_url)))))"
    have rest: "keeps (only_calls other) (?rest session)" for session
      unfolding Let_def by (auto intro!: keeps_intros append audit split: option.split)
    have "only_calls other ?w1 w'"
    proof (cases "svc E (trace w) (StripeCheckout ?kw)")
      case (Inl e)
      with assms(1) Inr have "w' = ?w1" by (simp add: create_checkout_session_def bindE_def liftE_def invoke_def)
      then show ?thesis by (simp add: only_calls_def)
    next
      case (Inr session)
      with assms(1) \<open>resolve_quantity (cr_tier req) (cr_seats req) = Inr n\<close> have "?rest session ?w1 = (r, w')"
        by (simp add: create_checkout_session_def bindE_Inr liftE_def invoke_def)
      from keepsD [OF rest this] show ?thesis .
    qed
    with assms(2) have "kw = ?kw" by (auto simp: only_calls_def new_calls_def list_all_iff other_def)
    with Inr show ?thesis
      by (auto simp: dget_Cons resolve_quantity_def resolve_price_for_tier_def team_min_seats_def
          split: if_splits option.splits)
  qed
qed

text \<open>
  The host a browser goes to for an \<^verbatim>\<open>https\<close> address: as above, but a backslash ends the authority like a
  slash does (the URL standard's rule for special schemes).
\<close>

definition browser_host :: "string \<Rightarrow> string" where
  "browser_host url =
     takeWhile (\<lambda>c. c \<noteq> CHR '':'') (after_at (takeWhile (\<lambda>c. c \<notin> set ''/?#'' \<and> c \<noteq> CHR 0x5C) (drop 8 url)))"

definition plain_host_char :: "char \<Rightarrow> bool" where
  "plain_host_char c \<longleftrightarrow> is_ascii_letter c \<or> (let n = (of_char c :: nat) in 48 \<le> n \<and> n \<le> 57) \<or> c \<in> set ''-.''"

definition confused_url :: "string \<Rightarrow> string" where
  "confused_url host = ''https://'' @ host @ [CHR 0x5C] @ ''@panakoes.com/''"

lemma plain_host_chars:
  assumes "list_all plain_host_char host" "c \<in> set host"
  shows "c \<notin> set ''/?#:@[]%'' \<and> c \<noteq> CHR 0x5C \<and> (of_char c :: nat) \<notin> {9, 10, 13}"
proof -
  have "plain_host_char c" using assms by (simp add: list_all_iff)
  then show ?thesis by (auto simp: plain_host_char_def is_ascii_letter_def Let_def)
qed

lemma after_at_cut: "CHR ''@'' \<notin> set b \<Longrightarrow> after_at (a @ ''@'' @ b) = b"
  by (simp add: after_at_def takeWhile_append)

lemma after_at_none: "CHR ''@'' \<notin> set b \<Longrightarrow> after_at b = b"
proof -
  assume "CHR ''@'' \<notin> set b"
  then have "takeWhile (\<lambda>c. c \<noteq> CHR ''@'') (rev b) = rev b" by (auto simp: takeWhile_eq_all_conv)
  then show "after_at b = b" by (simp only: after_at_def rev_rev_ident)
qed

text \<open>
  The return-address check can be evaded: for every host name there is an address the check accepts,
  reading the host after the at sign, that a browser takes to that host, since it ends the authority at
  the backslash.
\<close>

lemma return_url_host_confusion:
  assumes "list_all plain_host_char host"
  shows "is_allowed_return_url (confused_url host) \<and> browser_host (confused_url host) = host"
proof
  let ?rest = "''//'' @ host @ [CHR 0x5C] @ ''@panakoes.com/''"
  note plain = plain_host_chars [OF assms]
  have "filter (\<lambda>c. (of_char c :: nat) \<notin> {9, 10, 13}) (confused_url host) = confused_url host"
    unfolding filter_id_conv confused_url_def using plain by auto
  then have clean: "clean_url (confused_url host) = confused_url host"
    by (simp add: clean_url_def confused_url_def is_c0_or_space_def)
  have "split_char (CHR '':'') (Suc 0) (''https'' @ CHR '':'' # ?rest) = [''https'', ?rest]"
    by (subst split_char_cut) simp_all
  then have scheme: "split_scheme (confused_url host) = (''https'', ?rest)"
    by (simp add: split_scheme_def confused_url_def scheme_char_def is_ascii_letter_def lower_def lower_char_def)
  let ?auth = "host @ [CHR 0x5C] @ ''@panakoes.com''"
  have "takeWhile (\<lambda>c. c \<notin> set ''/?#'') (?auth @ ''/'') = ?auth"
    by (subst takeWhile_append2) (use plain in auto)
  then have netloc: "netloc_of ?rest = ?auth" by (simp add: netloc_of_def)
  have "after_at ((host @ [CHR 0x5C]) @ ''@'' @ ''panakoes.com'') = ''panakoes.com''"
    by (rule after_at_cut) simp
  then have at: "after_at ?auth = ''panakoes.com''" by simp
  have "CHR ''['' \<notin> set ?auth \<and> CHR '']'' \<notin> set ?auth" using plain by auto
  then have "hostname_of ?auth = Some ''panakoes.com''"
    unfolding hostname_of_def at by (simp add: lower_def lower_char_def)
  then have host: "hostname_of (netloc_of ?rest) = Some ''panakoes.com''" by (simp only: netloc)
  show "is_allowed_return_url (confused_url host)"
    unfolding is_allowed_return_url_def clean scheme Let_def prod.case host option.case
    by (simp add: lower_def lower_char_def allowed_return_url_origins_def)
  have "takeWhile (\<lambda>c. c \<notin> set ''/?#'' \<and> c \<noteq> CHR 0x5C) (host @ CHR 0x5C # ''@panakoes.com/'') = host"
    by (subst takeWhile_append2) (use plain in auto)
  moreover have "after_at host = host" by (rule after_at_none) (use plain in auto)
  moreover have "takeWhile (\<lambda>c. c \<noteq> CHR '':'') host = host" using plain by (auto simp: takeWhile_eq_all_conv)
  ultimately show "browser_host (confused_url host) = host" by (simp add: browser_host_def confused_url_def)
qed

definition live_plan :: "item \<Rightarrow> string \<Rightarrow> bool" where
  "live_plan it p \<longleftrightarrow> p \<in> {''free'', ''pro'', ''team''} \<and> dget it ''plan'' = PStr p \<and>
     (\<exists>st \<in> set live_statuses. dget it ''status'' = PStr st)"

lemma better_plan_cases:
  assumes "better_plan best it = Inr p"
  shows "p = best \<and> (\<forall>q. live_plan it q \<longrightarrow> plan_rank q \<le> plan_rank best) \<or>
     live_plan it p \<and> plan_rank best < plan_rank p"
  using assms by (auto simp: better_plan_def live_plan_def split: if_splits option.splits)

lemma best_plan_cases:
  "best_plan best its = Inr p \<Longrightarrow>
     (p = best \<or> (\<exists>it \<in> set its. live_plan it p)) \<and> plan_rank best \<le> plan_rank p \<and>
     (\<forall>it \<in> set its. \<forall>q. live_plan it q \<longrightarrow> plan_rank q \<le> plan_rank p)"
proof (induction its arbitrary: best)
  case (Cons it its)
  then obtain b where b: "better_plan best it = Inr b" "best_plan b its = Inr p" by (auto simp: and_then_Inr_iff)
  have up: "plan_rank best \<le> plan_rank b" "\<And>q. live_plan it q \<Longrightarrow> plan_rank q \<le> plan_rank b"
    using better_plan_cases [OF b(1)] by (auto simp: live_plan_def dest: less_imp_le)
  have "b = best \<or> live_plan it b" using better_plan_cases [OF b(1)] by blast
  with Cons.IH [OF b(2)] up show ?case by (auto intro: order_trans)
qed simp

text \<open>
  The plan reader returns the best plan among the rows whose status counts: the answer is \<^verbatim>\<open>free\<close> or
  the plan of such a row, and no such row has a plan of higher rank.
\<close>

lemma get_plan_is_best:
  assumes "get_plan E S tenant w = (Inr p, w')"
  shows "\<exists>page w1. query_items E (bl_subs_table S)
        \<lparr>q_index = None, q_hash = (''tenant_id'', PStr tenant), q_prefix = None, q_limit = None,
         q_forward = True, q_start = None\<rparr> w = (Inr page, w1) \<and>
     (p = ''free'' \<or> (\<exists>it \<in> set (p_items page). live_plan it p)) \<and>
     (\<forall>it \<in> set (p_items page). \<forall>q. live_plan it q \<longrightarrow> plan_rank q \<le> plan_rank p)"
proof -
  from assms obtain page w1 where q: "query_items E (bl_subs_table S)
        \<lparr>q_index = None, q_hash = (''tenant_id'', PStr tenant), q_prefix = None, q_limit = None,
         q_forward = True, q_start = None\<rparr> w = (Inr page, w1)" "best_plan ''free'' (p_items page) = Inr p"
    by (auto simp: get_plan_def bindE_Inr_iff liftE_def)
  with best_plan_cases [OF q(2)] show ?thesis by blast
qed

text \<open>
  Pages as a reader meets them: every query but the last returns a key to go on from, and the
  queries run one after the other.
\<close>

fun reads_pages :: "'t env \<Rightarrow> billing_settings \<Rightarrow> string \<Rightarrow> item option \<Rightarrow> page list \<Rightarrow> 't world \<Rightarrow> bool" where
  "reads_pages E S uid start [] w = False"
| "reads_pages E S uid start (p # ps) w \<longleftrightarrow>
     (\<exists>w1. query_items E (bl_events_table S) (events_query uid start) w = (Inr p, w1) \<and>
        (if ps = [] then p_last p = None else \<exists>k. p_last p = Some k \<and> reads_pages E S uid (Some k) ps w1))"

lemma first_pick_append: "first_pick pick (xs @ ys) = (case first_pick pick xs of None \<Rightarrow> first_pick pick ys | Some y \<Rightarrow> Some y)"
  by (induction xs) (auto split: option.splits)

lemma walk_finds_first:
  assumes "reads_pages E S uid start ps w" "length ps \<le> fuel"
  shows "fst (walk_events E S uid pick fuel start w) = Inr (first_pick pick (map coerce_row (concat (map p_items ps))))"
  using assms
proof (induction ps arbitrary: start w fuel)
  case (Cons p ps)
  obtain w1 where q: "query_items E (bl_events_table S) (events_query uid start) w = (Inr p, w1)"
    and rest: "if ps = [] then p_last p = None else \<exists>k. p_last p = Some k \<and> reads_pages E S uid (Some k) ps w1"
    using Cons.prems(1) by auto
  obtain n where n: "fuel = Suc n" "length ps \<le> n" using Cons.prems(2) by (cases fuel) auto
  show ?case
  proof (cases "ps = []")
    case True
    with q rest n show ?thesis by (simp add: bindE_def retE_def split: option.split)
  next
    case False
    with rest obtain k where k: "p_last p = Some k" "reads_pages E S uid (Some k) ps w1" by auto
    from Cons.IH [OF k(2) n(2)] q k(1) n(1) show ?thesis
      by (simp add: bindE_def retE_def first_pick_append split: option.split)
  qed
qed simp

lemma first_pick_find: "first_pick (\<lambda>x. if P x then Some x else None) xs = find P xs"
  by (induction xs) auto

text \<open>
  C40. The walk over the log ends and finds the newest event: when the log has at most as many pages as
  the fuel, the reader returns, and what it returns is the first event of all pages, in the order of
  the query, whose type carries a subscription; nothing only when no page has one.
\<close>

theorem latest_subscription_found:
  assumes "reads_pages E S uid None ps w" "length ps \<le> bl_page_fuel S"
  shows "fst (latest_subscription_event E S uid w) =
    Inr (find (\<lambda>ev. dget ev ''event_type'' \<in> set (map PStr subscription_event_types))
           (map coerce_row (concat (map p_items ps))))"
proof -
  have bears: "subscription_bearing = (\<lambda>ev. if dget ev ''event_type'' \<in> set (map PStr subscription_event_types) then Some ev else None)"
    by (rule ext) (simp only: subscription_bearing_def)
  show ?thesis
    unfolding latest_subscription_event_def first_pick_find [symmetric] bears [symmetric]
    by (rule walk_finds_first [OF assms])
qed

section \<open>Witnesses\<close>

definition billing_demo_settings :: billing_settings where
  "billing_demo_settings = \<lparr>bl_price_pro = ''price_pro'', bl_price_team = ''price_team'', bl_success_url = ''s'',
     bl_cancel_url = ''c'', bl_webhook_secret = ''whsec'', bl_events_table = ''events'', bl_subs_table = ''subs'',
     bl_show = (\<lambda>_. []), bl_page_fuel = 5\<rparr>"

definition billing_demo_keys :: "string \<Rightarrow> string list" where
  "billing_demo_keys tbl = (if tbl = ''subs'' then [''tenant_id'', ''subscription_id''] else [''pk'', ''sk''])"

text \<open>A Stripe event that puts subscription \<^verbatim>\<open>sub_1\<close> of user \<^verbatim>\<open>u\<close> on the pro price.\<close>

definition billing_demo_object :: item where
  "billing_demo_object = [(''client_reference_id'', PStr ''u''), (''id'', PStr ''sub_1''), (''status'', PStr ''active''),
     (''items'', PDict [(''data'', PList [PDict [(''price'', PDict [(''id'', PStr ''price_pro'')])]])])]"

definition billing_demo_event :: item where
  "billing_demo_event = [(''type'', PStr ''customer.subscription.updated''), (''id'', PStr ''evt_1''),
     (''data'', PDict [(''object'', PDict billing_demo_object)])]"

definition billing_demo_env :: "mem env" where
  "billing_demo_env = mem_env billing_demo_keys (\<lambda>_ _. Inr (PDict billing_demo_event))"

text \<open>The same, with an event log that rejects every write.\<close>

definition billing_log_down :: "mem env" where
  "billing_log_down = billing_demo_env\<lparr>d_put := (\<lambda>tbl it c t.
     if tbl = ''events'' then (Inl (ClientError ''Throttled'' []), t) else d_put billing_demo_env tbl it c t)\<rparr>"

definition billing_demo_world :: "mem world" where
  "billing_demo_world = \<lparr>db = (\<lambda>_ _. None), trace = [], ticks = 0\<rparr>"

lemma billing_demo_ok: "billing_setting billing_demo_env mem_view billing_demo_settings"
  by (simp add: billing_setting_def billing_demo_env_def mem_env_ok billing_demo_settings_def billing_demo_keys_def)
    (simp add: mem_env_def)

lemma billing_log_down_ok: "billing_setting billing_log_down mem_view billing_demo_settings"
proof -
  have "reads_ok billing_log_down mem_view"
    using mem_env_reads [of billing_demo_keys "\<lambda>_ _. Inr (PDict billing_demo_event)"]
    unfolding reads_ok_def billing_log_down_def billing_demo_env_def by simp
  moreover have "writes_ok billing_log_down mem_view"
    using mem_env_writes [of billing_demo_keys "\<lambda>_ _. Inr (PDict billing_demo_event)"]
    unfolding writes_ok_def billing_log_down_def billing_demo_env_def key_of_def
    by (simp add: write_outcome_def ccf_code_def Let_def)
  ultimately show ?thesis
    by (simp add: billing_setting_def ddb_ok_def billing_log_down_def billing_demo_env_def billing_demo_settings_def
        billing_demo_keys_def) (simp add: mem_env_def)
qed

lemma billing_demo_sub_event:
  "sub_event billing_demo_event ''customer.subscription.updated'' ''evt_1'' ''u'' ''sub_1''"
  by (simp add: sub_event_def billing_demo_event_def billing_demo_object_def dget_Cons subscription_state_events_def
      user_id_from_event_def event_object_of_def subscription_of_def py_or_def)

lemma strip_nonempty: "\<not> is_space c \<Longrightarrow> strip (c # s) \<noteq> []"
  by (auto simp: strip_def rstrip_def lstrip_def dropWhile_eq_Nil_conv)

lemma b32_chars_in: "set (b32_chars v n) \<subseteq> set crockford"
  by (induction v n rule: b32_chars.induct) auto

lemma crockford_not_space: "list_all (\<lambda>c. \<not> is_space c) crockford"
  by code_simp

lemma ulid_strip: "strip (new_ulid t n) \<noteq> []"
proof -
  have chars: "set (new_ulid t n) \<subseteq> set crockford"
    using b32_chars_in by (auto simp: new_ulid_def encode_b32_def)
  have "length (new_ulid t n) = 26" by (simp add: new_ulid_def)
  then obtain c s where s: "new_ulid t n = c # s" by (cases "new_ulid t n") simp_all
  with chars crockford_not_space have "\<not> is_space c" by (auto simp: list_all_iff)
  with s show ?thesis by (simp add: strip_nonempty)
qed

lemma billing_demo_clock: "clock billing_demo_env n = 0"
  "audit_cfg billing_demo_env = \<lparr>audit_backend = ''stdout'', audit_table = ''panakoes-audit-log''\<rparr>"
  by (simp_all add: billing_demo_env_def mem_env_def)

lemma billing_demo_put: "\<exists>w'. put_item billing_demo_env tbl it CTrue w = (Inr (), w')" 
  by (simp add: put_item_def on_db_def billing_demo_env_def mem_env_def Let_def)

lemma billing_demo_append:
  "\<exists>n w'. append_event billing_demo_env billing_demo_settings ''u'' internal a w = (Inr (new_ulid 0 n), w')"
proof -
    let ?n = "entropy billing_demo_env (Suc (ticks w)) mod 2 ^ 80"
    have "\<exists>w'. put_item billing_demo_env (bl_events_table billing_demo_settings)
        (event_item (new_ulid 0 n) ''u'' internal 0 a) CTrue w'' = (Inr (), w')" for n w''
      using billing_demo_put by blast
    then obtain w1 where "put_item billing_demo_env (bl_events_table billing_demo_settings)
        (event_item (new_ulid 0 ?n) ''u'' internal 0 a) CTrue (w\<lparr>ticks := Suc (Suc (Suc (ticks w)))\<rparr>) = (Inr (), w1)"
      by blast
    then have "append_event billing_demo_env billing_demo_settings ''u'' internal a w = (Inr (new_ulid 0 ?n), w1)"
      by (simp add: append_event_def fresh_ulid_def random80_def bindE_def utcnow_def tick_def retE_def billing_demo_clock del: power_numeral)
    then show ?thesis by blast
qed

lemma billing_demo_record:
  assumes "strip eid \<noteq> []"
  shows "\<exists>ev w2. record_event billing_demo_env (billing_audit ''u'' ''user'' ''billing.subscription_changed'' ''billing_event''
      eid details) w = (Inr ev, w2)"
proof -
  have st: "strip ''u'' \<noteq> []" "strip ''billing_event'' \<noteq> []" "strip ''billing'' \<noteq> []"
    by (rule strip_nonempty, simp add: is_space_def)+
  have act_ok: "action_re (strip ''billing.subscription_changed'')" by code_simp
  have "\<exists>ev. make_audit_event 0 0 rid (billing_audit ''u'' ''user'' ''billing.subscription_changed'' ''billing_event''
      eid details) = Inr ev" for rid
    using st act_ok assms by (simp add: make_audit_event_def billing_audit_def actor_types_def)
  then obtain ev where "make_audit_event 0 0 (gen_id billing_demo_env (Suc (ticks w)))
        (billing_audit ''u'' ''user'' ''billing.subscription_changed'' ''billing_event'' eid details) = Inr ev"
      by blast
  then show ?thesis
      by (simp add: record_event_eq bindE_def utcnow_def new_id_def tick_def liftE_def billing_demo_clock
          select_store_from_env_def note_call_def retE_def)
qed

lemma billing_demo_log:
  "\<exists>w'. log_webhook_event billing_demo_env billing_demo_settings billing_demo_event ''customer.subscription.updated''
     internal ''u'' a w = (Inr [(''status'', PStr ''ok'')], w')"
proof -
  have act: "map_of webhook_audit_action_map ''customer.subscription.updated'' = Some ''billing.subscription_changed''"
    by (simp add: webhook_audit_action_map_def)
  obtain n w1 where app: "append_event billing_demo_env billing_demo_settings ''u'' internal a w = (Inr (new_ulid 0 n), w1)"
    using billing_demo_append by blast
  obtain ev w2 where rec: "record_event billing_demo_env (billing_audit ''u'' ''user'' ''billing.subscription_changed''
      ''billing_event'' (new_ulid 0 n) [(''stripe_event_type'', PStr ''customer.subscription.updated''),
        (''stripe_event_id'', dget billing_demo_event ''id''), (''internal_event_type'', PStr internal)]) w1 = (Inr ev, w2)"
    using billing_demo_record [OF ulid_strip] by blast
  from app rec show ?thesis by (simp add: log_webhook_event_def bindE_def act retE_def)
qed


definition billing_demo_attributes :: item where
  "billing_demo_attributes = [(''stripe_event_type'', PStr ''customer.subscription.updated''),
     (''stripe_subscription_id'', PStr ''sub_1''), (''status'', PStr ''active''), (''stripe_price_id'', PStr ''price_pro'')]"

lemma billing_demo_extract:
  "extract_subscription_attributes ''customer.subscription.updated'' billing_demo_object = Inr billing_demo_attributes"
  by (simp add: extract_subscription_attributes_def billing_demo_object_def billing_demo_attributes_def dget_Cons
      set_opt_def py_or_def price_of_event_def first_line_item_def Let_def dset_def)

definition billing_demo_state :: subscription_state where
  "billing_demo_state = \<lparr>sub_tenant_id = ''u'', sub_subscription_id = ''sub_1'', sub_event_id = ''evt_1'',
     sub_plan = ''pro'', sub_status = ''active'', sub_period_end = None, sub_cancel_at = None, sub_quantity = 1,
     sub_customer_id = None\<rparr>"

lemma billing_demo_tier: "with_tier billing_demo_settings billing_demo_attributes = billing_demo_attributes @ [(''tier'', PStr ''pro'')]"
  by (simp add: with_tier_def billing_demo_settings_def billing_demo_attributes_def dget_Cons dset_def)

lemma billing_demo_projected:
  "state_of_event E billing_demo_settings ''customer.subscription.updated'' ''evt_1'' ''u'' ''sub_1'' billing_demo_object
     (billing_demo_attributes @ [(''tier'', PStr ''pro'')]) = Inr billing_demo_state"
  by (simp add: state_of_event_def billing_demo_object_def billing_demo_attributes_def dget_Cons billing_demo_state_def
      cancel_time_def plan_from_attributes_def status_of_event_def event_quantity_def positive_int_def first_line_item_def Let_def py_or_def)


definition billing_demo_row :: item where
  "billing_demo_row = ddb_item (subscription_item billing_demo_state 0)"

text \<open>The row is written by both environments, on a table state without it.\<close>

definition billing_demo_after :: "mem world \<Rightarrow> mem world" where
  "billing_demo_after w = w\<lparr>db := store_row (\<lambda>_ _. None) ''subs'' (subscription_key ''u'' ''sub_1'') billing_demo_row,
        ticks := Suc (ticks w)\<rparr>"

lemma subscription_key_stored: "ddb_item (subscription_key t s) = subscription_key t s"
  by (simp add: subscription_key_def ddb_item_def)

lemma billing_demo_upsert:
  assumes "\<And>n. clock E n = 0" "d_put E ''subs'' = d_put billing_demo_env ''subs''" "db w = (\<lambda>_ _. None)"
  shows "upsert E billing_demo_settings billing_demo_state w = (Inr True, billing_demo_after w)"
proof -
  have key: "map (\<lambda>a. (a, dget (subscription_item billing_demo_state 0) a)) (billing_demo_keys ''subs'') =
      subscription_key ''u'' ''sub_1''"
    by (simp add: billing_demo_keys_def subscription_item_def subscription_key_def dget_Cons billing_demo_state_def)
  have table: "bl_subs_table billing_demo_settings = ''subs''" by (simp add: billing_demo_settings_def)
  show ?thesis
    by (simp add: upsert_def bindE_def utcnow_def tick_def assms(1) tryE_def put_item_def on_db_def table assms(2)
        assms(3) retE_def billing_demo_after_def)
      (simp add: billing_demo_env_def mem_env_def key subscription_key_stored billing_demo_row_def last_event_def retE_def del: map_eq_conv list.map)
qed

lemma billing_demo_event_fields:
  "dget billing_demo_event ''type'' = PStr ''customer.subscription.updated''" "dget billing_demo_event ''id'' = PStr ''evt_1''"
  "event_object_of billing_demo_event = billing_demo_object" "user_id_from_event billing_demo_object = Some ''u''"
  "nonempty_str (dget (billing_demo_attributes @ [(''tier'', PStr ''pro'')]) ''stripe_subscription_id'') = Some ''sub_1''"
  by (simp_all add: billing_demo_event_def dget_Cons event_object_of_def billing_demo_object_def user_id_from_event_def
      billing_demo_attributes_def)

lemma billing_demo_mapped:
  "\<exists>internal. map_of webhook_event_type_map ''customer.subscription.updated'' = Some internal"
  "''customer.subscription.updated'' \<in> set subscription_state_events"
  by (simp_all add: webhook_event_type_map_def subscription_state_events_def)

lemma billing_demo_dispatch:
  assumes "\<And>n. clock E n = 0" "d_put E ''subs'' = d_put billing_demo_env ''subs''" "db w = (\<lambda>_ _. None)"
  shows "\<exists>internal. dispatch_webhook_event E billing_demo_settings billing_demo_event w =
     log_webhook_event E billing_demo_settings billing_demo_event ''customer.subscription.updated'' internal ''u''
       (billing_demo_attributes @ [(''tier'', PStr ''pro'')]) (billing_demo_after w)"
proof -
  obtain internal where m: "map_of webhook_event_type_map ''customer.subscription.updated'' = Some internal"
    using billing_demo_mapped by blast
  have "apply_subscription_state E billing_demo_settings ''customer.subscription.updated'' ''evt_1'' ''u'' billing_demo_object
      (billing_demo_attributes @ [(''tier'', PStr ''pro'')]) = upsert E billing_demo_settings billing_demo_state"
    by (rule ext) (simp add: apply_subscription_state_def billing_demo_event_fields billing_demo_projected liftE_def bindE_def)
  with m show ?thesis
    by (intro exI [of _ internal]) (simp add: dispatch_webhook_event_def process_webhook_event_def
        billing_demo_event_fields billing_demo_mapped billing_demo_extract billing_demo_tier liftE_def bindE_def
        billing_demo_upsert [OF assms])
qed

lemma billing_demo_run:
  assumes "db w = (\<lambda>_ _. None)"
  shows "\<exists>w1. dispatch_webhook_event billing_demo_env billing_demo_settings billing_demo_event w =
     (Inr [(''status'', PStr ''ok'')], w1)"
  using billing_demo_dispatch [OF billing_demo_clock(1) refl assms] billing_demo_log by metis

lemma billing_demo_empty [simp]: "db billing_demo_world = (\<lambda>_ _. None)"
  by (simp add: billing_demo_world_def)

text \<open>With the log down, the row is written and the append raises.\<close>

lemma billing_log_down_run:
  "dispatch_webhook_event billing_log_down billing_demo_settings billing_demo_event billing_demo_world =
     (Inl (ClientError ''Throttled'' []),
      \<lparr>db = store_row (\<lambda>_ _. None) ''subs'' (subscription_key ''u'' ''sub_1'') billing_demo_row,
        trace = [], ticks = 4\<rparr>)"
proof -
  have clk: "clock billing_log_down n = 0" for n by (simp add: billing_log_down_def billing_demo_clock)
  have p: "d_put billing_log_down ''subs'' = d_put billing_demo_env ''subs''" by (simp add: billing_log_down_def)
  have put: "put_item billing_log_down ''events'' it CTrue w = (Inl (ClientError ''Throttled'' []), w)" for it and w :: "mem world"
    by (simp add: put_item_def on_db_def billing_log_down_def)
  have table: "bl_events_table billing_demo_settings = ''events''" by (simp add: billing_demo_settings_def)
  show ?thesis
    using billing_demo_dispatch [OF clk p billing_demo_empty]
    by (auto simp: log_webhook_event_def append_event_def fresh_ulid_def random80_def utcnow_def tick_def bindE_def
        retE_def clk put table billing_demo_after_def billing_demo_world_def simp del: power_numeral)
qed

theorem webhook_replay_is_noop_witness:
  "\<exists>w1 r w3. dispatch_webhook_event billing_demo_env billing_demo_settings billing_demo_event billing_demo_world =
       (Inr [(''status'', PStr ''ok'')], w1) \<and>
     dispatch_webhook_event billing_demo_env billing_demo_settings billing_demo_event w1 = (r, w3) \<and>
     rows mem_view w3 = rows mem_view w1 \<and> trace w3 = trace w1"
proof -
  obtain w1 where run: "dispatch_webhook_event billing_demo_env billing_demo_settings billing_demo_event billing_demo_world =
       (Inr [(''status'', PStr ''ok'')], w1)"
    using billing_demo_run [OF billing_demo_empty] by blast
  obtain r w3 where again: "dispatch_webhook_event billing_demo_env billing_demo_settings billing_demo_event w1 = (r, w3)"
    by fastforce
  from webhook_replay_is_noop [OF billing_demo_ok billing_demo_sub_event run refl again] run again show ?thesis by blast
qed

theorem subscription_projection_witness:
  "\<exists>w' new. dispatch_webhook_event billing_demo_env billing_demo_settings billing_demo_event billing_demo_world =
       (Inr [(''status'', PStr ''ok'')], w') \<and>
     sub_row mem_view billing_demo_settings w' ''u'' ''sub_1'' = Some new \<and> map_of new ''plan'' = Some (PStr ''pro'')"
proof -
  obtain w1 where run: "dispatch_webhook_event billing_demo_env billing_demo_settings billing_demo_event billing_demo_world =
       (Inr [(''status'', PStr ''ok'')], w1)"
    using billing_demo_run [OF billing_demo_empty] by blast
  have plan: "plan_of_price billing_demo_settings (price_of_event (event_object_of billing_demo_event)) = ''pro''"
    by (simp add: billing_demo_event_fields plan_of_price_def billing_demo_settings_def price_of_event_def
        billing_demo_object_def first_line_item_def dget_Cons)
  from subscription_projection [OF billing_demo_ok billing_demo_sub_event run] run plan show ?thesis by auto
qed


lemma billing_demo_upsert_fresh:
  assumes "last_event (sub_row mem_view billing_demo_settings w (sub_tenant_id s) (sub_subscription_id s)) \<noteq> Some (PStr (sub_event_id s))"
  shows "\<exists>w'. upsert billing_demo_env billing_demo_settings s w = (Inr True, w')"
proof -
  have key: "map (\<lambda>a. (a, dget (subscription_item s now) a)) (billing_demo_keys (bl_subs_table billing_demo_settings)) =
      subscription_key (sub_tenant_id s) (sub_subscription_id s)" for now
    by (simp add: billing_demo_keys_def subscription_item_def subscription_key_def dget_Cons billing_demo_settings_def)
  show ?thesis
    using assms
    by (simp add: upsert_def bindE_def utcnow_def tick_def tryE_def put_item_def on_db_def billing_demo_clock)
      (simp add: billing_demo_env_def mem_env_def key subscription_key_stored Let_def sub_row_def mem_view_def retE_def del: map_eq_conv list.map)
qed

theorem webhook_requires_signature_witness:
  "\<exists>r w' event. handle_webhook billing_demo_env billing_demo_settings ''p'' (Some ''sig'') billing_demo_world = (r, w') \<and>
     rows mem_view w' ''subs'' \<noteq> rows mem_view billing_demo_world ''subs'' \<and>
     svc billing_demo_env [] (StripeVerify ''p'' ''sig'' ''whsec'') = Inr (PDict event)"
proof -
  let ?w = "billing_demo_world\<lparr>trace := [StripeVerify ''p'' ''sig'' ''whsec'']\<rparr>"
  obtain w' where run: "dispatch_webhook_event billing_demo_env billing_demo_settings billing_demo_event ?w =
      (Inr [(''status'', PStr ''ok'')], w')"
    using billing_demo_run [of ?w] by auto
  have "strip ''sig'' \<noteq> []" by (rule strip_nonempty) (simp add: is_space_def)
  moreover have "svc billing_demo_env t c = Inr (PDict billing_demo_event)" for t c
    by (simp add: billing_demo_env_def mem_env_def)
  moreover have "bl_webhook_secret billing_demo_settings = ''whsec''" by (simp add: billing_demo_settings_def)
  ultimately have h: "handle_webhook billing_demo_env billing_demo_settings ''p'' (Some ''sig'') billing_demo_world =
      (Inr [(''status'', PStr ''ok'')], w')"
    using run by (simp add: handle_webhook_def verify_webhook_signature_def tryE_def invoke_def retE_def billing_demo_world_def)
  have "last_event (sub_row mem_view billing_demo_settings w' ''u'' ''sub_1'') = Some (PStr ''evt_1'')"
    by (rule applied_event_marks_row [OF billing_demo_ok billing_demo_sub_event run])
  then have "rows mem_view w' ''subs'' \<noteq> rows mem_view billing_demo_world ''subs''"
    by (auto simp: sub_row_def billing_demo_settings_def last_event_def mem_view_def)
  moreover have "''subs'' \<noteq> audit_table (audit_cfg billing_demo_env)" by (simp add: billing_demo_clock)
  moreover have "ddb_ok billing_demo_env mem_view" using billing_demo_ok by (simp add: billing_setting_def)
  ultimately show ?thesis
    using webhook_requires_signature [OF _ h] h
    by (auto simp: billing_demo_world_def billing_demo_settings_def)
qed

definition billing_demo_user :: authenticated_user where
  "billing_demo_user = \<lparr>au_user_id = ''u'', au_email = ''u@example.com'', au_session_id = ''s''\<rparr>"

definition log_page :: "string \<Rightarrow> item option \<Rightarrow> page" where
  "log_page ty next_key = \<lparr>p_items = [[(''event_type'', PStr ty)]], p_last = next_key\<rparr>"

definition log_env :: "mem env" where
  "log_env = (mem_env (\<lambda>_. [''pk'', ''sk'']) (\<lambda>_ _. Inr PNone))
     \<lparr>d_query := (\<lambda>tbl q t. (Inr (if q_start q = None then log_page ''customer_created'' (Some [(''sk'', PStr ''k'')])
                                else log_page ''subscription_updated'' None), t))\<rparr>"

lemma log_reads: "reads_pages log_env billing_demo_settings ''u'' None
    [log_page ''customer_created'' (Some [(''sk'', PStr ''k'')]), log_page ''subscription_updated'' None] billing_demo_world"
  by (simp add: query_items_def on_db_def log_env_def events_query_def) (simp add: log_page_def)

theorem latest_subscription_found_witness:
  "fst (latest_subscription_event log_env billing_demo_settings ''u'' billing_demo_world) =
     Inr (Some [(''event_type'', PStr ''subscription_updated'')])"
  by (subst latest_subscription_found [OF log_reads])
    (simp_all add: billing_demo_settings_def log_page_def coerce_row_def dget_Cons subscription_event_types_def)

end
