(* ===== verification/Ws_Authorizer.thy ===== *)
theory Ws_Authorizer
  imports Auth
begin

text \<open>
  The Lambda authorizer of the WebSocket API (\<^verbatim>\<open>ws-authorizer/.../authorizer.py\<close>) and the construction
  of its validator from the environment (\<^verbatim>\<open>auth-client/.../config.py\<close>): where the token is read, which
  policy is returned, and what the gateway hands to the router. The token library is the parameter
  \<open>jwt_lib\<close> of theory Auth, the fetcher and the clock of the key cache are those of \<open>jwks_cfg\<close>. The
  lemmas show that an \<^verbatim>\<open>Allow\<close> always rests on a verified token and carries its subject, and which
  source of a token is read.
\<close>

section \<open>The validator from the environment\<close>

text \<open>The two classes a validator can be of, with what their constructors keep.\<close>

datatype validator = JwtValidator jwt_settings | JwksJwtValidator jwks_cfg jwt_settings

text \<open>\<^verbatim>\<open>os.environ.get(name, '')\<close>: the values and the names that are missing or empty.\<close>

definition env_get :: "(string \<Rightarrow> string option) \<Rightarrow> string \<Rightarrow> string" where
  "env_get env name = (case env name of None \<Rightarrow> [] | Some v \<Rightarrow> v)"

fun read_required_env :: "(string \<Rightarrow> string option) \<Rightarrow> string list \<Rightarrow> (string \<times> string) list \<times> string list" where
  "read_required_env env [] = ([], [])"
| "read_required_env env (name # names) =
     (let raw = env_get env name; (vals, missing) = read_required_env env names
      in if raw = [] then (vals, name # missing) else ((name, raw) # vals, missing))"

definition missing_env :: "string list \<Rightarrow> exn" where
  "missing_env missing = JwtConfigError (''missing required environment variables: '' @ join_with '', '' missing)"

definition required_value :: "(string \<times> string) list \<Rightarrow> string \<Rightarrow> string" where
  "required_value vals name = (case map_of vals name of None \<Rightarrow> [] | Some v \<Rightarrow> v)"

definition from_env_hs256 :: "(string \<Rightarrow> string option) \<Rightarrow> exn + validator" where
  "from_env_hs256 env =
     (let (vals, missing) = read_required_env env [''JWT_SECRET'', ''JWT_ISSUER'', ''JWT_AUDIENCE'']
      in if missing \<noteq> [] then Inl (missing_env missing)
         else Inr (JwtValidator \<lparr>jwt_secret = required_value vals ''JWT_SECRET'',
                jwt_issuer = required_value vals ''JWT_ISSUER'', jwt_audience = required_value vals ''JWT_AUDIENCE''\<rparr>))"

text \<open>\<open>fetch_url\<close> and \<open>now\<close> are the default fetcher, per address, and the monotonic clock.\<close>

definition default_jwks_cache_ttl_seconds :: int where
  "default_jwks_cache_ttl_seconds = 600"

definition from_jwks_url :: "(string \<Rightarrow> nat \<Rightarrow> exn + item) \<Rightarrow> (nat \<Rightarrow> rat) \<Rightarrow> string \<Rightarrow> string \<Rightarrow> string \<Rightarrow> validator" where
  "from_jwks_url fetch_url now url issuer audience =
     JwksJwtValidator
       \<lparr>jc_url = url, jc_ttl = default_jwks_cache_ttl_seconds, jc_fetcher = fetch_url url, jc_now = now\<rparr>
       \<lparr>jwt_secret = [], jwt_issuer = issuer, jwt_audience = audience\<rparr>"

definition from_env_jwks :: "(string \<Rightarrow> nat \<Rightarrow> exn + item) \<Rightarrow> (nat \<Rightarrow> rat) \<Rightarrow> (string \<Rightarrow> string option) \<Rightarrow> string \<Rightarrow>
    exn + validator" where
  "from_env_jwks fetch_url now env jwks_url =
     (let (vals, missing) = read_required_env env [''JWT_PUBLIC_JWKS_URL'', ''JWT_ISSUER'', ''JWT_AUDIENCE'']
      in if missing \<noteq> [] then Inl (missing_env missing)
         else Inr (from_jwks_url fetch_url now jwks_url
                (required_value vals ''JWT_ISSUER'') (required_value vals ''JWT_AUDIENCE'')))"

definition validator_from_env :: "(string \<Rightarrow> nat \<Rightarrow> exn + item) \<Rightarrow> (nat \<Rightarrow> rat) \<Rightarrow> (string \<Rightarrow> string option) \<Rightarrow>
    exn + validator" where
  "validator_from_env fetch_url now env =
     (let jwks_url = env_get env ''JWT_PUBLIC_JWKS_URL''
      in if jwks_url \<noteq> [] then from_env_jwks fetch_url now env jwks_url else from_env_hs256 env)"

section \<open>The state of the Lambda\<close>

text \<open>The module's validator, once it has been built, and the key cache inside a JWKS validator.\<close>

record authz_state =
  ax_validator :: "validator option"
  ax_jwks :: jwks_state

text \<open>What the deployment fixes: the token library, the environment and the rendering of values.\<close>

record authz_cfg =
  ax_lib :: jwt_lib
  ax_fetch :: "string \<Rightarrow> nat \<Rightarrow> exn + item"
  ax_now :: "nat \<Rightarrow> rat"
  ax_env :: "string \<Rightarrow> string option"
  ax_show :: "pyval \<Rightarrow> string"

definition get_validator :: "authz_cfg \<Rightarrow> (authz_state, validator) io" where
  "get_validator C s =
     (case ax_validator s of
        Some v \<Rightarrow> (Inr v, s)
      | None \<Rightarrow>
          (case validator_from_env (ax_fetch C) (ax_now C) (ax_env C) of
             Inl e \<Rightarrow> (Inl e, s)
           | Inr v \<Rightarrow> (Inr v, s\<lparr>ax_validator := Some v\<rparr>)))"

fun validate_with :: "authz_cfg \<Rightarrow> validator \<Rightarrow> string \<Rightarrow> (authz_state, jwt_claims) io" where
  "validate_with C (JwtValidator S) token = liftE (validate (ax_lib C) S token)"
| "validate_with C (JwksJwtValidator J S) token =
     (\<lambda>s. let (r, j) = jwks_validate (ax_lib C) J S token (ax_jwks s) in (r, s\<lparr>ax_jwks := j\<rparr>))"

section \<open>The handler\<close>

text \<open>\<^verbatim>\<open>event.get(k) or {}\<close>, an attribute of it, and the token.\<close>

definition event_dict :: "item \<Rightarrow> string \<Rightarrow> pyval" where
  "event_dict event k = py_or (dget event k) (PDict [])"

definition bearer_prefix :: string where
  "bearer_prefix = ''Bearer ''"

definition query_token :: "item \<Rightarrow> exn + string option" where
  "query_token event =
     and_then (get_attr (event_dict event ''queryStringParameters'') ''token'') (\<lambda>t. Inr (nonempty_str t))"

definition auth_value :: "item \<Rightarrow> exn + pyval" where
  "auth_value event =
     and_then (get_attr (event_dict event ''headers'') ''Authorization'') (\<lambda>a.
     if truthy a then Inr a else get_attr (event_dict event ''headers'') ''authorization'')"

definition extract_token :: "item \<Rightarrow> exn + string option" where
  "extract_token event =
     and_then (auth_value event) (\<lambda>v.
     (case as_str v of
        Some h \<Rightarrow> Inr (if starts_with h bearer_prefix then Some (strip (drop (length bearer_prefix) h)) else None)
      | None \<Rightarrow> query_token event))"

definition build_response :: "bool \<Rightarrow> item \<Rightarrow> string \<Rightarrow> string \<Rightarrow> item" where
  "build_response authorized context method_arn principal_id =
     [(''principalId'', PStr principal_id),
      (''policyDocument'', PDict
         [(''Version'', PStr ''2012-10-17''),
          (''Statement'', PList [PDict
             [(''Action'', PStr ''execute-api:Invoke''),
              (''Effect'', PStr (if authorized then ''Allow'' else ''Deny'')),
              (''Resource'', PStr method_arn)]])])] @
     (if authorized then [(''context'', PDict context)] else [])"

definition build_context :: "jwt_lib \<Rightarrow> string \<Rightarrow> string \<Rightarrow> string option \<Rightarrow> item" where
  "build_context L token validated_sub validated_role =
     (let context = [(''user_id'', PStr validated_sub)] @
            (case validated_role of None \<Rightarrow> [] | Some r \<Rightarrow> if r = [] then [] else [(''role'', PStr r)])
      in case unverified_payload L token of
           None \<Rightarrow> context
         | Some unverified \<Rightarrow>
             (case nonempty_str (dget unverified ''tenant_id'') of
                None \<Rightarrow> context
              | Some tenant_id \<Rightarrow> dset ''tenant_id'' (PStr tenant_id) context))"

fun is_jwt_config :: "exn \<Rightarrow> bool" where
  "is_jwt_config (JwtConfigError _) = True"
| "is_jwt_config _ = False"

definition method_arn_of :: "authz_cfg \<Rightarrow> item \<Rightarrow> string" where
  "method_arn_of C event =
     (let v = dget_or event ''methodArn'' (PStr ''*'') in case as_str v of Some s \<Rightarrow> s | None \<Rightarrow> ax_show C v)"

definition deny :: "string \<Rightarrow> item" where
  "deny method_arn = build_response False [] method_arn ''anonymous''"

definition authorize_token :: "authz_cfg \<Rightarrow> string \<Rightarrow> string \<Rightarrow> (authz_state, item) io" where
  "authorize_token C method_arn token =
     tryE (get_validator C)
       (\<lambda>e. if is_jwt_config e then retE (deny method_arn) else raiseE e)
       (\<lambda>validator.
          tryE (validate_with C validator token)
            (\<lambda>e. if is_jwt_invalid e then retE (deny method_arn) else raiseE e)
            (\<lambda>claims. retE (build_response True (build_context (ax_lib C) token (cl_sub claims) (cl_role claims))
                              method_arn (cl_sub claims))))"

definition authorizer_handler :: "authz_cfg \<Rightarrow> item \<Rightarrow> (authz_state, item) io" where
  "authorizer_handler C event =
     bindE (liftE (extract_token event)) (\<lambda>token.
     (case token of
        None \<Rightarrow> retE (deny (method_arn_of C event))
      | Some t \<Rightarrow> authorize_token C (method_arn_of C event) t))"

section \<open>Reading a policy\<close>

definition policy_effect :: "item \<Rightarrow> string option" where
  "policy_effect response =
     Option.bind (as_dict (dget response ''policyDocument'')) (\<lambda>doc.
     Option.bind (as_list (dget doc ''Statement'')) (\<lambda>sts.
     case sts of [PDict st] \<Rightarrow> as_str (dget st ''Effect'') | _ \<Rightarrow> None))"

lemma policy_effect_build [simp]:
  "policy_effect (build_response a ctx arn p) = Some (if a then ''Allow'' else ''Deny'')"
  by (simp add: policy_effect_def build_response_def dget_Cons)

lemma context_build [simp]: "dget (build_response True ctx arn p) ''context'' = PDict ctx"
  by (simp add: build_response_def dget_Cons)

lemma principal_build [simp]: "dget (build_response a ctx arn p) ''principalId'' = PStr p"
  by (simp add: build_response_def dget_Cons)

text \<open>
  What an accepted token means for either kind of validator: under HS256 it decodes with the configured
  secret; under RS256 with the key that the validator's key cache, as it was \<open>before\<close> and is \<open>after\<close> the
  validation, files under the token's \<^verbatim>\<open>kid\<close>: a key of the set in the cache that has not expired, or of
  the document fetched from the endpoint last. A cache that was filled from the endpoint (one that is
  empty is) stays so, and the key is one that the endpoint published.
\<close>

fun verified_by :: "jwt_lib \<Rightarrow> validator \<Rightarrow> jwks_state \<Rightarrow> jwks_state \<Rightarrow> string \<Rightarrow> jwt_claims \<Rightarrow> bool" where
  "verified_by L (JwtValidator S) before after token c \<longleftrightarrow> (\<exists>payload.
     decode L (jwt_secret S) [''HS256''] (jwt_issuer S) (jwt_audience S) token = Inr payload \<and> claims_of L payload = Some c)"
| "verified_by L (JwksJwtValidator J S) before after token c \<longleftrightarrow> (\<exists>header kid jwk key payload.
     unverified_header L token = Inr header \<and> dget header ''kid'' = PStr kid \<and> key_from_cache J before after kid jwk \<and>
     (cache_published J before \<longrightarrow> cache_published J after \<and> published_key J jwk) \<and>
     key_from_jwk L jwk = Inr key \<and>
     decode L key [''RS256''] (jwt_issuer S) (jwt_audience S) token = Inr payload \<and> claims_of L payload = Some c)"


section \<open>Lemmas\<close>

lemma validate_verified: "validate L S token = Inr c \<Longrightarrow> verified_by L (JwtValidator S) before after token c"
  using validate_Inr [of L S token c] by simp

lemma verified_sub: "verified_by L v before after token c \<Longrightarrow> cl_sub c \<noteq> []"
  by (cases v) (auto dest: claims_of_sub)

lemma validate_with_cases:
  assumes "validate_with C v token s = (r, s')"
  shows "ax_validator s' = ax_validator s"
    and "jwks_wf (ax_jwks s) \<Longrightarrow> r = Inr c \<Longrightarrow> verified_by (ax_lib C) v (ax_jwks s) (ax_jwks s') token c"
proof -
  show "ax_validator s' = ax_validator s"
    using assms by (cases v) (auto simp: liftE_def Let_def split: prod.splits)
  show "verified_by (ax_lib C) v (ax_jwks s) (ax_jwks s') token c" if "jwks_wf (ax_jwks s)" "r = Inr c"
  proof (cases v)
    case (JwtValidator S)
    with assms that have "validate (ax_lib C) S token = Inr c" by (simp add: liftE_def)
    with JwtValidator validate_verified show ?thesis by blast
  next
    case (JwksJwtValidator J S)
    with assms that have run: "jwks_validate (ax_lib C) J S token (ax_jwks s) = (Inr c, ax_jwks s')"
      by (auto simp: Let_def split: prod.splits)
    from jwks_validate_verified [OF that(1) run] key_from_cache_published JwksJwtValidator show ?thesis by fastforce
  qed
qed

text \<open>The validator of the process: the one it has built, or the one the environment configures.\<close>

definition validator_of :: "authz_cfg \<Rightarrow> authz_state \<Rightarrow> validator \<Rightarrow> bool" where
  "validator_of C s v \<longleftrightarrow>
     (case ax_validator s of
        Some u \<Rightarrow> v = u
      | None \<Rightarrow> validator_from_env (ax_fetch C) (ax_now C) (ax_env C) = Inr v)"

lemma get_validator_cases:
  assumes "get_validator C s = (r, s')"
  shows "ax_jwks s' = ax_jwks s" "r = Inr v \<Longrightarrow> ax_validator s' = Some v" "r = Inr v \<Longrightarrow> validator_of C s v"
  using assms by (auto simp: get_validator_def validator_of_def split: option.split_asm sum.split_asm)

lemma authorize_token_Allow:
  assumes "jwks_wf (ax_jwks s)" "authorize_token C arn token s = (Inr resp, s')" "policy_effect resp = Some ''Allow''"
  obtains v c where "validator_of C s v" "ax_validator s' = Some v" "verified_by (ax_lib C) v (ax_jwks s) (ax_jwks s') token c" "cl_sub c \<noteq> []"
    "resp = build_response True (build_context (ax_lib C) token (cl_sub c) (cl_role c)) arn (cl_sub c)"
proof -
  have no: "resp \<noteq> deny arn" using assms(3) by (auto simp: deny_def)
  obtain q s1 where g: "get_validator C s = (q, s1)" by fastforce
  show thesis
  proof (cases q)
    case (Inl e)
    with g assms(2) no show thesis by (auto simp: authorize_token_def tryE_def retE_def raiseE_def split: if_split_asm)
  next
    case (Inr v)
    obtain r s2 where v: "validate_with C v token s1 = (r, s2)" by fastforce
    show thesis
    proof (cases r)
      case (Inl e)
      with g v \<open>q = Inr v\<close> assms(2) no show thesis
        by (auto simp: authorize_token_def tryE_def retE_def raiseE_def split: if_split_asm)
    next
      case (Inr c)
      with g v \<open>q = Inr v\<close> assms(2) have "s' = s2"
        "resp = build_response True (build_context (ax_lib C) token (cl_sub c) (cl_role c)) arn (cl_sub c)"
        by (auto simp: authorize_token_def tryE_def retE_def)
      with that [of v c] validate_with_cases [OF v] verified_sub Inr get_validator_cases [OF g] \<open>q = Inr v\<close> assms(1)
      show thesis by simp
    qed
  qed
qed

lemma authorizer_Allow:
  assumes "jwks_wf (ax_jwks s)" "authorizer_handler C event s = (Inr resp, s')" "policy_effect resp = Some ''Allow''"
  obtains token v c where "extract_token event = Inr (Some token)" "validator_of C s v" "ax_validator s' = Some v"
    "verified_by (ax_lib C) v (ax_jwks s) (ax_jwks s') token c" "cl_sub c \<noteq> []"
    "resp = build_response True (build_context (ax_lib C) token (cl_sub c) (cl_role c)) (method_arn_of C event) (cl_sub c)"
proof -
  obtain token where t: "extract_token event = Inr (Some token)"
    and run: "authorize_token C (method_arn_of C event) token s = (Inr resp, s')"
    using assms(2,3) by (auto simp: authorizer_handler_def bindE_Inr_iff liftE_def retE_def deny_def split: option.split_asm)
  from authorize_token_Allow [OF assms(1) run assms(3)] t that show thesis by metis
qed

text \<open>The context names the subject, and the role and the tenant when the token has them.\<close>

lemma build_context_fields:
  "dget (build_context L token sub role) ''user_id'' = PStr sub"
  "dget (build_context L token sub role) ''role'' = (case role of None \<Rightarrow> PNone | Some r \<Rightarrow> if r = [] then PNone else PStr r)"
  "dget (build_context L token sub role) ''lambda'' = PNone"
  by (auto simp: build_context_def Let_def dget_Cons split: option.splits)

text \<open>
  C34. A connection is admitted only with a verified token: an \<^verbatim>\<open>Allow\<close> policy is returned only when the
  request carries a token, the validator of the process (the one it built before, or the one the environment
  configures) verified it, and principal and context name the subject of the verified claims. Under HS256 the
  token decodes with the shared secret. Under RS256 it decodes with the key that the validator's key set files
  under the token's \<^verbatim>\<open>kid\<close>: the set in its cache that has not expired, or the one its endpoint answered
  last; if the cache held nothing but what the endpoint published (at the start it is empty), the key is one that
  the endpoint published, and the cache still holds nothing else. So a key that the token brings along is never used.
\<close>

theorem authorizer_allow_sound:
  assumes "jwks_wf (ax_jwks s)" "authorizer_handler C event s = (Inr resp, s')" "policy_effect resp = Some ''Allow''"
  shows "\<exists>token v c ctx. extract_token event = Inr (Some token) \<and> validator_of C s v \<and> ax_validator s' = Some v \<and>
     verified_by (ax_lib C) v (ax_jwks s) (ax_jwks s') token c \<and> cl_sub c \<noteq> [] \<and> dget resp ''principalId'' = PStr (cl_sub c) \<and>
     dget resp ''context'' = PDict ctx \<and> dget ctx ''user_id'' = PStr (cl_sub c)"
proof -
  obtain token v c where "extract_token event = Inr (Some token)" "validator_of C s v" "ax_validator s' = Some v"
    "verified_by (ax_lib C) v (ax_jwks s) (ax_jwks s') token c" "cl_sub c \<noteq> []"
    and resp: "resp = build_response True (build_context (ax_lib C) token (cl_sub c) (cl_role c)) (method_arn_of C event) (cl_sub c)"
    using assms by (rule authorizer_Allow)
  moreover have "dget (build_context (ax_lib C) token (cl_sub c) (cl_role c)) ''user_id'' = PStr (cl_sub c)"
    by (rule build_context_fields)
  ultimately show ?thesis by (metis context_build principal_build)
qed

text \<open>
  The handler does raise: when the validator reads the key set and the first fetch fails with an
  exception other than an invalid token (the endpoint answered without a key array, or could not be
  reached), the exception leaves the handler instead of a \<^verbatim>\<open>Deny\<close> policy.
\<close>

lemma authorizer_raises_without_keys:
  assumes "extract_token event = Inr (Some token)" "ax_validator s = Some (JwksJwtValidator J S)"
    and "unverified_header (ax_lib C) token = Inr header" "dget header ''kid'' = PStr kid" "kid \<noteq> []"
    and "jw_cached (ax_jwks s) = None" "jc_fetcher J (fetches (ax_jwks s)) = Inl e" "\<not> is_jwt_invalid e"
  shows "fst (authorizer_handler C event s) = Inl e"
  using assms
  by (simp add: authorizer_handler_def bindE_def liftE_def authorize_token_def tryE_def get_validator_def
      jwks_validate_def jwks_get_def jwks_current_def jwks_refresh_def jwks_fetch_def raiseE_def)

text \<open>
  The sources of a token: a non-empty string under either spelling of the header decides alone; an
  empty header under the capital spelling does not.
\<close>

lemma header_decides:
  assumes "dget event ''headers'' = PDict h" "h \<noteq> []" "dget h ''Authorization'' = PStr a" "a \<noteq> []"
  shows "extract_token event = Inr (if starts_with a bearer_prefix then Some (strip (drop (length bearer_prefix) a)) else None)"
  using assms by (simp add: extract_token_def auth_value_def event_dict_def py_or_def get_attr_def bearer_prefix_def)

lemma empty_header_reads_query:
  assumes "dget event ''headers'' = PDict [(''Authorization'', PStr [])]"
    and "dget event ''queryStringParameters'' = PDict [(''token'', PStr t)]" "t \<noteq> []"
  shows "extract_token event = Inr (Some t)"
  using assms by (simp add: extract_token_def auth_value_def event_dict_def py_or_def get_attr_def query_token_def dget_Cons)

section \<open>Witnesses\<close>

definition authz_demo_cfg :: authz_cfg where
  "authz_demo_cfg = \<lparr>ax_lib = demo_lib, ax_fetch = (\<lambda>_ _. Inl (JwtConfigError ''no keys'')), ax_now = of_nat,
     ax_env = [''JWT_SECRET'' \<mapsto> ''secret'', ''JWT_ISSUER'' \<mapsto> ''iss'', ''JWT_AUDIENCE'' \<mapsto> ''aud''], ax_show = (\<lambda>_. [])\<rparr>"

definition authz_demo_event :: item where
  "authz_demo_event = [(''queryStringParameters'', PDict [(''token'', PStr ''tok'')])]"

definition authz_start :: authz_state where
  "authz_start = \<lparr>ax_validator = None, ax_jwks = demo_cache\<rparr>"

lemma authz_demo_token: "extract_token authz_demo_event = Inr (Some ''tok'')"
  by (simp add: authz_demo_event_def extract_token_def auth_value_def event_dict_def py_or_def get_attr_def query_token_def dget_Cons)

lemma authz_demo_validator: "validator_from_env f n (ax_env authz_demo_cfg) = Inr (JwtValidator demo_jwt_settings)"
  by (simp add: validator_from_env_def env_get_def authz_demo_cfg_def from_env_hs256_def required_value_def demo_jwt_settings_def)

lemma authz_demo_run:
  "\<exists>resp s'. authorizer_handler authz_demo_cfg authz_demo_event authz_start = (Inr resp, s') \<and> policy_effect resp = Some ''Allow''"
proof -
  obtain c where claims: "claims_of demo_lib demo_claims = Some c" by (rule that, code_simp)
  have "validate demo_lib demo_jwt_settings ''tok'' = Inr c"
    using claims by (simp add: validate_def checked_claims_def demo_lib_def demo_jwt_settings_def)
  moreover have "ax_lib authz_demo_cfg = demo_lib" by (simp add: authz_demo_cfg_def)
  ultimately show ?thesis
    by (simp add: authorizer_handler_def bindE_def liftE_def authz_demo_token authorize_token_def tryE_def get_validator_def
        authz_start_def authz_demo_validator retE_def)
qed

text \<open>The same token under RS256, with the demonstration endpoint of keys.\<close>

definition authz_rs256_cfg :: authz_cfg where
  "authz_rs256_cfg = authz_demo_cfg\<lparr>ax_fetch := (\<lambda>_. jc_fetcher demo_jwks),
     ax_env := [''JWT_PUBLIC_JWKS_URL'' \<mapsto> ''u'', ''JWT_ISSUER'' \<mapsto> ''iss'', ''JWT_AUDIENCE'' \<mapsto> ''aud'']\<rparr>"

definition authz_rs256_jwks :: jwks_cfg where
  "authz_rs256_jwks = \<lparr>jc_url = ''u'', jc_ttl = 600, jc_fetcher = jc_fetcher demo_jwks, jc_now = of_nat\<rparr>"

definition authz_rs256_settings :: jwt_settings where
  "authz_rs256_settings = \<lparr>jwt_secret = [], jwt_issuer = ''iss'', jwt_audience = ''aud''\<rparr>"

lemma authz_rs256_validator:
  "validator_of authz_rs256_cfg authz_start v \<longleftrightarrow> v = JwksJwtValidator authz_rs256_jwks authz_rs256_settings"
  by (auto simp: validator_of_def authz_start_def validator_from_env_def env_get_def authz_rs256_cfg_def authz_demo_cfg_def
      from_env_jwks_def from_jwks_url_def default_jwks_cache_ttl_seconds_def required_value_def authz_rs256_jwks_def
      authz_rs256_settings_def)

lemma authz_rs256_run:
  "\<exists>resp s'. authorizer_handler authz_rs256_cfg authz_demo_event authz_start = (Inr resp, s') \<and> policy_effect resp = Some ''Allow''"
proof -
  obtain c where claims: "claims_of demo_lib demo_claims = Some c" by (rule that, code_simp)
  have v: "validator_from_env (ax_fetch authz_rs256_cfg) (ax_now authz_rs256_cfg) (ax_env authz_rs256_cfg) =
      Inr (JwksJwtValidator authz_rs256_jwks authz_rs256_settings)"
    using authz_rs256_validator by (auto simp: validator_of_def authz_start_def)
  have get: "\<exists>j. jwks_get authz_rs256_jwks ''k1'' demo_cache = (Inr (PDict [(''kid'', PStr ''k1''), (''n'', PStr ''x'')]), j)"
    by (simp add: jwks_get_def jwks_current_def jwks_refresh_def jwks_fetch_def jwks_now_def bindE_def retE_def
        demo_jwks_def authz_rs256_jwks_def demo_cache_def index_keys_def index_key_def lookup_kid_def dget_Cons dset_def Let_def)
  have "verify_with_jwk demo_lib authz_rs256_settings ''tok'' (PDict [(''kid'', PStr ''k1''), (''n'', PStr ''x'')]) = Inr c"
    using claims by (simp add: verify_with_jwk_def checked_claims_def demo_lib_def)
  with get have "\<exists>j. jwks_validate demo_lib authz_rs256_jwks authz_rs256_settings ''tok'' demo_cache = (Inr c, j)"
    by (auto simp: jwks_validate_def bindE_def liftE_def demo_lib_def [THEN arg_cong [of _ _ unverified_header]] dget_Cons)
  moreover have "ax_lib authz_rs256_cfg = demo_lib" by (simp add: authz_rs256_cfg_def authz_demo_cfg_def)
  ultimately show ?thesis
    by (auto simp: authorizer_handler_def bindE_def liftE_def authz_demo_token authorize_token_def tryE_def get_validator_def
        authz_start_def v retE_def Let_def split: prod.split)
qed

theorem authorizer_allow_sound_witness:
  "(\<exists>resp s' token v c. authorizer_handler authz_demo_cfg authz_demo_event authz_start = (Inr resp, s') \<and>
     extract_token authz_demo_event = Inr (Some token) \<and>
     verified_by demo_lib v (ax_jwks authz_start) (ax_jwks s') token c) \<and>
   (\<exists>resp s' jwk. authorizer_handler authz_rs256_cfg authz_demo_event authz_start = (Inr resp, s') \<and>
     key_from_cache authz_rs256_jwks (ax_jwks authz_start) (ax_jwks s') ''k1'' jwk \<and> published_key authz_rs256_jwks jwk)"
proof (rule conjI)
  have wf: "jwks_wf (ax_jwks authz_start)" using demo_cache_wf by (simp add: authz_start_def)
  obtain resp s' where run: "authorizer_handler authz_demo_cfg authz_demo_event authz_start = (Inr resp, s')"
    "policy_effect resp = Some ''Allow''"
    using authz_demo_run by blast
  from authorizer_allow_sound [OF wf run] run
  show "\<exists>resp s' token v c. authorizer_handler authz_demo_cfg authz_demo_event authz_start = (Inr resp, s') \<and>
     extract_token authz_demo_event = Inr (Some token) \<and> verified_by demo_lib v (ax_jwks authz_start) (ax_jwks s') token c"
    by (auto simp: authz_demo_cfg_def)
next
  have wf: "jwks_wf (ax_jwks authz_start)" using demo_cache_wf by (simp add: authz_start_def)
  have pub: "cache_published J (ax_jwks authz_start)" for J by (simp add: cache_published_def authz_start_def demo_cache_def)
  have lib: "unverified_header (ax_lib authz_rs256_cfg) t = Inr [(''kid'', PStr ''k1'')]" for t
    by (simp add: authz_rs256_cfg_def authz_demo_cfg_def demo_lib_def)
  obtain resp s' where run: "authorizer_handler authz_rs256_cfg authz_demo_event authz_start = (Inr resp, s')"
    "policy_effect resp = Some ''Allow''"
    using authz_rs256_run by blast
  from authorizer_allow_sound [OF wf run] run pub
  show "\<exists>resp s' jwk. authorizer_handler authz_rs256_cfg authz_demo_event authz_start = (Inr resp, s') \<and>
     key_from_cache authz_rs256_jwks (ax_jwks authz_start) (ax_jwks s') ''k1'' jwk \<and> published_key authz_rs256_jwks jwk"
    by (auto simp: authz_rs256_validator lib dget_Cons)
qed

end
