(* ===== verification/Py_Number.thy ===== *)
theory Py_Number
  imports Py_Prelude "HOL-Library.Log_Nat"
begin

text \<open>
  Python's numbers as far as the cost services compute with them: \<^verbatim>\<open>round\<close> with ties to even, the rounding
  of a real result to a binary double (\<open>fl\<close>; the range of the exponent is not limited), and the
  \<^verbatim>\<open>decimal\<close> module with its default context of 28 digits.
\<close>

section \<open>Rounding\<close>

definition round_half_even :: "rat \<Rightarrow> int" where
  "round_half_even q =
     (let f = \<lfloor>q\<rfloor>; d = q - of_int f
      in if d < 1 / 2 then f else if 1 / 2 < d then f + 1 else if even f then f else f + 1)"

lemma round_half_even_of_int [simp]: "round_half_even (of_int i) = i"
  by (simp add: round_half_even_def)

lemma round_half_even_le:
  assumes "q \<le> of_int i"
  shows "round_half_even q \<le> i"
proof (cases "q = of_int i")
  case False
  with assms have "\<lfloor>q\<rfloor> < i" by (simp add: floor_less_iff)
  then show ?thesis by (auto simp: round_half_even_def Let_def)
qed simp

lemma round_half_even_ge:
  assumes "of_int i \<le> q"
  shows "i \<le> round_half_even q"
proof -
  have "i \<le> \<lfloor>q\<rfloor>" using assms by (simp add: le_floor_iff)
  then show ?thesis by (auto simp: round_half_even_def Let_def)
qed

section \<open>Doubles\<close>

text \<open>The exponent of a positive number: the power of two it lies above.\<close>

definition float_exp :: "rat \<Rightarrow> int" where
  "float_exp x =
     (let (n, d) = quotient_of x; k = int (floorlog 2 (nat n)) - int (floorlog 2 (nat d))
      in if 2 powi k \<le> x then k else k - 1)"

definition fl :: "rat \<Rightarrow> rat" where
  "fl x = (if x = 0 then 0
           else let u = 2 powi (float_exp \<bar>x\<bar> - 52) in of_int (round_half_even (x / u)) * u)"

lemma float_exp_bounds:
  assumes "0 < x"
  shows "2 powi (float_exp x) \<le> x \<and> x < 2 powi (float_exp x + 1)"
proof -
  obtain n d where q: "quotient_of x = (n, d)" by (cases "quotient_of x")
  have x: "x = of_int n / of_int d" and d: "0 < d" using q quotient_of_div quotient_of_denom_pos by blast+
  with assms have n: "0 < n" by (simp add: zero_less_divide_iff)
  define a where "a = floorlog 2 (nat n)"
  define b where "b = floorlog 2 (nat d)"
  have an: "2 ^ (a - 1) \<le> nat n \<and> nat n < 2 ^ a" and bn: "2 ^ (b - 1) \<le> nat d \<and> nat d < 2 ^ b"
    using floorlog_bounds [of "nat n" 2] floorlog_bounds [of "nat d" 2] n d by (simp_all add: a_def b_def)
  have pos: "0 < a" "0 < b" using an bn n d by (auto intro: gr0I)
  have rat_nat: "(of_int i :: rat) = of_nat (nat i)" if "0 < i" for i using that by simp
  have rn: "(2::rat) ^ (a - 1) \<le> of_int n" "of_int n < (2::rat) ^ a"
    unfolding rat_nat [OF n] using an by (metis of_nat_le_iff of_nat_less_iff of_nat_numeral of_nat_power)+
  have rd: "(2::rat) ^ (b - 1) \<le> of_int d" "of_int d < (2::rat) ^ b"
    unfolding rat_nat [OF d] using bn by (metis of_nat_le_iff of_nat_less_iff of_nat_numeral of_nat_power)+
  have powi: "(2::rat) powi (int a - 1) = 2 ^ (a - 1)" "(2::rat) powi (int b - 1) = 2 ^ (b - 1)"
    using pos by (simp_all flip: power_int_of_nat add: of_nat_diff)
  define k where "k = int a - int b"
  have "k - 1 = (int a - 1) - int b" by (simp add: k_def)
  then have "2 powi (k - 1) = (2::rat) powi (int a - 1 - int b)" by (rule arg_cong)
  also have "\<dots> = (2::rat) powi (int a - 1) / 2 powi (int b)" by (rule power_int_diff) simp
  also have "\<dots> \<le> x"
    unfolding x using rn(1) rd(2) d n powi(1) by (intro frac_le) (simp_all add: power_int_of_nat)
  finally have low: "2 powi (k - 1) \<le> x" .
  have "x < (2::rat) powi (int a) / 2 powi (int b - 1)"
    unfolding x using rn rd d n powi(2) by (intro frac_less) (simp_all add: power_int_of_nat)
  also have "\<dots> = (2::rat) powi (int a - (int b - 1))" by (rule power_int_diff [symmetric]) simp
  also have "int a - (int b - 1) = k + 1" by (simp add: k_def)
  finally have high: "x < 2 powi (k + 1)" .
  have "float_exp x = (if 2 powi k \<le> x then k else k - 1)"
    by (simp add: float_exp_def q a_def b_def k_def)
  with low high show ?thesis by auto
qed

text \<open>Rounding does not pass a double: here powers of two and one hundred.\<close>

lemma fl_le_representable:
  assumes "0 \<le> x" "x \<le> of_int m * 2 powi j" "0 \<le> m" "\<And>e. 2 powi e \<le> x \<Longrightarrow> x < 2 powi (e + 1) \<Longrightarrow> e - 52 \<le> j"
  shows "fl x \<le> of_int m * 2 powi j"
proof (cases "x = 0")
  case True
  with assms(3) show ?thesis by (simp add: fl_def)
next
  case False
  with assms(1) have x: "0 < x" by simp
  let ?e = "float_exp x - 52"
  let ?u = "(2::rat) powi ?e"
  have u: "0 < ?u" by simp
  have le: "?e \<le> j" using assms(4) [of "float_exp x"] float_exp_bounds [OF x] by simp
  then obtain n where n: "j = ?e + int n" by (metis zle_iff_zadd)
  have eq: "of_int m * 2 powi j = of_int (m * 2 ^ n) * ?u"
    unfolding n by (simp add: power_int_add power_int_of_nat)
  have "x / ?u \<le> of_int (m * 2 ^ n)"
    using assms(2) u unfolding eq by (simp add: pos_divide_le_eq)
  then have "round_half_even (x / ?u) \<le> m * 2 ^ n" by (rule round_half_even_le)
  then have "of_int (round_half_even (x / ?u)) * ?u \<le> of_int (m * 2 ^ n) * ?u"
    using u by (intro mult_right_mono) (simp_all del: of_int_mult)
  with x show ?thesis unfolding eq by (simp add: fl_def Let_def)
qed

lemma fl_nonneg: "0 \<le> x \<Longrightarrow> 0 \<le> fl x"
  using round_half_even_ge [of 0] by (simp add: fl_def Let_def)

lemma fl_le_1: "0 \<le> x \<Longrightarrow> x \<le> 1 \<Longrightarrow> fl x \<le> 1"
proof -
  assume x: "0 \<le> x" "x \<le> 1"
  have "e - 52 \<le> 0" if "2 powi e \<le> x" for e
  proof -
    show ?thesis
    proof (rule ccontr)
      assume "\<not> e - 52 \<le> 0"
      then have "(2::rat) powi 1 \<le> 2 powi e" by (intro power_int_increasing) auto
      with that x(2) show False by simp
    qed
  qed
  with fl_le_representable [of x 1 0] x show ?thesis by simp
qed

lemma fl_le_100: "0 \<le> x \<Longrightarrow> x \<le> 100 \<Longrightarrow> fl x \<le> 100"
proof -
  assume x: "0 \<le> x" "x \<le> 100"
  have "e - 52 \<le> 0" if "2 powi e \<le> x" for e
  proof (rule ccontr)
    assume "\<not> e - 52 \<le> 0"
    then have "(2::rat) powi 7 \<le> 2 powi e" by (intro power_int_increasing) auto
    with that x(2) show False by simp
  qed
  with fl_le_representable [of x 100 0] x show ?thesis by simp
qed

text \<open>\<open>round(part / whole * 100.0, 2)\<close> for integers: the exact quotient is rounded, then the product.\<close>

definition round2 :: "rat \<Rightarrow> rat" where
  "round2 x = fl (of_int (round_half_even (x * 100)) / 100)"

definition percent_of :: "int \<Rightarrow> int \<Rightarrow> rat" where
  "percent_of part whole = round2 (if 0 < whole then fl (fl (of_int part / of_int whole) * 100) else 0)"

lemma percent_of_bounds:
  assumes "0 \<le> part" "part \<le> whole"
  shows "0 \<le> percent_of part whole \<and> percent_of part whole \<le> 100"
proof -
  define y where "y = (if 0 < whole then fl (fl (of_int part / of_int whole) * 100) else 0)"
  have y: "0 \<le> y \<and> y \<le> 100"
  proof (cases "0 < whole")
    case True
    let ?q = "of_int part / (of_int whole :: rat)"
    have q: "0 \<le> ?q" "?q \<le> 1" using assms True by (simp_all add: divide_le_eq_1)
    have "0 \<le> fl ?q" "fl ?q \<le> 1" using q fl_nonneg fl_le_1 by blast+
    then have "0 \<le> fl ?q * 100" "fl ?q * 100 \<le> 100" by simp_all
    then show ?thesis using True fl_nonneg fl_le_100 by (simp add: y_def)
  qed (simp add: y_def)
  have "round_half_even (y * 100) \<le> 10000" using y by (intro round_half_even_le) simp
  moreover have "0 \<le> round_half_even (y * 100)" using y by (intro round_half_even_ge) simp
  ultimately have r: "0 \<le> of_int (round_half_even (y * 100)) / (100::rat)" "of_int (round_half_even (y * 100)) / (100::rat) \<le> 100"
    by simp_all
  show ?thesis
    using fl_nonneg [OF r(1)] fl_le_100 [OF r] by (simp add: percent_of_def round2_def y_def)
qed

section \<open>Decimals\<close>

text \<open>A finite number is a sign, a coefficient and an exponent of ten; the rest are infinities and NaNs.\<close>

datatype decimal = Decimal bool nat int | NotFinite

definition nan_text :: "string \<Rightarrow> bool" where
  "nan_text s \<longleftrightarrow> (let t = (if take 1 s = ''s'' then drop 1 s else s) in starts_with t ''nan'' \<and> digits_val 0 (drop 3 t) \<noteq> None)"

fun exponent_val :: "string \<Rightarrow> int option" where
  "exponent_val [] = Some 0"
| "exponent_val (e # s) =
     (case s of
        [] \<Rightarrow> None
      | c # r \<Rightarrow>
          if c = CHR ''-'' then (if r = [] then None else map_option (\<lambda>n. - int n) (digits_val 0 r))
          else if c = CHR ''+'' then (if r = [] then None else map_option int (digits_val 0 r))
          else map_option int (digits_val 0 s))"

definition num_digits :: "nat \<Rightarrow> nat" where
  "num_digits n = length (dec_digits n)"

text \<open>The limits of an exact conversion.\<close>

definition dec_in_range :: "nat \<Rightarrow> int \<Rightarrow> bool" where
  "dec_in_range n e \<longleftrightarrow> n = 0 \<or> (e + int (num_digits n) - 1 \<le> 999999999999999999 \<and> - 1999999999999999997 \<le> e)"

definition split_sign :: "string \<Rightarrow> bool \<times> string" where
  "split_sign s =
     (case s of
        [] \<Rightarrow> (False, [])
      | c # r \<Rightarrow> if c = CHR ''-'' then (True, r) else if c = CHR ''+'' then (False, r) else (False, s))"

text \<open>Digits around an optional point and an optional exponent, as coefficient and exponent of ten.\<close>

definition num_body :: "string \<Rightarrow> (nat \<times> int) option" where
  "num_body low =
     (let m = takeWhile (\<lambda>c. c \<noteq> CHR ''e'') low; ex = dropWhile (\<lambda>c. c \<noteq> CHR ''e'') low;
          ip = takeWhile (\<lambda>c. c \<noteq> CHR ''.'') m; fp = drop 1 (dropWhile (\<lambda>c. c \<noteq> CHR ''.'') m)
      in if ip = [] \<and> fp = [] then None
         else (case (digits_val 0 (ip @ fp), exponent_val ex) of
                 (Some n, Some e) \<Rightarrow> Some (n, e - int (length fp))
               | _ \<Rightarrow> None))"

definition dec_body :: "bool \<Rightarrow> string \<Rightarrow> decimal option" where
  "dec_body neg low =
     (if low = ''inf'' \<or> low = ''infinity'' \<or> nan_text low then Some NotFinite
      else Option.bind (num_body low) (\<lambda>(n, e). if dec_in_range n e then Some (Decimal neg n e) else None))"

text \<open>\<^verbatim>\<open>Decimal(s)\<close>; \<open>None\<close> is its \<^verbatim>\<open>InvalidOperation\<close>.\<close>

definition parse_decimal :: "string \<Rightarrow> decimal option" where
  "parse_decimal s =
     (let (neg, body) = split_sign (filter (\<lambda>c. c \<noteq> CHR ''_'') (strip s)) in dec_body neg (lower body))"

text \<open>Multiplication by one hundred in the default context, then \<^verbatim>\<open>quantize\<close> to whole cents, half up.\<close>

definition round28 :: "nat \<Rightarrow> int \<Rightarrow> nat \<times> int" where
  "round28 n e =
     (let k = num_digits n - 28
      in if k = 0 then (n, e) else (nat (round_half_even (of_nat n / 10 ^ k)), e + int k))"

definition quantize_half_up :: "nat \<Rightarrow> int \<Rightarrow> nat option" where
  "quantize_half_up m f =
     (if m = 0 then Some 0
      else if 28 < f then None
      else
        let r = (if 0 \<le> f then m * 10 ^ nat f else (m + 5 * 10 ^ (nat (- f) - 1)) div 10 ^ nat (- f))
        in if r < 10 ^ 28 then Some r else None)"

definition invalid_operation :: exn where
  "invalid_operation = OtherError ''InvalidOperation'' []"

section \<open>Conversion to a double\<close>

text \<open>A double is a rational, an infinity with its sign (negative or not) or a NaN.\<close>

text \<open>\<^verbatim>\<open>float(s)\<close>: an underscore stands between two digits; \<open>None\<close> is the \<^verbatim>\<open>ValueError\<close>.\<close>

definition is_digit :: "char \<Rightarrow> bool" where
  "is_digit c \<longleftrightarrow> 48 \<le> (of_char c :: nat) \<and> (of_char c :: nat) \<le> 57"

fun underscores_ok :: "bool \<Rightarrow> string \<Rightarrow> bool" where
  "underscores_ok after_digit [] = True"
| "underscores_ok after_digit (c # s) =
     (if c = CHR ''_'' then after_digit \<and> (case s of [] \<Rightarrow> False | d # _ \<Rightarrow> is_digit d) \<and> underscores_ok False s
      else underscores_ok (is_digit c) s)"

datatype pyfloat = Finite rat | Infinite bool | NaN

definition float_of_str :: "string \<Rightarrow> pyfloat option" where
  "float_of_str s =
     (let t = strip s; (neg, body) = split_sign (filter (\<lambda>c. c \<noteq> CHR ''_'') t); low = lower body
      in if \<not> underscores_ok False t then None
         else if low = ''inf'' \<or> low = ''infinity'' then Some (Infinite neg)
         else if low = ''nan'' then Some NaN
         else map_option (\<lambda>(n, e). Finite (let x = fl (of_nat n * 10 powi e) in if neg then - x else x)) (num_body low))"

text \<open>\<^verbatim>\<open>float(v)\<close> of any value.\<close>

fun float_of :: "pyval \<Rightarrow> exn + pyfloat" where
  "float_of (PBool b) = Inr (Finite (if b then 1 else 0))"
| "float_of (PInt i) = Inr (Finite (fl (of_int i)))"
| "float_of (PDec q) = Inr (Finite (fl q))"
| "float_of (PFloat q) = Inr (Finite q)"
| "float_of (PStr s) = (case float_of_str s of Some x \<Rightarrow> Inr x | None \<Rightarrow> Inl (ValueError ''could not convert string to float''))"
| "float_of _ = Inl TypeError"

text \<open>\<^verbatim>\<open>round(x * 100)\<close>; an infinity and a NaN have no integer.\<close>

fun round_cents :: "pyfloat \<Rightarrow> exn + int" where
  "round_cents (Finite q) = Inr (round_half_even (fl (q * 100)))"
| "round_cents (Infinite neg) = Inl (OtherError ''OverflowError'' [])"
| "round_cents NaN = Inl (ValueError ''cannot convert float NaN to integer'')"

definition float_cents :: "pyval \<Rightarrow> exn + int" where
  "float_cents v = and_then (float_of v) round_cents"

text \<open>Sums, halves and comparisons; a NaN compares with nothing.\<close>

fun float_add :: "pyfloat \<Rightarrow> pyfloat \<Rightarrow> pyfloat" where
  "float_add (Finite x) (Finite y) = Finite (fl (x + y))"
| "float_add (Infinite a) (Infinite b) = (if a = b then Infinite a else NaN)"
| "float_add NaN y = NaN"
| "float_add x NaN = NaN"
| "float_add (Infinite a) y = Infinite a"
| "float_add x (Infinite b) = Infinite b"

fun float_half :: "pyfloat \<Rightarrow> pyfloat" where
  "float_half (Finite x) = Finite (x / 2)"
| "float_half x = x"

fun float_less :: "pyfloat \<Rightarrow> pyfloat \<Rightarrow> bool" where
  "float_less (Finite x) (Finite y) = (x < y)"
| "float_less NaN y = False"
| "float_less x NaN = False"
| "float_less (Infinite a) (Infinite b) = (a \<and> \<not> b)"
| "float_less (Infinite a) y = a"
| "float_less x (Infinite b) = (\<not> b)"

definition float_le :: "pyfloat \<Rightarrow> pyfloat \<Rightarrow> bool" where
  "float_le x y \<longleftrightarrow> float_less x y \<or> (x = y \<and> x \<noteq> NaN)"

section \<open>Lemmas\<close>

lemma float_le_less_trans: "float_le x y \<Longrightarrow> float_less y z \<Longrightarrow> float_less x z"
  by (cases x; cases y; cases z) (auto simp: float_le_def)

lemma float_less_le_trans: "float_less x y \<Longrightarrow> float_le y z \<Longrightarrow> float_less x z"
  by (cases x; cases y; cases z) (auto simp: float_le_def)

lemma float_le_trans: "float_le x y \<Longrightarrow> float_le y z \<Longrightarrow> float_le x z"
  by (cases x; cases y; cases z) (auto simp: float_le_def)

lemma float_less_le_iff: "x \<noteq> NaN \<Longrightarrow> y \<noteq> NaN \<Longrightarrow> \<not> float_less x y \<longleftrightarrow> float_le y x"
  by (cases x; cases y) (auto simp: float_le_def)

lemma of_char_digit: "n < 10 \<Longrightarrow> (of_char (char_of (48 + n) :: char) :: nat) = 48 + n"
  by (simp add: of_char_of)

lemma dec_digits_digits: "list_all is_digit (dec_digits n)"
proof (induction n rule: dec_digits.induct)
  case (1 n)
  have d: "is_digit (char_of (48 + n mod 10))" "n < 10 \<Longrightarrow> is_digit (char_of (48 + n))"
    using of_char_digit [of n] of_char_digit [of "n mod 10"] by (simp_all add: is_digit_def)
  show ?case using "1.IH" d by (subst dec_digits.simps) simp
qed

lemma dec_digits_nonempty [simp]: "dec_digits n \<noteq> []"
  by (subst dec_digits.simps) simp

lemma digits_val_append: "digits_val acc (s @ t) = Option.bind (digits_val acc s) (\<lambda>a. digits_val a t)"
  by (induction s arbitrary: acc) (auto simp: Let_def)

lemma digits_val_dec: "digits_val acc (dec_digits n) = Some (acc * 10 ^ num_digits n + n)"
proof (induction n arbitrary: acc rule: dec_digits.induct)
  case (1 n)
  show ?case
  proof (cases "n < 10")
    case True
    then have "dec_digits n = [char_of (48 + n)]" by (subst dec_digits.simps) simp
    then show ?thesis using True of_char_digit [OF True] by (simp add: num_digits_def Let_def)
  next
    case False
    then have d: "dec_digits n = dec_digits (n div 10) @ [char_of (48 + n mod 10)]" by (subst dec_digits.simps) simp
    have l: "num_digits n = Suc (num_digits (n div 10))" unfolding num_digits_def by (subst d) simp
    have m: "n mod 10 < 10" by simp
    show ?thesis
      unfolding d digits_val_append "1.IH" [OF False] l using of_char_digit [OF m]
      by (simp add: Let_def algebra_simps)
  qed
qed

lemma num_digits_less: "n < 10 ^ k \<Longrightarrow> 0 < k \<Longrightarrow> num_digits n \<le> k"
proof (induction n arbitrary: k rule: dec_digits.induct)
  case (1 n)
  show ?case
  proof (cases "n < 10")
    case True
    then have "dec_digits n = [char_of (48 + n)]" by (subst dec_digits.simps) simp
    with "1.prems" show ?thesis by (simp add: num_digits_def)
  next
    case False
    then have d: "dec_digits n = dec_digits (n div 10) @ [char_of (48 + n mod 10)]" by (subst dec_digits.simps) simp
    have l: "num_digits n = Suc (num_digits (n div 10))" unfolding num_digits_def by (subst d) simp
    obtain j where j: "k = Suc j" "0 < j" using "1.prems" False by (cases k; cases "k - 1") auto
    have "n div 10 < 10 ^ j" using "1.prems"(1) j by (simp add: less_mult_imp_div_less mult.commute)
    with "1.IH" [OF False this j(2)] l j show ?thesis by simp
  qed
qed


text \<open>Text of digits and a dot is read as it stands.\<close>

definition plain_char :: "char \<Rightarrow> bool" where
  "plain_char c \<longleftrightarrow> is_digit c \<or> c = CHR ''.''"

lemma plain_char_facts:
  assumes "plain_char c"
  shows "\<not> is_space c" "c \<noteq> CHR ''_''" "lower_char c = c" "c \<noteq> CHR ''e''" "c \<noteq> CHR ''i''" "c \<noteq> CHR ''n''" "c \<noteq> CHR ''s''"
    "c \<noteq> CHR ''-''" "c \<noteq> CHR ''+''"
  using assms by (auto simp: plain_char_def is_digit_def is_space_def lower_char_def Let_def)

lemma strip_plain:
  assumes "list_all plain_char s"
  shows "strip s = s"
proof -
  have l: "dropWhile is_space t = t" if "list_all plain_char t" for t
    using that plain_char_facts(1) by (cases t) auto
  have "list_all plain_char (rev s)" using assms by (simp add: list_all_iff)
  with assms show ?thesis by (simp add: strip_def lstrip_def rstrip_def l)
qed

lemma filter_plain: "list_all plain_char s \<Longrightarrow> filter (\<lambda>c. c \<noteq> CHR ''_'') s = s"
  by (induction s) (auto dest: plain_char_facts(2))

lemma lower_plain: "list_all plain_char s \<Longrightarrow> lower s = s"
  by (induction s) (auto simp: lower_def dest: plain_char_facts(3))

lemma plain_no_e: "list_all plain_char s \<Longrightarrow> takeWhile (\<lambda>c. c \<noteq> CHR ''e'') s = s \<and> dropWhile (\<lambda>c. c \<noteq> CHR ''e'') s = []"
  by (induction s) (auto dest: plain_char_facts(4))

lemma parse_plain:
  assumes "list_all is_digit a" "list_all is_digit b" "a \<noteq> []" "digits_val 0 (a @ b) = Some n"
    and "dec_in_range n (- int (length b))"
  shows "parse_decimal (a @ ''.'' @ b) = Some (Decimal False n (- int (length b)))"
proof -
  define s where "s = a @ ''.'' @ b"
  have plain: "list_all plain_char s" using assms(1,2) by (auto simp: s_def list_all_iff plain_char_def)
  obtain c r where c: "s = c # r" by (cases s) (auto simp: s_def)
  have "plain_char c" using plain unfolding c by simp
  note pc = plain_char_facts [OF this]
  have sign: "split_sign s = (False, s)" using pc by (simp add: split_sign_def c)
  have nodot: "CHR ''.'' \<notin> set a" using assms(1) by (auto simp: list_all_iff is_digit_def)
  have special: "s \<noteq> ''inf''" "s \<noteq> ''infinity''" "\<not> nan_text s"
    using pc unfolding c by (auto simp: nan_text_def starts_with_def)
  have cut: "takeWhile (\<lambda>c. c \<noteq> CHR ''.'') s = a" "dropWhile (\<lambda>c. c \<noteq> CHR ''.'') s = CHR ''.'' # b"
    using cut_at_char [OF nodot, of b] by (simp_all add: s_def)
  have "dec_body False s = Some (Decimal False n (- int (length b)))"
    using special assms(3-5) cut
    by (simp add: dec_body_def num_body_def Let_def conjunct1 [OF plain_no_e [OF plain]] conjunct2 [OF plain_no_e [OF plain]])
  then have "parse_decimal s = Some (Decimal False n (- int (length b)))"
    by (simp add: parse_decimal_def strip_plain [OF plain] filter_plain [OF plain] sign lower_plain [OF plain])
  then show ?thesis by (simp only: s_def)
qed

end
