(* ===== verification/Middleware.thy ===== *)
theory Middleware
  imports Ulid Audit_Log Py_Number
begin

text \<open>
  The request middlewares the services share (\<^verbatim>\<open>services/middleware-lib\<close>): the sliding-window rate
  limiter with its two stores, plan gating, request identifiers, request validation, the audit
  decorator and the origin list. The wrapped application is the argument \<open>call_next\<close>, a computation on
  any state; the wall clock is the sequence \<open>T\<close> of its readings. The lemmas show the bound the limiter
  enforces on every window, that the Redis store refines the in-process one, and what the other
  middlewares let through.
\<close>

section \<open>Requests and responses\<close>

datatype state_user = NoUser | DictUser item | ObjUser item

record http_request =
  hq_method :: string
  hq_path :: string
  hq_headers :: "(string \<times> string) list"
  hq_client :: "string option"
  hq_user :: state_user

record http_response =
  hr_status :: int
  hr_headers :: "(string \<times> string) list"
  hr_body :: item

text \<open>\<^verbatim>\<open>request.headers.get(name)\<close>: names are compared without regard to case, the first one counts.\<close>

definition header_get :: "http_request \<Rightarrow> string \<Rightarrow> string option" where
  "header_get req name = map_of (map (\<lambda>(k, v). (lower k, v)) (hq_headers req)) (lower name)"

definition json_response :: "int \<Rightarrow> item \<Rightarrow> http_response" where
  "json_response status body = \<lparr>hr_status = status, hr_headers = [], hr_body = body\<rparr>"

text \<open>\<^verbatim>\<open>response.headers[name] = v\<close>: in the place of the first such header, or at the end.\<close>

fun put_header :: "string \<Rightarrow> string \<Rightarrow> (string \<times> string) list \<Rightarrow> (string \<times> string) list" where
  "put_header name v [] = [(lower name, v)]"
| "put_header name v ((k, x) # hs) =
     (if lower k = lower name then (lower name, v) # filter (\<lambda>(j, y). lower j \<noteq> lower name) hs
      else (k, x) # put_header name v hs)"

definition set_header :: "string \<Rightarrow> string \<Rightarrow> http_response \<Rightarrow> http_response" where
  "set_header name v resp = resp\<lparr>hr_headers := put_header name v (hr_headers resp)\<rparr>"

text \<open>
  The state of a process: the application's, the buckets of the in-process store, the number of clock
  readings, and the context variable with the request identifier.
\<close>

record 'w mw =
  mw_app :: 'w
  mw_buckets :: "string \<Rightarrow> rat list"
  mw_reads :: nat
  mw_ctx :: "string option"

definition time_now :: "(nat \<Rightarrow> rat) \<Rightarrow> ('w mw, rat) io" where
  "time_now T s = (Inr (T (mw_reads s)), s\<lparr>mw_reads := Suc (mw_reads s)\<rparr>)"

section \<open>Rate limiting\<close>

definition window_seconds :: int where
  "window_seconds = 60"

text \<open>\<open>InMemoryStore.hit\<close>: what has left the window is popped from the left, the hit is appended.\<close>

definition hit_bucket :: "rat \<Rightarrow> rat \<Rightarrow> rat list \<Rightarrow> rat list" where
  "hit_bucket window now bucket = dropWhile (\<lambda>t. t \<le> now - window) bucket @ [now]"

definition memory_hit :: "(nat \<Rightarrow> rat) \<Rightarrow> string \<Rightarrow> int \<Rightarrow> ('w mw, int \<times> rat) io" where
  "memory_hit T key window =
     bindE (time_now T) (\<lambda>now s.
       let bucket = hit_bucket (of_int window) now (mw_buckets s key)
       in (Inr (int (length bucket), hd bucket), s\<lparr>mw_buckets := (mw_buckets s)(key := bucket)\<rparr>))"

text \<open>
  \<open>RedisStore.hit\<close>. The five pipelined commands are one call of the Redis server, which answers with
  the scores of \<^verbatim>\<open>ZRANGE key 0 0\<close> and \<^verbatim>\<open>ZCARD key\<close>. The member is the time with six decimals, rounded
  half to even.
\<close>

definition redis_member :: "rat \<Rightarrow> string" where
  "redis_member now =
     (let micros = round_half_even (now * 1000000)
      in str_int (micros div 1000000) @ ''.'' @ pad_int 6 (micros mod 1000000))"

type_synonym 'z redis = "string \<Rightarrow> rat \<Rightarrow> string \<Rightarrow> rat \<Rightarrow> int \<Rightarrow> ('z, rat list \<times> int) io"

definition redis_hit :: "'z redis \<Rightarrow> rat \<Rightarrow> string \<Rightarrow> int \<Rightarrow> ('z, int \<times> rat) io" where
  "redis_hit pipe now key window =
     bindE (pipe key (now - of_int window) (redis_member now) now (window + 1)) (\<lambda>(range, count).
     retE (count, case range of [] \<Rightarrow> now | oldest # _ \<Rightarrow> oldest))"

text \<open>\<open>_default_key_fn\<close>: the first hop of the forwarded chain, then the peer.\<close>

definition default_key_fn :: "http_request \<Rightarrow> string" where
  "default_key_fn req =
     (let peer = (case hq_client req of Some host \<Rightarrow> host | None \<Rightarrow> ''unknown'')
      in case header_get req ''x-forwarded-for'' of
           None \<Rightarrow> peer
         | Some forwarded \<Rightarrow>
             if forwarded = [] then peer
             else let first = strip (hd (split_char (CHR '','') 1 forwarded)) in if first \<noteq> [] then first else peer)"

text \<open>The constructor's check, and \<open>RateLimitMiddleware.dispatch\<close> over a store.\<close>

definition check_limit :: "int \<Rightarrow> exn + int" where
  "check_limit requests_per_minute =
     (if requests_per_minute \<le> 0 then Inl (ValueError ''requests_per_minute must be positive'')
      else Inr requests_per_minute)"

definition retry_after :: "int \<Rightarrow> rat \<Rightarrow> rat \<Rightarrow> int" where
  "retry_after window now oldest = max 1 (trunc_rat (of_int window - (now - oldest)) + 1)"

definition too_many_requests :: "int \<Rightarrow> http_response" where
  "too_many_requests seconds =
     set_header ''Retry-After'' (str_int seconds) (json_response 429 [(''detail'', PStr ''Rate limit exceeded'')])"

definition rate_dispatch :: "(nat \<Rightarrow> rat) \<Rightarrow> (string \<Rightarrow> int \<Rightarrow> ('w mw, int \<times> rat) io) \<Rightarrow> (http_request \<Rightarrow> string) \<Rightarrow>
    int \<Rightarrow> int \<Rightarrow> (http_request \<Rightarrow> ('w mw, http_response) io) \<Rightarrow> http_request \<Rightarrow> ('w mw, http_response) io" where
  "rate_dispatch T hit key_fn limit window call_next request =
     bindE (hit (key_fn request) window) (\<lambda>(count, oldest).
     if limit < count
     then bindE (time_now T) (\<lambda>now. retE (too_many_requests (retry_after window now oldest)))
     else call_next request)"

section \<open>Plan gating\<close>

definition plan_ranks :: "(string \<times> nat) list" where
  "plan_ranks = [(''free'', 0), (''pro'', 1), (''team'', 2)]"

definition coerce_plan :: "pyval \<Rightarrow> string" where
  "coerce_plan v = (if v = PStr ''team'' then ''team'' else if v = PStr ''pro'' then ''pro'' else ''free'')"

definition plan_of_request :: "http_request \<Rightarrow> exn + string" where
  "plan_of_request req =
     (case hq_user req of
        NoUser \<Rightarrow> Inl (HTTPException 401 ''authentication required'')
      | DictUser d \<Rightarrow> Inr (coerce_plan (dget d ''plan''))
      | ObjUser attrs \<Rightarrow> Inr (coerce_plan (dget attrs ''plan'')))"

definition rank_of :: "string \<Rightarrow> nat" where
  "rank_of p = (case map_of plan_ranks p of None \<Rightarrow> 0 | Some r \<Rightarrow> r)"

definition require_plan :: "string \<Rightarrow> exn + (http_request \<Rightarrow> exn + string)" where
  "require_plan required =
     (case map_of plan_ranks required of
        None \<Rightarrow> Inl (ValueError ''unknown plan'')
      | Some threshold \<Rightarrow>
          Inr (\<lambda>req. and_then (plan_of_request req) (\<lambda>current.
            if rank_of current < threshold then Inl (HTTPException 402 ''plan_required'') else Inr current)))"

section \<open>Request identifiers\<close>

definition get_request_id :: "'w mw \<Rightarrow> string" where
  "get_request_id s = (case mw_ctx s of None \<Rightarrow> [] | Some r \<Rightarrow> r)"

text \<open>What the log filter writes into a record.\<close>

definition logged_request_id :: "'w mw \<Rightarrow> string" where
  "logged_request_id s = (if get_request_id s = [] then ''-'' else get_request_id s)"

text \<open>\<open>CorrelationIdMiddleware.dispatch\<close>: \<open>rnd\<close> is \<^verbatim>\<open>secrets.randbits(80)\<close>; the \<^verbatim>\<open>finally\<close> restores the variable.\<close>

definition fresh_request_id :: "(nat \<Rightarrow> rat) \<Rightarrow> (nat \<Rightarrow> nat) \<Rightarrow> ('w mw, string) io" where
  "fresh_request_id T rnd =
     bindE (time_now T) (\<lambda>now s. (Inr (generate_ulid (trunc_rat (now * 1000) * 1000) (rnd (mw_reads s) mod 2 ^ 80)), s))"

definition correlation_dispatch :: "(nat \<Rightarrow> rat) \<Rightarrow> (nat \<Rightarrow> nat) \<Rightarrow>
    (string \<Rightarrow> http_request \<Rightarrow> ('w mw, http_response) io) \<Rightarrow> http_request \<Rightarrow> ('w mw, http_response) io" where
  "correlation_dispatch T rnd call_next request =
     (let incoming = strip (case header_get request ''X-Request-Id'' of None \<Rightarrow> [] | Some v \<Rightarrow> v) in
      bindE (if incoming \<noteq> [] then retE incoming else fresh_request_id T rnd) (\<lambda>request_id s.
        let (r, s') = bindE (call_next request_id request)
              (\<lambda>response. retE (set_header ''X-Request-Id'' request_id response)) (s\<lparr>mw_ctx := Some request_id\<rparr>)
        in (r, s'\<lparr>mw_ctx := mw_ctx s\<rparr>)))"

section \<open>Request validation\<close>

definition default_max_bytes :: int where
  "default_max_bytes = 10485760"

definition size_dispatch :: "int \<Rightarrow> (http_request \<Rightarrow> ('w, http_response) io) \<Rightarrow> http_request \<Rightarrow> ('w, http_response) io" where
  "size_dispatch max_bytes call_next request =
     (case header_get request ''content-length'' of
        None \<Rightarrow> call_next request
      | Some content_length \<Rightarrow>
          (case int_of_str content_length of
             None \<Rightarrow> retE (json_response 400 [(''detail'', PStr ''Invalid Content-Length header'')])
           | Some declared \<Rightarrow>
               if max_bytes < declared
               then retE (json_response 413 [(''detail'', PStr ''Request body too large'')])
               else call_next request))"

definition missing_headers :: "string list \<Rightarrow> http_request \<Rightarrow> string list" where
  "missing_headers required request =
     (let present = map (\<lambda>(k, v). lower k) (hq_headers request)
      in filter (\<lambda>name. name \<notin> set present) (map lower required))"

definition headers_dispatch :: "string list \<Rightarrow> (http_request \<Rightarrow> ('w, http_response) io) \<Rightarrow> http_request \<Rightarrow>
    ('w, http_response) io" where
  "headers_dispatch required call_next request =
     (let missing = missing_headers required request
      in if missing \<noteq> []
         then retE (json_response 400 [(''detail'', PStr ''Missing required headers''), (''missing'', PList (map PStr missing))])
         else call_next request)"

section \<open>The audit decorator\<close>

text \<open>A handler's argument, and its return value with the status code it carries if any.\<close>

datatype handler_arg = RequestArg http_request | OtherArg

datatype handler_result = Response int item | Plain pyval

fun find_request :: "handler_arg list \<Rightarrow> http_request option" where
  "find_request [] = None"
| "find_request (RequestArg r # args) = Some r"
| "find_request (OtherArg # args) = find_request args"

definition resolve_actor :: "(pyval \<Rightarrow> string) \<Rightarrow> http_request option \<Rightarrow> string \<times> string" where
  "resolve_actor show_val req =
     (case req of
        Some r \<Rightarrow>
          (case hq_user r of
             ObjUser attrs \<Rightarrow>
               (let sub = dget attrs ''sub''
                in if sub = PNone then (''anonymous'', ''anonymous'')
                   else (case as_str sub of Some s \<Rightarrow> s | None \<Rightarrow> show_val sub, ''user''))
           | _ \<Rightarrow> (''anonymous'', ''anonymous''))
      | None \<Rightarrow> (''anonymous'', ''anonymous''))"

definition domain_of :: "string \<Rightarrow> string" where
  "domain_of action = hd (split_char (CHR ''.'') 1 action)"

fun status_code_of :: "handler_result \<Rightarrow> int" where
  "status_code_of (Response code body) = code"
| "status_code_of (Plain v) = 200"

definition decorator_args :: "(pyval \<Rightarrow> string) \<Rightarrow> string \<Rightarrow> string \<Rightarrow> string \<Rightarrow> http_request option \<Rightarrow> item \<Rightarrow> audit_args" where
  "decorator_args show_val action source_service actor_type req outcome =
     (let (actor_id, resolved) = resolve_actor show_val req;
          path = (case req of None \<Rightarrow> [] | Some r \<Rightarrow> hq_path r);
          verb = (case req of None \<Rightarrow> [] | Some r \<Rightarrow> hq_method r)
      in \<lparr>ra_actor_id = actor_id, ra_actor_type = (if resolved = ''anonymous'' then resolved else actor_type),
          ra_action = action, ra_resource_type = domain_of action,
          ra_resource_id = (if path = [] then domain_of action else path), ra_source_service = source_service,
          ra_details = [(''path'', PStr path), (''method'', PStr verb)] @ outcome\<rparr>)"

definition audited :: "'t env \<Rightarrow> (pyval \<Rightarrow> string) \<Rightarrow> string \<Rightarrow> string \<Rightarrow> string \<Rightarrow> string \<Rightarrow>
    (handler_arg list \<Rightarrow> ('t world, handler_result) io) \<Rightarrow> handler_arg list \<Rightarrow> ('t world, handler_result) io" where
  "audited E show_val action source_service actor_type request_id func args =
     (let req = find_request args;
          given = (if request_id = [] then None else Some request_id);
          note = (\<lambda>outcome. record_event_as E given (decorator_args show_val action source_service actor_type req outcome))
      in tryE (func args)
           (\<lambda>e. bindE (note [(''status'', PStr ''failed'')]) (\<lambda>_. raiseE e))
           (\<lambda>response. bindE (note [(''status_code'', PInt (status_code_of response)), (''status'', PStr ''success'')]) (\<lambda>_.
              retE response)))"

section \<open>Origins\<close>

definition split_all :: "char \<Rightarrow> string \<Rightarrow> string list" where
  "split_all c s = split_char c (length s) s"

definition cors_origins :: "string option \<Rightarrow> string list" where
  "cors_origins raw =
     filter (\<lambda>o'. o' \<noteq> []) (map strip (split_all (CHR '','') (case raw of None \<Rightarrow> [] | Some v \<Rightarrow> v)))"

record cors_config =
  cors_allow_origins :: "string list"
  cors_allow_methods :: "string list"
  cors_allow_credentials :: bool
  cors_allow_headers :: "string list"

definition make_cors_middleware :: "string list \<Rightarrow> string list option \<Rightarrow> bool \<Rightarrow> cors_config" where
  "make_cors_middleware allowed_origins allowed_methods allow_credentials =
     \<lparr>cors_allow_origins = allowed_origins,
      cors_allow_methods = (case allowed_methods of None \<Rightarrow> [''GET'', ''POST'', ''DELETE'', ''OPTIONS''] | Some m \<Rightarrow> m),
      cors_allow_credentials = allow_credentials, cors_allow_headers = [''*'']\<rparr>"

definition cors_from_env :: "(string \<Rightarrow> string option) \<Rightarrow> string \<Rightarrow> string list option \<Rightarrow> bool \<Rightarrow> cors_config" where
  "cors_from_env env env_var allowed_methods allow_credentials =
     make_cors_middleware (cors_origins (env env_var)) allowed_methods allow_credentials"


section \<open>The bound of the rate limiter\<close>

text \<open>
  An application that writes down, for every request that reaches it, the key and the time of its hit,
  and a run of the limiter in front of it.
\<close>

definition log_app :: "(http_request \<Rightarrow> string) \<Rightarrow> http_request \<Rightarrow> ((string \<times> rat) list mw, http_response) io" where
  "log_app key_fn req s =
     (Inr (json_response 200 []), s\<lparr>mw_app := mw_app s @ [(key_fn req, last (mw_buckets s (key_fn req)))]\<rparr>)"

definition serve_requests :: "(nat \<Rightarrow> rat) \<Rightarrow> (http_request \<Rightarrow> string) \<Rightarrow> int \<Rightarrow> int \<Rightarrow> http_request list \<Rightarrow>
    (string \<times> rat) list mw \<Rightarrow> (string \<times> rat) list mw" where
  "serve_requests T key_fn limit window reqs s =
     foldl (\<lambda>s r. snd (rate_dispatch T (memory_hit T) key_fn limit window (log_app key_fn) r s)) s reqs"

definition fresh_process :: "'w \<Rightarrow> 'w mw" where
  "fresh_process w = \<lparr>mw_app = w, mw_buckets = (\<lambda>_. []), mw_reads = 0, mw_ctx = None\<rparr>"

definition hits_after :: "string \<Rightarrow> rat \<Rightarrow> (string \<times> rat) list \<Rightarrow> nat" where
  "hits_after key a hs = length (filter (\<lambda>(k, t). k = key \<and> a < t) hs)"

definition hits_in :: "string \<Rightarrow> rat \<Rightarrow> rat \<Rightarrow> (string \<times> rat) list \<Rightarrow> nat" where
  "hits_in key a b hs = length (filter (\<lambda>(k, t). k = key \<and> a < t \<and> t \<le> b) hs)"

lemma rate_dispatch_memory:
  assumes "b = hit_bucket (of_int window) (T (mw_reads s)) (mw_buckets s (key_fn req))"
  shows "rate_dispatch T (memory_hit T) key_fn limit window call_next req s =
    (let s1 = s\<lparr>mw_reads := Suc (mw_reads s), mw_buckets := (mw_buckets s)(key_fn req := b)\<rparr> in
     if limit < int (length b)
     then (Inr (too_many_requests (retry_after window (T (Suc (mw_reads s))) (hd b))), s1\<lparr>mw_reads := Suc (Suc (mw_reads s))\<rparr>)
     else call_next req s1)"
  using assms
  by (simp add: rate_dispatch_def memory_hit_def bindE_def time_now_def Let_def retE_def)

definition limiter_inv :: "(nat \<Rightarrow> rat) \<Rightarrow> int \<Rightarrow> int \<Rightarrow> (string \<times> rat) list mw \<Rightarrow> bool" where
  "limiter_inv T limit window s \<longleftrightarrow>
     (\<forall>key x. T (mw_reads s) - of_int window \<le> x \<longrightarrow>
        hits_after key x (mw_app s) \<le> length (filter (\<lambda>t. x < t) (mw_buckets s key))) \<and>
     (\<forall>(k, t) \<in> set (mw_app s). t \<le> T (mw_reads s)) \<and>
     (\<forall>key a. int (hits_in key a (a + of_int window) (mw_app s)) \<le> limit)"

lemma filter_hit_bucket:
  assumes "now - window \<le> x"
  shows "filter (\<lambda>t. x < t) (hit_bucket window now b) = filter (\<lambda>t. x < t) b @ (if x < now then [now] else [])"
proof -
  have "filter (\<lambda>t. x < t) (dropWhile (\<lambda>t. t \<le> now - window) b) = filter (\<lambda>t. x < t) b"
    using assms by (induction b) auto
  then show ?thesis by (simp add: hit_bucket_def)
qed

lemma hits_in_snoc:
  "hits_in key a b (hs @ [(k, t)]) = hits_in key a b hs + (if k = key \<and> a < t \<and> t \<le> b then 1 else 0)"
  "hits_after key a (hs @ [(k, t)]) = hits_after key a hs + (if k = key \<and> a < t then 1 else 0)"
  by (simp_all add: hits_in_def hits_after_def)

lemma hits_in_le_after: "hits_in key a b hs \<le> hits_after key a hs"
  unfolding hits_in_def hits_after_def by (induction hs) auto

lemma limiter_inv_rejected:
  assumes "mono T" "limiter_inv T limit window s" "b = hit_bucket (of_int window) (T (mw_reads s)) (mw_buckets s k)"
  shows "limiter_inv T limit window (s\<lparr>mw_buckets := (mw_buckets s)(k := b), mw_reads := Suc (Suc (mw_reads s))\<rparr>)"
proof -
  have up: "T (mw_reads s) \<le> T (Suc (Suc (mw_reads s)))" using assms(1) by (simp add: mono_def)
  show ?thesis
    unfolding limiter_inv_def
  proof (intro conjI allI impI)
    fix key x
    assume x: "T (mw_reads (s\<lparr>mw_buckets := (mw_buckets s)(k := b), mw_reads := Suc (Suc (mw_reads s))\<rparr>)) - of_int window \<le> x"
    then have le: "T (mw_reads s) - of_int window \<le> x" using up by simp
    with assms(2) have "hits_after key x (mw_app s) \<le> length (filter (\<lambda>t. x < t) (mw_buckets s key))"
      by (simp add: limiter_inv_def)
    with filter_hit_bucket [OF le] assms(3)
    show "hits_after key x (mw_app (s\<lparr>mw_buckets := (mw_buckets s)(k := b), mw_reads := Suc (Suc (mw_reads s))\<rparr>)) \<le>
        length (filter (\<lambda>t. x < t) (mw_buckets (s\<lparr>mw_buckets := (mw_buckets s)(k := b), mw_reads := Suc (Suc (mw_reads s))\<rparr>) key))"
      by auto
  qed (use assms(2) up in \<open>auto simp: limiter_inv_def\<close>)
qed

lemma limiter_inv_admitted:
  assumes "mono T" "limiter_inv T limit window s" "b = hit_bucket (of_int window) (T (mw_reads s)) (mw_buckets s k)"
    and "int (length b) \<le> limit"
  shows "limiter_inv T limit window (s\<lparr>mw_reads := Suc (mw_reads s), mw_buckets := (mw_buckets s)(k := b),
     mw_app := mw_app s @ [(k, T (mw_reads s))]\<rparr>)"
proof -
  let ?now = "T (mw_reads s)" and ?W = "of_int window :: rat"
  have up: "?now \<le> T (Suc (mw_reads s))" using assms(1) by (simp add: mono_def)
  have step: "hits_after key x (mw_app s @ [(k, ?now)]) \<le> length (filter (\<lambda>t. x < t) (((mw_buckets s)(k := b)) key))"
    if "?now - ?W \<le> x" for key x
  proof -
    from that assms(2) have "hits_after key x (mw_app s) \<le> length (filter (\<lambda>t. x < t) (mw_buckets s key))"
      by (simp add: limiter_inv_def)
    with filter_hit_bucket [OF that] assms(3) show ?thesis by (auto simp: hits_in_snoc)
  qed
  have bound: "int (hits_in key a (a + ?W) (mw_app s @ [(k, ?now)])) \<le> limit" for key a
  proof (cases "k = key \<and> a < ?now \<and> ?now \<le> a + ?W")
    case True
    then have "?now - ?W \<le> a" by simp
    from step [OF this, of key] have "hits_after key a (mw_app s @ [(k, ?now)]) \<le> length b"
      using True order_trans [OF _ length_filter_le [of "\<lambda>t. a < t" b]] by simp
    with hits_in_le_after [of key a "a + ?W" "mw_app s @ [(k, ?now)]"] assms(4) show ?thesis by linarith
  next
    case False
    then have "hits_in key a (a + ?W) (mw_app s @ [(k, ?now)]) = hits_in key a (a + ?W) (mw_app s)"
      by (auto simp: hits_in_snoc)
    with assms(2) show ?thesis by (simp add: limiter_inv_def)
  qed
  show ?thesis
    unfolding limiter_inv_def
    using step bound up assms(2) by (auto simp: limiter_inv_def)
qed

lemma limiter_inv_step:
  assumes "mono T" "limiter_inv T limit window s"
  shows "limiter_inv T limit window (snd (rate_dispatch T (memory_hit T) key_fn limit window (log_app key_fn) req s))"
proof -
  let ?b = "hit_bucket (of_int window) (T (mw_reads s)) (mw_buckets s (key_fn req))"
  note d = rate_dispatch_memory [OF refl, of T key_fn limit window "log_app key_fn" req s]
  show ?thesis
  proof (cases "limit < int (length ?b)")
    case True
    with limiter_inv_rejected [OF assms refl, of "key_fn req"] show ?thesis by (simp add: d Let_def)
  next
    case False
    have "last ?b = T (mw_reads s)" by (simp add: hit_bucket_def)
    with False limiter_inv_admitted [OF assms refl, of "key_fn req"] show ?thesis
      by (simp add: d Let_def log_app_def)
  qed
qed

lemma limiter_inv_run:
  "mono T \<Longrightarrow> limiter_inv T limit window s \<Longrightarrow> limiter_inv T limit window (serve_requests T key_fn limit window reqs s)"
  unfolding serve_requests_def by (induction reqs arbitrary: s) (auto intro: limiter_inv_step)

lemma limiter_inv_fresh: "0 \<le> limit \<Longrightarrow> limiter_inv T limit window (fresh_process [])"
  by (simp add: limiter_inv_def fresh_process_def hits_after_def hits_in_def)

text \<open>
  C9. The limiter bounds every window, not only those that start with a request: over any history of
  requests and a clock that does not run backwards, no key has more than \<open>limit\<close> requests admitted in any
  span of \<open>window\<close> seconds.
\<close>

theorem rate_limit_bound:
  assumes "mono T" "0 \<le> limit"
  shows "int (hits_in key a (a + of_int window) (mw_app (serve_requests T key_fn limit window reqs (fresh_process [])))) \<le> limit"
  using limiter_inv_run [OF assms(1) limiter_inv_fresh [OF assms(2)]] by (simp add: limiter_inv_def)

lemma dropWhile_sorted: "sorted b \<Longrightarrow> dropWhile (\<lambda>t. t \<le> c) b = filter (\<lambda>t. c < t) (b :: rat list)"
proof (induction b)
  case (Cons x b)
  show ?case
  proof (cases "x \<le> c")
    case False
    with Cons.prems have "\<forall>t \<in> set (x # b). c < t" by auto
    then have "filter (\<lambda>t. c < t) (x # b) = x # b" by (simp add: filter_id_conv)
    with False show ?thesis by simp
  qed (use Cons in simp)
qed simp

text \<open>The requests a process was sent, admitted or not, with their keys and the times at which it took them.\<close>

fun arrivals :: "(nat \<Rightarrow> rat) \<Rightarrow> (http_request \<Rightarrow> string) \<Rightarrow> int \<Rightarrow> int \<Rightarrow> http_request list \<Rightarrow>
    (string \<times> rat) list mw \<Rightarrow> (string \<times> rat) list" where
  "arrivals T key_fn limit window [] s = []"
| "arrivals T key_fn limit window (req # reqs) s =
     (key_fn req, T (mw_reads s)) #
     arrivals T key_fn limit window reqs (snd (rate_dispatch T (memory_hit T) key_fn limit window (log_app key_fn) req s))"

definition counts_arrivals :: "(nat \<Rightarrow> rat) \<Rightarrow> int \<Rightarrow> (string \<times> rat) list \<Rightarrow> (string \<times> rat) list mw \<Rightarrow> bool" where
  "counts_arrivals T window hs s \<longleftrightarrow>
     (\<forall>key. sorted (mw_buckets s key) \<and> (\<forall>t \<in> set (mw_buckets s key). t \<le> T (mw_reads s)) \<and>
        (\<forall>x. T (mw_reads s) - of_int window \<le> x \<longrightarrow>
           hits_after key x hs = length (filter (\<lambda>t. x < t) (mw_buckets s key))))"

lemma limiter_step_state:
  assumes "s' = snd (rate_dispatch T (memory_hit T) key_fn limit window (log_app key_fn) req s)"
  shows "mw_buckets s' = (mw_buckets s)(key_fn req := hit_bucket (of_int window) (T (mw_reads s)) (mw_buckets s (key_fn req)))"
    and "mw_reads s \<le> mw_reads s'"
  unfolding assms by (simp_all add: rate_dispatch_memory [OF refl] Let_def log_app_def)

lemma sorted_hit_bucket:
  assumes "sorted b" "\<forall>t \<in> set b. t \<le> now"
  shows "sorted (hit_bucket window now b)" "\<forall>t \<in> set (hit_bucket window now b). t \<le> now"
    and "hit_bucket window now b = filter (\<lambda>t. now - window < t) b @ [now]"
  using assms
  by (auto simp: hit_bucket_def dropWhile_sorted sorted_append sorted_filter [of "\<lambda>x. x", simplified])

lemma counts_arrivals_step:
  assumes "mono T" "counts_arrivals T window hs s"
  shows "counts_arrivals T window (hs @ [(key_fn req, T (mw_reads s))])
    (snd (rate_dispatch T (memory_hit T) key_fn limit window (log_app key_fn) req s))"
proof -
  let ?s' = "snd (rate_dispatch T (memory_hit T) key_fn limit window (log_app key_fn) req s)"
  note st = limiter_step_state [where T = T and key_fn = key_fn and limit = limit and window = window and req = req and s = s, OF refl]
  have up: "T (mw_reads s) \<le> T (mw_reads ?s')" using assms(1) st(2) by (simp add: mono_def)
  have old: "sorted (mw_buckets s key)" "\<forall>t \<in> set (mw_buckets s key). t \<le> T (mw_reads s)"
    "T (mw_reads s) - of_int window \<le> x \<Longrightarrow> hits_after key x hs = length (filter (\<lambda>t. x < t) (mw_buckets s key))" for key x
    using assms(2) by (auto simp: counts_arrivals_def)
  show ?thesis
    unfolding counts_arrivals_def
  proof (rule allI, intro conjI)
    fix key
    show "sorted (mw_buckets ?s' key)" using sorted_hit_bucket(1) [OF old(1,2)] old(1) by (simp add: st(1))
    show "\<forall>t \<in> set (mw_buckets ?s' key). t \<le> T (mw_reads ?s')"
    proof
      fix t assume "t \<in> set (mw_buckets ?s' key)"
      then have "t \<le> T (mw_reads s)"
        using sorted_hit_bucket(2) [OF old(1,2)] old(2) by (auto simp: st(1) split: if_splits)
      with up show "t \<le> T (mw_reads ?s')" by simp
    qed
    show "\<forall>x. T (mw_reads ?s') - of_int window \<le> x \<longrightarrow>
        hits_after key x (hs @ [(key_fn req, T (mw_reads s))]) = length (filter (\<lambda>t. x < t) (mw_buckets ?s' key))"
    proof (intro allI impI)
      fix x assume "T (mw_reads ?s') - of_int window \<le> x"
      with up have x: "T (mw_reads s) - of_int window \<le> x" by simp
      show "hits_after key x (hs @ [(key_fn req, T (mw_reads s))]) = length (filter (\<lambda>t. x < t) (mw_buckets ?s' key))"
        using old(3) [OF x] filter_hit_bucket [OF x] by (simp add: st(1) hits_in_snoc)
    qed
  qed
qed

lemma counts_arrivals_run:
  "mono T \<Longrightarrow> counts_arrivals T window hs s \<Longrightarrow>
     counts_arrivals T window (hs @ arrivals T key_fn limit window reqs s) (serve_requests T key_fn limit window reqs s)"
proof (induction reqs arbitrary: hs s)
  case (Cons req reqs)
  from Cons.IH [OF Cons.prems(1) counts_arrivals_step [OF Cons.prems, of key_fn req limit]]
  show ?case by (simp add: serve_requests_def)
qed (simp add: serve_requests_def)

text \<open>
  C38. The limiter admits by the requests of the last window, and by nothing else. After any history of
  requests and for a clock that does not run backwards, the next request of a client reaches the application
  when its key made fewer than \<open>limit\<close> requests (admitted or rejected ones) in the \<open>window\<close> seconds before it, whatever
  other clients and older requests did; with \<open>limit\<close> or more it is answered 429. So a client that was
  rejected is admitted again as soon as its requests have left the window.
\<close>

theorem quiet_client_admitted:
  assumes "mono T" "s = serve_requests T key_fn limit window reqs (fresh_process [])"
    and "recent = hits_after (key_fn req) (T (mw_reads s) - of_int window) (arrivals T key_fn limit window reqs (fresh_process []))"
  shows "if int recent < limit
    then \<exists>b. rate_dispatch T (memory_hit T) key_fn limit window call_next req s =
      call_next req (s\<lparr>mw_reads := Suc (mw_reads s), mw_buckets := (mw_buckets s)(key_fn req := b)\<rparr>)
    else \<exists>n. fst (rate_dispatch T (memory_hit T) key_fn limit window call_next req s) = Inr (too_many_requests n)"
proof -
  have "counts_arrivals T window [] (fresh_process [])" by (simp add: counts_arrivals_def fresh_process_def hits_after_def)
  from counts_arrivals_run [OF assms(1) this, of key_fn limit reqs]
  have inv: "counts_arrivals T window (arrivals T key_fn limit window reqs (fresh_process [])) s" by (simp add: assms(2))
  then have "length (hit_bucket (of_int window) (T (mw_reads s)) (mw_buckets s (key_fn req))) = Suc recent"
    using sorted_hit_bucket(3) [of "mw_buckets s (key_fn req)" "T (mw_reads s)" "of_int window"]
    by (simp add: counts_arrivals_def assms(3))
  then show ?thesis by (auto simp: rate_dispatch_memory [OF refl] Let_def)
qed


section \<open>The Redis store\<close>

text \<open>
  What the code relies on: the pipeline drops the members with a score up to the cutoff, adds the new
  member, and answers with the lowest score and the number of members. \<open>Z z key\<close> is the sorted set a
  server state holds under a key. The expiry the last command sets only forgets a key when all its
  members have left the window, so it is not part of the law.
\<close>

definition zset_hit :: "(string \<Rightarrow> rat option) \<Rightarrow> rat \<Rightarrow> string \<Rightarrow> rat \<Rightarrow> (string \<Rightarrow> rat option)" where
  "zset_hit zs cutoff m now =
     (\<lambda>k. case zs k of None \<Rightarrow> None | Some sc \<Rightarrow> if 0 \<le> sc \<and> sc \<le> cutoff then None else Some sc)(m \<mapsto> now)"

definition redis_ok :: "'z redis \<Rightarrow> ('z \<Rightarrow> string \<Rightarrow> string \<Rightarrow> rat option) \<Rightarrow> bool" where
  "redis_ok pipe Z \<longleftrightarrow>
     (\<forall>key cutoff m now ex z range count z'. pipe key cutoff m now ex z = (Inr (range, count), z') \<longrightarrow>
        (let new = zset_hit (Z z key) cutoff m now in
         Z z' = (Z z)(key := new) \<and> count = int (card (dom new)) \<and>
         (\<exists>lowest. range = [lowest] \<and> lowest \<in> ran new \<and> (\<forall>sc \<in> ran new. lowest \<le> sc))))"

lemma zset_hit_Some:
  "zset_hit zs c m now k = Some t \<longleftrightarrow> (if k = m then t = now else zs k = Some t \<and> \<not> (0 \<le> t \<and> t \<le> c))"
  by (auto simp: zset_hit_def split: option.splits)

text \<open>A bucket of the in-process store and the sorted set that stands for it.\<close>

definition bucket_set :: "rat list \<Rightarrow> string \<Rightarrow> rat option" where
  "bucket_set b = map_of (map (\<lambda>t. (redis_member t, t)) b)"

definition bucket_wf :: "rat list \<Rightarrow> bool" where
  "bucket_wf b \<longleftrightarrow> sorted b \<and> distinct (map redis_member b) \<and> (\<forall>t \<in> set b. 0 \<le> t)"

lemma bucket_set_Some: "distinct (map redis_member b) \<Longrightarrow> bucket_set b k = Some t \<longleftrightarrow> t \<in> set b \<and> redis_member t = k"
  by (auto simp: bucket_set_def map_of_eq_Some_iff [where xys = "map (\<lambda>t. (redis_member t, t)) b"] comp_def)

lemma zset_hit_bucket:
  assumes "bucket_wf b" "sorted (b @ [now])" "0 \<le> now" "redis_member now \<notin> redis_member ` set b"
  shows "zset_hit (bucket_set b) (now - window) (redis_member now) now = bucket_set (hit_bucket window now b)"
    and "bucket_wf (hit_bucket window now b)"
proof -
  have d: "hit_bucket window now b = filter (\<lambda>t. now - window < t) b @ [now]"
    using assms(1) by (simp add: hit_bucket_def bucket_wf_def dropWhile_sorted)
  have wf: "distinct (map redis_member b)" "\<forall>t \<in> set b. 0 \<le> t" using assms(1) by (auto simp: bucket_wf_def)
  show new: "bucket_wf (hit_bucket window now b)"
    using assms by (auto simp: d bucket_wf_def sorted_append sorted_filter [of "\<lambda>x. x", simplified] distinct_map inj_on_def)
  have dn: "distinct (map redis_member (hit_bucket window now b))" using new by (simp add: bucket_wf_def)
  show "zset_hit (bucket_set b) (now - window) (redis_member now) now = bucket_set (hit_bucket window now b)"
  proof
    fix k
    have "zset_hit (bucket_set b) (now - window) (redis_member now) now k = Some t \<longleftrightarrow>
        bucket_set (hit_bucket window now b) k = Some t" for t
      unfolding bucket_set_Some [OF dn] zset_hit_Some bucket_set_Some [OF wf(1)] using wf(2) assms(4)
      by (auto simp: d image_iff)
    then show "zset_hit (bucket_set b) (now - window) (redis_member now) now k = bucket_set (hit_bucket window now b) k"
      by (metis option.exhaust)
  qed
qed

lemma bucket_set_size:
  assumes "bucket_wf b"
  shows "card (dom (bucket_set b)) = length b" "ran (bucket_set b) = set b"
proof -
  let ?l = "map (\<lambda>t. (redis_member t, t)) b"
  have d: "distinct (map fst ?l)" using assms by (simp add: bucket_wf_def comp_def)
  have "dom (bucket_set b) = set (map redis_member b)" by (force simp: bucket_set_def dom_map_of_conv_image_fst)
  then show "card (dom (bucket_set b)) = length b"
    using assms by (simp only: bucket_wf_def distinct_card length_map)
  show "ran (bucket_set b) = set b" using ran_distinct [OF d] by (force simp: bucket_set_def)
qed

lemma redis_hit_simulates:
  assumes "redis_ok pipe Z" "Z z key = bucket_set b" "bucket_wf b" "sorted (b @ [now])" "0 \<le> now"
    and "redis_member now \<notin> redis_member ` set b" "redis_hit pipe now key window z = (Inr r, z')"
  defines "b' \<equiv> hit_bucket (of_int window) now b"
  shows "r = (int (length b'), hd b') \<and> Z z' = (Z z)(key := bucket_set b') \<and> bucket_wf b'"
proof -
  note hit = zset_hit_bucket [OF assms(3-6), of "of_int window", folded b'_def]
  obtain range count where p: "pipe key (now - of_int window) (redis_member now) now (window + 1) z = (Inr (range, count), z')"
    and r: "r = (count, case range of [] \<Rightarrow> now | oldest # _ \<Rightarrow> oldest)"
    using assms(7) by (auto simp: redis_hit_def bindE_Inr_iff retE_def)
  have law: "Z z' = (Z z)(key := bucket_set b')" "count = int (card (dom (bucket_set b')))"
    "\<exists>lowest. range = [lowest] \<and> lowest \<in> ran (bucket_set b') \<and> (\<forall>sc \<in> ran (bucket_set b'). lowest \<le> sc)"
    using assms(1) p assms(2) hit(1) unfolding redis_ok_def Let_def by metis+
  have ne: "b' \<noteq> []" by (simp add: b'_def hit_bucket_def)
  obtain lowest where l: "range = [lowest]" "lowest \<in> set b'" "\<forall>sc \<in> set b'. lowest \<le> sc"
    using law(3) bucket_set_size(2) [OF hit(2)] by auto
  have "sorted b'" using hit(2) by (simp add: bucket_wf_def)
  with ne l have "lowest = hd b'" by (cases b') (auto intro: order_antisym)
  with r l law bucket_set_size(1) [OF hit(2)] hit(2) show ?thesis by simp
qed

text \<open>A history of hits \<open>(key, time)\<close> on either store, with the answers it gives.\<close>

fun memory_serve :: "int \<Rightarrow> (string \<times> rat) list \<Rightarrow> ('w mw, (int \<times> rat) list) io" where
  "memory_serve window [] = retE []"
| "memory_serve window ((key, t) # hs) =
     bindE (memory_hit (\<lambda>_. t) key window) (\<lambda>r. bindE (memory_serve window hs) (\<lambda>rs. retE (r # rs)))"

fun redis_serve :: "'z redis \<Rightarrow> int \<Rightarrow> (string \<times> rat) list \<Rightarrow> ('z, (int \<times> rat) list) io" where
  "redis_serve pipe window [] = retE []"
| "redis_serve pipe window ((key, t) # hs) =
     bindE (redis_hit pipe t key window) (\<lambda>r. bindE (redis_serve pipe window hs) (\<lambda>rs. retE (r # rs)))"

definition stores_agree :: "('z \<Rightarrow> string \<Rightarrow> string \<Rightarrow> rat option) \<Rightarrow> (string \<times> rat) list \<Rightarrow> 'w mw \<Rightarrow> 'z \<Rightarrow> bool" where
  "stores_agree Z todo s z \<longleftrightarrow> (\<forall>key. Z z key = bucket_set (mw_buckets s key) \<and> bucket_wf (mw_buckets s key) \<and>
     (\<forall>t u. (key, t) \<in> set todo \<longrightarrow> u \<in> set (mw_buckets s key) \<longrightarrow> u \<le> t \<and> redis_member u \<noteq> redis_member t))"

text \<open>A history in which every hit of a key comes in a later microsecond than the hits of the key before it.\<close>

definition spaced_hits :: "(string \<times> rat) list \<Rightarrow> bool" where
  "spaced_hits hs \<longleftrightarrow> sorted_wrt (\<lambda>(k, t) (k', t'). k = k' \<longrightarrow> t \<le> t' \<and> redis_member t \<noteq> redis_member t') hs"

lemma redis_serve_simulates:
  assumes "redis_ok pipe Z"
  shows "stores_agree Z hs s z \<Longrightarrow> spaced_hits hs \<Longrightarrow> \<forall>(k, t) \<in> set hs. 0 \<le> t \<Longrightarrow>
    redis_serve pipe window hs z = (Inr rs, z') \<Longrightarrow> fst (memory_serve window hs s) = Inr rs"
proof (induction hs arbitrary: s z rs)
  case (Cons h hs)
  obtain key t where h: "h = (key, t)" by fastforce
  let ?b = "mw_buckets s key"
  let ?b' = "hit_bucket (of_int window) t ?b"
  let ?s = "s\<lparr>mw_reads := Suc (mw_reads s), mw_buckets := (mw_buckets s)(key := ?b')\<rparr>"
  from Cons.prems(4) h obtain r z1 rs1 where r: "redis_hit pipe t key window z = (Inr r, z1)"
    and rest: "redis_serve pipe window hs z1 = (Inr rs1, z')" and rs: "rs = r # rs1"
    by (auto simp: bindE_Inr_iff retE_def)
  have agree: "Z z key = bucket_set ?b" "bucket_wf ?b" "\<forall>u \<in> set ?b. u \<le> t \<and> redis_member u \<noteq> redis_member t"
    using Cons.prems(1) h by (auto simp: stores_agree_def)
  have st: "sorted (?b @ [t])" "0 \<le> t" "redis_member t \<notin> redis_member ` set ?b"
    using agree Cons.prems(3) h by (auto simp: bucket_wf_def sorted_append)
  note sim = redis_hit_simulates [OF assms agree(1,2) st r]
  have sub: "set ?b' \<subseteq> insert t (set ?b)" by (auto simp: hit_bucket_def dest: set_dropWhileD)
  have "stores_agree Z hs ?s z1"
    unfolding stores_agree_def
  proof (rule allI, intro conjI)
    fix k
    show "Z z1 k = bucket_set (mw_buckets ?s k)" "bucket_wf (mw_buckets ?s k)"
      using sim Cons.prems(1) by (auto simp: stores_agree_def)
    have later: "t \<le> t' \<and> redis_member t \<noteq> redis_member t'" if "(key, t') \<in> set hs" for t'
      using Cons.prems(2) h that by (auto simp: spaced_hits_def)
    have old: "u \<le> t' \<and> redis_member u \<noteq> redis_member t'" if "(k, t') \<in> set hs" "u \<in> set (mw_buckets s k)" for t' u
      using Cons.prems(1) that by (simp add: stores_agree_def)
    have "u \<le> t' \<and> redis_member u \<noteq> redis_member t'" if "(k, t') \<in> set hs" "u \<in> set (mw_buckets ?s k)" for t' u
    proof (cases "k = key \<and> u = t")
      case True
      with later that(1) show ?thesis by simp
    next
      case False
      with that(2) sub have "u \<in> set (mw_buckets s k)" by (cases "k = key") auto
      with old that(1) show ?thesis by blast
    qed
    then show "\<forall>t' u. (k, t') \<in> set hs \<longrightarrow> u \<in> set (mw_buckets ?s k) \<longrightarrow> u \<le> t' \<and> redis_member u \<noteq> redis_member t'"
      by blast
  qed
  from Cons.IH [OF this _ _ rest] Cons.prems(2,3) h
  have "fst (memory_serve window hs ?s) = Inr rs1" by (auto simp: spaced_hits_def)
  then obtain s' where "memory_serve window hs ?s = (Inr rs1, s')" by (metis prod.collapse)
  with sim h rs show ?case
    by (simp add: memory_hit_def bindE_def time_now_def Let_def retE_def)
qed (simp add: retE_def)

text \<open>
  C37. The Redis store refines the in-process store: on every history in which the hits of each key come in
  time order and no two hits of one key fall on one microsecond (hits of different keys may), started empty, it
  gives the same counts and the same oldest times.
\<close>

theorem redis_refines_memory:
  assumes "redis_ok pipe Z" "Z z = (\<lambda>_ _. None)" "spaced_hits hs"
    and "\<forall>(k, t) \<in> set hs. 0 \<le> t" "redis_serve pipe window hs z = (Inr rs, z')"
  shows "fst (memory_serve window hs (fresh_process w)) = Inr rs"
proof (rule redis_serve_simulates [OF assms(1) _ assms(3-5)])
  show "stores_agree Z hs (fresh_process w) z"
    using assms(2) by (auto simp: stores_agree_def fresh_process_def bucket_set_def bucket_wf_def)
qed

text \<open>Two hits with the same member are one member of the set: the second is not counted.\<close>

lemma redis_collapses_hits:
  assumes "redis_ok pipe Z" "redis_member t' = redis_member t" "0 < window" "t \<le> t'" "t' - of_int window < t"
    and "\<forall>m sc. Z z key m = Some sc \<longrightarrow> t' - of_int window < sc"
    and "redis_hit pipe t key window z = (Inr (n, o1), z1)" "redis_hit pipe t' key window z1 = (Inr (n', o2), z2)"
  shows "n' = n"
proof -
  let ?c = "of_int window :: rat"
  have law: "\<exists>range. Z z2 = (Z z1)(key := zset_hit (Z z1 key) (t' - ?c) (redis_member t) t') \<and>
      n' = int (card (dom (zset_hit (Z z1 key) (t' - ?c) (redis_member t) t')))"
    using assms(1,2,8) by (fastforce simp: redis_hit_def bindE_Inr_iff retE_def redis_ok_def Let_def)
  have first: "Z z1 = (Z z)(key := zset_hit (Z z key) (t - ?c) (redis_member t) t) \<and>
      n = int (card (dom (zset_hit (Z z key) (t - ?c) (redis_member t) t)))"
    using assms(1,7) by (fastforce simp: redis_hit_def bindE_Inr_iff retE_def redis_ok_def Let_def)
  let ?zs = "zset_hit (Z z key) (t - ?c) (redis_member t) t"
  have low: "t' - ?c < sc" if "?zs k = Some sc" for k sc
    using that assms(5,6) by (auto simp: zset_hit_Some split: if_split_asm)
  have "dom (zset_hit ?zs (t' - ?c) (redis_member t) t') = insert (redis_member t) (dom ?zs)"
  proof (rule set_eqI)
    fix k
    show "k \<in> dom (zset_hit ?zs (t' - ?c) (redis_member t) t') \<longleftrightarrow> k \<in> insert (redis_member t) (dom ?zs)"
      unfolding dom_def mem_Collect_eq insert_iff not_None_eq zset_hit_Some [of ?zs]
      using low [of k] by (cases "k = redis_member t") (auto simp: not_le)
  qed
  moreover have "redis_member t \<in> dom ?zs" by (simp add: zset_hit_def)
  ultimately show ?thesis using law first by (simp add: insert_absorb)
qed


section \<open>Lemmas: the other middlewares\<close>

text \<open>
  The seconds a rejected client is told to wait can be too few: with a limit of one and hits at \<open>0\<close>,
  \<open>1\<close> and \<open>30\<close> the last is answered with \<open>31\<close>, and the retry at \<open>61\<close> still finds the hit of \<open>30\<close>.
\<close>

lemma retry_after_too_short:
  "hit_bucket 60 30 [0, 1] = [0, 1, 30]" "retry_after 60 30 0 = 31" "hit_bucket 60 (30 + of_int (retry_after 60 30 0)) [0, 1, 30] = [30, 61]"
  by (simp_all add: hit_bucket_def retry_after_def trunc_rat_def)

text \<open>The first hop of a forwarded chain, which the client writes, is the key.\<close>

lemma forwarded_first_hop:
  assumes "header_get req ''x-forwarded-for'' = Some (hop @ CHR '','' # chain)" "CHR '','' \<notin> set hop" "strip hop \<noteq> []"
  shows "default_key_fn req = strip hop"
  using assms split_char_cut [of "CHR '',''" hop 0 chain] by (simp add: default_key_fn_def Let_def)

text \<open>A request passes the gate of a plan exactly when the plan in its claims ranks at least as high.\<close>

lemma plan_gate_exact:
  assumes "require_plan required = Inr gate"
  shows "gate req = Inr p \<longleftrightarrow> plan_of_request req = Inr p \<and> rank_of required \<le> rank_of p"
proof -
  obtain threshold where t: "map_of plan_ranks required = Some threshold"
    using assms by (auto simp: require_plan_def split: option.split_asm)
  with assms have gate: "gate = (\<lambda>req. and_then (plan_of_request req) (\<lambda>current.
      if rank_of current < threshold then Inl (HTTPException 402 ''plan_required'') else Inr current))"
    by (simp add: require_plan_def)
  have "rank_of required = threshold" using t by (simp add: rank_of_def)
  then show ?thesis by (cases "plan_of_request req") (auto simp: gate)
qed

lemma plan_of_request_known: "plan_of_request req = Inr p \<Longrightarrow> p \<in> {''free'', ''pro'', ''team''}"
  by (auto simp: plan_of_request_def coerce_plan_def split: state_user.splits if_splits)

text \<open>
  The request identifier: the application runs with it in the context variable, the response carries it,
  and the variable has its former value afterwards, whether the application answered or raised.
\<close>

lemma put_header_get: "map_of (map (\<lambda>(k, v). (lower k, v)) (put_header name v hs)) (lower name) = Some v"
proof -
  have idem: "lower (lower name) = lower name"
    by (simp add: lower_def comp_def) (auto simp: lower_char_def Let_def)
  show ?thesis by (induction hs) (auto simp: idem)
qed

lemma correlation_outcome:
  assumes "correlation_dispatch T rnd app req s = (r, s')"
  shows "mw_ctx s' = mw_ctx s \<and> (\<forall>resp. r = Inr resp \<longrightarrow> (\<exists>rid resp0 s0 s1.
     app rid req (s0\<lparr>mw_ctx := Some rid\<rparr>) = (Inr resp0, s1) \<and> resp = set_header ''X-Request-Id'' rid resp0 \<and>
     (strip (case header_get req ''X-Request-Id'' of None \<Rightarrow> [] | Some v \<Rightarrow> v) \<noteq> [] \<longrightarrow>
        rid = strip (case header_get req ''X-Request-Id'' of None \<Rightarrow> [] | Some v \<Rightarrow> v))))"
proof -
  let ?in = "strip (case header_get req ''X-Request-Id'' of None \<Rightarrow> [] | Some v \<Rightarrow> v)"
  obtain rid s0 where id: "(if ?in \<noteq> [] then retE ?in else fresh_request_id T rnd) s = (Inr rid, s0)"
    and rid: "?in \<noteq> [] \<longrightarrow> rid = ?in" and ctx: "mw_ctx s0 = mw_ctx s"
    by (cases "?in \<noteq> []") (auto simp: retE_def fresh_request_id_def bindE_def time_now_def)
  obtain q s1 where run: "app rid req (s0\<lparr>mw_ctx := Some rid\<rparr>) = (q, s1)" by fastforce
  have "correlation_dispatch T rnd app req s =
      (let (r, s') = bindE (app rid req) (\<lambda>response. retE (set_header ''X-Request-Id'' rid response)) (s0\<lparr>mw_ctx := Some rid\<rparr>)
       in (r, s'\<lparr>mw_ctx := mw_ctx s0\<rparr>))"
    unfolding correlation_dispatch_def Let_def using id by (simp add: bindE_Inr)
  with run assms rid ctx show ?thesis
    by (cases q) (fastforce simp: bindE_def retE_def)+
qed

text \<open>A decorated handler fails with its own exception, or with the audit pipeline's.\<close>

lemma audited_outcome:
  assumes "audited E show_val action src ty rid func args w = (r, w')"
  obtains (ran) x w1 where "func args w = (Inr x, w1)" "r = Inr x \<or> (\<exists>e. r = Inl e)"
  | (failed) e w1 where "func args w = (Inl e, w1)" "\<exists>e'. r = Inl e'"
  using assms by (auto simp: audited_def Let_def tryE_def bindE_def retE_def raiseE_def split: prod.splits sum.splits)

section \<open>Witnesses\<close>

definition demo_request :: http_request where
  "demo_request = \<lparr>hq_method = ''GET'', hq_path = ''/'', hq_headers = [], hq_client = Some ''10.0.0.1'', hq_user = NoUser\<rparr>"

theorem rate_limit_bound_witness:
  "int (hits_in ''10.0.0.1'' 0 60 (mw_app (serve_requests of_nat default_key_fn 2 60 [demo_request, demo_request, demo_request]
     (fresh_process [])))) \<le> 2"
  using rate_limit_bound [of of_nat 2 "''10.0.0.1''" 0 60 default_key_fn] by (simp add: mono_def)

text \<open>With a limit of two, the second request within the window is admitted and the third is not.\<close>

theorem quiet_client_admitted_witness:
  "(\<exists>s. rate_dispatch of_nat (memory_hit of_nat) default_key_fn 2 60 (log_app default_key_fn) demo_request
       (serve_requests of_nat default_key_fn 2 60 [demo_request] (fresh_process [])) = (Inr (json_response 200 []), s)) \<and>
   (\<exists>n. fst (rate_dispatch of_nat (memory_hit of_nat) default_key_fn 2 60 (log_app default_key_fn) demo_request
       (serve_requests of_nat default_key_fn 2 60 [demo_request, demo_request] (fresh_process []))) = Inr (too_many_requests n))"
proof (rule conjI)
  let ?k = "default_key_fn demo_request" and ?w = "fresh_process [] :: (string \<times> rat) list mw"
  have m: "mono (of_nat :: nat \<Rightarrow> rat)" by (simp add: mono_def)
  have reads: "mw_reads (serve_requests of_nat default_key_fn 2 60 [demo_request] ?w) = 1"
    "mw_reads (serve_requests of_nat default_key_fn 2 60 [demo_request, demo_request] ?w) = 2"
    by (simp_all add: serve_requests_def rate_dispatch_memory [OF refl] Let_def fresh_process_def log_app_def hit_bucket_def)
  have "arrivals of_nat default_key_fn 2 60 [demo_request] ?w = [(?k, 0)]"
    "arrivals of_nat default_key_fn 2 60 [demo_request, demo_request] ?w = [(?k, 0), (?k, 1)]"
    by (simp_all add: rate_dispatch_memory [OF refl] Let_def fresh_process_def log_app_def hit_bucket_def)
  then have count: "hits_after ?k (1 - 60) (arrivals of_nat default_key_fn 2 60 [demo_request] ?w) = 1"
    "hits_after ?k (2 - 60) (arrivals of_nat default_key_fn 2 60 [demo_request, demo_request] ?w) = 2"
    by (simp_all add: hits_after_def)
  show "\<exists>s. rate_dispatch of_nat (memory_hit of_nat) default_key_fn 2 60 (log_app default_key_fn) demo_request
       (serve_requests of_nat default_key_fn 2 60 [demo_request] ?w) = (Inr (json_response 200 []), s)"
    using quiet_client_admitted [where T = of_nat and key_fn = default_key_fn and limit = 2 and window = 60 and
      reqs = "[demo_request]" and req = demo_request and call_next = "log_app default_key_fn", OF m refl refl]
    by (simp only: reads of_nat_1 of_int_numeral count) (auto simp: log_app_def)
  show "\<exists>n. fst (rate_dispatch of_nat (memory_hit of_nat) default_key_fn 2 60 (log_app default_key_fn) demo_request
       (serve_requests of_nat default_key_fn 2 60 [demo_request, demo_request] ?w)) = Inr (too_many_requests n)"
    using quiet_client_admitted [where T = of_nat and key_fn = default_key_fn and limit = 2 and window = 60 and
      reqs = "[demo_request, demo_request]" and req = demo_request and call_next = "log_app default_key_fn", OF m refl refl]
    by (simp only: reads of_nat_numeral of_int_numeral count)
qed

text \<open>A server state as association lists.\<close>

definition demo_zset :: "(string \<times> rat) list \<Rightarrow> rat \<Rightarrow> string \<Rightarrow> rat \<Rightarrow> (string \<times> rat) list" where
  "demo_zset l cutoff m now =
     (m, now) # map (\<lambda>k. (k, the (map_of l k)))
       (filter (\<lambda>k. k \<noteq> m \<and> \<not> (0 \<le> the (map_of l k) \<and> the (map_of l k) \<le> cutoff)) (remdups (map fst l)))"

definition demo_redis :: "(string \<Rightarrow> (string \<times> rat) list) redis" where
  "demo_redis key cutoff m now ex z =
     (let new = demo_zset (z key) cutoff m now
      in (Inr ([Min (set (map snd new))], int (length new)), z(key := new)))"

lemma demo_zset_hit:
  "map_of (demo_zset l cutoff m now) = zset_hit (map_of l) cutoff m now" "distinct (map fst (demo_zset l cutoff m now))"
proof -
  show "map_of (demo_zset l cutoff m now) = zset_hit (map_of l) cutoff m now"
  proof
    fix k
    have "map_of l k = None \<longleftrightarrow> k \<notin> set (map fst l)" by (simp add: map_of_eq_None_iff)
    then show "map_of (demo_zset l cutoff m now) k = zset_hit (map_of l) cutoff m now k"
      by (auto simp: demo_zset_def zset_hit_def map_of_map_restrict restrict_map_def split: option.splits)
  qed
  show "distinct (map fst (demo_zset l cutoff m now))" by (simp add: demo_zset_def comp_def)
qed

lemma demo_redis_ok: "redis_ok demo_redis (\<lambda>z key. map_of (z key))"
proof -
  have "\<exists>lowest. Min (set (map snd l)) = lowest \<and> lowest \<in> ran (map_of l) \<and> (\<forall>sc \<in> ran (map_of l). lowest \<le> sc)"
    if "distinct (map fst l)" "l \<noteq> []" for l :: "(string \<times> rat) list"
    using that by (simp add: ran_distinct Min_in)
  moreover have "int (length l) = int (card (dom (map_of l)))" if "distinct (map fst l)" for l :: "(string \<times> rat) list"
    using that by (simp add: dom_map_of_conv_image_fst distinct_card flip: set_map)
  moreover have "demo_zset l c m t \<noteq> []" for l c m t by (simp add: demo_zset_def)
  ultimately show ?thesis
    by (auto simp: redis_ok_def demo_redis_def Let_def demo_zset_hit(1) [symmetric] demo_zset_hit(2) fun_eq_iff)
qed

theorem redis_refines_memory_witness:
  "\<exists>rs z'. redis_serve demo_redis 60 [(''j'', 1), (''k'', 1), (''k'', 2)] (\<lambda>_. []) = (Inr rs, z') \<and>
     fst (memory_serve 60 [(''j'', 1), (''k'', 1), (''k'', 2)] (fresh_process ())) = Inr rs"
proof -
  obtain rs z' where run: "redis_serve demo_redis 60 [(''j'', 1), (''k'', 1), (''k'', 2)] (\<lambda>_. []) = (Inr rs, z')"
    by (simp add: bindE_def redis_hit_def demo_redis_def Let_def retE_def)
  have "redis_member 1 \<noteq> redis_member 2" by code_simp
  then have "spaced_hits [(''j'', 1), (''k'', 1), (''k'', 2)]" by (simp add: spaced_hits_def)
  from redis_refines_memory [OF demo_redis_ok _ this _ run] run show ?thesis by auto
qed

end
