(* ===== verification/Admin_Lifecycle.thy ===== *)
theory Admin_Lifecycle
  imports Cloud Auth
begin

text \<open>
  The dangerous operations of the admin service (\<^verbatim>\<open>services/admin-api\<close>): the idempotency store, the
  audit rows before and after, the orchestrator that ties confirmation, idempotency and audit together,
  the eight operations with their routes, and the paginated reader of the audit rows. The second-factor
  gate in front of the routes is in theory Auth. The JSON form of an envelope is the pair of functions
  \<open>ad_dump\<close> and \<open>ad_load\<close> of the configuration (the validation library's serialiser).
\<close>

section \<open>Envelopes\<close>

datatype lifecycle_status = LsPending | LsRunning | LsSucceeded | LsFailed | LsCancelled

fun status_value :: "lifecycle_status \<Rightarrow> string" where
  "status_value LsPending = ''pending''"
| "status_value LsRunning = ''running''"
| "status_value LsSucceeded = ''succeeded''"
| "status_value LsFailed = ''failed''"
| "status_value LsCancelled = ''cancelled''"

record lifecycle_request =
  lr_key :: string
  lr_confirmation :: string
  lr_params :: item

record lifecycle_response =
  le_key :: string
  le_status :: lifecycle_status
  le_result :: "item option"
  le_error :: "string option"
  le_audit_id :: string
  le_started :: int
  le_finished :: "int option"

text \<open>The request model: lengths from 1 to 256, a dictionary of parameters, no other field.\<close>

definition text_1_256 :: "pyval \<Rightarrow> string option" where
  "text_1_256 v = (case as_str v of None \<Rightarrow> None | Some s \<Rightarrow> if s \<noteq> [] \<and> length s \<le> 256 then Some s else None)"

definition parse_lifecycle_request :: "item \<Rightarrow> lifecycle_request option" where
  "parse_lifecycle_request body =
     (if \<not> list_all (\<lambda>(k, v). k \<in> {''idempotency_key'', ''confirmation'', ''params''}) body then None
      else case (text_1_256 (dget body ''idempotency_key''), text_1_256 (dget body ''confirmation''),
                 as_dict (dget_or body ''params'' (PDict []))) of
             (Some key, Some confirmation, Some params) \<Rightarrow>
               Some \<lparr>lr_key = key, lr_confirmation = confirmation, lr_params = params\<rparr>
           | _ \<Rightarrow> None)"

text \<open>
  The deployment: table names and bus, \<^verbatim>\<open>str\<close> on a value, the text \<^verbatim>\<open>type(exc).__name__: exc\<close>, and the
  JSON form of an envelope.
\<close>

record admin_cfg =
  ad_audit_table :: string
  ad_state_table :: string
  ad_sessions_table :: string
  ad_ingestion_table :: string
  ad_tenants_table :: string
  ad_keys_table :: string
  ad_bus :: string
  ad_show :: "pyval \<Rightarrow> string"
  ad_describe :: "exn \<Rightarrow> string"
  ad_dump :: "lifecycle_response \<Rightarrow> string"
  ad_load :: "string \<Rightarrow> exn + lifecycle_response"

definition py_str :: "admin_cfg \<Rightarrow> pyval \<Rightarrow> string" where
  "py_str C v = (case as_str v of Some s \<Rightarrow> s | None \<Rightarrow> ad_show C v)"

section \<open>The idempotency store\<close>

definition default_ttl_seconds :: int where
  "default_ttl_seconds = 86400"

definition state_key :: "string \<Rightarrow> item" where
  "state_key key = [(''idempotency_key'', PStr key)]"

definition lifecycle_get :: "'t env \<Rightarrow> admin_cfg \<Rightarrow> string \<Rightarrow> ('t world, lifecycle_response option) io" where
  "lifecycle_get E C key =
     bindE (get_item E (ad_state_table C) (state_key key)) (\<lambda>row.
     (case row of
        None \<Rightarrow> retE None
      | Some it \<Rightarrow>
          (case as_str (dget it ''response_envelope'') of
             None \<Rightarrow> retE None
           | Some payload \<Rightarrow> liftE (and_then (ad_load C payload) (\<lambda>e. Inr (Some e))))))"

definition pending_item :: "admin_cfg \<Rightarrow> lifecycle_response \<Rightarrow> item" where
  "pending_item C envelope =
     [(''idempotency_key'', PStr (le_key envelope)), (''response_envelope'', PStr (ad_dump C envelope)),
      (''expires_at'', PInt (epoch_secs (le_started envelope) + default_ttl_seconds)),
      (''audit_request_id'', PStr (le_audit_id envelope)), (''status'', PStr (status_value (le_status envelope)))]"

definition put_pending :: "'t env \<Rightarrow> admin_cfg \<Rightarrow> string \<Rightarrow> string \<Rightarrow> ('t world, lifecycle_response) io" where
  "put_pending E C key audit_request_id =
     bindE (utcnow E) (\<lambda>now.
     let envelope = \<lparr>le_key = key, le_status = LsPending, le_result = None, le_error = None,
            le_audit_id = audit_request_id, le_started = now, le_finished = None\<rparr> in
     bindE (put_item E (ad_state_table C) (pending_item C envelope) CTrue) (\<lambda>_. retE envelope))"

definition update_terminal :: "'t env \<Rightarrow> admin_cfg \<Rightarrow> string \<Rightarrow> lifecycle_status \<Rightarrow> item option \<Rightarrow> string option \<Rightarrow>
    string \<Rightarrow> int \<Rightarrow> ('t world, lifecycle_response) io" where
  "update_terminal E C key status result error_message audit_request_id started_at =
     (if status \<notin> {LsSucceeded, LsFailed, LsCancelled}
      then raiseE (ValueError ''update_terminal requires a terminal status'')
      else
        bindE (utcnow E) (\<lambda>finished_at.
        let envelope = \<lparr>le_key = key, le_status = status, le_result = result, le_error = error_message,
               le_audit_id = audit_request_id, le_started = started_at, le_finished = Some finished_at\<rparr> in
        bindE (update_item E (ad_state_table C) (state_key key)
                 [SetAttr ''response_envelope'' (PStr (ad_dump C envelope)),
                  SetAttr ''status'' (PStr (status_value status))] CTrue) (\<lambda>_.
        retE envelope)))"

section \<open>The audit rows\<close>

text \<open>Who does what to which target, and why.\<close>

record audit_context =
  ac_actor :: string
  ac_action :: string
  ac_target :: item
  ac_reason :: string

definition audit_pk :: "audit_context \<Rightarrow> pyval" where
  "audit_pk A = PStr (''AUDIT#admin-api#'' @ ac_actor A)"

definition intent_item :: "audit_context \<Rightarrow> string \<Rightarrow> string \<Rightarrow> item" where
  "intent_item A request_id timestamp =
     [(''pk'', audit_pk A), (''sk'', PStr (timestamp @ ''#'' @ request_id)), (''actor_id'', PStr (ac_actor A)),
      (''action'', PStr (''tier3.'' @ ac_action A @ ''.intent'')), (''tier3_action'', PStr (ac_action A)),
      (''source_service'', PStr ''admin-api''), (''request_id'', PStr request_id), (''timestamp'', PStr timestamp),
      (''outcome'', PStr ''pending''), (''target'', PDict (ac_target A)), (''reason'', PStr (ac_reason A))]"

definition outcome_item :: "audit_context \<Rightarrow> string \<Rightarrow> string \<Rightarrow> string option \<Rightarrow> item" where
  "outcome_item A request_id finished_at failure_message =
     [(''pk'', audit_pk A), (''sk'', PStr (finished_at @ ''#'' @ request_id @ ''#outcome'')), (''actor_id'', PStr (ac_actor A)),
      (''action'', PStr (''tier3.'' @ ac_action A @ ''.outcome'')), (''tier3_action'', PStr (ac_action A)),
      (''source_service'', PStr ''admin-api''), (''request_id'', PStr request_id), (''timestamp'', PStr finished_at),
      (''outcome'', PStr (if failure_message = None then ''success'' else ''failure'')),
      (''target'', PDict (ac_target A)), (''error_message'', opt_val failure_message)]"

definition write_outcome_row :: "'t env \<Rightarrow> admin_cfg \<Rightarrow> audit_context \<Rightarrow> string \<Rightarrow> string option \<Rightarrow> ('t world, unit) io" where
  "write_outcome_row E C A request_id failure_message =
     bindE (utcnow E) (\<lambda>t.
     put_item E (ad_audit_table C) (outcome_item A request_id (isoformat t) failure_message) CTrue)"

text \<open>
  How the body under the audit rows ends when it does not raise an exception of another component: with
  an envelope, or with the orchestrator's own sentinel exception carrying the failed envelope.
\<close>

datatype body_end = Finished lifecycle_response | HandlerFailed lifecycle_response

definition sentinel_text :: "lifecycle_response \<Rightarrow> string" where
  "sentinel_text envelope =
     ''_LifecycleHandlerFailed: '' @
       (case le_error envelope of
          None \<Rightarrow> ''lifecycle handler failed''
        | Some m \<Rightarrow> if m = [] then ''lifecycle handler failed'' else m)"

fun failure_of :: "body_end \<Rightarrow> string option" where
  "failure_of (Finished e) = None"
| "failure_of (HandlerFailed e) = Some (sentinel_text e)"

definition audit_lifecycle :: "'t env \<Rightarrow> admin_cfg \<Rightarrow> audit_context \<Rightarrow> (string \<Rightarrow> ('t world, body_end) io) \<Rightarrow>
    ('t world, body_end) io" where
  "audit_lifecycle E C A body =
     bindE (new_id E) (\<lambda>request_id.
     bindE (utcnow E) (\<lambda>now.
     bindE (put_item E (ad_audit_table C) (intent_item A request_id (isoformat now)) CTrue) (\<lambda>_.
     tryE (body request_id)
       (\<lambda>e. bindE (write_outcome_row E C A request_id (Some (ad_describe C e))) (\<lambda>_. raiseE e))
       (\<lambda>r. bindE (write_outcome_row E C A request_id (failure_of r)) (\<lambda>_. retE r)))))"

section \<open>The orchestrator\<close>

type_synonym 't handler = "item \<Rightarrow> ('t world, item) io"

text \<open>The part before the protocol starts: a cached answer, or the check of the confirmation.\<close>

definition lifecycle_check :: "'t env \<Rightarrow> admin_cfg \<Rightarrow> lifecycle_request \<Rightarrow> string \<Rightarrow>
    ('t world, lifecycle_response option) io" where
  "lifecycle_check E C rq expected_confirmation =
     bindE (lifecycle_get E C (lr_key rq)) (\<lambda>cached.
     (case cached of
        Some envelope \<Rightarrow> retE (Some envelope)
      | None \<Rightarrow>
          if lr_confirmation rq \<noteq> expected_confirmation
          then raiseE (HTTPException 400 (''confirmation mismatch: expected '' @ [CHR 0x27] @ expected_confirmation @ [CHR 0x27]))
          else retE None))"

definition lifecycle_body :: "'t env \<Rightarrow> admin_cfg \<Rightarrow> lifecycle_request \<Rightarrow> 't handler \<Rightarrow> string \<Rightarrow> ('t world, body_end) io" where
  "lifecycle_body E C rq handler audit_request_id =
     bindE (put_pending E C (lr_key rq) audit_request_id) (\<lambda>seed.
     tryE (handler (lr_params rq))
       (\<lambda>e. bindE (update_terminal E C (lr_key rq) LsFailed None (Some (ad_describe C e)) audit_request_id (le_started seed))
              (\<lambda>envelope. retE (HandlerFailed envelope)))
       (\<lambda>result. bindE (update_terminal E C (lr_key rq) LsSucceeded (Some result) None audit_request_id (le_started seed))
              (\<lambda>envelope. retE (Finished envelope))))"

definition lifecycle_commit :: "'t env \<Rightarrow> admin_cfg \<Rightarrow> string \<Rightarrow> lifecycle_request \<Rightarrow> string \<Rightarrow> item \<Rightarrow> 't handler \<Rightarrow>
    ('t world, body_end) io" where
  "lifecycle_commit E C actor rq op_name target handler =
     audit_lifecycle E C
       \<lparr>ac_actor = actor, ac_action = op_name, ac_target = target,
        ac_reason = py_str C (dget_or (lr_params rq) ''reason'' (PStr []))\<rparr>
       (lifecycle_body E C rq handler)"

definition execute_lifecycle :: "'t env \<Rightarrow> admin_cfg \<Rightarrow> string \<Rightarrow> lifecycle_request \<Rightarrow> string \<Rightarrow> 't handler \<Rightarrow> string \<Rightarrow>
    item \<Rightarrow> ('t world, body_end) io" where
  "execute_lifecycle E C actor rq op_name handler expected_confirmation target =
     bindE (lifecycle_check E C rq expected_confirmation) (\<lambda>cached.
     (case cached of
        Some envelope \<Rightarrow> retE (Finished envelope)
      | None \<Rightarrow> lifecycle_commit E C actor rq op_name target handler))"

fun envelope_of :: "body_end \<Rightarrow> lifecycle_response" where
  "envelope_of (Finished e) = e"
| "envelope_of (HandlerFailed e) = e"

definition execute_or_envelope :: "'t env \<Rightarrow> admin_cfg \<Rightarrow> string \<Rightarrow> lifecycle_request \<Rightarrow> string \<Rightarrow> 't handler \<Rightarrow> string \<Rightarrow>
    item \<Rightarrow> ('t world, lifecycle_response) io" where
  "execute_or_envelope E C actor rq op_name handler expected_confirmation target =
     bindE (execute_lifecycle E C actor rq op_name handler expected_confirmation target) (\<lambda>r. retE (envelope_of r))"


section \<open>The clients of EventBridge and Batch\<close>

definition event_id_of :: "admin_cfg \<Rightarrow> item \<Rightarrow> exn + string" where
  "event_id_of C response =
     (let failed = dget_or response ''FailedEntryCount'' (PInt 0) in
      case as_list (dget_or response ''Entries'' (PList [])) of
        None \<Rightarrow> Inl TypeError
      | Some entries \<Rightarrow>
          if truthy failed
          then (case entries of
                  [] \<Rightarrow> Inl (RuntimeError (''EventBridge put_events rejected '' @ py_str C failed @ '' entry: unknown''))
                | entry # _ \<Rightarrow>
                    (case as_dict entry of
                       None \<Rightarrow> Inl AttributeError
                     | Some d \<Rightarrow> Inl (RuntimeError (''EventBridge put_events rejected '' @ py_str C failed @ '' entry: '' @
                                  py_str C (dget_or d ''ErrorMessage'' (PStr ''unknown''))))))
          else (case entries of
                  [] \<Rightarrow> Inl (RuntimeError ''EventBridge put_events returned no entries'')
                | entry # _ \<Rightarrow>
                    (case as_dict entry of
                       None \<Rightarrow> Inl AttributeError
                     | Some d \<Rightarrow>
                         if truthy (dget d ''EventId'') then Inr (py_str C (dget d ''EventId''))
                         else Inl (RuntimeError ''EventBridge put_events returned no EventId''))))"

definition put_event :: "'t env \<Rightarrow> admin_cfg \<Rightarrow> string \<Rightarrow> item \<Rightarrow> ('t world, string) io" where
  "put_event E C detail_type detail =
     bindE (invoke E (PutEvents ''panakoes.admin-api'' detail_type detail (ad_bus C))) (\<lambda>response.
     (case as_dict response of
        None \<Rightarrow> raiseE AttributeError
      | Some d \<Rightarrow> liftE (event_id_of C d)))"

definition terminate_job :: "'t env \<Rightarrow> admin_cfg \<Rightarrow> string \<Rightarrow> string \<Rightarrow> ('t world, string) io" where
  "terminate_job E C job_id reason =
     bindE (invoke E (BatchTerminate job_id reason)) (\<lambda>response.
     (case as_dict response of
        None \<Rightarrow> raiseE AttributeError
      | Some d \<Rightarrow>
          (case as_dict (dget_or d ''ResponseMetadata'' (PDict [])) of
             None \<Rightarrow> raiseE AttributeError
           | Some meta \<Rightarrow> retE (py_str C (dget_or meta ''RequestId'' (PStr []))))))"

section \<open>The operations\<close>

datatype operation =
    TerminateSession string
  | ForceFailIngestion string
  | BlockUserSessions string
  | BlockTenant string
  | RevokeApiKey string
  | KillStreamingSession string
  | KillBatchJob string
  | ForceBillingRecompute string

text \<open>The first lines of every handler.\<close>

definition required_reason :: "admin_cfg \<Rightarrow> string \<Rightarrow> item \<Rightarrow> exn + string" where
  "required_reason C op params =
     (let reason = strip (py_str C (dget_or params ''reason'' (PStr [])))
      in if reason = [] then Inl (ValueError (''reason is required for '' @ op)) else Inr reason)"

text \<open>A conditional update whose rejection means that the row is missing.\<close>

definition update_existing :: "'t env \<Rightarrow> string \<Rightarrow> item \<Rightarrow> upd list \<Rightarrow> cond \<Rightarrow> exn \<Rightarrow> ('t world, item) io" where
  "update_existing E tbl k us c missing =
     tryE (update_item E tbl k us c) (\<lambda>e. if is_ccf e then raiseE missing else raiseE e) retE"

definition admin_session_key :: "pyval \<Rightarrow> item" where
  "admin_session_key v = [(''session_id'', v)]"

definition terminate_session_handler :: "'t env \<Rightarrow> admin_cfg \<Rightarrow> string \<Rightarrow> 't handler" where
  "terminate_session_handler E C session_id params =
     bindE (liftE (required_reason C ''terminate-session'' params)) (\<lambda>reason.
     bindE (utcnow E) (\<lambda>now.
     bindE (update_existing E (ad_sessions_table C) (admin_session_key (PStr session_id))
              [SetAttr ''status'' (PStr ''errored''), SetAttr ''terminated_at'' (PStr (isoformat now)),
               SetAttr ''termination_reason'' (PStr reason)]
              (AttrExists ''session_id'') (OtherError ''SessionNotFoundError'' (''session not found: '' @ session_id))) (\<lambda>new_item.
     retE [(''session_id'', PStr session_id), (''status'', dget_or new_item ''status'' (PStr ''errored'')),
           (''terminated_at'', dget new_item ''terminated_at'')])))"

definition force_fail_handler :: "'t env \<Rightarrow> admin_cfg \<Rightarrow> string \<Rightarrow> 't handler" where
  "force_fail_handler E C ingestion_id params =
     bindE (liftE (required_reason C ''force-fail-ingestion'' params)) (\<lambda>reason.
     bindE (query_items E (ad_ingestion_table C)
              \<lparr>q_index = Some ''IngestionIdIndex'', q_hash = (''ingestion_id'', PStr ingestion_id), q_prefix = None,
               q_limit = Some 1, q_forward = True, q_start = None\<rparr>) (\<lambda>page.
     let missing = OtherError ''IngestionRecordNotFoundError'' (''ingestion record not found: '' @ ingestion_id) in
     (case p_items page of
        [] \<Rightarrow> raiseE missing
      | target # _ \<Rightarrow>
          (case (map_of target ''pk'', map_of target ''sk'') of
             (Some pk, Some sk) \<Rightarrow>
               bindE (utcnow E) (\<lambda>now.
               bindE (update_existing E (ad_ingestion_table C) [(''pk'', pk), (''sk'', sk)]
                        [SetAttr ''status'' (PStr ''failed''), SetAttr ''failed_at'' (PStr (isoformat now)),
                         SetAttr ''failure_reason'' (PStr reason),
                         SetAttr ''failure_source'' (PStr ''tier3.force-fail-ingestion'')]
                        (AttrExists ''pk'') missing) (\<lambda>new_item.
               retE [(''ingestion_id'', PStr ingestion_id), (''status'', dget_or new_item ''status'' (PStr ''failed'')),
                     (''failed_at'', dget new_item ''failed_at'')]))
           | (None, _) \<Rightarrow> raiseE (KeyError ''pk'')
           | (_, None) \<Rightarrow> raiseE (KeyError ''sk'')))))"

text \<open>The loop over the active sessions: the identifiers updated so far and the first failure.\<close>

fun block_loop :: "'t env \<Rightarrow> admin_cfg \<Rightarrow> int \<Rightarrow> string \<Rightarrow> item list \<Rightarrow> pyval list \<Rightarrow>
    ('t world, pyval list \<times> string option) io" where
  "block_loop E C now reason [] blocked = retE (blocked, None)"
| "block_loop E C now reason (it # its) blocked =
     (case map_of it ''session_id'' of
        None \<Rightarrow> raiseE (KeyError ''session_id'')
      | Some session_id \<Rightarrow>
          tryE (update_item E (ad_sessions_table C) (admin_session_key session_id)
                  [SetAttr ''status'' (PStr ''errored''), SetAttr ''terminated_at'' (PStr (isoformat now)),
                   SetAttr ''termination_reason'' (PStr reason),
                   SetAttr ''termination_source'' (PStr ''tier3.block-user-sessions'')]
                  (AttrExists ''session_id''))
            (\<lambda>e. if is_client_error e
                 then retE (blocked, Some (error_code e @ '' updating '' @ py_str C session_id)) else raiseE e)
            (\<lambda>_. block_loop E C now reason its (blocked @ [session_id])))"

definition active_statuses :: "pyval list" where
  "active_statuses = [PStr ''active'', PStr ''starting'', PStr ''paused'']"

definition active_sessions :: "item list \<Rightarrow> item list" where
  "active_sessions items = filter (\<lambda>it. dget it ''status'' \<in> set active_statuses) items"

definition partial_block_failure :: "string \<Rightarrow> nat \<Rightarrow> nat \<Rightarrow> string \<Rightarrow> exn" where
  "partial_block_failure user_id blocked attempted first_failure =
     OtherError ''PartialBlockFailure''
       (''block-user-sessions partial failure for user '' @ user_id @ '': blocked '' @ str_int (int blocked) @ ''/'' @
        str_int (int attempted) @ '', first failure: '' @ first_failure)"

definition user_sessions_query :: "string \<Rightarrow> query" where
  "user_sessions_query user_id =
     \<lparr>q_index = Some ''UserSessionsIndex'', q_hash = (''user_id'', PStr user_id), q_prefix = None,
      q_limit = None, q_forward = True, q_start = None\<rparr>"

definition block_user_handler :: "'t env \<Rightarrow> admin_cfg \<Rightarrow> string \<Rightarrow> 't handler" where
  "block_user_handler E C user_id params =
     bindE (liftE (required_reason C ''block-user-sessions'' params)) (\<lambda>reason.
     bindE (query_items E (ad_sessions_table C) (user_sessions_query user_id)) (\<lambda>page.
     let items = p_items page; active = active_sessions items in
     if active = []
     then retE [(''user_id'', PStr user_id), (''affected_count'', PInt 0), (''blocked_session_ids'', PList []),
                (''skipped_count'', PInt (int (length items))), (''noop'', PBool True)]
     else
       bindE (utcnow E) (\<lambda>now.
       bindE (block_loop E C now reason active []) (\<lambda>(blocked, first_failure).
       (case first_failure of
          Some f \<Rightarrow> raiseE (partial_block_failure user_id (length blocked) (length active) f)
        | None \<Rightarrow>
            retE [(''user_id'', PStr user_id), (''affected_count'', PInt (int (length blocked))),
                  (''blocked_session_ids'', PList blocked),
                  (''skipped_count'', PInt (int (length items) - int (length active))), (''noop'', PBool False)])))))"

definition block_tenant_handler :: "'t env \<Rightarrow> admin_cfg \<Rightarrow> string \<Rightarrow> string \<Rightarrow> 't handler" where
  "block_tenant_handler E C tenant_id actor_id params =
     bindE (liftE (required_reason C ''block-tenant'' params)) (\<lambda>reason.
     let k = [(''tenant_id'', PStr tenant_id)]; missing = OtherError ''TenantNotFoundError'' (''tenant not found: '' @ tenant_id) in
     bindE (get_item E (ad_tenants_table C) k) (\<lambda>row.
     (case row of
        None \<Rightarrow> raiseE missing
      | Some existing \<Rightarrow>
          bindE (utcnow E) (\<lambda>now.
          bindE (update_existing E (ad_tenants_table C) k
                   [SetAttr ''blocked_at'' (PStr (isoformat now)), SetAttr ''blocked_reason'' (PStr reason),
                    SetAttr ''blocked_by'' (PStr actor_id)] (AttrExists ''tenant_id'') missing) (\<lambda>_.
          retE [(''tenant_id'', PStr tenant_id), (''blocked_at'', PStr (isoformat now)), (''blocked_reason'', PStr reason),
                (''previously_blocked'', PBool (dget existing ''blocked_at'' \<noteq> PNone))])))))"

definition revoke_key_handler :: "'t env \<Rightarrow> admin_cfg \<Rightarrow> string \<Rightarrow> string \<Rightarrow> 't handler" where
  "revoke_key_handler E C api_key_id actor_id params =
     bindE (liftE (required_reason C ''revoke-api-key'' params)) (\<lambda>reason.
     let k = [(''api_key_id'', PStr api_key_id)]; missing = OtherError ''ApiKeyNotFoundError'' (''api key not found: '' @ api_key_id) in
     bindE (get_item E (ad_keys_table C) k) (\<lambda>row.
     (case row of
        None \<Rightarrow> raiseE missing
      | Some existing \<Rightarrow>
          bindE (utcnow E) (\<lambda>now.
          bindE (update_existing E (ad_keys_table C) k
                   [SetAttr ''status'' (PStr ''revoked''), SetAttr ''revoked_at'' (PStr (isoformat now)),
                    SetAttr ''revoked_reason'' (PStr reason), SetAttr ''revoked_by'' (PStr actor_id)]
                   (AttrExists ''api_key_id'') missing) (\<lambda>_.
          retE [(''api_key_id'', PStr api_key_id), (''revoked_at'', PStr (isoformat now)), (''revoked_reason'', PStr reason),
                (''was_active'', PBool (dget_or existing ''status'' (PStr ''active'') = PStr ''active'' \<and>
                                       dget existing ''revoked_at'' = PNone))])))))"

definition kill_streaming_handler :: "'t env \<Rightarrow> admin_cfg \<Rightarrow> string \<Rightarrow> string \<Rightarrow> 't handler" where
  "kill_streaming_handler E C session_id actor_id params =
     bindE (liftE (required_reason C ''kill-streaming-session'' params)) (\<lambda>reason.
     let k = admin_session_key (PStr session_id);
         missing = OtherError ''StreamingSessionNotFoundError'' (''streaming session not found: '' @ session_id) in
     bindE (get_item E (ad_sessions_table C) k) (\<lambda>row.
     (case row of
        None \<Rightarrow> raiseE missing
      | Some existing \<Rightarrow>
          bindE (utcnow E) (\<lambda>now.
          bindE (update_existing E (ad_sessions_table C) k
                   [SetAttr ''status'' (PStr ''errored''), SetAttr ''terminated_at'' (PStr (isoformat now)),
                    SetAttr ''termination_reason'' (PStr reason),
                    SetAttr ''termination_source'' (PStr ''tier3.kill-streaming-session'')]
                   (AttrExists ''session_id'') missing) (\<lambda>_.
          bindE (put_event E C ''StreamingSessionKilled''
                   [(''session_id'', PStr session_id), (''killed_at'', PStr (isoformat now)),
                    (''killed_reason'', PStr reason), (''killed_by'', PStr actor_id)]) (\<lambda>event_id.
          retE [(''session_id'', PStr session_id), (''killed_at'', PStr (isoformat now)), (''killed_reason'', PStr reason),
                (''eventbridge_event_id'', PStr event_id),
                (''was_active'', PBool (dget existing ''status'' \<in> set active_statuses))]))))))"

definition kill_batch_handler :: "'t env \<Rightarrow> admin_cfg \<Rightarrow> string \<Rightarrow> 't handler" where
  "kill_batch_handler E C job_id params =
     bindE (liftE (required_reason C ''kill-batch-job'' params)) (\<lambda>reason.
     bindE (utcnow E) (\<lambda>now.
     bindE (terminate_job E C job_id reason) (\<lambda>request_id.
     retE [(''job_id'', PStr job_id), (''killed_at'', PStr (isoformat now)), (''killed_reason'', PStr reason),
           (''batch_terminate_request_id'', PStr request_id)])))"

definition billing_recompute_handler :: "'t env \<Rightarrow> admin_cfg \<Rightarrow> string \<Rightarrow> string \<Rightarrow> 't handler" where
  "billing_recompute_handler E C tenant_id actor_id params =
     bindE (liftE (required_reason C ''force-billing-recompute'' params)) (\<lambda>reason.
     bindE (utcnow E) (\<lambda>now.
     bindE (put_event E C ''BillingRecomputeRequested''
              [(''tenant_id'', PStr tenant_id), (''queued_at'', PStr (isoformat now)), (''queued_reason'', PStr reason),
               (''queued_by'', PStr actor_id)]) (\<lambda>event_id.
     retE [(''tenant_id'', PStr tenant_id), (''queued_at'', PStr (isoformat now)), (''queued_reason'', PStr reason),
           (''eventbridge_event_id'', PStr event_id)])))"

section \<open>The routes\<close>

fun op_name :: "operation \<Rightarrow> string" where
  "op_name (TerminateSession i) = ''terminate-session''"
| "op_name (ForceFailIngestion i) = ''force-fail-ingestion''"
| "op_name (BlockUserSessions i) = ''block-user-sessions''"
| "op_name (BlockTenant i) = ''block-tenant''"
| "op_name (RevokeApiKey i) = ''revoke-api-key''"
| "op_name (KillStreamingSession i) = ''kill-streaming-session''"
| "op_name (KillBatchJob i) = ''kill-batch-job''"
| "op_name (ForceBillingRecompute i) = ''force-billing-recompute''"

fun confirmation_of :: "operation \<Rightarrow> string" where
  "confirmation_of (TerminateSession i) = ''TERMINATE '' @ i"
| "confirmation_of (ForceFailIngestion i) = ''FAIL '' @ i"
| "confirmation_of (BlockUserSessions i) = ''BLOCK USER '' @ i"
| "confirmation_of (BlockTenant i) = ''BLOCK TENANT '' @ i"
| "confirmation_of (RevokeApiKey i) = ''REVOKE KEY '' @ i"
| "confirmation_of (KillStreamingSession i) = ''KILL STREAM '' @ i"
| "confirmation_of (KillBatchJob i) = ''KILL JOB '' @ i"
| "confirmation_of (ForceBillingRecompute i) = ''RECOMPUTE BILLING '' @ i"

fun target_of :: "operation \<Rightarrow> item" where
  "target_of (TerminateSession i) = [(''session_id'', PStr i)]"
| "target_of (ForceFailIngestion i) = [(''ingestion_id'', PStr i)]"
| "target_of (BlockUserSessions i) = [(''user_id'', PStr i)]"
| "target_of (BlockTenant i) = [(''tenant_id'', PStr i)]"
| "target_of (RevokeApiKey i) = [(''api_key_id'', PStr i)]"
| "target_of (KillStreamingSession i) = [(''session_id'', PStr i)]"
| "target_of (KillBatchJob i) = [(''job_id'', PStr i)]"
| "target_of (ForceBillingRecompute i) = [(''tenant_id'', PStr i)]"

fun handler_of :: "'t env \<Rightarrow> admin_cfg \<Rightarrow> string \<Rightarrow> operation \<Rightarrow> 't handler" where
  "handler_of E C actor (TerminateSession i) = terminate_session_handler E C i"
| "handler_of E C actor (ForceFailIngestion i) = force_fail_handler E C i"
| "handler_of E C actor (BlockUserSessions i) = block_user_handler E C i"
| "handler_of E C actor (BlockTenant i) = block_tenant_handler E C i actor"
| "handler_of E C actor (RevokeApiKey i) = revoke_key_handler E C i actor"
| "handler_of E C actor (KillStreamingSession i) = kill_streaming_handler E C i actor"
| "handler_of E C actor (KillBatchJob i) = kill_batch_handler E C i"
| "handler_of E C actor (ForceBillingRecompute i) = billing_recompute_handler E C i actor"

text \<open>A route after its gate: \<open>claims\<close> are those of the admitted administrator.\<close>

definition lifecycle_route :: "'t env \<Rightarrow> admin_cfg \<Rightarrow> operation \<Rightarrow> jwt_claims \<Rightarrow> lifecycle_request \<Rightarrow>
    ('t world, lifecycle_response) io" where
  "lifecycle_route E C op claims rq =
     execute_or_envelope E C (cl_sub claims) rq (op_name op) (handler_of E C (cl_sub claims) op) (confirmation_of op) (target_of op)"


section \<open>Reading the audit rows\<close>

record audit_entry =
  aq_request_id :: string
  aq_timestamp :: string
  aq_source :: string
  aq_actor :: string
  aq_action :: string
  aq_tier3 :: "string option"
  aq_payload :: item

record audit_page =
  ap_entries :: "audit_entry list"
  ap_next :: "item option"
  ap_generated :: string

definition top_level_fields :: "string list" where
  "top_level_fields = [''request_id'', ''timestamp'', ''source_service'', ''actor_id'', ''action'', ''tier3_action'']"

definition before_hash :: "string \<Rightarrow> string" where
  "before_hash s = hd (split_char (CHR ''#'') 1 s)"

definition row_to_entry :: "admin_cfg \<Rightarrow> item \<Rightarrow> audit_entry" where
  "row_to_entry C row =
     \<lparr>aq_request_id = before_hash (py_str C (py_or (dget row ''request_id'') (dget_or row ''sk'' (PStr [])))),
      aq_timestamp = py_str C (dget_or row ''timestamp'' (PStr [])),
      aq_source = py_str C (dget_or row ''source_service'' (PStr [])),
      aq_actor = py_str C (dget_or row ''actor_id'' (PStr [])),
      aq_action = py_str C (dget_or row ''action'' (PStr [])),
      aq_tier3 = (if dget row ''tier3_action'' = PNone then None else Some (py_str C (dget row ''tier3_action''))),
      aq_payload = filter (\<lambda>(k, v). k \<notin> set top_level_fields \<and> k \<noteq> ''pk'' \<and> k \<noteq> ''sk'') row\<rparr>"

text \<open>
  A cursor is the base64 form of a JSON text. As elsewhere the text is kept as the value it denotes: an
  absent or empty cursor, one that decodes to a value, and one that does not decode. What JSON has no
  form for is written as its \<^verbatim>\<open>str\<close>.
\<close>

datatype cursor = NoCursor | CursorOf pyval | BadCursor

fun json_str :: "(pyval \<Rightarrow> string) \<Rightarrow> pyval \<Rightarrow> pyval" where
  "json_str show_val (PDec q) = PStr (show_val (PDec q))"
| "json_str show_val (PList xs) = PList (map (json_str show_val) xs)"
| "json_str show_val (PDict d) = PDict (map (\<lambda>(k, v). (k, json_str show_val v)) d)"
| "json_str show_val v = v"

definition encode_cursor :: "admin_cfg \<Rightarrow> item option \<Rightarrow> item option" where
  "encode_cursor C last_evaluated_key =
     (case last_evaluated_key of
        None \<Rightarrow> None
      | Some k \<Rightarrow> if k = [] then None else Some (map (\<lambda>(a, v). (a, json_str (ad_show C) v)) k))"

fun decode_cursor :: "cursor \<Rightarrow> exn + item option" where
  "decode_cursor NoCursor = Inr None"
| "decode_cursor (CursorOf v) =
     (case as_dict v of None \<Rightarrow> Inl (HTTPException 400 ''malformed cursor'') | Some d \<Rightarrow> Inr (Some d))"
| "decode_cursor BadCursor = Inl (HTTPException 400 ''malformed cursor'')"

definition gsi_name :: string where
  "gsi_name = ''Tier3ActionIndex''"

text \<open>\<open>scan\<close> is the scan of the index with a limit and a start key.\<close>

definition read_audit_log :: "'t env \<Rightarrow> admin_cfg \<Rightarrow> (string \<Rightarrow> int \<Rightarrow> item option \<Rightarrow> ('t world, page) io) \<Rightarrow>
    string option \<Rightarrow> cursor \<Rightarrow> int \<Rightarrow> ('t world, audit_page) io" where
  "read_audit_log E C scan tier3_action cursor limit =
     bindE (liftE (decode_cursor cursor)) (\<lambda>last_key.
     bindE (case tier3_action of
              Some action \<Rightarrow> query_items E (ad_audit_table C)
                \<lparr>q_index = Some gsi_name, q_hash = (''tier3_action'', PStr action), q_prefix = None, q_limit = Some limit,
                 q_forward = True, q_start = last_key\<rparr>
            | None \<Rightarrow> scan gsi_name limit last_key) (\<lambda>page.
     bindE (utcnow E) (\<lambda>now.
     retE \<lparr>ap_entries = map (row_to_entry C) (p_items page), ap_next = encode_cursor C (p_last page),
           ap_generated = isoformat now\<rparr>)))"

text \<open>The fallback of the request identifier yields the time of the row, not its request.\<close>

lemma entry_without_request_id:
  assumes "dget row ''request_id'' = PNone" "dget_or row ''sk'' (PStr []) = PStr (timestamp @ CHR ''#'' # request_id)"
    and "CHR ''#'' \<notin> set timestamp"
  shows "aq_request_id (row_to_entry C row) = timestamp"
  using assms split_char_cut [of "CHR ''#''" timestamp 0 request_id]
  by (simp add: row_to_entry_def py_or_def py_str_def before_hash_def)

lemma json_str_strings: "list_all (\<lambda>(a, v). \<exists>s. v = PStr s) k \<Longrightarrow> map (\<lambda>(a, v). (a, json_str f v)) k = k"
  by (induction k) auto

text \<open>The cursor of a page whose key has string attributes is read back as that key.\<close>

lemma cursor_roundtrip:
  assumes "k \<noteq> []" "list_all (\<lambda>(a, v). \<exists>s. v = PStr s) k" "encode_cursor C (Some k) = Some text"
  shows "decode_cursor (CursorOf (PDict text)) = Inr (Some k)"
  using assms json_str_strings [OF assms(2)] by (simp add: encode_cursor_def)

end
