(* ===== verification/Lifecycle_Safety.thy ===== *)
theory Lifecycle_Safety
  imports Admin_Lifecycle At_Most_Once
begin

text \<open>
  What the dangerous operations of the admin service promise: a confirmation names one operation on one
  target, a handler runs only after its intent and its pending state are stored, the answer and the two
  records agree, and a key that has an answer is never executed again; and what they do not: two
  submissions that overlap are both executed.
\<close>

section \<open>The store\<close>

definition admin_setting :: "'t env \<Rightarrow> 't db_view \<Rightarrow> admin_cfg \<Rightarrow> bool" where
  "admin_setting E V C \<longleftrightarrow> ddb_ok E V \<and> ad_audit_table C \<noteq> ad_state_table C \<and>
     key_attrs E (ad_state_table C) = [''idempotency_key''] \<and> key_attrs E (ad_audit_table C) = [''pk'', ''sk'']"

definition state_row :: "'t db_view \<Rightarrow> admin_cfg \<Rightarrow> 't world \<Rightarrow> string \<Rightarrow> item option" where
  "state_row V C w key = rows V w (ad_state_table C) (ddb_item (state_key key))"

definition stored_envelope :: "admin_cfg \<Rightarrow> item option \<Rightarrow> lifecycle_response option" where
  "stored_envelope C row =
     (case row of
        None \<Rightarrow> None
      | Some it \<Rightarrow>
          (case as_str (dget it ''response_envelope'') of
             None \<Rightarrow> None
           | Some payload \<Rightarrow> (case ad_load C payload of Inl e \<Rightarrow> None | Inr e \<Rightarrow> Some e)))"

text \<open>The answer of a check is the stored envelope, whatever was asked.\<close>

lemma lifecycle_get_cases:
  assumes "ddb_ok E V" "lifecycle_get E C key w = (r, w')"
  shows "rows V w' = rows V w" "trace w' = trace w"
    and "r = Inr (Some e) \<Longrightarrow> stored_envelope C (state_row V C w key) = Some e"
    and "r = Inr None \<Longrightarrow> stored_envelope C (state_row V C w key) = None"
proof -
  obtain q w1 where g: "get_item E (ad_state_table C) (state_key key) w = (q, w1)" by fastforce
  note c = get_item_cases [OF assms(1) g]
  have w': "w' = w1" and r: "q = Inr i \<Longrightarrow> r = (case i of None \<Rightarrow> Inr None | Some it \<Rightarrow>
      (case as_str (dget it ''response_envelope'') of None \<Rightarrow> Inr None
       | Some p \<Rightarrow> and_then (ad_load C p) (\<lambda>e. Inr (Some e))))" "q = Inl x \<Longrightarrow> r = Inl x" for i x
    using assms(2) g unfolding lifecycle_get_def
    by (auto simp: bindE_def retE_def liftE_def split: sum.splits option.splits)
  show "rows V w' = rows V w" "trace w' = trace w" using c w' by simp_all
  show "r = Inr (Some e) \<Longrightarrow> stored_envelope C (state_row V C w key) = Some e"
    using c(3) r by (cases q) (auto simp: stored_envelope_def state_row_def and_then_Inr_iff split: option.splits)
  show "r = Inr None \<Longrightarrow> stored_envelope C (state_row V C w key) = None"
    using c(3) r by (cases q) (auto simp: stored_envelope_def state_row_def and_then_Inr_iff split: option.splits)
qed

lemma check_cases:
  assumes "ddb_ok E V" "lifecycle_check E C rq expected w = (r, w')"
  shows "rows V w' = rows V w" "trace w' = trace w"
    and "r = Inr (Some e) \<Longrightarrow> stored_envelope C (state_row V C w (lr_key rq)) = Some e"
    and "r = Inr None \<Longrightarrow> stored_envelope C (state_row V C w (lr_key rq)) = None \<and> lr_confirmation rq = expected"
proof -
  obtain q w1 where g: "lifecycle_get E C (lr_key rq) w = (q, w1)" by fastforce
  note c = lifecycle_get_cases [OF assms(1) g]
  have w': "w' = w1" and q: "q = Inl x \<Longrightarrow> r = Inl x" "q = Inr (Some e) \<Longrightarrow> r = Inr (Some e)"
    "q = Inr None \<Longrightarrow> r = Inr None \<Longrightarrow> lr_confirmation rq = expected" 
    "r = Inr i \<Longrightarrow> q = Inr i" for x e i
    using assms(2) g unfolding lifecycle_check_def
    by (auto simp: bindE_def retE_def raiseE_def split: sum.splits option.splits if_splits)
  show "rows V w' = rows V w" "trace w' = trace w" using c w' by simp_all
  show "r = Inr (Some e) \<Longrightarrow> stored_envelope C (state_row V C w (lr_key rq)) = Some e" using c(3) q(4) by simp
  show "r = Inr None \<Longrightarrow> stored_envelope C (state_row V C w (lr_key rq)) = None \<and> lr_confirmation rq = expected"
    using c(4) q(3,4) by simp
qed

text \<open>A key whose row holds an answer: every later submission under it returns that answer or fails.\<close>

lemma settled_key_answers:
  assumes "ddb_ok E V" "stored_envelope C (state_row V C w (lr_key rq)) = Some e"
    and "execute_or_envelope E C actor rq op_nm handler expected target w = (r, w')"
  shows "rows V w' = rows V w" "trace w' = trace w" "r = Inr x \<Longrightarrow> x = e"
proof -
  obtain q w1 where g: "lifecycle_check E C rq expected w = (q, w1)" by fastforce
  note c = check_cases [OF assms(1) g]
  have "q \<noteq> Inr None" using c(4) assms(2) by auto
  then have "w' = w1 \<and> (\<forall>x. r = Inr x \<longrightarrow> q = Inr (Some x))"
    using assms(3) g unfolding execute_or_envelope_def execute_lifecycle_def
    by (auto simp: bindE_def retE_def split: sum.splits option.splits)
  then show "rows V w' = rows V w" "trace w' = trace w" "r = Inr x \<Longrightarrow> x = e" using c assms(2) by auto
qed

section \<open>One execution\<close>

definition audit_of :: "admin_cfg \<Rightarrow> string \<Rightarrow> lifecycle_request \<Rightarrow> string \<Rightarrow> item \<Rightarrow> audit_context" where
  "audit_of C actor rq op_nm target =
     \<lparr>ac_actor = actor, ac_action = op_nm, ac_target = target,
      ac_reason = py_str C (dget_or (lr_params rq) ''reason'' (PStr []))\<rparr>"

definition audit_row :: "'t db_view \<Rightarrow> admin_cfg \<Rightarrow> 't world \<Rightarrow> audit_context \<Rightarrow> string \<Rightarrow> item option" where
  "audit_row V C w A sk = rows V w (ad_audit_table C) [(''pk'', audit_pk A), (''sk'', PStr sk)]"

text \<open>The terminal row: what an answered key holds.\<close>

definition terminal_row :: "admin_cfg \<Rightarrow> lifecycle_response \<Rightarrow> item option \<Rightarrow> bool" where
  "terminal_row C e row \<longleftrightarrow> (\<exists>it. row = Some it \<and>
     map_of it ''response_envelope'' = Some (PStr (ad_dump C e)) \<and> map_of it ''status'' = Some (PStr (status_value (le_status e))))"

lemma update_terminal_cases:
  assumes "ddb_ok E V" "update_terminal E C key st result msg rid started w = (Inr e, w')"
  shows "terminal_row C e (state_row V C w' key)" "trace w' = trace w"
    and "le_key e = key" "le_status e = st" "le_result e = result" "le_error e = msg" "le_audit_id e = rid"
    and "rows V w' (ad_audit_table C) = rows V w (ad_audit_table C) \<or> ad_audit_table C = ad_state_table C"
proof -
  from assms(2) obtain now w1 it where t: "utcnow E w = (Inr now, w1)"
    and u: "update_item E (ad_state_table C) (state_key key)
                 [SetAttr ''response_envelope'' (PStr (ad_dump C e)),
                  SetAttr ''status'' (PStr (status_value (le_status e)))] CTrue w1 = (Inr it, w')"
    and e: "le_key e = key" "le_status e = st" "le_result e = result" "le_error e = msg" "le_audit_id e = rid"
    unfolding update_terminal_def Let_def
    by (auto simp: bindE_Inr_iff retE_def raiseE_def split: if_splits)
  note t' = tick_cases(1) [OF t [unfolded utcnow_def], of V] tick_cases(2) [OF t [unfolded utcnow_def]]
  note u' = update_item_cases [OF assms(1) u]
  have now: "rows V w' = store_row (rows V w1) (ad_state_table C) (ddb_item (state_key key))
     (updated_row (state_key key) [SetAttr ''response_envelope'' (PStr (ad_dump C e)),
        SetAttr ''status'' (PStr (status_value (le_status e)))] (rows V w1 (ad_state_table C) (ddb_item (state_key key))))"
    using u'(1) by (simp add: write_outcome_simps)
  show "terminal_row C e (state_row V C w' key)"
    by (simp add: terminal_row_def state_row_def now store_row_apply updated_row_def)
  show "trace w' = trace w" using u'(3) t' by simp
  show "le_key e = key" "le_status e = st" "le_result e = result" "le_error e = msg" "le_audit_id e = rid" by fact+
  show "rows V w' (ad_audit_table C) = rows V w (ad_audit_table C) \<or> ad_audit_table C = ad_state_table C"
    using t' by (auto simp: now store_row_def)
qed

lemma write_outcome_row_cases:
  assumes "admin_setting E V C" "write_outcome_row E C A rid failure w = (Inr u, w')"
  shows "state_row V C w' key = state_row V C w key" "trace w' = trace w"
    and "\<exists>now. audit_row V C w' A (isoformat now @ ''#'' @ rid @ ''#outcome'') =
           Some (ddb_item (outcome_item A rid (isoformat now) failure))"
proof -
  from assms(2) obtain now w1 where t: "utcnow E w = (Inr now, w1)"
    and p: "put_item E (ad_audit_table C) (outcome_item A rid (isoformat now) failure) CTrue w1 = (Inr u, w')"
    unfolding write_outcome_row_def by (auto simp: bindE_Inr_iff)
  note t' = tick_cases(1) [OF t [unfolded utcnow_def], of V] tick_cases(2) [OF t [unfolded utcnow_def]]
  have ok: "ddb_ok E V" and distinct: "ad_audit_table C \<noteq> ad_state_table C"
    and key: "ddb_item (key_of E (ad_audit_table C) (outcome_item A rid (isoformat now) failure)) =
      [(''pk'', audit_pk A), (''sk'', PStr (isoformat now @ ''#'' @ rid @ ''#outcome''))]"
    using assms(1) by (simp_all add: admin_setting_def key_of_def outcome_item_def dget_Cons ddb_item_def audit_pk_def)
  note p' = put_item_cases [OF ok p refl, unfolded key]
  from p'(1) have now: "rows V w' = store_row (rows V w1) (ad_audit_table C)
      [(''pk'', audit_pk A), (''sk'', PStr (isoformat now @ ''#'' @ rid @ ''#outcome''))]
      (ddb_item (outcome_item A rid (isoformat now) failure))"
    by (simp add: write_outcome_simps)
  show "state_row V C w' key = state_row V C w key" "trace w' = trace w"
    using now t' p'(2) distinct by (simp_all add: state_row_def store_row_apply)
  show "\<exists>now. audit_row V C w' A (isoformat now @ ''#'' @ rid @ ''#outcome'') =
           Some (ddb_item (outcome_item A rid (isoformat now) failure))"
    by (rule exI [of _ now]) (simp add: audit_row_def now store_row_apply)
qed


text \<open>
  When a handler may run: the intent of this actor, action and target is in the audit log and the key is
  marked pending under the identifier of that intent.
\<close>

definition admitted :: "'t db_view \<Rightarrow> admin_cfg \<Rightarrow> audit_context \<Rightarrow> string \<Rightarrow> 't world \<Rightarrow> bool" where
  "admitted V C A key w \<longleftrightarrow> (\<exists>rid t seed.
     audit_row V C w A (isoformat t @ ''#'' @ rid) = Some (ddb_item (intent_item A rid (isoformat t))) \<and>
     state_row V C w key = Some (ddb_item (pending_item C seed)) \<and>
     le_key seed = key \<and> le_status seed = LsPending \<and> le_audit_id seed = rid)"

definition intended :: "'t db_view \<Rightarrow> admin_cfg \<Rightarrow> audit_context \<Rightarrow> string \<Rightarrow> 't world \<Rightarrow> bool" where
  "intended V C A rid w \<longleftrightarrow> (\<exists>t.
     audit_row V C w A (isoformat t @ ''#'' @ rid) = Some (ddb_item (intent_item A rid (isoformat t))))"

lemma put_pending_cases:
  assumes "admin_setting E V C" "put_pending E C key rid w = (Inr seed, w')"
  shows "intended V C A rid w \<Longrightarrow> admitted V C A key w'" "trace w' = trace w"
proof -
  from assms(2) obtain now w1 where t: "utcnow E w = (Inr now, w1)"
    and p: "put_item E (ad_state_table C) (pending_item C seed) CTrue w1 = (Inr (), w')"
    and seed: "le_key seed = key" "le_status seed = LsPending" "le_audit_id seed = rid"
    unfolding put_pending_def Let_def by (auto simp: bindE_Inr_iff retE_def)
  note t' = tick_cases(1) [OF t [unfolded utcnow_def], of V] tick_cases(2) [OF t [unfolded utcnow_def]]
  have ok: "ddb_ok E V" and distinct: "ad_audit_table C \<noteq> ad_state_table C"
    and key: "ddb_item (key_of E (ad_state_table C) (pending_item C seed)) = ddb_item (state_key key)"
    using assms(1) seed by (simp_all add: admin_setting_def key_of_def pending_item_def state_key_def dget_Cons ddb_item_def)
  note p' = put_item_cases [OF ok p refl, unfolded key]
  from p'(1) have now: "rows V w' = store_row (rows V w1) (ad_state_table C) (ddb_item (state_key key))
      (ddb_item (pending_item C seed))"
    by (simp add: write_outcome_simps)
  show "trace w' = trace w" using t' p'(2) by simp
  assume "intended V C A rid w"
  then obtain t where "audit_row V C w A (isoformat t @ ''#'' @ rid) = Some (ddb_item (intent_item A rid (isoformat t)))"
    by (auto simp: intended_def)
  then have "audit_row V C w' A (isoformat t @ ''#'' @ rid) = Some (ddb_item (intent_item A rid (isoformat t)))"
    using t'(1) distinct by (simp add: audit_row_def now store_row_apply)
  moreover have "state_row V C w' key = Some (ddb_item (pending_item C seed))"
    by (simp add: state_row_def now store_row_apply)
  ultimately show "admitted V C A key w'" using seed unfolding admitted_def by blast
qed

text \<open>What the body records: the key's terminal state is the envelope, which tells how the handler ended.\<close>

definition body_records :: "'t db_view \<Rightarrow> admin_cfg \<Rightarrow> string \<Rightarrow> exn + item \<Rightarrow> body_end \<Rightarrow> 't world \<Rightarrow> bool" where
  "body_records V C key hr b w \<longleftrightarrow> terminal_row C (envelope_of b) (state_row V C w key) \<and>
     (case hr of
        Inr result \<Rightarrow> failure_of b = None \<and> le_status (envelope_of b) = LsSucceeded \<and> le_result (envelope_of b) = Some result
      | Inl e \<Rightarrow> failure_of b \<noteq> None \<and> le_status (envelope_of b) = LsFailed \<and> le_error (envelope_of b) = Some (ad_describe C e))"

lemma body_cases:
  assumes "admin_setting E V C" "lifecycle_body E C rq handler rid w = (Inr b, w')"
  obtains w1 hr w2 where "intended V C A rid w \<Longrightarrow> admitted V C A (lr_key rq) w1" "trace w1 = trace w"
    "handler (lr_params rq) w1 = (hr, w2)" "trace w' = trace w2" "body_records V C (lr_key rq) hr b w'"
proof -
  have ok: "ddb_ok E V" using assms(1) by (simp add: admin_setting_def)
  from assms(2) obtain seed w1 where p: "put_pending E C (lr_key rq) rid w = (Inr seed, w1)"
    and rest: "tryE (handler (lr_params rq))
       (\<lambda>e. bindE (update_terminal E C (lr_key rq) LsFailed None (Some (ad_describe C e)) rid (le_started seed))
              (\<lambda>envelope. retE (HandlerFailed envelope)))
       (\<lambda>result. bindE (update_terminal E C (lr_key rq) LsSucceeded (Some result) None rid (le_started seed))
              (\<lambda>envelope. retE (Finished envelope))) w1 = (Inr b, w')"
    unfolding lifecycle_body_def by (auto simp: bindE_Inr_iff)
  obtain hr w2 where h: "handler (lr_params rq) w1 = (hr, w2)" by fastforce
  obtain st result msg e where u: "update_terminal E C (lr_key rq) st result msg rid (le_started seed) w2 = (Inr e, w')"
    and b: "case hr of Inr x \<Rightarrow> st = LsSucceeded \<and> result = Some x \<and> b = Finished e
      | Inl x \<Rightarrow> st = LsFailed \<and> msg = Some (ad_describe C x) \<and> b = HandlerFailed e"
    using rest h by (cases hr) (auto simp: tryE_def bindE_Inr_iff retE_def)
  note u' = update_terminal_cases [OF ok u]
  have "body_records V C (lr_key rq) hr b w'"
    using b u'(1,4-6) by (auto simp: body_records_def split: sum.splits)
  with that put_pending_cases [OF assms(1) p] h u'(2) show thesis by blast
qed

lemma body_agree:
  assumes "admin_setting E V C" "intended V C A rid w"
    and "\<And>w1. admitted V C A (lr_key rq) w1 \<Longrightarrow> h1 (lr_params rq) w1 = h2 (lr_params rq) w1"
  shows "lifecycle_body E C rq h1 rid w = lifecycle_body E C rq h2 rid w"
proof -
  obtain q w1 where p: "put_pending E C (lr_key rq) rid w = (q, w1)" by fastforce
  show ?thesis
  proof (cases q)
    case (Inr seed)
    with p put_pending_cases(1) [OF assms(1) _ assms(2)] have "admitted V C A (lr_key rq) w1" by simp
    from assms(3) [OF this] show ?thesis using p Inr by (simp add: lifecycle_body_def bindE_def tryE_def)
  qed (use p in \<open>simp add: lifecycle_body_def bindE_def\<close>)
qed

text \<open>The rows around it.\<close>

lemma intent_cases:
  assumes "admin_setting E V C"
    and "put_item E (ad_audit_table C) (intent_item A rid (isoformat t)) CTrue w = (Inr u, w')"
  shows "intended V C A rid w'" "trace w' = trace w"
proof -
  have ok: "ddb_ok E V"
    and key: "ddb_item (key_of E (ad_audit_table C) (intent_item A rid (isoformat t))) =
      [(''pk'', audit_pk A), (''sk'', PStr (isoformat t @ ''#'' @ rid))]"
    using assms(1) by (simp_all add: admin_setting_def key_of_def intent_item_def dget_Cons ddb_item_def audit_pk_def)
  note p' = put_item_cases [OF ok assms(2) refl, unfolded key]
  from p'(1) have now: "rows V w' = store_row (rows V w) (ad_audit_table C)
      [(''pk'', audit_pk A), (''sk'', PStr (isoformat t @ ''#'' @ rid))] (ddb_item (intent_item A rid (isoformat t)))"
    by (simp add: write_outcome_simps)
  show "intended V C A rid w'"
    unfolding intended_def by (rule exI [of _ t]) (simp add: audit_row_def now store_row_apply)
  show "trace w' = trace w" using p'(2) by simp
qed

lemma audit_lifecycle_agree:
  assumes "admin_setting E V C" "\<And>rid w. intended V C A rid w \<Longrightarrow> b1 rid w = b2 rid w"
  shows "audit_lifecycle E C A b1 w = audit_lifecycle E C A b2 w"
proof -
  obtain rid w1 where i: "new_id E w = (Inr rid, w1)" by (auto simp: new_id_def tick_def)
  obtain t w2 where t: "utcnow E w1 = (Inr t, w2)" by (auto simp: utcnow_def tick_def)
  obtain q w3 where p: "put_item E (ad_audit_table C) (intent_item A rid (isoformat t)) CTrue w2 = (q, w3)" by fastforce
  show ?thesis
  proof (cases q)
    case (Inr u)
    with assms(2) [OF intent_cases(1) [OF assms(1)]] p have "b1 rid w3 = b2 rid w3" by blast
    with i t p Inr show ?thesis by (simp add: audit_lifecycle_def bindE_def tryE_def)
  qed (use i t p in \<open>simp add: audit_lifecycle_def bindE_def\<close>)
qed

lemma audit_lifecycle_cases:
  assumes "admin_setting E V C" "audit_lifecycle E C A body w = (Inr b, w')"
  obtains rid w1 w2 now where "intended V C A rid w1" "trace w1 = trace w" "body rid w1 = (Inr b, w2)"
    "trace w' = trace w2" "\<And>key. state_row V C w' key = state_row V C w2 key"
    "audit_row V C w' A (isoformat now @ ''#'' @ rid @ ''#outcome'') =
       Some (ddb_item (outcome_item A rid (isoformat now) (failure_of b)))"
proof -
  obtain rid wa where i: "new_id E w = (Inr rid, wa)" by (auto simp: new_id_def tick_def)
  obtain t wb where t: "utcnow E wa = (Inr t, wb)" by (auto simp: utcnow_def tick_def)
  from assms(2) i t obtain u w1 w2 u' where
    p: "put_item E (ad_audit_table C) (intent_item A rid (isoformat t)) CTrue wb = (Inr u, w1)"
    and body: "body rid w1 = (Inr b, w2)" and o: "write_outcome_row E C A rid (failure_of b) w2 = (Inr u', w')"
    unfolding audit_lifecycle_def by (auto simp: bindE_Inr_iff tryE_iff retE_def raiseE_def)
  have "trace wb = trace w"
    using tick_cases(2) [OF i [unfolded new_id_def]] tick_cases(2) [OF t [unfolded utcnow_def]] by simp
  with that intent_cases [OF assms(1) p] body write_outcome_row_cases [OF assms(1) o] show thesis by metis
qed


lemma commit_cases:
  assumes "admin_setting E V C" "lifecycle_commit E C actor rq op_nm target handler w = (Inr b, w')"
  obtains rid now w1 hr w2 where "trace w1 = trace w" "admitted V C (audit_of C actor rq op_nm target) (lr_key rq) w1"
    "handler (lr_params rq) w1 = (hr, w2)" "trace w' = trace w2" "body_records V C (lr_key rq) hr b w'"
    "audit_row V C w' (audit_of C actor rq op_nm target) (isoformat now @ ''#'' @ rid @ ''#outcome'') =
       Some (ddb_item (outcome_item (audit_of C actor rq op_nm target) rid (isoformat now) (failure_of b)))"
proof -
  from assms(2) have "audit_lifecycle E C (audit_of C actor rq op_nm target) (lifecycle_body E C rq handler) w = (Inr b, w')"
    by (simp add: lifecycle_commit_def audit_of_def)
  from audit_lifecycle_cases [OF assms(1) this] obtain rid wa wb now where
    a: "intended V C (audit_of C actor rq op_nm target) rid wa" "trace wa = trace w"
      "lifecycle_body E C rq handler rid wa = (Inr b, wb)" "trace w' = trace wb"
      "\<And>key. state_row V C w' key = state_row V C wb key"
      "audit_row V C w' (audit_of C actor rq op_nm target) (isoformat now @ ''#'' @ rid @ ''#outcome'') =
       Some (ddb_item (outcome_item (audit_of C actor rq op_nm target) rid (isoformat now) (failure_of b)))"
    by metis
  from body_cases [OF assms(1) a(3)] a(1) obtain w1 hr w2 where
    b: "admitted V C (audit_of C actor rq op_nm target) (lr_key rq) w1" "trace w1 = trace wa"
      "handler (lr_params rq) w1 = (hr, w2)" "trace wb = trace w2" "body_records V C (lr_key rq) hr b wb"
    by metis
  show thesis by (rule that) (use a b in \<open>auto simp: body_records_def\<close>)
qed

text \<open>A submission that was not answered from the store is an execution.\<close>

lemma submission_cases:
  assumes "ddb_ok E V" "execute_or_envelope E C actor rq op_nm handler expected target w = (Inr x, w')"
  obtains (cached) "stored_envelope C (state_row V C w (lr_key rq)) = Some x" "rows V w' = rows V w" "trace w' = trace w"
  | (executed) w1 b where "stored_envelope C (state_row V C w (lr_key rq)) = None" "lr_confirmation rq = expected"
      "rows V w1 = rows V w" "trace w1 = trace w"
      "lifecycle_commit E C actor rq op_nm target handler w1 = (Inr b, w')" "x = envelope_of b"
proof -
  obtain q w1 where g: "lifecycle_check E C rq expected w = (q, w1)" by fastforce
  note c = check_cases [OF assms(1) g]
  show thesis
  proof (cases q)
    case (Inl e)
    with assms(2) g show thesis by (simp add: execute_or_envelope_def execute_lifecycle_def bindE_def)
  next
    case (Inr i)
    show thesis
    proof (cases i)
      case None
      with Inr g assms(2) show thesis
        using executed [of w1] c by (auto simp: execute_or_envelope_def execute_lifecycle_def bindE_def retE_def
            split: prod.splits sum.splits)
    next
      case (Some e)
      with Inr g assms(2) show thesis
        using cached c by (auto simp: execute_or_envelope_def execute_lifecycle_def bindE_def retE_def)
    qed
  qed
qed

section \<open>Repeated submissions\<close>

definition envelopes_load :: "admin_cfg \<Rightarrow> bool" where
  "envelopes_load C \<longleftrightarrow> (\<forall>e. \<exists>e'. ad_load C (ad_dump C e) = Inr e')"

lemma terminal_is_stored:
  assumes "envelopes_load C" "terminal_row C e row"
  shows "stored_envelope C row \<noteq> None"
proof -
  obtain e' where "ad_load C (ad_dump C e) = Inr e'" using assms(1) by (auto simp: envelopes_load_def)
  with assms(2) show ?thesis by (auto simp: terminal_row_def stored_envelope_def dget_def dget_or_def)
qed

interpretation lifecycle_once: at_most_once "admin_setting E V C \<and> envelopes_load C" V
    "\<lambda>(op, claims, rq). lifecycle_route E C op claims rq" "\<lambda>(op, claims, rq) key. lr_key rq = key"
    "\<lambda>key w. stored_envelope C (state_row V C w key) \<noteq> None" for E V C
proof (unfold_locales, goal_cases)
  case (1 rq key w x w')
  obtain op claims r where rq: "rq = (op, claims, r)" by (cases rq)
  have ok: "ddb_ok E V" and S: "admin_setting E V C" using 1 by (simp_all add: admin_setting_def)
  from 1 have run: "execute_or_envelope E C (cl_sub claims) r (op_name op) (handler_of E C (cl_sub claims) op)
      (confirmation_of op) (target_of op) w = (Inr x, w')" and key: "lr_key r = key"
    by (simp_all add: lifecycle_route_def rq)
  from ok run show ?case
  proof (cases rule: submission_cases)
    case cached
    with key show ?thesis by (simp add: state_row_def)
  next
    case (executed w1 b)
    from commit_cases [OF S executed(5)] have "terminal_row C (envelope_of b) (state_row V C w' (lr_key r))"
      by (metis body_records_def)
    with 1 key show ?thesis by (auto dest: terminal_is_stored)
  qed
next
  case (2 rq key w r w')
  obtain op claims q where rq: "rq = (op, claims, q)" by (cases rq)
  from 2 obtain e where "stored_envelope C (state_row V C w (lr_key q)) = Some e" by (auto simp: rq)
  from settled_key_answers(1,2) [OF _ this] 2 show ?case
    by (auto simp: rq lifecycle_route_def nothing_done_def admin_setting_def)
next
  case (3 w w' key)
  then show ?case by (simp add: nothing_done_def state_row_def)
qed

section \<open>Properties: the orchestrator\<close>

text \<open>
  C7. Submitting again does nothing: once a submission was answered, any number of further submissions
  under its idempotency key, for whatever operation, by whatever administrator, changes no row and makes
  no call.
\<close>

theorem lifecycle_repeats_do_nothing:
  assumes "admin_setting E V C" "envelopes_load C" "lifecycle_route E C op claims rq w = (Inr x, w')"
    and "\<forall>(op', claims', rq') \<in> set later. lr_key rq' = lr_key rq"
  shows "nothing_done V w' (submit_all (\<lambda>(op, claims, rq). lifecycle_route E C op claims rq) later w')"
  by (rule lifecycle_once.repeats_do_nothing [where k = "lr_key rq" and rq = "(op, claims, rq)"])
    (use assms in auto)

text \<open>
  C36. The answer and the two records agree: an executed operation was confirmed, its envelope is stored
  as the terminal state of its key, and the outcome row of the audit log says success exactly when the
  envelope says succeeded; any other ending is a failed envelope.
\<close>

theorem lifecycle_outcome:
  assumes "admin_setting E V C" "stored_envelope C (state_row V C w (lr_key rq)) = None"
    and "lifecycle_route E C op claims rq w = (Inr e, w')"
  shows "lr_confirmation rq = confirmation_of op \<and> terminal_row C e (state_row V C w' (lr_key rq)) \<and>
    (\<exists>now rid failure. let A = audit_of C (cl_sub claims) rq (op_name op) (target_of op) in
       audit_row V C w' A (isoformat now @ ''#'' @ rid @ ''#outcome'') =
         Some (ddb_item (outcome_item A rid (isoformat now) failure)) \<and>
       le_status e = (if failure = None then LsSucceeded else LsFailed))"
proof -
  have ok: "ddb_ok E V" using assms(1) by (simp add: admin_setting_def)
  from ok assms(3) [unfolded lifecycle_route_def] show ?thesis
  proof (cases rule: submission_cases)
    case cached
    with assms(2) show ?thesis by simp
  next
    case (executed w1 b)
    from commit_cases [OF assms(1) executed(5)] obtain rid now hr where
      records: "body_records V C (lr_key rq) hr b w'"
      and row: "audit_row V C w' (audit_of C (cl_sub claims) rq (op_name op) (target_of op)) (isoformat now @ ''#'' @ rid @ ''#outcome'') =
       Some (ddb_item (outcome_item (audit_of C (cl_sub claims) rq (op_name op) (target_of op)) rid (isoformat now) (failure_of b)))"
      by metis
    have "le_status e = (if failure_of b = None then LsSucceeded else LsFailed)"
      using records executed(6) by (auto simp: body_records_def split: sum.splits)
    then show ?thesis
      unfolding Let_def
      by (intro conjI exI [of _ now] exI [of _ rid] exI [of _ "failure_of b"])
        (use records row executed(2,6) in \<open>simp_all add: body_records_def\<close>)
  qed
qed

text \<open>
  C8. No operation without its record: what a handler does matters only when the confirmation is the
  expected one, the intent (this actor, action, target and reason) is stored in the audit log and the key
  is marked pending under that intent; two handlers that agree in such worlds cannot be told apart.
\<close>

theorem handler_needs_intent:
  assumes "admin_setting E V C"
    and "\<And>w1. lr_confirmation rq = expected \<Longrightarrow> admitted V C (audit_of C actor rq op_nm target) (lr_key rq) w1 \<Longrightarrow>
           h1 (lr_params rq) w1 = h2 (lr_params rq) w1"
  shows "execute_or_envelope E C actor rq op_nm h1 expected target w =
    execute_or_envelope E C actor rq op_nm h2 expected target w"
proof -
  have ok: "ddb_ok E V" using assms(1) by (simp add: admin_setting_def)
  obtain q w1 where g: "lifecycle_check E C rq expected w = (q, w1)" by fastforce
  have "lifecycle_commit E C actor rq op_nm target h1 w1 = lifecycle_commit E C actor rq op_nm target h2 w1" if "q = Inr None"
    unfolding lifecycle_commit_def
  proof (rule audit_lifecycle_agree [OF assms(1)], rule body_agree [OF assms(1)])
    fix rid w0 w2
    show "intended V C \<lparr>ac_actor = actor, ac_action = op_nm, ac_target = target,
        ac_reason = py_str C (dget_or (lr_params rq) ''reason'' (PStr []))\<rparr> rid w0 \<Longrightarrow>
      intended V C (audit_of C actor rq op_nm target) rid w0" by (simp add: audit_of_def)
    show "h1 (lr_params rq) w2 = h2 (lr_params rq) w2" if "admitted V C (audit_of C actor rq op_nm target) (lr_key rq) w2"
      by (rule assms(2)) (use check_cases(4) [OF ok g] \<open>q = Inr None\<close> that in auto)
  qed
  with g show ?thesis
    by (cases q) (auto simp: execute_or_envelope_def execute_lifecycle_def bindE_def split: option.splits)
qed

text \<open>
  A confirmation names one operation on one target: no text that confirms an operation confirms any
  other, so a confirmation typed for one target never releases an operation on another.
\<close>

lemma confirmation_names_operation: "confirmation_of a = confirmation_of b \<longleftrightarrow> a = b"
  by (cases a; cases b; simp)

lemma kill_batch_trace:
  assumes "kill_batch_handler E C job params w = (Inr res, w')"
  shows "\<exists>reason. trace w' = trace w @ [BatchTerminate job reason]"
proof -
  from assms obtain reason now w1 rq where "required_reason C ''kill-batch-job'' params = Inr reason"
    and t: "utcnow E w = (Inr now, w1)" and j: "terminate_job E C job reason w1 = (Inr rq, w')"
    unfolding kill_batch_handler_def by (auto simp: bindE_Inr_iff liftE_def retE_def)
  from j obtain resp where "invoke E (BatchTerminate job reason) w1 = (Inr resp, w')"
    unfolding terminate_job_def by (auto simp: bindE_Inr_iff raiseE_def retE_def split: option.splits)
  from invoke_cases(2) [OF this] tick_cases(2) [OF t [unfolded utcnow_def]] show ?thesis by auto
qed

text \<open>
  C38. Overlapping submissions are both executed: the check only reads and the pending mark is written
  unconditionally, so two requests under one key whose checks both precede the first mark both reach the
  handler, and Batch is asked twice to terminate the job.
\<close>

theorem overlapping_submissions_both_run:
  assumes "admin_setting E V C"
    and "lifecycle_check E C rq (confirmation_of (KillBatchJob job)) w = (Inr None, w1)"
    and "lifecycle_check E C rq (confirmation_of (KillBatchJob job)) w1 = (Inr None, w2)"
    and "lifecycle_commit E C actor rq nm target (kill_batch_handler E C job) w2 = (Inr (Finished e1), w3)"
    and "lifecycle_commit E C actor' rq nm target (kill_batch_handler E C job) w3 = (Inr (Finished e2), w4)"
  shows "\<exists>reason reason'. trace w4 = trace w @ [BatchTerminate job reason, BatchTerminate job reason']"
proof -
  have ok: "ddb_ok E V" using assms(1) by (simp add: admin_setting_def)
  have once: "\<exists>reason. trace b = trace a @ [BatchTerminate job reason]"
    if commit: "lifecycle_commit E C who rq nm target (kill_batch_handler E C job) a = (Inr (Finished e), b)" for who e a b
  proof -
    from commit_cases [OF assms(1) commit] obtain wa hr wb where run: "trace wa = trace a"
      "kill_batch_handler E C job (lr_params rq) wa = (hr, wb)" "trace b = trace wb"
      "body_records V C (lr_key rq) hr (Finished e) b" by metis
    then obtain res where "hr = Inr res" by (auto simp: body_records_def split: sum.splits)
    with run kill_batch_trace show ?thesis by metis
  qed
  have "trace w2 = trace w" using check_cases(2) [OF ok assms(2)] check_cases(2) [OF ok assms(3)] by simp
  moreover obtain r where "trace w3 = trace w2 @ [BatchTerminate job r]" using once [OF assms(4)] by blast
  moreover obtain r' where "trace w4 = trace w3 @ [BatchTerminate job r']" using once [OF assms(5)] by blast
  ultimately show ?thesis by simp
qed

section \<open>Blocking a user's sessions\<close>

definition session_row :: "'t db_view \<Rightarrow> admin_cfg \<Rightarrow> 't world \<Rightarrow> pyval \<Rightarrow> item option" where
  "session_row V C w sid = rows V w (ad_sessions_table C) (ddb_item (admin_session_key sid))"

definition errored :: "item option \<Rightarrow> bool" where
  "errored row \<longleftrightarrow> (\<exists>it. row = Some it \<and> dget it ''status'' = PStr ''errored'')"

text \<open>The ids updated before the first failure are errored, in the order of the page; other rows are untouched.\<close>

lemma block_loop_cases:
  assumes "ddb_ok E V" "block_loop E C now reason its blocked w = (Inr (ids, failure), w')"
  shows "\<exists>new. ids = blocked @ new \<and> (\<forall>k. k \<in> set new \<longrightarrow> errored (session_row V C w' k)) \<and>
     (\<exists>rest. map (\<lambda>it. dget it ''session_id'') its = new @ rest \<and> (failure = None \<longrightarrow> rest = [])) \<and>
     (\<forall>k. errored (session_row V C w k) \<longrightarrow> errored (session_row V C w' k))"
  using assms(2)
proof (induction its arbitrary: blocked w)
  case Nil
  then show ?case by (auto simp: retE_def)
next
  case (Cons it its)
  obtain sid where sid: "map_of it ''session_id'' = Some sid" 
    using Cons.prems by (auto simp: raiseE_def split: option.splits)
  let ?us = "[SetAttr ''status'' (PStr ''errored''), SetAttr ''terminated_at'' (PStr (isoformat now)),
                   SetAttr ''termination_reason'' (PStr reason),
                   SetAttr ''termination_source'' (PStr ''tier3.block-user-sessions'')]"
  obtain q w1 where u: "update_item E (ad_sessions_table C) (admin_session_key sid) ?us (AttrExists ''session_id'') w = (q, w1)"
    by fastforce
  note u' = update_item_cases(1) [OF assms(1) u]
  have keep: "errored (session_row V C w1 k)" if "errored (session_row V C w k)" for k
    using write_outcome_weak [OF u'] that
    by (auto simp: session_row_def store_row_apply errored_def updated_row_def dget_def dget_or_def)
  have dsid: "dget it ''session_id'' = sid" using sid by (simp add: dget_def dget_or_def)
  show ?case
  proof (cases q)
    case (Inl e)
    with Cons.prems u sid have "ids = blocked \<and> w' = w1 \<and> failure \<noteq> None"
      by (auto simp: tryE_def retE_def raiseE_def split: if_splits)
    with keep show ?thesis by (intro exI [of _ "[]"]) auto
  next
    case (Inr new_item)
    with Cons.prems u sid have "block_loop E C now reason its (blocked @ [sid]) w1 = (Inr (ids, failure), w')"
      by (simp add: tryE_def)
    from Cons.IH [OF this] obtain new rest where IH: "ids = (blocked @ [sid]) @ new"
      "\<forall>k. k \<in> set new \<longrightarrow> errored (session_row V C w' k)"
      "map (\<lambda>it. dget it ''session_id'') its = new @ rest" "failure = None \<longrightarrow> rest = []"
      "\<forall>k. errored (session_row V C w1 k) \<longrightarrow> errored (session_row V C w' k)" by blast
    have "errored (session_row V C w1 sid)"
      using u' Inr by (auto simp: write_outcome_simps session_row_def store_row_apply errored_def updated_row_def dget_def dget_or_def)
    with IH keep dsid show ?thesis
      by (intro exI [of _ "sid # new"] conjI exI [of _ rest]) auto
  qed
qed

text \<open>
  C27. Blocking a user is complete on its page: when the operation reports success, every session of the
  page it read whose status it takes for active is errored, and it reports exactly their number; sessions
  with another status are counted as skipped.
\<close>

theorem blocked_sessions_are_errored:
  assumes "ddb_ok E V" "block_user_handler E C user_id params w = (Inr res, w')"
    and "query_items E (ad_sessions_table C) (user_sessions_query user_id) w = (Inr page, w1)"
  shows "(\<forall>it. it \<in> set (active_sessions (p_items page)) \<longrightarrow> errored (session_row V C w' (dget it ''session_id''))) \<and>
    dget res ''affected_count'' = PInt (int (length (active_sessions (p_items page)))) \<and>
    dget res ''skipped_count'' = PInt (int (length (p_items page)) - int (length (active_sessions (p_items page))))"
proof (cases "active_sessions (p_items page)")
  case Nil
  with assms(2,3) show ?thesis
    by (auto simp: block_user_handler_def bindE_def liftE_def retE_def Let_def dget_Cons split: sum.splits)
next
  case (Cons it its)
  let ?active = "active_sessions (p_items page)"
  from assms(2,3) Cons obtain now reason blocked w2 where
    run: "block_loop E C now reason ?active [] w2 = (Inr (blocked, None), w')"
    and res: "dget res ''affected_count'' = PInt (int (length blocked))"
      "dget res ''skipped_count'' = PInt (int (length (p_items page)) - int (length ?active))"
    by (auto simp: block_user_handler_def bindE_Inr_iff liftE_def retE_def raiseE_def Let_def dget_Cons
        split: option.splits)
  from block_loop_cases [OF assms(1) run] have
    b: "blocked = map (\<lambda>it. dget it ''session_id'') ?active" "\<forall>k. k \<in> set blocked \<longrightarrow> errored (session_row V C w' k)"
    by auto
  have "length blocked = length ?active" using b(1) by simp
  with res b show ?thesis by simp
qed

section \<open>Witnesses\<close>


definition lc_env :: "mem env" where
  "lc_env = mem_env (\<lambda>t. if t = ''state'' then [''idempotency_key''] else if t = ''audit'' then [''pk'', ''sk''] else [''session_id''])
     (\<lambda>cs c. Inr (PDict []))"

definition lc_cfg :: admin_cfg where
  "lc_cfg = \<lparr>ad_audit_table = ''audit'', ad_state_table = ''state'', ad_sessions_table = ''sessions'',
     ad_ingestion_table = ''ingestion'', ad_tenants_table = ''tenants'', ad_keys_table = ''keys'', ad_bus = ''bus'',
     ad_show = (\<lambda>v. ''value''), ad_describe = (\<lambda>e. ''error''), ad_dump = (\<lambda>e. status_value (le_status e)),
     ad_load = (\<lambda>s. Inr \<lparr>le_key = ''k'', le_status = LsPending, le_result = None, le_error = None, le_audit_id = ''id'',
        le_started = 0, le_finished = None\<rparr>)\<rparr>"

definition lc_claims :: jwt_claims where
  "lc_claims = \<lparr>cl_sub = ''adm'', cl_iss = ''i'', cl_aud = ''a'', cl_iat = 0, cl_exp = 1, cl_jti = None, cl_scopes = [],
     cl_role = Some ''admin'', cl_mfa_step_up_at = None\<rparr>"

definition lc_request :: lifecycle_request where
  "lc_request = \<lparr>lr_key = ''k'', lr_confirmation = ''KILL JOB j'', lr_params = [(''reason'', PStr ''r'')]\<rparr>"

definition lc_world :: "mem world" where
  "lc_world = \<lparr>db = (\<lambda>t k. None), trace = [], ticks = 0\<rparr>"

lemma lc_setting: "admin_setting lc_env mem_view lc_cfg" "envelopes_load lc_cfg"
  by (simp_all add: admin_setting_def lc_env_def lc_cfg_def mem_env_ok envelopes_load_def)


text \<open>On the in-memory environment writes without a condition return, so a commit returns with its handler.\<close>

lemma mem_put: "\<exists>w'. put_item (mem_env keys answer) tbl it CTrue w = (Inr (), w')"
  by (simp add: put_item_def on_db_def mem_env_def Let_def)

lemma mem_update: "\<exists>it w'. update_item (mem_env keys answer) tbl k us CTrue w = (Inr it, w')"
  by (simp add: update_item_def on_db_def mem_env_def Let_def)

lemma mem_commit:
  assumes "\<And>w. \<exists>res w'. handler (lr_params rq) w = (Inr res, w')"
  shows "\<exists>e w'. lifecycle_commit (mem_env keys answer) C actor rq nm target handler w = (Inr (Finished e), w')"
proof -
  let ?E = "mem_env keys answer"
  have pending: "\<exists>seed w'. put_pending ?E C (lr_key rq) rid w = (Inr seed, w')" for rid w
  proof -
    obtain now wa where "utcnow ?E w = (Inr now, wa)" by (auto simp: utcnow_def tick_def)
    with mem_put show ?thesis
      unfolding put_pending_def Let_def by (fastforce simp: bindE_Inr_iff retE_def)
  qed
  have terminal: "\<exists>e w'. update_terminal ?E C (lr_key rq) LsSucceeded res None rid st w = (Inr e, w')" for res rid st w
  proof -
    obtain now wa where "utcnow ?E w = (Inr now, wa)" by (auto simp: utcnow_def tick_def)
    with mem_update show ?thesis
      unfolding update_terminal_def Let_def by (fastforce simp: bindE_Inr_iff retE_def)
  qed
  have body: "\<exists>e w'. lifecycle_body ?E C rq handler rid w = (Inr (Finished e), w')" for rid w
  proof -
    obtain seed wa where a: "put_pending ?E C (lr_key rq) rid w = (Inr seed, wa)" using pending by blast
    obtain res wb where b: "handler (lr_params rq) wa = (Inr res, wb)" using assms by blast
    obtain e wc where "update_terminal ?E C (lr_key rq) LsSucceeded (Some res) None rid (le_started seed) wb = (Inr e, wc)"
      using terminal by blast
    with a b show ?thesis by (simp add: lifecycle_body_def bindE_def tryE_def retE_def)
  qed
  obtain rid wa where a: "new_id ?E w = (Inr rid, wa)" by (auto simp: new_id_def tick_def)
  obtain t wb where b: "utcnow ?E wa = (Inr t, wb)" by (auto simp: utcnow_def tick_def)
  let ?A = "audit_of C actor rq nm target"
  obtain wc where c: "put_item ?E (ad_audit_table C) (intent_item ?A rid (isoformat t)) CTrue wb = (Inr (), wc)"
    using mem_put by blast
  obtain e wd where d: "lifecycle_body ?E C rq handler rid wc = (Inr (Finished e), wd)" using body by blast
  obtain now we where n: "utcnow ?E wd = (Inr now, we)" by (auto simp: utcnow_def tick_def)
  obtain wf where f: "put_item ?E (ad_audit_table C) (outcome_item ?A rid (isoformat now) None) CTrue we = (Inr (), wf)"
    using mem_put by blast
  show ?thesis
    by (intro exI [of _ e] exI [of _ wf])
      (use a b c d n f in \<open>simp add: lifecycle_commit_def audit_lifecycle_def audit_of_def bindE_def tryE_def write_outcome_row_def retE_def\<close>)
qed

lemma lc_reason: "required_reason lc_cfg ''kill-batch-job'' (lr_params lc_request) = Inr ''r''"
  by code_simp

lemma lc_handler: "\<exists>res w'. kill_batch_handler lc_env lc_cfg ''j'' (lr_params lc_request) w = (Inr res, w')"
  unfolding kill_batch_handler_def lc_reason
  by (simp add: bindE_def liftE_def retE_def utcnow_def tick_def terminate_job_def invoke_def lc_env_def dget_or_def)

lemma lc_commit: "\<exists>e w'. lifecycle_commit lc_env lc_cfg actor lc_request nm target (kill_batch_handler lc_env lc_cfg ''j'') w = (Inr (Finished e), w')"
  unfolding lc_env_def by (rule mem_commit) (use lc_handler in \<open>simp add: lc_env_def\<close>)

lemma lc_check: "db w = (\<lambda>t k. None) \<Longrightarrow> lifecycle_check lc_env lc_cfg lc_request ''KILL JOB j'' w = (Inr None, w)"
  by (simp add: lifecycle_check_def lifecycle_get_def get_item_def on_db_def bindE_def retE_def lc_env_def mem_env_def lc_request_def)

lemma lc_run: "\<exists>e w'. lifecycle_route lc_env lc_cfg (KillBatchJob ''j'') lc_claims lc_request lc_world = (Inr e, w')"
proof -
  obtain e w' where "lifecycle_commit lc_env lc_cfg ''adm'' lc_request ''kill-batch-job'' [(''job_id'', PStr ''j'')]
    (kill_batch_handler lc_env lc_cfg ''j'') lc_world = (Inr (Finished e), w')" using lc_commit by blast
  with lc_check [of lc_world] show ?thesis
    by (simp add: lifecycle_route_def execute_or_envelope_def execute_lifecycle_def bindE_def retE_def lc_claims_def lc_world_def)
qed

lemma lc_free: "stored_envelope lc_cfg (state_row mem_view lc_cfg lc_world (lr_key lc_request)) = None"
  by (simp add: stored_envelope_def state_row_def mem_view_def lc_world_def)

lemma lifecycle_repeats_do_nothing_witness:
  "\<exists>x w'. lifecycle_route lc_env lc_cfg (KillBatchJob ''j'') lc_claims lc_request lc_world = (Inr x, w') \<and>
     nothing_done mem_view w' (submit_all (\<lambda>(op, claims, rq). lifecycle_route lc_env lc_cfg op claims rq)
       [(TerminateSession ''s'', lc_claims, lc_request), (KillBatchJob ''j'', lc_claims, lc_request)] w')"
proof -
  obtain x w' where run: "lifecycle_route lc_env lc_cfg (KillBatchJob ''j'') lc_claims lc_request lc_world = (Inr x, w')"
    using lc_run by blast
  from lifecycle_repeats_do_nothing [OF lc_setting run, where later =
    "[(TerminateSession ''s'', lc_claims, lc_request), (KillBatchJob ''j'', lc_claims, lc_request)]"] run
  show ?thesis by auto
qed

lemma lifecycle_outcome_witness:
  "\<exists>e w'. lifecycle_route lc_env lc_cfg (KillBatchJob ''j'') lc_claims lc_request lc_world = (Inr e, w') \<and>
     terminal_row lc_cfg e (state_row mem_view lc_cfg w' ''k'')"
proof -
  obtain x w' where run: "lifecycle_route lc_env lc_cfg (KillBatchJob ''j'') lc_claims lc_request lc_world = (Inr x, w')"
    using lc_run by blast
  from lifecycle_outcome [OF lc_setting(1) lc_free run] run show ?thesis by (auto simp: lc_request_def)
qed

text \<open>A handler that refuses to run without a stored state is the handler.\<close>

lemma handler_needs_intent_witness:
  "execute_or_envelope lc_env lc_cfg ''adm'' lc_request ''kill-batch-job'' (kill_batch_handler lc_env lc_cfg ''j'') ''KILL JOB j''
       [(''job_id'', PStr ''j'')] lc_world =
   execute_or_envelope lc_env lc_cfg ''adm'' lc_request ''kill-batch-job''
       (\<lambda>params w. if state_row mem_view lc_cfg w ''k'' = None then raiseE TypeError w
                   else kill_batch_handler lc_env lc_cfg ''j'' params w) ''KILL JOB j'' [(''job_id'', PStr ''j'')] lc_world"
  by (rule handler_needs_intent [OF lc_setting(1)]) (auto simp: admitted_def lc_request_def)

lemma overlapping_submissions_both_run_witness:
  "\<exists>e1 e2 w3 w4 reason reason'.
     lifecycle_commit lc_env lc_cfg ''adm'' lc_request ''kill-batch-job'' [] (kill_batch_handler lc_env lc_cfg ''j'') lc_world =
       (Inr (Finished e1), w3) \<and>
     lifecycle_commit lc_env lc_cfg ''adm'' lc_request ''kill-batch-job'' [] (kill_batch_handler lc_env lc_cfg ''j'') w3 =
       (Inr (Finished e2), w4) \<and> trace w4 = [BatchTerminate ''j'' reason, BatchTerminate ''j'' reason']"
proof -
  obtain e1 w3 where a: "lifecycle_commit lc_env lc_cfg ''adm'' lc_request ''kill-batch-job'' []
      (kill_batch_handler lc_env lc_cfg ''j'') lc_world = (Inr (Finished e1), w3)" using lc_commit by blast
  obtain e2 w4 where b: "lifecycle_commit lc_env lc_cfg ''adm'' lc_request ''kill-batch-job'' []
      (kill_batch_handler lc_env lc_cfg ''j'') w3 = (Inr (Finished e2), w4)" using lc_commit by blast
  have check: "lifecycle_check lc_env lc_cfg lc_request (confirmation_of (KillBatchJob ''j'')) lc_world = (Inr None, lc_world)"
    using lc_check by (simp add: lc_world_def)
  from overlapping_submissions_both_run [OF lc_setting(1) check check a b] a b show ?thesis
    by (auto simp: lc_world_def)
qed

text \<open>A page with an active and a finished session.\<close>

definition lc_sessions :: "item list" where
  "lc_sessions = [[(''session_id'', PStr ''s1''), (''status'', PStr ''active'')],
                  [(''session_id'', PStr ''s2''), (''status'', PStr ''completed'')]]"

definition lc_block_env :: "mem env" where
  "lc_block_env = lc_env\<lparr>d_query := (\<lambda>tbl q t. (Inr \<lparr>p_items = lc_sessions, p_last = None\<rparr>, t))\<rparr>"

definition lc_block_world :: "mem world" where
  "lc_block_world = lc_world\<lparr>db := (\<lambda>t k. if t = ''sessions'' \<and> k = [(''session_id'', PStr ''s1'')] then Some (hd lc_sessions) else None)\<rparr>"

lemma lc_block_ok: "ddb_ok lc_block_env mem_view"
proof -
  have "reads_ok lc_env mem_view" "writes_ok lc_env mem_view"
    using mem_env_ok unfolding lc_env_def ddb_ok_def by blast+
  then show ?thesis by (simp add: ddb_ok_def reads_ok_def writes_ok_def lc_block_env_def mem_view_def key_of_def)
qed

lemma lc_block_reason: "required_reason lc_cfg ''block-user-sessions'' (lr_params lc_request) = Inr ''r''"
  by code_simp

lemma lc_active: "active_sessions lc_sessions = [hd lc_sessions]"
  by (simp add: active_sessions_def lc_sessions_def active_statuses_def dget_def dget_or_def)

lemma lc_query: "query_items lc_block_env t q w = (Inr \<lparr>p_items = lc_sessions, p_last = None\<rparr>, w)"
  by (simp add: query_items_def on_db_def lc_block_env_def)

lemma lc_update:
  "\<exists>it w'. update_item lc_block_env ''sessions'' [(''session_id'', PStr ''s1'')] us (AttrExists ''session_id'') (lc_block_world\<lparr>ticks := n\<rparr>) = (Inr it, w')"
  by (simp add: update_item_def on_db_def lc_block_env_def lc_env_def mem_env_def Let_def lc_block_world_def lc_sessions_def ddb_item_def)

lemma lc_block_run: "\<exists>res w'. block_user_handler lc_block_env lc_cfg ''u'' (lr_params lc_request) lc_block_world = (Inr res, w')"
proof -
  obtain now where t: "utcnow lc_block_env lc_block_world = (Inr now, lc_block_world\<lparr>ticks := 1\<rparr>)"
    by (auto simp: utcnow_def tick_def lc_block_world_def lc_world_def)
  have sid: "map_of (hd lc_sessions) ''session_id'' = Some (PStr ''s1'')" by (simp add: lc_sessions_def)
  obtain it w' where "update_item lc_block_env ''sessions'' [(''session_id'', PStr ''s1'')]
      [SetAttr ''status'' (PStr ''errored''), SetAttr ''terminated_at'' (PStr (isoformat now)),
                   SetAttr ''termination_reason'' (PStr ''r''),
                   SetAttr ''termination_source'' (PStr ''tier3.block-user-sessions'')]
      (AttrExists ''session_id'') (lc_block_world\<lparr>ticks := 1\<rparr>) = (Inr it, w')" using lc_update by blast
  then have "block_loop lc_block_env lc_cfg now ''r'' [hd lc_sessions] [] (lc_block_world\<lparr>ticks := 1\<rparr>) = (Inr ([PStr ''s1''], None), w')"
    using sid by (simp add: tryE_def retE_def admin_session_key_def lc_cfg_def)
  with t show ?thesis
    unfolding block_user_handler_def lc_block_reason
    by (simp add: bindE_def liftE_def retE_def lc_query lc_active Let_def)
qed

lemma blocked_sessions_are_errored_witness:
  "\<exists>res w'. block_user_handler lc_block_env lc_cfg ''u'' (lr_params lc_request) lc_block_world = (Inr res, w') \<and>
     errored (session_row mem_view lc_cfg w' (PStr ''s1'')) \<and> dget res ''skipped_count'' = PInt 1"
proof -
  obtain res w' where run: "block_user_handler lc_block_env lc_cfg ''u'' (lr_params lc_request) lc_block_world = (Inr res, w')"
    using lc_block_run by blast
  from blocked_sessions_are_errored [OF lc_block_ok run lc_query] run show ?thesis
    by (auto simp: lc_active) (simp add: lc_sessions_def dget_def dget_or_def)+
qed

end
