(* ===== verification/Cost_Rollup.thy ===== *)
theory Cost_Rollup
  imports Cloud Py_Number Auth
begin

text \<open>
  The tenant cost rollup: the store of \<^verbatim>\<open>cost-api/.../tenant_rollup.py\<close>, the nightly aggregator
  (\<^verbatim>\<open>cost-rollup-aggregator/.../aggregator.py\<close> and \<^verbatim>\<open>handler.py\<close>), the response cache
  (\<^verbatim>\<open>cost-api/.../cache.py\<close>) and the by-tenant route (\<^verbatim>\<open>cost-api/.../routes/cost.py\<close>). A date is its
  number of days since the epoch. Scans and paged Cost Explorer calls run with fuel \<open>cc_pages\<close>. The
  conversion \<^verbatim>\<open>date.fromisoformat\<close>, the rendering \<^verbatim>\<open>str\<close> of values that are not strings, the hash of a
  cache key and the JSON form of a cached model are parameters.
\<close>

record cost_config =
  rollup_table :: string
  cost_cache_table :: string
  cc_pages :: nat
  cc_show :: "pyval \<Rightarrow> string"
  parse_day :: "string \<Rightarrow> int option"
  sha256_hex :: "item \<Rightarrow> string"

definition cost_out_of_fuel :: exn where
  "cost_out_of_fuel = OtherError ''OutOfFuel'' ''pages''"

definition cost_str :: "cost_config \<Rightarrow> pyval \<Rightarrow> string" where
  "cost_str C v = (case as_str v of Some s \<Rightarrow> s | None \<Rightarrow> cc_show C v)"

lemma cost_str_PStr [simp]: "cost_str C (PStr s) = s"
  by (simp add: cost_str_def)

definition day_micros :: int where
  "day_micros = 86400000000"

section \<open>Rollup rows\<close>

text \<open>\<^verbatim>\<open>date.isoformat\<close>.\<close>

definition iso_date :: "int \<Rightarrow> string" where
  "iso_date day = (let (y, m, d) = civil_from_days day in pad_int 4 y @ ''-'' @ pad_int 2 m @ ''-'' @ pad_int 2 d)"

definition make_day_service_key :: "int \<Rightarrow> string \<Rightarrow> string" where
  "make_day_service_key day service = iso_date day @ ''#'' @ service"

definition day_prefix :: "int \<Rightarrow> string" where
  "day_prefix day = iso_date day @ ''#''"

record daily_rollup_row =
  dr_tenant :: string
  dr_day :: int
  dr_service :: string
  dr_cents :: int

definition day_of :: "cost_config \<Rightarrow> string \<Rightarrow> exn + int" where
  "day_of C s = (case parse_day C s of Some d \<Rightarrow> Inr d | None \<Rightarrow> Inl (ValueError s))"

definition row_halves :: "cost_config \<Rightarrow> item \<Rightarrow> exn + (pyval \<times> pyval)" where
  "row_halves C it =
     (if dget it ''day'' \<noteq> PNone \<and> dget it ''service'' \<noteq> PNone then Inr (dget it ''day'', dget it ''service'')
      else
        (case map_of it ''day_service'' of
           None \<Rightarrow> Inl (KeyError ''day_service'')
         | Some v \<Rightarrow>
             (let composite = cost_str C v in
              case dropWhile (\<lambda>c. c \<noteq> CHR ''#'') composite of
                [] \<Rightarrow> Inl (ValueError composite)
              | _ # service \<Rightarrow> Inr (PStr (takeWhile (\<lambda>c. c \<noteq> CHR ''#'') composite), PStr service))))"

definition row_from_item :: "cost_config \<Rightarrow> item \<Rightarrow> exn + daily_rollup_row" where
  "row_from_item C it =
     (case map_of it ''cost_cents'' of
        None \<Rightarrow> Inl (KeyError ''cost_cents'')
      | Some raw \<Rightarrow>
          (case to_int raw of
             None \<Rightarrow> Inl (ValueError (cost_str C raw))
           | Some cents \<Rightarrow>
               and_then (row_halves C it) (\<lambda>(day_val, service_val).
               case map_of it ''tenant_id'' of
                 None \<Rightarrow> Inl (KeyError ''tenant_id'')
               | Some tenant \<Rightarrow>
                   and_then (day_of C (cost_str C day_val)) (\<lambda>day.
                   Inr \<lparr>dr_tenant = cost_str C tenant, dr_day = day, dr_service = cost_str C service_val, dr_cents = cents\<rparr>))))"

definition rollup_item :: "string \<Rightarrow> int \<Rightarrow> string \<Rightarrow> int \<Rightarrow> item" where
  "rollup_item tenant day service cents =
     [(''tenant_id'', PStr tenant), (''day_service'', PStr (make_day_service_key day service)),
      (''day'', PStr (iso_date day)), (''service'', PStr service), (''cost_cents'', PInt cents)]"

definition put_rollup :: "'t env \<Rightarrow> cost_config \<Rightarrow> string \<Rightarrow> int \<Rightarrow> string \<Rightarrow> int \<Rightarrow> ('t world, unit) io" where
  "put_rollup E C tenant day service cents =
     (if cents < 0 then raiseE (ValueError ''cost_cents must be non-negative'')
      else if service = [] then raiseE (ValueError ''service must be non-empty'')
      else if CHR ''#'' \<in> set service then raiseE (ValueError ''service must not contain #'')
      else put_item E (rollup_table C) (rollup_item tenant day service cents) CTrue)"

text \<open>A scan page after page, with the items read so far.\<close>

fun scan_all :: "'t env \<Rightarrow> string \<Rightarrow> cond \<Rightarrow> nat \<Rightarrow> item option \<Rightarrow> item list \<Rightarrow> ('t world, item list) io" where
  "scan_all E tbl c 0 last_key items = raiseE cost_out_of_fuel"
| "scan_all E tbl c (Suc fuel) last_key items =
     bindE (scan_items E tbl c last_key) (\<lambda>page.
       (case p_last page of
          None \<Rightarrow> retE (items @ p_items page)
        | Some k \<Rightarrow> scan_all E tbl c fuel (Some k) (items @ p_items page)))"

definition query_all_tenants_for_day :: "'t env \<Rightarrow> cost_config \<Rightarrow> int \<Rightarrow> ('t world, daily_rollup_row list) io" where
  "query_all_tenants_for_day E C day =
     bindE (scan_all E (rollup_table C) (AttrPrefix ''day_service'' (day_prefix day)) (cc_pages C) None []) (\<lambda>items.
     liftE (map_records (row_from_item C) items))"

section \<open>The aggregator\<close>

definition untagged_tenant_id :: string where
  "untagged_tenant_id = ''__untagged__''"

definition unknown_service :: string where
  "unknown_service = ''__unknown__''"

text \<open>An amount that does not parse counts as zero, a negative one too.\<close>

definition usd_to_cents :: "string \<Rightarrow> exn + int" where
  "usd_to_cents amount =
     (case parse_decimal amount of
        None \<Rightarrow> Inr 0
      | Some NotFinite \<Rightarrow> Inl invalid_operation
      | Some (Decimal neg n e) \<Rightarrow>
          (let (m, f) = round28 (n * 100) e in
           case quantize_half_up m f of
             None \<Rightarrow> Inl invalid_operation
           | Some cents \<Rightarrow> Inr (if neg then 0 else int cents)))"

definition iter_groups :: "pyval \<Rightarrow> exn + pyval list" where
  "iter_groups response =
     and_then (resp_list response ''ResultsByTime'') (\<lambda>results.
       (case results of [] \<Rightarrow> Inr [] | first # _ \<Rightarrow> resp_list first ''Groups''))"

definition get_or_empty :: "pyval \<Rightarrow> string \<Rightarrow> exn + pyval" where
  "get_or_empty v k = and_then (get_attr v k) (\<lambda>x. Inr (py_or x (PDict [])))"

definition tenant_of_keys :: "cost_config \<Rightarrow> pyval list \<Rightarrow> string" where
  "tenant_of_keys C keys =
     (let raw = (case keys of [] \<Rightarrow> [] | k # _ \<Rightarrow> cost_str C k); tag_value = drop 1 (dropWhile (\<lambda>c. c \<noteq> CHR ''$'') raw)
      in if tag_value \<noteq> [] then tag_value else untagged_tenant_id)"

definition service_of_keys :: "cost_config \<Rightarrow> pyval list \<Rightarrow> string" where
  "service_of_keys C keys =
     (let raw = (case keys of _ # s # _ \<Rightarrow> cost_str C s | _ \<Rightarrow> []) in if raw \<noteq> [] then raw else unknown_service)"

definition parse_group :: "cost_config \<Rightarrow> pyval \<Rightarrow> exn + (string \<times> string \<times> int)" where
  "parse_group C grp =
     and_then (resp_list grp ''Keys'') (\<lambda>keys.
     and_then (get_or_empty grp ''Metrics'') (\<lambda>metrics.
     and_then (get_or_empty metrics ''UnblendedCost'') (\<lambda>unblended.
     (case as_dict unblended of
        None \<Rightarrow> Inl AttributeError
      | Some d \<Rightarrow>
          and_then (usd_to_cents (cost_str C (dget_or d ''Amount'' (PStr ''0'')))) (\<lambda>cents.
            Inr (tenant_of_keys C keys, service_of_keys C keys, cents))))))"

record tally =
  ag_rows :: nat
  ag_tenants :: "string list"
  ag_untagged :: int
  ag_calls :: nat

definition no_tally :: tally where
  "no_tally = \<lparr>ag_rows = 0, ag_tenants = [], ag_untagged = 0, ag_calls = 0\<rparr>"

definition count_group :: "string \<Rightarrow> int \<Rightarrow> tally \<Rightarrow> tally" where
  "count_group tenant cents t =
     t\<lparr>ag_rows := ag_rows t + 1, ag_tenants := List.insert tenant (ag_tenants t),
       ag_untagged := ag_untagged t + (if tenant = untagged_tenant_id then cents else 0)\<rparr>"

fun write_groups :: "'t env \<Rightarrow> cost_config \<Rightarrow> int \<Rightarrow> pyval list \<Rightarrow> tally \<Rightarrow> ('t world, tally) io" where
  "write_groups E C day [] t = retE t"
| "write_groups E C day (g # gs) t =
     bindE (liftE (parse_group C g)) (\<lambda>(tenant, service, cents).
     bindE (put_rollup E C tenant day service cents) (\<lambda>_.
     write_groups E C day gs (count_group tenant cents t)))"

definition ce_kwargs :: "int \<Rightarrow> pyval option \<Rightarrow> item" where
  "ce_kwargs day next_token =
     [(''TimePeriod'', PDict [(''Start'', PStr (iso_date day)), (''End'', PStr (iso_date (day + 1)))]),
      (''Granularity'', PStr ''DAILY''), (''Metrics'', PList [PStr ''UnblendedCost'']),
      (''GroupBy'', PList [PDict [(''Type'', PStr ''TAG''), (''Key'', PStr ''tenant_id'')],
                           PDict [(''Type'', PStr ''DIMENSION''), (''Key'', PStr ''SERVICE'')]])] @
     (case next_token of None \<Rightarrow> [] | Some tok \<Rightarrow> [(''NextPageToken'', tok)])"

definition usage_call :: "int \<Rightarrow> pyval option \<Rightarrow> call" where
  "usage_call day next_token = CostExplorer ''get_cost_and_usage'' (ce_kwargs day next_token)"

fun aggregate_pages :: "'t env \<Rightarrow> cost_config \<Rightarrow> int \<Rightarrow> nat \<Rightarrow> pyval option \<Rightarrow> tally \<Rightarrow> ('t world, tally) io" where
  "aggregate_pages E C day 0 next_token t = raiseE cost_out_of_fuel"
| "aggregate_pages E C day (Suc fuel) next_token t =
     bindE (invoke E (usage_call day next_token)) (\<lambda>response.
     bindE (liftE (iter_groups response)) (\<lambda>groups.
     bindE (write_groups E C day groups (t\<lparr>ag_calls := ag_calls t + 1\<rparr>)) (\<lambda>t.
     bindE (liftE (get_attr response ''NextPageToken'')) (\<lambda>tok.
       if truthy tok then aggregate_pages E C day fuel (Some tok) t else retE t))))"

record aggregation_summary =
  as_day :: int
  tenants_written :: nat
  rows_written :: nat
  untagged_cost_cents :: int
  ce_calls :: nat
  duration_ms :: int

definition aggregate_day :: "'t env \<Rightarrow> cost_config \<Rightarrow> int \<Rightarrow> ('t world, aggregation_summary) io" where
  "aggregate_day E C day =
     bindE (utcnow E) (\<lambda>started_at.
     bindE (aggregate_pages E C day (cc_pages C) None no_tally) (\<lambda>t.
     bindE (utcnow E) (\<lambda>finished_at.
     retE \<lparr>as_day = day, tenants_written = length (ag_tenants t), rows_written = ag_rows t,
           untagged_cost_cents = ag_untagged t, ce_calls = ag_calls t,
           duration_ms = trunc_rat (of_int (finished_at - started_at) / 1000)\<rparr>)))"

definition summary_dict :: "aggregation_summary \<Rightarrow> item" where
  "summary_dict s =
     [(''day'', PStr (iso_date (as_day s))), (''tenants_written'', PInt (int (tenants_written s))),
      (''rows_written'', PInt (int (rows_written s))), (''untagged_cost_cents'', PInt (untagged_cost_cents s)),
      (''ce_calls'', PInt (int (ce_calls s))), (''duration_ms'', PInt (duration_ms s))]"

definition resolve_day :: "'t env \<Rightarrow> cost_config \<Rightarrow> item \<Rightarrow> ('t world, int) io" where
  "resolve_day E C event =
     (case nonempty_str (dget event ''day'') of
        Some raw \<Rightarrow> liftE (day_of C raw)
      | None \<Rightarrow> bindE (utcnow E) (\<lambda>now. retE (now div day_micros - 1)))"

text \<open>The table's name is read from the environment; an empty one is a configuration error.\<close>

definition aggregator_handler :: "'t env \<Rightarrow> cost_config \<Rightarrow> item \<Rightarrow> ('t world, item) io" where
  "aggregator_handler E C event =
     (if rollup_table C = [] then raiseE (RuntimeError ''TENANT_COST_ROLLUP_TABLE env var is required'')
      else
        bindE (resolve_day E C event) (\<lambda>day.
        bindE (aggregate_day E C day) (\<lambda>s. retE (summary_dict s))))"

section \<open>Sums by key\<close>

text \<open>A dictionary of counters in insertion order: \<^verbatim>\<open>d[k] = d.get(k, 0) + c\<close>.\<close>

definition add_cents :: "'k \<Rightarrow> int \<Rightarrow> ('k \<times> int) list \<Rightarrow> ('k \<times> int) list" where
  "add_cents k c d = AList.update k ((case map_of d k of None \<Rightarrow> 0 | Some v \<Rightarrow> v) + c) d"

definition sum_by :: "('a \<Rightarrow> 'k) \<Rightarrow> ('a \<Rightarrow> int) \<Rightarrow> 'a list \<Rightarrow> ('k \<times> int) list" where
  "sum_by f g xs = fold (\<lambda>x. add_cents (f x) (g x)) xs []"

text \<open>\<^verbatim>\<open>rows.sort(key=..., reverse=True)\<close>: equal keys keep their order.\<close>

definition sort_desc :: "('a \<Rightarrow> int) \<Rightarrow> 'a list \<Rightarrow> 'a list" where
  "sort_desc f xs = sort_key (\<lambda>x. - f x) xs"

section \<open>The by-tenant breakdown\<close>

record service_slice =
  sl_service :: string
  sl_cents :: int
  sl_percent :: rat

record tenant_cost_row =
  tr_tenant :: string
  tr_display :: string
  tr_cents :: int
  tr_percent :: rat
  tr_services :: "service_slice list"

record tenant_breakdown =
  tb_from :: int
  tb_to :: int
  tb_currency :: string
  tb_tenants :: "tenant_cost_row list"
  tb_total :: int
  tb_cache_hit :: bool
  tb_queried_at :: int

text \<open>The field constraints of the response models.\<close>

definition valid_share :: "int \<Rightarrow> rat \<Rightarrow> bool" where
  "valid_share cents percent \<longleftrightarrow> 0 \<le> cents \<and> 0 \<le> percent \<and> percent \<le> 100"

definition mk_slice :: "int \<Rightarrow> string \<times> int \<Rightarrow> exn + service_slice" where
  "mk_slice whole sc =
     (case sc of (service, cents) \<Rightarrow>
        let p = percent_of cents whole in
        if valid_share cents p then Inr \<lparr>sl_service = service, sl_cents = cents, sl_percent = p\<rparr>
        else Inl (ValueError ''ServiceCostBreakdown''))"

definition mk_tenant_row :: "(string \<times> (string \<times> int) list) list \<Rightarrow> int \<Rightarrow> string \<times> int \<Rightarrow> exn + tenant_cost_row" where
  "mk_tenant_row per_services grand tc =
     (case tc of (tenant, cents) \<Rightarrow>
        and_then (map_records (mk_slice cents) (case map_of per_services tenant of None \<Rightarrow> [] | Some m \<Rightarrow> m)) (\<lambda>slices.
        let p = percent_of cents grand in
        if valid_share cents p
        then Inr \<lparr>tr_tenant = tenant, tr_display = tenant, tr_cents = cents, tr_percent = p,
                  tr_services = sort_desc sl_cents slices\<rparr>
        else Inl (ValueError ''TenantCostRow'')))"

definition add_slice :: "(string \<times> string) \<times> int \<Rightarrow> (string \<times> (string \<times> int) list) list \<Rightarrow>
    (string \<times> (string \<times> int) list) list" where
  "add_slice x d =
     (case x of ((tenant, service), cents) \<Rightarrow>
        AList.update tenant (AList.update service cents (case map_of d tenant of None \<Rightarrow> [] | Some m \<Rightarrow> m)) d)"

definition tenant_rows :: "daily_rollup_row list \<Rightarrow> exn + (tenant_cost_row list \<times> int)" where
  "tenant_rows daily =
     (let per_tenant_service = sum_by (\<lambda>r. (dr_tenant r, dr_service r)) dr_cents daily;
          per_tenant = sum_by (fst \<circ> fst) snd per_tenant_service;
          per_tenant_services = fold add_slice per_tenant_service [];
          grand = sum_list (map snd per_tenant)
      in and_then (map_records (mk_tenant_row per_tenant_services grand) per_tenant) (\<lambda>trs.
           Inr (sort_desc tr_cents trs, grand)))"

text \<open>\<open>n\<close> days from \<open>day\<close> on, one scan each.\<close>

fun walk_days :: "'t env \<Rightarrow> cost_config \<Rightarrow> int \<Rightarrow> nat \<Rightarrow> ('t world, daily_rollup_row list) io" where
  "walk_days E C day 0 = retE []"
| "walk_days E C day (Suc n) =
     bindE (query_all_tenants_for_day E C day) (\<lambda>xs.
     bindE (walk_days E C (day + 1) n) (\<lambda>ys. retE (xs @ ys)))"

definition aggregate_window :: "'t env \<Rightarrow> cost_config \<Rightarrow> int \<Rightarrow> int \<Rightarrow> ('t world, tenant_breakdown) io" where
  "aggregate_window E C from_date to_date =
     bindE (walk_days E C from_date (nat (to_date - from_date))) (\<lambda>daily.
     bindE (liftE (tenant_rows daily)) (\<lambda>(trs, grand).
     bindE (utcnow E) (\<lambda>now.
     if 0 \<le> grand
     then retE \<lparr>tb_from = from_date, tb_to = to_date, tb_currency = ''USD'', tb_tenants = trs, tb_total = grand,
                tb_cache_hit = False, tb_queried_at = now\<rparr>
     else raiseE (ValueError ''TenantCostBreakdown''))))"

section \<open>The response cache\<close>

text \<open>A cached model: its JSON text, the validation of a text, and the copy with \<^verbatim>\<open>cache_hit\<close> set.\<close>

record 'a cached_model =
  cm_dump :: "'a \<Rightarrow> string"
  cm_load :: "string \<Rightarrow> 'a option"
  cm_hit :: "'a \<Rightarrow> 'a"

record cache_key =
  query_kind :: string
  ck_from :: int
  ck_to :: int
  group_by :: "string option"
  service_filter :: "string option"

definition key_string :: "cost_config \<Rightarrow> cache_key \<Rightarrow> string" where
  "key_string C k =
     query_kind k @ '':'' @
     sha256_hex C [(''from'', PStr (iso_date (ck_from k))), (''group_by'', opt_val (group_by k)),
       (''kind'', PStr (query_kind k)), (''service_filter'', opt_val (service_filter k)),
       (''to'', PStr (iso_date (ck_to k)))]"

definition cache_get :: "'t env \<Rightarrow> cost_config \<Rightarrow> 'a cached_model \<Rightarrow> cache_key \<Rightarrow> ('t world, 'a option) io" where
  "cache_get E C M k =
     bindE (get_item E (cost_cache_table C) [(''cache_key'', PStr (key_string C k))]) (\<lambda>found.
       (case found of
          None \<Rightarrow> retE None
        | Some it \<Rightarrow>
            (case as_str (dget it ''payload'') of
               None \<Rightarrow> retE None
             | Some payload \<Rightarrow>
                 (case cm_load M payload of
                    None \<Rightarrow> raiseE (ValueError ''invalid cached payload'')
                  | Some v \<Rightarrow> retE (Some (cm_hit M v))))))"

definition cache_put :: "'t env \<Rightarrow> cost_config \<Rightarrow> 'a cached_model \<Rightarrow> cache_key \<Rightarrow> 'a \<Rightarrow> int \<Rightarrow> ('t world, unit) io" where
  "cache_put E C M k v ttl_seconds =
     (if ttl_seconds \<le> 0 then raiseE (ValueError ''ttl_seconds must be positive'')
      else
        bindE (utcnow E) (\<lambda>now.
        put_item E (cost_cache_table C)
          [(''cache_key'', PStr (key_string C k)), (''payload'', PStr (cm_dump M v)),
           (''expires_at'', PInt (epoch_secs now + ttl_seconds))] CTrue))"

definition cache_or_fetch :: "'t env \<Rightarrow> cost_config \<Rightarrow> 'a cached_model \<Rightarrow> cache_key \<Rightarrow> ('t world, 'a) io \<Rightarrow> int \<Rightarrow>
    ('t world, 'a) io" where
  "cache_or_fetch E C M k fetch ttl_seconds =
     bindE (cache_get E C M k) (\<lambda>cached.
       (case cached of
          Some v \<Rightarrow> retE v
        | None \<Rightarrow> bindE fetch (\<lambda>fresh. bindE (cache_put E C M k fresh ttl_seconds) (\<lambda>_. retE fresh))))"

section \<open>The by-tenant route\<close>

definition tenant_cache_ttl_seconds :: int where
  "tenant_cache_ttl_seconds = 6 * 3600"

text \<open>The window of a request; an inverted one is refused.\<close>

definition check_window :: "int \<Rightarrow> int \<Rightarrow> exn + unit" where
  "check_window from_date to_date =
     (if to_date < from_date then Inl (HTTPException 400 ''DateRange: from_date is after to_date'') else Inr ())"

definition get_cost_by_tenant :: "'t env \<Rightarrow> cost_config \<Rightarrow> tenant_breakdown cached_model \<Rightarrow> jwt_claims \<Rightarrow> int \<Rightarrow> int \<Rightarrow>
    ('t world, tenant_breakdown) io" where
  "get_cost_by_tenant E C M claims from_date to_date =
     bindE (liftE (require_admin claims)) (\<lambda>_.
     bindE (liftE (check_window from_date to_date)) (\<lambda>_.
     cache_or_fetch E C M
       \<lparr>query_kind = ''by-tenant'', ck_from = from_date, ck_to = to_date, group_by = None, service_filter = None\<rparr>
       (aggregate_window E C from_date to_date) tenant_cache_ttl_seconds))"

section \<open>Lemmas on sums\<close>

lemma map_of_add_cents:
  "map_of (add_cents k c d) j = (if j = k then Some ((case map_of d k of None \<Rightarrow> 0 | Some v \<Rightarrow> v) + c) else map_of d j)"
  by (simp add: add_cents_def update_conv)

lemma sum_list_update: "sum_list (map snd (AList.update k v d)) =
    sum_list (map snd d) + v - (case map_of d k of None \<Rightarrow> 0 | Some x \<Rightarrow> (x :: int))"
  by (induction d) auto

lemma sum_list_add_cents: "sum_list (map snd (add_cents k c d)) = sum_list (map snd d) + c"
  by (simp add: add_cents_def sum_list_update)

definition group_sum :: "('a \<Rightarrow> 'k) \<Rightarrow> ('a \<Rightarrow> int) \<Rightarrow> 'k \<Rightarrow> 'a list \<Rightarrow> int" where
  "group_sum f g k xs = sum_list (map g (filter (\<lambda>x. f x = k) xs))"

lemma map_of_fold_add:
  "map_of (fold (\<lambda>x. add_cents (f x) (g x)) xs d) k =
     (if k \<in> f ` set xs \<or> map_of d k \<noteq> None
      then Some ((case map_of d k of None \<Rightarrow> 0 | Some v \<Rightarrow> v) + group_sum f g k xs) else None)"
proof (induction xs arbitrary: d)
  case Nil
  then show ?case by (auto simp: group_sum_def split: option.split)
next
  case (Cons x xs)
  show ?case by (auto simp: Cons.IH map_of_add_cents group_sum_def)
qed

lemma sum_by_lookup: "map_of (sum_by f g xs) k = (if k \<in> f ` set xs then Some (group_sum f g k xs) else None)"
  by (simp add: sum_by_def map_of_fold_add)

lemma sum_by_distinct: "distinct (map fst (sum_by f g xs))"
proof -
  have "distinct (map fst (fold (\<lambda>x. add_cents (f x) (g x)) xs d))" if "distinct (map fst d)" for d
    using that by (induction xs arbitrary: d) (simp_all add: add_cents_def distinct_update)
  then show ?thesis by (simp add: sum_by_def)
qed

lemma sum_by_total: "sum_list (map snd (sum_by f g xs)) = sum_list (map g xs)"
proof -
  have "sum_list (map snd (fold (\<lambda>x. add_cents (f x) (g x)) xs d)) = sum_list (map snd d) + sum_list (map g xs)"
    for d
    by (induction xs arbitrary: d) (simp_all add: sum_list_add_cents)
  then show ?thesis by (simp add: sum_by_def)
qed

lemma sum_by_keys: "fst ` set (sum_by f g xs) = f ` set xs"
proof -
  have "fst ` set (sum_by f g xs) = {k. map_of (sum_by f g xs) k \<noteq> None}"
    by (auto simp: map_of_eq_None_iff)
  also have "\<dots> = f ` set xs" by (auto simp: sum_by_lookup)
  finally show ?thesis .
qed

lemma sum_by_entry: "(k, v) \<in> set (sum_by f g xs) \<longleftrightarrow> k \<in> f ` set xs \<and> v = group_sum f g k xs"
proof -
  have "(k, v) \<in> set (sum_by f g xs) \<longleftrightarrow> map_of (sum_by f g xs) k = Some v"
    using map_of_eq_Some_iff [OF sum_by_distinct] by metis
  then show ?thesis by (auto simp: sum_by_lookup)
qed

lemma group_sum_nonneg: "\<forall>x\<in>set xs. 0 \<le> g x \<Longrightarrow> 0 \<le> group_sum f g k xs"
  by (auto simp: group_sum_def intro!: sum_list_nonneg)

lemma member_le_sum_list: "\<forall>x\<in>set xs. 0 \<le> (g x :: int) \<Longrightarrow> x \<in> set xs \<Longrightarrow> g x \<le> sum_list (map g xs)"
proof (induction xs)
  case (Cons y ys)
  have "0 \<le> sum_list (map g ys)" using Cons.prems by (intro sum_list_nonneg) auto
  with Cons show ?case by auto
qed simp

text \<open>Sums of sums: grouping by a finer key first gives the same totals.\<close>

lemma group_sum_sum_by:
  "group_sum (h \<circ> fst) snd k (sum_by f g xs) = group_sum (h \<circ> f) g k xs"
proof -
  have step: "sum_list (map snd (filter (\<lambda>x. h (fst x) = k) (add_cents j c d))) =
      sum_list (map snd (filter (\<lambda>x. h (fst x) = k) d)) + (if h j = k then c else 0)" for j c d
  proof -
    have "sum_list (map snd (filter (\<lambda>x. h (fst x) = k) (AList.update j v d))) =
        sum_list (map snd (filter (\<lambda>x. h (fst x) = k) d)) +
        (if h j = k then v - (case map_of d j of None \<Rightarrow> 0 | Some x \<Rightarrow> x) else 0)" for v
      by (induction d) auto
    then show ?thesis by (auto simp: add_cents_def)
  qed
  have "sum_list (map snd (filter (\<lambda>x. h (fst x) = k) (fold (\<lambda>x. add_cents (f x) (g x)) xs d))) =
      sum_list (map snd (filter (\<lambda>x. h (fst x) = k) d)) + group_sum (h \<circ> f) g k xs" for d
    by (induction xs arbitrary: d) (simp_all add: step group_sum_def)
  then show ?thesis by (simp add: sum_by_def group_sum_def)
qed

lemma map_records_map: "\<forall>x\<in>set xs. f x = Inr (g x) \<Longrightarrow> map_records f xs = Inr (map g xs)"
  by (induction xs) auto

lemma set_sort_desc [simp]: "set (sort_desc f xs) = set xs"
  by (simp add: sort_desc_def)

lemma sorted_sort_desc: "sorted_wrt (\<lambda>x y. f y \<le> f x) (sort_desc f xs)"
proof -
  have "sorted (map (\<lambda>x. - f x) (sort_desc f xs))" by (simp add: sort_desc_def)
  then show ?thesis by (simp add: sorted_map)
qed

lemma distinct_sort_desc: "distinct (map h (sort_desc f xs)) = distinct (map h xs)"
  by (simp add: sort_desc_def distinct_map inj_on_def)

lemma sum_sort_desc: "sum_list (map h (sort_desc f xs)) = sum_list (map (h :: 'a \<Rightarrow> int) xs)"
proof -
  have "sum_list (map h (insort_key k x ys)) = h x + sum_list (map h ys)" for k :: "'a \<Rightarrow> int" and x ys
    by (induction ys) auto
  then show ?thesis unfolding sort_desc_def sort_key_def by (induction xs) auto
qed

section \<open>The slices of a tenant\<close>

definition slices_of :: "string \<Rightarrow> ((string \<times> string) \<times> int) list \<Rightarrow> (string \<times> int) list" where
  "slices_of tenant xs = map (\<lambda>x. (snd (fst x), snd x)) (filter (\<lambda>x. fst (fst x) = tenant) xs)"

lemma update_new: "k \<notin> fst ` set d \<Longrightarrow> AList.update k v d = d @ [(k, v)]"
  by (induction d) auto

lemma fold_add_slice:
  assumes "distinct (map fst (ys @ xs))"
    and "\<And>t. map_of d t = (if slices_of t ys = [] then None else Some (slices_of t ys))"
  shows "map_of (fold add_slice xs d) t = (if slices_of t (ys @ xs) = [] then None else Some (slices_of t (ys @ xs)))"
  using assms
proof (induction xs arbitrary: ys d)
  case Nil
  then show ?case by simp
next
  case (Cons x xs)
  obtain u s c where x: "x = ((u, s), c)" by (metis prod.exhaust)
  have fresh: "s \<notin> fst ` set (slices_of u ys)"
    using Cons.prems(1) unfolding x by (force simp: slices_of_def)
  have "map_of (add_slice x d) t = (if slices_of t (ys @ [x]) = [] then None else Some (slices_of t (ys @ [x])))" for t
    using Cons.prems(2) update_new [OF fresh] by (simp add: add_slice_def x update_conv slices_of_def)
  then show ?case using Cons.IH [of "ys @ [x]" "add_slice x d"] Cons.prems(1) by simp
qed

lemma per_tenant_services_lookup:
  assumes "distinct (map fst xs)"
  shows "(case map_of (fold add_slice xs []) t of None \<Rightarrow> [] | Some m \<Rightarrow> m) = slices_of t xs"
  using fold_add_slice [of "[]" xs "[]" t] assms by (simp add: slices_of_def)

lemma sum_slices: "sum_list (map snd (slices_of t xs)) = group_sum (fst \<circ> fst) snd t xs"
  by (simp add: slices_of_def group_sum_def comp_def)

lemma distinct_slices: "distinct (map fst xs) \<Longrightarrow> distinct (map fst (slices_of t xs))"
  by (induction xs) (force simp: slices_of_def)+

section \<open>The by-tenant totals\<close>

definition service_slices :: "string \<Rightarrow> int \<Rightarrow> ((string \<times> string) \<times> int) list \<Rightarrow> service_slice list" where
  "service_slices tenant whole xs =
     sort_desc sl_cents (map (\<lambda>(s, c). \<lparr>sl_service = s, sl_cents = c, sl_percent = percent_of c whole\<rparr>) (slices_of tenant xs))"

text \<open>With no negative row every share is valid, so that the rows are built.\<close>

lemma tenant_rows_result:
  assumes "\<forall>r\<in>set daily. 0 \<le> dr_cents r"
  defines "pts \<equiv> sum_by (\<lambda>r. (dr_tenant r, dr_service r)) dr_cents daily"
  defines "grand \<equiv> sum_list (map dr_cents daily)"
  shows "tenant_rows daily =
     Inr (sort_desc tr_cents (map (\<lambda>(t, c). \<lparr>tr_tenant = t, tr_display = t, tr_cents = c, tr_percent = percent_of c grand,
       tr_services = service_slices t c pts\<rparr>) (sum_by (fst \<circ> fst) snd pts)), grand)"
proof -
  let ?pt = "sum_by (fst \<circ> fst) snd pts"
  have pts: "0 \<le> c" if "(k, c) \<in> set pts" for k c
    using that assms(1) by (auto simp: pts_def sum_by_entry intro: group_sum_nonneg)
  have grand: "sum_list (map snd ?pt) = grand"
    by (simp add: sum_by_total pts_def grand_def)
  have pt: "0 \<le> c \<and> c \<le> grand" if e: "(t, c) \<in> set ?pt" for t c
  proof -
    have nn: "\<forall>x\<in>set ?pt. 0 \<le> snd x" using pts by (auto simp: sum_by_entry intro!: group_sum_nonneg)
    with e show ?thesis using member_le_sum_list [OF nn e] grand by auto
  qed
  have mk: "mk_tenant_row (fold add_slice pts []) grand (t, c) =
      Inr \<lparr>tr_tenant = t, tr_display = t, tr_cents = c, tr_percent = percent_of c grand, tr_services = service_slices t c pts\<rparr>"
    if e: "(t, c) \<in> set ?pt" for t c
  proof -
    have c: "c = sum_list (map snd (slices_of t pts))" using e by (simp add: sum_by_entry sum_slices)
    have nn: "\<forall>x\<in>set (slices_of t pts). 0 \<le> snd x" using pts by (auto simp: slices_of_def)
    have "mk_slice c (s, v) = Inr \<lparr>sl_service = s, sl_cents = v, sl_percent = percent_of v c\<rparr>" if "(s, v) \<in> set (slices_of t pts)" for s v
      using percent_of_bounds [of v c] member_le_sum_list [OF nn that] bspec [OF nn that] c
      by (simp add: mk_slice_def valid_share_def Let_def)
    then have "map_records (mk_slice c) (slices_of t pts) =
        Inr (map (\<lambda>(s, v). \<lparr>sl_service = s, sl_cents = v, sl_percent = percent_of v c\<rparr>) (slices_of t pts))"
      by (intro map_records_map) auto
    moreover have "(case map_of (fold add_slice pts []) t of None \<Rightarrow> [] | Some m \<Rightarrow> m) = slices_of t pts"
      by (rule per_tenant_services_lookup) (simp add: pts_def sum_by_distinct)
    ultimately show ?thesis
      using percent_of_bounds [of c grand] pt [OF e]
      by (simp add: mk_tenant_row_def service_slices_def valid_share_def Let_def)
  qed
  have "map_records (mk_tenant_row (fold add_slice pts []) grand) ?pt =
      Inr (map (\<lambda>(t, c). \<lparr>tr_tenant = t, tr_display = t, tr_cents = c, tr_percent = percent_of c grand,
        tr_services = service_slices t c pts\<rparr>) ?pt)"
    using mk by (intro map_records_map) auto
  then show ?thesis
    unfolding tenant_rows_def Let_def pts_def [symmetric] grand by simp
qed

text \<open>What a row of the answer adds up.\<close>

definition tenant_row_ok :: "daily_rollup_row list \<Rightarrow> int \<Rightarrow> tenant_cost_row \<Rightarrow> bool" where
  "tenant_row_ok daily grand r \<longleftrightarrow>
     tr_cents r = group_sum dr_tenant dr_cents (tr_tenant r) daily \<and>
     tr_cents r = sum_list (map sl_cents (tr_services r)) \<and>
     tr_percent r = percent_of (tr_cents r) grand \<and> 0 \<le> tr_percent r \<and> tr_percent r \<le> 100 \<and>
     list_all (\<lambda>sl. sl_percent sl = percent_of (sl_cents sl) (tr_cents r) \<and> 0 \<le> sl_percent sl \<and> sl_percent sl \<le> 100)
       (tr_services r) \<and>
     distinct (map sl_service (tr_services r)) \<and>
     sorted_wrt (\<lambda>x y. sl_cents y \<le> sl_cents x) (tr_services r) \<and>
     list_all (\<lambda>sl. sl_cents sl =
       group_sum (\<lambda>d. (dr_tenant d, dr_service d)) dr_cents (tr_tenant r, sl_service sl) daily) (tr_services r)"

lemma tenant_rows_ok:
  assumes "\<forall>r\<in>set daily. 0 \<le> dr_cents r"
  shows "\<exists>trs. tenant_rows daily = Inr (trs, sum_list (map dr_cents daily)) \<and>
     distinct (map tr_tenant trs) \<and> set (map tr_tenant trs) = dr_tenant ` set daily \<and>
     sorted_wrt (\<lambda>x y. tr_cents y \<le> tr_cents x) trs \<and>
     list_all (tenant_row_ok daily (sum_list (map dr_cents daily))) trs"
proof -
  define pts where "pts = sum_by (\<lambda>r. (dr_tenant r, dr_service r)) dr_cents daily"
  define grand where "grand = sum_list (map dr_cents daily)"
  define pt where "pt = sum_by (fst \<circ> fst) snd pts"
  define mk where "mk = (\<lambda>(t, c). \<lparr>tr_tenant = t, tr_display = t, tr_cents = c, tr_percent = percent_of c grand,
       tr_services = service_slices t c pts\<rparr>)"
  have result: "tenant_rows daily = Inr (sort_desc tr_cents (map mk pt), grand)"
    using tenant_rows_result [OF assms] by (simp add: pts_def grand_def pt_def mk_def)
  have names: "map tr_tenant (map mk pt) = map fst pt" by (auto simp: mk_def)
  have keys: "fst ` set pt = dr_tenant ` set daily"
    unfolding pt_def sum_by_keys image_comp [symmetric] pts_def by (force simp: sum_by_keys image_comp)
  have row: "tenant_row_ok daily grand (mk (t, c))" if e: "(t, c) \<in> set pt" for t c
  proof -
    have pts0: "0 \<le> v" if "(k, v) \<in> set pts" for k v
      using that assms(1) by (auto simp: pts_def sum_by_entry intro: group_sum_nonneg)
    have nn: "\<forall>x\<in>set pt. 0 \<le> snd x" using pts0 by (auto simp: pt_def sum_by_entry intro!: group_sum_nonneg)
    have total: "sum_list (map snd pt) = grand" by (simp add: pt_def pts_def grand_def sum_by_total)
    have "0 \<le> c \<and> c \<le> grand" using member_le_sum_list [OF nn e] nn e total by auto
    then have pct: "0 \<le> percent_of c grand \<and> percent_of c grand \<le> 100" using percent_of_bounds by blast
    have c: "c = group_sum (fst \<circ> fst) snd t pts" using e by (simp add: pt_def sum_by_entry)
    also have "\<dots> = group_sum dr_tenant dr_cents t daily"
      unfolding pts_def group_sum_sum_by by (simp add: comp_def)
    finally have c': "c = group_sum dr_tenant dr_cents t daily" .
    let ?sl = "map (\<lambda>(s, v). \<lparr>sl_service = s, sl_cents = v, sl_percent = percent_of v c\<rparr>) (slices_of t pts)"
    have sum: "c = sum_list (map sl_cents ?sl)"
      using c sum_slices [of t pts] by (simp add: comp_def case_prod_beta)
    have dist: "distinct (map sl_service ?sl)"
      using distinct_slices [OF sum_by_distinct [of "\<lambda>r. (dr_tenant r, dr_service r)" dr_cents daily], of t]
      by (simp add: pts_def comp_def case_prod_beta)
    have each: "\<forall>sl\<in>set ?sl. sl_cents sl = group_sum (\<lambda>d. (dr_tenant d, dr_service d)) dr_cents (t, sl_service sl) daily"
      by (auto simp: slices_of_def pts_def sum_by_entry)
    have slice: "\<forall>sl\<in>set ?sl. sl_percent sl = percent_of (sl_cents sl) c \<and> 0 \<le> sl_percent sl \<and> sl_percent sl \<le> 100"
    proof
      fix sl assume "sl \<in> set ?sl"
      then obtain s v where e: "(s, v) \<in> set (slices_of t pts)" and
          sl: "sl = \<lparr>sl_service = s, sl_cents = v, sl_percent = percent_of v c\<rparr>" by auto
      have nn: "\<forall>x\<in>set (slices_of t pts). 0 \<le> snd x" using pts0 by (auto simp: slices_of_def)
      have "c = sum_list (map snd (slices_of t pts))" using c sum_slices [of t pts] by simp
      then have "0 \<le> v" "v \<le> c" using member_le_sum_list [OF nn e] nn e by auto
      with sl show "sl_percent sl = percent_of (sl_cents sl) c \<and> 0 \<le> sl_percent sl \<and> sl_percent sl \<le> 100"
        using percent_of_bounds [of v c] by simp
    qed
    have row: "tr_tenant (mk (t, c)) = t" "tr_cents (mk (t, c)) = c" "tr_percent (mk (t, c)) = percent_of c grand"
      "tr_services (mk (t, c)) = sort_desc sl_cents ?sl" by (simp_all add: mk_def service_slices_def)
    show ?thesis
      unfolding tenant_row_ok_def row list_all_iff set_sort_desc sum_sort_desc distinct_sort_desc
      using c' sum dist each pct slice sorted_sort_desc by blast
  qed
  let ?trs = "sort_desc tr_cents (map mk pt)"
  have "distinct (map tr_tenant ?trs)"
    unfolding distinct_sort_desc names by (simp add: pt_def sum_by_distinct)
  moreover have "set (map tr_tenant ?trs) = set (map tr_tenant (map mk pt))" by (simp only: set_map set_sort_desc)
  then have "set (map tr_tenant ?trs) = dr_tenant ` set daily" unfolding names using keys by simp
  moreover have "list_all (tenant_row_ok daily grand) ?trs" using row by (auto simp: list_all_iff)
  ultimately show ?thesis using result sorted_sort_desc unfolding grand_def by blast
qed

section \<open>Cents and rows\<close>

lemma is_digit_zero: "is_digit (CHR ''0'')"
  by (simp add: is_digit_def)

lemma pad_two:
  assumes "0 \<le> c" "c < 100"
  shows "list_all is_digit (pad_int 2 c) \<and> length (pad_int 2 c) = 2 \<and> digits_val acc (pad_int 2 c) = Some (acc * 100 + nat c)"
proof -
  have len: "num_digits (nat c) \<le> 2" using num_digits_less [of "nat c" 2] assms by simp
  have ne: "num_digits (nat c) \<noteq> 0" by (simp add: num_digits_def)
  have str: "str_int c = dec_digits (nat c)" using assms by (simp add: str_int_def)
  consider "num_digits (nat c) = 1" | "num_digits (nat c) = 2" using len ne by linarith
  then show ?thesis
  proof cases
    case 1
    then have "pad_int 2 c = ''0'' @ dec_digits (nat c)" by (simp add: pad_int_def str num_digits_def Let_def)
    with 1 show ?thesis
      by (simp add: dec_digits_digits digits_val_dec is_digit_zero num_digits_def Let_def flip: num_digits_def)
  next
    case 2
    then have "pad_int 2 c = dec_digits (nat c)" by (simp add: pad_int_def str num_digits_def Let_def)
    with 2 show ?thesis by (simp add: dec_digits_digits digits_val_dec num_digits_def flip: num_digits_def)
  qed
qed

text \<open>An amount below \<open>10^24\<close> dollars, written with two decimals.\<close>

definition usd_text :: "int \<Rightarrow> string" where
  "usd_text cents = dec_digits (nat (cents div 100)) @ ''.'' @ pad_int 2 (cents mod 100)"

lemma usd_to_cents_text:
  assumes "0 \<le> cents" "cents < 10 ^ 24"
  shows "usd_to_cents (usd_text cents) = Inr cents"
proof -
  define n where "n = nat cents"
  have m: "0 \<le> cents mod 100" "cents mod 100 < 100" by simp_all
  note p = pad_two [OF m]
  have "nat (cents div 100) * 100 + nat (cents mod 100) = n"
    unfolding n_def using assms(1) by (simp add: nat_div_distrib nat_mod_distrib)
  then have val: "digits_val 0 (dec_digits (nat (cents div 100)) @ pad_int 2 (cents mod 100)) = Some n"
    using p by (simp add: digits_val_append digits_val_dec)
  have n: "n < 10 ^ 24" using assms by (simp add: n_def nat_less_iff)
  have d24: "num_digits n \<le> 24" using num_digits_less [OF n] by simp
  have range: "dec_in_range n (- int (length (pad_int 2 (cents mod 100))))"
    using d24 p by (simp add: dec_in_range_def)
  have parse: "parse_decimal (usd_text cents) = Some (Decimal False n (- 2))"
    unfolding usd_text_def
    using parse_plain [OF dec_digits_digits _ dec_digits_nonempty val range] p by simp
  have "n * 100 < 10 ^ 26" using n by simp
  then have "num_digits (n * 100) \<le> 26" using num_digits_less by fastforce
  then have r: "round28 (n * 100) (- 2) = (n * 100, - 2)" by (simp add: round28_def Let_def)
  have two: "nat (- (- 2)) = Suc (Suc 0)" by simp
  have "(n * 100 + 5 * 10 ^ (nat (- (- 2)) - 1)) div 10 ^ nat (- (- 2)) = n" unfolding two by simp
  then have "quantize_half_up (n * 100) (- 2) = Some n"
    using n by (simp add: quantize_half_up_def Let_def)
  with parse r show ?thesis using assms(1) by (simp add: usd_to_cents_def n_def)
qed

lemma trunc_rat_numeral [simp]: "trunc_rat (numeral k) = numeral k"
  using trunc_rat_of_int [of "numeral k"] by simp

lemma to_int_ddb [simp]: "to_int (ddb_val (PInt c)) = Some c"
  by simp

lemma row_from_rollup_item:
  assumes "parse_day C (iso_date day) = Some day"
  shows "row_from_item C (ddb_item (rollup_item tenant day service cents)) =
     Inr \<lparr>dr_tenant = tenant, dr_day = day, dr_service = service, dr_cents = cents\<rparr>"
  using assms
  by (simp add: row_from_item_def row_halves_def ddb_item_def rollup_item_def dget_Cons day_of_def)

text \<open>A row without the two separate attributes is read from its composite key.\<close>

lemma iso_date_chars: "CHR ''#'' \<notin> set (iso_date day)"
proof -
  have d: "CHR ''#'' \<notin> set (dec_digits n)" for n
    using dec_digits_digits [of n] by (auto simp: list_all_iff is_digit_def)
  have "CHR ''#'' \<notin> set (pad_int k i)" for k i
    using d by (auto simp: pad_int_def str_int_def Let_def)
  then show ?thesis by (auto simp: iso_date_def split: prod.split)
qed

lemma row_from_legacy_item:
  assumes "parse_day C (iso_date day) = Some day"
  shows "row_from_item C [(''tenant_id'', PStr tenant), (''day_service'', PStr (make_day_service_key day service)),
       (''cost_cents'', PDec (of_int cents))] =
     Inr \<lparr>dr_tenant = tenant, dr_day = day, dr_service = service, dr_cents = cents\<rparr>"
  using assms cut_at_char [OF iso_date_chars, of day service]
  by (simp add: row_from_item_def row_halves_def dget_Cons day_of_def make_day_service_key_def Let_def)

section \<open>What a run of the aggregator leaves\<close>

definition rollup_key :: "string \<Rightarrow> int \<Rightarrow> string \<Rightarrow> item" where
  "rollup_key tenant day service = [(''tenant_id'', PStr tenant), (''day_service'', PStr (make_day_service_key day service))]"

definition rollup_keys_ok :: "'t env \<Rightarrow> cost_config \<Rightarrow> bool" where
  "rollup_keys_ok E C \<longleftrightarrow> key_attrs E (rollup_table C) = [''tenant_id'', ''day_service'']"

text \<open>The abstract effect: the table with one cost after another recorded for the day.\<close>

fun upserts :: "cost_config \<Rightarrow> int \<Rightarrow> (string \<times> string \<times> int) list \<Rightarrow> (string \<Rightarrow> item \<Rightarrow> item option) \<Rightarrow>
    (string \<Rightarrow> item \<Rightarrow> item option)" where
  "upserts C day [] v = v"
| "upserts C day ((tenant, service, cents) # cs) v =
     upserts C day cs (store_row v (rollup_table C) (rollup_key tenant day service) (ddb_item (rollup_item tenant day service cents)))"

lemma upserts_append: "upserts C day (xs @ ys) v = upserts C day ys (upserts C day xs v)"
  by (induction C day xs v rule: upserts.induct) auto

definition last_cost :: "(string \<times> string \<times> int) list \<Rightarrow> string \<times> string \<Rightarrow> int option" where
  "last_cost costs = map_of (rev (map (\<lambda>(tenant, service, cents). ((tenant, service), cents)) costs))"

lemma last_cost_simps:
  "last_cost [] p = None"
  "last_cost (xs @ [(tenant, service, cents)]) p = (if p = (tenant, service) then Some cents else last_cost xs p)"
  by (auto simp: last_cost_def)

lemma rollup_key_eq: "rollup_key t day s = rollup_key t' day s' \<longleftrightarrow> t = t' \<and> s = s'"
  by (auto simp: rollup_key_def make_day_service_key_def)

lemma upserts_lookup:
  "upserts C day costs v (rollup_table C) (rollup_key tenant day service) =
     (case last_cost costs (tenant, service) of
        Some cents \<Rightarrow> Some (ddb_item (rollup_item tenant day service cents))
      | None \<Rightarrow> v (rollup_table C) (rollup_key tenant day service))"
proof (induction costs rule: rev_induct)
  case (snoc x xs)
  obtain t s c where x: "x = (t, s, c)" by (metis prod.exhaust)
  show ?case using snoc by (auto simp: x upserts_append store_row_def rollup_key_eq last_cost_simps)
qed (simp add: last_cost_simps)

lemma upserts_other:
  assumes "\<And>t s. (t, s) \<in> (\<lambda>(t, s, c). (t, s)) ` set costs \<Longrightarrow> tbl \<noteq> rollup_table C \<or> k \<noteq> rollup_key t day s"
  shows "upserts C day costs v tbl k = v tbl k"
  using assms
proof (induction costs arbitrary: v)
  case (Cons x cs)
  obtain t s c where x: "x = (t, s, c)" by (metis prod.exhaust)
  have "upserts C day cs u tbl k = u tbl k" for u
    by (rule Cons.IH) (rule Cons.prems, simp)
  moreover have "tbl \<noteq> rollup_table C \<or> k \<noteq> rollup_key t day s" by (rule Cons.prems) (simp add: x)
  ultimately show ?case by (auto simp: x store_row_apply)
qed simp

lemma last_cost_None: "last_cost costs p = None \<longleftrightarrow> p \<notin> (\<lambda>(t, s, c). (t, s)) ` set costs"
  by (force simp: last_cost_def map_of_eq_None_iff)

text \<open>The table after two lists, when the second mentions every pair of the first.\<close>

lemma upserts_absorb:
  assumes "(\<lambda>(t, s, c). (t, s)) ` set xs \<subseteq> (\<lambda>(t, s, c). (t, s)) ` set ys"
  shows "upserts C day ys (upserts C day xs v) = upserts C day ys v"
proof (intro ext)
  fix tbl k
  show "upserts C day ys (upserts C day xs v) tbl k = upserts C day ys v tbl k"
  proof (cases "\<exists>t s. (t, s) \<in> (\<lambda>(t, s, c). (t, s)) ` set ys \<and> tbl = rollup_table C \<and> k = rollup_key t day s")
    case True
    then obtain t s where ts: "(t, s) \<in> (\<lambda>(t, s, c). (t, s)) ` set ys" "tbl = rollup_table C" "k = rollup_key t day s" by blast
    then have "last_cost ys (t, s) \<noteq> None" by (simp add: last_cost_None)
    then show ?thesis unfolding ts(2,3) upserts_lookup by (auto split: option.splits)
  next
    case False
    then have "upserts C day ys u tbl k = u tbl k" for u by (intro upserts_other) blast
    moreover have "upserts C day xs v tbl k = v tbl k" using False assms by (intro upserts_other) blast
    ultimately show ?thesis by simp
  qed
qed

text \<open>The groups a run reads, page after page: the services answer by the calls made so far.\<close>

fun ce_drain :: "'t env \<Rightarrow> int \<Rightarrow> nat \<Rightarrow> pyval option \<Rightarrow> call list \<Rightarrow> exn + pyval list" where
  "ce_drain E day 0 tok calls = Inl cost_out_of_fuel"
| "ce_drain E day (Suc fuel) tok calls =
     and_then (svc E calls (usage_call day tok)) (\<lambda>response.
     and_then (iter_groups response) (\<lambda>groups.
     and_then (get_attr response ''NextPageToken'') (\<lambda>next.
       if truthy next then and_then (ce_drain E day fuel (Some next) (calls @ [usage_call day tok])) (\<lambda>rest. Inr (groups @ rest))
       else Inr groups)))"

definition count_groups :: "(string \<times> string \<times> int) list \<Rightarrow> tally \<Rightarrow> tally" where
  "count_groups costs t = fold (\<lambda>(tenant, service, cents). count_group tenant cents) costs t"

lemma put_rollup_row:
  assumes "ddb_ok E V" "rollup_keys_ok E C" "put_rollup E C tenant day service cents w = (Inr u, w')"
  shows "rows V w' = store_row (rows V w) (rollup_table C) (rollup_key tenant day service) (ddb_item (rollup_item tenant day service cents))
     \<and> trace w' = trace w \<and> 0 \<le> cents"
proof -
  have put: "put_item E (rollup_table C) (rollup_item tenant day service cents) CTrue w = (Inr u, w')" "0 \<le> cents"
    using assms(3) by (auto simp: put_rollup_def raiseE_def split: if_splits)
  have key: "rollup_key tenant day service = ddb_item (key_of E (rollup_table C) (rollup_item tenant day service cents))"
    using assms(2) by (simp add: rollup_keys_ok_def key_of_def rollup_item_def rollup_key_def ddb_item_def dget_Cons)
  from put_item_cases [OF assms(1) put(1) key] put(2) show ?thesis by (simp add: write_outcome_simps)
qed

lemma write_groups_rows:
  assumes "ddb_ok E V" "rollup_keys_ok E C" "write_groups E C day gs t w = (Inr t', w')"
  shows "\<exists>costs. map_records (parse_group C) gs = Inr costs \<and> rows V w' = upserts C day costs (rows V w) \<and>
     trace w' = trace w \<and> t' = count_groups costs t \<and> list_all (\<lambda>(u, s, c). 0 \<le> c) costs"
  using assms(3)
proof (induction gs arbitrary: t w)
  case Nil
  then show ?case by (simp add: retE_def count_groups_def)
next
  case (Cons g gs)
  obtain u s c where g: "parse_group C g = Inr (u, s, c)"
    using Cons.prems by (cases "parse_group C g") (auto simp: bindE_def liftE_def)
  obtain x w1 where put: "put_rollup E C u day s c w = (Inr x, w1)"
    and rest: "write_groups E C day gs (count_group u c t) w1 = (Inr t', w')"
    using Cons.prems g by (auto simp: bindE_def liftE_def split: prod.splits sum.splits)
  note p = put_rollup_row [OF assms(1,2) put]
  obtain costs where "map_records (parse_group C) gs = Inr costs" "rows V w' = upserts C day costs (rows V w1)"
    "trace w' = trace w1" "t' = count_groups costs (count_group u c t)" "list_all (\<lambda>(u, s, c). 0 \<le> c) costs"
    using Cons.IH [OF rest] by blast
  then show ?case using p g by (intro exI [of _ "(u, s, c) # costs"]) (simp add: count_groups_def)
qed

lemma aggregate_pages_rows:
  assumes "ddb_ok E V" "rollup_keys_ok E C" "aggregate_pages E C day fuel tok t w = (Inr t', w')"
  shows "\<exists>gs costs. ce_drain E day fuel tok (trace w) = Inr gs \<and> map_records (parse_group C) gs = Inr costs \<and>
     rows V w' = upserts C day costs (rows V w) \<and> (\<exists>n. t' = (count_groups costs t)\<lparr>ag_calls := n\<rparr>) \<and>
     list_all (\<lambda>(u, s, c). 0 \<le> c) costs"
  using assms(3)
proof (induction fuel arbitrary: tok t w)
  case 0
  then show ?case by (simp add: raiseE_def)
next
  case (Suc fuel)
  let ?c = "usage_call day tok"
  obtain resp w1 where i: "invoke E ?c w = (Inr resp, w1)"
    using Suc.prems by (auto simp: bindE_def split: prod.splits sum.splits)
  note inv = invoke_cases(1,2) [OF i] and answer = invoke_cases(3) [OF i, symmetric]
  obtain groups where g: "iter_groups resp = Inr groups"
    using Suc.prems i by (cases "iter_groups resp") (auto simp: bindE_def liftE_def)
  obtain t1 w2 where wr: "write_groups E C day groups (t\<lparr>ag_calls := ag_calls t + 1\<rparr>) w1 = (Inr t1, w2)"
    using Suc.prems i g by (auto simp: bindE_def liftE_def split: prod.splits sum.splits)
  obtain nx where nx: "get_attr resp ''NextPageToken'' = Inr nx"
    using Suc.prems i g wr by (cases "get_attr resp ''NextPageToken''") (auto simp: bindE_def liftE_def)
  have rest: "(if truthy nx then aggregate_pages E C day fuel (Some nx) t1 else retE t1) w2 = (Inr t', w')"
    using Suc.prems i g wr nx by (simp add: bindE_def liftE_def)
  obtain cs where cs: "map_records (parse_group C) groups = Inr cs" "rows V w2 = upserts C day cs (rows V w1)"
    "trace w2 = trace w1" "t1 = count_groups cs (t\<lparr>ag_calls := ag_calls t + 1\<rparr>)" "list_all (\<lambda>(u, s, c). 0 \<le> c) cs"
    using write_groups_rows [OF assms(1,2) wr] by blast
  have calls: "count_groups xs (u\<lparr>ag_calls := n\<rparr>) = (count_groups xs u)\<lparr>ag_calls := n\<rparr>" for xs u n
  proof -
    have "count_group a b (v\<lparr>ag_calls := n\<rparr>) = (count_group a b v)\<lparr>ag_calls := n\<rparr>" for a b v
      by (simp add: count_group_def)
    then show ?thesis unfolding count_groups_def by (induction xs arbitrary: u) auto
  qed
  show ?case
  proof (cases "truthy nx")
    case True
    with rest have "aggregate_pages E C day fuel (Some nx) t1 w2 = (Inr t', w')" by simp
    from Suc.IH [OF this] obtain gs costs n where ih: "ce_drain E day fuel (Some nx) (trace w2) = Inr gs"
      "map_records (parse_group C) gs = Inr costs" "rows V w' = upserts C day costs (rows V w2)"
      "t' = (count_groups costs t1)\<lparr>ag_calls := n\<rparr>" "list_all (\<lambda>(u, s, c). 0 \<le> c) costs" by blast
    have app: "map_records (parse_group C) xs = Inr ys \<Longrightarrow> map_records (parse_group C) (xs @ gs) = Inr (ys @ costs)" for xs ys
      using ih(2) by (induction xs arbitrary: ys) (auto split: sum.splits)
    have "ce_drain E day (Suc fuel) tok (trace w) = Inr (groups @ gs)"
      using inv(2) cs(3) g nx True ih(1) by (simp add: answer)
    moreover have "t' = (count_groups (cs @ costs) t)\<lparr>ag_calls := n\<rparr>"
    proof -
      have "count_groups costs (count_groups cs u) = count_groups (cs @ costs) u" for u by (simp add: count_groups_def)
      then show ?thesis using ih(4) cs(4) by (simp add: calls)
    qed
    ultimately show ?thesis using app [OF cs(1)] ih(3,5) cs(2,5) inv(1)
      by (intro exI [of _ "groups @ gs"] exI [of _ "cs @ costs"]) (auto simp: upserts_append)
  next
    case False
    then have "t' = t1" "w' = w2" using rest by (simp_all add: retE_def)
    moreover have "ce_drain E day (Suc fuel) tok (trace w) = Inr groups"
      using g nx False by (simp add: answer)
    ultimately show ?thesis using cs inv(1) by (auto simp: calls)
  qed
qed

lemma count_groups_fields:
  "ag_rows (count_groups costs t) = ag_rows t + length costs \<and>
   set (ag_tenants (count_groups costs t)) = set (ag_tenants t) \<union> fst ` set costs \<and>
   (distinct (ag_tenants t) \<longrightarrow> distinct (ag_tenants (count_groups costs t))) \<and>
   ag_untagged (count_groups costs t) = ag_untagged t + sum_list (map (snd \<circ> snd) (filter (\<lambda>x. fst x = untagged_tenant_id) costs))"
  unfolding count_groups_def by (induction costs arbitrary: t) (auto simp: count_group_def)

text \<open>A run that returns has recorded every group it read, the last cost of each pair standing.\<close>

lemma aggregate_day_rows:
  assumes "ddb_ok E V" "rollup_keys_ok E C" "aggregate_day E C day w = (Inr s, w')"
  shows "\<exists>gs costs. ce_drain E day (cc_pages C) None (trace w) = Inr gs \<and> map_records (parse_group C) gs = Inr costs \<and>
     rows V w' = upserts C day costs (rows V w) \<and> list_all (\<lambda>(u, s, c). 0 \<le> c) costs \<and>
     rows_written s = length costs \<and> tenants_written s = card (fst ` set costs) \<and>
     untagged_cost_cents s = sum_list (map (snd \<circ> snd) (filter (\<lambda>x. fst x = untagged_tenant_id) costs))"
proof -
  obtain a w1 where u1: "utcnow E w = (Inr a, w1)" by (simp add: utcnow_def tick_def)
  note c1 = tick_cases [OF u1 [unfolded utcnow_def]]
  obtain t w2 where pg: "aggregate_pages E C day (cc_pages C) None no_tally w1 = (Inr t, w2)"
    using assms(3) u1 by (auto simp: aggregate_day_def bindE_def split: prod.splits sum.splits)
  obtain b w3 where u2: "utcnow E w2 = (Inr b, w3)" by (simp add: utcnow_def tick_def)
  note c2 = tick_cases [OF u2 [unfolded utcnow_def]]
  have s: "rows_written s = ag_rows t" "tenants_written s = length (ag_tenants t)" "untagged_cost_cents s = ag_untagged t" "w' = w3"
    using assms(3) u1 pg u2 by (auto simp: aggregate_day_def bindE_def retE_def)
  from aggregate_pages_rows [OF assms(1,2) pg] obtain gs costs n where r:
    "ce_drain E day (cc_pages C) None (trace w1) = Inr gs" "map_records (parse_group C) gs = Inr costs"
    "rows V w2 = upserts C day costs (rows V w1)" "t = (count_groups costs no_tally)\<lparr>ag_calls := n\<rparr>"
    "list_all (\<lambda>(u, s, c). 0 \<le> c) costs" by blast
  have f: "ag_rows t = length costs" "set (ag_tenants t) = fst ` set costs" "distinct (ag_tenants t)"
    "ag_untagged t = sum_list (map (snd \<circ> snd) (filter (\<lambda>x. fst x = untagged_tenant_id) costs))"
    using count_groups_fields [of costs no_tally] by (simp_all add: r(4) no_tally_def)
  have "length (ag_tenants t) = card (fst ` set costs)" using f(2,3) distinct_card by metis
  with f r s c1 c2 show ?thesis by auto
qed

section \<open>Enough fuel\<close>

text \<open>The scan, started at \<open>start\<close>, answers page after page, the last one without a further key.\<close>

fun scans_pages :: "'t env \<Rightarrow> string \<Rightarrow> cond \<Rightarrow> item option \<Rightarrow> page list \<Rightarrow> 't world \<Rightarrow> bool" where
  "scans_pages E tbl c start [] w = False"
| "scans_pages E tbl c start (p # ps) w \<longleftrightarrow>
     (\<exists>w1. scan_items E tbl c start w = (Inr p, w1) \<and>
        (if ps = [] then p_last p = None else \<exists>k. p_last p = Some k \<and> scans_pages E tbl c (Some k) ps w1))"

lemma scan_all_returns:
  assumes "scans_pages E tbl c start ps w" "length ps \<le> fuel"
  shows "fst (scan_all E tbl c fuel start items w) = Inr (items @ concat (map p_items ps))"
  using assms
proof (induction ps arbitrary: start w fuel items)
  case (Cons p ps)
  obtain n where n: "fuel = Suc n" "length ps \<le> n" using Cons.prems(2) by (cases fuel) auto
  obtain w1 where w1: "scan_items E tbl c start w = (Inr p, w1)"
    and rest: "if ps = [] then p_last p = None else \<exists>k. p_last p = Some k \<and> scans_pages E tbl c (Some k) ps w1"
    using Cons.prems(1) by auto
  show ?case
  proof (cases "ps = []")
    case True
    with rest w1 n show ?thesis by (simp add: bindE_def retE_def)
  next
    case False
    with rest obtain k where "p_last p = Some k" "scans_pages E tbl c (Some k) ps w1" by auto
    with Cons.IH [of "Some k" w1 n "items @ p_items p"] w1 n show ?thesis by (simp add: bindE_def)
  qed
qed simp

text \<open>A run returns when its answers can be read within the fuel, parse, name storable services, and no write fails.\<close>

definition puts_return :: "'t env \<Rightarrow> cost_config \<Rightarrow> bool" where
  "puts_return E C \<longleftrightarrow> (\<forall>it t. \<exists>t'. d_put E (rollup_table C) it CTrue t = (Inr (), t'))"

lemma puts_return_item: "puts_return E C \<Longrightarrow> \<exists>w'. put_item E (rollup_table C) it CTrue w = (Inr (), w') \<and> trace w' = trace w"
proof -
  assume "puts_return E C"
  then obtain t' where "d_put E (rollup_table C) it CTrue (db w) = (Inr (), t')" unfolding puts_return_def by blast
  then show ?thesis by (simp add: put_item_def on_db_def)
qed

lemma usd_to_cents_nonneg: "usd_to_cents a = Inr c \<Longrightarrow> 0 \<le> c"
  by (auto simp: usd_to_cents_def Let_def split: option.splits decimal.splits prod.splits if_splits)

lemma parse_group_storable:
  assumes "parse_group C g = Inr (tenant, service, cents)"
  shows "0 \<le> cents \<and> service \<noteq> []"
  using assms usd_to_cents_nonneg
  by (auto simp: parse_group_def and_then_Inr_iff service_of_keys_def unknown_service_def Let_def split: option.splits if_splits)

lemma write_groups_returns:
  assumes "puts_return E C" "map_records (parse_group C) gs = Inr costs" "list_all (\<lambda>(t, s, c). CHR ''#'' \<notin> set s) costs"
  shows "\<exists>t' w'. write_groups E C day gs t w = (Inr t', w') \<and> trace w' = trace w"
  using assms(2,3)
proof (induction gs arbitrary: costs t w)
  case Nil
  then show ?case by (simp add: retE_def)
next
  case (Cons g gs)
  obtain u s c cs where p: "parse_group C g = Inr (u, s, c)" "map_records (parse_group C) gs = Inr cs" "costs = (u, s, c) # cs"
    using Cons.prems(1) by (auto split: sum.splits)
  have "put_rollup E C u day s c = put_item E (rollup_table C) (rollup_item u day s c) CTrue"
    using parse_group_storable [OF p(1)] Cons.prems(2) p(3) by (simp add: put_rollup_def)
  then obtain w1 where w1: "put_rollup E C u day s c w = (Inr (), w1)" "trace w1 = trace w"
    using puts_return_item [OF assms(1)] by metis
  obtain t' w' where "write_groups E C day gs (count_group u c t) w1 = (Inr t', w')" "trace w' = trace w1"
    using Cons.IH [OF p(2), of "count_group u c t" w1] Cons.prems(2) p(3) by auto
  then show ?case using w1 p(1) by (simp add: bindE_def liftE_def)
qed

lemma map_records_append:
  "map_records f (xs @ ys) = Inr zs \<Longrightarrow> \<exists>us vs. map_records f xs = Inr us \<and> map_records f ys = Inr vs \<and> zs = us @ vs"
  by (induction xs arbitrary: zs) (force split: sum.splits)+

lemma aggregate_pages_returns:
  assumes "puts_return E C" "ce_drain E day fuel tok (trace w) = Inr gs" "map_records (parse_group C) gs = Inr costs"
    and "list_all (\<lambda>(t, s, c). CHR ''#'' \<notin> set s) costs"
  shows "\<exists>t' w'. aggregate_pages E C day fuel tok t w = (Inr t', w')"
  using assms(2-4)
proof (induction fuel arbitrary: tok w gs costs t)
  case (Suc fuel)
  obtain resp groups nx where r: "svc E (trace w) (usage_call day tok) = Inr resp" "iter_groups resp = Inr groups"
    "get_attr resp ''NextPageToken'' = Inr nx"
    and rest: "(if truthy nx then and_then (ce_drain E day fuel (Some nx) (trace w @ [usage_call day tok])) (\<lambda>rest. Inr (groups @ rest))
       else Inr groups) = Inr gs"
    using Suc.prems(1) by (auto simp: and_then_Inr_iff)
  obtain w1 where w1: "invoke E (usage_call day tok) w = (Inr resp, w1)" "trace w1 = trace w @ [usage_call day tok]"
    using r(1) by (simp add: invoke_def)
  obtain more where gs: "gs = groups @ more" using rest by (auto simp: and_then_Inr_iff split: if_splits)
  obtain c1 c2 where c: "map_records (parse_group C) groups = Inr c1" "map_records (parse_group C) more = Inr c2" "costs = c1 @ c2"
    using map_records_append Suc.prems(2) unfolding gs by blast
  obtain t1 w2 where w2: "write_groups E C day groups (t\<lparr>ag_calls := ag_calls t + 1\<rparr>) w1 = (Inr t1, w2)" "trace w2 = trace w1"
    using write_groups_returns [OF assms(1) c(1)] Suc.prems(3) c(3) by fastforce
  show ?case
  proof (cases "truthy nx")
    case True
    then have "ce_drain E day fuel (Some nx) (trace w2) = Inr more" using rest gs w1(2) w2(2) by (auto simp: and_then_Inr_iff)
    then obtain t' w' where "aggregate_pages E C day fuel (Some nx) t1 w2 = (Inr t', w')"
      using Suc.IH [OF _ c(2)] Suc.prems(3) c(3) by fastforce
    then show ?thesis using True w1(1) w2(1) r by (simp add: bindE_def liftE_def)
  next
    case False
    then show ?thesis using w1(1) w2(1) r by (simp add: bindE_def liftE_def retE_def)
  qed
qed simp

lemma aggregate_day_returns:
  assumes "puts_return E C" "ce_drain E day (cc_pages C) None (trace w) = Inr gs" "map_records (parse_group C) gs = Inr costs"
    and "list_all (\<lambda>(t, s, c). CHR ''#'' \<notin> set s) costs"
  shows "\<exists>s w'. aggregate_day E C day w = (Inr s, w')"
proof -
  obtain w1 where w1: "utcnow E w = (Inr (clock E (ticks w)), w1)" "trace w1 = trace w" by (simp add: utcnow_def tick_def)
  obtain t w2 where "aggregate_pages E C day (cc_pages C) None no_tally w1 = (Inr t, w2)"
    using aggregate_pages_returns [OF assms(1) _ assms(3,4)] assms(2) w1(2) by metis
  with w1 show ?thesis by (simp add: aggregate_day_def bindE_def utcnow_def tick_def retE_def)
qed

section \<open>The cache\<close>

definition cache_row :: "string \<Rightarrow> string \<Rightarrow> int \<Rightarrow> item" where
  "cache_row key payload expiry =
     [(''cache_key'', PStr key), (''payload'', PStr payload), (''expires_at'', PDec (of_int expiry))]"

text \<open>A stored row is served whatever its expiry says and whatever the clock shows.\<close>

lemma cache_hit_serves:
  assumes "ddb_ok E V" "rows V w (cost_cache_table C) [(''cache_key'', PStr (key_string C k))] = Some (cache_row (key_string C k) (cm_dump M v) expiry)"
    and "cm_load M (cm_dump M v) = Some v" "cache_or_fetch E C M k fetch ttl w = (Inr x, w')"
  shows "x = cm_hit M v \<and> rows V w' = rows V w \<and> trace w' = trace w"
proof -
  obtain i w1 where g: "get_item E (cost_cache_table C) [(''cache_key'', PStr (key_string C k))] w = (Inr i, w1)"
    using assms(4) by (auto simp: cache_or_fetch_def cache_get_def bindE_def split: prod.splits sum.splits)
  note c = get_item_cases [OF assms(1) g]
  have "i = Some (cache_row (key_string C k) (cm_dump M v) expiry)"
    using c(3) [OF refl] assms(2) by (simp add: ddb_item_def)
  then have "cache_or_fetch E C M k fetch ttl w = (Inr (cm_hit M v), w1)"
    using g assms(3) by (simp add: cache_or_fetch_def cache_get_def bindE_def cache_row_def dget_Cons retE_def)
  with assms(4) c(1,2) show ?thesis by simp
qed

text \<open>A miss that returns has stored what it returns.\<close>

lemma cache_miss_stores:
  assumes "ddb_ok E V" "key_attrs E (cost_cache_table C) = [''cache_key'']"
    and "cache_put E C M k v ttl w = (Inr u, w')"
  shows "rows V w' = store_row (rows V w) (cost_cache_table C) [(''cache_key'', PStr (key_string C k))]
           (cache_row (key_string C k) (cm_dump M v) (epoch_secs (clock E (ticks w)) + ttl)) \<and> trace w' = trace w"
proof -
  define it where "it = [(''cache_key'', PStr (key_string C k)), (''payload'', PStr (cm_dump M v)),
       (''expires_at'', PInt (epoch_secs (clock E (ticks w)) + ttl))]"
  obtain w1 where t: "utcnow E w = (Inr (clock E (ticks w)), w1)" "rows V w1 = rows V w" "trace w1 = trace w"
    by (simp add: utcnow_def tick_def)
  have put: "put_item E (cost_cache_table C) it CTrue w1 = (Inr u, w')"
    using assms(3) t(1) by (auto simp: cache_put_def bindE_def raiseE_def it_def split: if_splits)
  have key: "[(''cache_key'', PStr (key_string C k))] = ddb_item (key_of E (cost_cache_table C) it)"
    using assms(2) by (simp add: key_of_def it_def ddb_item_def dget_Cons)
  have "ddb_item it = cache_row (key_string C k) (cm_dump M v) (epoch_secs (clock E (ticks w)) + ttl)"
    by (simp add: it_def ddb_item_def cache_row_def)
  with put_item_cases [OF assms(1) put key] t show ?thesis by (simp add: write_outcome_simps)
qed

section \<open>Properties\<close>

text \<open>
  C29. The by-tenant answer adds up. Whenever the window's rows were read and none is negative, the
  aggregation returns: its total is the sum of all rows, every tenant with a row appears exactly
  once, tenants and slices are sorted by descending cost, each tenant's cost is the sum of its rows
  and of its slices, each slice is the sum of the rows of its service, and every percentage (of a tenant
  in the total and of a slice in its tenant) is the share rounded by double arithmetic and stays between 0
  and 100 as the model's validation requires.
\<close>

theorem by_tenant_reconciles:
  assumes "walk_days E C from_date (nat (to_date - from_date)) w = (Inr daily, w1)" "\<forall>r\<in>set daily. 0 \<le> dr_cents r"
  shows "\<exists>b. fst (aggregate_window E C from_date to_date w) = Inr b \<and> tb_total b = sum_list (map dr_cents daily) \<and>
     distinct (map tr_tenant (tb_tenants b)) \<and> set (map tr_tenant (tb_tenants b)) = dr_tenant ` set daily \<and>
     sorted_wrt (\<lambda>x y. tr_cents y \<le> tr_cents x) (tb_tenants b) \<and>
     list_all (tenant_row_ok daily (tb_total b)) (tb_tenants b)"
proof -
  obtain trs where trs: "tenant_rows daily = Inr (trs, sum_list (map dr_cents daily))"
    "distinct (map tr_tenant trs)" "set (map tr_tenant trs) = dr_tenant ` set daily"
    "sorted_wrt (\<lambda>x y. tr_cents y \<le> tr_cents x) trs" "list_all (tenant_row_ok daily (sum_list (map dr_cents daily))) trs"
    using tenant_rows_ok [OF assms(2)] by blast
  have "0 \<le> sum_list (map dr_cents daily)" using assms(2) by (intro sum_list_nonneg) auto
  then have "fst (aggregate_window E C from_date to_date w) =
      Inr \<lparr>tb_from = from_date, tb_to = to_date, tb_currency = ''USD'', tb_tenants = trs,
           tb_total = sum_list (map dr_cents daily), tb_cache_hit = False, tb_queried_at = clock E (ticks w1)\<rparr>"
    using assms(1) trs(1)
    by (simp add: aggregate_window_def bindE_def liftE_def utcnow_def tick_def retE_def)
  with trs show ?thesis by simp
qed

text \<open>
  C30. The aggregator refines an upsert per pair: a run that returns has read the groups of all
  pages, parsed every one, and left for each tenant and service the last cost that the answer gives
  them that day; pairs the answer does not mention keep the row they had. Its summary counts the
  rows, the distinct tenants and the unattributed cents of exactly those groups.
\<close>

theorem aggregate_day_upserts:
  assumes "ddb_ok E V" "rollup_keys_ok E C" "aggregate_day E C day w = (Inr s, w')"
  shows "\<exists>gs costs. ce_drain E day (cc_pages C) None (trace w) = Inr gs \<and> map_records (parse_group C) gs = Inr costs \<and>
     (\<forall>tenant service. rows V w' (rollup_table C) (rollup_key tenant day service) =
       (case last_cost costs (tenant, service) of
          Some cents \<Rightarrow> Some (ddb_item (rollup_item tenant day service cents))
        | None \<Rightarrow> rows V w (rollup_table C) (rollup_key tenant day service))) \<and>
     rows_written s = length costs \<and> tenants_written s = card (fst ` set costs) \<and>
     untagged_cost_cents s = sum_list (map (snd \<circ> snd) (filter (\<lambda>x. fst x = untagged_tenant_id) costs))"
proof -
  obtain gs costs where r: "ce_drain E day (cc_pages C) None (trace w) = Inr gs" "map_records (parse_group C) gs = Inr costs"
    "rows V w' = upserts C day costs (rows V w)" "rows_written s = length costs" "tenants_written s = card (fst ` set costs)"
    "untagged_cost_cents s = sum_list (map (snd \<circ> snd) (filter (\<lambda>x. fst x = untagged_tenant_id) costs))"
    using aggregate_day_rows [OF assms] by blast
  then show ?thesis by (intro exI [of _ gs] exI [of _ costs]) (simp add: upserts_lookup)
qed

text \<open>
  C28. Repeated runs converge on the latest answer: when the later answer mentions every pair of the
  earlier one, two runs for a day leave the table as the later run alone would have. (Rows of a pair
  that the later answer no longer mentions stay, by the previous property.)
\<close>

theorem rerun_converges:
  assumes "ddb_ok E V" "rollup_keys_ok E C"
    and "aggregate_day E C day w = (Inr s1, w1)" "aggregate_day E C day w1 = (Inr s2, w2)"
    and "ce_drain E day (cc_pages C) None (trace w) = Inr gs1" "map_records (parse_group C) gs1 = Inr costs1"
    and "ce_drain E day (cc_pages C) None (trace w1) = Inr gs2" "map_records (parse_group C) gs2 = Inr costs2"
    and "(\<lambda>(t, s, c). (t, s)) ` set costs1 \<subseteq> (\<lambda>(t, s, c). (t, s)) ` set costs2"
  shows "rows V w2 = upserts C day costs2 (rows V w)"
proof -
  have "rows V w1 = upserts C day costs1 (rows V w)"
    using aggregate_day_rows [OF assms(1-3)] assms(5,6) by auto
  moreover have "rows V w2 = upserts C day costs2 (rows V w1)"
    using aggregate_day_rows [OF assms(1,2,4)] assms(7,8) by auto
  ultimately show ?thesis using upserts_absorb [OF assms(9)] by simp
qed

text \<open>
  C32. A stored response is served without a fetch, whatever its expiry says and whatever the clock
  shows: when the row of the key holds a payload, a request that returns answers it with the flag
  set, writes nothing and makes no call. Until the row is deleted nothing bounds its age.
\<close>

theorem cached_response_is_served:
  assumes "ddb_ok E V" "cm_load M (cm_dump M v) = Some v" "cl_role (claims :: jwt_claims) = Some ''admin''" "from_date \<le> to_date"
    and "k = \<lparr>query_kind = ''by-tenant'', ck_from = from_date, ck_to = to_date, group_by = None, service_filter = None\<rparr>"
    and "rows V w (cost_cache_table C) [(''cache_key'', PStr (key_string C k))] = Some (cache_row (key_string C k) (cm_dump M v) expiry)"
    and "get_cost_by_tenant E C M claims from_date to_date w = (Inr x, w')"
  shows "x = cm_hit M v \<and> rows V w' = rows V w \<and> trace w' = trace w"
proof -
  have "cache_or_fetch E C M k (aggregate_window E C from_date to_date) tenant_cache_ttl_seconds w = (Inr x, w')"
    using assms(3-5,7) by (simp add: get_cost_by_tenant_def require_admin_def check_window_def bindE_def liftE_def)
  with cache_hit_serves [OF assms(1,6,2)] show ?thesis by blast
qed

section \<open>Witnesses\<close>

definition demo_cost_config :: cost_config where
  "demo_cost_config =
     \<lparr>rollup_table = ''rollup'', cost_cache_table = ''cache'', cc_pages = 3, cc_show = (\<lambda>_. []),
      parse_day = (\<lambda>_. Some 0), sha256_hex = (\<lambda>_. ''digest'')\<rparr>"

definition demo_group :: "string \<Rightarrow> string \<Rightarrow> string \<Rightarrow> pyval" where
  "demo_group tag service amount =
     PDict [(''Keys'', PList [PStr (''tenant_id$'' @ tag), PStr service]),
            (''Metrics'', PDict [(''UnblendedCost'', PDict [(''Amount'', PStr amount)])])]"

definition demo_usage :: pyval where
  "demo_usage =
     PDict [(''ResultsByTime'', PList [PDict [(''Groups'',
       PList [demo_group ''acme'' ''EC2'' ''1.25'', demo_group [] ''S3'' ''0.05''])]])]"

definition demo_cost_keys :: "string \<Rightarrow> string list" where
  "demo_cost_keys tbl = (if tbl = ''rollup'' then [''tenant_id'', ''day_service''] else [''cache_key''])"

definition demo_cost_env :: "mem env" where
  "demo_cost_env = mem_env demo_cost_keys (\<lambda>_ _. Inr demo_usage)"

definition demo_costs :: "(string \<times> string \<times> int) list" where
  "demo_costs = [(''acme'', ''EC2'', 125), (''__untagged__'', ''S3'', 5)]"

lemma demo_cost_env_ok: "ddb_ok demo_cost_env mem_view" "rollup_keys_ok demo_cost_env demo_cost_config"
  by (simp_all add: demo_cost_env_def mem_env_ok rollup_keys_ok_def demo_cost_keys_def demo_cost_config_def)

lemma demo_amounts: "usd_to_cents ''1.25'' = Inr 125" "usd_to_cents ''0.05'' = Inr 5"
proof -
  have "usd_text 125 = ''1.25''" "usd_text 5 = ''0.05''" by code_simp+
  then show "usd_to_cents ''1.25'' = Inr 125" "usd_to_cents ''0.05'' = Inr 5"
    using usd_to_cents_text [of 125] usd_to_cents_text [of 5] by simp_all
qed

lemma demo_cost_parse:
  "iter_groups demo_usage = Inr [demo_group ''acme'' ''EC2'' ''1.25'', demo_group [] ''S3'' ''0.05'']"
  "get_attr demo_usage ''NextPageToken'' = Inr PNone"
  "parse_group demo_cost_config (demo_group ''acme'' ''EC2'' ''1.25'') = Inr (''acme'', ''EC2'', 125)"
  "parse_group demo_cost_config (demo_group [] ''S3'' ''0.05'') = Inr (''__untagged__'', ''S3'', 5)"
  by (simp_all add: iter_groups_def demo_usage_def resp_list_def get_attr_def dget_Cons parse_group_def demo_group_def
      get_or_empty_def py_or_def dget_or_def demo_amounts tenant_of_keys_def service_of_keys_def untagged_tenant_id_def)

lemma mem_put_rollup:
  assumes "0 \<le> cents" "service \<noteq> []" "CHR ''#'' \<notin> set service"
  shows "\<exists>w'. put_rollup demo_cost_env C tenant day service cents w = (Inr (), w') \<and> trace w' = trace w"
  using assms by (simp add: put_rollup_def put_item_def on_db_def demo_cost_env_def mem_env_def Let_def)

lemma demo_drain: "ce_drain demo_cost_env 0 (cc_pages demo_cost_config) None calls =
    Inr [demo_group ''acme'' ''EC2'' ''1.25'', demo_group [] ''S3'' ''0.05'']"
proof -
  have p: "cc_pages demo_cost_config = Suc (Suc (Suc 0))" by (simp add: demo_cost_config_def)
  have "svc demo_cost_env calls c = Inr demo_usage" for calls c by (simp add: demo_cost_env_def)
  then show ?thesis unfolding p by (simp add: demo_cost_parse)
qed

lemma demo_map: "map_records (parse_group demo_cost_config) [demo_group ''acme'' ''EC2'' ''1.25'', demo_group [] ''S3'' ''0.05''] = Inr demo_costs"
  by (simp add: demo_cost_parse demo_costs_def)

lemma demo_aggregate: "\<exists>s w'. aggregate_day demo_cost_env demo_cost_config 0 w = (Inr s, w')"
proof -
  obtain w1 where u1: "utcnow demo_cost_env w = (Inr (clock demo_cost_env (ticks w)), w1)" by (simp add: utcnow_def tick_def)
  obtain w2 where i: "invoke demo_cost_env (usage_call 0 None) w1 = (Inr demo_usage, w2)"
    by (simp add: invoke_def demo_cost_env_def)
  obtain w3 where p1: "put_rollup demo_cost_env demo_cost_config ''acme'' 0 ''EC2'' 125 w2 = (Inr (), w3)"
    using mem_put_rollup [of 125 "''EC2''"] by force
  obtain w4 where p2: "put_rollup demo_cost_env demo_cost_config ''__untagged__'' 0 ''S3'' 5 w3 = (Inr (), w4)"
    using mem_put_rollup [of 5 "''S3''"] by force
  have p: "cc_pages demo_cost_config = Suc (Suc (Suc 0))" by (simp add: demo_cost_config_def)
  have "\<exists>t. aggregate_pages demo_cost_env demo_cost_config 0 (cc_pages demo_cost_config) None no_tally w1 = (Inr t, w4)"
    unfolding p by (simp add: bindE_def i liftE_def demo_cost_parse p1 p2 retE_def)
  then obtain t where "aggregate_pages demo_cost_env demo_cost_config 0 (cc_pages demo_cost_config) None no_tally w1 = (Inr t, w4)" ..
  with u1 show ?thesis by (simp add: aggregate_day_def bindE_def utcnow_def tick_def retE_def)
qed

definition empty_mem :: "mem world" where
  "empty_mem = \<lparr>db = (\<lambda>_ _. None), trace = [], ticks = 0\<rparr>"

theorem aggregate_day_upserts_witness:
  "\<exists>s w'. aggregate_day demo_cost_env demo_cost_config 0 empty_mem = (Inr s, w') \<and>
     rows mem_view w' ''rollup'' (rollup_key ''acme'' 0 ''EC2'') = Some (ddb_item (rollup_item ''acme'' 0 ''EC2'' 125)) \<and>
     rows mem_view w' ''rollup'' (rollup_key ''acme'' 0 ''S3'') = None \<and>
     rows_written s = 2 \<and> tenants_written s = 2 \<and> untagged_cost_cents s = 5"
proof -
  obtain s w' where run: "aggregate_day demo_cost_env demo_cost_config 0 empty_mem = (Inr s, w')"
    using demo_aggregate by blast
  obtain gs costs where r: "ce_drain demo_cost_env 0 (cc_pages demo_cost_config) None (trace empty_mem) = Inr gs"
    "map_records (parse_group demo_cost_config) gs = Inr costs"
    "\<forall>tenant service. rows mem_view w' (rollup_table demo_cost_config) (rollup_key tenant 0 service) =
       (case last_cost costs (tenant, service) of
          Some cents \<Rightarrow> Some (ddb_item (rollup_item tenant 0 service cents))
        | None \<Rightarrow> rows mem_view empty_mem (rollup_table demo_cost_config) (rollup_key tenant 0 service))"
    "rows_written s = length costs" "tenants_written s = card (fst ` set costs)"
    "untagged_cost_cents s = sum_list (map (snd \<circ> snd) (filter (\<lambda>x. fst x = untagged_tenant_id) costs))"
    using aggregate_day_upserts [OF demo_cost_env_ok run] by blast
  have gs: "gs = [demo_group ''acme'' ''EC2'' ''1.25'', demo_group [] ''S3'' ''0.05'']"
    using r(1) by (simp only: demo_drain sum.inject)
  then have costs: "costs = demo_costs" using r(2) by (simp only: demo_map sum.inject)
  have t: "rollup_table demo_cost_config = ''rollup''" by (simp add: demo_cost_config_def)
  have "rows mem_view w' ''rollup'' (rollup_key ''acme'' 0 ''EC2'') = Some (ddb_item (rollup_item ''acme'' 0 ''EC2'' 125))"
    using r(3) [rule_format, of "''acme''" "''EC2''"] by (simp add: costs demo_costs_def last_cost_def t)
  moreover have "rows mem_view w' ''rollup'' (rollup_key ''acme'' 0 ''S3'') = None"
    using r(3) [rule_format, of "''acme''" "''S3''"] by (simp add: costs demo_costs_def last_cost_def t empty_mem_def mem_view_def)
  ultimately show ?thesis
    using run r(4-6) by (auto simp: costs demo_costs_def untagged_tenant_id_def)
qed

theorem rerun_converges_witness:
  "\<exists>s1 w1 s2 w2. aggregate_day demo_cost_env demo_cost_config 0 empty_mem = (Inr s1, w1) \<and>
     aggregate_day demo_cost_env demo_cost_config 0 w1 = (Inr s2, w2) \<and>
     rows mem_view w2 = upserts demo_cost_config 0 demo_costs (rows mem_view empty_mem)"
proof -
  obtain s1 w1 where r1: "aggregate_day demo_cost_env demo_cost_config 0 empty_mem = (Inr s1, w1)"
    using demo_aggregate by blast
  obtain s2 w2 where r2: "aggregate_day demo_cost_env demo_cost_config 0 w1 = (Inr s2, w2)"
    using demo_aggregate by blast
  show ?thesis
    using rerun_converges [OF demo_cost_env_ok r1 r2 demo_drain demo_map demo_drain demo_map] r1 r2 by blast
qed

definition demo_item :: "string \<Rightarrow> string \<Rightarrow> int \<Rightarrow> item" where
  "demo_item tenant service cents =
     [(''tenant_id'', PStr tenant), (''day_service'', PStr (''1970-01-01#'' @ service)),
      (''day'', PStr ''1970-01-01''), (''service'', PStr service), (''cost_cents'', PDec (of_int cents))]"

definition demo_scan_env :: "mem env" where
  "demo_scan_env = demo_cost_env\<lparr>d_scan := (\<lambda>tbl c s t.
     (Inr \<lparr>p_items = [demo_item ''acme'' ''EC2'' 10, demo_item ''beta'' ''S3'' 70, demo_item ''acme'' ''S3'' 20], p_last = None\<rparr>, t))\<rparr>"

definition demo_daily :: "daily_rollup_row list" where
  "demo_daily = [\<lparr>dr_tenant = ''acme'', dr_day = 0, dr_service = ''EC2'', dr_cents = 10\<rparr>,
     \<lparr>dr_tenant = ''beta'', dr_day = 0, dr_service = ''S3'', dr_cents = 70\<rparr>,
     \<lparr>dr_tenant = ''acme'', dr_day = 0, dr_service = ''S3'', dr_cents = 20\<rparr>]"

theorem by_tenant_reconciles_witness:
  "\<exists>b. fst (aggregate_window demo_scan_env demo_cost_config 0 1 empty_mem) = Inr b \<and> tb_total b = 100 \<and>
     set (map tr_tenant (tb_tenants b)) = {''acme'', ''beta''} \<and> list_all (tenant_row_ok demo_daily 100) (tb_tenants b)"
proof -
  have p: "cc_pages demo_cost_config = Suc (Suc (Suc 0))" "nat (1 - 0) = Suc 0" by (simp_all add: demo_cost_config_def)
  have items: "map_records (row_from_item demo_cost_config)
      [demo_item ''acme'' ''EC2'' 10, demo_item ''beta'' ''S3'' 70, demo_item ''acme'' ''S3'' 20] = Inr demo_daily"
    by (simp add: row_from_item_def row_halves_def demo_item_def demo_daily_def dget_Cons day_of_def demo_cost_config_def)
  have walk: "walk_days demo_scan_env demo_cost_config 0 (nat (1 - 0)) empty_mem = (Inr demo_daily, empty_mem)"
    unfolding p(2) using items
    by (simp add: query_all_tenants_for_day_def p(1) scan_items_def on_db_def demo_scan_env_def bindE_def liftE_def retE_def)
  have nn: "\<forall>r\<in>set demo_daily. 0 \<le> dr_cents r" by (simp add: demo_daily_def)
  have total: "sum_list (map dr_cents demo_daily) = 100" "dr_tenant ` set demo_daily = {''acme'', ''beta''}"
    by (simp_all add: demo_daily_def insert_commute)
  obtain b where b: "fst (aggregate_window demo_scan_env demo_cost_config 0 1 empty_mem) = Inr b"
    "tb_total b = sum_list (map dr_cents demo_daily)" "set (map tr_tenant (tb_tenants b)) = dr_tenant ` set demo_daily"
    "list_all (tenant_row_ok demo_daily (tb_total b)) (tb_tenants b)"
    using by_tenant_reconciles [OF walk nn] by blast
  have "tb_total b = 100" using b(2) total(1) by simp
  with b(1,3,4) total(2) show ?thesis by auto
qed

definition demo_breakdown :: tenant_breakdown where
  "demo_breakdown = \<lparr>tb_from = 0, tb_to = 1, tb_currency = ''USD'', tb_tenants = [], tb_total = 0, tb_cache_hit = False,
     tb_queried_at = 0\<rparr>"

definition demo_model :: "tenant_breakdown cached_model" where
  "demo_model = \<lparr>cm_dump = (\<lambda>b. if b = demo_breakdown then ''{}'' else ''{x}''),
     cm_load = (\<lambda>s. if s = ''{}'' then Some demo_breakdown else None), cm_hit = (\<lambda>b. b\<lparr>tb_cache_hit := True\<rparr>)\<rparr>"

definition demo_cache_key :: cache_key where
  "demo_cache_key = \<lparr>query_kind = ''by-tenant'', ck_from = 0, ck_to = 1, group_by = None, service_filter = None\<rparr>"

definition demo_admin :: jwt_claims where
  "demo_admin = \<lparr>cl_sub = ''root'', cl_iss = ''iss'', cl_aud = ''aud'', cl_iat = 0, cl_exp = 1, cl_jti = None,
     cl_scopes = [], cl_role = Some ''admin'', cl_mfa_step_up_at = None\<rparr>"

text \<open>A row that expired at second \<open>0\<close>.\<close>

definition demo_cached_world :: "mem world" where
  "demo_cached_world = empty_mem\<lparr>db := store_row (\<lambda>_ _. None) ''cache'' [(''cache_key'', PStr (key_string demo_cost_config demo_cache_key))]
     (cache_row (key_string demo_cost_config demo_cache_key) (cm_dump demo_model demo_breakdown) 0)\<rparr>"

theorem cached_response_is_served_witness:
  "\<exists>x w'. get_cost_by_tenant demo_cost_env demo_cost_config demo_model demo_admin 0 1 demo_cached_world = (Inr x, w') \<and>
     x = demo_breakdown\<lparr>tb_cache_hit := True\<rparr> \<and> trace w' = []"
proof -
  let ?k = demo_cache_key
  have row: "rows mem_view demo_cached_world (cost_cache_table demo_cost_config)
      [(''cache_key'', PStr (key_string demo_cost_config ?k))] =
      Some (cache_row (key_string demo_cost_config ?k) (cm_dump demo_model demo_breakdown) 0)"
    by (simp add: demo_cached_world_def store_row_apply mem_view_def demo_cost_config_def)
  have load: "cm_load demo_model (cm_dump demo_model demo_breakdown) = Some demo_breakdown" by (simp add: demo_model_def)
  have role: "cl_role demo_admin = Some ''admin''" by (simp add: demo_admin_def)
  have get: "get_item demo_cost_env (cost_cache_table demo_cost_config) [(''cache_key'', PStr (key_string demo_cost_config ?k))]
      demo_cached_world = (Inr (Some (cache_row (key_string demo_cost_config ?k) (cm_dump demo_model demo_breakdown) 0)), demo_cached_world)"
    using row by (simp add: get_item_def on_db_def demo_cost_env_def mem_env_def mem_view_def ddb_item_def)
  have "cache_or_fetch demo_cost_env demo_cost_config demo_model ?k fetch tenant_cache_ttl_seconds demo_cached_world =
      (Inr (cm_hit demo_model demo_breakdown), demo_cached_world)" for fetch
    using get load by (simp add: cache_or_fetch_def cache_get_def bindE_def retE_def cache_row_def dget_Cons)
  then have run: "get_cost_by_tenant demo_cost_env demo_cost_config demo_model demo_admin 0 1 demo_cached_world =
      (Inr (cm_hit demo_model demo_breakdown), demo_cached_world)"
    using role by (simp add: get_cost_by_tenant_def require_admin_def check_window_def bindE_def liftE_def demo_cache_key_def)
  show ?thesis
    using cached_response_is_served [OF demo_cost_env_ok(1) load role _ demo_cache_key_def row run] run
    by (simp add: demo_model_def demo_cached_world_def empty_mem_def)
qed

end
