(* ===== verification/Cost_Explorer.thy ===== *)
theory Cost_Explorer
  imports Cost_Rollup
begin

text \<open>
  The rest of the cost-api service: the Cost Explorer wrapper with its retries and parsers
  (\<^verbatim>\<open>cost-api/.../cost_explorer.py\<close>), the alert store (\<^verbatim>\<open>alert_state.py\<close>), the anomaly detector
  (\<^verbatim>\<open>anomaly_detector.py\<close>) and the routes by-service, forecast and anomalies (\<^verbatim>\<open>routes/cost.py\<close>). The
  sleep between retries and the latency in a timeout's message are left out. The JSON form of an
  anomaly and the reading of a date as a UTC instant are parameters.
\<close>

section \<open>The wrapper\<close>

definition invalid_date_range :: "string \<Rightarrow> exn" where
  "invalid_date_range msg = OtherError ''InvalidDateRangeError'' msg"

definition ce_throttled :: exn where
  "ce_throttled = OtherError ''CostExplorerThrottledError'' []"

definition ce_timeout :: exn where
  "ce_timeout = OtherError ''CostExplorerTimeoutError'' []"

fun is_read_timeout :: "exn \<Rightarrow> bool" where
  "is_read_timeout (OtherError cls _) = (cls = ''ReadTimeoutError'' \<or> cls = ''ConnectTimeoutError'')"
| "is_read_timeout _ = False"

fun error_message :: "exn \<Rightarrow> string" where
  "error_message (ClientError _ msg) = msg"
| "error_message _ = []"

definition throttle_retry_attempts :: nat where
  "throttle_retry_attempts = 3"

text \<open>\<open>left\<close> is the number of attempts that remain.\<close>

fun call_attempts :: "'t env \<Rightarrow> call \<Rightarrow> nat \<Rightarrow> ('t world, pyval) io" where
  "call_attempts E c 0 = raiseE (OtherError ''CostExplorerError'' ''unreachable'')"
| "call_attempts E c (Suc left) =
     tryE (invoke E c)
       (\<lambda>e. if is_read_timeout e then raiseE ce_timeout
            else if error_code e = ''ThrottlingException'' then
              (if 0 < left then call_attempts E c left else raiseE ce_throttled)
            else if error_code e = ''ValidationException'' then raiseE (invalid_date_range (error_message e))
            else raiseE e)
       retE"

definition call_with_retry :: "'t env \<Rightarrow> string \<Rightarrow> item \<Rightarrow> ('t world, pyval) io" where
  "call_with_retry E op_name kwargs = call_attempts E (CostExplorer op_name kwargs) throttle_retry_attempts"

text \<open>The elements of a value that is iterated.\<close>

definition get_list :: "pyval \<Rightarrow> string \<Rightarrow> exn + pyval list" where
  "get_list v k = and_then (get_default v k (PList [])) (\<lambda>x. case as_list x of Some xs \<Rightarrow> Inr xs | None \<Rightarrow> Inl TypeError)"

section \<open>Costs by service\<close>

record service_cost =
  cs_service :: string
  cs_cents :: int
  cs_percent :: rat

record service_breakdown =
  sb_from :: int
  sb_to :: int
  sb_currency :: string
  sb_services :: "service_cost list"
  sb_total :: int
  sb_cache_hit :: bool
  sb_queried_at :: int

text \<open>One group: its service (none when it has no keys), its cents and its unit.\<close>

definition parse_service_group :: "pyval \<Rightarrow> pyval \<Rightarrow> exn + (pyval \<times> int \<times> pyval) option" where
  "parse_service_group grp currency =
     and_then (get_list grp ''Keys'') (\<lambda>keys.
       (case keys of
          [] \<Rightarrow> Inr None
        | service # _ \<Rightarrow>
            and_then (get_default grp ''Metrics'' (PDict [])) (\<lambda>m.
            and_then (get_default m ''UnblendedCost'' (PDict [])) (\<lambda>metrics.
            and_then (get_default metrics ''Amount'' (PStr ''0'')) (\<lambda>amount.
            and_then (get_default metrics ''Unit'' currency) (\<lambda>unit.
            and_then (float_cents amount) (\<lambda>cents. Inr (Some (service, cents, unit)))))))))"

type_synonym service_totals = "(pyval \<times> int) list \<times> pyval"

fun add_service_groups :: "pyval list \<Rightarrow> service_totals \<Rightarrow> exn + service_totals" where
  "add_service_groups [] acc = Inr acc"
| "add_service_groups (g # gs) (bucketed, currency) =
     and_then (parse_service_group g currency) (\<lambda>parsed.
       (case parsed of
          None \<Rightarrow> add_service_groups gs (bucketed, currency)
        | Some (service, cents, unit) \<Rightarrow> add_service_groups gs (add_cents service cents bucketed, unit)))"

fun add_buckets :: "pyval list \<Rightarrow> service_totals \<Rightarrow> exn + service_totals" where
  "add_buckets [] acc = Inr acc"
| "add_buckets (b # bs) acc =
     and_then (get_list b ''Groups'') (\<lambda>groups. and_then (add_service_groups groups acc) (add_buckets bs))"

definition mk_service_cost :: "int \<Rightarrow> pyval \<times> int \<Rightarrow> exn + service_cost" where
  "mk_service_cost whole sc =
     (case sc of (service, cents) \<Rightarrow>
        let p = percent_of cents whole in
        (case as_str service of
           Some name \<Rightarrow>
             if valid_share cents p then Inr \<lparr>cs_service = name, cs_cents = cents, cs_percent = p\<rparr>
             else Inl (ValueError ''CostByService'')
         | None \<Rightarrow> Inl (ValueError ''CostByService'')))"

definition service_rows :: "(pyval \<times> int) list \<Rightarrow> exn + service_cost list" where
  "service_rows bucketed =
     and_then (map_records (mk_service_cost (sum_list (map snd bucketed))) bucketed) (\<lambda>rs. Inr (sort_desc cs_cents rs))"

definition parse_service_response :: "'t env \<Rightarrow> pyval \<Rightarrow> int \<Rightarrow> int \<Rightarrow> ('t world, service_breakdown) io" where
  "parse_service_response E response from_date to_date =
     bindE (liftE (get_list response ''ResultsByTime'')) (\<lambda>results.
     bindE (liftE (add_buckets results ([], PStr ''USD''))) (\<lambda>(bucketed, currency).
     bindE (liftE (service_rows bucketed)) (\<lambda>rs.
     bindE (utcnow E) (\<lambda>now.
     (case as_str currency of
        Some cur \<Rightarrow>
          if 0 \<le> sum_list (map snd bucketed)
          then retE \<lparr>sb_from = from_date, sb_to = to_date, sb_currency = cur, sb_services = rs,
                     sb_total = sum_list (map snd bucketed), sb_cache_hit = False, sb_queried_at = now\<rparr>
          else raiseE (ValueError ''CostBreakdown'')
      | None \<Rightarrow> raiseE (ValueError ''CostBreakdown''))))))"

definition by_service_kwargs :: "int \<Rightarrow> int \<Rightarrow> item" where
  "by_service_kwargs from_date to_date =
     [(''TimePeriod'', PDict [(''Start'', PStr (iso_date from_date)), (''End'', PStr (iso_date to_date))]),
      (''Granularity'', PStr ''MONTHLY''), (''Metrics'', PList [PStr ''UnblendedCost'']),
      (''GroupBy'', PList [PDict [(''Type'', PStr ''DIMENSION''), (''Key'', PStr ''SERVICE'')]])]"

definition ce_cost_by_service :: "'t env \<Rightarrow> int \<Rightarrow> int \<Rightarrow> ('t world, service_breakdown) io" where
  "ce_cost_by_service E from_date to_date =
     bindE (call_with_retry E ''get_cost_and_usage'' (by_service_kwargs from_date to_date)) (\<lambda>response.
     parse_service_response E response from_date to_date)"

section \<open>The forecast\<close>

record forecast_bucket =
  fb_date :: int
  fb_mean :: int
  fb_lower :: int
  fb_upper :: int

record forecast =
  fc_horizon :: int
  fc_buckets :: "forecast_bucket list"
  fc_model :: string
  fc_cache_hit :: bool
  fc_queried_at :: int

definition floor_cents :: "pyval \<Rightarrow> exn + int" where
  "floor_cents v = and_then (float_cents v) (\<lambda>c. Inr (max c 0))"

definition parse_forecast_entry :: "cost_config \<Rightarrow> pyval \<Rightarrow> exn + forecast_bucket option" where
  "parse_forecast_entry C entry =
     and_then (get_default entry ''TimePeriod'' (PDict [])) (\<lambda>period.
     and_then (get_attr period ''Start'') (\<lambda>start.
     if \<not> truthy start then Inr None
     else
       (case as_str start of
          None \<Rightarrow> Inl TypeError
        | Some s \<Rightarrow>
            and_then (day_of C s) (\<lambda>day.
            and_then (get_default entry ''MeanValue'' (PStr ''0'')) (\<lambda>mean_str.
            and_then (get_default entry ''PredictionIntervalLowerBound'' mean_str) (\<lambda>lower_str.
            and_then (get_default entry ''PredictionIntervalUpperBound'' mean_str) (\<lambda>upper_str.
            and_then (floor_cents mean_str) (\<lambda>mean.
            and_then (floor_cents lower_str) (\<lambda>lower.
            and_then (floor_cents upper_str) (\<lambda>upper.
            Inr (Some \<lparr>fb_date = day, fb_mean = mean, fb_lower = lower, fb_upper = upper\<rparr>)))))))))))"

definition parse_forecast_response :: "'t env \<Rightarrow> cost_config \<Rightarrow> pyval \<Rightarrow> int \<Rightarrow> ('t world, forecast) io" where
  "parse_forecast_response E C response horizon =
     bindE (liftE (get_list response ''ForecastResultsByTime'')) (\<lambda>entries.
     bindE (liftE (map_records (parse_forecast_entry C) entries)) (\<lambda>parsed.
     bindE (utcnow E) (\<lambda>now.
     if 0 < horizon
     then retE \<lparr>fc_horizon = horizon, fc_buckets = sort_key fb_date (List.map_filter id parsed), fc_model = ''ce-builtin'',
                fc_cache_hit = False, fc_queried_at = now\<rparr>
     else raiseE (ValueError ''CostForecast''))))"

definition forecast_kwargs :: "int \<Rightarrow> int \<Rightarrow> item" where
  "forecast_kwargs today horizon =
     [(''TimePeriod'', PDict [(''Start'', PStr (iso_date today)), (''End'', PStr (iso_date (today + horizon)))]),
      (''Granularity'', PStr ''DAILY''), (''Metric'', PStr ''UNBLENDED_COST''), (''PredictionIntervalLevel'', PInt 95)]"

definition ce_cost_forecast :: "'t env \<Rightarrow> cost_config \<Rightarrow> int \<Rightarrow> ('t world, forecast) io" where
  "ce_cost_forecast E C horizon =
     bindE (utcnow E) (\<lambda>now.
     bindE (call_with_retry E ''get_cost_forecast'' (forecast_kwargs (now div day_micros) horizon)) (\<lambda>response.
     parse_forecast_response E C response horizon))"

section \<open>Routes over Cost Explorer\<close>

text \<open>The route's exception ladder; \<open>rejected\<close> is set where an invalid date range is mapped too.\<close>

definition ce_http :: "bool \<Rightarrow> exn \<Rightarrow> exn" where
  "ce_http rejected e =
     (case e of
        OtherError cls msg \<Rightarrow>
          if rejected \<and> cls = ''InvalidDateRangeError'' then HTTPException 400 msg
          else if cls = ''CostExplorerTimeoutError'' then HTTPException 503 ''upstream cost provider slow or unavailable''
          else if cls = ''CostExplorerThrottledError'' then HTTPException 502 ''Cost Explorer is throttled, try again shortly''
          else e
      | ClientError code _ \<Rightarrow> HTTPException 502 (''Cost Explorer error: '' @ code)
      | _ \<Rightarrow> e)"

definition get_cost_by_service :: "'t env \<Rightarrow> cost_config \<Rightarrow> service_breakdown cached_model \<Rightarrow> int \<Rightarrow> jwt_claims \<Rightarrow> int \<Rightarrow> int \<Rightarrow>
    ('t world, service_breakdown) io" where
  "get_cost_by_service E C M ttl claims from_date to_date =
     bindE (liftE (require_admin claims)) (\<lambda>_.
     bindE (liftE (check_window from_date to_date)) (\<lambda>_.
     tryE (cache_or_fetch E C M
         \<lparr>query_kind = ''by-service'', ck_from = from_date, ck_to = to_date, group_by = None, service_filter = None\<rparr>
         (ce_cost_by_service E from_date to_date) ttl)
       (\<lambda>e. raiseE (ce_http True e)) retE))"

definition allowed_forecast_horizons :: "int list" where
  "allowed_forecast_horizons = [7, 14, 30, 60, 90]"

definition get_forecast :: "'t env \<Rightarrow> cost_config \<Rightarrow> forecast cached_model \<Rightarrow> int \<Rightarrow> jwt_claims \<Rightarrow> int \<Rightarrow> ('t world, forecast) io" where
  "get_forecast E C M ttl claims horizon =
     bindE (liftE (require_admin claims)) (\<lambda>_.
     if horizon \<notin> set allowed_forecast_horizons
     then raiseE (HTTPException 400 ''horizon_days must be one of 7, 14, 30, 60, 90'')
     else
       bindE (utcnow E) (\<lambda>now.
       let today = now div day_micros in
       tryE (cache_or_fetch E C M
           \<lparr>query_kind = ''forecast'', ck_from = today, ck_to = today + horizon, group_by = Some ''DAILY'', service_filter = None\<rparr>
           (ce_cost_forecast E C horizon) ttl)
         (\<lambda>e. raiseE (ce_http True e)) retE))"

section \<open>The alert store\<close>

record cost_anomaly =
  signature :: string
  an_detector :: string
  an_tenant :: "string option"
  dimension_key :: string
  observed_cents :: int
  expected_cents :: int
  deviation :: pyfloat
  first_seen :: int
  last_seen :: int
  suppressed :: bool

record alert_config =
  alert_table :: string
  an_dump :: "cost_anomaly \<Rightarrow> string"
  an_load :: "string \<Rightarrow> cost_anomaly option"
  naive_dt :: "string \<Rightarrow> int option"
  min_deviation :: rat

record alert_row =
  ar_signature :: string
  ar_expires :: int
  ar_anomaly :: cost_anomaly

definition quiet_period_seconds :: int where
  "quiet_period_seconds = 86400"

text \<open>\<open>Inr None\<close> is a corrupt row, which is skipped; an expiry that is no number raises.\<close>

definition alert_row_from_item :: "cost_config \<Rightarrow> alert_config \<Rightarrow> item \<Rightarrow> exn + alert_row option" where
  "alert_row_from_item C A it =
     (if dget it ''alert_signature'' = PNone \<or> dget it ''payload'' = PNone \<or> dget it ''expires_at'' = PNone then Inr None
      else
        (case Option.bind (as_str (dget it ''payload'')) (an_load A) of
           None \<Rightarrow> Inr None
         | Some a \<Rightarrow>
             (case to_int (dget it ''expires_at'') of
                None \<Rightarrow> Inl (ValueError ''expires_at'')
              | Some n \<Rightarrow> Inr (Some \<lparr>ar_signature = cost_str C (dget it ''alert_signature''), ar_expires = n, ar_anomaly = a\<rparr>))))"

definition alert_get :: "'t env \<Rightarrow> cost_config \<Rightarrow> alert_config \<Rightarrow> string \<Rightarrow> ('t world, alert_row option) io" where
  "alert_get E C A sig =
     bindE (get_item E (alert_table A) [(''alert_signature'', PStr sig)]) (\<lambda>found.
       (case found of None \<Rightarrow> retE None | Some it \<Rightarrow> liftE (alert_row_from_item C A it)))"

definition alert_put :: "'t env \<Rightarrow> alert_config \<Rightarrow> string \<Rightarrow> cost_anomaly \<Rightarrow> int \<Rightarrow> ('t world, unit) io" where
  "alert_put E A sig a ttl_seconds =
     (if ttl_seconds \<le> 0 then raiseE (ValueError ''ttl_seconds must be positive'')
      else
        bindE (utcnow E) (\<lambda>now.
        put_item E (alert_table A)
          [(''alert_signature'', PStr sig), (''expires_at'', PInt (epoch_secs now + ttl_seconds)), (''payload'', PStr (an_dump A a))]
          CTrue))"

definition scan_active :: "'t env \<Rightarrow> cost_config \<Rightarrow> alert_config \<Rightarrow> ('t world, alert_row list) io" where
  "scan_active E C A =
     bindE (utcnow E) (\<lambda>now.
     bindE (scan_all E (alert_table A) CTrue (cc_pages C) None []) (\<lambda>items.
     bindE (liftE (map_records (alert_row_from_item C A) items)) (\<lambda>found.
     retE (filter (\<lambda>r. epoch_secs now < ar_expires r) (List.map_filter id found)))))"

definition matches_detector :: "string option \<Rightarrow> cost_anomaly \<Rightarrow> bool" where
  "matches_detector detector_filter a \<longleftrightarrow> detector_filter = None \<or> detector_filter = Some (an_detector a)"

definition read_active_alerts :: "'t env \<Rightarrow> cost_config \<Rightarrow> alert_config \<Rightarrow> string option \<Rightarrow> ('t world, cost_anomaly list) io" where
  "read_active_alerts E C A detector =
     bindE (scan_active E C A) (\<lambda>found.
     retE (filter (matches_detector detector) (map ar_anomaly found)))"

section \<open>The detector\<close>

definition default_min_deviation_pct :: rat where
  "default_min_deviation_pct = 20"

definition no_monitor_error_codes :: "string list" where
  "no_monitor_error_codes = [''ResourceNotFoundException'', ''AnomalyMonitorNotFoundException'', ''ValidationException'']"

definition parse_ce_date :: "'t env \<Rightarrow> alert_config \<Rightarrow> pyval \<Rightarrow> ('t world, int) io" where
  "parse_ce_date E A v =
     (case Option.bind (nonempty_str v) (naive_dt A) of Some t \<Rightarrow> retE t | None \<Rightarrow> utcnow E)"

definition anomaly_id_of :: "pyval \<Rightarrow> exn + pyval" where
  "anomaly_id_of entry =
     and_then (get_attr entry ''AnomalyId'') (\<lambda>a.
       if truthy a then Inr a
       else and_then (get_default entry ''AnomalyScore'' (PDict [])) (\<lambda>score. get_attr score ''AnomalyId''))"

definition amount_of :: "pyval \<Rightarrow> string \<Rightarrow> exn + pyfloat" where
  "amount_of impact k = and_then (get_default impact k (PInt 0)) (\<lambda>v. float_of (py_or v (PInt 0)))"

text \<open>Observed cents, expected cents and the deviation in percent.\<close>

definition impact_of :: "pyval \<Rightarrow> exn + (int \<times> int \<times> pyfloat)" where
  "impact_of entry =
     and_then (get_default entry ''Impact'' (PDict [])) (\<lambda>raw.
     let impact = py_or raw (PDict []) in
     and_then (amount_of impact ''TotalActualSpend'') (\<lambda>observed_amount.
     and_then (amount_of impact ''TotalExpectedSpend'') (\<lambda>expected_amount.
     and_then (round_cents observed_amount) (\<lambda>observed.
     and_then (round_cents expected_amount) (\<lambda>expected.
     and_then (get_attr impact ''TotalImpactPercentage'') (\<lambda>pct.
     and_then (if pct = PNone
               then Inr (Finite (if expected = 0 then 0 else fl (fl (of_int (observed - expected) / of_int expected) * 100)))
               else float_of pct) (\<lambda>dev.
     Inr (observed, expected, dev))))))))"

definition dimension_of :: "cost_config \<Rightarrow> pyval \<Rightarrow> pyval \<Rightarrow> exn + string" where
  "dimension_of C anomaly_id entry =
     and_then (get_default entry ''RootCauses'' (PList [])) (\<lambda>raw.
       if \<not> truthy raw then Inr (cost_str C anomaly_id)
       else
         (case as_list raw of
            Some (first # _) \<Rightarrow>
              (case as_dict first of
                 None \<Rightarrow> Inr (cost_str C anomaly_id)
               | Some d \<Rightarrow>
                   (let parts = map (cost_str C) (filter truthy [dget d ''Service'', dget d ''LinkedAccount'', dget d ''UsageType''])
                    in Inr (if parts = [] then cost_str C anomaly_id else join_with '' | '' parts)))
          | _ \<Rightarrow> Inl TypeError))"

text \<open>\<open>None\<close> is an entry without an identifier, which is skipped.\<close>

definition ce_anomaly_to_model :: "'t env \<Rightarrow> cost_config \<Rightarrow> alert_config \<Rightarrow> pyval \<Rightarrow> ('t world, cost_anomaly option) io" where
  "ce_anomaly_to_model E C A entry =
     bindE (liftE (anomaly_id_of entry)) (\<lambda>anomaly_id.
     if \<not> truthy anomaly_id then retE None
     else
       bindE (liftE (impact_of entry)) (\<lambda>(observed, expected, dev).
       bindE (liftE (get_default entry ''MonitorArn'' (PStr ''ce-monitor''))) (\<lambda>detector.
       bindE (liftE (dimension_of C anomaly_id entry)) (\<lambda>dimension.
       bindE (liftE (get_attr entry ''AnomalyStartDate'')) (\<lambda>start_str.
       bindE (liftE (get_attr entry ''AnomalyEndDate'')) (\<lambda>end_raw.
       let end_str = py_or end_raw start_str in
       bindE (parse_ce_date E A start_str) (\<lambda>first.
       bindE (if truthy end_str then parse_ce_date E A end_str else retE first) (\<lambda>last.
       retE (Some \<lparr>signature = cost_str C anomaly_id, an_detector = cost_str C detector, an_tenant = None,
                   dimension_key = dimension, observed_cents = max observed 0, expected_cents = max expected 0,
                   deviation = dev, first_seen = first, last_seen = last, suppressed = False\<rparr>)))))))))"

fun below_threshold :: "rat \<Rightarrow> pyfloat \<Rightarrow> bool" where
  "below_threshold m (Finite q) = (\<bar>q\<bar> < m)"
| "below_threshold m (Infinite neg) = False"
| "below_threshold m NaN = False"

fun detect_entries :: "'t env \<Rightarrow> cost_config \<Rightarrow> alert_config \<Rightarrow> pyval list \<Rightarrow> ('t world, cost_anomaly list) io" where
  "detect_entries E C A [] = retE []"
| "detect_entries E C A (x # xs) =
     bindE (ce_anomaly_to_model E C A x) (\<lambda>found.
     bindE (detect_entries E C A xs) (\<lambda>more.
     retE (case found of
             None \<Rightarrow> more
           | Some a \<Rightarrow> if below_threshold (min_deviation A) (deviation a) then more else a # more)))"

definition anomalies_call :: "int \<Rightarrow> int \<Rightarrow> call" where
  "anomalies_call from_date to_date =
     CostExplorer ''get_anomalies''
       [(''DateInterval'', PDict [(''StartDate'', PStr (iso_date from_date)), (''EndDate'', PStr (iso_date to_date))])]"

definition detect_from_cost_explorer :: "'t env \<Rightarrow> cost_config \<Rightarrow> alert_config \<Rightarrow> int \<Rightarrow> int \<Rightarrow> ('t world, cost_anomaly list) io" where
  "detect_from_cost_explorer E C A from_date to_date =
     tryE (invoke E (anomalies_call from_date to_date))
       (\<lambda>e. if is_read_timeout e then raiseE ce_timeout
            else if is_client_error e \<and> error_code e \<in> set no_monitor_error_codes then retE []
            else raiseE e)
       (\<lambda>response. bindE (liftE (get_list response ''Anomalies'')) (detect_entries E C A))"

section \<open>The anomalies route\<close>

definition detection_window_days :: int where
  "detection_window_days = 30"

text \<open>The dictionary by signature: active alerts first, then each fresh anomaly in turn.\<close>

definition active_dict :: "cost_anomaly list \<Rightarrow> (string \<times> cost_anomaly) list" where
  "active_dict active = fold (\<lambda>a. AList.update (signature a) a) active []"

definition merge_one :: "string list \<Rightarrow> cost_anomaly \<Rightarrow> (string \<times> cost_anomaly) list \<Rightarrow> (string \<times> cost_anomaly) list" where
  "merge_one active_signatures f merged =
     (if signature f \<in> set active_signatures then AList.update (signature f) (f\<lparr>suppressed := True\<rparr>) merged
      else if map_of merged (signature f) = None then AList.update (signature f) f merged
      else merged)"

definition merge_anomalies :: "cost_anomaly list \<Rightarrow> cost_anomaly list \<Rightarrow> cost_anomaly list" where
  "merge_anomalies active fresh = map snd (fold (merge_one (map signature active)) fresh (active_dict active))"

text \<open>The answer's anomalies and its time.\<close>

definition get_cost_anomalies :: "'t env \<Rightarrow> cost_config \<Rightarrow> alert_config \<Rightarrow> jwt_claims \<Rightarrow> string option \<Rightarrow> bool \<Rightarrow>
    ('t world, cost_anomaly list \<times> int) io" where
  "get_cost_anomalies E C A claims detector_filter active_only =
     bindE (liftE (require_admin claims)) (\<lambda>_.
     bindE (read_active_alerts E C A detector_filter) (\<lambda>active.
     bindE (if active_only then retE active
            else
              bindE (utcnow E) (\<lambda>now.
              let today = now div day_micros in
              tryE (detect_from_cost_explorer E C A (today - detection_window_days) today)
                (\<lambda>e. raiseE (ce_http False e))
                (\<lambda>fresh. retE (merge_anomalies active (filter (matches_detector detector_filter) fresh))))) (\<lambda>anomalies.
     bindE (utcnow E) (\<lambda>now. retE (anomalies, now)))))"

section \<open>Merging anomalies\<close>

lemma map_of_active: "map_of (active_dict active) k = find (\<lambda>a. signature a = k) (rev active)"
  unfolding active_dict_def by (induction active rule: rev_induct) (auto simp: update_conv)

lemma active_dict_wf:
  "distinct (map fst (active_dict active)) \<and> (\<forall>(k, a)\<in>set (active_dict active). signature a = k \<and> a \<in> set active)"
proof (induction active rule: rev_induct)
  case Nil
  then show ?case by (simp add: active_dict_def)
next
  case (snoc x xs)
  have step: "active_dict (xs @ [x]) = AList.update (signature x) x (active_dict xs)" by (simp add: active_dict_def)
  have "set (AList.update k v d) \<subseteq> insert (k, v) (set d)" for k v and d :: "(string \<times> cost_anomaly) list"
    by (induction d) auto
  then have "set (active_dict (xs @ [x])) \<subseteq> insert (signature x, x) (set (active_dict xs))" unfolding step .
  with snoc show ?case by (auto simp: step distinct_update)
qed

lemma mem_update_distinct:
  "distinct (map fst d) \<Longrightarrow> (k, a) \<in> set (AList.update j v d) \<Longrightarrow> (k = j \<and> a = v) \<or> (k \<noteq> j \<and> (k, a) \<in> set d)"
  by (induction d) (force split: if_splits)+

text \<open>What holds of an entry while fresh anomalies are merged.\<close>

definition entry_ok :: "cost_anomaly list \<Rightarrow> cost_anomaly list \<Rightarrow> string \<Rightarrow> cost_anomaly \<Rightarrow> bool" where
  "entry_ok active fresh k a \<longleftrightarrow> signature a = k \<and>
     (if k \<in> signature ` set active
      then (if k \<in> signature ` set fresh then suppressed a \<and> a \<in> (\<lambda>f. f\<lparr>suppressed := True\<rparr>) ` set fresh else a \<in> set active)
      else a \<in> set fresh)"

definition merged_ok :: "cost_anomaly list \<Rightarrow> cost_anomaly list \<Rightarrow> (string \<times> cost_anomaly) list \<Rightarrow> bool" where
  "merged_ok active fresh d \<longleftrightarrow>
     distinct (map fst d) \<and> fst ` set d = signature ` set active \<union> signature ` set fresh \<and>
     (\<forall>k a. (k, a) \<in> set d \<longrightarrow> entry_ok active fresh k a)"

lemma merged_ok_start: "merged_ok active [] (active_dict active)"
proof -
  have "fst ` set (active_dict active) = signature ` set active"
    unfolding active_dict_def by (induction active rule: rev_induct) (auto simp: dom_update)
  with active_dict_wf [of active] show ?thesis by (auto simp: merged_ok_def entry_ok_def)
qed

lemma entry_ok_other: "entry_ok active fresh k a \<Longrightarrow> k \<noteq> signature f \<Longrightarrow> entry_ok active (fresh @ [f]) k a"
  by (auto simp: entry_ok_def split: if_splits)

lemma entry_ok_old: "entry_ok active fresh k a \<Longrightarrow> k \<notin> signature ` set active \<Longrightarrow> entry_ok active (fresh @ [f]) k a"
  by (auto simp: entry_ok_def)

lemma merged_ok_step:
  assumes "merged_ok active fresh d"
  shows "merged_ok active (fresh @ [f]) (merge_one (map signature active) f d)"
proof -
  have d: "distinct (map fst d)" "fst ` set d = signature ` set active \<union> signature ` set fresh"
    and each: "\<And>k a. (k, a) \<in> set d \<Longrightarrow> entry_ok active fresh k a"
    using assms by (auto simp: merged_ok_def)
  have upd: "merged_ok active (fresh @ [f]) (AList.update (signature f) v d)" if "entry_ok active (fresh @ [f]) (signature f) v" for v
    unfolding merged_ok_def
  proof (intro conjI allI impI)
    fix k a assume "(k, a) \<in> set (AList.update (signature f) v d)"
    from mem_update_distinct [OF d(1) this] that each entry_ok_other show "entry_ok active (fresh @ [f]) k a" by blast
  qed (use d in \<open>auto simp: distinct_update dom_update\<close>)
  show ?thesis
  proof (cases "signature f \<in> signature ` set active")
    case True
    then have "entry_ok active (fresh @ [f]) (signature f) (f\<lparr>suppressed := True\<rparr>)" by (simp add: entry_ok_def)
    with True upd show ?thesis by (simp add: merge_one_def)
  next
    case False
    have new: "map_of d (signature f) = None \<longleftrightarrow> signature f \<notin> signature ` set fresh"
      using False d(2) by (simp add: map_of_eq_None_iff)
    show ?thesis
    proof (cases "map_of d (signature f) = None")
      case True
      have "entry_ok active (fresh @ [f]) (signature f) f" using False by (simp add: entry_ok_def)
      with True False upd show ?thesis by (simp add: merge_one_def)
    next
      case old: False
      have "entry_ok active (fresh @ [f]) k a" if "(k, a) \<in> set d" for k a
        using each [OF that] False by (cases "k = signature f") (auto intro: entry_ok_other entry_ok_old)
      with d new old False show ?thesis by (auto simp: merge_one_def merged_ok_def)
    qed
  qed
qed

lemma merge_anomalies_ok: "merged_ok active fresh (fold (merge_one (map signature active)) fresh (active_dict active))"
  by (induction fresh rule: rev_induct) (simp_all add: merged_ok_start merged_ok_step)

section \<open>Retries\<close>

lemma call_attempts_trace: "\<exists>n. n \<le> left \<and> trace (snd (call_attempts E c left w)) = trace w @ replicate n c"
proof (induction left arbitrary: w)
  case 0
  then show ?case by (simp add: raiseE_def)
next
  case (Suc left)
  obtain r w1 where i: "invoke E c w = (r, w1)" "trace w1 = trace w @ [c]" by (simp add: invoke_def)
  have stop: "\<exists>n. n \<le> Suc left \<and> trace w1 = trace w @ replicate n c"
    using i(2) by (intro exI [of _ "Suc 0"]) simp
  obtain n where "n \<le> left" "trace (snd (call_attempts E c left w1)) = trace w1 @ replicate n c" using Suc.IH by blast
  then have retry: "\<exists>n. n \<le> Suc left \<and> trace (snd (call_attempts E c left w1)) = trace w @ replicate n c"
    using i(2) by (intro exI [of _ "Suc n"]) simp
  show ?case
  proof (cases r)
    case (Inl e)
    with i(1) stop retry show ?thesis by (auto simp: tryE_def raiseE_def)
  next
    case (Inr x)
    with i(1) stop show ?thesis by (simp add: tryE_def retE_def)
  qed
qed

text \<open>Computations that add no call.\<close>

definition no_calls :: "('t world, 'a) io \<Rightarrow> bool" where
  "no_calls m \<longleftrightarrow> (\<forall>w. trace (snd (m w)) = trace w)"

lemma no_calls_basic:
  "no_calls (retE x)" "no_calls (raiseE e)" "no_calls (liftE r)" "no_calls (on_db f)" "no_calls (tick g)"
  by (auto simp: no_calls_def retE_def raiseE_def liftE_def on_db_def tick_def split: prod.splits)

lemma no_calls_bind: "no_calls m \<Longrightarrow> (\<And>x. no_calls (f x)) \<Longrightarrow> no_calls (bindE m f)"
  by (auto simp: no_calls_def bindE_def split: prod.splits sum.splits) (metis snd_conv)+

lemma no_calls_db: "no_calls (get_item E tbl k)" "no_calls (put_item E tbl it c)" "no_calls (utcnow E)"
  by (simp_all add: get_item_def put_item_def utcnow_def no_calls_basic)

lemma no_calls_cache_get: "no_calls (cache_get E C M k)"
  unfolding cache_get_def by (auto intro!: no_calls_bind no_calls_basic no_calls_db split: option.split)

lemma no_calls_cache_put: "no_calls (cache_put E C M k v ttl)"
  unfolding cache_put_def by (auto intro!: no_calls_bind no_calls_basic no_calls_db)

lemma no_calls_parse: "no_calls (parse_service_response E r a b)"
  unfolding parse_service_response_def
  by (auto intro!: no_calls_bind no_calls_basic no_calls_db split: option.split prod.split)

text \<open>At most \<open>m\<close> copies of one call.\<close>

definition repeats_call :: "nat \<Rightarrow> call \<Rightarrow> ('t world, 'a) io \<Rightarrow> bool" where
  "repeats_call m c f \<longleftrightarrow> (\<forall>w. \<exists>n. n \<le> m \<and> trace (snd (f w)) = trace w @ replicate n c)"

lemma repeats_none: "no_calls f \<Longrightarrow> repeats_call m c f"
  by (auto simp: repeats_call_def no_calls_def intro!: exI [of _ 0])

lemma repeats_then: "repeats_call m c f \<Longrightarrow> (\<And>x. no_calls (g x)) \<Longrightarrow> repeats_call m c (bindE f g)"
  by (auto simp: repeats_call_def no_calls_def bindE_def split: prod.splits sum.splits) (metis snd_conv)+

lemma repeats_after: "no_calls f \<Longrightarrow> (\<And>x. repeats_call m c (g x)) \<Longrightarrow> repeats_call m c (bindE f g)"
  by (auto simp: repeats_call_def no_calls_def bindE_def split: prod.splits sum.splits) (metis snd_conv replicate_0 append_Nil2 le0)+

lemma repeats_try:
  "repeats_call m c f \<Longrightarrow> (\<And>e. no_calls (h e)) \<Longrightarrow> (\<And>x. no_calls (g x)) \<Longrightarrow> repeats_call m c (tryE f h g)"
  by (auto simp: repeats_call_def no_calls_def tryE_def split: prod.splits sum.splits) (metis snd_conv)+

lemma repeats_cached:
  assumes "repeats_call m c fetch"
  shows "repeats_call m c (cache_or_fetch E C M k fetch ttl)"
  unfolding cache_or_fetch_def
proof (rule repeats_after [OF no_calls_cache_get])
  fix cached
  have "repeats_call m c (bindE fetch (\<lambda>fresh. bindE (cache_put E C M k fresh ttl) (\<lambda>_. retE fresh)))"
    by (intro repeats_then assms no_calls_bind no_calls_cache_put no_calls_basic)
  then show "repeats_call m c (case cached of Some v \<Rightarrow> retE v
      | None \<Rightarrow> bindE fetch (\<lambda>fresh. bindE (cache_put E C M k fresh ttl) (\<lambda>_. retE fresh)))"
    by (cases cached) (simp_all add: repeats_none no_calls_basic)
qed

section \<open>Services and negative sums\<close>

lemma map_records_Inl: "x \<in> set xs \<Longrightarrow> (\<And>y. f x \<noteq> Inr y) \<Longrightarrow> map_records f xs \<noteq> Inr ys"
  by (induction xs arbitrary: ys) (auto split: sum.splits)

lemma service_rows_iff:
  assumes "\<forall>x\<in>set bucketed. as_str (fst x) \<noteq> None"
  shows "(\<exists>rs. service_rows bucketed = Inr rs) \<longleftrightarrow> (\<forall>x\<in>set bucketed. 0 \<le> snd x)"
proof
  assume "\<exists>rs. service_rows bucketed = Inr rs"
  then obtain ys where ys: "map_records (mk_service_cost (sum_list (map snd bucketed))) bucketed = Inr ys"
    by (auto simp: service_rows_def and_then_Inr_iff)
  show "\<forall>x\<in>set bucketed. 0 \<le> snd x"
  proof (rule ballI, rule ccontr)
    fix x assume x: "x \<in> set bucketed" "\<not> 0 \<le> snd x"
    then have "mk_service_cost (sum_list (map snd bucketed)) x \<noteq> Inr y" for y
      by (auto simp: mk_service_cost_def valid_share_def Let_def split: option.split prod.split)
    with map_records_Inl [OF x(1)] ys show False by blast
  qed
next
  assume nn: "\<forall>x\<in>set bucketed. 0 \<le> snd x"
  have "\<exists>y. mk_service_cost (sum_list (map snd bucketed)) x = Inr y" if x: "x \<in> set bucketed" for x
  proof -
    obtain v c where xv: "x = (v, c)" by (cases x)
    have "0 \<le> c" using nn x xv by auto
    moreover have "c \<le> sum_list (map snd bucketed)" using member_le_sum_list [OF nn x] xv by simp
    ultimately have "valid_share c (percent_of c (sum_list (map snd bucketed)))"
      using percent_of_bounds by (simp add: valid_share_def)
    moreover obtain name where "as_str v = Some name" using assms x xv by force
    ultimately show ?thesis by (simp add: mk_service_cost_def xv Let_def)
  qed
  then have "\<exists>g. \<forall>x\<in>set bucketed. mk_service_cost (sum_list (map snd bucketed)) x = Inr (g x)" by metis
  then show "\<exists>rs. service_rows bucketed = Inr rs" using map_records_map by (fastforce simp: service_rows_def)
qed

section \<open>Properties\<close>

text \<open>
  C33. At most three calls: whatever Cost Explorer answers, and whatever the cache holds, a by-service
  request adds nothing to the calls but at most three copies of its one query.
\<close>

theorem by_service_calls_bounded:
  "\<exists>n. n \<le> 3 \<and> trace (snd (get_cost_by_service E C M ttl claims from_date to_date w)) =
     trace w @ replicate n (CostExplorer ''get_cost_and_usage'' (by_service_kwargs from_date to_date))"
proof -
  let ?c = "CostExplorer ''get_cost_and_usage'' (by_service_kwargs from_date to_date)"
  have "repeats_call 3 ?c (call_with_retry E ''get_cost_and_usage'' (by_service_kwargs from_date to_date))"
    unfolding repeats_call_def call_with_retry_def throttle_retry_attempts_def using call_attempts_trace by blast
  then have "repeats_call 3 ?c (ce_cost_by_service E from_date to_date)"
    unfolding ce_cost_by_service_def by (intro repeats_then no_calls_parse)
  then have "repeats_call 3 ?c (get_cost_by_service E C M ttl claims from_date to_date)"
    unfolding get_cost_by_service_def by (intro repeats_after repeats_try repeats_cached no_calls_basic)
  then show ?thesis by (simp add: repeats_call_def)
qed

text \<open>
  The by-service answer exists exactly when no service's sum is negative: with string services and
  a string currency, a response whose groups parse is answered if and only if every sum is at least
  zero. One service with more credits than costs fails the whole request.
\<close>

lemma by_service_answers_iff:
  assumes "get_list response ''ResultsByTime'' = Inr results" "add_buckets results ([], PStr ''USD'') = Inr (bucketed, PStr cur)"
    and "\<forall>x\<in>set bucketed. as_str (fst x) \<noteq> None"
  shows "(\<exists>b. fst (parse_service_response E response from_date to_date w) = Inr b) \<longleftrightarrow> (\<forall>x\<in>set bucketed. 0 \<le> snd x)"
proof (cases "\<forall>x\<in>set bucketed. 0 \<le> snd x")
  case True
  then obtain rs where "service_rows bucketed = Inr rs" using service_rows_iff [OF assms(3)] by blast
  moreover have "0 \<le> sum_list (map snd bucketed)" using True by (intro sum_list_nonneg) auto
  ultimately show ?thesis using assms(1,2) True
    by (simp add: parse_service_response_def bindE_def liftE_def utcnow_def tick_def retE_def)
next
  case False
  then obtain e where "service_rows bucketed = Inl e"
    using service_rows_iff [OF assms(3)] by (cases "service_rows bucketed") auto
  then show ?thesis using assms(1,2) False by (simp add: parse_service_response_def bindE_def liftE_def)
qed

text \<open>
  C30. Merging fresh anomalies into the active alerts: every signature of either list appears exactly
  once; an alert that is active and detected again appears only as the suppressed copy of a fresh
  anomaly, an alert that is not detected again appears as it was stored, and any other entry is a fresh
  anomaly.
\<close>

theorem merged_anomalies:
  assumes "a \<in> set (merge_anomalies active fresh)"
  shows "distinct (map signature (merge_anomalies active fresh)) \<and>
     signature ` set (merge_anomalies active fresh) = signature ` set active \<union> signature ` set fresh \<and>
     (if signature a \<in> signature ` set active
      then (if signature a \<in> signature ` set fresh then suppressed a \<and> a \<in> (\<lambda>f. f\<lparr>suppressed := True\<rparr>) ` set fresh else a \<in> set active)
      else a \<in> set fresh)"
proof -
  define d where "d = fold (merge_one (map signature active)) fresh (active_dict active)"
  have ok: "distinct (map fst d)" "fst ` set d = signature ` set active \<union> signature ` set fresh"
    "\<And>k a. (k, a) \<in> set d \<Longrightarrow> entry_ok active fresh k a"
    using merge_anomalies_ok [of active fresh] by (simp_all add: d_def merged_ok_def)
  have "map signature (map snd d) = map fst d" using ok(3) by (auto simp: entry_ok_def)
  moreover have res: "merge_anomalies active fresh = map snd d" by (simp add: merge_anomalies_def d_def)
  ultimately have keys: "map signature (merge_anomalies active fresh) = map fst d" by simp
  then have "signature ` set (merge_anomalies active fresh) = fst ` set d" by (metis set_map)
  moreover obtain k where "(k, a) \<in> set d" using assms res by auto
  then have "entry_ok active fresh (signature a) a" using ok(3) by (auto simp: entry_ok_def)
  ultimately show ?thesis using keys ok(1,2) by (simp add: entry_ok_def)
qed

section \<open>Witnesses\<close>

definition demo_credit :: pyval where
  "demo_credit = PDict [(''ResultsByTime'', PList [PDict [(''Groups'', PList
     [PDict [(''Keys'', PList [PStr ''EC2'']), (''Metrics'', PDict [(''UnblendedCost'', PDict [(''Amount'', PStr ''-0.5'')])])]])]])]"

lemma demo_credit_cents: "float_cents (PStr ''-0.5'') = Inr (- 50)"
  by code_simp

definition demo_anomaly :: "string \<Rightarrow> int \<Rightarrow> cost_anomaly" where
  "demo_anomaly sig cents =
     \<lparr>signature = sig, an_detector = ''m'', an_tenant = None, dimension_key = ''EC2'', observed_cents = cents, expected_cents = 1,
      deviation = Finite 50, first_seen = 0, last_seen = 0, suppressed = False\<rparr>"

theorem merged_anomalies_witness:
  "(demo_anomaly ''s1'' 7)\<lparr>suppressed := True\<rparr> \<in> set (merge_anomalies [demo_anomaly ''s1'' 5] [demo_anomaly ''s1'' 7, demo_anomaly ''s2'' 9]) \<and>
   signature ` set (merge_anomalies [demo_anomaly ''s1'' 5] [demo_anomaly ''s1'' 7, demo_anomaly ''s2'' 9]) = {''s1'', ''s2''}"
proof -
  have mem: "(demo_anomaly ''s1'' 7)\<lparr>suppressed := True\<rparr> \<in> set (merge_anomalies [demo_anomaly ''s1'' 5] [demo_anomaly ''s1'' 7, demo_anomaly ''s2'' 9])"
    by (simp add: merge_anomalies_def active_dict_def merge_one_def demo_anomaly_def)
  from merged_anomalies [OF mem] mem show ?thesis by (simp add: demo_anomaly_def insert_commute)
qed

end
