(* ===== verification/Frame_Sequencer.thy ===== *)
theory Frame_Sequencer
  imports Cloud User_Data "HOL-Library.Multiset"
begin

text \<open>
  The audio-frame consumer of the streaming container (\<^verbatim>\<open>transcriber-stream/.../sqs_consumer.py\<close>): a
  queue without order delivers frames at least once, the generator yields them by sequence number. The
  frames yielded so far are the field \<open>sq_out\<close> of its state, each with its number (\<open>None\<close> for a frame
  without one); the number is not part of what the code yields. When the consumer of the generator sets
  its stop flag is a parameter: \<open>q_stop_head i\<close> at the head of iteration \<open>i\<close>, \<open>q_stop_yield k\<close> after
  frame \<open>k\<close>. \<^verbatim>\<open>json.loads\<close> and the reading of a timestamp are parameters.
\<close>

section \<open>Messages\<close>

type_synonym bytes = "nat list"

record frame_queue =
  q_url :: string
  q_wait :: int
  q_max :: int
  q_started_at :: rat
  q_loads :: "string \<Rightarrow> pyval option"
  q_parse_ts :: "string \<Rightarrow> rat option"
  q_stop_head :: "nat \<Rightarrow> bool"
  q_stop_yield :: "nat \<Rightarrow> bool"

definition stale_frame_cutoff_seconds :: rat where
  "stale_frame_cutoff_seconds = 5"

definition max_gap_wait_seconds :: rat where
  "max_gap_wait_seconds = 2"

text \<open>\<^verbatim>\<open>base64.b64decode(s, validate=True)\<close>; \<open>None\<close> is its error.\<close>

definition b64_letter :: "char \<Rightarrow> bool" where
  "b64_letter c = (let n = (of_char c :: nat) in
     65 \<le> n \<and> n \<le> 90 \<or> 97 \<le> n \<and> n \<le> 122 \<or> 48 \<le> n \<and> n \<le> 57 \<or> n = 43 \<or> n = 47)"

definition b64decode_strict :: "string \<Rightarrow> bytes option" where
  "b64decode_strict s =
     (let pad = dropWhile (\<lambda>c. c \<noteq> CHR ''='') s in
      if length s mod 4 = 0 \<and> list_all b64_letter (takeWhile (\<lambda>c. c \<noteq> CHR ''='') s) \<and> (pad = [] \<or> pad = ''='' \<or> pad = ''=='')
      then Some (b64decode s) else None)"

text \<open>What a message turns out to be.\<close>

datatype arrival = Malformed | Stale | Plain bytes | Numbered int bytes

definition is_stale :: "frame_queue \<Rightarrow> item \<Rightarrow> bool" where
  "is_stale Q envelope =
     (case as_str (dget envelope ''received_at'') of
        None \<Rightarrow> False
      | Some s \<Rightarrow> (case q_parse_ts Q s of None \<Rightarrow> False | Some ts \<Rightarrow> ts < q_started_at Q - stale_frame_cutoff_seconds))"

definition frame_number :: "item \<Rightarrow> int option" where
  "frame_number envelope = (case as_int (dget envelope ''seq'') of None \<Rightarrow> None | Some i \<Rightarrow> if 0 \<le> i then Some i else None)"

definition classify_envelope :: "frame_queue \<Rightarrow> item \<Rightarrow> arrival" where
  "classify_envelope Q envelope =
     (if is_stale Q envelope then Stale
      else
        (case nonempty_str (dget_or envelope ''pcm_b64'' (PStr [])) of
           None \<Rightarrow> Malformed
         | Some s \<Rightarrow>
             (case b64decode_strict s of
                None \<Rightarrow> Malformed
              | Some pcm \<Rightarrow> (case frame_number envelope of None \<Rightarrow> Plain pcm | Some i \<Rightarrow> Numbered i pcm))))"

text \<open>A body that is JSON but no object has no \<^verbatim>\<open>get\<close>.\<close>

definition classify_message :: "frame_queue \<Rightarrow> pyval \<Rightarrow> exn + arrival" where
  "classify_message Q msg =
     (case as_dict msg of
        None \<Rightarrow> Inl AttributeError
      | Some m \<Rightarrow>
          (case as_str (dget_or m ''Body'' (PStr [])) of
             None \<Rightarrow> Inl TypeError
           | Some body \<Rightarrow>
               (case q_loads Q body of
                  None \<Rightarrow> Inr Malformed
                | Some v \<Rightarrow> (case as_dict v of None \<Rightarrow> Inl AttributeError | Some envelope \<Rightarrow> Inr (classify_envelope Q envelope)))))"

definition delete_entry :: "pyval \<Rightarrow> (pyval \<times> pyval) list" where
  "delete_entry msg =
     (case as_dict msg of
        None \<Rightarrow> []
      | Some m \<Rightarrow>
          if truthy (dget_or m ''ReceiptHandle'' (PStr []))
          then [(dget_or m ''MessageId'' (PStr ''?''), dget_or m ''ReceiptHandle'' (PStr []))] else [])"

section \<open>The reordering buffer\<close>

record seq_state =
  sq_pending :: "(int \<times> bytes) list"
  sq_next :: "int option"
  sq_upto :: "int option"
  sq_gap_since :: "rat option"
  sq_stale :: nat
  sq_malformed :: nat
  sq_duplicate :: nat
  sq_skipped :: nat
  sq_out :: "(int option \<times> bytes) list"
  sq_done :: bool

definition seq_init :: seq_state where
  "seq_init = \<lparr>sq_pending = [], sq_next = None, sq_upto = None, sq_gap_since = None, sq_stale = 0, sq_malformed = 0,
     sq_duplicate = 0, sq_skipped = 0, sq_out = [], sq_done = False\<rparr>"

text \<open>One arrival: counted, put aside as a payload without number, dropped as a duplicate or buffered.\<close>

fun take_arrival :: "arrival \<Rightarrow> seq_state \<times> bytes list \<Rightarrow> seq_state \<times> bytes list" where
  "take_arrival Malformed (s, ps) = (s\<lparr>sq_malformed := sq_malformed s + 1\<rparr>, ps)"
| "take_arrival Stale (s, ps) = (s\<lparr>sq_stale := sq_stale s + 1\<rparr>, ps)"
| "take_arrival (Plain b) (s, ps) = (s, ps @ [b])"
| "take_arrival (Numbered i b) (s, ps) =
     ((if (case sq_upto s of None \<Rightarrow> False | Some u \<Rightarrow> i \<le> u) \<or> map_of (sq_pending s) i \<noteq> None
       then s\<lparr>sq_duplicate := sq_duplicate s + 1\<rparr>
       else s\<lparr>sq_pending := sq_pending s @ [(i, b)]\<rparr>), ps)"

definition emit :: "frame_queue \<Rightarrow> int option \<Rightarrow> bytes \<Rightarrow> seq_state \<Rightarrow> seq_state" where
  "emit Q i b s = (let out = sq_out s @ [(i, b)] in s\<lparr>sq_out := out, sq_done := q_stop_yield Q (length out)\<rparr>)"

fun emit_plain :: "frame_queue \<Rightarrow> bytes list \<Rightarrow> seq_state \<Rightarrow> seq_state" where
  "emit_plain Q [] s = s"
| "emit_plain Q (b # bs) s = (let s' = emit Q None b s in if sq_done s' then s' else emit_plain Q bs s')"

text \<open>\<^verbatim>\<open>while next_seq in pending\<close>: yield the contiguous frames.\<close>

function flush :: "frame_queue \<Rightarrow> seq_state \<Rightarrow> seq_state" where
  "flush Q s =
     (case sq_next s of
        None \<Rightarrow> s
      | Some n \<Rightarrow>
          (case map_of (sq_pending s) n of
             None \<Rightarrow> s
           | Some b \<Rightarrow>
               (let s' = emit Q (Some n) b (s\<lparr>sq_pending := AList.delete n (sq_pending s), sq_upto := Some n,
                           sq_next := Some (n + 1), sq_gap_since := None\<rparr>)
                in if sq_done s' then s' else flush Q s')))"
  by pat_completeness auto

lemma length_delete_less: "map_of d k = Some v \<Longrightarrow> length (AList.delete k d) < length d"
proof (induction d)
  case (Cons x d)
  have "length (AList.delete k d) \<le> length d" by (simp add: AList.delete_eq)
  with Cons show ?case by (cases x) (auto simp: AList.delete_eq le_imp_less_Suc)
qed simp

termination flush
  by (relation "measure (\<lambda>(Q, s). length (sq_pending s))") (auto simp: emit_def Let_def dest: length_delete_less)

declare flush.simps [simp del]

definition min_key :: "(int \<times> 'b) list \<Rightarrow> int" where
  "min_key d = Min (fst ` set d)"

text \<open>A gap that has lasted for the waiting time is skipped.\<close>

definition skip_gap :: "seq_state \<Rightarrow> seq_state" where
  "skip_gap s = s\<lparr>sq_skipped := sq_skipped s + 1, sq_next := Some (min_key (sq_pending s)), sq_gap_since := None\<rparr>"

definition gap_expired :: "rat \<Rightarrow> seq_state \<Rightarrow> bool" where
  "gap_expired now s = (case sq_gap_since s of None \<Rightarrow> False | Some t \<Rightarrow> max_gap_wait_seconds \<le> now - t)"

definition note_gap :: "rat \<Rightarrow> seq_state \<Rightarrow> seq_state" where
  "note_gap now s = (if sq_gap_since s = None then s\<lparr>sq_gap_since := Some now\<rparr> else s)"

definition idle_check :: "frame_queue \<Rightarrow> rat \<Rightarrow> seq_state \<Rightarrow> seq_state" where
  "idle_check Q now s = (if gap_expired now s then flush Q (skip_gap s) else note_gap now s)"

definition busy_check :: "rat \<Rightarrow> seq_state \<Rightarrow> seq_state" where
  "busy_check now s = (if gap_expired now s then skip_gap s else note_gap now s)"

definition waits_for_gap :: "seq_state \<Rightarrow> bool" where
  "waits_for_gap s =
     (sq_pending s \<noteq> [] \<and> (case sq_next s of None \<Rightarrow> False | Some n \<Rightarrow> map_of (sq_pending s) n = None))"

definition deliver :: "frame_queue \<Rightarrow> arrival list \<Rightarrow> seq_state \<Rightarrow> seq_state" where
  "deliver Q as s =
     (let (s1, payloads) = fold take_arrival as (s, []); s2 = emit_plain Q payloads s1 in
      if sq_done s2 \<or> sq_pending s2 = [] then s2
      else flush Q (if sq_next s2 = None then s2\<lparr>sq_next := Some (min_key (sq_pending s2))\<rparr> else s2))"

section \<open>The generator\<close>

definition receive_frames :: "'t env \<Rightarrow> frame_queue \<Rightarrow> ('t world, pyval) io" where
  "receive_frames E Q = invoke E (SqsReceive (q_url Q) (q_max Q) (q_wait Q) None)"

definition delete_frames :: "'t env \<Rightarrow> frame_queue \<Rightarrow> pyval list \<Rightarrow> ('t world, unit) io" where
  "delete_frames E Q msgs =
     (let entries = concat (map delete_entry msgs) in
      if entries = [] then retE ()
      else tryE (invoke E (SqsDeleteBatch (q_url Q) entries)) (\<lambda>e. retE ()) (\<lambda>_. retE ()))"

text \<open>One iteration. The deletion precedes the yields.\<close>

definition frames_step :: "'t env \<Rightarrow> frame_queue \<Rightarrow> seq_state \<Rightarrow> ('t world, seq_state) io" where
  "frames_step E Q s =
     tryE (receive_frames E Q) (\<lambda>e. retE s) (\<lambda>resp.
     bindE (liftE (resp_list resp ''Messages'')) (\<lambda>msgs.
     if msgs = [] then
       (if waits_for_gap s then bindE (tick (monotonic E)) (\<lambda>now. retE (idle_check Q now s)) else retE s)
     else
       bindE (liftE (map_records (classify_message Q) msgs)) (\<lambda>as.
       bindE (delete_frames E Q msgs) (\<lambda>_.
       let s' = deliver Q as s in
       if sq_done s' \<or> sq_pending s' = [] then retE s'
       else bindE (tick (monotonic E)) (\<lambda>now. retE (busy_check now s'))))))"

text \<open>What is buffered when the loop ends is yielded in order.\<close>

definition final_drain :: "seq_state \<Rightarrow> seq_state" where
  "final_drain s =
     s\<lparr>sq_pending := [], sq_out := sq_out s @ map (\<lambda>(i, b). (Some i, b)) (sort_key fst (sq_pending s))\<rparr>"

text \<open>\<open>n\<close> iterations at most, from the \<open>i\<close>-th on.\<close>

fun frames :: "'t env \<Rightarrow> frame_queue \<Rightarrow> nat \<Rightarrow> nat \<Rightarrow> seq_state \<Rightarrow> ('t world, seq_state) io" where
  "frames E Q 0 i s = retE s"
| "frames E Q (Suc n) i s =
     (if q_stop_head Q i then retE (final_drain s)
      else bindE (frames_step E Q s) (\<lambda>s'. if sq_done s' then retE s' else frames E Q n (Suc i) s'))"

section \<open>What has been received and yielded\<close>

definition frame_numbers :: "seq_state \<Rightarrow> int list" where
  "frame_numbers s = map (the \<circ> fst) (filter (\<lambda>x. fst x \<noteq> None) (sq_out s))"

text \<open>The arrivals of a run, read off the calls it made and the queue's answers.\<close>

definition answered :: "frame_queue \<Rightarrow> call \<Rightarrow> exn + pyval \<Rightarrow> arrival list" where
  "answered Q c r =
     (case c of
        SqsReceive _ _ _ _ \<Rightarrow>
          (case and_then r (\<lambda>resp. and_then (resp_list resp ''Messages'') (map_records (classify_message Q))) of
             Inl e \<Rightarrow> [] | Inr as \<Rightarrow> as)
      | _ \<Rightarrow> [])"

definition received :: "'t env \<Rightarrow> frame_queue \<Rightarrow> call list \<Rightarrow> arrival list" where
  "received E Q cs = concat (map (\<lambda>j. answered Q (cs ! j) (svc E (take j cs) (cs ! j))) [0..<length cs])"

lemma received_Nil [simp]: "received E Q [] = []"
  by (simp add: received_def)

lemma received_snoc: "received E Q (cs @ [c]) = received E Q cs @ answered Q c (svc E cs c)"
proof -
  have "map (\<lambda>j. answered Q ((cs @ [c]) ! j) (svc E (take j (cs @ [c])) ((cs @ [c]) ! j))) [0..<length cs]
      = map (\<lambda>j. answered Q (cs ! j) (svc E (take j cs) (cs ! j))) [0..<length cs]"
    by (rule map_cong) (auto simp: nth_append)
  then have "concat (map (\<lambda>j. answered Q ((cs @ [c]) ! j) (svc E (take j (cs @ [c])) ((cs @ [c]) ! j))) [0..<length cs])
      = received E Q cs" by (simp only: received_def)
  then show ?thesis by (simp add: received_def [of E Q "cs @ [c]"])
qed

lemma delete_frames_received:
  assumes "delete_frames E Q msgs w = (r, w')"
  shows "r = Inr ()" "received E Q (trace w') = received E Q (trace w)"
  using assms
  by (auto simp: delete_frames_def Let_def retE_def tryE_def invoke_def received_snoc answered_def
      split: if_splits sum.splits)

lemma frames_step_cases:
  assumes "frames_step E Q s w = (Inr s', w')"
  obtains (rest) "s' = s" "received E Q (trace w') = received E Q (trace w)"
  | (idle) now where "waits_for_gap s" "s' = idle_check Q now s" "received E Q (trace w') = received E Q (trace w)"
  | (batch) as where "s' = deliver Q as s" "received E Q (trace w') = received E Q (trace w) @ as"
      "sq_done s' \<or> sq_pending s' = []"
  | (busy) as now where "s' = busy_check now (deliver Q as s)" "\<not> sq_done (deliver Q as s)"
      "sq_pending (deliver Q as s) \<noteq> []" "received E Q (trace w') = received E Q (trace w) @ as"
proof -
  obtain r1 w1 where rc: "receive_frames E Q w = (r1, w1)" by fastforce
  then have r1: "r1 = svc E (trace w) (SqsReceive (q_url Q) (q_max Q) (q_wait Q) None)"
      and w1: "trace w1 = trace w @ [SqsReceive (q_url Q) (q_max Q) (q_wait Q) None]"
    by (auto simp: receive_frames_def invoke_def)
  have rec1: "received E Q (trace w1) = received E Q (trace w) @
      (case and_then r1 (\<lambda>resp. and_then (resp_list resp ''Messages'') (map_records (classify_message Q))) of
         Inl e \<Rightarrow> [] | Inr as \<Rightarrow> as)"
    by (simp add: w1 received_snoc r1 answered_def)
  show ?thesis
  proof (cases r1)
    case (Inl e)
    with assms rc have "s' = s" "w' = w1" by (auto simp: frames_step_def tryE_def retE_def)
    with rec1 Inl rest show ?thesis by simp
  next
    case (Inr resp)
    with assms rc obtain msgs where ms: "resp_list resp ''Messages'' = Inr msgs"
      and go: "(if msgs = [] then
         (if waits_for_gap s then bindE (tick (monotonic E)) (\<lambda>now. retE (idle_check Q now s)) else retE s)
       else bindE (liftE (map_records (classify_message Q) msgs)) (\<lambda>as.
         bindE (delete_frames E Q msgs) (\<lambda>_.
         let s' = deliver Q as s in
         if sq_done s' \<or> sq_pending s' = [] then retE s'
         else bindE (tick (monotonic E)) (\<lambda>now. retE (busy_check now s'))))) w1 = (Inr s', w')"
      by (auto simp: frames_step_def tryE_def bindE_Inr_iff liftE_def)
    show ?thesis
    proof (cases "msgs = []")
      case True
      have "received E Q (trace w1) = received E Q (trace w)" using rec1 Inr ms True by simp
      with go True rest idle show ?thesis
        by (auto simp: bindE_Inr_iff retE_def tick_def split: if_splits)
    next
      case False
      with go obtain as w2 where as: "map_records (classify_message Q) msgs = Inr as"
        and d: "delete_frames E Q msgs w1 = (Inr (), w2)"
        and fin: "(let s' = deliver Q as s in
           if sq_done s' \<or> sq_pending s' = [] then retE s'
           else bindE (tick (monotonic E)) (\<lambda>now. retE (busy_check now s'))) w2 = (Inr s', w')"
        by (auto simp: bindE_Inr_iff liftE_def)
      have rec2: "received E Q (trace w2) = received E Q (trace w) @ as"
        using delete_frames_received(2) [OF d] rec1 Inr ms as by simp
      show ?thesis
      proof (cases "sq_done (deliver Q as s) \<or> sq_pending (deliver Q as s) = []")
        case True
        then have "s' = deliver Q as s" "w2 = w'" using fin by (auto simp: Let_def retE_def)
        with batch [of as] True rec2 show ?thesis by simp
      next
        case False
        with fin rec2 busy show ?thesis by (auto simp: Let_def retE_def bindE_Inr_iff tick_def)
      qed
    qed
  qed
qed

text \<open>A relation between the arrivals and the state that every part of an iteration keeps.\<close>

lemma frames_invariant:
  assumes idle: "\<And>rs s now. I rs s \<Longrightarrow> \<not> sq_done s \<Longrightarrow> waits_for_gap s \<Longrightarrow> I rs (idle_check Q now s)"
    and batch: "\<And>rs s as. I rs s \<Longrightarrow> \<not> sq_done s \<Longrightarrow> I (rs @ as) (deliver Q as s)"
    and busy: "\<And>rs s now. I rs s \<Longrightarrow> \<not> sq_done s \<Longrightarrow> sq_pending s \<noteq> [] \<Longrightarrow> I rs (busy_check now s)"
    and drain: "\<And>rs s. I rs s \<Longrightarrow> \<not> sq_done s \<Longrightarrow> J rs (final_drain s)"
    and weaken: "\<And>rs s. I rs s \<Longrightarrow> J rs s"
  shows "frames E Q n i s w = (Inr s', w') \<Longrightarrow> I (received E Q (trace w)) s \<Longrightarrow> \<not> sq_done s \<Longrightarrow>
    J (received E Q (trace w')) s'"
proof (induction n arbitrary: i s w)
  case 0
  then show ?case using weaken by (simp add: retE_def)
next
  case (Suc n)
  show ?case
  proof (cases "q_stop_head Q i")
    case True
    with Suc.prems drain show ?thesis by (auto simp: retE_def)
  next
    case False
    with Suc.prems(1) obtain s1 w1 where st: "frames_step E Q s w = (Inr s1, w1)"
      and go: "(if sq_done s1 then retE s1 else frames E Q n (Suc i) s1) w1 = (Inr s', w')"
      by (auto simp: bindE_Inr_iff)
    have "I (received E Q (trace w1)) s1"
      using st
    proof (cases rule: frames_step_cases)
      case rest
      then show ?thesis using Suc.prems(2) by simp
    next
      case (idle now)
      then show ?thesis using assms(1) Suc.prems(2,3) by simp
    next
      case (batch as)
      then show ?thesis using assms(2) Suc.prems(2,3) by simp
    next
      case (busy as now)
      then show ?thesis using assms(3) [OF assms(2) [OF Suc.prems(2,3)]] by simp
    qed
    with go Suc.IH [of "Suc i" s1 w1] weaken show ?thesis by (cases "sq_done s1") (auto simp: retE_def)
  qed
qed

section \<open>Every frame is accounted for\<close>

definition seq_account :: "seq_state \<Rightarrow> nat" where
  "seq_account s = sq_malformed s + sq_stale s + sq_duplicate s + length (sq_out s) + length (sq_pending s)"

definition accounted :: "arrival list \<Rightarrow> seq_state \<Rightarrow> bool" where
  "accounted rs s \<longleftrightarrow> distinct (map fst (sq_pending s)) \<and> (\<not> sq_done s \<longrightarrow> length rs = seq_account s)"

lemma length_delete_distinct:
  "distinct (map fst d) \<Longrightarrow> map_of d k = Some v \<Longrightarrow> Suc (length (AList.delete k d)) = length d"
proof (induction d)
  case (Cons x d)
  show ?case
  proof (cases "fst x = k")
    case True
    with Cons.prems(1) have "\<forall>y\<in>set d. k \<noteq> fst y" by auto
    then have "filter (\<lambda>(k', _). k \<noteq> k') d = d" by (intro filter_True) auto
    with True show ?thesis by (cases x) (simp add: AList.delete_eq)
  next
    case False
    with Cons show ?thesis by (cases x) (simp add: AList.delete_eq)
  qed
qed simp

lemma take_arrival_account:
  "take_arrival a (s, ps) = (s', ps') \<Longrightarrow> seq_account s' + length ps' = Suc (seq_account s + length ps)"
  by (cases a) (auto simp: seq_account_def split: if_splits)

lemma take_arrival_distinct:
  "take_arrival a (s, ps) = (s', ps') \<Longrightarrow> distinct (map fst (sq_pending s)) \<Longrightarrow> distinct (map fst (sq_pending s'))"
  by (cases a) (auto simp: map_of_eq_None_iff split: if_splits)

lemma take_arrival_keeps:
  assumes "take_arrival a (s, ps) = (s', ps')"
  shows "sq_next s' = sq_next s \<and> sq_upto s' = sq_upto s \<and> sq_skipped s' = sq_skipped s \<and> sq_out s' = sq_out s \<and> sq_done s' = sq_done s"
  using assms by (cases a) (auto split: if_splits)

lemma fold_take_arrival_keeps:
  "fold take_arrival as (s, ps) = (s', ps') \<Longrightarrow>
   sq_next s' = sq_next s \<and> sq_upto s' = sq_upto s \<and> sq_skipped s' = sq_skipped s \<and> sq_out s' = sq_out s \<and> sq_done s' = sq_done s"
proof (induction as arbitrary: s ps)
  case (Cons a as)
  obtain s2 ps2 where t: "take_arrival a (s, ps) = (s2, ps2)" by fastforce
  with Cons.IH [of s2 ps2] Cons.prems take_arrival_keeps [OF t] show ?case by simp
qed simp

lemma fold_take_arrival_account:
  "fold take_arrival as (s, ps) = (s', ps') \<Longrightarrow>
   seq_account s' + length ps' = seq_account s + length ps + length as"
proof (induction as arbitrary: s ps)
  case (Cons a as)
  obtain s2 ps2 where t: "take_arrival a (s, ps) = (s2, ps2)" by fastforce
  with Cons.IH [of s2 ps2] Cons.prems take_arrival_account [OF t] show ?case by simp
qed simp

lemma fold_take_arrival_distinct:
  "fold take_arrival as (s, ps) = (s', ps') \<Longrightarrow> distinct (map fst (sq_pending s)) \<Longrightarrow>
   distinct (map fst (sq_pending s'))"
proof (induction as arbitrary: s ps)
  case (Cons a as)
  obtain s2 ps2 where t: "take_arrival a (s, ps) = (s2, ps2)" by fastforce
  with Cons.IH [of s2 ps2] Cons.prems take_arrival_distinct [OF t] show ?case by simp
qed simp

lemma emit_plain_keeps:
  shows "sq_pending (emit_plain Q ps s) = sq_pending s" "sq_next (emit_plain Q ps s) = sq_next s"
    "sq_upto (emit_plain Q ps s) = sq_upto s" "sq_skipped (emit_plain Q ps s) = sq_skipped s"
    "frame_numbers (emit_plain Q ps s) = frame_numbers s"
    "\<not> sq_done (emit_plain Q ps s) \<Longrightarrow> seq_account (emit_plain Q ps s) = seq_account s + length ps"
  by (induction Q ps s rule: emit_plain.induct)
    (auto simp: emit_def Let_def seq_account_def frame_numbers_def)

text \<open>What every yield of the loop keeps, the loop keeps.\<close>

definition yield_next :: "frame_queue \<Rightarrow> int \<Rightarrow> bytes \<Rightarrow> seq_state \<Rightarrow> seq_state" where
  "yield_next Q n b s =
     emit Q (Some n) b (s\<lparr>sq_pending := AList.delete n (sq_pending s), sq_upto := Some n, sq_next := Some (n + 1), sq_gap_since := None\<rparr>)"

lemma flush_unfold:
  "flush Q s =
     (case sq_next s of
        None \<Rightarrow> s
      | Some n \<Rightarrow>
          (case map_of (sq_pending s) n of
             None \<Rightarrow> s
           | Some b \<Rightarrow> (if sq_done (yield_next Q n b s) then yield_next Q n b s else flush Q (yield_next Q n b s))))"
  by (subst flush.simps) (simp add: yield_next_def Let_def split: option.splits)

lemma flush_invariant:
  assumes step: "\<And>s n b. I s \<Longrightarrow> \<not> sq_done s \<Longrightarrow> sq_next s = Some n \<Longrightarrow> map_of (sq_pending s) n = Some b \<Longrightarrow> I (yield_next Q n b s)"
  shows "I s \<Longrightarrow> \<not> sq_done s \<Longrightarrow> I (flush Q s)"
proof (induction "length (sq_pending s)" arbitrary: s rule: less_induct)
  case less
  show ?case
  proof (cases "\<exists>n b. sq_next s = Some n \<and> map_of (sq_pending s) n = Some b")
    case True
    then obtain n b where n: "sq_next s = Some n" "map_of (sq_pending s) n = Some b" by auto
    then have "length (sq_pending (yield_next Q n b s)) < length (sq_pending s)"
      by (simp add: yield_next_def emit_def Let_def length_delete_less)
    with less.hyps step [OF less.prems n] have "\<not> sq_done (yield_next Q n b s) \<Longrightarrow> I (flush Q (yield_next Q n b s))" by blast
    with n step [OF less.prems n] show ?thesis by (simp add: flush_unfold [of Q s])
  next
    case False
    then have "flush Q s = s" by (auto simp: flush_unfold [of Q s] split: option.splits)
    with less.prems show ?thesis by simp
  qed
qed

lemma accounted_yield:
  assumes "accounted rs s" "\<not> sq_done s" "map_of (sq_pending s) n = Some b"
  shows "accounted rs (yield_next Q n b s)"
  using assms length_delete_distinct [of "sq_pending s" n b]
  by (auto simp: accounted_def yield_next_def emit_def Let_def seq_account_def AList.distinct_delete)

lemma flush_accounted: "accounted rs s \<Longrightarrow> \<not> sq_done s \<Longrightarrow> accounted rs (flush Q s)"
  by (rule flush_invariant [where I = "accounted rs"]) (rule accounted_yield)

lemma accounted_skip: "accounted rs s \<Longrightarrow> accounted rs (skip_gap s)"
  by (simp add: skip_gap_def accounted_def seq_account_def)

lemma accounted_note: "accounted rs s \<Longrightarrow> accounted rs (note_gap now s)"
  by (simp add: note_gap_def accounted_def seq_account_def)

lemma gap_checks_done [simp]: "sq_done (skip_gap s) = sq_done s" "sq_done (note_gap now s) = sq_done s"
  by (simp_all add: skip_gap_def note_gap_def)

lemma accounted_idle: "accounted rs s \<Longrightarrow> \<not> sq_done s \<Longrightarrow> accounted rs (idle_check Q now s)"
  by (simp add: idle_check_def accounted_note accounted_skip flush_accounted)

lemma accounted_busy: "accounted rs s \<Longrightarrow> accounted rs (busy_check now s)"
  by (simp add: busy_check_def accounted_note accounted_skip)

lemma accounted_deliver:
  assumes "accounted rs s" "\<not> sq_done s"
  shows "accounted (rs @ as) (deliver Q as s)"
proof -
  obtain s1 ps where f: "fold take_arrival as (s, []) = (s1, ps)" by fastforce
  define s2 where "s2 = emit_plain Q ps s1"
  have a: "accounted (rs @ as) s2"
    using assms fold_take_arrival_account [OF f] fold_take_arrival_distinct [OF f] emit_plain_keeps [of Q ps s1]
    by (auto simp: accounted_def s2_def)
  then have "accounted (rs @ as) (s2\<lparr>sq_next := k\<rparr>)" for k by (simp add: accounted_def seq_account_def)
  with a f show ?thesis
    by (auto simp: deliver_def s2_def [symmetric] Let_def intro!: flush_accounted)
qed

section \<open>Order, as long as no gap is skipped\<close>

definition buffered :: "seq_state \<Rightarrow> int set" where
  "buffered s = fst ` set (sq_pending s)"

definition numbers_of :: "arrival list \<Rightarrow> int set" where
  "numbers_of rs = {i. \<exists>b. Numbered i b \<in> set rs}"

lemma numbers_of_simps [simp]: "numbers_of [] = {}" "numbers_of (rs @ rs') = numbers_of rs \<union> numbers_of rs'"
  by (auto simp: numbers_of_def)

text \<open>The frames yielded are the interval from \<open>a\<close> to \<open>b\<close>; what arrived is yielded, buffered or below \<open>a\<close>.\<close>

definition interval_ok :: "arrival list \<Rightarrow> seq_state \<Rightarrow> int \<Rightarrow> int \<Rightarrow> bool" where
  "interval_ok rs s a b \<longleftrightarrow>
     a \<le> b \<and> frame_numbers s = [a..b - 1] \<and> sq_upto s = (if a = b then None else Some (b - 1)) \<and>
     (\<forall>i\<in>buffered s. b \<le> i) \<and> (\<forall>i\<in>numbers_of rs. i < b \<or> i \<in> buffered s)"

definition in_sequence :: "arrival list \<Rightarrow> seq_state \<Rightarrow> bool" where
  "in_sequence rs s \<longleftrightarrow>
     sq_skipped s = 0 \<longrightarrow>
     distinct (map fst (sq_pending s)) \<and>
     (case sq_next s of
        None \<Rightarrow> sq_upto s = None \<and> frame_numbers s = [] \<and> numbers_of rs \<subseteq> buffered s
      | Some b \<Rightarrow> (\<exists>a. interval_ok rs s a b))"

text \<open>Between two iterations the first number is set only once a frame has been yielded.\<close>

definition in_sequence_iter :: "arrival list \<Rightarrow> seq_state \<Rightarrow> bool" where
  "in_sequence_iter rs s \<longleftrightarrow>
     in_sequence rs s \<and> (sq_skipped s = 0 \<longrightarrow> (sq_next s = None) = (sq_upto s = None))"

lemma in_sequence_eq:
  assumes "sq_pending s' = sq_pending s" "sq_next s' = sq_next s" "sq_upto s' = sq_upto s" "sq_skipped s' = sq_skipped s"
    "frame_numbers s' = frame_numbers s" "numbers_of rs' = numbers_of rs"
  shows "in_sequence rs' s' = in_sequence rs s"
  using assms by (simp add: in_sequence_def interval_ok_def buffered_def split: option.splits)

lemma yield_next_simps:
  "sq_skipped (yield_next Q n b s) = sq_skipped s" "sq_next (yield_next Q n b s) = Some (n + 1)"
  "sq_upto (yield_next Q n b s) = Some n" "frame_numbers (yield_next Q n b s) = frame_numbers s @ [n]"
  "buffered (yield_next Q n b s) = buffered s - {n}"
  "sq_pending (yield_next Q n b s) = AList.delete n (sq_pending s)"
  by (auto simp: yield_next_def emit_def Let_def frame_numbers_def buffered_def AList.delete_eq)

lemma in_sequence_yield:
  assumes "in_sequence rs s" "sq_next s = Some n" "map_of (sq_pending s) n = Some b"
  shows "in_sequence rs (yield_next Q n b s)"
proof (cases "sq_skipped s = 0")
  case True
  with assms(1,2) obtain a where a: "interval_ok rs s a n" and d: "distinct (map fst (sq_pending s))"
    by (auto simp: in_sequence_def)
  have "[a..n - 1] @ [n] = [a..n]" using a upto_rec2 [of a n] by (simp add: interval_ok_def)
  then have "interval_ok rs (yield_next Q n b s) a (n + 1)"
    using a by (auto simp: interval_ok_def yield_next_simps order_less_le)
  with d show ?thesis by (auto simp: in_sequence_def yield_next_simps AList.distinct_delete)
qed (simp add: in_sequence_def yield_next_simps)

lemma in_sequence_flush: "in_sequence rs s \<Longrightarrow> \<not> sq_done s \<Longrightarrow> in_sequence rs (flush Q s)"
  by (rule flush_invariant [where I = "in_sequence rs"]) (rule in_sequence_yield)

lemma flush_started: "sq_upto s \<noteq> None \<and> sq_next s \<noteq> None \<Longrightarrow> \<not> sq_done s \<Longrightarrow> sq_upto (flush Q s) \<noteq> None \<and> sq_next (flush Q s) \<noteq> None"
  by (rule flush_invariant [where I = "\<lambda>s. sq_upto s \<noteq> None \<and> sq_next s \<noteq> None"]) (simp_all add: yield_next_simps)

lemma flush_starts:
  assumes "sq_next s = Some n" "map_of (sq_pending s) n = Some b"
  shows "sq_upto (flush Q s) \<noteq> None \<and> sq_next (flush Q s) \<noteq> None"
  using assms flush_started [of "yield_next Q n b s" Q] by (simp add: flush_unfold [of Q s] yield_next_simps)

lemma flush_skipped: "\<not> sq_done s \<Longrightarrow> sq_skipped (flush Q s) = sq_skipped s"
  using flush_invariant [where I = "\<lambda>s'. sq_skipped s' = sq_skipped s"] by (simp add: yield_next_simps)

lemma in_sequence_note: "in_sequence_iter rs s \<Longrightarrow> in_sequence_iter rs (note_gap now s)"
  using in_sequence_eq [of "note_gap now s" s rs rs] by (simp add: note_gap_def in_sequence_iter_def frame_numbers_def)

lemma in_sequence_idle:
  assumes "in_sequence_iter rs s" "\<not> sq_done s"
  shows "in_sequence_iter rs (idle_check Q now s)"
proof (cases "gap_expired now s")
  case True
  then have "sq_skipped (idle_check Q now s) \<noteq> 0"
    by (simp add: idle_check_def flush_skipped assms(2)) (simp add: skip_gap_def)
  then show ?thesis by (simp add: in_sequence_iter_def in_sequence_def)
next
  case False
  with assms in_sequence_note [of rs s now] show ?thesis by (simp add: idle_check_def)
qed

lemma in_sequence_busy:
  assumes "in_sequence_iter rs s"
  shows "in_sequence_iter rs (busy_check now s)"
proof (cases "gap_expired now s")
  case True
  then have "sq_skipped (busy_check now s) \<noteq> 0" by (simp add: busy_check_def skip_gap_def)
  then show ?thesis by (simp add: in_sequence_iter_def in_sequence_def)
next
  case False
  with assms in_sequence_note [of rs s now] show ?thesis by (simp add: busy_check_def)
qed

text \<open>Arrivals.\<close>

lemma take_arrival_in_sequence:
  assumes "take_arrival x (s, ps) = (s', ps')" "in_sequence_iter rs s" "\<not> sq_done s"
  shows "in_sequence_iter (rs @ [x]) s'"
proof (cases x)
  case (Numbered i b)
  show ?thesis
  proof (cases "sq_skipped s = 0")
    case True
    show ?thesis
    proof (cases "sq_next s")
      case None
      with assms True Numbered show ?thesis
        by (auto simp: in_sequence_iter_def in_sequence_def numbers_of_def buffered_def frame_numbers_def map_of_eq_None_iff
            split: if_splits) (force dest: map_of_SomeD)+
    next
      case (Some n)
      with assms(2,3) True obtain a where a: "interval_ok rs s a n" "a < n" and d: "distinct (map fst (sq_pending s))"
        by (auto simp: in_sequence_iter_def in_sequence_def interval_ok_def split: if_splits)
      have "interval_ok (rs @ [x]) s' a n"
        using assms(1) a Numbered
        by (auto simp: interval_ok_def numbers_of_def buffered_def frame_numbers_def map_of_eq_None_iff split: if_splits)
          (force dest: map_of_SomeD)+
      with assms Some a d take_arrival_keeps [OF assms(1)] take_arrival_distinct [OF assms(1)] show ?thesis
        by (auto simp: in_sequence_iter_def in_sequence_def)
    qed
  next
    case False
    with assms Numbered show ?thesis by (auto simp: in_sequence_iter_def in_sequence_def split: if_splits)
  qed
next
  case Malformed
  with assms in_sequence_eq [of s' s "rs @ [x]" rs] show ?thesis
    by (auto simp: in_sequence_iter_def frame_numbers_def numbers_of_def)
next
  case Stale
  with assms in_sequence_eq [of s' s "rs @ [x]" rs] show ?thesis
    by (auto simp: in_sequence_iter_def frame_numbers_def numbers_of_def)
next
  case (Plain b)
  with assms in_sequence_eq [of s' s "rs @ [x]" rs] show ?thesis
    by (auto simp: in_sequence_iter_def frame_numbers_def numbers_of_def)
qed

lemma fold_take_arrival_in_sequence:
  "fold take_arrival as (s, ps) = (s', ps') \<Longrightarrow> in_sequence_iter rs s \<Longrightarrow> \<not> sq_done s \<Longrightarrow> in_sequence_iter (rs @ as) s'"
proof (induction as arbitrary: s ps rs)
  case (Cons a as)
  obtain s2 ps2 where t: "take_arrival a (s, ps) = (s2, ps2)" by fastforce
  with Cons.IH [of s2 ps2 "rs @ [a]"] Cons.prems take_arrival_keeps [OF t] take_arrival_in_sequence [OF t] show ?case by simp
qed simp

lemma min_key_least: "d \<noteq> [] \<Longrightarrow> min_key d \<in> fst ` set d \<and> (\<forall>k\<in>fst ` set d. min_key d \<le> k)"
  by (simp add: min_key_def)

lemma deliver_in_sequence:
  assumes "in_sequence_iter rs s" "\<not> sq_done s"
  shows "in_sequence_iter (rs @ as) (deliver Q as s)"
proof -
  obtain s1 ps where f: "fold take_arrival as (s, []) = (s1, ps)" by fastforce
  define s2 where "s2 = emit_plain Q ps s1"
  have i1: "in_sequence_iter (rs @ as) s1" and n1: "\<not> sq_done s1"
    using fold_take_arrival_in_sequence [OF f assms] fold_take_arrival_keeps [OF f] assms(2) by simp_all
  have i2: "in_sequence_iter (rs @ as) s2"
    using i1 n1 in_sequence_eq [of s2 s1 "rs @ as" "rs @ as"] emit_plain_keeps [of Q ps s1] by (simp add: in_sequence_iter_def s2_def)
  have out: "deliver Q as s = (if sq_done s2 \<or> sq_pending s2 = [] then s2
      else flush Q (if sq_next s2 = None then s2\<lparr>sq_next := Some (min_key (sq_pending s2))\<rparr> else s2))"
    using f by (simp add: deliver_def s2_def Let_def)
  show ?thesis
  proof (cases "sq_done s2 \<or> sq_pending s2 = []")
    case False
    define s3 where "s3 = (if sq_next s2 = None then s2\<lparr>sq_next := Some (min_key (sq_pending s2))\<rparr> else s2)"
    have n3: "\<not> sq_done s3" using False by (simp add: s3_def)
    have i3: "in_sequence (rs @ as) s3"
      using i2 False min_key_least [of "sq_pending s2"]
      by (auto simp: s3_def in_sequence_iter_def in_sequence_def interval_ok_def buffered_def frame_numbers_def)
    have up: "sq_skipped s2 = 0 \<Longrightarrow> sq_upto (flush Q s3) \<noteq> None \<and> sq_next (flush Q s3) \<noteq> None"
    proof (cases "sq_next s2")
      case None
      with False min_key_least [of "sq_pending s2"] obtain b where "map_of (sq_pending s3) (min_key (sq_pending s2)) = Some b"
        by (auto simp: s3_def dest!: weak_map_of_SomeI)
      then show ?thesis using None by (intro flush_starts) (simp_all add: s3_def)
    next
      case (Some n)
      assume "sq_skipped s2 = 0"
      with Some i2 False have "sq_upto s3 \<noteq> None \<and> sq_next s3 \<noteq> None" by (simp add: s3_def in_sequence_iter_def)
      from flush_started [OF this n3] show ?thesis .
    qed
    have "sq_skipped (flush Q s3) = sq_skipped s2" using flush_skipped [OF n3] by (simp add: s3_def)
    with up in_sequence_flush [OF i3 n3] have "in_sequence_iter (rs @ as) (flush Q s3)" by (auto simp: in_sequence_iter_def)
    then show ?thesis using out False by (simp add: s3_def)
  qed (use i2 out in auto)
qed

text \<open>The end of the run.\<close>

definition yielded_in_order :: "arrival list \<Rightarrow> seq_state \<Rightarrow> bool" where
  "yielded_in_order rs s \<longleftrightarrow>
     sq_skipped s = 0 \<longrightarrow> sorted_wrt (<) (frame_numbers s) \<and> (\<forall>i\<in>buffered s. \<forall>j\<in>set (frame_numbers s). j < i) \<and>
     (\<forall>i\<in>numbers_of rs. i \<in> set (frame_numbers s) \<or> i \<in> buffered s \<or> (\<exists>j\<in>set (frame_numbers s). i < j))"

lemma sorted_wrt_upto_int: "sorted_wrt (<) [a..b::int]"
  by (simp add: sorted_wrt_upto)

lemma in_sequence_yielded:
  assumes "in_sequence_iter rs s"
  shows "yielded_in_order rs s"
proof (cases "sq_skipped s = 0")
  case True
  show ?thesis
  proof (cases "sq_next s")
    case None
    with assms True show ?thesis by (auto simp: in_sequence_iter_def in_sequence_def yielded_in_order_def)
  next
    case (Some b)
    with assms True obtain a where a: "interval_ok rs s a b" and up: "sq_upto s \<noteq> None"
      by (auto simp: in_sequence_iter_def in_sequence_def)
    then have "a < b" by (auto simp: interval_ok_def split: if_splits)
    then have first: "a \<in> set (frame_numbers s)" using a by (simp add: interval_ok_def)
    have "i \<in> set (frame_numbers s) \<or> i \<in> buffered s \<or> (\<exists>j\<in>set (frame_numbers s). i < j)"
      if "i \<in> numbers_of rs" for i
    proof (cases "i < a")
      case True
      with first show ?thesis by blast
    next
      case False
      with a that show ?thesis by (auto simp: interval_ok_def)
    qed
    moreover have "sorted_wrt (<) (frame_numbers s)" "\<forall>i\<in>buffered s. \<forall>j\<in>set (frame_numbers s). j < i"
      using a by (auto simp: interval_ok_def sorted_wrt_upto_int)
    ultimately show ?thesis by (simp add: yielded_in_order_def)
  qed
qed (simp add: yielded_in_order_def)

lemma frame_numbers_drain: "frame_numbers (final_drain s) = frame_numbers s @ sort (map fst (sq_pending s))"
proof -
  have "map (the \<circ> fst) (filter (\<lambda>x. fst x \<noteq> None) (map (\<lambda>(i, b). (Some i, b)) xs)) = map fst xs"
    for xs :: "(int \<times> bytes) list"
    by (induction xs) auto
  moreover have "map fst (sort_key fst xs) = sort (map fst xs)" for xs :: "(int \<times> bytes) list"
    by (rule properties_for_sort [symmetric]) simp_all
  ultimately show ?thesis by (simp add: frame_numbers_def final_drain_def)
qed

lemma drain_in_order:
  assumes "in_sequence_iter rs s"
  shows "yielded_in_order rs (final_drain s)"
proof (cases "sq_skipped s = 0")
  case True
  with assms have d: "distinct (map fst (sq_pending s))" by (simp add: in_sequence_iter_def in_sequence_def)
  then have "sorted_wrt (<) (sort (map fst (sq_pending s)))" by (simp add: strict_sorted_iff)
  moreover have "yielded_in_order rs s" using assms by (rule in_sequence_yielded)
  ultimately show ?thesis using True
    by (auto simp: yielded_in_order_def frame_numbers_drain sorted_wrt_append buffered_def) (auto simp: final_drain_def)
qed (simp add: yielded_in_order_def final_drain_def)

section \<open>The theorems\<close>

text \<open>
  A scripted queue for the concrete runs: its \<open>j\<close>-th answer carries the frames numbered by the \<open>j\<close>-th
  list, the monotonic clock advances by two seconds at each reading.
\<close>

definition frame_message :: "int \<Rightarrow> pyval" where
  "frame_message i = PDict [(''MessageId'', PStr ''m''), (''ReceiptHandle'', PStr ''r''), (''Body'', PStr [char_of (nat i)])]"

definition script_queue :: "int list list \<Rightarrow> frame_queue" where
  "script_queue bs =
     \<lparr>q_url = ''q'', q_wait = 20, q_max = 10, q_started_at = 0,
      q_loads = (\<lambda>s. Some (PDict [(''pcm_b64'', PStr ''AAAA''), (''seq'', PInt (of_char (hd s)))])),
      q_parse_ts = (\<lambda>s. None), q_stop_head = (\<lambda>i. i = length bs), q_stop_yield = (\<lambda>k. False)\<rparr>"

definition script_env :: "int list list \<Rightarrow> mem env" where
  "script_env bs =
     mem_env (\<lambda>t. [])
       (\<lambda>cs c. case c of
          SqsReceive _ _ _ _ \<Rightarrow>
            (let j = length (filter (\<lambda>c. case c of SqsReceive _ _ _ _ \<Rightarrow> True | _ \<Rightarrow> False) cs) in
             Inr (PDict [(''Messages'', PList (map frame_message (if j < length bs then bs ! j else [])))]))
        | _ \<Rightarrow> Inr PNone)\<lparr>monotonic := (\<lambda>n. 2 * of_nat n)\<rparr>"

definition start_world :: "mem world" where
  "start_world = \<lparr>db = (\<lambda>t k. None), trace = [], ticks = 0\<rparr>"

definition script_run :: "int list list \<Rightarrow> exn + seq_state" where
  "script_run bs = fst (frames (script_env bs) (script_queue bs) (Suc (length bs)) 0 seq_init start_world)"

text \<open>
  C12. As long as no gap was skipped the frames come out by strictly increasing number, and every numbered
  frame received was yielded, is still buffered, or is below a frame already yielded: reordering and duplicate
  delivery by the queue are undone. The remaining buffer is yielded in order at the end of the loop.
\<close>

theorem frames_in_order:
  assumes "frames E Q n 0 seq_init w = (Inr s, w')" "trace w = []" "sq_skipped s = 0"
  shows "sorted_wrt (<) (frame_numbers s) \<and>
    (\<forall>i\<in>numbers_of (received E Q (trace w')).
       i \<in> set (frame_numbers s) \<or> i \<in> buffered s \<or> (\<exists>j\<in>set (frame_numbers s). i < j))"
proof -
  have "yielded_in_order (received E Q (trace w')) s"
    by (rule frames_invariant [OF in_sequence_idle deliver_in_sequence in_sequence_busy _ _ assms(1)])
      (auto simp: in_sequence_iter_def drain_in_order in_sequence_yielded assms(2),
       simp_all add: in_sequence_def seq_init_def frame_numbers_def)
  with assms(3) show ?thesis by (auto simp: yielded_in_order_def)
qed

lemma script_ordered:
  "case script_run [[3, 1], [2, 1], [5]] of Inl e \<Rightarrow> False
   | Inr s \<Rightarrow> sq_skipped s = 0 \<and> frame_numbers s = [1, 2, 3, 5] \<and> \<not> sq_done s"
  by code_simp

lemma script_frames:
  assumes "case script_run bs of Inl e \<Rightarrow> False | Inr s \<Rightarrow> P s"
  obtains s w' where "P s"
    "frames (script_env bs) (script_queue bs) (Suc (length bs)) 0 seq_init start_world = (Inr s, w')"
  using assms by (cases "frames (script_env bs) (script_queue bs) (Suc (length bs)) 0 seq_init start_world")
    (auto simp: script_run_def split: sum.splits)

theorem frames_in_order_witness:
  "\<exists>s. script_run [[3, 1], [2, 1], [5]] = Inr s \<and> frame_numbers s = [1, 2, 3, 5] \<and> sorted_wrt (<) (frame_numbers s)"
proof -
  obtain s w' where s: "sq_skipped s = 0 \<and> frame_numbers s = [1, 2, 3, 5] \<and> \<not> sq_done s"
    and run: "frames (script_env [[3, 1], [2, 1], [5]]) (script_queue [[3, 1], [2, 1], [5]])
        (Suc (length [[3, 1], [2, 1], [5 :: int]])) 0 seq_init start_world = (Inr s, w')"
    by (rule script_frames [OF script_ordered])
  have "trace start_world = []" by (simp add: start_world_def)
  from frames_in_order [OF run this] s run show ?thesis by (simp add: script_run_def)
qed

text \<open>
  C13. At the end of every iteration and of the loop each frame the queue delivered is counted as malformed,
  stale or duplicate, was yielded, or is buffered. A consumer that stops the generator at a yield is the exception:
  what is buffered then is lost.
\<close>

theorem frames_accounted:
  assumes "frames E Q n 0 seq_init w = (Inr s, w')" "trace w = []" "\<not> sq_done s"
  shows "length (received E Q (trace w')) =
    sq_malformed s + sq_stale s + sq_duplicate s + length (sq_out s) + length (sq_pending s)"
proof -
  have "accounted (received E Q (trace w')) s"
    by (rule frames_invariant [OF accounted_idle accounted_deliver accounted_busy _ _ assms(1)])
      (auto simp: accounted_def seq_account_def final_drain_def assms(2) seq_init_def)
  with assms(3) show ?thesis by (simp add: accounted_def seq_account_def)
qed

theorem frames_accounted_witness:
  "\<exists>s (w' :: mem world). script_run [[3, 1], [2, 1], [5]] = Inr s \<and>
     length (received (script_env [[3, 1], [2, 1], [5]]) (script_queue [[3, 1], [2, 1], [5]]) (trace w')) =
       sq_malformed s + sq_stale s + sq_duplicate s + length (sq_out s) + length (sq_pending s)"
proof -
  obtain s w' where s: "sq_skipped s = 0 \<and> frame_numbers s = [1, 2, 3, 5] \<and> \<not> sq_done s"
    and run: "frames (script_env [[3, 1], [2, 1], [5]]) (script_queue [[3, 1], [2, 1], [5]])
        (Suc (length [[3, 1], [2, 1], [5 :: int]])) 0 seq_init start_world = (Inr s, w')"
    by (rule script_frames [OF script_ordered])
  have "trace start_world = []" by (simp add: start_world_def)
  from frames_accounted [OF run this] s have "length (received (script_env [[3, 1], [2, 1], [5]]) (script_queue [[3, 1], [2, 1], [5]]) (trace w')) =
       sq_malformed s + sq_stale s + sq_duplicate s + length (sq_out s) + length (sq_pending s)" by blast
  moreover have "script_run [[3, 1], [2, 1], [5]] = Inr s" by (simp only: script_run_def run fst_conv)
  ultimately show ?thesis by blast
qed

text \<open>
  A gap skipped after a batch does not mark the missing numbers as passed. Frame 3, which comes after
  the gap from 2 to 3 was skipped and before the next flush, is buffered, later taken for the next frame after
  another skip, and yielded after 4 and 5; from then on 5 is no longer a duplicate and is yielded a second time.
\<close>

lemma late_frame_replays:
  "\<exists>s. script_run [[1, 4], [5], [3], [], [7], [5]] = Inr s \<and> frame_numbers s = [1, 4, 5, 3, 5, 7]"
proof -
  have "case script_run [[1, 4], [5], [3], [], [7], [5]] of Inl e \<Rightarrow> False | Inr s \<Rightarrow> frame_numbers s = [1, 4, 5, 3, 5, 7]"
    by code_simp
  then show ?thesis by (cases "script_run [[1, 4], [5], [3], [], [7], [5]]") auto
qed

text \<open>
  A gap skipped after a batch leaves the frame to go on with in the buffer: an empty queue then keeps it
  there, since the check of the empty branch is for a missing next frame only.
\<close>

lemma skipped_gap_stalls:
  assumes "sq_pending s \<noteq> []" "gap_expired now s" "\<And>cs c. svc E cs c = Inr (PDict [])" "\<And>j. \<not> q_stop_head Q j"
    "\<not> sq_done s"
  shows "fst (frames E Q n i (busy_check now s) w) = Inr (busy_check now s)"
    "\<exists>b. map_of (sq_pending s) (the (sq_next (busy_check now s))) = Some b"
proof -
  have s': "busy_check now s = skip_gap s" using assms(2) by (simp add: busy_check_def)
  show key: "\<exists>b. map_of (sq_pending s) (the (sq_next (busy_check now s))) = Some b"
    using min_key_least [OF assms(1)] by (auto simp: s' skip_gap_def dest: weak_map_of_SomeI)
  then have "\<not> waits_for_gap (skip_gap s)" by (auto simp: s' waits_for_gap_def skip_gap_def)
  then have step: "\<exists>w'. frames_step E Q (skip_gap s) w = (Inr (skip_gap s), w')" for w
    by (simp add: frames_step_def receive_frames_def tryE_def invoke_def assms(3) bindE_def liftE_def resp_list_def get_attr_def
        dget_def retE_def split: prod.splits)
  show "fst (frames E Q n i (busy_check now s) w) = Inr (busy_check now s)"
    unfolding s'
  proof (induction n arbitrary: i w)
    case (Suc n)
    from step [of w] obtain w' where "frames_step E Q (skip_gap s) w = (Inr (skip_gap s), w')" by blast
    with Suc assms(4,5) show ?case by (simp add: bindE_def)
  qed (simp add: retE_def)
qed

end
