(* ===== verification/Transcriber_Stream.thy ===== *)
theory Transcriber_Stream
  imports Frame_Sequencer Gpu_Spawner Py_Number
begin

text \<open>
  The streaming container (\<^verbatim>\<open>services/transcriber-stream\<close>) around its frame consumer: the environment
  (\<^verbatim>\<open>config.py\<close>), the WebSocket publisher (\<^verbatim>\<open>ws_publisher.py\<close>), the session row and the final transcript
  (\<^verbatim>\<open>persistence.py\<close>), the two watchers (\<^verbatim>\<open>lifecycle.py\<close>), the splitting of tokens (\<^verbatim>\<open>transcribe.py\<close>) and
  the session itself (\<^verbatim>\<open>main.py\<close>). The vendored speech processor is the record \<open>asr\<close>: what a pass, its
  hypothesis and its end answer is an arbitrary function of the audio inserted so far. When the two watchers set
  their events is a parameter, as are the frames the consumer yields and the exception it ends with. The
  keep-alive task runs beside the session: it is modelled on its own, and no 410 it meets reaches the session.
\<close>

section \<open>Configuration\<close>

record container_cfg =
  cc_session_id :: string
  cc_connection_id :: string
  cc_frame_queue_url :: string
  cc_ws_endpoint :: string
  cc_sessions_table :: string
  cc_frame_pool_table :: string
  cc_transcripts_bucket :: string
  cc_model_size :: string
  cc_model_cache_dir :: string
  cc_language_hint :: string
  cc_min_chunk_seconds :: pyfloat
  cc_max_chunk_seconds :: pyfloat
  cc_idle_seconds_before_exit :: pyfloat
  cc_keepalive_ping_seconds :: pyfloat
  cc_buffer_trimming :: string
  cc_buffer_trimming_sec :: pyfloat
  cc_aws_region :: string
  cc_log_level :: string

type_synonym environ = "string \<Rightarrow> string option"

definition config_error :: "string \<Rightarrow> exn" where
  "config_error msg = OtherError ''ConfigError'' msg"

definition env_text :: "environ \<Rightarrow> string \<Rightarrow> string \<Rightarrow> string" where
  "env_text env name dflt = strip (case env name of None \<Rightarrow> dflt | Some v \<Rightarrow> v)"

definition required_var :: "environ \<Rightarrow> string \<Rightarrow> exn + string" where
  "required_var env name =
     (let v = env_text env name [] in if v = [] then Inl (config_error name) else Inr v)"

definition optional_float :: "environ \<Rightarrow> string \<Rightarrow> rat \<Rightarrow> exn + pyfloat" where
  "optional_float env name dflt =
     (let raw = env_text env name [] in
      if raw = [] then Inr (Finite dflt)
      else (case float_of_str raw of None \<Rightarrow> Inl (config_error name) | Some x \<Rightarrow> Inr x))"

definition text_or :: "environ \<Rightarrow> string \<Rightarrow> string \<Rightarrow> string" where
  "text_or env name dflt = (let v = env_text env name dflt in if v = [] then dflt else v)"

definition load_config_from_env :: "environ \<Rightarrow> exn + container_cfg" where
  "load_config_from_env env =
     and_then (required_var env ''PANAKOES_SESSION_ID'') (\<lambda>session.
     and_then (required_var env ''PANAKOES_CONNECTION_ID'') (\<lambda>connection.
     and_then (required_var env ''FRAME_QUEUE_URL'') (\<lambda>queue.
     and_then (required_var env ''WS_ENDPOINT'') (\<lambda>endpoint.
     and_then (required_var env ''STREAMING_SESSIONS_TABLE'') (\<lambda>sessions.
     and_then (required_var env ''STREAMING_FRAME_POOL_TABLE'') (\<lambda>pool.
     and_then (required_var env ''TRANSCRIPTS_BUCKET'') (\<lambda>bucket.
     and_then (optional_float env ''MIN_CHUNK_SECONDS'' 1) (\<lambda>min_chunk.
     and_then (optional_float env ''MAX_CHUNK_SECONDS'' 30) (\<lambda>max_chunk.
     and_then (optional_float env ''IDLE_SECONDS_BEFORE_EXIT'' 30) (\<lambda>idle.
     and_then (optional_float env ''KEEPALIVE_PING_SECONDS'' 540) (\<lambda>ping.
     and_then (optional_float env ''BUFFER_TRIMMING_SEC'' 15) (\<lambda>trim.
     Inr \<lparr>cc_session_id = session, cc_connection_id = connection, cc_frame_queue_url = queue, cc_ws_endpoint = endpoint,
          cc_sessions_table = sessions, cc_frame_pool_table = pool, cc_transcripts_bucket = bucket,
          cc_model_size = text_or env ''MODEL_SIZE'' ''large-v2'',
          cc_model_cache_dir = text_or env ''MODEL_CACHE_DIR'' ''/opt/whisper/models'',
          cc_language_hint = text_or env ''LANGUAGE_HINT'' ''en'', cc_min_chunk_seconds = min_chunk,
          cc_max_chunk_seconds = max_chunk, cc_idle_seconds_before_exit = idle, cc_keepalive_ping_seconds = ping,
          cc_buffer_trimming = text_or env ''BUFFER_TRIMMING'' ''segment'', cc_buffer_trimming_sec = trim,
          cc_aws_region = text_or env ''AWS_REGION'' ''us-east-1'', cc_log_level = text_or env ''LOG_LEVEL'' ''INFO''\<rparr>))))))))))))"

definition model_dir :: "container_cfg \<Rightarrow> string" where
  "model_dir K = cc_model_cache_dir K @ ''/'' @ cc_model_size K @ ''-ct2''"

definition warmup_clip_path :: string where
  "warmup_clip_path = ''/opt/whisper/warmup-1s.wav''"

section \<open>Tokens\<close>

record asr_token =
  tk_text :: string
  tk_start :: pyval
  tk_end :: pyval
  tk_probability :: pyval

definition token_entry :: "asr_token \<Rightarrow> item" where
  "token_entry t = [(''text'', PStr (tk_text t)), (''start'', tk_start t), (''end'', tk_end t), (''probability'', tk_probability t)]"

text \<open>\<open>nbytes e\<close> is the number of bytes of the JSON text of an entry.\<close>

fun chunk_loop :: "(item \<Rightarrow> nat) \<Rightarrow> nat \<Rightarrow> item list \<Rightarrow> nat \<Rightarrow> asr_token list \<Rightarrow> item list list" where
  "chunk_loop nbytes max_bytes current current_size [] = (if current = [] then [] else [current])"
| "chunk_loop nbytes max_bytes current current_size (t # ts) =
     (let entry = token_entry t; entry_bytes = nbytes entry + 1 in
      if current \<noteq> [] \<and> max_bytes < current_size + entry_bytes
      then current # chunk_loop nbytes max_bytes [entry] (2 + entry_bytes) ts
      else chunk_loop nbytes max_bytes (current @ [entry]) (current_size + entry_bytes) ts)"

definition chunk_tokens_for_ws :: "(item \<Rightarrow> nat) \<Rightarrow> asr_token list \<Rightarrow> item list list" where
  "chunk_tokens_for_ws nbytes tokens = chunk_loop nbytes 24000 [] 2 tokens"

text \<open>The vendored processor and what surrounds the session.\<close>

record asr =
  as_build :: "exn + unit"
  as_pass :: "bytes list \<Rightarrow> exn + (asr_token list \<times> rat)"
  as_hypothesis :: "bytes list \<Rightarrow> asr_token list"
  as_finish :: "bytes list \<Rightarrow> exn + (asr_token list \<times> rat)"

record surroundings =
  su_asr :: "asr"
  su_exists :: "string \<Rightarrow> bool"
  su_size :: "item \<Rightarrow> nat"
  su_show :: "pyval \<Rightarrow> string"
  su_cold_event :: bool
  su_spot :: "nat \<Rightarrow> bool"
  su_disconnect :: "nat \<Rightarrow> bool"
  su_frames_end :: "exn option"

section \<open>Publishing\<close>

text \<open>Whether the connection is known to be gone is passed in and returned, beside the answer.\<close>

definition is_gone :: "exn \<Rightarrow> bool" where
  "is_gone e \<longleftrightarrow> is_client_error e \<and> (error_code e = ''GoneException'' \<or> error_code e = ''410'')"

definition ws_send :: "'t env \<Rightarrow> container_cfg \<Rightarrow> bool \<Rightarrow> item \<Rightarrow> ('t world, bool \<times> bool) io" where
  "ws_send E K gone payload =
     (if gone then retE (False, gone)
      else
        bindE (liftE (json_dumps payload)) (\<lambda>body.
        tryE (invoke E (PostToConnection (cc_connection_id K) body))
          (\<lambda>e. if is_gone e then retE (False, True) else raiseE e)
          (\<lambda>_. retE (True, gone))))"

text \<open>The pings, \<open>n\<close> at most: the number of the last one and whether the connection is gone.\<close>

fun keepalive_pings :: "'t env \<Rightarrow> container_cfg \<Rightarrow> nat \<Rightarrow> int \<Rightarrow> bool \<Rightarrow> ('t world, int \<times> bool) io" where
  "keepalive_pings E K 0 seq gone = retE (seq, gone)"
| "keepalive_pings E K (Suc n) seq gone =
     bindE (ws_send E K gone [(''type'', PStr ''ping''), (''seq'', PInt (seq + 1))]) (\<lambda>(ok, gone').
     if ok then keepalive_pings E K n (seq + 1) gone' else retE (seq + 1, gone'))"

text \<open>A status envelope has the form the spawner gives it; no exception leaves its sending.\<close>

definition emit_status :: "'t env \<Rightarrow> container_cfg \<Rightarrow> bool \<Rightarrow> string \<Rightarrow> string \<Rightarrow> item \<Rightarrow> ('t world, bool) io" where
  "emit_status E K gone stage detail extra =
     bindE (utcnow E) (\<lambda>now.
     tryE (ws_send E K gone (status_envelope stage detail (isoformat_ms now) extra))
       (\<lambda>e. retE gone)
       (\<lambda>(ok, gone'). retE gone'))"

section \<open>The session row and the final transcript\<close>

definition session_key_of :: "container_cfg \<Rightarrow> item" where
  "session_key_of K = [(''session_id'', PStr (cc_session_id K))]"

definition now_text :: "int \<Rightarrow> string" where
  "now_text now = take 19 (isoformat now) @ ''Z''"

definition read_prompt_seed_from_ddb :: "'t env \<Rightarrow> container_cfg \<Rightarrow> ('t world, string option) io" where
  "read_prompt_seed_from_ddb E K =
     tryE (get_item E (cc_sessions_table K) (session_key_of K))
       (\<lambda>e. retE None)
       (\<lambda>i. retE (case as_str (dget (row_attrs i) ''prompt_seed_text'') of
                    None \<Rightarrow> None
                  | Some seed \<Rightarrow> if strip seed = [] then None else Some (strip seed)))"

definition update_last_transcript_tokens :: "'t env \<Rightarrow> container_cfg \<Rightarrow> asr_token list \<Rightarrow> rat \<Rightarrow> ('t world, unit) io" where
  "update_last_transcript_tokens E K tokens audio_upto =
     (let appended = concat (map tk_text tokens) in
      if appended = [] then retE ()
      else
        tryE
          (bindE (get_item E (cc_sessions_table K) (session_key_of K)) (\<lambda>existing.
           (case as_str (py_or (dget_or (row_attrs existing) ''last_transcript_text'' (PStr [])) (PStr [])) of
              None \<Rightarrow> raiseE TypeError
            | Some prefix \<Rightarrow>
                bindE (utcnow E) (\<lambda>now.
                update_item E (cc_sessions_table K) (session_key_of K)
                  [SetAttr ''last_transcript_text'' (PStr (prefix @ appended)),
                   SetAttr ''last_processed_upto'' (PDec audio_upto),
                   SetAttr ''updated_at'' (PStr (now_text now))] CTrue))))
          (\<lambda>e. retE ())
          (\<lambda>_. retE ()))"

definition final_key :: "container_cfg \<Rightarrow> string" where
  "final_key K = ''streaming/'' @ cc_session_id K @ ''/transcript.json''"

definition final_snapshot :: "container_cfg \<Rightarrow> asr_token list \<Rightarrow> rat \<Rightarrow> bool \<Rightarrow> item" where
  "final_snapshot K tokens audio_upto committed =
     [(''session_id'', PStr (cc_session_id K)), (''audio_processed_upto_seconds'', PFloat audio_upto),
      (''committed_finalized'', PBool committed), (''tokens'', PList (map (\<lambda>t. PDict (token_entry t)) tokens))]"

definition write_final_tokens :: "'t env \<Rightarrow> container_cfg \<Rightarrow> asr_token list \<Rightarrow> rat \<Rightarrow> bool \<Rightarrow> string \<Rightarrow>
    ('t world, string option) io" where
  "write_final_tokens E K tokens audio_upto committed status =
     bindE (liftE (json_dumps (final_snapshot K tokens audio_upto committed))) (\<lambda>body.
     tryE (invoke E (S3PutObject (cc_transcripts_bucket K) (final_key K) body ''application/json''))
       (\<lambda>e. retE None)
       (\<lambda>_.
          tryE (bindE (utcnow E) (\<lambda>now.
                update_item E (cc_sessions_table K) (session_key_of K)
                  [SetAttr ''status'' (PStr status), SetAttr ''final_transcript_s3_key'' (PStr (final_key K)),
                   SetAttr ''audio_processed_upto'' (PDec audio_upto), SetAttr ''ended_at'' (PStr (now_text now)),
                   SetAttr ''updated_at'' (PStr (now_text now))] CTrue))
            (\<lambda>e. retE (Some (final_key K)))
            (\<lambda>_. retE (Some (final_key K)))))"

section \<open>The end of a session\<close>

definition self_terminate_ec2 :: "'t env \<Rightarrow> ('t world, unit) io" where
  "self_terminate_ec2 E =
     tryE
       (bindE (invoke E (Imds ''/latest/api/token'')) (\<lambda>token.
        bindE (invoke E (Imds ''/latest/meta-data/instance-id'')) (\<lambda>answer.
        (case as_str answer of
           None \<Rightarrow> raiseE AttributeError
         | Some instance_id \<Rightarrow>
             if \<not> starts_with instance_id ''i-'' then retE ()
             else bindE (invoke E (Ec2Terminate instance_id)) (\<lambda>_. retE ())))))
       (\<lambda>e. retE ())
       (\<lambda>_. retE ())"

fun send_chunks :: "'t env \<Rightarrow> container_cfg \<Rightarrow> bool \<Rightarrow> int \<Rightarrow> int \<Rightarrow> item list list \<Rightarrow> ('t world, bool) io" where
  "send_chunks E K gone seq total_chunks [] = retE gone"
| "send_chunks E K gone seq total_chunks (chunk # chunks) =
     bindE (ws_send E K gone [(''type'', PStr ''final-chunk''), (''seq'', PInt seq), (''total'', PInt total_chunks),
       (''tokens'', PList (map PDict chunk))]) (\<lambda>(ok, gone'). send_chunks E K gone' (seq + 1) total_chunks chunks)"

definition send_final :: "'t env \<Rightarrow> surroundings \<Rightarrow> container_cfg \<Rightarrow> bool \<Rightarrow> asr_token list \<Rightarrow> rat \<Rightarrow> string \<Rightarrow> ('t world, unit) io" where
  "send_final E S K gone tokens processed reason =
     (if gone then retE ()
      else
        let chunks = chunk_tokens_for_ws (su_size S) tokens; n = int (length chunks) in
        bindE (send_chunks E K gone 0 n chunks) (\<lambda>gone'.
        bindE (ws_send E K gone' [(''type'', PStr ''ended''), (''reason'', PStr reason), (''expected_chunks'', PInt n),
          (''audio_upto'', PFloat processed)]) (\<lambda>_. retE ())))"

definition drain_and_exit :: "'t env \<Rightarrow> surroundings \<Rightarrow> container_cfg \<Rightarrow> bytes list \<Rightarrow> bool \<Rightarrow> string \<Rightarrow> string \<Rightarrow> ('t world, unit) io" where
  "drain_and_exit E S K audio gone reason status =
     (let (tokens, processed) = (case as_finish (su_asr S) audio of Inl e \<Rightarrow> ([], 0) | Inr p \<Rightarrow> p) in
      bindE (write_final_tokens E K tokens processed True status) (\<lambda>_.
      bindE (send_final E S K gone tokens processed reason) (\<lambda>_.
      self_terminate_ec2 E)))"

section \<open>The consume loop\<close>

record pass_state =
  ps_audio :: "bytes list"
  ps_gone :: bool
  ps_last_partial :: string
  ps_last_sent :: rat

definition partial_min_interval_s :: rat where
  "partial_min_interval_s = 1 / 2"

definition send_partial :: "'t env \<Rightarrow> container_cfg \<Rightarrow> string \<Rightarrow> rat \<Rightarrow> pass_state \<Rightarrow> ('t world, pass_state) io" where
  "send_partial E K hypothesis now st =
     (if hypothesis \<noteq> [] \<and> hypothesis \<noteq> ps_last_partial st \<and> partial_min_interval_s \<le> now - ps_last_sent st
      then bindE (ws_send E K (ps_gone st) [(''type'', PStr ''partial''), (''text'', PStr hypothesis)]) (\<lambda>(ok, gone').
           retE (st\<lparr>ps_gone := gone', ps_last_partial := hypothesis, ps_last_sent := now\<rparr>))
      else retE st)"

definition final_message :: "asr_token \<Rightarrow> rat \<Rightarrow> item" where
  "final_message t processed = (''type'', PStr ''final'') # token_entry t @ [(''audio_upto'', PFloat processed)]"

fun send_committed :: "'t env \<Rightarrow> container_cfg \<Rightarrow> bool \<Rightarrow> rat \<Rightarrow> asr_token list \<Rightarrow> ('t world, bool) io" where
  "send_committed E K gone processed [] = retE gone"
| "send_committed E K gone processed (t # ts) =
     bindE (ws_send E K gone (final_message t processed)) (\<lambda>(ok, gone').
     if ok then send_committed E K gone' processed ts else retE gone')"

text \<open>One frame: the state after it and whether the processor answered. Samples are of two bytes.\<close>

definition stream_pass :: "'t env \<Rightarrow> surroundings \<Rightarrow> container_cfg \<Rightarrow> bytes \<Rightarrow> pass_state \<Rightarrow> ('t world, pass_state \<times> bool) io" where
  "stream_pass E S K pcm st =
     (if odd (length pcm) then raiseE (ValueError ''buffer size must be a multiple of element size'')
      else
        let audio = ps_audio st @ [pcm]; st1 = st\<lparr>ps_audio := audio\<rparr> in
        (case as_pass (su_asr S) audio of
           Inl e \<Rightarrow> retE (st1, False)
         | Inr (tokens, processed) \<Rightarrow>
             let hypothesis = strip (join_with '' '' (map tk_text (as_hypothesis (su_asr S) audio))) in
             bindE (tick (monotonic E)) (\<lambda>now.
             bindE (send_partial E K hypothesis now st1) (\<lambda>st2.
             bindE (send_committed E K (ps_gone st2) processed tokens) (\<lambda>gone'.
             bindE (update_last_transcript_tokens E K tokens processed) (\<lambda>_.
             retE (st2\<lparr>ps_gone := gone'\<rparr>, True)))))))"

definition normal_end :: "'t env \<Rightarrow> surroundings \<Rightarrow> container_cfg \<Rightarrow> pass_state \<Rightarrow> ('t world, int) io" where
  "normal_end E S K st =
     bindE (drain_and_exit E S K (ps_audio st) (ps_gone st)
       (if \<not> ps_gone st then ''disconnected'' else ''disconnected_by_410'')
       (if \<not> ps_gone st then ''ended'' else ''disconnected_by_410'')) (\<lambda>_. retE 0)"

fun consume_frames :: "'t env \<Rightarrow> surroundings \<Rightarrow> container_cfg \<Rightarrow> nat \<Rightarrow> bytes list \<Rightarrow> pass_state \<Rightarrow> ('t world, int) io" where
  "consume_frames E S K n [] st = (case su_frames_end S of Some e \<Rightarrow> raiseE e | None \<Rightarrow> normal_end E S K st)"
| "consume_frames E S K n (pcm # chunks) st =
     bindE (stream_pass E S K pcm st) (\<lambda>(st', answered).
     if \<not> answered then consume_frames E S K (Suc n) chunks st'
     else if su_spot S n then
       bindE (drain_and_exit E S K (ps_audio st') (ps_gone st') ''spot-interrupted'' ''interrupted'') (\<lambda>_. retE 0)
     else if su_disconnect S n \<or> ps_gone st' then normal_end E S K st'
     else consume_frames E S K (Suc n) chunks st')"

section \<open>The session\<close>

fun assert_ami_assets :: "'t env \<Rightarrow> surroundings \<Rightarrow> container_cfg \<Rightarrow> bool \<Rightarrow> string list \<Rightarrow> ('t world, unit) io" where
  "assert_ami_assets E S K gone [] = retE ()"
| "assert_ami_assets E S K gone (path # paths) =
     (if su_exists S path then assert_ami_assets E S K gone paths
      else
        bindE (ws_send E K gone [(''type'', PStr ''error''), (''code'', PStr ''ami-asset-missing''), (''path'', PStr path)]) (\<lambda>_.
        raiseE (RuntimeError (''AMI missing expected asset at '' @ path))))"

definition cuda_detail :: "surroundings \<Rightarrow> item \<Rightarrow> string" where
  "cuda_detail S cuda =
     ''GPU ready: cuda_available='' @ su_show S (dget_or cuda ''cuda_available'' (PStr ''n/a'')) @
     '' device_count='' @ su_show S (dget_or cuda ''device_count'' (PStr ''n/a''))"

definition load_model_phase :: "'t env \<Rightarrow> surroundings \<Rightarrow> container_cfg \<Rightarrow> bool \<Rightarrow> ('t world, bool) io" where
  "load_model_phase E S K gone =
     bindE (emit_status E K gone ''model-loading'' ''Loading Whisper model from baked AMI'' []) (\<lambda>gone1.
     bindE (tick (monotonic E)) (\<lambda>started.
     (case as_build (su_asr S) of
        Inl e \<Rightarrow>
          bindE (ws_send E K gone1 [(''type'', PStr ''error''), (''code'', PStr ''model-load-failed''),
            (''message'', PStr ''backend_factory raised'')]) (\<lambda>_. raiseE e)
      | Inr _ \<Rightarrow>
          bindE (tick (monotonic E)) (\<lambda>now.
          let elapsed = PFloat (round2 (fl (now - started))) in
          emit_status E K gone1 ''model-loaded'' (''Whisper model loaded ('' @ su_show S elapsed @ ''s)'')
            [(''elapsed_s'', elapsed)]))))"

text \<open>\<open>chunks\<close> are the payloads that the consumer of the queue yields.\<close>

definition start_container :: "'t env \<Rightarrow> surroundings \<Rightarrow> container_cfg \<Rightarrow> item \<Rightarrow> ('t world, bool) io" where
  "start_container E S K cuda =
     bindE (emit_status E K False ''container-started'' (''Transcriber container started ('' @ cc_model_size K @ '')'')
       [(''model_size'', PStr (cc_model_size K)), (''connection_id'', PStr (cc_connection_id K))]) (\<lambda>gone1.
     bindE (assert_ami_assets E S K gone1 [model_dir K, warmup_clip_path]) (\<lambda>_.
     bindE (emit_status E K gone1 ''cuda-checked'' (cuda_detail S cuda) cuda) (\<lambda>gone2.
     bindE (load_model_phase E S K gone2) (\<lambda>gone3.
     bindE (read_prompt_seed_from_ddb E K) (\<lambda>seed.
     emit_status E K gone3 ''prompt-seed-read'' ''Prompt seed read from session row'' [])))))"

definition cancelled_start :: "'t env \<Rightarrow> container_cfg \<Rightarrow> bool \<Rightarrow> ('t world, int) io" where
  "cancelled_start E K gone =
     bindE (ws_send E K gone [(''type'', PStr ''error''), (''code'', PStr ''session-cancelled-during-spawn'')]) (\<lambda>_. retE 0)"

definition serve_frames :: "'t env \<Rightarrow> surroundings \<Rightarrow> container_cfg \<Rightarrow> bool \<Rightarrow> bytes list \<Rightarrow> ('t world, int) io" where
  "serve_frames E S K gone4 chunks =
     bindE (emit_status E K gone4 ''warmup-complete'' ''Warmup pass complete'' []) (\<lambda>gone5.
     bindE (ws_send E K gone5 [(''type'', PStr ''ready'')]) (\<lambda>(ok, gone6).
     consume_frames E S K 0 chunks \<lparr>ps_audio = [], ps_gone = gone6, ps_last_partial = [], ps_last_sent = 0\<rparr>))"

definition run_container :: "'t env \<Rightarrow> surroundings \<Rightarrow> container_cfg \<Rightarrow> item \<Rightarrow> bytes list \<Rightarrow> ('t world, int) io" where
  "run_container E S K cuda chunks =
     bindE (start_container E S K cuda) (\<lambda>gone4.
     if su_cold_event S then cancelled_start E K gone4 else serve_frames E S K gone4 chunks)"

definition container_main :: "'t env \<Rightarrow> (container_cfg \<Rightarrow> surroundings) \<Rightarrow> environ \<Rightarrow> item \<Rightarrow> bytes list \<Rightarrow> ('t world, int) io" where
  "container_main E S env cuda chunks =
     (case load_config_from_env env of
        Inl e \<Rightarrow> retE 1
      | Inr K \<Rightarrow> run_container E (S K) K cuda chunks)"

section \<open>The watchers\<close>

text \<open>\<open>\<^verbatim>\<open>str(v).strip().lower()\<close>\<close> of the status; a row that vanished counts as a disconnect.\<close>

definition lifecycle_poll :: "'t env \<Rightarrow> surroundings \<Rightarrow> container_cfg \<Rightarrow> ('t world, bool) io" where
  "lifecycle_poll E S K =
     tryE (get_item E (cc_sessions_table K) (session_key_of K))
       (\<lambda>e. retE False)
       (\<lambda>i. case i of
          None \<Rightarrow> retE True
        | Some it \<Rightarrow>
            let v = dget_or it ''status'' (PStr []); text = (case as_str v of Some s \<Rightarrow> s | None \<Rightarrow> su_show S v)
            in retE (lower (strip text) = ''disconnected''))"

text \<open>The watchers poll until their event is set or they are stopped (\<open>stopped k\<close> before poll \<open>k\<close>); \<open>n\<close> polls at most.\<close>

fun lifecycle_watch :: "'t env \<Rightarrow> surroundings \<Rightarrow> container_cfg \<Rightarrow> (nat \<Rightarrow> bool) \<Rightarrow> nat \<Rightarrow> nat \<Rightarrow> ('t world, bool) io" where
  "lifecycle_watch E S K stopped 0 k = retE False"
| "lifecycle_watch E S K stopped (Suc n) k =
     (if stopped k then retE False
      else bindE (lifecycle_poll E S K) (\<lambda>seen. if seen then retE True else lifecycle_watch E S K stopped n (Suc k)))"

definition probe_once :: "'t env \<Rightarrow> ('t world, string option) io" where
  "probe_once E =
     tryE (invoke E (Imds ''/latest/meta-data/spot/instance-action'')) (\<lambda>e. retE None)
       (\<lambda>answer. retE (as_str answer))"

fun spot_watch :: "'t env \<Rightarrow> (nat \<Rightarrow> bool) \<Rightarrow> nat \<Rightarrow> nat \<Rightarrow> ('t world, string option) io" where
  "spot_watch E stopped 0 k = retE None"
| "spot_watch E stopped (Suc n) k =
     (if stopped k then retE None
      else bindE (probe_once E) (\<lambda>p. if p \<noteq> None then retE p else spot_watch E stopped n (Suc k)))"

section \<open>Splitting the last tokens\<close>

definition bucket_ok :: "(item \<Rightarrow> nat) \<Rightarrow> nat \<Rightarrow> item list \<Rightarrow> bool" where
  "bucket_ok nbytes max_bytes b \<longleftrightarrow> b \<noteq> [] \<and> (length b = 1 \<or> 2 + sum_list (map (\<lambda>e. nbytes e + 1) b) \<le> max_bytes)"

lemma chunk_loop_ok:
  assumes "n = 2 + sum_list (map (\<lambda>e. nbytes e + 1) current)" "current = [] \<or> bucket_ok nbytes m current"
  shows "concat (chunk_loop nbytes m current n ts) = current @ map token_entry ts
    \<and> list_all (bucket_ok nbytes m) (chunk_loop nbytes m current n ts)"
  using assms
proof (induction ts arbitrary: current n)
  case (Cons t ts)
  show ?case
  proof (cases "current \<noteq> [] \<and> m < n + (nbytes (token_entry t) + 1)")
    case True
    with Cons.IH [of "2 + (nbytes (token_entry t) + 1)" "[token_entry t]"] Cons.prems show ?thesis
      by (simp add: Let_def bucket_ok_def)
  next
    case False
    have "bucket_ok nbytes m (current @ [token_entry t])"
      using False Cons.prems(1) by (cases current) (auto simp: bucket_ok_def)
    with Cons.IH [of "n + (nbytes (token_entry t) + 1)" "current @ [token_entry t]"] Cons.prems(1) False show ?thesis
      by (auto simp: Let_def)
  qed
qed (auto simp: bucket_ok_def)

text \<open>
  The last tokens reach the client complete and in order, in frames of at most 24000 bytes unless one
  token alone is longer.
\<close>

lemma chunks_cover_tokens:
  "concat (chunk_tokens_for_ws nbytes tokens) = map token_entry tokens
   \<and> list_all (bucket_ok nbytes 24000) (chunk_tokens_for_ws nbytes tokens)"
  using chunk_loop_ok [of 2 nbytes "[]" 24000 tokens] by (simp add: chunk_tokens_for_ws_def)

section \<open>The session row\<close>

text \<open>
  One update appends the texts of the committed tokens to the text of the row; whatever fails, the row is
  as before or has just that text, and no other row changes.
\<close>

lemma update_tokens_outcome:
  assumes "ddb_ok E V" "update_last_transcript_tokens E K tokens processed w = (r, w')"
  shows "r = Inr () \<and>
    (rows V w' = rows V w \<or>
     (\<exists>prefix row'.
        as_str (py_or (dget_or (row_attrs (rows V w (cc_sessions_table K) (session_key_of K))) ''last_transcript_text'' (PStr [])) (PStr []))
          = Some prefix \<and>
        rows V w' = store_row (rows V w) (cc_sessions_table K) (session_key_of K) row' \<and>
        map_of row' ''last_transcript_text'' = Some (PStr (prefix @ concat (map tk_text tokens))) \<and>
        map_of row' ''last_processed_upto'' = Some (PDec processed) \<and>
        (\<forall>a. a \<notin> {''last_transcript_text'', ''last_processed_upto'', ''updated_at''} \<longrightarrow>
           map_of row' a = map_of (case rows V w (cc_sessions_table K) (session_key_of K) of
             None \<Rightarrow> session_key_of K | Some it \<Rightarrow> it) a)))"
proof (cases "concat (map tk_text tokens) = []")
  case True
  with assms(2) show ?thesis by (simp add: update_last_transcript_tokens_def retE_def)
next
  case False
  note run = assms(2) [unfolded update_last_transcript_tokens_def Let_def if_not_P [OF False]]
  have k: "ddb_item (session_key_of K) = session_key_of K" by (simp add: session_key_of_def ddb_item_def)
  obtain i w1 where g: "get_item E (cc_sessions_table K) (session_key_of K) w = (i, w1)" by fastforce
  note gc = get_item_cases [OF assms(1) g, unfolded k]
  show ?thesis
  proof (cases i)
    case (Inl e)
    with run g gc(1) show ?thesis by (simp add: bindE_def tryE_def retE_def)
  next
    case (Inr it)
    then have it: "it = rows V w (cc_sessions_table K) (session_key_of K)" using gc(3) by simp
    show ?thesis
    proof (cases "as_str (py_or (dget_or (row_attrs it) ''last_transcript_text'' (PStr [])) (PStr []))")
      case None
      with run g gc(1) Inr show ?thesis by (simp add: bindE_def tryE_def retE_def raiseE_def)
    next
      case (Some prefix)
      define us where "us = [SetAttr ''last_transcript_text'' (PStr (prefix @ concat (map tk_text tokens))),
                   SetAttr ''last_processed_upto'' (PDec processed),
                   SetAttr ''updated_at'' (PStr (now_text (clock E (ticks w1))))]"
      obtain r2 w3 where u: "update_item E (cc_sessions_table K) (session_key_of K) us CTrue
          (w1\<lparr>ticks := Suc (ticks w1)\<rparr>) = (r2, w3)" by fastforce
      have w3: "r = Inr ()" "w' = w3"
        using run g Inr Some u [unfolded us_def]
        by (auto simp: bindE_def tryE_def retE_def utcnow_def tick_def split: sum.splits)
      let ?row = "updated_row (session_key_of K) us (rows V w (cc_sessions_table K) (session_key_of K))"
      from write_outcome_weak [OF update_item_cases(1) [OF assms(1) u]]
      have "rows V w' = rows V w \<or> rows V w' = store_row (rows V w) (cc_sessions_table K) (session_key_of K) ?row"
        using w3 gc(1) by (auto simp: k)
      moreover have "map_of ?row ''last_transcript_text'' = Some (PStr (prefix @ concat (map tk_text tokens)))"
          "map_of ?row ''last_processed_upto'' = Some (PDec processed)"
        by (simp_all add: updated_row_def us_def)
      moreover have "\<forall>a. a \<notin> {''last_transcript_text'', ''last_processed_upto'', ''updated_at''} \<longrightarrow>
           map_of ?row a = map_of (case rows V w (cc_sessions_table K) (session_key_of K) of
             None \<Rightarrow> session_key_of K | Some it \<Rightarrow> it) a"
        unfolding updated_row_def k by (simp add: us_def)
      ultimately show ?thesis using w3 Some it by blast
    qed
  qed
qed

section \<open>How a session ends\<close>

fun posts_to :: "string \<Rightarrow> call \<Rightarrow> bool" where
  "posts_to cid (PostToConnection c p) = (c = cid)"
| "posts_to cid _ = False"

text \<open>Computations that call nothing but the posts to the client of the session.\<close>

abbreviation only_posts :: "container_cfg \<Rightarrow> 't world \<Rightarrow> 't world \<Rightarrow> bool" where
  "only_posts K \<equiv> only_calls (posts_to (cc_connection_id K))"

lemma ws_send_calls [keeps_intros]: "(\<And>p. P (PostToConnection (cc_connection_id K) p)) \<Longrightarrow> keeps (only_calls P) (ws_send E K gone payload)"
  unfolding ws_send_def by (auto intro!: keeps_intros)

lemma emit_status_calls [keeps_intros]:
  "(\<And>p. P (PostToConnection (cc_connection_id K) p)) \<Longrightarrow> keeps (only_calls P) (emit_status E K gone stage detail extra)"
  unfolding emit_status_def by (auto intro!: keeps_intros split: prod.splits)

lemma send_committed_calls [keeps_intros]: "keeps (only_posts K) (send_committed E K gone processed ts)"
  by (induction ts arbitrary: gone) (auto intro!: keeps_intros split: prod.splits)

lemma send_chunks_calls [keeps_intros]: "keeps (only_posts K) (send_chunks E K gone seq n cs)"
  by (induction cs arbitrary: gone seq) (auto intro!: keeps_intros split: prod.splits)

lemma send_final_calls [keeps_intros]: "keeps (only_posts K) (send_final E S K gone tokens processed reason)"
  unfolding send_final_def Let_def by (auto intro!: keeps_intros)

lemma update_tokens_calls [keeps_intros]: "keeps (only_calls P) (update_last_transcript_tokens E K tokens processed)"
  unfolding update_last_transcript_tokens_def Let_def by (auto intro!: keeps_intros split: option.split)

lemma stream_pass_calls [keeps_intros]: "keeps (only_posts K) (stream_pass E S K pcm st)"
  unfolding stream_pass_def send_partial_def Let_def
  by (auto intro!: keeps_intros split: sum.split prod.split)

text \<open>
  What the end of a session calls: the final object holds what the processor answers at the end over the
  frames taken, and nothing when it raises; the instance is asked of the metadata service, and its termination
  of EC2 when the two metadata calls are answered with an instance identifier.
\<close>

definition final_put :: "surroundings \<Rightarrow> container_cfg \<Rightarrow> bytes list \<Rightarrow> call" where
  "final_put S K audio =
     (let (tokens, processed) = (case as_finish (su_asr S) audio of Inl e \<Rightarrow> ([], 0) | Inr p \<Rightarrow> p) in
      S3PutObject (cc_transcripts_bucket K) (final_key K) (final_snapshot K tokens processed True) ''application/json'')"

definition termination_calls :: "'t env \<Rightarrow> call list \<Rightarrow> call list" where
  "termination_calls E calls =
     (let ask_token = Imds ''/latest/api/token''; ask_id = Imds ''/latest/meta-data/instance-id'' in
      ask_token #
      (case svc E calls ask_token of
         Inl _ \<Rightarrow> []
       | Inr _ \<Rightarrow>
           ask_id #
           (case svc E (calls @ [ask_token]) ask_id of
              Inl _ \<Rightarrow> []
            | Inr answer \<Rightarrow>
                (case as_str answer of
                   None \<Rightarrow> []
                 | Some instance_id \<Rightarrow> if starts_with instance_id ''i-'' then [Ec2Terminate instance_id] else []))))"

text \<open>
  The calls \<open>cs\<close> made after \<open>before\<close> end a session over \<open>audio\<close>: posts to the client, the final object,
  the closing posts (none when the client is gone), and the termination of the instance.
\<close>

definition session_finalized ::
  "'t env \<Rightarrow> surroundings \<Rightarrow> container_cfg \<Rightarrow> bytes list \<Rightarrow> bool \<Rightarrow> call list \<Rightarrow> call list \<Rightarrow> bool" where
  "session_finalized E S K audio gone before cs \<longleftrightarrow>
     (\<exists>pre post. cs = pre @ final_put S K audio # post @ termination_calls E (before @ pre @ final_put S K audio # post) \<and>
        list_all (posts_to (cc_connection_id K)) (pre @ post) \<and> (gone \<longleftrightarrow> post = []))"

lemma only_postsD:
  assumes "only_posts K w w'"
  obtains cs where "trace w' = trace w @ cs" "list_all (posts_to (cc_connection_id K)) cs"
  using assms by (auto simp: only_calls_def)

lemma keeps_postsD: "keeps (only_posts K) m \<Longrightarrow> m w = (r, w') \<Longrightarrow> only_posts K w w'"
  by (rule keepsD)

lemma session_finalized_before:
  assumes "session_finalized E S K audio gone (before @ ps) cs" "list_all (posts_to (cc_connection_id K)) ps"
  shows "session_finalized E S K audio gone before (ps @ cs)"
proof -
  from assms(1) obtain pre post where c: "cs = pre @ final_put S K audio # post @
        termination_calls E ((before @ ps) @ pre @ final_put S K audio # post)"
    "list_all (posts_to (cc_connection_id K)) (pre @ post)" "gone \<longleftrightarrow> post = []"
    unfolding session_finalized_def by blast
  show ?thesis unfolding session_finalized_def
    by (rule exI [of _ "ps @ pre"], rule exI [of _ post]) (use c assms(2) in simp)
qed

lemma write_final_put:
  assumes "write_final_tokens E K tokens processed committed status w = (Inr k, w')"
  shows "trace w' = trace w @
    [S3PutObject (cc_transcripts_bucket K) (final_key K) (final_snapshot K tokens processed committed) ''application/json'']"
proof -
  define body where "body = final_snapshot K tokens processed committed"
  from assms have b: "json_dumps (final_snapshot K tokens processed committed) = Inr body"
    by (auto simp: write_final_tokens_def bindE_Inr_iff liftE_def json_dumps_def body_def split: if_splits)
  obtain r1 w1 where put: "invoke E (S3PutObject (cc_transcripts_bucket K) (final_key K) body ''application/json'') w = (r1, w1)"
    by fastforce
  let ?finish = "tryE (bindE (utcnow E) (\<lambda>now.
                update_item E (cc_sessions_table K) (session_key_of K)
                  [SetAttr ''status'' (PStr status), SetAttr ''final_transcript_s3_key'' (PStr (final_key K)),
                   SetAttr ''audio_processed_upto'' (PDec processed), SetAttr ''ended_at'' (PStr (now_text now)),
                   SetAttr ''updated_at'' (PStr (now_text now))] CTrue))
            (\<lambda>e. retE (Some (final_key K)))
            (\<lambda>_. retE (Some (final_key K))) :: ('a world, string option) io"
  have "keeps (only_calls (\<lambda>c. False)) (case r1 of Inl e \<Rightarrow> retE None | Inr _ \<Rightarrow> ?finish)"
    by (cases r1) (auto intro!: keeps_intros)
  moreover have "(case r1 of Inl e \<Rightarrow> retE None | Inr _ \<Rightarrow> ?finish) w1 = (Inr k, w')"
    using assms b put by (cases r1) (auto simp: write_final_tokens_def bindE_def liftE_def tryE_def)
  ultimately have "only_calls (\<lambda>c. False) w1 w'" by (rule keepsD)
  then have "trace w' = trace w1" by (auto simp: only_calls_def list_all_iff)
  with invoke_cases(2) [OF put] show ?thesis by (simp add: body_def)
qed

lemma self_terminate_calls:
  "self_terminate_ec2 E w = (r, w') \<Longrightarrow> r = Inr () \<and> trace w' = trace w @ termination_calls E (trace w)"
  by (auto simp: self_terminate_ec2_def termination_calls_def tryE_def bindE_def retE_def raiseE_def invoke_def Let_def
      split: sum.splits option.splits if_splits)

lemma ws_send_posts:
  assumes "ws_send E K False payload w = (Inr x, w')"
  shows "length (trace w) < length (trace w')"
  using assms by (auto simp: ws_send_def bindE_def liftE_def tryE_def raiseE_def retE_def invoke_def
      split: sum.splits if_splits)

lemma send_final_post:
  assumes "send_final E S K gone tokens processed reason w = (Inr u, w')"
  obtains cs where "trace w' = trace w @ cs" "list_all (posts_to (cc_connection_id K)) cs" "gone \<longleftrightarrow> cs = []"
proof -
  obtain cs where cs: "trace w' = trace w @ cs" "list_all (posts_to (cc_connection_id K)) cs"
    using only_postsD [OF keeps_postsD [OF send_final_calls assms]] .
  have "gone \<longleftrightarrow> cs = []"
  proof (cases gone)
    case True
    with assms cs(1) show ?thesis by (simp add: send_final_def retE_def)
  next
    case False
    define chunks where "chunks = chunk_tokens_for_ws (su_size S) tokens"
    obtain gone' w1 where a: "send_chunks E K False 0 (int (length chunks)) chunks w = (Inr gone', w1)"
      and b: "bindE (ws_send E K gone' [(''type'', PStr ''ended''), (''reason'', PStr reason),
          (''expected_chunks'', PInt (int (length chunks))), (''audio_upto'', PFloat processed)]) (\<lambda>_. retE ()) w1 = (Inr u, w')"
      using assms False by (auto simp: send_final_def Let_def bindE_Inr_iff chunks_def)
    have grow: "length (trace w1) \<le> length (trace w')"
    proof -
      have "keeps (only_posts K) (bindE (ws_send E K gone' [(''type'', PStr ''ended''), (''reason'', PStr reason),
          (''expected_chunks'', PInt (int (length chunks))), (''audio_upto'', PFloat processed)]) (\<lambda>_. retE ()))"
        by (auto intro!: keeps_intros)
      from only_postsD [OF keepsD [OF this b]] show ?thesis by force
    qed
    have "length (trace w) < length (trace w')"
    proof (cases chunks)
      case Nil
      with a have "w1 = w" "\<not> gone'" by (simp_all add: retE_def)
      with b show ?thesis using ws_send_posts by (fastforce simp: bindE_Inr_iff retE_def)
    next
      case (Cons chunk rest)
      with a obtain x w2 where first: "ws_send E K False [(''type'', PStr ''final-chunk''), (''seq'', PInt 0),
          (''total'', PInt (int (length chunks))), (''tokens'', PList (map PDict chunk))] w = (Inr x, w2)"
        and r: "send_chunks E K (snd x) 1 (int (length chunks)) rest w2 = (Inr gone', w1)"
        by (auto simp: bindE_Inr_iff)
      from only_postsD [OF keepsD [OF send_chunks_calls r]] ws_send_posts [OF first] grow show ?thesis by force
    qed
    with cs(1) False show ?thesis by auto
  qed
  with cs show thesis by (rule that)
qed

lemma drain_finalizes:
  assumes "drain_and_exit E S K audio gone reason status w = (Inr u, w')"
  shows "\<exists>cs. trace w' = trace w @ cs \<and> session_finalized E S K audio gone (trace w) cs"
proof -
  obtain tokens processed where f: "(case as_finish (su_asr S) audio of Inl e \<Rightarrow> ([], 0) | Inr p \<Rightarrow> p) = (tokens, processed)"
    by fastforce
  with assms obtain k w1 u2 w2 where
    a: "write_final_tokens E K tokens processed True status w = (Inr k, w1)"
    and b: "send_final E S K gone tokens processed reason w1 = (Inr u2, w2)"
    and c: "self_terminate_ec2 E w2 = (Inr u, w')"
    by (auto simp: drain_and_exit_def bindE_Inr_iff)
  obtain post where post: "trace w2 = trace w1 @ post" "list_all (posts_to (cc_connection_id K)) post" "gone \<longleftrightarrow> post = []"
    by (rule send_final_post [OF b])
  have "trace w1 = trace w @ [final_put S K audio]" using write_final_put [OF a] f by (simp add: final_put_def)
  with post self_terminate_calls [OF c] show ?thesis
    unfolding session_finalized_def
    by (intro exI [of _ "final_put S K audio # post @ termination_calls E (trace w @ final_put S K audio # post)"] conjI
        exI [of _ "[]"] exI [of _ post]) simp_all
qed

text \<open>
  The frames a session takes: all of them, or those up to the one after which the spot notice, the
  disconnect or the client's absence was seen.
\<close>

definition taken_frames :: "surroundings \<Rightarrow> bytes list \<Rightarrow> nat \<Rightarrow> bool \<Rightarrow> nat \<Rightarrow> bool" where
  "taken_frames S chunks n gone m \<longleftrightarrow>
     m = length chunks \<or> (\<exists>j. m = Suc j \<and> j < length chunks \<and> (su_spot S (n + j) \<or> su_disconnect S (n + j) \<or> gone))"

lemma normal_end_finalizes:
  "normal_end E S K st w = (Inr c, w') \<Longrightarrow>
     c = 0 \<and> (\<exists>cs. trace w' = trace w @ cs \<and> session_finalized E S K (ps_audio st) (ps_gone st) (trace w) cs)"
  using drain_finalizes by (fastforce simp: normal_end_def bindE_Inr_iff retE_def)

lemma stream_pass_audio:
  "stream_pass E S K pcm st w = (Inr (st', a), w') \<Longrightarrow> ps_audio st' = ps_audio st @ [pcm]"
  by (auto simp: stream_pass_def send_partial_def Let_def bindE_Inr_iff retE_def raiseE_def
      split: if_splits sum.splits prod.splits)

lemma consume_finalizes:
  "consume_frames E S K n chunks st w = (Inr c, w') \<Longrightarrow> c = 0 \<and> (\<exists>cs m gone. trace w' = trace w @ cs \<and>
     session_finalized E S K (ps_audio st @ take m chunks) gone (trace w) cs \<and> taken_frames S chunks n gone m)"
proof (induction chunks arbitrary: n st w)
  case Nil
  then have "normal_end E S K st w = (Inr c, w')" by (cases "su_frames_end S") (auto simp: raiseE_def)
  from normal_end_finalizes [OF this] show ?case by (auto simp: taken_frames_def)
next
  case (Cons pcm chunks)
  then obtain st' a w1 where p: "stream_pass E S K pcm st w = (Inr (st', a), w1)"
    and go: "(if \<not> a then consume_frames E S K (Suc n) chunks st'
     else if su_spot S n then
       bindE (drain_and_exit E S K (ps_audio st') (ps_gone st') ''spot-interrupted'' ''interrupted'') (\<lambda>_. retE 0)
     else if su_disconnect S n \<or> ps_gone st' then normal_end E S K st'
     else consume_frames E S K (Suc n) chunks st') w1 = (Inr c, w')"
    by (auto simp: bindE_Inr_iff)
  obtain ps where ps: "trace w1 = trace w @ ps" "list_all (posts_to (cc_connection_id K)) ps"
    using only_postsD [OF keeps_postsD [OF stream_pass_calls p]] .
  note audio = stream_pass_audio [OF p]
  have "c = 0 \<and> (\<exists>cs m gone. trace w' = trace w1 @ cs \<and>
     session_finalized E S K (ps_audio st @ take m (pcm # chunks)) gone (trace w1) cs \<and> taken_frames S (pcm # chunks) n gone m)"
  proof (cases "a \<and> (su_spot S n \<or> su_disconnect S n \<or> ps_gone st')")
    case True
    then have "c = 0 \<and> (\<exists>cs. trace w' = trace w1 @ cs \<and> session_finalized E S K (ps_audio st') (ps_gone st') (trace w1) cs)"
      using go normal_end_finalizes drain_finalizes by (fastforce simp: bindE_Inr_iff retE_def split: if_splits)
    moreover have "taken_frames S (pcm # chunks) n (ps_gone st') (Suc 0)" using True by (auto simp: taken_frames_def)
    ultimately obtain cs where "c = 0" "trace w' = trace w1 @ cs"
      "session_finalized E S K (ps_audio st') (ps_gone st') (trace w1) cs" "taken_frames S (pcm # chunks) n (ps_gone st') (Suc 0)"
      by blast
    then show ?thesis using audio by (intro conjI exI [of _ cs] exI [of _ "Suc 0"] exI [of _ "ps_gone st'"]) simp_all
  next
    case False
    then have "consume_frames E S K (Suc n) chunks st' w1 = (Inr c, w')" using go by (auto split: if_splits)
    from Cons.IH [OF this] obtain cs m gone where m: "c = 0" "trace w' = trace w1 @ cs"
      "session_finalized E S K (ps_audio st' @ take m chunks) gone (trace w1) cs" "taken_frames S chunks (Suc n) gone m"
      by blast
    moreover have "taken_frames S (pcm # chunks) n gone (Suc m)" using m(4) by (auto simp: taken_frames_def)
    ultimately show ?thesis using audio by (intro conjI exI [of _ cs] exI [of _ "Suc m"] exI [of _ gone]) simp_all
  qed
  then obtain cs m gone where "c = 0" "trace w' = trace w @ ps @ cs"
    "session_finalized E S K (ps_audio st @ take m (pcm # chunks)) gone (trace w @ ps) cs" "taken_frames S (pcm # chunks) n gone m"
    using ps(1) by auto
  with session_finalized_before [OF _ ps(2)] show ?case by blast
qed

lemma assert_assets_calls [keeps_intros]:
  "keeps (only_calls (posts_to (cc_connection_id K))) (assert_ami_assets E S K gone paths)"
  by (induction paths) (auto intro!: keeps_intros)

lemma start_container_calls: "keeps (only_calls (posts_to (cc_connection_id K))) (start_container E S K cuda)"
  unfolding start_container_def load_model_phase_def read_prompt_seed_from_ddb_def Let_def
  by (auto intro!: keeps_intros split: sum.split)

lemma only_calls_trans: "only_calls P a b \<Longrightarrow> only_calls P b c \<Longrightarrow> only_calls P a c"
  using preorder_only_calls [of P] unfolding preorder_on_worlds_def by blast

lemma only_calls_list: "only_calls P w w' \<Longrightarrow> list_all P (new_calls w w')"
  by (auto simp: only_calls_def new_calls_def)

lemma bindE_InrE:
  "bindE m f w = (Inr y, w'') \<Longrightarrow> (\<And>x w'. m w = (Inr x, w') \<Longrightarrow> f x w' = (Inr y, w'') \<Longrightarrow> Q) \<Longrightarrow> Q"
  by (auto simp: bindE_Inr_iff)

lemma cancelled_start_calls: "keeps (only_calls (posts_to (cc_connection_id K))) (cancelled_start E K gone)"
  unfolding cancelled_start_def by (auto intro!: keeps_intros)

lemma serve_frames_end:
  assumes "serve_frames E S K gone4 chunks w1 = (Inr c, w')"
  shows "c = 0 \<and> (\<exists>cs m gone. trace w' = trace w1 @ cs \<and>
     session_finalized E S K (take m chunks) gone (trace w1) cs \<and> taken_frames S chunks 0 gone m)"
proof -
  from assms [unfolded serve_frames_def] obtain gone5 w2 where
    a: "emit_status E K gone4 ''warmup-complete'' ''Warmup pass complete'' [] w1 = (Inr gone5, w2)"
    and rest: "bindE (ws_send E K gone5 [(''type'', PStr ''ready'')]) (\<lambda>(ok, gone6).
     consume_frames E S K 0 chunks \<lparr>ps_audio = [], ps_gone = gone6, ps_last_partial = [], ps_last_sent = 0\<rparr>) w2 = (Inr c, w')"
    by (rule bindE_InrE)
  from rest obtain x w3 where b: "ws_send E K gone5 [(''type'', PStr ''ready'')] w2 = (Inr x, w3)"
    and f: "(case x of (ok, gone6) \<Rightarrow>
     consume_frames E S K 0 chunks \<lparr>ps_audio = [], ps_gone = gone6, ps_last_partial = [], ps_last_sent = 0\<rparr>) w3 = (Inr c, w')"
    by (rule bindE_InrE)
  have "only_posts K w1 w2" by (rule keepsD [OF emit_status_calls a]) simp
  moreover have "only_posts K w2 w3" by (rule keepsD [OF ws_send_calls b]) simp
  ultimately have "only_posts K w1 w3" by (rule only_calls_trans)
  then obtain ps where ps: "trace w3 = trace w1 @ ps" "list_all (posts_to (cc_connection_id K)) ps" by (rule only_postsD)
  obtain ok gone6 where x: "x = (ok, gone6)" by fastforce
  from consume_finalizes [OF f [unfolded x prod.case]] obtain cs m gone where "c = 0" "trace w' = trace w1 @ ps @ cs"
    "session_finalized E S K (take m chunks) gone (trace w1 @ ps) cs" "taken_frames S chunks 0 gone m"
    using ps(1) by auto
  with session_finalized_before [OF _ ps(2)] show ?thesis by blast
qed


section \<open>When a session ends normally\<close>

definition returns :: "('w, 'a) io \<Rightarrow> bool" where
  "returns m \<longleftrightarrow> (\<forall>w. \<not> isl (fst (m w)))"

lemma returns_basic: "returns (retE x)" "returns (tick f)" "returns (utcnow E)"
  by (simp_all add: returns_def retE_def tick_def utcnow_def)

lemma returns_bindE: "returns m \<Longrightarrow> (\<And>x. returns (f x)) \<Longrightarrow> returns (bindE m f)"
  by (auto simp: returns_def bindE_def split: prod.split sum.split) (metis fst_conv isl_def)

lemma returns_tryE: "(\<And>e. returns (h e)) \<Longrightarrow> (\<And>x. returns (f x)) \<Longrightarrow> returns (tryE m h f)"
  by (auto simp: returns_def tryE_def split: prod.split sum.split)

lemmas returns_intros = returns_basic returns_bindE returns_tryE

lemma returnsD: "returns m \<Longrightarrow> \<exists>x w'. m w = (Inr x, w')"
  unfolding returns_def by (metis isl_def old.prod.exhaust prod.sel(1) sum.exhaust_sel)

definition posts_ok :: "'t env \<Rightarrow> container_cfg \<Rightarrow> bool" where
  "posts_ok E K \<longleftrightarrow> (\<forall>cs p e. svc E cs (PostToConnection (cc_connection_id K) p) = Inl e \<longrightarrow> is_gone e)"

definition token_plain :: "asr_token \<Rightarrow> bool" where
  "token_plain t \<longleftrightarrow> json_plain (tk_start t) \<and> json_plain (tk_end t) \<and> json_plain (tk_probability t)"

definition tokens_plain :: "asr \<Rightarrow> bool" where
  "tokens_plain A \<longleftrightarrow>
     (\<forall>a ts p. as_pass A a = Inr (ts, p) \<longrightarrow> list_all token_plain ts) \<and>
     (\<forall>a ts p. as_finish A a = Inr (ts, p) \<longrightarrow> list_all token_plain ts)"

lemma tokens_plainD:
  "tokens_plain A \<Longrightarrow> as_pass A a = Inr (ts, p) \<Longrightarrow> list_all token_plain ts"
  "tokens_plain A \<Longrightarrow> as_finish A a = Inr (ts, p) \<Longrightarrow> list_all token_plain ts"
  unfolding tokens_plain_def by blast+

lemma plain_entry: "token_plain t \<Longrightarrow> json_plain (PDict (token_entry t))"
  by (simp add: token_plain_def token_entry_def)

lemma returns_send:
  assumes "posts_ok E K" "json_plain (PDict payload)"
  shows "returns (ws_send E K gone payload)"
  using assms
  by (auto simp: returns_def ws_send_def retE_def bindE_def liftE_def json_dumps_def tryE_def invoke_def raiseE_def posts_ok_def
      split: sum.splits)

lemma returns_status: "returns (emit_status E K gone stage detail extra)"
  unfolding emit_status_def by (auto intro!: returns_intros split: prod.split)

lemma returns_update: "returns (update_last_transcript_tokens E K tokens processed)"
  unfolding update_last_transcript_tokens_def Let_def by (auto intro!: returns_intros)

lemma returns_write_final:
  assumes "list_all token_plain tokens"
  shows "returns (write_final_tokens E K tokens processed committed status)"
proof -
  have "json_plain (PDict (final_snapshot K tokens processed committed))"
    using assms by (auto simp: final_snapshot_def list_all_iff token_entry_def token_plain_def)
  then have "returns (liftE (json_dumps (final_snapshot K tokens processed committed)))"
    by (simp add: returns_def liftE_def json_dumps_def)
  then show ?thesis unfolding write_final_tokens_def by (auto intro!: returns_intros)
qed

lemma returns_terminate: "returns (self_terminate_ec2 E)"
  unfolding self_terminate_ec2_def by (intro returns_intros)

lemma returns_committed:
  assumes "posts_ok E K"
  shows "list_all token_plain ts \<Longrightarrow> returns (send_committed E K gone processed ts)"
proof (induction ts arbitrary: gone)
  case (Cons t ts)
  then have "json_plain (PDict (final_message t processed))"
    by (simp add: final_message_def token_entry_def token_plain_def)
  with Cons show ?case by (auto intro!: returns_intros returns_send [OF assms] split: prod.split)
qed (simp add: returns_basic)

lemma returns_chunks:
  assumes "posts_ok E K"
  shows "list_all (list_all (\<lambda>e. json_plain (PDict e))) cs \<Longrightarrow> returns (send_chunks E K gone seq n cs)"
proof (induction cs arbitrary: gone seq)
  case (Cons c cs)
  then have "json_plain (PDict [(''type'', PStr ''final-chunk''), (''seq'', PInt seq), (''total'', PInt n),
       (''tokens'', PList (map PDict c))])"
    by (simp add: list_all_iff)
  with Cons show ?case by (auto intro!: returns_intros returns_send [OF assms] split: prod.split)
qed (simp add: returns_basic)

lemma plain_chunks:
  assumes "list_all token_plain tokens"
  shows "list_all (list_all (\<lambda>e. json_plain (PDict e))) (chunk_tokens_for_ws nbytes tokens)"
proof -
  have "set (concat (chunk_tokens_for_ws nbytes tokens)) = token_entry ` set tokens"
    by (simp only: chunks_cover_tokens set_map)
  then have "\<And>c e. c \<in> set (chunk_tokens_for_ws nbytes tokens) \<Longrightarrow> e \<in> set c \<Longrightarrow> e \<in> token_entry ` set tokens" by auto
  moreover have "\<And>e. e \<in> token_entry ` set tokens \<Longrightarrow> json_plain (PDict e)"
    using assms plain_entry by (auto simp only: list_all_iff)
  ultimately show ?thesis unfolding list_all_iff by blast
qed

lemma returns_final:
  assumes "posts_ok E K" "list_all token_plain tokens"
  shows "returns (send_final E S K gone tokens processed reason)"
  unfolding send_final_def Let_def
  by (auto intro!: returns_intros returns_send [OF assms(1)] returns_chunks [OF assms(1)] plain_chunks assms(2))

lemma returns_drain:
  assumes "posts_ok E K" "tokens_plain (su_asr S)"
  shows "returns (drain_and_exit E S K audio gone reason status)"
proof -
  obtain tokens processed where f: "(case as_finish (su_asr S) audio of Inl e \<Rightarrow> ([], 0) | Inr p \<Rightarrow> p) = (tokens, processed)"
    by fastforce
  then have "list_all token_plain tokens" using tokens_plainD(2) [OF assms(2)] by (auto split: sum.splits)
  then show ?thesis
    unfolding drain_and_exit_def f prod.case Let_def
    by (intro returns_bindE returns_write_final returns_final [OF assms(1)] returns_terminate)
qed

lemma returns_pass:
  assumes "posts_ok E K" "tokens_plain (su_asr S)" "even (length pcm)"
  shows "returns (stream_pass E S K pcm st)"
proof (cases "as_pass (su_asr S) (ps_audio st @ [pcm])")
  case (Inl e)
  with assms(3) show ?thesis by (simp add: stream_pass_def returns_basic)
next
  case (Inr p)
  obtain tokens processed where p: "p = (tokens, processed)" by fastforce
  with Inr assms(2) have "list_all token_plain tokens" by (simp add: tokens_plainD(1))
  moreover have "returns (send_partial E K h now st')" for h now st'
    unfolding send_partial_def by (auto intro!: returns_intros returns_send [OF assms(1)] split: prod.split)
  ultimately show ?thesis
    using assms(3) Inr p
    by (auto simp: stream_pass_def Let_def intro!: returns_intros returns_committed [OF assms(1)] returns_update)
qed

lemma returns_consume:
  assumes "posts_ok E K" "tokens_plain (su_asr S)" "su_frames_end S = None"
  shows "list_all (\<lambda>pcm. even (length pcm)) chunks \<Longrightarrow> returns (consume_frames E S K n chunks st)"
proof (induction chunks arbitrary: n st)
  case Nil
  then show ?case by (simp add: assms(3) normal_end_def returns_bindE returns_drain [OF assms(1,2)] returns_basic)
next
  case (Cons pcm chunks)
  then show ?case
    by (auto intro!: returns_bindE returns_pass [OF assms(1,2)] returns_drain [OF assms(1,2)] returns_basic
        simp: normal_end_def split: prod.split)
qed

lemma returns_start:
  assumes "posts_ok E K" "as_build (su_asr S) = Inr ()" "su_exists S (model_dir K)" "su_exists S warmup_clip_path"
  shows "returns (start_container E S K cuda)"
  unfolding start_container_def load_model_phase_def read_prompt_seed_from_ddb_def Let_def
  using assms by (auto intro!: returns_intros returns_status)

lemma container_returns:
  assumes "posts_ok E K" "tokens_plain (su_asr S)" "su_frames_end S = None" "as_build (su_asr S) = Inr ()"
    "su_exists S (model_dir K)" "su_exists S warmup_clip_path" "list_all (\<lambda>pcm. even (length pcm)) chunks"
  shows "\<exists>c w'. run_container E S K cuda chunks w = (Inr c, w')"
proof (rule returnsD)
  have "returns (serve_frames E S K gone chunks)" for gone
    unfolding serve_frames_def
    by (auto intro!: returns_bindE returns_status returns_send [OF assms(1)] returns_consume [OF assms(1-3)] assms(7)
        split: prod.split)
  moreover have "returns (cancelled_start E K gone)" for gone
    unfolding cancelled_start_def by (auto intro!: returns_bindE returns_send [OF assms(1)] returns_basic)
  ultimately show "returns (run_container E S K cuda chunks)"
    unfolding run_container_def by (auto intro!: returns_bindE returns_start [OF assms(1,4,5,6)])
qed

definition container_demo_env :: "mem env" where
  "container_demo_env = mem_env (\<lambda>t. [''session_id'']) (\<lambda>cs c. Inr (PStr ''i-1''))"

definition container_demo_cfg :: container_cfg where
  "container_demo_cfg =
     \<lparr>cc_session_id = ''s'', cc_connection_id = ''s'', cc_frame_queue_url = ''q'', cc_ws_endpoint = ''e'',
      cc_sessions_table = ''t'', cc_frame_pool_table = ''p'', cc_transcripts_bucket = ''b'', cc_model_size = ''m'',
      cc_model_cache_dir = ''c'', cc_language_hint = ''en'', cc_min_chunk_seconds = Finite 1,
      cc_max_chunk_seconds = Finite 30, cc_idle_seconds_before_exit = Finite 30,
      cc_keepalive_ping_seconds = Finite 540, cc_buffer_trimming = ''segment'', cc_buffer_trimming_sec = Finite 15,
      cc_aws_region = ''r'', cc_log_level = ''INFO''\<rparr>"

definition container_demo :: surroundings where
  "container_demo =
     \<lparr>su_asr = \<lparr>as_build = Inr (), as_pass = (\<lambda>a. Inr ([], 0)), as_hypothesis = (\<lambda>a. []), as_finish = (\<lambda>a. Inr ([], 0))\<rparr>,
      su_exists = (\<lambda>p. True), su_size = (\<lambda>e. 0), su_show = (\<lambda>v. ''v''), su_cold_event = False,
      su_spot = (\<lambda>n. False), su_disconnect = (\<lambda>n. False), su_frames_end = None\<rparr>"


text \<open>
  A frame whose length is odd ends the session with an exception: nothing is written and the instance is
  not terminated, whatever was transcribed before.
\<close>

lemma odd_frame_ends_session:
  assumes "odd (length pcm)"
  shows "consume_frames E S K n (pcm # chunks) st w = (Inl (ValueError ''buffer size must be a multiple of element size''), w)"
  using assms by (simp add: stream_pass_def bindE_def raiseE_def)

text \<open>What the final object holds: the tokens the end of the processing answers, none of those committed before.\<close>

lemma final_object_tokens:
  assumes "as_finish (su_asr S) audio = Inr ([], processed)" "drain_and_exit E S K audio gone reason status w = (Inr u, w')"
  shows "S3PutObject (cc_transcripts_bucket K) (final_key K)
    [(''session_id'', PStr (cc_session_id K)), (''audio_processed_upto_seconds'', PFloat processed),
     (''committed_finalized'', PBool True), (''tokens'', PList [])] ''application/json'' \<in> set (new_calls w w')"
proof -
  from assms obtain k w1 u2 w2 where
    a: "write_final_tokens E K [] processed True status w = (Inr k, w1)"
    and b: "send_final E S K gone [] processed reason w1 = (Inr u2, w2)"
    and c: "self_terminate_ec2 E w2 = (Inr u, w')"
    by (auto simp: drain_and_exit_def bindE_Inr_iff)
  from write_final_put [OF a] only_postsD [OF keeps_postsD [OF send_final_calls b]] self_terminate_calls [OF c]
  show ?thesis by (fastforce simp: new_calls_def final_snapshot_def)
qed

section \<open>Watching for a disconnect\<close>

lemma lifecycle_poll_outcome:
  assumes "ddb_ok E V" "lifecycle_poll E S K w = (r, w')"
  shows "rows V w' = rows V w \<and> trace w' = trace w"
    "r = Inr b \<Longrightarrow> b \<Longrightarrow>
      (case rows V w (cc_sessions_table K) (session_key_of K) of
         None \<Rightarrow> True
       | Some it \<Rightarrow> (let v = dget_or it ''status'' (PStr []); text = (case as_str v of Some s \<Rightarrow> s | None \<Rightarrow> su_show S v)
                   in lower (strip text) = ''disconnected''))"
proof -
  have k: "ddb_item (session_key_of K) = session_key_of K" by (simp add: session_key_of_def ddb_item_def)
  obtain i w1 where g: "get_item E (cc_sessions_table K) (session_key_of K) w = (i, w1)" by fastforce
  note gc = get_item_cases [OF assms(1) g, unfolded k]
  have "w' = w1" "\<exists>b. r = Inr b"
    using assms(2) g by (auto simp: lifecycle_poll_def tryE_def retE_def Let_def split: sum.splits option.splits)
  with gc show "rows V w' = rows V w \<and> trace w' = trace w" by simp
  show "r = Inr b \<Longrightarrow> b \<Longrightarrow>
      (case rows V w (cc_sessions_table K) (session_key_of K) of
         None \<Rightarrow> True
       | Some it \<Rightarrow> (let v = dget_or it ''status'' (PStr []); text = (case as_str v of Some s \<Rightarrow> s | None \<Rightarrow> su_show S v)
                   in lower (strip text) = ''disconnected''))"
    using assms(2) g gc(3) by (auto simp: lifecycle_poll_def tryE_def retE_def Let_def split: sum.splits option.splits)
qed

end
