(* ===== verification/Stream_Path.thy ===== *)
theory Stream_Path
  imports Transcriber_Stream Streaming_Router
begin

text \<open>
  The streaming path across components: the router (theory Streaming_Router) forwards the client's frames to
  the queue from which the container (theories Frame_Sequencer and Transcriber_Stream) reads, and both share
  the session row.
\<close>

section \<open>A frame on its way\<close>

lemma b64_letter_char: "n < 64 \<Longrightarrow> b64_letter (b64_char n)"
  by (auto simp: b64_letter_def b64_char_def Let_def)

lemma b64encode_length: "length (b64encode bs) mod 4 = 0"
  by (induction bs rule: b64encode.induct) auto

lemma b64encode_form:
  "list_all (\<lambda>b. b < 256) bs \<Longrightarrow>
   \<exists>ls pad. b64encode bs = ls @ pad \<and> list_all b64_letter ls \<and> (pad = [] \<or> pad = ''='' \<or> pad = ''=='')"
proof (induction bs rule: b64encode.induct)
  case (2 a)
  then have "a div 4 < 64" "a mod 4 * 16 < 64" by auto
  then show ?case
    by (intro exI [of _ "[b64_char (a div 4), b64_char (a mod 4 * 16)]"] exI [of _ "''==''"]) (simp add: b64_letter_char)
next
  case (3 a b)
  then have "a div 4 < 64" "a mod 4 * 16 + b div 16 < 64" "b mod 16 * 4 < 64" by auto
  then show ?case
    by (intro exI [of _ "[b64_char (a div 4), b64_char (a mod 4 * 16 + b div 16), b64_char (b mod 16 * 4)]"]
        exI [of _ "''=''"]) (simp add: b64_letter_char)
next
  case (4 a b c bs)
  then obtain ls pad where l: "b64encode bs = ls @ pad" "list_all b64_letter ls" "pad = [] \<or> pad = ''='' \<or> pad = ''==''"
    by auto
  from 4 have "a div 4 < 64" "a mod 4 * 16 + b div 16 < 64" "b mod 16 * 4 + c div 64 < 64" "c mod 64 < 64" by auto
  then show ?case
    using l by (intro exI [of _ "[b64_char (a div 4), b64_char (a mod 4 * 16 + b div 16), b64_char (b mod 16 * 4 + c div 64),
        b64_char (c mod 64)] @ ls"] exI [of _ pad]) (auto simp: b64_letter_char)
qed simp

lemma b64_letter_not_pad: "b64_letter c \<Longrightarrow> c \<noteq> CHR ''=''"
  by (auto simp: b64_letter_def)

lemma b64decode_strict_encode:
  assumes "list_all (\<lambda>b. b < 256) bs"
  shows "b64decode_strict (b64encode bs) = Some bs"
proof -
  obtain ls pad where l: "b64encode bs = ls @ pad" "list_all b64_letter ls" "pad = [] \<or> pad = ''='' \<or> pad = ''==''"
    using b64encode_form [OF assms] by (elim exE conjE) (rule that)
  have a: "\<forall>c\<in>set ls. c \<noteq> CHR ''=''" using l(2) b64_letter_not_pad by (auto simp: list_all_iff)
  have "takeWhile (\<lambda>c. c \<noteq> CHR ''='') ls = ls" "dropWhile (\<lambda>c. c \<noteq> CHR ''='') ls = []"
    using a by (simp_all add: takeWhile_eq_all_conv dropWhile_eq_Nil_conv)
  moreover have "takeWhile (\<lambda>c. c \<noteq> CHR ''='') pad = []" "dropWhile (\<lambda>c. c \<noteq> CHR ''='') pad = pad" using l(3) by auto
  ultimately have tw: "takeWhile (\<lambda>c. c \<noteq> CHR ''='') (b64encode bs) = ls" "dropWhile (\<lambda>c. c \<noteq> CHR ''='') (b64encode bs) = pad"
    unfolding l(1) using a by (simp_all add: takeWhile_append dropWhile_append)
  show ?thesis
    unfolding b64decode_strict_def Let_def tw using l(2,3) b64encode_length [of bs] b64_roundtrip [OF assms] by simp
qed

text \<open>
  C15. A frame survives the path from the client to the container: what the router puts on the queue for a
  body with a number and base64 audio is read by the consumer as that number with exactly those bytes, as
  long as the time the router stamped on it is not older than the cutoff.
\<close>

theorem routed_frame_arrives:
  assumes "map_of (frame_fields C body) ''pcm_b64'' = Some (PStr (b64encode pcm))" "map_of (frame_fields C body) ''seq'' = Some (PInt i)"
    and "pcm \<noteq> []" "list_all (\<lambda>b. b < 256) pcm" "0 \<le> i"
    and "q_parse_ts Q (isoformat now) = Some t" "q_started_at Q - stale_frame_cutoff_seconds \<le> t"
  shows "classify_envelope Q (frame_payload C cid body now) = Numbered i pcm"
proof -
  let ?p = "frame_payload C cid body now"
  have f: "dget ?p ''received_at'' = PStr (isoformat now)" "dget_or ?p ''pcm_b64'' (PStr []) = PStr (b64encode pcm)"
    "dget ?p ''seq'' = PInt i"
    using assms(1,2) by (simp_all add: frame_payload_def dget_or_def dget_def)
  have "\<not> is_stale Q ?p" using assms(6,7) f(1) by (simp add: is_stale_def)
  moreover have "b64encode pcm \<noteq> []" using assms(3) by (cases pcm rule: b64encode.cases) auto
  then have "nonempty_str (PStr (b64encode pcm)) = Some (b64encode pcm)" by simp
  moreover have "frame_number ?p = Some i" using f(3) assms(5) by (simp add: frame_number_def)
  ultimately show ?thesis using f(2) b64decode_strict_encode [OF assms(4)] by (simp add: classify_envelope_def)
qed

definition frame_demo_cfg :: stream_cfg where
  "frame_demo_cfg = stream_demo_cfg\<lparr>st_loads := (\<lambda>s. Some (PDict [(''seq'', PInt 7), (''pcm_b64'', PStr ''AAE='')]))\<rparr>"

theorem routed_frame_arrives_witness:
  "classify_envelope (script_queue []\<lparr>q_parse_ts := (\<lambda>s. Some 0)\<rparr>) (frame_payload frame_demo_cfg ''c'' (PStr ''{}'') 0) = Numbered 7 [0, 1]"
proof (rule routed_frame_arrives)
  have "b64encode [0, 1] = ''AAE=''" by code_simp
  then show "map_of (frame_fields frame_demo_cfg (PStr ''{}'')) ''pcm_b64'' = Some (PStr (b64encode [0, 1]))"
    by (simp add: frame_fields_def frame_demo_cfg_def)
  show "q_started_at (script_queue []\<lparr>q_parse_ts := \<lambda>s. Some 0\<rparr>) - stale_frame_cutoff_seconds \<le> (0::rat)"
    by (simp add: script_queue_def stale_frame_cutoff_seconds_def)
qed (simp_all add: frame_fields_def frame_demo_cfg_def script_queue_def)

section \<open>The transcript on request\<close>

text \<open>The attribute the router answers from.\<close>

definition answer_kept :: "string \<Rightarrow> item \<Rightarrow> (string \<Rightarrow> item \<Rightarrow> item option) \<Rightarrow> (string \<Rightarrow> item \<Rightarrow> item option) \<Rightarrow> bool" where
  "answer_kept tbl k v v' \<longleftrightarrow> dget (row_attrs (v' tbl k)) ''last_transcript'' = dget (row_attrs (v tbl k)) ''last_transcript''"

lemma preorder_answer_kept [simp]: "preorder_on_worlds (rows_rel V (answer_kept tbl k))"
  by (rule preorder_rows_rel) (simp_all add: answer_kept_def)

lemma key_has_no_answer: "map_of (session_key_of K) ''last_transcript'' = None" "ddb_item (session_key_of K) = session_key_of K"
  by (simp_all add: session_key_of_def ddb_item_def)

lemma keeps_answer_update:
  assumes "ddb_ok E V" "\<And>it. map_of (apply_upds us it) ''last_transcript'' = map_of it ''last_transcript''"
  shows "keeps (rows_rel V (answer_kept tbl k)) (update_item E t (session_key_of K) us c)"
proof (rule keeps_update_item [OF assms(1)])
  show "answer_kept tbl k a a" for a by (simp add: answer_kept_def)
  show "answer_kept tbl k v (store_row v t (ddb_item (session_key_of K)) (updated_row (session_key_of K) us (v t (ddb_item (session_key_of K)))))" for v
    using assms(2) key_has_no_answer
    by (auto simp: answer_kept_def store_row_apply updated_row_def dget_def dget_or_def row_attrs_def split: option.split)
qed

lemma rows_send [keeps_intros]:
  "preorder_on_worlds (rows_rel V R) \<Longrightarrow> keeps (rows_rel V R) (ws_send E K gone payload)"
  unfolding ws_send_def by (auto intro!: keeps_intros)

lemma rows_status [keeps_intros]:
  "preorder_on_worlds (rows_rel V R) \<Longrightarrow> keeps (rows_rel V R) (emit_status E K gone stage detail extra)"
  unfolding emit_status_def by (auto intro!: keeps_intros split: prod.split)

lemma rows_committed [keeps_intros]:
  assumes "preorder_on_worlds (rows_rel V R)"
  shows "keeps (rows_rel V R) (send_committed E K gone processed ts)"
  by (induction ts arbitrary: gone) (auto intro!: keeps_intros assms split: prod.split)

lemma rows_chunks [keeps_intros]:
  assumes "preorder_on_worlds (rows_rel V R)"
  shows "keeps (rows_rel V R) (send_chunks E K gone seq n cs)"
  by (induction cs arbitrary: gone seq) (auto intro!: keeps_intros assms split: prod.split)

lemma rows_final [keeps_intros]:
  assumes "preorder_on_worlds (rows_rel V R)"
  shows "keeps (rows_rel V R) (send_final E S K gone tokens processed reason)"
  unfolding send_final_def Let_def by (auto intro!: keeps_intros assms)

lemma rows_terminate [keeps_intros]:
  assumes "preorder_on_worlds (rows_rel V R)"
  shows "keeps (rows_rel V R) (self_terminate_ec2 E)"
  unfolding self_terminate_ec2_def by (auto intro!: keeps_intros assms split: option.split)

lemma rows_assets [keeps_intros]:
  assumes "preorder_on_worlds (rows_rel V R)"
  shows "keeps (rows_rel V R) (assert_ami_assets E S K gone paths)"
  by (induction paths) (auto intro!: keeps_intros assms)

lemma answer_update:
  assumes "ddb_ok E V"
  shows "keeps (rows_rel V (answer_kept tbl k)) (update_last_transcript_tokens E K tokens processed)"
  unfolding update_last_transcript_tokens_def Let_def
  by (auto intro!: keeps_intros keeps_answer_update assms split: option.split)

lemma answer_write_final:
  assumes "ddb_ok E V"
  shows "keeps (rows_rel V (answer_kept tbl k)) (write_final_tokens E K tokens processed committed status)"
  unfolding write_final_tokens_def by (auto intro!: keeps_intros keeps_answer_update assms)

lemma answer_drain:
  assumes "ddb_ok E V"
  shows "keeps (rows_rel V (answer_kept tbl k)) (drain_and_exit E S K audio gone reason status)"
  unfolding drain_and_exit_def by (auto intro!: keeps_intros answer_write_final assms split: prod.split)

lemma answer_pass:
  assumes "ddb_ok E V"
  shows "keeps (rows_rel V (answer_kept tbl k)) (stream_pass E S K pcm st)"
  unfolding stream_pass_def send_partial_def Let_def
  by (auto intro!: keeps_intros answer_update assms split: sum.split prod.split)

lemma answer_consume:
  assumes "ddb_ok E V"
  shows "keeps (rows_rel V (answer_kept tbl k)) (consume_frames E S K n chunks st)"
proof (induction chunks arbitrary: n st)
  case Nil
  then show ?case
    by (auto simp: normal_end_def intro!: keeps_intros answer_drain assms split: option.split)
next
  case (Cons pcm chunks)
  then show ?case
    by (auto simp: normal_end_def intro!: keeps_intros answer_drain answer_pass assms split: prod.split)
qed

lemma answer_run:
  assumes "ddb_ok E V"
  shows "keeps (rows_rel V (answer_kept tbl k)) (run_container E S K cuda chunks)"
proof -
  have "keeps (rows_rel V (answer_kept tbl k)) (start_container E S K cuda)"
    unfolding start_container_def load_model_phase_def read_prompt_seed_from_ddb_def Let_def
    by (auto intro!: keeps_intros assms split: sum.split)
  then show ?thesis
    unfolding run_container_def cancelled_start_def serve_frames_def
    by (auto intro!: keeps_intros answer_consume assms split: prod.split)
qed

text \<open>
  The transcript a client asks for is never the one the container keeps. The router answers from the
  attribute \<open>last_transcript\<close>; whatever a session transcribes, the container writes \<open>last_transcript_text\<close>, so a
  row without the first one is still answered with the empty text after the whole session.
\<close>

lemma transcript_request_misses_tokens:
  assumes "ddb_ok E V" "st_sessions_table C = cc_sessions_table K"
    and "map_of (row_attrs (rows V w (cc_sessions_table K) (session_key_of K))) ''last_transcript'' = None"
    and "run_container E S K cuda chunks w = (r, w1)"
    and "route_transcript_request E C (cc_session_id K) w1 = (Inr answer, w2)"
  shows "dget answer ''transcript'' = PStr []"
proof -
  have sk: "stream_key (cc_session_id K) = session_key_of K" by (simp add: stream_key_def session_key_of_def)
  note key = key_has_no_answer(2) [of K]
  have "rows_rel V (answer_kept (cc_sessions_table K) (session_key_of K)) w w1"
    by (rule keepsD [OF answer_run [OF assms(1)] assms(4)])
  then have kept: "dget (row_attrs (rows V w1 (cc_sessions_table K) (session_key_of K))) ''last_transcript'' = PNone"
    using assms(3) by (simp add: rows_rel_def answer_kept_def dget_def dget_or_def)
  from assms(5) obtain i w3 where g: "get_item E (st_sessions_table C) (stream_key (cc_session_id K)) w1 = (Inr i, w3)"
    and ans: "json_dumps [(''route'', PStr ''transcript-request''),
       (''transcript'', py_or (dget (row_attrs i) ''last_transcript'') (PStr []))] = Inr answer"
    by (auto simp: route_transcript_request_def bindE_Inr_iff liftE_def)
  have "i = rows V w1 (cc_sessions_table K) (session_key_of K)"
    using get_item_cases(3) [OF assms(1) g refl] by (simp add: sk key assms(2))
  with ans kept show ?thesis
    by (auto simp: json_dumps_def py_or_def dget_Cons split: if_splits)
qed

definition path_demo_cfg :: stream_cfg where
  "path_demo_cfg = stream_demo_cfg\<lparr>st_sessions_table := ''t''\<rparr>"

section \<open>A disconnect reaches the container\<close>

text \<open>
  Once the router has stored a disconnect, a poll of the container that can read the row sets the event that
  ends the session.
\<close>

lemma disconnect_reaches_container:
  assumes "ddb_ok E V" "st_sessions_table C = cc_sessions_table K"
    and "route_disconnect E C (cc_session_id K) (w, c) = (r, (w1, c1))" "rows V w1 \<noteq> rows V w"
    and "get_item E (cc_sessions_table K) (session_key_of K) w1 = (Inr i, w2)"
  shows "lifecycle_poll E S K w1 = (Inr True, w2)"
proof -
  have sk: "stream_key (cc_session_id K) = session_key_of K" by (simp add: stream_key_def session_key_of_def)
  note key = key_has_no_answer(2) [of K]
  from disconnect_outcome [OF assms(1,3)] assms(4) obtain row new where
    st: "rows V w1 = store_row (rows V w) (st_sessions_table C) (stream_key (cc_session_id K)) new"
    and new: "map_of new ''status'' = Some (PStr ''disconnected'')" by blast
  have "rows V w1 (cc_sessions_table K) (session_key_of K) = Some new"
    by (simp add: st store_row_apply sk assms(2))
  moreover have "i = rows V w1 (cc_sessions_table K) (session_key_of K)"
    using get_item_cases(3) [OF assms(1,5) refl] by (simp add: key)
  moreover have "lower (strip ''disconnected'') = ''disconnected''" by code_simp
  ultimately show ?thesis
    using assms(5) new by (simp add: lifecycle_poll_def tryE_def retE_def Let_def dget_or_def)
qed

end
