(* ===== verification/Summarization.thy ===== *)
theory Summarization
  imports Ingestion
begin

text \<open>
  The summarization service (\<^verbatim>\<open>services/summarization\<close>): its bearer gate (\<^verbatim>\<open>auth.py\<close>), the call of the
  language model (\<^verbatim>\<open>summarizer.py\<close>), the objects and rows it reads and writes (\<^verbatim>\<open>storage.py\<close>) and the
  routes (\<^verbatim>\<open>main.py\<close>). The model's answer and the objects of S3 are the answers of \<open>svc\<close>; an S3 object
  is answered as its bytes.
\<close>

section \<open>Text and bytes\<close>

text \<open>
  \<^verbatim>\<open>str.encode('utf-8')\<close> and the strict \<^verbatim>\<open>bytes.decode('utf-8')\<close>, on the texts of the development: characters
  up to \<open>255\<close>. \<open>None\<close> is the \<^verbatim>\<open>UnicodeDecodeError\<close>, or a character beyond them.
\<close>

definition utf8_char :: "char \<Rightarrow> string" where
  "utf8_char c = (let n = (of_char c :: nat) in
     if n < 128 then [c] else [char_of (192 + n div 64), char_of (128 + n mod 64)])"

definition utf8_encode :: "string \<Rightarrow> string" where
  "utf8_encode s = concat (map utf8_char s)"

fun utf8_decode :: "string \<Rightarrow> string option" where
  "utf8_decode [] = Some []"
| "utf8_decode (c # cs) =
     (let n = (of_char c :: nat) in
      if n < 128 then map_option (\<lambda>t. c # t) (utf8_decode cs)
      else if n = 194 \<or> n = 195 then
        (case cs of
           [] \<Rightarrow> None
         | d # ds \<Rightarrow>
             let m = (of_char d :: nat) in
             if 128 \<le> m \<and> m < 192 then map_option (\<lambda>t. char_of ((n - 192) * 64 + (m - 128)) # t) (utf8_decode ds)
             else None)
      else None)"

definition decode_body :: "pyval \<Rightarrow> exn + string" where
  "decode_body body =
     (case as_str body of
        None \<Rightarrow> Inl AttributeError
      | Some b \<Rightarrow>
          (case utf8_decode b of
             None \<Rightarrow> Inl (OtherError ''UnicodeDecodeError'' [])
           | Some t \<Rightarrow> Inr t))"

text \<open>\<^verbatim>\<open>str(v)\<close>: a string stands for itself, \<open>show_val\<close> renders the rest. \<^verbatim>\<open>d[k]\<close> and \<^verbatim>\<open>getattr(v, k, default)\<close>.\<close>

definition text_val :: "(pyval \<Rightarrow> string) \<Rightarrow> pyval \<Rightarrow> string" where
  "text_val show_val v = (case as_str v of Some s \<Rightarrow> s | None \<Rightarrow> show_val v)"

definition item_at :: "item \<Rightarrow> string \<Rightarrow> exn + pyval" where
  "item_at d k = (case map_of d k of None \<Rightarrow> Inl (KeyError k) | Some v \<Rightarrow> Inr v)"

definition attr_or :: "pyval \<Rightarrow> string \<Rightarrow> pyval \<Rightarrow> pyval" where
  "attr_or v k d = (case as_dict v of None \<Rightarrow> d | Some m \<Rightarrow> dget_or m k d)"

section \<open>Settings, requests and records\<close>

record sum_settings =
  sg_service_name :: string
  sg_transcripts_bucket :: string
  sg_summaries_bucket :: string
  sg_summaries_table :: string

datatype tier = Haiku | Sonnet

fun tier_str :: "tier \<Rightarrow> string" where
  "tier_str Haiku = ''haiku''"
| "tier_str Sonnet = ''sonnet''"

definition parse_tier :: "pyval \<Rightarrow> tier option" where
  "parse_tier v = parse_literal tier_str [Haiku, Sonnet] v"

record summarize_request =
  sq_transcript_id :: string
  sq_tier :: tier

definition parse_summarize :: "item \<Rightarrow> exn + summarize_request" where
  "parse_summarize body =
     (if \<not> set (map fst body) \<subseteq> {''transcript_id'', ''tier''} then Inl (HTTPException 422 ''extra fields'')
      else
        (case (as_str (dget body ''transcript_id''), parse_tier (dget_or body ''tier'' (PStr ''haiku''))) of
           (Some tid, Some tier) \<Rightarrow>
             if 1 \<le> length tid \<and> length tid \<le> 128 then Inr \<lparr>sq_transcript_id = tid, sq_tier = tier\<rparr>
             else Inl (HTTPException 422 ''transcript_id'')
         | _ \<Rightarrow> Inl (HTTPException 422 ''body'')))"

record summary_record =
  su_transcript_id :: string
  su_user_id :: string
  su_tier :: tier
  su_model :: string
  su_summary :: string
  su_s3_key :: string
  su_created_at :: int
  su_input_tokens :: int
  su_output_tokens :: int

section \<open>The language model\<close>

fun model_for_tier :: "tier \<Rightarrow> string" where
  "model_for_tier Haiku = ''claude-haiku-4-5''"
| "model_for_tier Sonnet = ''claude-sonnet-4-6''"

definition system_prompt :: string where
  "system_prompt = ''You are the Panakoes summarization service. Write a concise, faithful '' @
    ''summary of the user's transcript in Markdown. Use a short paragraph '' @
    ''for the gist, then a bulleted list of the main points. Do not invent '' @
    ''facts not present in the transcript. Do not add a preamble; start '' @
    ''directly with the summary.''"

definition claude_request :: "tier \<Rightarrow> string \<Rightarrow> item" where
  "claude_request tier text =
     [(''model'', PStr (model_for_tier tier)),
      (''max_tokens'', PInt 2048),
      (''system'', PList [PDict [(''type'', PStr ''text''), (''text'', PStr system_prompt),
         (''cache_control'', PDict [(''type'', PStr ''ephemeral'')])]]),
      (''messages'', PList [PDict [(''role'', PStr ''user''),
         (''content'', PList [PDict [(''type'', PStr ''text''),
            (''text'', PStr (''Summarize this transcript:'' @ [CHR 0x0A, CHR 0x0A] @ text))]])]])]"

record summary_result =
  sm_text :: string
  sm_model :: string
  sm_input_tokens :: int
  sm_output_tokens :: int

text \<open>The text blocks of the answer, joined and stripped; blocks of other types are skipped.\<close>

definition block_text :: "(pyval \<Rightarrow> string) \<Rightarrow> pyval \<Rightarrow> string" where
  "block_text show_val block =
     (if attr_or block ''type'' PNone \<noteq> PStr ''text'' then []
      else let v = attr_or block ''text'' (PStr []) in if truthy v then text_val show_val v else [])"

definition extract_text :: "(pyval \<Rightarrow> string) \<Rightarrow> pyval \<Rightarrow> exn + string" where
  "extract_text show_val response =
     (let content = attr_or response ''content'' PNone in
      if \<not> truthy content then Inr (strip [])
      else (case as_list content of
              None \<Rightarrow> Inl TypeError
            | Some blocks \<Rightarrow> Inr (strip (concat (map (block_text show_val) blocks)))))"

text \<open>\<^verbatim>\<open>int(getattr(usage, k, 0) or 0)\<close>.\<close>

definition usage_count :: "pyval \<Rightarrow> string \<Rightarrow> exn + int" where
  "usage_count response k =
     (case to_int (py_or (attr_or (attr_or response ''usage'' PNone) k (PInt 0)) (PInt 0)) of
        None \<Rightarrow> Inl (ValueError ''int'')
      | Some n \<Rightarrow> Inr n)"

definition claude_result :: "(pyval \<Rightarrow> string) \<Rightarrow> tier \<Rightarrow> pyval \<Rightarrow> exn + summary_result" where
  "claude_result show_val tier response =
     and_then (extract_text show_val response) (\<lambda>text.
     and_then (usage_count response ''input_tokens'') (\<lambda>i.
     and_then (usage_count response ''output_tokens'') (\<lambda>out.
     Inr \<lparr>sm_text = text, sm_model = model_for_tier tier, sm_input_tokens = i, sm_output_tokens = out\<rparr>)))"

definition claude_summarize :: "'t env \<Rightarrow> (pyval \<Rightarrow> string) \<Rightarrow> string \<Rightarrow> tier \<Rightarrow> ('t world, summary_result) io" where
  "claude_summarize E show_val text tier =
     bindE (invoke E (ClaudeMessages (claude_request tier text))) (\<lambda>response.
     liftE (claude_result show_val tier response))"

section \<open>The storage\<close>

definition transcript_key :: "string \<Rightarrow> string \<Rightarrow> string" where
  "transcript_key user_id transcript_id = ''transcripts/'' @ user_id @ ''/'' @ transcript_id @ ''.txt''"

definition summary_key :: "string \<Rightarrow> string \<Rightarrow> string" where
  "summary_key user_id transcript_id = ''summaries/'' @ user_id @ ''/'' @ transcript_id @ ''.md''"

definition summary_pk :: "string \<Rightarrow> string" where
  "summary_pk user_id = ''USER#'' @ user_id"

definition summary_sk :: "string \<Rightarrow> string" where
  "summary_sk transcript_id = ''SUMMARY#'' @ transcript_id"

definition summary_row_key :: "string \<Rightarrow> string \<Rightarrow> item" where
  "summary_row_key user_id transcript_id =
     [(''pk'', PStr (summary_pk user_id)), (''sk'', PStr (summary_sk transcript_id))]"

definition transcript_not_found :: "string \<Rightarrow> exn" where
  "transcript_not_found transcript_id = OtherError ''TranscriptNotFoundError'' transcript_id"

definition is_transcript_not_found :: "exn \<Rightarrow> bool" where
  "is_transcript_not_found e = (case e of OtherError cls _ \<Rightarrow> cls = ''TranscriptNotFoundError'' | _ \<Rightarrow> False)"

definition read_transcript :: "'t env \<Rightarrow> sum_settings \<Rightarrow> string \<Rightarrow> string \<Rightarrow> ('t world, string) io" where
  "read_transcript E S user_id transcript_id =
     tryE (invoke E (S3GetObject (sg_transcripts_bucket S) (transcript_key user_id transcript_id)))
       (\<lambda>e. if is_client_error e \<and> error_code e \<in> {''NoSuchKey'', ''404'', ''NoSuchBucket''}
            then raiseE (transcript_not_found transcript_id) else raiseE e)
       (\<lambda>body. liftE (decode_body body))"

definition summary_item :: "summary_record \<Rightarrow> item" where
  "summary_item r =
     [(''pk'', PStr (summary_pk (su_user_id r))),
      (''sk'', PStr (summary_sk (su_transcript_id r))),
      (''transcript_id'', PStr (su_transcript_id r)),
      (''user_id'', PStr (su_user_id r)),
      (''tier'', PStr (tier_str (su_tier r))),
      (''model'', PStr (su_model r)),
      (''s3_key'', PStr (su_s3_key r)),
      (''created_at'', PStr (isoformat (su_created_at r))),
      (''input_tokens'', PInt (su_input_tokens r)),
      (''output_tokens'', PInt (su_output_tokens r))]"

definition new_summary :: "string \<Rightarrow> string \<Rightarrow> tier \<Rightarrow> summary_result \<Rightarrow> int \<Rightarrow> summary_record" where
  "new_summary user_id transcript_id tier result now =
     \<lparr>su_transcript_id = transcript_id, su_user_id = user_id, su_tier = tier, su_model = sm_model result,
      su_summary = sm_text result, su_s3_key = summary_key user_id transcript_id, su_created_at = now,
      su_input_tokens = sm_input_tokens result, su_output_tokens = sm_output_tokens result\<rparr>"

definition write_summary :: "'t env \<Rightarrow> sum_settings \<Rightarrow> string \<Rightarrow> string \<Rightarrow> tier \<Rightarrow> summary_result \<Rightarrow>
    ('t world, summary_record) io" where
  "write_summary E S user_id transcript_id tier result =
     bindE (utcnow E) (\<lambda>created_at.
     bindE (invoke E (S3PutText (sg_summaries_bucket S) (summary_key user_id transcript_id)
              (utf8_encode (sm_text result)) ''text/markdown; charset=utf-8'')) (\<lambda>_.
     let record = new_summary user_id transcript_id tier result created_at in
     bindE (put_item E (sg_summaries_table S) (summary_item record) CTrue) (\<lambda>_. retE record)))"

text \<open>The record of a row: its fields, read in the order of the code, around the text fetched from S3.\<close>

definition summary_fields :: "'t env \<Rightarrow> (pyval \<Rightarrow> string) \<Rightarrow> item \<Rightarrow> string \<Rightarrow> string \<Rightarrow> exn + summary_record" where
  "summary_fields E show_val it s3_key summary_text =
     and_then (item_at it ''tier'') (\<lambda>tier_value.
     (case parse_tier (PStr (text_val show_val tier_value)) of
        None \<Rightarrow> Inl (ValueError ''unexpected tier value'')
      | Some tier \<Rightarrow>
          and_then (item_at it ''transcript_id'') (\<lambda>tid.
          and_then (item_at it ''user_id'') (\<lambda>uid.
          and_then (item_at it ''model'') (\<lambda>model.
          and_then (item_at it ''created_at'') (\<lambda>created.
          (case (parse_dt E (text_val show_val created), to_int (dget_or it ''input_tokens'' (PInt 0)),
                 to_int (dget_or it ''output_tokens'' (PInt 0))) of
             (Some c, Some i, Some out) \<Rightarrow>
               Inr \<lparr>su_transcript_id = text_val show_val tid, su_user_id = text_val show_val uid, su_tier = tier,
                    su_model = text_val show_val model, su_summary = summary_text, su_s3_key = s3_key,
                    su_created_at = c, su_input_tokens = i, su_output_tokens = out\<rparr>
           | _ \<Rightarrow> Inl (ValueError ''SummaryRecord''))))))))"

definition record_from_item :: "'t env \<Rightarrow> sum_settings \<Rightarrow> (pyval \<Rightarrow> string) \<Rightarrow> item \<Rightarrow> ('t world, summary_record) io" where
  "record_from_item E S show_val it =
     bindE (liftE (item_at it ''s3_key'')) (\<lambda>v.
     let s3_key = text_val show_val v in
     bindE (invoke E (S3GetObject (sg_summaries_bucket S) s3_key)) (\<lambda>obj.
     bindE (liftE (decode_body obj)) (\<lambda>summary_text.
     liftE (summary_fields E show_val it s3_key summary_text))))"

definition stored_summary :: "'t env \<Rightarrow> sum_settings \<Rightarrow> (pyval \<Rightarrow> string) \<Rightarrow> string \<Rightarrow> string \<Rightarrow>
    ('t world, summary_record option) io" where
  "stored_summary E S show_val user_id transcript_id =
     bindE (get_item E (sg_summaries_table S) (summary_row_key user_id transcript_id)) (\<lambda>i.
     (case i of
        None \<Rightarrow> retE None
      | Some it \<Rightarrow> bindE (record_from_item E S show_val it) (\<lambda>r. retE (Some r))))"

text \<open>\<^verbatim>\<open>str(last_key['sk']) if last_key else None\<close>: the cursor is the whole sort key.\<close>

definition summary_cursor :: "(pyval \<Rightarrow> string) \<Rightarrow> item option \<Rightarrow> exn + string option" where
  "summary_cursor show_val last_key =
     (case last_key of
        None \<Rightarrow> Inr None
      | Some k \<Rightarrow>
          if k = [] then Inr None
          else and_then (item_at k ''sk'') (\<lambda>v. Inr (Some (text_val show_val v))))"

definition stored_summaries :: "'t env \<Rightarrow> sum_settings \<Rightarrow> (pyval \<Rightarrow> string) \<Rightarrow> string \<Rightarrow> int \<Rightarrow> string option \<Rightarrow>
    ('t world, summary_record list \<times> string option) io" where
  "stored_summaries E S show_val user_id limit cursor =
     bindE (query_items E (sg_summaries_table S)
        \<lparr>q_index = None, q_hash = (''pk'', PStr (summary_pk user_id)), q_prefix = None, q_limit = Some limit,
         q_forward = True,
         q_start = map_option (\<lambda>c. [(''pk'', PStr (summary_pk user_id)), (''sk'', PStr c)]) cursor\<rparr>) (\<lambda>response.
     bindE (mapE (record_from_item E S show_val) (p_items response)) (\<lambda>records.
     bindE (liftE (summary_cursor show_val (p_last response))) (\<lambda>next_cursor.
     retE (records, next_cursor))))"

section \<open>The routes\<close>

definition sum_audit :: "sum_settings \<Rightarrow> string \<Rightarrow> string \<Rightarrow> string \<Rightarrow> string \<Rightarrow> item \<Rightarrow> audit_args" where
  "sum_audit S user_id action resource_type resource_id details =
     \<lparr>ra_actor_id = user_id, ra_actor_type = ''user'', ra_action = action, ra_resource_type = resource_type,
      ra_resource_id = resource_id, ra_source_service = sg_service_name S, ra_details = details\<rparr>"

definition failure_args :: "sum_settings \<Rightarrow> string \<Rightarrow> summarize_request \<Rightarrow> string \<Rightarrow> audit_args" where
  "failure_args S user_id body reason =
     sum_audit S user_id ''summarization.failed'' ''transcript'' (sq_transcript_id body)
       [(''reason'', PStr reason), (''tier'', PStr (tier_str (sq_tier body)))]"

definition completed_args :: "sum_settings \<Rightarrow> string \<Rightarrow> summarize_request \<Rightarrow> summary_result \<Rightarrow> audit_args" where
  "completed_args S user_id body result =
     sum_audit S user_id ''summarization.completed'' ''summary'' (sq_transcript_id body)
       [(''tier'', PStr (tier_str (sq_tier body))), (''model'', PStr (sm_model result)),
        (''input_tokens'', PInt (sm_input_tokens result)), (''output_tokens'', PInt (sm_output_tokens result))]"

definition summary_store :: "'t env \<Rightarrow> sum_settings \<Rightarrow> string \<Rightarrow> summarize_request \<Rightarrow> summary_result \<Rightarrow>
    ('t world, summary_record) io" where
  "summary_store E S user_id body result =
     bindE (write_summary E S user_id (sq_transcript_id body) (sq_tier body) result) (\<lambda>record.
     bindE (record_event E (completed_args S user_id body result)) (\<lambda>_. retE record))"

definition summarize :: "'t env \<Rightarrow> sum_settings \<Rightarrow> (pyval \<Rightarrow> string) \<Rightarrow> string \<Rightarrow> summarize_request \<Rightarrow>
    ('t world, summary_record) io" where
  "summarize E S show_val user_id body =
     tryE (read_transcript E S user_id (sq_transcript_id body))
       (\<lambda>e. if is_transcript_not_found e
            then bindE (record_event E (failure_args S user_id body ''transcript_not_found'')) (\<lambda>_.
                 raiseE (HTTPException 404 ''transcript not found''))
            else raiseE e)
       (\<lambda>transcript.
          tryE (claude_summarize E show_val transcript (sq_tier body))
            (\<lambda>e. bindE (record_event E (failure_args S user_id body ''anthropic_call_failed'')) (\<lambda>_. raiseE e))
            (summary_store E S user_id body))"

definition summary_not_found :: exn where
  "summary_not_found = HTTPException 404 ''summary not found''"

definition get_summary :: "'t env \<Rightarrow> sum_settings \<Rightarrow> (pyval \<Rightarrow> string) \<Rightarrow> string \<Rightarrow> string \<Rightarrow> ('t world, summary_record) io" where
  "get_summary E S show_val user_id transcript_id =
     bindE (stored_summary E S show_val user_id transcript_id) (\<lambda>r.
     (case r of None \<Rightarrow> raiseE summary_not_found | Some record \<Rightarrow> retE record))"

definition list_summaries :: "'t env \<Rightarrow> sum_settings \<Rightarrow> (pyval \<Rightarrow> string) \<Rightarrow> string \<Rightarrow> int \<Rightarrow> string option \<Rightarrow>
    ('t world, summary_record list \<times> string option) io" where
  "list_summaries E S show_val user_id limit cursor =
     (if limit < 1 \<or> 100 < limit then raiseE (HTTPException 422 ''limit'')
      else if \<not> (case cursor of None \<Rightarrow> True | Some c \<Rightarrow> 1 \<le> length c \<and> length c \<le> 256)
           then raiseE (HTTPException 422 ''cursor'')
      else stored_summaries E S show_val user_id limit cursor)"

section \<open>The bearer gate\<close>

text \<open>
  \<open>decode_req\<close> is \<^verbatim>\<open>jwt.decode\<close> with the list of claims it requires; every failure of the library is one
  answer. The credentials are what the framework parsed from the header: scheme and token.
\<close>

definition decode_token :: "(string \<Rightarrow> string list \<Rightarrow> string \<Rightarrow> string \<Rightarrow> string list \<Rightarrow> string \<Rightarrow> jwt_error + item) \<Rightarrow>
    string \<Rightarrow> jwt_settings \<Rightarrow> exn + item" where
  "decode_token decode_req token S =
     (if jwt_secret S = [] then Inl (unauthorized ''authentication is not configured'')
      else
        (case decode_req (jwt_secret S) [''HS256''] (jwt_issuer S) (jwt_audience S)
                [''exp'', ''iat'', ''sub'', ''iss'', ''aud''] token of
           Inl e \<Rightarrow> Inl (on_jwt_error (unauthorized ''invalid or expired token'') (unauthorized ''invalid or expired token'') e)
         | Inr claims \<Rightarrow>
             (case nonempty_str (dget claims ''sub'') of
                None \<Rightarrow> Inl (unauthorized ''token missing subject'')
              | Some _ \<Rightarrow> Inr claims)))"

definition current_user_id :: "(string \<Rightarrow> string list \<Rightarrow> string \<Rightarrow> string \<Rightarrow> string list \<Rightarrow> string \<Rightarrow> jwt_error + item) \<Rightarrow>
    (string \<times> string) option \<Rightarrow> jwt_settings \<Rightarrow> exn + string" where
  "current_user_id decode_req credentials S =
     (case credentials of
        None \<Rightarrow> Inl (unauthorized ''missing bearer token'')
      | Some (scheme, token) \<Rightarrow>
          if lower scheme \<noteq> ''bearer'' then Inl (unauthorized ''missing bearer token'')
          else and_then (decode_token decode_req token S) (\<lambda>claims.
            and_then (item_at claims ''sub'') (\<lambda>sub.
            (case as_str sub of None \<Rightarrow> Inl TypeError | Some s \<Rightarrow> Inr s))))"


section \<open>Lemmas\<close>

lemma utf8_char_decode: "utf8_decode (utf8_char c @ s) = map_option (\<lambda>t. c # t) (utf8_decode s)"
proof (cases "(of_char c :: nat) < 128")
  case False
  define n where "n = (of_char c :: nat)"
  have n: "128 \<le> n" "n < 256" using False nat_of_char_less_256 [of c] by (simp_all add: n_def)
  then have d: "n div 64 = 2 \<or> n div 64 = 3" by auto
  have hi: "(of_char (char_of (192 + n div 64) :: char) :: nat) = 192 + n div 64" using d by auto
  have lo: "(of_char (char_of (128 + n mod 64) :: char) :: nat) = 128 + n mod 64"
    using mod_less_divisor [of 64 n] by simp
  have c: "char_of (n div 64 * 64 + n mod 64) = c" by (simp add: n_def)
  have u: "utf8_char c @ s = char_of (192 + n div 64) # char_of (128 + n mod 64) # s"
    using n(1) by (simp add: utf8_char_def n_def [symmetric] Let_def)
  show ?thesis
    unfolding u utf8_decode.simps Let_def hi lo using d c mod_less_divisor [of 64 n] by auto
qed (simp add: utf8_char_def Let_def)

lemma utf8_roundtrip [simp]: "utf8_decode (utf8_encode s) = Some s"
  by (induction s) (simp_all add: utf8_encode_def utf8_char_decode)

lemma decode_body_encode [simp]: "decode_body (PStr (utf8_encode s)) = Inr s"
  by (simp add: decode_body_def)

lemma parse_tier_str [simp]: "parse_tier (PStr (tier_str t)) = Some t"
  by (cases t) (simp_all add: parse_tier_def parse_literal_def)

lemma text_val_str [simp]: "text_val show_val (PStr s) = s"
  by (simp add: text_val_def)

lemma ddb_summary_key [simp]: "ddb_item (summary_row_key u t) = summary_row_key u t"
  by (simp add: ddb_item_def summary_row_key_def)

text \<open>No object of one user lies under the prefix of another, as long as user identifiers have no slash.\<close>

lemma slash_free_prefix:
  assumes "CHR ''/'' \<notin> set u" "CHR ''/'' \<notin> set v" "u @ ''/'' @ a = v @ ''/'' @ b"
  shows "u = v \<and> a = b"
proof -
  have "takeWhile (\<lambda>c. c \<noteq> CHR ''/'') (u @ ''/'' @ a) = u" "takeWhile (\<lambda>c. c \<noteq> CHR ''/'') (v @ ''/'' @ b) = v"
    using assms(1,2) by (auto simp: takeWhile_append)
  with assms(3) show ?thesis by simp
qed

lemma user_objects_disjoint:
  assumes "CHR ''/'' \<notin> set u" "CHR ''/'' \<notin> set v"
  shows "summary_key u a = summary_key v b \<longleftrightarrow> u = v \<and> a = b"
    and "transcript_key u a = transcript_key v b \<longleftrightarrow> u = v \<and> a = b"
  using slash_free_prefix [OF assms, of "a @ ''.md''" "b @ ''.md''"]
    slash_free_prefix [OF assms, of "a @ ''.txt''" "b @ ''.txt''"]
  by (auto simp: summary_key_def transcript_key_def)

text \<open>The cursor of a page is accepted by the next request.\<close>

lemma summary_cursor_accepted:
  assumes "parse_summarize body = Inr rq"
  shows "1 \<le> length (summary_sk (sq_transcript_id rq)) \<and> length (summary_sk (sq_transcript_id rq)) \<le> 256"
  using assms by (auto simp: parse_summarize_def summary_sk_def split: if_splits option.splits)

text \<open>The subject is the one of a verified token that carries the required claims.\<close>

lemma current_user_id_sound:
  assumes "current_user_id decode_req credentials S = Inr uid"
  shows "jwt_secret S \<noteq> [] \<and> uid \<noteq> [] \<and> (\<exists>scheme token claims. credentials = Some (scheme, token) \<and> lower scheme = ''bearer'' \<and>
    decode_req (jwt_secret S) [''HS256''] (jwt_issuer S) (jwt_audience S) [''exp'', ''iat'', ''sub'', ''iss'', ''aud''] token = Inr claims \<and>
    map_of claims ''sub'' = Some (PStr uid))"
proof -
  obtain scheme token claims sub where c: "credentials = Some (scheme, token)" "lower scheme = ''bearer''"
      "decode_token decode_req token S = Inr claims" "map_of claims ''sub'' = Some (PStr uid)"
    using assms
    by (auto simp: current_user_id_def and_then_Inr_iff item_at_def split: option.splits if_splits prod.splits)
  from c(3) have "jwt_secret S \<noteq> []" "nonempty_str (dget claims ''sub'') \<noteq> None"
    "decode_req (jwt_secret S) [''HS256''] (jwt_issuer S) (jwt_audience S) [''exp'', ''iat'', ''sub'', ''iss'', ''aud''] token = Inr claims"
    by (auto simp: decode_token_def split: if_splits sum.splits option.splits)
  with c show ?thesis by (auto simp: dget_def dget_or_def split: if_splits)
qed

section \<open>What a request does\<close>

lemma summary_fields_stored:
  assumes "parse_dt E (isoformat (su_created_at r)) = Some (su_created_at r)"
  shows "summary_fields E show_val (ddb_item (summary_item r)) (su_s3_key r) (su_summary r) = Inr r"
  using assms by (simp add: summary_fields_def summary_item_def ddb_item_def item_at_def dget_or_def)

lemma write_summary_Inr:
  assumes "ddb_ok E V" "key_attrs E (sg_summaries_table S) = [''pk'', ''sk'']"
    and "write_summary E S uid tid tier result w = (Inr r, w')"
  shows "r = new_summary uid tid tier result (clock E (ticks w))"
    and "rows V w' = store_row (rows V w) (sg_summaries_table S) (summary_row_key uid tid) (ddb_item (summary_item r))"
    and "trace w' = trace w @ [S3PutText (sg_summaries_bucket S) (summary_key uid tid) (utf8_encode (sm_text result))
           ''text/markdown; charset=utf-8'']"
proof -
  let ?put = "S3PutText (sg_summaries_bucket S) (summary_key uid tid) (utf8_encode (sm_text result)) ''text/markdown; charset=utf-8''"
  obtain now w1 v w2 u where t: "utcnow E w = (Inr now, w1)" and p: "invoke E ?put w1 = (Inr v, w2)"
    and d: "put_item E (sg_summaries_table S) (summary_item r) CTrue w2 = (Inr u, w')"
    and r: "r = new_summary uid tid tier result now"
    using assms(3) by (auto simp: write_summary_def bindE_Inr_iff retE_def Let_def)
  from t have now: "now = clock E (ticks w)" "rows V w1 = rows V w" "trace w1 = trace w"
    by (auto simp: utcnow_def tick_def)
  have k: "ddb_item (key_of E (sg_summaries_table S) (summary_item r)) = summary_row_key uid tid"
    by (simp add: key_of_def assms(2) summary_item_def r new_summary_def dget_Cons ddb_item_def summary_row_key_def)
  show "r = new_summary uid tid tier result (clock E (ticks w))" using r now by simp
  show "rows V w' = store_row (rows V w) (sg_summaries_table S) (summary_row_key uid tid) (ddb_item (summary_item r))"
    using put_item_cases(1) [OF assms(1) d refl] invoke_cases(1) [OF p, of V] now(2) k by (simp add: write_outcome_simps)
  show "trace w' = trace w @ [?put]"
    using put_item_cases(2) [OF assms(1) d refl] invoke_cases(2) [OF p] now(3) by simp
qed


text \<open>The calls of the audit library.\<close>

definition audit_call :: "call \<Rightarrow> bool" where
  "audit_call c = (case c of AuditStdout _ \<Rightarrow> True | AuditMemory _ \<Rightarrow> True | _ \<Rightarrow> False)"

lemma audited_trace:
  assumes "record_event E a w = (r, w')"
  shows "\<exists>cs. trace w' = trace w @ cs \<and> list_all audit_call cs"
  using keepsD [OF record_event_calls assms, of audit_call] by (auto simp: audit_call_def only_calls_def)

definition summary_put :: "sum_settings \<Rightarrow> string \<Rightarrow> string \<Rightarrow> string \<Rightarrow> call" where
  "summary_put S user_id transcript_id text =
     S3PutText (sg_summaries_bucket S) (summary_key user_id transcript_id) (utf8_encode text) ''text/markdown; charset=utf-8''"

text \<open>The table holds what it held, or also the row of a summary whose text was written before.\<close>

definition stored_after_text :: "sum_settings \<Rightarrow> string \<Rightarrow> string \<Rightarrow> call list \<Rightarrow> (item \<Rightarrow> item option) \<Rightarrow> (item \<Rightarrow> item option) \<Rightarrow> bool" where
  "stored_after_text S uid tid calls before after \<longleftrightarrow>
     after = before \<or>
     (\<exists>r. su_user_id r = uid \<and> su_transcript_id r = tid \<and> su_s3_key r = summary_key uid tid \<and>
        after = before(summary_row_key uid tid \<mapsto> ddb_item (summary_item r)) \<and> summary_put S uid tid (su_summary r) \<in> set calls)"

lemma write_summary_any:
  assumes "ddb_ok E V" "key_attrs E (sg_summaries_table S) = [''pk'', ''sk'']"
    and "write_summary E S uid tid tier result w = (out, w')"
  shows "trace w' = trace w @ [summary_put S uid tid (sm_text result)]"
    and "stored_after_text S uid tid [summary_put S uid tid (sm_text result)]
      (rows V w (sg_summaries_table S)) (rows V w' (sg_summaries_table S))"
proof -
  let ?put = "summary_put S uid tid (sm_text result)" and ?T = "sg_summaries_table S"
  define r where "r = new_summary uid tid tier result (clock E (ticks w))"
  obtain w1 where t: "utcnow E w = (Inr (clock E (ticks w)), w1)" by (simp add: utcnow_def tick_def)
  then have w1: "rows V w1 = rows V w" "trace w1 = trace w" by (auto simp: utcnow_def tick_def)
  obtain a w2 where p: "invoke E ?put w1 = (a, w2)" by force
  have w2: "rows V w2 = rows V w" "trace w2 = trace w @ [?put]"
    using invoke_cases(1) [OF p, of V] invoke_cases(2) [OF p] w1 by simp_all
  have k: "ddb_item (key_of E ?T (summary_item r)) = summary_row_key uid tid"
    by (simp add: key_of_def assms(2) summary_item_def r_def new_summary_def dget_Cons ddb_item_def summary_row_key_def)
  have "trace w' = trace w @ [?put] \<and>
      (rows V w' ?T = rows V w ?T \<or> rows V w' ?T = (rows V w ?T)(summary_row_key uid tid \<mapsto> ddb_item (summary_item r)))"
  proof (cases a)
    case (Inl e)
    then have "w' = w2" using assms(3) t p by (simp add: write_summary_def summary_put_def bindE_def)
    with w2 show ?thesis by simp
  next
    case (Inr v)
    obtain d w3 where d: "put_item E ?T (summary_item r) CTrue w2 = (d, w3)" by force
    have "w' = w3" using assms(3) t p Inr d
      by (cases d) (auto simp: write_summary_def summary_put_def bindE_def r_def retE_def Let_def)
    moreover have "rows V w3 = rows V w2 \<or> rows V w3 = store_row (rows V w2) ?T (summary_row_key uid tid) (ddb_item (summary_item r))"
      using write_outcome_weak [OF put_item_cases(1) [OF assms(1) d refl]] k by auto
    ultimately show ?thesis using w2 put_item_cases(2) [OF assms(1) d refl] by (auto simp: store_row_def)
  qed
  then show "trace w' = trace w @ [?put]"
    and "stored_after_text S uid tid [?put] (rows V w ?T) (rows V w' ?T)"
    by (auto simp: stored_after_text_def r_def new_summary_def intro!: exI [of _ r])
qed

lemma read_transcript_cases:
  assumes "read_transcript E S uid tid w = (x, w')"
  shows "w' = w\<lparr>trace := trace w @ [S3GetObject (sg_transcripts_bucket S) (transcript_key uid tid)]\<rparr>"
    and "x = Inr text \<Longrightarrow> \<exists>body. svc E (trace w) (S3GetObject (sg_transcripts_bucket S) (transcript_key uid tid)) = Inr body \<and>
      decode_body body = Inr text"
  using assms by (auto simp: read_transcript_def tryE_def invoke_def raiseE_def liftE_def split: sum.splits if_splits)

lemma claude_summarize_cases:
  assumes "claude_summarize E show_val text tier w = (x, w')"
  shows "w' = w\<lparr>trace := trace w @ [ClaudeMessages (claude_request tier text)]\<rparr>"
    and "x = Inr result \<Longrightarrow> \<exists>ans. svc E (trace w) (ClaudeMessages (claude_request tier text)) = Inr ans \<and>
      claude_result show_val tier ans = Inr result"
  using assms by (auto simp: claude_summarize_def bindE_def invoke_def liftE_def split: sum.splits)

lemma stored_after_text_refl [simp]: "stored_after_text S uid tid cs f f"
  by (simp add: stored_after_text_def)

lemma stored_after_text_more:
  "stored_after_text S uid tid cs f g \<Longrightarrow> set cs \<subseteq> set ds \<Longrightarrow> stored_after_text S uid tid ds f g"
  by (auto simp: stored_after_text_def)

lemma rows_trace [simp]: "rows V (w\<lparr>trace := t\<rparr>) = rows V w"
  by simp

lemma summary_store_cases:
  assumes "ddb_ok E V" "key_attrs E (sg_summaries_table S) = [''pk'', ''sk'']" "audit_table (audit_cfg E) \<noteq> sg_summaries_table S"
    and "summary_store E S uid rq result w = (out, w')"
  shows "summary_put S uid (sq_transcript_id rq) (sm_text result) \<in> set (new_calls w w')"
    and "trace w' = trace w @ new_calls w w'"
    and "stored_after_text S uid (sq_transcript_id rq) (new_calls w w') (rows V w (sg_summaries_table S)) (rows V w' (sg_summaries_table S))"
    and "out = Inr r \<Longrightarrow> r = new_summary uid (sq_transcript_id rq) (sq_tier rq) result (clock E (ticks w)) \<and>
      rows V w' (sg_summaries_table S) = (rows V w (sg_summaries_table S))(summary_row_key uid (sq_transcript_id rq) \<mapsto> ddb_item (summary_item r))"
proof -
  let ?T = "sg_summaries_table S" and ?tid = "sq_transcript_id rq" and ?put = "summary_put S uid (sq_transcript_id rq) (sm_text result)"
  obtain x w1 where x: "write_summary E S uid ?tid (sq_tier rq) result w = (x, w1)" by force
  note wr = write_summary_any [OF assms(1,2) x]
  have "\<exists>cs. trace w' = trace w @ ?put # cs \<and> rows V w' ?T = rows V w1 ?T \<and>
     (\<forall>r. out = Inr r \<longrightarrow> x = Inr r)"
  proof (cases x)
    case (Inl e)
    then show ?thesis using assms(4) x wr(1) by (simp add: summary_store_def bindE_def)
  next
    case (Inr rec)
    obtain y w2 where y: "record_event E (completed_args S uid rq result) w1 = (y, w2)" by force
    have "w' = w2 \<and> (\<forall>r. out = Inr r \<longrightarrow> r = rec)" using assms(4) x Inr y
      by (cases y) (auto simp: summary_store_def bindE_def retE_def)
    with audited_trace [OF y] record_event_other_tables [OF assms(1) y, of ?T] assms(3) wr(1) Inr
    show ?thesis by (auto simp: eq_commute)
  qed
  then obtain cs where cs: "trace w' = trace w @ ?put # cs" "rows V w' ?T = rows V w1 ?T" "\<And>r. out = Inr r \<Longrightarrow> x = Inr r"
    by blast
  then show "?put \<in> set (new_calls w w')" "trace w' = trace w @ new_calls w w'"
    by (simp_all add: new_calls_def)
  show "stored_after_text S uid ?tid (new_calls w w') (rows V w ?T) (rows V w' ?T)"
    using stored_after_text_more [OF wr(2)] cs(1,2) by (simp add: new_calls_def)
  show "out = Inr r \<Longrightarrow> r = new_summary uid ?tid (sq_tier rq) result (clock E (ticks w)) \<and>
      rows V w' ?T = (rows V w ?T)(summary_row_key uid ?tid \<mapsto> ddb_item (summary_item r))"
    using write_summary_Inr(1,2) [OF assms(1,2)] x cs(2,3) by (auto simp: store_row_def)
qed


lemma put_not_audit: "list_all audit_call cs \<Longrightarrow> summary_put S u t x \<notin> set cs"
  by (auto simp: list_all_iff audit_call_def summary_put_def)

lemma claude_not_audit: "list_all audit_call cs \<Longrightarrow> ClaudeMessages q \<notin> set cs"
  by (auto simp: list_all_iff audit_call_def)

lemma summary_store_text:
  assumes "ddb_ok E V" "key_attrs E (sg_summaries_table S) = [''pk'', ''sk'']" "audit_table (audit_cfg E) \<noteq> sg_summaries_table S"
    and "summary_store E S uid rq result w = (out, w')" "summary_put S uid (sq_transcript_id rq) t \<in> set (new_calls w w')"
  shows "sm_text result = t"
proof -
  let ?put = "summary_put S uid (sq_transcript_id rq)"
  obtain x w1 where x: "write_summary E S uid (sq_transcript_id rq) (sq_tier rq) result w = (x, w1)" by force
  have "\<exists>cs. trace w' = trace w1 @ cs \<and> list_all audit_call cs"
  proof (cases x)
    case (Inl e)
    then show ?thesis using assms(4) x by (simp add: summary_store_def bindE_def)
  next
    case (Inr rec)
    obtain y w2 where y: "record_event E (completed_args S uid rq result) w1 = (y, w2)" by force
    have "w' = w2" using assms(4) x Inr y by (cases y) (auto simp: summary_store_def bindE_def retE_def)
    with audited_trace [OF y] show ?thesis by simp
  qed
  then obtain cs where cs: "trace w' = trace w1 @ cs" "list_all audit_call cs" by blast
  have "?put t = ?put (sm_text result)"
    using assms(5) put_not_audit [OF cs(2), of S uid "sq_transcript_id rq" t] write_summary_any(1) [OF assms(1,2) x] cs(1)
    by (simp add: new_calls_def)
  then have "utf8_encode t = utf8_encode (sm_text result)" by (simp add: summary_put_def)
  then have "utf8_decode (utf8_encode t) = utf8_decode (utf8_encode (sm_text result))" by simp
  then show ?thesis by simp
qed

definition fetch_transcript :: "sum_settings \<Rightarrow> string \<Rightarrow> string \<Rightarrow> call" where
  "fetch_transcript S user_id transcript_id =
     S3GetObject (sg_transcripts_bucket S) (transcript_key user_id transcript_id)"

text \<open>The model's answer on the caller's transcript, after the calls \<open>pre\<close>.\<close>

definition model_answer :: "'t env \<Rightarrow> sum_settings \<Rightarrow> (pyval \<Rightarrow> string) \<Rightarrow> string \<Rightarrow> summarize_request \<Rightarrow> call list \<Rightarrow>
    summary_result \<Rightarrow> bool" where
  "model_answer E S show_val uid rq pre result \<longleftrightarrow>
     (\<exists>body text ans. svc E pre (fetch_transcript S uid (sq_transcript_id rq)) = Inr body \<and> decode_body body = Inr text \<and>
        svc E (pre @ [fetch_transcript S uid (sq_transcript_id rq)]) (ClaudeMessages (claude_request (sq_tier rq) text)) = Inr ans \<and>
        claude_result show_val (sq_tier rq) ans = Inr result)"

lemma new_calls_from:
  assumes "trace w1 = trace w @ cs" "trace w' = trace w1 @ ds"
  shows "new_calls w w' = cs @ ds"
  using assms by (simp add: new_calls_def)

lemma summarize_missing:
  assumes "svc E (trace w) (fetch_transcript S uid (sq_transcript_id rq)) = Inl e" "is_client_error e"
    and "error_code e \<in> {''NoSuchKey'', ''404'', ''NoSuchBucket''}"
  shows "summarize E S show_val uid rq w =
     bindE (record_event E (failure_args S uid rq ''transcript_not_found'')) (\<lambda>_. raiseE (HTTPException 404 ''transcript not found''))
       (w\<lparr>trace := trace w @ [fetch_transcript S uid (sq_transcript_id rq)]\<rparr>)"
  using assms
  by (simp add: summarize_def read_transcript_def tryE_def invoke_def raiseE_def fetch_transcript_def is_transcript_not_found_def
      transcript_not_found_def)

lemma audit_then_raise_cases:
  assumes "ddb_ok E V" "audit_table (audit_cfg E) \<noteq> T"
    and "bindE (record_event E a) (\<lambda>_. raiseE e) w = (out, w')"
  shows "rows V w' T = rows V w T" "\<exists>cs. trace w' = trace w @ cs \<and> list_all audit_call cs" "\<nexists>r. out = Inr r"
    "out = (case fst (record_event E a w) of Inl e' \<Rightarrow> Inl e' | Inr _ \<Rightarrow> Inl e)"
proof -
  obtain y w2 where y: "record_event E a w = (y, w2)" by force
  have "w' = w2 \<and> out = (case y of Inl e' \<Rightarrow> Inl e' | Inr _ \<Rightarrow> Inl e)" using assms(3) y
    by (cases y) (auto simp: bindE_def raiseE_def)
  with audited_trace [OF y] record_event_other_tables [OF assms(1) y, of T] assms(2) y
  show "rows V w' T = rows V w T" "\<exists>cs. trace w' = trace w @ cs \<and> list_all audit_call cs" "\<nexists>r. out = Inr r"
    "out = (case fst (record_event E a w) of Inl e' \<Rightarrow> Inl e' | Inr _ \<Rightarrow> Inl e)"
    by (auto simp: eq_commute split: sum.splits)
qed

lemma summarize_cases:
  assumes "ddb_ok E V" "audit_table (audit_cfg E) \<noteq> sg_summaries_table S"
    and "summarize E S show_val uid rq w = (out, w')"
  obtains (nothing) cs where "rows V w' (sg_summaries_table S) = rows V w (sg_summaries_table S)" "\<nexists>r. out = Inr r"
      "trace w' = trace w @ cs" "\<And>x. summary_put S uid (sq_transcript_id rq) x \<notin> set cs"
  | (stored) tx result w2 where "model_answer E S show_val uid rq (trace w) result"
      "summary_store E S uid rq result w2 = (out, w')" "rows V w2 = rows V w" "ticks w2 = ticks w"
      "trace w2 = trace w @ [fetch_transcript S uid (sq_transcript_id rq), ClaudeMessages (claude_request (sq_tier rq) tx)]"
proof -
  let ?T = "sg_summaries_table S" and ?get = "fetch_transcript S uid (sq_transcript_id rq)"
  obtain x w1 where x: "read_transcript E S uid (sq_transcript_id rq) w = (x, w1)" by force
  note rd = read_transcript_cases [OF x, folded fetch_transcript_def]
  have get: "\<And>x. summary_put S uid (sq_transcript_id rq) x \<noteq> ?get" by (simp add: summary_put_def fetch_transcript_def)
  show thesis
  proof (cases x)
    case (Inl e)
    show thesis
    proof (cases "is_transcript_not_found e")
      case True
      then have "bindE (record_event E (failure_args S uid rq ''transcript_not_found'')) (\<lambda>_. raiseE (HTTPException 404 ''transcript not found'')) w1 = (out, w')"
        using assms(3) x Inl by (simp add: summarize_def tryE_def)
      note a = audit_then_raise_cases [OF assms(1,2) this]
      obtain cs where cs: "trace w' = trace w1 @ cs" "list_all audit_call cs" using a(2) by blast
      show thesis
        by (rule nothing) (use a(1,3) rd(1) cs get put_not_audit [OF cs(2)] in auto)
    next
      case False
      then have fin: "out = Inl e" "w' = w1" using assms(3) x Inl by (simp_all add: summarize_def tryE_def raiseE_def)
      show thesis
        by (rule nothing) (use rd(1) get fin in auto)
    qed
  next
    case (Inr tx)
    obtain y w2 where y: "claude_summarize E show_val tx (sq_tier rq) w1 = (y, w2)" by force
    note cl = claude_summarize_cases [OF y]
    have tr2: "trace w2 = trace w @ [?get, ClaudeMessages (claude_request (sq_tier rq) tx)]" using cl(1) rd(1) by simp
    have ask: "\<And>x. summary_put S uid (sq_transcript_id rq) x \<noteq> ClaudeMessages (claude_request (sq_tier rq) tx)"
      by (simp add: summary_put_def)
    have same: "rows V w2 = rows V w" "ticks w2 = ticks w" using cl(1) rd(1) by simp_all
    show thesis
    proof (cases y)
      case (Inl e)
      then have "bindE (record_event E (failure_args S uid rq ''anthropic_call_failed'')) (\<lambda>_. raiseE e) w2 = (out, w')"
        using assms(3) x Inr y by (simp add: summarize_def tryE_def)
      note a = audit_then_raise_cases [OF assms(1,2) this]
      obtain cs where cs: "trace w' = trace w2 @ cs" "list_all audit_call cs" using a(2) by blast
      show thesis
        by (rule nothing) (use a(1,3) same tr2 cs get ask put_not_audit [OF cs(2)] in auto)
    next
      case (Inr result)
      have "model_answer E S show_val uid rq (trace w) result"
        using rd(2) [of tx] cl(2) [of result] \<open>x = Inr tx\<close> Inr rd(1) by (auto simp: model_answer_def fetch_transcript_def)
      moreover have "summary_store E S uid rq result w2 = (out, w')"
        using assms(3) x \<open>x = Inr tx\<close> y Inr by (simp add: summarize_def tryE_def)
      ultimately show thesis using same tr2 by (rule stored)
    qed
  qed
qed


text \<open>An identifier of blanks passes the request's validation, but the audit log refuses it: no answer is given.\<close>

lemma blank_transcript_id_fails:
  assumes "strip (sq_transcript_id rq) = []"
  shows "\<nexists>r w'. summarize E S show_val uid rq w = (Inr r, w')"
proof -
  have no: "record_event E (sum_audit S uid action rt (sq_transcript_id rq) details) w1 \<noteq> (Inr ev, w2)" for action rt details w1 ev w2
    using assms by (auto simp: record_event_eq bindE_Inr_iff liftE_def make_audit_event_def sum_audit_def split: if_splits)
  then show ?thesis
    by (auto simp: summarize_def tryE_iff bindE_Inr_iff raiseE_def summary_store_def failure_args_def completed_args_def split: if_splits)
qed

section \<open>Tenant isolation\<close>

datatype summary_call =
    Summarize summarize_request
  | GetSummary string
  | ListSummaries int "string option"

fun serve_summary :: "'t env \<Rightarrow> sum_settings \<Rightarrow> (pyval \<Rightarrow> string) \<Rightarrow> string \<Rightarrow> summary_call \<Rightarrow> ('t world, unit) io" where
  "serve_summary E S show_val uid (Summarize rq) = bindE (summarize E S show_val uid rq) (\<lambda>_. retE ())"
| "serve_summary E S show_val uid (GetSummary tid) = bindE (get_summary E S show_val uid tid) (\<lambda>_. retE ())"
| "serve_summary E S show_val uid (ListSummaries limit cursor) = bindE (list_summaries E S show_val uid limit cursor) (\<lambda>_. retE ())"

lemma keeps_record_from_item:
  "preorder_on_worlds (rows_rel V R) \<Longrightarrow> (\<And>a. R a a) \<Longrightarrow> keeps (rows_rel V R) (record_from_item E S show_val it)"
  unfolding record_from_item_def Let_def by (intro keeps_intros) auto

lemma ddb_summary_item_key:
  "key_attrs E tbl = [''pk'', ''sk''] \<Longrightarrow>
     ddb_item (key_of E tbl (summary_item r)) = summary_row_key (su_user_id r) (su_transcript_id r)"
  by (simp add: key_of_def summary_item_def dget_Cons ddb_item_def summary_row_key_def)

lemma keeps_serve_summary:
  assumes "tenant_table E V (sg_summaries_table S) [''pk'', ''sk'']"
  shows "keeps (rows_rel V (rows_protected (sg_summaries_table S) owned_partition uid)) (serve_summary E S show_val uid c)"
proof (cases c)
  case (Summarize rq)
  have key: "key_attrs E (sg_summaries_table S) = [''pk'', ''sk'']" using assms by (simp add: tenant_table_def)
  have "keeps (rows_rel V (rows_protected (sg_summaries_table S) owned_partition uid))
     (put_item E (sg_summaries_table S) (summary_item (new_summary uid tid tier result n)) CTrue)" for tid tier result n
    by (rule keeps_put_item [OF tenant_table_ddb [OF assms] _ refl])
      (auto simp: rows_protected_def store_row_apply ddb_summary_item_key [OF key] new_summary_def owned_partition_def
        summary_row_key_def dget_Cons summary_pk_def user_pk_def)
  then show ?thesis
    unfolding Summarize serve_summary.simps summarize_def summary_store_def write_summary_def read_transcript_def
      claude_summarize_def Let_def
    by (auto intro!: keeps_intros rows_protected_preorder keeps_audit_protected [OF assms])
next
  case (GetSummary tid)
  then show ?thesis
    by (auto simp: get_summary_def stored_summary_def
        intro!: keeps_intros rows_protected_preorder tenant_table_ddb [OF assms] keeps_record_from_item split: option.split)
next
  case (ListSummaries limit cursor)
  then show ?thesis
    by (auto simp: list_summaries_def stored_summaries_def
        intro!: keeps_intros rows_protected_preorder tenant_table_ddb [OF assms] keeps_record_from_item split: option.split)
qed

interpretation summarization: owner_scoped "tenant_table E V (sg_summaries_table S) [''pk'', ''sk'']" V
    "sg_summaries_table S" owned_partition "serve_summary E S show_val" for E V S show_val
  by unfold_locales (rule keeps_serve_summary)

lemma summaries_isolated:
  assumes "tenant_table E V (sg_summaries_table S) [''pk'', ''sk'']"
    and "rows V w (sg_summaries_table S) k = Some row" "owned_partition owner k row"
    and "owner \<notin> fst ` set history"
  shows "rows V (serve_all (serve_summary E S show_val) history w) (sg_summaries_table S) k = Some row"
  using assms by (rule summarization.isolated_history)


section \<open>Properties\<close>

definition sum_demo_settings :: sum_settings where
  "sum_demo_settings = \<lparr>sg_service_name = ''summarization'', sg_transcripts_bucket = ''t'', sg_summaries_bucket = ''s'',
     sg_summaries_table = ''panakoes-dev-summaries''\<rparr>"

definition sum_demo_answer :: pyval where
  "sum_demo_answer = PDict [(''content'', PList [PDict [(''type'', PStr ''text''), (''text'', PStr ''ok'')]]),
     (''usage'', PDict [(''input_tokens'', PInt 7), (''output_tokens'', PInt 2)])]"

definition sum_demo_svc :: "call list \<Rightarrow> call \<Rightarrow> exn + pyval" where
  "sum_demo_svc pre c =
     (case c of
        S3GetObject b k \<Rightarrow> Inr (PStr (if b = ''t'' then ''hello'' else ''ok''))
      | ClaudeMessages rq \<Rightarrow> Inr sum_demo_answer
      | _ \<Rightarrow> Inr PNone)"

definition sum_demo_env :: "mem env" where
  "sum_demo_env = mem_env (\<lambda>t. [''pk'', ''sk'']) sum_demo_svc"

definition sum_demo_world :: "mem world" where
  "sum_demo_world = \<lparr>db = (\<lambda>t k. None), trace = [], ticks = 0\<rparr>"

definition sum_demo_request :: summarize_request where
  "sum_demo_request = \<lparr>sq_transcript_id = ''tr1'', sq_tier = Haiku\<rparr>"

text \<open>
  C18. What \<open>POST /summarize\<close> does, however it ends. The summaries table keeps its content, or holds in
  addition the caller's row for this transcript, whose text was handed to S3 before; a text is only ever
  handed to S3 when it is the language model's answer on the caller's transcript; the record answered is the
  one stored, with that text and the token counts of the answer; and a transcript that S3 does not have ends
  in the audited 404, without a call of the model.
\<close>

theorem summarize_outcome:
  assumes "ddb_ok E V" "key_attrs E (sg_summaries_table S) = [''pk'', ''sk'']"
    and "audit_table (audit_cfg E) \<noteq> sg_summaries_table S"
    and "summarize E S show_val uid rq w = (out, w')"
  shows "stored_after_text S uid (sq_transcript_id rq) (new_calls w w')
        (rows V w (sg_summaries_table S)) (rows V w' (sg_summaries_table S)) \<and>
      (\<forall>tx. summary_put S uid (sq_transcript_id rq) tx \<in> set (new_calls w w') \<longrightarrow>
        (\<exists>result. model_answer E S show_val uid rq (trace w) result \<and> sm_text result = tx)) \<and>
      (\<forall>r. out = Inr r \<longrightarrow>
        (\<exists>result. model_answer E S show_val uid rq (trace w) result \<and>
           r = new_summary uid (sq_transcript_id rq) (sq_tier rq) result (clock E (ticks w))) \<and>
        summary_put S uid (sq_transcript_id rq) (su_summary r) \<in> set (new_calls w w') \<and>
        rows V w' (sg_summaries_table S) = (rows V w (sg_summaries_table S))
          (summary_row_key uid (sq_transcript_id rq) \<mapsto> ddb_item (summary_item r))) \<and>
      (\<forall>e q. svc E (trace w) (fetch_transcript S uid (sq_transcript_id rq)) = Inl e \<longrightarrow> is_client_error e \<longrightarrow>
        error_code e \<in> {''NoSuchKey'', ''404'', ''NoSuchBucket''} \<longrightarrow>
        out = (case fst (record_event E (failure_args S uid rq ''transcript_not_found'')
                 (w\<lparr>trace := trace w @ [fetch_transcript S uid (sq_transcript_id rq)]\<rparr>)) of
                 Inl e' \<Rightarrow> Inl e' | Inr _ \<Rightarrow> Inl (HTTPException 404 ''transcript not found'')) \<and>
        ClaudeMessages q \<notin> set (new_calls w w'))"
proof -
  let ?T = "sg_summaries_table S" and ?tid = "sq_transcript_id rq"
  let ?stored = "stored_after_text S uid ?tid (new_calls w w') (rows V w ?T) (rows V w' ?T)"
  let ?answered = "\<lambda>r. (\<exists>result. model_answer E S show_val uid rq (trace w) result \<and>
           r = new_summary uid ?tid (sq_tier rq) result (clock E (ticks w))) \<and>
         summary_put S uid ?tid (su_summary r) \<in> set (new_calls w w') \<and>
         rows V w' ?T = (rows V w ?T)(summary_row_key uid ?tid \<mapsto> ddb_item (summary_item r))"
  let ?texts = "\<forall>tx. summary_put S uid ?tid tx \<in> set (new_calls w w') \<longrightarrow>
         (\<exists>result. model_answer E S show_val uid rq (trace w) result \<and> sm_text result = tx)"
  have main: "?stored \<and> ?texts \<and> (\<forall>r. out = Inr r \<longrightarrow> ?answered r)"
    using assms(1,3,4)
  proof (cases rule: summarize_cases)
    case (nothing cs)
    then show ?thesis by (simp add: new_calls_def)
  next
    case (stored tx result w2)
    note st = summary_store_cases [OF assms(1,2,3) stored(2)]
    have nc: "new_calls w w' = [fetch_transcript S uid ?tid, ClaudeMessages (claude_request (sq_tier rq) tx)] @ new_calls w2 w'"
      by (rule new_calls_from [OF stored(5) st(2)])
    have only: "sm_text result = t" if "summary_put S uid ?tid t \<in> set (new_calls w w')" for t
      using that summary_store_text [OF assms(1,2,3) stored(2)] unfolding nc
      by (auto simp: fetch_transcript_def summary_put_def)
    have ?stored using stored_after_text_more [OF st(3), of "new_calls w w'"] nc stored(3) by auto
    moreover have "?answered r" if "out = Inr r" for r
    proof -
      have "su_summary r = sm_text result" using st(4) [OF that] by (simp add: new_summary_def)
      with st(1) st(4) [OF that] stored(1,3,4) nc show ?thesis by auto
    qed
    ultimately show ?thesis using stored(1) only by blast
  qed
  have missing: "out = (case fst (record_event E (failure_args S uid rq ''transcript_not_found'')
                 (w\<lparr>trace := trace w @ [fetch_transcript S uid ?tid]\<rparr>)) of
                 Inl e' \<Rightarrow> Inl e' | Inr _ \<Rightarrow> Inl (HTTPException 404 ''transcript not found'')) \<and>
        ClaudeMessages q \<notin> set (new_calls w w')"
    if "svc E (trace w) (fetch_transcript S uid ?tid) = Inl e" "is_client_error e"
      "error_code e \<in> {''NoSuchKey'', ''404'', ''NoSuchBucket''}" for e q
  proof -
    note m = audit_then_raise_cases [OF assms(1,3) summarize_missing [OF that, THEN sym, THEN trans, OF assms(4)]]
    obtain cs where cs: "trace w' = trace w @ fetch_transcript S uid ?tid # cs" "list_all audit_call cs" using m(2) by auto
    show ?thesis using m(4) cs(1) claude_not_audit [OF cs(2), of q] by (simp add: new_calls_def) (simp add: fetch_transcript_def)
  qed
  from main missing show ?thesis by blast
qed


lemma sum_demo_ok: "ddb_ok sum_demo_env mem_view" "key_attrs sum_demo_env t = [''pk'', ''sk'']"
    "svc sum_demo_env = sum_demo_svc" "audit_table (audit_cfg sum_demo_env) \<noteq> sg_summaries_table sum_demo_settings"
  by (simp_all add: sum_demo_env_def mem_env_ok sum_demo_settings_def) (simp add: mem_env_def)

definition sum_demo_result :: summary_result where
  "sum_demo_result = \<lparr>sm_text = ''ok'', sm_model = ''claude-haiku-4-5'', sm_input_tokens = 7, sm_output_tokens = 2\<rparr>"

definition sum_demo_record :: summary_record where
  "sum_demo_record = new_summary ''u1'' ''tr1'' Haiku sum_demo_result 0"

lemma sum_demo_claude: "claude_result show_val Haiku sum_demo_answer = Inr sum_demo_result"
  by (simp add: claude_result_def sum_demo_answer_def extract_text_def attr_or_def dget_or_def block_text_def usage_count_def
      py_or_def sum_demo_result_def strip_def lstrip_def rstrip_def is_space_def)

lemma sum_demo_audit: "\<exists>x w'. record_event sum_demo_env (completed_args sum_demo_settings ''u1'' sum_demo_request sum_demo_result) w = (Inr x, w') \<and>
   db w' = db w \<and> svc sum_demo_env (trace w') = sum_demo_svc (trace w')"
  by (simp add: record_event_eq completed_args_def sum_audit_def sum_demo_settings_def sum_demo_request_def make_audit_event_def
      utcnow_def new_id_def tick_def bindE_def liftE_def retE_def sum_demo_env_def mem_env_def select_store_from_env_def note_call_def
      strip_def lstrip_def rstrip_def is_space_def action_re_def is_lower_def is_ident_char_def actor_types_def)

lemma sum_demo_put: "put_item sum_demo_env tbl it CTrue w =
  (Inr (), w\<lparr>db := store_row (db w) tbl (ddb_item (map (\<lambda>a. (a, dget it a)) [''pk'', ''sk''])) (ddb_item it)\<rparr>)"
  by (simp add: put_item_def on_db_def sum_demo_env_def mem_env_def Let_def)

lemma sum_demo_runs:
  "\<exists>w'. summarize sum_demo_env sum_demo_settings show_val ''u1'' sum_demo_request sum_demo_world = (Inr sum_demo_record, w')"
proof -
  let ?E = sum_demo_env and ?S = sum_demo_settings
  have dec: "decode_body (PStr ''hello'') = Inr ''hello''" by (simp add: decode_body_def)
  obtain w1 where rd: "read_transcript ?E ?S ''u1'' (sq_transcript_id sum_demo_request) sum_demo_world = (Inr ''hello'', w1)"
    by (simp add: read_transcript_def tryE_def invoke_def sum_demo_ok(3) sum_demo_svc_def sum_demo_settings_def liftE_def dec)
  obtain w2 where cl: "claude_summarize ?E show_val ''hello'' (sq_tier sum_demo_request) w1 = (Inr sum_demo_result, w2)"
    by (simp add: claude_summarize_def bindE_def invoke_def sum_demo_ok(3) sum_demo_svc_def liftE_def sum_demo_request_def sum_demo_claude)
  obtain w3 where wr: "write_summary ?E ?S ''u1'' (sq_transcript_id sum_demo_request) (sq_tier sum_demo_request) sum_demo_result w2 =
      (Inr sum_demo_record, w3)"
    by (simp add: write_summary_def bindE_def utcnow_def tick_def invoke_def sum_demo_ok(3) sum_demo_svc_def sum_demo_put retE_def Let_def
        sum_demo_request_def sum_demo_record_def) (simp add: sum_demo_env_def mem_env_def)
  from sum_demo_audit [of w3] show ?thesis
    by (auto simp: summarize_def tryE_def rd cl summary_store_def bindE_def wr retE_def)
qed

lemma sum_demo_text:
  assumes "summarize sum_demo_env sum_demo_settings show_val ''u1'' sum_demo_request sum_demo_world = (Inr r, w')"
    and "summary_put sum_demo_settings ''u1'' (sq_transcript_id sum_demo_request) tx \<in> set (new_calls sum_demo_world w')"
  shows "tx = ''ok''"
  using sum_demo_ok(1,4) assms(1)
proof (cases rule: summarize_cases)
  case (nothing cs)
  then show ?thesis by simp
next
  case (stored t result w2)
  have nc: "new_calls sum_demo_world w' = [fetch_transcript sum_demo_settings ''u1'' (sq_transcript_id sum_demo_request),
      ClaudeMessages (claude_request (sq_tier sum_demo_request) t)] @ new_calls w2 w'"
    by (rule new_calls_from [OF stored(5) summary_store_cases(2) [OF sum_demo_ok(1,2,4) stored(2)]])
  have "summary_put sum_demo_settings ''u1'' (sq_transcript_id sum_demo_request) tx \<in> set (new_calls w2 w')"
    using assms(2) unfolding nc by (simp add: summary_put_def fetch_transcript_def)
  then have "sm_text result = tx" by (rule summary_store_text [OF sum_demo_ok(1,2,4) stored(2)])
  moreover have "result = sum_demo_result"
    using stored(1) sum_demo_claude [of show_val]
    by (auto simp: model_answer_def sum_demo_ok(3) sum_demo_svc_def sum_demo_request_def)
  ultimately show ?thesis by (simp add: sum_demo_result_def)
qed

theorem summarize_outcome_witness:
  "\<exists>w'. summarize sum_demo_env sum_demo_settings (\<lambda>v. []) ''u1'' sum_demo_request sum_demo_world = (Inr sum_demo_record, w') \<and>
     rows mem_view w' (sg_summaries_table sum_demo_settings) (summary_row_key ''u1'' ''tr1'') = Some (ddb_item (summary_item sum_demo_record)) \<and>
     summary_put sum_demo_settings ''u1'' ''tr1'' ''ok'' \<in> set (new_calls sum_demo_world w')"
proof -
  obtain w' where run: "summarize sum_demo_env sum_demo_settings (\<lambda>v. []) ''u1'' sum_demo_request sum_demo_world = (Inr sum_demo_record, w')"
    using sum_demo_runs by blast
  have "su_summary sum_demo_record = ''ok''" by (simp add: sum_demo_record_def new_summary_def sum_demo_result_def)
  with summarize_outcome [OF sum_demo_ok(1,2,4) run] run show ?thesis
    by (intro exI [of _ w']) (simp add: sum_demo_request_def)
qed

text \<open>
  C19. Round trip of a summary. Once \<open>POST /summarize\<close> has answered, \<open>GET /summary/{id}\<close> of the same user
  answers the same record, text included, whenever the database answers the read and S3 returns the object
  that was written under the key.
\<close>

theorem summary_reads_back:
  assumes "ddb_ok E V" "key_attrs E (sg_summaries_table S) = [''pk'', ''sk'']"
    and "audit_table (audit_cfg E) \<noteq> sg_summaries_table S"
    and "summarize E S show_val uid rq w = (Inr r, w')"
    and "parse_dt E (isoformat (su_created_at r)) = Some (su_created_at r)"
    and "\<And>tx. summary_put S uid (sq_transcript_id rq) tx \<in> set (new_calls w w') \<Longrightarrow>
        svc E (trace w') (S3GetObject (sg_summaries_bucket S) (summary_key uid (sq_transcript_id rq))) = Inr (PStr (utf8_encode tx))"
    and "get_item E (sg_summaries_table S) (summary_row_key uid (sq_transcript_id rq)) w' = (Inr i, w1)"
  shows "fst (get_summary E S show_val uid (sq_transcript_id rq) w') = Inr r"
  using assms(1,3,4)
proof (cases rule: summarize_cases)
  case (nothing cs)
  then show ?thesis by simp
next
  case (stored tx result w2)
  note st = summary_store_cases [OF assms(1,2,3) stored(2)]
  have r: "su_summary r = sm_text result" "su_s3_key r = summary_key uid (sq_transcript_id rq)"
    using st(4) [OF refl] by (simp_all add: new_summary_def)
  have "summary_put S uid (sq_transcript_id rq) (sm_text result) \<in> set (new_calls w w')"
    using st(1) new_calls_from [OF stored(5) st(2)] by simp
  from assms(6) [OF this] r have s3: "svc E (trace w') (S3GetObject (sg_summaries_bucket S) (su_s3_key r)) = Inr (PStr (utf8_encode (su_summary r)))"
    by simp
  have i: "i = Some (ddb_item (summary_item r))" and w1: "trace w1 = trace w'"
    using get_item_cases [OF assms(1,7)] st(4) [OF refl] by simp_all
  have key: "item_at (ddb_item (summary_item r)) ''s3_key'' = Inr (PStr (su_s3_key r))"
    by (simp add: item_at_def summary_item_def ddb_item_def)
  have "fst (record_from_item E S show_val (ddb_item (summary_item r)) w1) = Inr r"
    by (simp add: record_from_item_def bindE_def liftE_def key Let_def invoke_def w1 s3 summary_fields_stored [OF assms(5)])
  then show ?thesis
    by (cases "record_from_item E S show_val (ddb_item (summary_item r)) w1")
      (auto simp: get_summary_def stored_summary_def bindE_def assms(7) i retE_def)
qed

theorem summary_reads_back_witness:
  "\<exists>w'. summarize sum_demo_env sum_demo_settings (\<lambda>v. []) ''u1'' sum_demo_request sum_demo_world = (Inr sum_demo_record, w') \<and>
     fst (get_summary sum_demo_env sum_demo_settings (\<lambda>v. []) ''u1'' ''tr1'' w') = Inr sum_demo_record"
proof -
  let ?E = sum_demo_env and ?S = sum_demo_settings
  obtain w' where run: "summarize ?E ?S (\<lambda>v. []) ''u1'' sum_demo_request sum_demo_world = (Inr sum_demo_record, w')"
    using sum_demo_runs by blast
  have ok: "utf8_encode ''ok'' = ''ok''" by (simp add: utf8_encode_def utf8_char_def)
  have "fst (get_summary ?E ?S (\<lambda>v. []) ''u1'' (sq_transcript_id sum_demo_request) w') = Inr sum_demo_record"
  proof (rule summary_reads_back [OF sum_demo_ok(1,2,4) run])
    show "parse_dt ?E (isoformat (su_created_at sum_demo_record)) = Some (su_created_at sum_demo_record)"
      by (simp add: sum_demo_record_def new_summary_def sum_demo_env_def mem_env_def)
    show "get_item ?E (sg_summaries_table ?S) (summary_row_key ''u1'' (sq_transcript_id sum_demo_request)) w' =
        (Inr (db w' (sg_summaries_table ?S) (summary_row_key ''u1'' (sq_transcript_id sum_demo_request))), w')"
      by (simp add: get_item_def on_db_def sum_demo_env_def mem_env_def)
    fix tx
    assume put: "summary_put ?S ''u1'' (sq_transcript_id sum_demo_request) tx \<in> set (new_calls sum_demo_world w')"
    have "tx = ''ok''"
      using sum_demo_text [OF run put] .
    then show "svc ?E (trace w') (S3GetObject (sg_summaries_bucket ?S) (summary_key ''u1'' (sq_transcript_id sum_demo_request))) =
        Inr (PStr (utf8_encode tx))"
      by (simp add: sum_demo_ok(3) sum_demo_svc_def sum_demo_settings_def ok)
  qed
  with run show ?thesis by (auto simp: sum_demo_request_def)
qed

end
