(* ===== verification/Query_Api.thy ===== *)
theory Query_Api
  imports Session_Manager Summarization
begin

text \<open>
  The query service (\<^verbatim>\<open>services/query-api\<close>): the models it expects (\<^verbatim>\<open>models.py\<close>), the three readers
  (\<^verbatim>\<open>storage/ingestion.py\<close>, \<^verbatim>\<open>storage/summaries.py\<close>, \<^verbatim>\<open>storage/sessions.py\<close>) and the routes. The rows it
  reads are written by the ingestion API, the transcription containers, the summarization service and the
  session manager; the last section reads their rows with these readers. Its \<^verbatim>\<open>auth.py\<close> is a copy of the
  session manager's.
\<close>

record query_settings =
  qy_ingestion_table :: string
  qy_summaries_table :: string
  qy_sessions_table :: string
  qy_list_max_limit :: int

section \<open>The models\<close>

text \<open>Words and segments are those of the ingestion API; the transcript has also the number of words.\<close>

record view_transcript =
  vt_text :: string
  vt_language :: "string option"
  vt_duration :: "rat option"
  vt_word_count :: "int option"
  vt_segments :: "transcript_segment list"

definition opt_int_field :: "'t env \<Rightarrow> pyval \<Rightarrow> int option option" where
  "opt_int_field E v = (if v = PNone then Some None else map_option Some (pyd_int E v))"

definition opt_dt_field :: "'t env \<Rightarrow> pyval \<Rightarrow> int option option" where
  "opt_dt_field E v = (if v = PNone then Some None else map_option Some (pyd_dt E v))"

definition view_transcript_of :: "'t env \<Rightarrow> pyval \<Rightarrow> view_transcript option" where
  "view_transcript_of E v =
     Option.bind (as_dict v) (\<lambda>d.
     (case (as_str (dget d ''text''), opt_str_field (dget d ''language''), opt_float_field E (dget d ''duration_seconds''),
            opt_int_field E (dget d ''word_count''), list_field (validate_segment E) d ''segments'') of
        (Some t, Some l, Some q, Some n, Some ss) \<Rightarrow>
          Some \<lparr>vt_text = t, vt_language = l, vt_duration = q, vt_word_count = n, vt_segments = ss\<rparr>
      | _ \<Rightarrow> None))"

record view_ingestion =
  vi_ingestion_id :: string
  vi_user_id :: string
  vi_filename :: string
  vi_content_type :: string
  vi_size_bytes :: int
  vi_s3_key :: string
  vi_status :: ingestion_status
  vi_created_at :: int
  vi_updated_at :: int
  vi_transcript_status :: "transcript_status option"
  vi_transcript :: "view_transcript option"
  vi_transcript_error :: "string option"

definition opt_view_transcript :: "'t env \<Rightarrow> pyval \<Rightarrow> view_transcript option option" where
  "opt_view_transcript E v = (if v = PNone then Some None else map_option Some (view_transcript_of E v))"

definition validate_view_ingestion :: "'t env \<Rightarrow> item \<Rightarrow> view_ingestion option" where
  "validate_view_ingestion E d =
     (case (as_str (dget d ''ingestion_id''), as_str (dget d ''user_id''), as_str (dget d ''filename''),
            as_str (dget d ''content_type''), pyd_int E (dget d ''size_bytes''), as_str (dget d ''s3_key'')) of
        (Some iid, Some uid, Some fn, Some ct, Some sz, Some key) \<Rightarrow>
          (case (parse_literal ingestion_status_str [IngPending, IngUploaded, IngFailed] (dget d ''status''),
                 pyd_dt E (dget d ''created_at''), pyd_dt E (dget d ''updated_at''),
                 opt_transcript_status (dget d ''transcript_status''), opt_view_transcript E (dget d ''transcript''),
                 opt_str_field (dget d ''transcript_error_message'')) of
             (Some st, Some c, Some u, Some ts, Some tr, Some em) \<Rightarrow>
               Some \<lparr>vi_ingestion_id = iid, vi_user_id = uid, vi_filename = fn, vi_content_type = ct,
                     vi_size_bytes = sz, vi_s3_key = key, vi_status = st, vi_created_at = c,
                     vi_updated_at = u, vi_transcript_status = ts, vi_transcript = tr,
                     vi_transcript_error = em\<rparr>
           | _ \<Rightarrow> None)
      | _ \<Rightarrow> None)"

datatype summary_tier = FastTier | DeepTier

fun summary_tier_str :: "summary_tier \<Rightarrow> string" where
  "summary_tier_str FastTier = ''fast''"
| "summary_tier_str DeepTier = ''deep''"

record view_summary =
  vs_transcript_id :: string
  vs_user_id :: string
  vs_summary_text :: string
  vs_tier :: summary_tier
  vs_model :: string
  vs_created_at :: int
  vs_updated_at :: int

definition validate_view_summary :: "'t env \<Rightarrow> item \<Rightarrow> view_summary option" where
  "validate_view_summary E d =
     (case (as_str (dget d ''transcript_id''), as_str (dget d ''user_id''), as_str (dget d ''summary_text''),
            parse_literal summary_tier_str [FastTier, DeepTier] (dget d ''tier''), as_str (dget d ''model''),
            pyd_dt E (dget d ''created_at''), pyd_dt E (dget d ''updated_at'')) of
        (Some tid, Some uid, Some t, Some tier, Some m, Some c, Some u) \<Rightarrow>
          Some \<lparr>vs_transcript_id = tid, vs_user_id = uid, vs_summary_text = t, vs_tier = tier, vs_model = m,
                vs_created_at = c, vs_updated_at = u\<rparr>
      | _ \<Rightarrow> None)"

datatype view_status = ViewStarting | ViewActive | ViewEnded | ViewFailed

fun view_status_str :: "view_status \<Rightarrow> string" where
  "view_status_str ViewStarting = ''starting''"
| "view_status_str ViewActive = ''active''"
| "view_status_str ViewEnded = ''ended''"
| "view_status_str ViewFailed = ''failed''"

record view_session =
  vw_session_id :: string
  vw_user_id :: string
  vw_status :: view_status
  vw_created_at :: int
  vw_updated_at :: int
  vw_ended_at :: "int option"

definition validate_view_session :: "'t env \<Rightarrow> item \<Rightarrow> view_session option" where
  "validate_view_session E d =
     (case (as_str (dget d ''session_id''), as_str (dget d ''user_id''),
            parse_literal view_status_str [ViewStarting, ViewActive, ViewEnded, ViewFailed] (dget d ''status''),
            pyd_dt E (dget d ''created_at''), pyd_dt E (dget d ''updated_at''), opt_dt_field E (dget d ''ended_at'')) of
        (Some sid, Some uid, Some st, Some c, Some u, Some e) \<Rightarrow>
          Some \<lparr>vw_session_id = sid, vw_user_id = uid, vw_status = st, vw_created_at = c, vw_updated_at = u,
                vw_ended_at = e\<rparr>
      | _ \<Rightarrow> None)"

section \<open>The readers\<close>

text \<open>The three copies of \<^verbatim>\<open>_from_dynamo\<close>: a \<^verbatim>\<open>Decimal\<close> at the top level becomes an integer, the rest stays as it is.\<close>

definition top_level_ints :: "item \<Rightarrow> item" where
  "top_level_ints it = map (\<lambda>(k, v). (k, undec v)) it"

definition view_or_error :: "string \<Rightarrow> 'a option \<Rightarrow> exn + 'a" where
  "view_or_error model r = (case r of None \<Rightarrow> Inl (ValueError model) | Some x \<Rightarrow> Inr x)"

definition view_ingestion_of :: "'t env \<Rightarrow> item \<Rightarrow> exn + view_ingestion" where
  "view_ingestion_of E it = view_or_error ''IngestionRecord'' (validate_view_ingestion E (top_level_ints it))"

definition view_summary_of :: "'t env \<Rightarrow> item \<Rightarrow> exn + view_summary" where
  "view_summary_of E it = view_or_error ''SummaryRecord'' (validate_view_summary E (top_level_ints it))"

definition view_session_of :: "'t env \<Rightarrow> item \<Rightarrow> exn + view_session" where
  "view_session_of E it = view_or_error ''SessionRecord'' (validate_view_session E (top_level_ints it))"

text \<open>\<^verbatim>\<open>IngestionReader\<close>.\<close>

definition ingestion_reader_get :: "'t env \<Rightarrow> string \<Rightarrow> string \<Rightarrow> string \<Rightarrow> ('t world, view_ingestion option) io" where
  "ingestion_reader_get E tbl user_id ingestion_id =
     bindE (get_item E tbl (ingestion_key user_id ingestion_id)) (\<lambda>i.
     (case i of
        None \<Rightarrow> retE None
      | Some it \<Rightarrow> bindE (liftE (view_ingestion_of E it)) (\<lambda>r. retE (Some r))))"

text \<open>The bare identifier behind the prefix of the last sort key.\<close>

definition bare_cursor :: "string \<Rightarrow> item option \<Rightarrow> string option" where
  "bare_cursor prefix last_key =
     (case last_key of
        None \<Rightarrow> None
      | Some k \<Rightarrow>
          (case as_str (dget k ''sk'') of
             None \<Rightarrow> None
           | Some sk \<Rightarrow> if starts_with sk prefix then Some (drop (length prefix) sk) else None))"

definition ingestion_reader_list :: "'t env \<Rightarrow> string \<Rightarrow> string \<Rightarrow> int \<Rightarrow> string option \<Rightarrow>
    ('t world, view_ingestion list \<times> string option) io" where
  "ingestion_reader_list E tbl user_id limit cursor =
     bindE (query_items E tbl
        \<lparr>q_index = None, q_hash = (''pk'', PStr (user_pk user_id)), q_prefix = Some (''sk'', ''INGESTION#''),
         q_limit = Some limit, q_forward = True, q_start = map_option (ingestion_key user_id) cursor\<rparr>) (\<lambda>response.
     bindE (liftE (map_records (view_ingestion_of E) (p_items response))) (\<lambda>items.
     retE (items, bare_cursor ''INGESTION#'' (p_last response))))"

text \<open>\<^verbatim>\<open>SummaryReader\<close>.\<close>

definition summary_reader_get :: "'t env \<Rightarrow> string \<Rightarrow> string \<Rightarrow> string \<Rightarrow> ('t world, view_summary option) io" where
  "summary_reader_get E tbl user_id transcript_id =
     bindE (get_item E tbl (summary_row_key user_id transcript_id)) (\<lambda>i.
     (case i of
        None \<Rightarrow> retE None
      | Some it \<Rightarrow> bindE (liftE (view_summary_of E it)) (\<lambda>r. retE (Some r))))"

definition summary_reader_list :: "'t env \<Rightarrow> string \<Rightarrow> string \<Rightarrow> int \<Rightarrow> string option \<Rightarrow>
    ('t world, view_summary list \<times> string option) io" where
  "summary_reader_list E tbl user_id limit cursor =
     bindE (query_items E tbl
        \<lparr>q_index = None, q_hash = (''pk'', PStr (user_pk user_id)), q_prefix = Some (''sk'', ''SUMMARY#''),
         q_limit = Some limit, q_forward = True, q_start = map_option (summary_row_key user_id) cursor\<rparr>) (\<lambda>response.
     bindE (liftE (map_records (view_summary_of E) (p_items response))) (\<lambda>items.
     retE (items, bare_cursor ''SUMMARY#'' (p_last response))))"

text \<open>\<^verbatim>\<open>SessionReader\<close>: the owner is checked on the row, before it is validated.\<close>

definition session_reader_get :: "'t env \<Rightarrow> string \<Rightarrow> string \<Rightarrow> string \<Rightarrow> ('t world, view_session option) io" where
  "session_reader_get E tbl user_id session_id =
     bindE (get_item E tbl (session_key session_id)) (\<lambda>i.
     (case i of
        None \<Rightarrow> retE None
      | Some it \<Rightarrow>
          if dget it ''user_id'' \<noteq> PStr user_id then retE None
          else bindE (liftE (view_session_of E it)) (\<lambda>r. retE (Some r))))"

definition session_anchor :: "'t env \<Rightarrow> string \<Rightarrow> string \<Rightarrow> string option \<Rightarrow> ('t world, item option) io" where
  "session_anchor E tbl user_id cursor =
     (case cursor of
        None \<Rightarrow> retE None
      | Some c \<Rightarrow>
          bindE (get_item E tbl (session_key c)) (\<lambda>i.
          retE (case i of
                  None \<Rightarrow> None
                | Some anchor \<Rightarrow>
                    if dget anchor ''user_id'' = PStr user_id
                    then Some [(''session_id'', PStr c), (''user_id'', PStr user_id), (''created_at'', dget anchor ''created_at'')]
                    else None)))"

definition session_reader_list :: "'t env \<Rightarrow> string \<Rightarrow> string \<Rightarrow> int \<Rightarrow> string option \<Rightarrow>
    ('t world, view_session list \<times> string option) io" where
  "session_reader_list E tbl user_id limit cursor =
     bindE (session_anchor E tbl user_id cursor) (\<lambda>start.
     bindE (query_items E tbl
        \<lparr>q_index = Some ''UserSessionsIndex'', q_hash = (''user_id'', PStr user_id), q_prefix = None,
         q_limit = Some limit, q_forward = False, q_start = start\<rparr>) (\<lambda>response.
     bindE (liftE (map_records (view_session_of E) (p_items response))) (\<lambda>items.
     retE (items, (case p_last response of
                     None \<Rightarrow> None
                   | Some k \<Rightarrow> as_str (dget k ''session_id''))))))"

section \<open>The routes\<close>

definition query_audit :: "string \<Rightarrow> string \<Rightarrow> string \<Rightarrow> string \<Rightarrow> item \<Rightarrow> audit_args" where
  "query_audit user_id action resource_type resource_id details =
     \<lparr>ra_actor_id = user_id, ra_actor_type = ''user'', ra_action = action, ra_resource_type = resource_type,
      ra_resource_id = resource_id, ra_source_service = ''query-api'', ra_details = details\<rparr>"

text \<open>The common text of the three list routes and of the three get routes, over the reader.\<close>

definition list_route :: "'t env \<Rightarrow> query_settings \<Rightarrow> string \<Rightarrow> string \<Rightarrow> int \<Rightarrow>
    (int \<Rightarrow> ('t world, 'a list \<times> string option) io) \<Rightarrow> ('t world, 'a list \<times> string option) io" where
  "list_route E S user_id resource_type limit reader =
     (if limit < 1 \<or> 100 < limit then raiseE (HTTPException 422 ''limit'')
      else
        let effective_limit = min limit (qy_list_max_limit S) in
        bindE (reader effective_limit) (\<lambda>result.
        bindE (record_event E (query_audit user_id ''query.records_listed'' resource_type ''*''
                 [(''count'', PInt (int (length (fst result)))), (''limit'', PInt effective_limit)])) (\<lambda>_.
        retE result)))"

definition get_route :: "'t env \<Rightarrow> string \<Rightarrow> string \<Rightarrow> string \<Rightarrow> ('t world, 'a option) io \<Rightarrow> ('t world, 'a) io" where
  "get_route E user_id resource_type resource_id reader =
     bindE reader (\<lambda>r.
     (case r of
        None \<Rightarrow> raiseE (HTTPException 404 (resource_type @ '' not found''))
      | Some record \<Rightarrow>
          bindE (record_event E (query_audit user_id ''query.record_fetched'' resource_type resource_id [])) (\<lambda>_.
          retE record)))"

definition query_list_ingestions :: "'t env \<Rightarrow> query_settings \<Rightarrow> string \<Rightarrow> int \<Rightarrow> string option \<Rightarrow>
    ('t world, view_ingestion list \<times> string option) io" where
  "query_list_ingestions E S user_id limit cursor =
     list_route E S user_id ''ingestion'' limit (\<lambda>n. ingestion_reader_list E (qy_ingestion_table S) user_id n cursor)"

definition query_get_ingestion :: "'t env \<Rightarrow> query_settings \<Rightarrow> string \<Rightarrow> string \<Rightarrow> ('t world, view_ingestion) io" where
  "query_get_ingestion E S user_id ingestion_id =
     get_route E user_id ''ingestion'' ingestion_id (ingestion_reader_get E (qy_ingestion_table S) user_id ingestion_id)"

definition query_list_summaries :: "'t env \<Rightarrow> query_settings \<Rightarrow> string \<Rightarrow> int \<Rightarrow> string option \<Rightarrow>
    ('t world, view_summary list \<times> string option) io" where
  "query_list_summaries E S user_id limit cursor =
     list_route E S user_id ''summary'' limit (\<lambda>n. summary_reader_list E (qy_summaries_table S) user_id n cursor)"

definition query_get_summary :: "'t env \<Rightarrow> query_settings \<Rightarrow> string \<Rightarrow> string \<Rightarrow> ('t world, view_summary) io" where
  "query_get_summary E S user_id transcript_id =
     get_route E user_id ''summary'' transcript_id (summary_reader_get E (qy_summaries_table S) user_id transcript_id)"

definition query_list_sessions :: "'t env \<Rightarrow> query_settings \<Rightarrow> string \<Rightarrow> int \<Rightarrow> string option \<Rightarrow>
    ('t world, view_session list \<times> string option) io" where
  "query_list_sessions E S user_id limit cursor =
     list_route E S user_id ''session'' limit (\<lambda>n. session_reader_list E (qy_sessions_table S) user_id n cursor)"

definition query_get_session :: "'t env \<Rightarrow> query_settings \<Rightarrow> string \<Rightarrow> string \<Rightarrow> ('t world, view_session) io" where
  "query_get_session E S user_id session_id =
     get_route E user_id ''session'' session_id (session_reader_get E (qy_sessions_table S) user_id session_id)"


section \<open>One row, two decoders\<close>

text \<open>
  What is asked of the validation library: a \<^verbatim>\<open>Decimal\<close>, an integer and a float validate as the float of the
  same value, and containers are neither numbers nor timestamps. A row is plain when its numbers at the top
  level are integers and the number of words of its transcript, if it has one, is a valid integer; the rows
  that the services write are.
\<close>

definition conversions_ok :: "'t env \<Rightarrow> bool" where
  "conversions_ok E \<longleftrightarrow> (\<forall>q. pyd_float E (PDec q) = Some q) \<and> (\<forall>q. pyd_float E (PFloat q) = Some q) \<and>
     (\<forall>i. pyd_float E (PInt i) = Some (of_int i)) \<and>
     (\<forall>xs. pyd_float E (PList xs) = None \<and> pyd_int E (PList xs) = None \<and> pyd_dt E (PList xs) = None) \<and>
     (\<forall>d. pyd_float E (PDict d) = None \<and> pyd_int E (PDict d) = None \<and> pyd_dt E (PDict d) = None)"

definition plain_row :: "'t env \<Rightarrow> item \<Rightarrow> bool" where
  "plain_row E it \<longleftrightarrow> (\<forall>k q. map_of it k = Some (PDec q) \<longrightarrow> q = of_int \<lfloor>q\<rfloor>) \<and>
     (\<forall>d. map_of it ''transcript'' = Some (PDict d) \<longrightarrow> opt_int_field E (dget d ''word_count'') \<noteq> None)"

definition as_transcript :: "view_transcript \<Rightarrow> transcript" where
  "as_transcript v = \<lparr>tr_text = vt_text v, tr_segments = vt_segments v, tr_language = vt_language v, tr_duration = vt_duration v\<rparr>"

definition as_ingestion :: "view_ingestion \<Rightarrow> ingestion_record" where
  "as_ingestion v =
     \<lparr>in_ingestion_id = vi_ingestion_id v, in_user_id = vi_user_id v, in_filename = vi_filename v,
      in_content_type = vi_content_type v, in_size_bytes = vi_size_bytes v, in_s3_key = vi_s3_key v,
      in_status = vi_status v, in_created_at = vi_created_at v, in_updated_at = vi_updated_at v,
      in_transcript_status = vi_transcript_status v, in_transcript = map_option as_transcript (vi_transcript v),
      in_transcript_error = vi_transcript_error v\<rparr>"

lemma float_native: "conversions_ok E \<Longrightarrow> pyd_float E (decimal_to_native v) = pyd_float E v"
  by (cases v) (auto simp: conversions_ok_def)

lemma as_native [simp]:
  "as_str (decimal_to_native v) = as_str v"
  "as_dict (decimal_to_native v) = map_option (map (\<lambda>(k, v). (k, decimal_to_native v))) (as_dict v)"
  "as_list (decimal_to_native v) = map_option (map decimal_to_native) (as_list v)"
  "decimal_to_native v = PNone \<longleftrightarrow> v = PNone"
  by (cases v; simp)+

lemma map_of_values: "map_of (map (\<lambda>(k, v). (k, f v)) d) k = map_option f (map_of d k)"
  by (induction d) auto

lemma dget_native: "dget (map (\<lambda>(k, v). (k, decimal_to_native v)) d) k = decimal_to_native (dget d k)"
  by (simp add: map_of_values dget_def dget_or_def split: option.split)

lemma dget_ints: "dget (top_level_ints it) k = undec (dget it k)"
  by (simp add: top_level_ints_def map_of_values dget_def dget_or_def split: option.split)

lemma traverse_native:
  "(\<And>v. f (decimal_to_native v) = f v) \<Longrightarrow> traverse f (map decimal_to_native xs) = traverse f xs"
  by (induction xs) (simp_all split: option.split)

lemma list_field_native:
  assumes "\<And>v. f (decimal_to_native v) = f v"
  shows "list_field f (map (\<lambda>(k, v). (k, decimal_to_native v)) d) k = list_field f d k"
proof -
  have "dget_or (map (\<lambda>(k, v). (k, decimal_to_native v)) d) k (PList []) = decimal_to_native (dget_or d k (PList []))"
    by (simp add: dget_or_def map_of_values split: option.split)
  moreover have "traverse f (map decimal_to_native xs) = traverse f xs" for xs
    by (rule traverse_native) (rule assms)
  ultimately show ?thesis
    by (cases "as_list (dget_or d k (PList []))") (simp_all add: list_field_def)
qed

lemma word_native: "conversions_ok E \<Longrightarrow> validate_word E (decimal_to_native v) = validate_word E v"
  by (cases "as_dict v") (simp_all add: validate_word_def dget_native float_native split: option.split)

lemma segment_native: "conversions_ok E \<Longrightarrow> validate_segment E (decimal_to_native v) = validate_segment E v"
  by (cases "as_dict v") (simp_all add: validate_segment_def dget_native float_native list_field_native word_native split: option.split)

lemma opt_float_native: "conversions_ok E \<Longrightarrow> opt_float_field E (decimal_to_native v) = opt_float_field E v"
  by (simp add: opt_float_field_def float_native)

lemma opt_str_native: "opt_str_field (decimal_to_native v) = opt_str_field v"
  by (simp add: opt_str_field_def)

lemma transcript_native:
  assumes "conversions_ok E" "\<And>d. v = PDict d \<Longrightarrow> opt_int_field E (dget d ''word_count'') \<noteq> None"
  shows "map_option as_transcript (view_transcript_of E v) = validate_transcript E (decimal_to_native v)"
proof (cases "as_dict v")
  case None
  then show ?thesis by (simp add: view_transcript_of_def validate_transcript_def)
next
  case (Some d)
  then have "v = PDict d" by (cases v) auto
  with assms(2) obtain n where n: "opt_int_field E (dget d ''word_count'') = Some n" by blast
  show ?thesis
    using assms(1) n Some
    by (simp add: view_transcript_of_def validate_transcript_def dget_native opt_str_native opt_float_native
        list_field_native segment_native as_transcript_def split: option.split)
qed

lemma top_value:
  assumes "conversions_ok E" "\<And>q. v = PDec q \<Longrightarrow> q = of_int \<lfloor>q\<rfloor>"
  shows "as_str (undec v) = as_str (decimal_to_native v)" "pyd_int E (undec v) = pyd_int E (decimal_to_native v)"
    "pyd_dt E (undec v) = pyd_dt E (decimal_to_native v)" "undec v = PNone \<longleftrightarrow> v = PNone"
    "as_dict (undec v) = as_dict v"
proof -
  show "as_str (undec v) = as_str (decimal_to_native v)" "undec v = PNone \<longleftrightarrow> v = PNone" "as_dict (undec v) = as_dict v"
    by (cases v; simp)+
  have dec: "undec v = decimal_to_native v" if "v = PDec q" for q
    using assms(2) [OF that] that trunc_rat_of_int [of "\<lfloor>q\<rfloor>"] by simp
  show "pyd_int E (undec v) = pyd_int E (decimal_to_native v)" "pyd_dt E (undec v) = pyd_dt E (decimal_to_native v)"
    using assms(1) dec by (cases v; simp add: conversions_ok_def)+
qed

lemma decoders_agree:
  assumes "conversions_ok E" "plain_row E it"
  shows "map_sum id as_ingestion (view_ingestion_of E it) = ing_from_dynamo E it"
proof -
  let ?n = "map (\<lambda>(k, v). (k, decimal_to_native v)) it"
  have int: "q = of_int \<lfloor>q\<rfloor>" if "dget it k = PDec q" for k q
    using that assms(2) by (auto simp: plain_row_def dget_def dget_or_def split: option.splits)
  have v: "as_str (undec (dget it k)) = as_str (decimal_to_native (dget it k))"
    "pyd_int E (undec (dget it k)) = pyd_int E (decimal_to_native (dget it k))"
    "pyd_dt E (undec (dget it k)) = pyd_dt E (decimal_to_native (dget it k))"
    "undec (dget it k) = PNone \<longleftrightarrow> dget it k = PNone"
    "as_dict (undec (dget it k)) = as_dict (dget it k)" for k
    using top_value [OF assms(1) int [of k]] by blast+
  have lit: "parse_literal f xs (dget (top_level_ints it) k) = parse_literal f xs (dget ?n k)"
    for f :: "'b \<Rightarrow> string" and xs k
    using v(1) [of k] by (simp add: parse_literal_def dget_ints dget_native)
  have ts: "opt_transcript_status (dget (top_level_ints it) k) = opt_transcript_status (dget ?n k)" for k
    using v(4) [of k] lit [of transcript_status_str "[TsPending, TsSucceeded, TsFailed]" k]
    by (simp add: opt_transcript_status_def dget_ints dget_native)
  have os: "opt_str_field (dget (top_level_ints it) k) = opt_str_field (dget ?n k)" for k
    using v(1,4) [of k] by (simp add: opt_str_field_def dget_ints dget_native)
  have tr: "map_option (map_option as_transcript) (opt_view_transcript E (dget (top_level_ints it) ''transcript'')) =
      opt_transcript E (dget ?n ''transcript'')"
  proof -
    let ?t = "dget it ''transcript''"
    have "opt_int_field E (dget d ''word_count'') \<noteq> None" if "?t = PDict d" for d
      using that assms(2) by (auto simp: plain_row_def dget_def dget_or_def split: option.splits)
    from transcript_native [OF assms(1) this]
    have eq: "validate_transcript E (decimal_to_native ?t) = map_option as_transcript (view_transcript_of E (undec ?t))"
      using v(5) [of "''transcript''"] by (simp add: view_transcript_of_def)
    then show ?thesis
      using v(4) [of "''transcript''"]
      by (simp add: opt_view_transcript_def opt_transcript_def dget_ints dget_native eq option.map_comp comp_def)
  qed
  have fields: "as_str (dget (top_level_ints it) k) = as_str (dget ?n k)" "pyd_int E (dget (top_level_ints it) k) = pyd_int E (dget ?n k)"
    "pyd_dt E (dget (top_level_ints it) k) = pyd_dt E (dget ?n k)" for k
    using v(1-3) [of k] by (simp_all add: dget_ints dget_native)
  have eq: "validate_ingestion E ?n = map_option as_ingestion (validate_view_ingestion E (top_level_ints it))"
    unfolding validate_view_ingestion_def validate_ingestion_def fields lit ts os tr [symmetric]
    by (simp add: as_ingestion_def split: option.split)
  show ?thesis
    by (cases "validate_view_ingestion E (top_level_ints it)")
      (simp_all add: view_ingestion_of_def view_or_error_def ing_from_dynamo_def eq)
qed

text \<open>Both services answer alike: the readers, on the same world.\<close>

definition same_answer :: "('a \<Rightarrow> 'b) \<Rightarrow> (exn + 'a) \<times> 'w \<Rightarrow> (exn + 'b) \<times> 'w \<Rightarrow> bool" where
  "same_answer f p q \<longleftrightarrow> map_sum id f (fst p) = fst q \<and> snd p = snd q"

lemma map_records_agree:
  "(\<And>x. x \<in> set xs \<Longrightarrow> map_sum id f (g x) = h x) \<Longrightarrow> map_sum id (map f) (map_records g xs) = map_records h xs"
proof (induction xs)
  case (Cons x xs)
  have x: "h x = map_sum id f (g x)" by (rule Cons.prems [of x, symmetric]) simp
  have "map_sum id f (g y) = h y" if "y \<in> set xs" for y by (rule Cons.prems) (use that in simp)
  from Cons.IH [OF this] have xs: "map_records h xs = map_sum id (map f) (map_records g xs)" by (rule sym)
  show ?case by (simp add: x xs split: sum.split)
qed simp

lemma bare_ingestion_cursor: "bare_cursor ''INGESTION#'' k = next_ingestion_cursor k"
proof -
  have "length ''INGESTION#'' = 10" by simp
  then show ?thesis unfolding bare_cursor_def next_ingestion_cursor_def by (simp only:)
qed


text \<open>
  C20. The query service and the ingestion API agree. On every world whose rows are plain, the reader of the
  query service and the store of the ingestion API give the same answer to a read of one record and to a
  request for a page, with the same next cursor, the same failure and the same database state after it: the
  query service's record is the ingestion API's, with the number of words beside it.
\<close>

theorem ingestion_readers_agree:
  assumes "conversions_ok E"
    and "\<And>it w1. get_item E tbl (ingestion_key uid iid) w = (Inr (Some it), w1) \<Longrightarrow> plain_row E it"
    and "\<And>q p w1 it. query_items E tbl q w = (Inr p, w1) \<Longrightarrow> it \<in> set (p_items p) \<Longrightarrow> plain_row E it"
  shows "same_answer (map_option as_ingestion) (ingestion_reader_get E tbl uid iid w) (ing_get E tbl uid iid w) \<and>
    same_answer (map_prod (map as_ingestion) id) (ingestion_reader_list E tbl uid limit cursor w)
      (ing_list_for_user E tbl uid limit cursor w)"
proof
  obtain i w1 where g: "get_item E tbl (ingestion_key uid iid) w = (i, w1)" by force
  show "same_answer (map_option as_ingestion) (ingestion_reader_get E tbl uid iid w) (ing_get E tbl uid iid w)"
  proof (cases "\<exists>it. i = Inr (Some it)")
    case True
    then obtain it where it: "i = Inr (Some it)" by blast
    have "ing_from_dynamo E it = map_sum id as_ingestion (view_ingestion_of E it)"
      using decoders_agree [OF assms(1) assms(2)] g it by simp
    with g it show ?thesis
      by (cases "view_ingestion_of E it")
        (simp_all add: same_answer_def ingestion_reader_get_def ing_get_def bindE_def liftE_def retE_def)
  next
    case False
    with g show ?thesis
      by (auto simp: same_answer_def ingestion_reader_get_def ing_get_def bindE_def retE_def split: sum.split option.split)
  qed
  let ?q = "\<lparr>q_index = None, q_hash = (''pk'', PStr (user_pk uid)), q_prefix = Some (''sk'', ''INGESTION#''),
         q_limit = Some limit, q_forward = True, q_start = map_option (ingestion_key uid) cursor\<rparr>"
  obtain p w2 where q: "query_items E tbl ?q w = (p, w2)" by force
  show "same_answer (map_prod (map as_ingestion) id) (ingestion_reader_list E tbl uid limit cursor w)
      (ing_list_for_user E tbl uid limit cursor w)"
  proof (cases p)
    case (Inl e)
    with q show ?thesis by (simp add: same_answer_def ingestion_reader_list_def ing_list_for_user_def bindE_def)
  next
    case (Inr page)
    have "map_records (ing_from_dynamo E) (p_items page) = map_sum id (map as_ingestion) (map_records (view_ingestion_of E) (p_items page))"
      using map_records_agree [of "p_items page" as_ingestion "view_ingestion_of E" "ing_from_dynamo E"]
        decoders_agree [OF assms(1)] assms(3) q Inr by metis
    with q Inr show ?thesis
      by (cases "map_records (view_ingestion_of E) (p_items page)")
        (simp_all add: same_answer_def ingestion_reader_list_def ing_list_for_user_def bindE_def liftE_def retE_def bare_ingestion_cursor)
  qed
qed


section \<open>Rows that the query service cannot read\<close>

text \<open>One record that does not validate makes the whole page fail.\<close>

lemma map_records_one_fails:
  assumes "x \<in> set xs" "f x = Inl e" "\<And>y e'. f y = Inl e' \<Longrightarrow> e' = e"
  shows "map_records f xs = Inl e"
  using assms(1)
proof (induction xs)
  case (Cons y ys)
  show ?case
  proof (cases "f y")
    case (Inl e')
    with assms(3) show ?thesis by simp
  next
    case (Inr v)
    with Cons assms(2) have "map_records f ys = Inl e" by auto
    with Inr show ?thesis by simp
  qed
qed simp

lemma get_route_fails: "fst (reader w) = Inl e \<Longrightarrow> fst (get_route E uid rt rid reader w) = Inl e"
  by (cases "reader w") (simp add: get_route_def bindE_def)

lemma list_route_fails:
  assumes "1 \<le> limit" "limit \<le> 100" "fst (reader (min limit (qy_list_max_limit Q)) w) = Inl e"
  shows "fst (list_route E Q uid rt limit reader w) = Inl e"
  using assms by (cases "reader (min limit (qy_list_max_limit Q)) w") (simp add: list_route_def Let_def bindE_def)

lemma view_or_error_Inl: "view_or_error m r = Inl e \<Longrightarrow> e = ValueError m"
  by (auto simp: view_or_error_def split: option.splits)

text \<open>What a successful \<^verbatim>\<open>PATCH\<close> of the session manager leaves.\<close>

lemma update_session_stored:
  assumes "ddb_ok E V" "audit_table (audit_cfg E) \<noteq> sessions_table_name S"
    and "update_session E S uid sid req w = (Inr rec, w')" "rq_status req = Some st"
  obtains row where "rows V w' (sessions_table_name S) (session_key sid) = Some row" "from_dynamo E row = Inr rec"
    "map_of row ''user_id'' = Some (PStr uid)" "map_of row ''status'' = Some (PStr (status_str st))"
    "st \<noteq> Starting"
proof -
  let ?T = "sessions_table_name S"
  obtain c w1 where chk: "update_check E S uid sid req w = (Inr c, w1)"
    and com: "update_commit E S uid sid req c w1 = (Inr rec, w')"
    using assms(3) by (auto simp: update_session_def bindE_Inr_iff)
  obtain cur :: session_record and now where c0: "\<forall>st. rq_status req = Some st \<longrightarrow> is_allowed_transition (sr_status cur) st"
      "c = (sr_status cur, patch_updates req now)"
    by (rule update_check_Inr [OF assms(1) chk]) blast
  then have c: "c = (sr_status cur, patch_updates req now)" "is_allowed_transition (sr_status cur) st"
    using assms(4) by simp_all
  obtain q w2 where u: "store_update E ?T uid sid (snd c) w1 = (q, w2)" by force
  have q: "q = Inr rec" "rows V w' ?T = rows V w2 ?T"
    using com u record_event_other_tables [OF assms(1) _ assms(2) [symmetric]] assms(4)
    by (auto simp: update_commit_def tryE_def raiseE_def retE_def bindE_def split: sum.splits option.splits if_splits prod.splits)
  obtain row where row: "map_of row ''user_id'' = Some (PStr uid)"
      "rows V w2 = store_row (rows V w1) ?T (session_key sid) (apply_upds (set_clauses (snd c)) row)"
      "from_dynamo E (apply_upds (set_clauses (snd c)) row) = Inr rec"
    using store_update_outcome [OF assms(1) u] q(1) by auto
  have "st \<noteq> Starting" using c(2) by (cases "sr_status cur") (auto simp: is_allowed_transition_def)
  with row q(2) c(1) assms(4) show thesis
    by (intro that [of "apply_upds (set_clauses (snd c)) row"]) (simp_all add: store_row_apply patch_updates_effect)
qed

lemma view_status_of_session:
  "parse_literal view_status_str [ViewStarting, ViewActive, ViewEnded, ViewFailed] (PStr (status_str st)) =
     (case st of Starting \<Rightarrow> Some ViewStarting | Active \<Rightarrow> Some ViewActive | _ \<Rightarrow> None)"
  by (cases st) (simp_all add: parse_literal_def)

lemma unknown_status_fails:
  assumes "map_of row ''status'' = Some (PStr (status_str st))" "st \<notin> {Starting, Active}"
  shows "view_session_of E row = Inl (ValueError ''SessionRecord'')"
proof -
  have d: "dget row ''status'' = PStr (status_str st)" using assms(1) by (simp add: dget_def dget_or_def)
  have "parse_literal view_status_str [ViewStarting, ViewActive, ViewEnded, ViewFailed] (dget (top_level_ints row) ''status'') = None"
    unfolding dget_ints d undec.simps view_status_of_session using assms(2) by (cases st) simp_all
  then show ?thesis by (simp add: view_session_of_def validate_view_session_def view_or_error_def split: option.split)
qed

text \<open>
  C21. A session that was paused, completed or marked as failed is lost to the query service. The two services
  share the table but not the set of states: once a \<^verbatim>\<open>PATCH\<close> of the session manager has answered with one of
  these states, the session manager still decodes the row, but the query service's validation rejects it, so
  that its owner's \<^verbatim>\<open>GET /sessions/{id}\<close> and every page of \<^verbatim>\<open>GET /sessions\<close> that contains the row end in an
  internal error instead of an answer.
\<close>

theorem ended_session_unreadable:
  assumes "ddb_ok E V" "audit_table (audit_cfg E) \<noteq> sessions_table_name S"
    and "qy_sessions_table Q = sessions_table_name S"
    and "update_session E S uid sid req w = (Inr rec, w')" "rq_status req = Some st" "st \<noteq> Active"
    and "get_item E (sessions_table_name S) (session_key sid) w' = (Inr i, w1)"
  shows "\<exists>row. rows V w' (sessions_table_name S) (session_key sid) = Some row \<and> from_dynamo E row = Inr rec \<and>
    fst (query_get_session E Q uid sid w') = Inl (ValueError ''SessionRecord'') \<and>
    (\<forall>w0 limit page w2. 1 \<le> limit \<longrightarrow> limit \<le> 100 \<longrightarrow> row \<in> set (p_items page) \<longrightarrow>
       query_items E (sessions_table_name S) \<lparr>q_index = Some ''UserSessionsIndex'', q_hash = (''user_id'', PStr uid),
         q_prefix = None, q_limit = Some (min limit (qy_list_max_limit Q)), q_forward = False, q_start = None\<rparr> w0 = (Inr page, w2) \<longrightarrow>
       fst (query_list_sessions E Q uid limit None w0) = Inl (ValueError ''SessionRecord''))"
proof -
  obtain row where row: "rows V w' (sessions_table_name S) (session_key sid) = Some row" "from_dynamo E row = Inr rec"
    "map_of row ''user_id'' = Some (PStr uid)" "map_of row ''status'' = Some (PStr (status_str st))" "st \<noteq> Starting"
    using update_session_stored [OF assms(1,2,4,5)] by blast
  have bad: "view_session_of E row = Inl (ValueError ''SessionRecord'')"
    by (rule unknown_status_fails [OF row(4)]) (use row(5) assms(6) in simp)
  have i: "i = Some row" using get_item_cases(3) [OF assms(1,7)] row(1) by simp
  have owner: "dget row ''user_id'' = PStr uid" using row(3) by (simp add: dget_def dget_or_def)
  have "fst (query_get_session E Q uid sid w') = Inl (ValueError ''SessionRecord'')"
    unfolding query_get_session_def
    by (rule get_route_fails) (simp add: session_reader_get_def bindE_def assms(3,7) i owner liftE_def bad)
  moreover have "fst (query_list_sessions E Q uid limit None w0) = Inl (ValueError ''SessionRecord'')"
    if "1 \<le> limit" "limit \<le> 100" "row \<in> set (p_items page)"
      and q: "query_items E (sessions_table_name S) \<lparr>q_index = Some ''UserSessionsIndex'', q_hash = (''user_id'', PStr uid),
         q_prefix = None, q_limit = Some (min limit (qy_list_max_limit Q)), q_forward = False, q_start = None\<rparr> w0 = (Inr page, w2)"
    for w0 limit page w2
  proof -
    have "map_records (view_session_of E) (p_items page) = Inl (ValueError ''SessionRecord'')"
      by (rule map_records_one_fails [of row _ "view_session_of E", OF that(3) bad]) (simp add: view_session_of_def view_or_error_Inl)
    then show ?thesis
      unfolding query_list_sessions_def
      by (intro list_route_fails that(1,2))
        (simp add: session_reader_list_def session_anchor_def retE_def bindE_def assms(3) q liftE_def)
  qed
  ultimately show ?thesis using row(1,2) by blast
qed

text \<open>
  No summary can be read through the query service. The summarization service writes neither the text nor
  the time of the last update, and calls the tiers differently: once \<^verbatim>\<open>POST /summarize\<close> has answered, the query
  service's \<^verbatim>\<open>GET /summaries/{id}\<close> of the same user, and every page of \<^verbatim>\<open>GET /summaries\<close> that contains the row,
  end in an internal error.
\<close>

lemma summary_unreadable:
  assumes "ddb_ok E V" "key_attrs E (sg_summaries_table S) = [''pk'', ''sk'']"
    and "audit_table (audit_cfg E) \<noteq> sg_summaries_table S" "qy_summaries_table Q = sg_summaries_table S"
    and "summarize E S show_val uid rq w = (Inr r, w')"
    and "get_item E (sg_summaries_table S) (summary_row_key uid (sq_transcript_id rq)) w' = (Inr i, w1)"
  shows "fst (query_get_summary E Q uid (sq_transcript_id rq) w') = Inl (ValueError ''SummaryRecord'') \<and>
    (\<forall>w0 limit page w2. 1 \<le> limit \<longrightarrow> limit \<le> 100 \<longrightarrow> ddb_item (summary_item r) \<in> set (p_items page) \<longrightarrow>
       query_items E (sg_summaries_table S) \<lparr>q_index = None, q_hash = (''pk'', PStr (user_pk uid)),
         q_prefix = Some (''sk'', ''SUMMARY#''), q_limit = Some (min limit (qy_list_max_limit Q)), q_forward = True,
         q_start = None\<rparr> w0 = (Inr page, w2) \<longrightarrow>
       fst (query_list_summaries E Q uid limit None w0) = Inl (ValueError ''SummaryRecord''))"
proof -
  have row: "rows V w' (sg_summaries_table S) (summary_row_key uid (sq_transcript_id rq)) = Some (ddb_item (summary_item r))"
    using assms(1,3,5)
  proof (cases rule: summarize_cases)
    case (stored tx result w2)
    with summary_store_cases(4) [OF assms(1,2,3) stored(2) refl] show ?thesis by simp
  qed simp
  have i: "i = Some (ddb_item (summary_item r))" using get_item_cases(3) [OF assms(1,6)] row by simp
  have "dget (top_level_ints (ddb_item (summary_item r))) ''summary_text'' = PNone"
    by (simp add: dget_ints summary_item_def ddb_item_def dget_Cons)
  then have bad: "view_summary_of E (ddb_item (summary_item r)) = Inl (ValueError ''SummaryRecord'')"
    by (simp add: view_summary_of_def validate_view_summary_def view_or_error_def split: option.split)
  have "fst (query_get_summary E Q uid (sq_transcript_id rq) w') = Inl (ValueError ''SummaryRecord'')"
    unfolding query_get_summary_def
    by (rule get_route_fails) (simp add: summary_reader_get_def bindE_def assms(4,6) i liftE_def bad)
  moreover have "fst (query_list_summaries E Q uid limit None w0) = Inl (ValueError ''SummaryRecord'')"
    if "1 \<le> limit" "limit \<le> 100" "ddb_item (summary_item r) \<in> set (p_items page)"
      and q: "query_items E (sg_summaries_table S) \<lparr>q_index = None, q_hash = (''pk'', PStr (user_pk uid)),
         q_prefix = Some (''sk'', ''SUMMARY#''), q_limit = Some (min limit (qy_list_max_limit Q)), q_forward = True,
         q_start = None\<rparr> w0 = (Inr page, w2)"
    for w0 limit page w2
  proof -
    have "map_records (view_summary_of E) (p_items page) = Inl (ValueError ''SummaryRecord'')"
      by (rule map_records_one_fails [of _ _ "view_summary_of E", OF that(3) bad]) (simp add: view_summary_of_def view_or_error_Inl)
    then show ?thesis
      unfolding query_list_summaries_def
      by (intro list_route_fails that(1,2)) (simp add: summary_reader_list_def bindE_def assms(4) q liftE_def)
  qed
  ultimately show ?thesis by blast
qed


section \<open>Reading only\<close>

datatype query_call =
    QueryIngestions int "string option"
  | QueryIngestion string
  | QuerySummaries int "string option"
  | QuerySummary string
  | QuerySessions int "string option"
  | QuerySession string

fun serve_query :: "'t env \<Rightarrow> query_settings \<Rightarrow> string \<Rightarrow> query_call \<Rightarrow> ('t world, unit) io" where
  "serve_query E S uid (QueryIngestions limit cursor) = bindE (query_list_ingestions E S uid limit cursor) (\<lambda>_. retE ())"
| "serve_query E S uid (QueryIngestion iid) = bindE (query_get_ingestion E S uid iid) (\<lambda>_. retE ())"
| "serve_query E S uid (QuerySummaries limit cursor) = bindE (query_list_summaries E S uid limit cursor) (\<lambda>_. retE ())"
| "serve_query E S uid (QuerySummary tid) = bindE (query_get_summary E S uid tid) (\<lambda>_. retE ())"
| "serve_query E S uid (QuerySessions limit cursor) = bindE (query_list_sessions E S uid limit cursor) (\<lambda>_. retE ())"
| "serve_query E S uid (QuerySession sid) = bindE (query_get_session E S uid sid) (\<lambda>_. retE ())"

text \<open>A relation that the audit log's writes keep is kept by every request.\<close>

lemma keeps_get_route:
  assumes "preorder_on_worlds R" "\<And>a. keeps R (record_event E a)" "keeps R reader"
  shows "keeps R (get_route E uid rt rid reader)"
  unfolding get_route_def by (auto intro!: keeps_intros assms split: option.split)

lemma keeps_list_route:
  assumes "preorder_on_worlds R" "\<And>a. keeps R (record_event E a)" "\<And>n. keeps R (reader n)"
  shows "keeps R (list_route E S uid rt limit reader)"
  unfolding list_route_def Let_def by (auto intro!: keeps_intros assms)

lemma keeps_serve_query:
  assumes "ddb_ok E V" "preorder_on_worlds (rows_rel V R)" "\<And>a. R a a"
    and "\<And>a. keeps (rows_rel V R) (record_event E a)"
  shows "keeps (rows_rel V R) (serve_query E S uid c)"
  using assms
  by (cases c)
    (auto simp: query_list_ingestions_def query_get_ingestion_def query_list_summaries_def query_get_summary_def
      query_list_sessions_def query_get_session_def ingestion_reader_list_def ingestion_reader_get_def
      summary_reader_list_def summary_reader_get_def session_reader_list_def session_reader_get_def session_anchor_def
      intro!: keeps_intros keeps_get_route keeps_list_route split: option.split)

interpretation query_sessions: owner_scoped "tenant_table E V (qy_sessions_table S) [''session_id'']" V
    "qy_sessions_table S" owned_row "serve_query E S" for E V S
  by unfold_locales
    (intro keeps_serve_query rows_protected_preorder rows_protected_refl keeps_audit_protected; simp add: tenant_table_def)

interpretation query_ingestions: owner_scoped "tenant_table E V (qy_ingestion_table S) [''pk'', ''sk'']" V
    "qy_ingestion_table S" owned_partition "serve_query E S" for E V S
  by unfold_locales
    (intro keeps_serve_query rows_protected_preorder rows_protected_refl keeps_audit_protected; simp add: tenant_table_def)

lemma queries_write_audit_only:
  assumes "ddb_ok E V" "serve_query E S uid c w = (r, w')" "tbl \<noteq> audit_table (audit_cfg E)"
  shows "rows V w' tbl = rows V w tbl"
proof -
  have "preorder_on_worlds (rows_rel V (audit_writes_only E))"
    by (rule preorder_rows_rel) (auto simp: audit_writes_only_def)
  then have "keeps (rows_rel V (audit_writes_only E)) (serve_query E S uid c)"
    by (intro keeps_serve_query assms(1) keeps_record_event) (auto simp: audit_writes_only_def)
  from keepsD [OF this assms(2)] assms(3) show ?thesis by (simp add: rows_rel_def audit_writes_only_def)
qed

text \<open>Another user's session is answered like one that does not exist, and leaves no trace in the audit log.\<close>

lemma foreign_session_hidden:
  assumes "get_item E (qy_sessions_table S) (session_key sid) w = (Inr i, w1)"
    and "case i of None \<Rightarrow> True | Some it \<Rightarrow> dget it ''user_id'' \<noteq> PStr uid"
  shows "query_get_session E S uid sid w = (Inl (HTTPException 404 ''session not found''), w1)"
  using assms
  by (auto simp: query_get_session_def get_route_def session_reader_get_def bindE_def retE_def raiseE_def split: option.splits)

section \<open>Witnesses\<close>

definition qy_demo_settings :: query_settings where
  "qy_demo_settings = \<lparr>qy_ingestion_table = ''t'', qy_summaries_table = ''panakoes-dev-summaries'', qy_sessions_table = ''s'',
     qy_list_max_limit = 100\<rparr>"

theorem ended_session_unreadable_witness:
  "\<exists>w'. update_session demo_env demo_settings ''alice'' ''a'' (to_status Paused) (demo_world Active) = (Inr (demo_record Paused), w') \<and>
     fst (query_get_session demo_env qy_demo_settings ''alice'' ''a'' w') = Inl (ValueError ''SessionRecord'')"
proof -
  let ?w = "demo_world Active"
  have chk: "update_check demo_env demo_settings ''alice'' ''a'' (to_status Paused) ?w =
      (Inr (Active, patch_updates (to_status Paused) 0), ?w\<lparr>ticks := Suc (ticks ?w)\<rparr>)"
    by (rule demo_check) (simp_all add: demo_world_row is_allowed_transition_def)
  have "db (?w\<lparr>ticks := Suc (ticks ?w)\<rparr>) ''s'' (session_key ''a'') = Some (ddb_item (to_dynamo (demo_record Active)))"
    by (simp add: demo_world_row)
  from demo_commit [OF this refl] obtain w' where run:
      "update_session demo_env demo_settings ''alice'' ''a'' (to_status Paused) ?w = (Inr (demo_record Paused), w')"
    using chk by (auto simp: update_session_def bindE_def)
  have "\<exists>row. rows mem_view w' (sessions_table_name demo_settings) (session_key ''a'') = Some row \<and>
      from_dynamo demo_env row = Inr (demo_record Paused) \<and>
      fst (query_get_session demo_env qy_demo_settings ''alice'' ''a'' w') = Inl (ValueError ''SessionRecord'')"
    using ended_session_unreadable [OF demo_env_ok _ _ run, of qy_demo_settings Paused
        "db w' (sessions_table_name demo_settings) (session_key ''a'')" w']
    by (auto simp: demo_settings_def qy_demo_settings_def to_status_def demo_get)
  with run show ?thesis by blast
qed

definition qy_demo_transcript :: pyval where
  "qy_demo_transcript = PDict [(''text'', PStr ''hi''), (''language'', PNone), (''duration_seconds'', PDec (3 / 2)), (''word_count'', PDec 1),
     (''segments'', PList [PDict [(''text'', PStr ''hi''), (''start'', PDec 0), (''end'', PDec (3 / 2)), (''words'', PList [])]])]"

definition qy_demo_env :: "mem env" where
  "qy_demo_env = (mem_env (\<lambda>_. [''pk'', ''sk'']) (\<lambda>_ _. Inr PNone))\<lparr>
     pyd_float := (\<lambda>v. case v of PInt i \<Rightarrow> Some (of_int i) | PFloat q \<Rightarrow> Some q | PDec q \<Rightarrow> Some q | _ \<Rightarrow> None),
     pyd_int := (\<lambda>v. case v of PInt i \<Rightarrow> Some i | PDec q \<Rightarrow> if q = of_int \<lfloor>q\<rfloor> then Some \<lfloor>q\<rfloor> else None | _ \<Rightarrow> None)\<rparr>"

definition qy_demo_row :: item where
  "qy_demo_row = ddb_item (ing_to_dynamo (ing_demo_record (Some TsSucceeded))) @ [(''transcript'', qy_demo_transcript)]"

definition qy_demo_world :: "mem world" where
  "qy_demo_world = \<lparr>db = (\<lambda>tbl k. if k = ingestion_key ''alice'' ''i'' then Some qy_demo_row else None), trace = [], ticks = 0\<rparr>"

lemma qy_demo_get: "get_item qy_demo_env tbl k w = (Inr (db w tbl (ddb_item k)), w)"
  by (simp add: get_item_def on_db_def qy_demo_env_def mem_env_def)

lemma plain_rowI:
  assumes "list_all (\<lambda>(k, v). case v of PDec q \<Rightarrow> q = of_int \<lfloor>q\<rfloor> | _ \<Rightarrow> True) it"
    and "\<And>d. map_of it ''transcript'' = Some (PDict d) \<Longrightarrow> opt_int_field E (dget d ''word_count'') \<noteq> None"
  shows "plain_row E it"
  using assms by (auto simp: plain_row_def list_all_iff dest!: map_of_SomeD)

lemma qy_demo_plain: "plain_row qy_demo_env qy_demo_row"
  by (rule plain_rowI)
    (auto simp: qy_demo_row_def ing_to_dynamo_def ing_demo_record_def ddb_item_def qy_demo_transcript_def dget_Cons opt_int_field_def
      qy_demo_env_def)

lemma qy_demo_conversions: "conversions_ok qy_demo_env"
  by (simp add: conversions_ok_def qy_demo_env_def mem_env_def)

lemma qy_demo_query: "query_items qy_demo_env tbl q w = (Inr \<lparr>p_items = [], p_last = None\<rparr>, w)"
  by (simp add: query_items_def on_db_def qy_demo_env_def mem_env_def)

theorem ingestion_readers_agree_witness:
  "\<exists>v. ingestion_reader_get qy_demo_env ''t'' ''alice'' ''i'' qy_demo_world = (Inr (Some v), qy_demo_world) \<and>
     ing_get qy_demo_env ''t'' ''alice'' ''i'' qy_demo_world = (Inr (Some (as_ingestion v)), qy_demo_world)"
proof -
  have pyd: "pyd_dt qy_demo_env (PStr (isoformat 0)) = Some 0" by (simp add: qy_demo_env_def mem_env_def)
  have key: "ddb_item (ingestion_key ''alice'' ''i'') = ingestion_key ''alice'' ''i''"
    by (simp add: ddb_item_def ingestion_key_def)
  have g: "get_item qy_demo_env ''t'' (ingestion_key ''alice'' ''i'') qy_demo_world = (Inr (Some qy_demo_row), qy_demo_world)"
    by (simp add: qy_demo_get key qy_demo_world_def)
  let ?d = "top_level_ints qy_demo_row"
  have "trunc_rat 7 = 7" using trunc_rat_of_int [of 7] by simp
  note demo = this dget_ints qy_demo_row_def ing_to_dynamo_def ing_demo_record_def ddb_item_def dget_Cons
  have id: "dget ?d ''ingestion_id'' = PStr ''i''" "dget ?d ''user_id'' = PStr ''alice''" "dget ?d ''filename'' = PStr ''a.wav''"
    "dget ?d ''content_type'' = PStr ''audio/wav''" "dget ?d ''size_bytes'' = PInt 7" "dget ?d ''s3_key'' = PStr ''audio/alice/i/a.wav''"
    by (simp_all add: demo)
  have st: "dget ?d ''status'' = PStr ''uploaded''" "dget ?d ''created_at'' = PStr (isoformat 0)"
    "dget ?d ''updated_at'' = PStr (isoformat 0)" "dget ?d ''transcript_status'' = PStr ''succeeded''"
    "dget ?d ''transcript'' = qy_demo_transcript" "dget ?d ''transcript_error_message'' = PNone"
    by (simp_all add: demo qy_demo_transcript_def)
  have "\<exists>t. view_transcript_of qy_demo_env qy_demo_transcript = Some t"
    by (simp add: view_transcript_of_def qy_demo_transcript_def dget_Cons opt_str_field_def opt_float_field_def opt_int_field_def
        list_field_def dget_or_def validate_segment_def qy_demo_env_def)
  then obtain t where t: "view_transcript_of qy_demo_env qy_demo_transcript = Some t" by blast
  have int: "pyd_int qy_demo_env (PInt 7) = Some 7" by (simp add: qy_demo_env_def)
  have lit: "parse_literal ingestion_status_str [IngPending, IngUploaded, IngFailed] (PStr ''uploaded'') = Some IngUploaded"
    "opt_transcript_status (PStr ''succeeded'') = Some (Some TsSucceeded)"
    by (simp_all add: parse_literal_def opt_transcript_status_def)
  have vt: "opt_view_transcript qy_demo_env qy_demo_transcript = Some (Some t)"
    using t by (simp add: opt_view_transcript_def qy_demo_transcript_def)
  have "\<exists>v. view_ingestion_of qy_demo_env qy_demo_row = Inr v"
    unfolding view_ingestion_of_def view_or_error_def validate_view_ingestion_def id st int lit pyd vt
    by (simp add: opt_str_field_def)
  then obtain v where v: "ingestion_reader_get qy_demo_env ''t'' ''alice'' ''i'' qy_demo_world = (Inr (Some v), qy_demo_world)"
    by (auto simp: ingestion_reader_get_def bindE_def g liftE_def retE_def)
  have "same_answer (map_option as_ingestion) (ingestion_reader_get qy_demo_env ''t'' ''alice'' ''i'' qy_demo_world)
      (ing_get qy_demo_env ''t'' ''alice'' ''i'' qy_demo_world)"
    by (rule ingestion_readers_agree [OF qy_demo_conversions, of _ _ _ _ 25 None, THEN conjunct1])
      (use g qy_demo_plain qy_demo_query in auto)
  with v show ?thesis by (cases "ing_get qy_demo_env ''t'' ''alice'' ''i'' qy_demo_world") (auto simp: same_answer_def)
qed

end
