(* ===== verification/Transcriber_Batch.thy ===== *)
theory Transcriber_Batch
  imports Transcribe_Worker Py_Number
begin

text \<open>
  The batch container (\<^verbatim>\<open>services/transcriber-batch\<close>): URIs (\<^verbatim>\<open>s3.py\<close>), the speech model with its
  retries and its canonical output (\<^verbatim>\<open>transcribe.py\<close>), the rows of an ingestion (\<^verbatim>\<open>ingestion.py\<close>) and of a
  session (\<^verbatim>\<open>sessions.py\<close>), and the two modes of the entry point (\<^verbatim>\<open>main.py\<close>). The record \<open>batch_env\<close>
  holds what surrounds it: the environment's variables, the files present, the rendering of foreign values and
  exceptions, and which foreign exceptions are subclasses of \<^verbatim>\<open>RuntimeError\<close>. The model's answers are finite
  numbers: an infinity or NaN is taken as an error.
\<close>

record batch_env =
  be_vars :: "string \<Rightarrow> string option"
  be_exists :: "string \<Rightarrow> bool"
  be_whisper :: bool
  be_show :: "pyval \<Rightarrow> string"
  be_repr :: "string \<Rightarrow> string"
  be_runtime :: "string \<Rightarrow> bool"
  be_class :: "exn \<Rightarrow> string"
  be_type :: "pyval \<Rightarrow> string"
  be_tmpdir :: string

section \<open>URIs\<close>

record s3_uri =
  uri_bucket :: string
  uri_key :: string

definition s3_uri_text :: "s3_uri \<Rightarrow> string" where
  "s3_uri_text u = ''s3://'' @ uri_bucket u @ ''/'' @ uri_key u"

definition uri_scheme_char :: "char \<Rightarrow> bool" where
  "uri_scheme_char c = (let n = (of_char c :: nat) in
     65 \<le> n \<and> n \<le> 90 \<or> 97 \<le> n \<and> n \<le> 122 \<or> 48 \<le> n \<and> n \<le> 57 \<or> c \<in> set ''+-.'')"

definition ascii_letter :: "char \<Rightarrow> bool" where
  "ascii_letter c = (let n = (of_char c :: nat) in 65 \<le> n \<and> n \<le> 90 \<or> 97 \<le> n \<and> n \<le> 122)"

text \<open>
  \<^verbatim>\<open>urlsplit\<close>: scheme, authority and path; \<open>None\<close> is its \<^verbatim>\<open>ValueError\<close>. Any bracket in the authority is
  refused (an IPv6 literal is not modelled).
\<close>

definition url_clean :: "string \<Rightarrow> string" where
  "url_clean url =
     filter (\<lambda>c. c \<notin> {CHR 0x09, CHR 0x0A, CHR 0x0D}) (dropWhile (\<lambda>c. (of_char c :: nat) \<le> 32) url)"

definition url_scheme :: "string \<Rightarrow> string \<times> string" where
  "url_scheme url =
     (let pre = takeWhile (\<lambda>c. c \<noteq> CHR '':'') url; rest = dropWhile (\<lambda>c. c \<noteq> CHR '':'') url in
      if rest \<noteq> [] \<and> pre \<noteq> [] \<and> ascii_letter (hd pre) \<and> list_all uri_scheme_char pre then (lower pre, tl rest) else ([], url))"

definition urlsplit :: "string \<Rightarrow> (string \<times> string \<times> string) option" where
  "urlsplit url =
     (let (scheme, rest) = url_scheme (url_clean url);
          has_netloc = starts_with rest ''//'';
          netloc = (if has_netloc then takeWhile (\<lambda>c. c \<notin> set ''/?#'') (drop 2 rest) else []);
          after = (if has_netloc then drop (length netloc + 2) rest else rest)
      in if CHR ''['' \<in> set netloc \<or> CHR '']'' \<in> set netloc then None
         else Some (scheme, netloc, takeWhile (\<lambda>c. c \<notin> set ''?#'') after))"

definition parse_s3_uri :: "batch_env \<Rightarrow> string \<Rightarrow> exn + s3_uri" where
  "parse_s3_uri B uri =
     (case urlsplit uri of
        None \<Rightarrow> Inl (ValueError ''Invalid IPv6 URL'')
      | Some (scheme, netloc, path) \<Rightarrow>
          let key = dropWhile (\<lambda>c. c = CHR ''/'') path in
          if scheme \<noteq> ''s3'' then Inl (ValueError (''expected s3:// uri, got: '' @ be_repr B uri))
          else if netloc = [] then Inl (ValueError (''s3 uri is missing a bucket: '' @ be_repr B uri))
          else if key = [] then Inl (ValueError (''s3 uri is missing a key: '' @ be_repr B uri))
          else Inr \<lparr>uri_bucket = netloc, uri_key = key\<rparr>)"

definition download_audio :: "'t env \<Rightarrow> batch_env \<Rightarrow> string \<Rightarrow> string \<Rightarrow> ('t world, unit) io" where
  "download_audio E B uri dest_path =
     bindE (liftE (parse_s3_uri B uri)) (\<lambda>u.
     bindE (invoke E (S3Download (uri_bucket u) (uri_key u) dest_path)) (\<lambda>_. retE ()))"

definition join_prefix :: "string \<Rightarrow> string \<Rightarrow> string" where
  "join_prefix prefix_uri filename =
     rev (dropWhile (\<lambda>c. c = CHR ''/'') (rev prefix_uri)) @ ''/'' @ dropWhile (\<lambda>c. c = CHR ''/'') filename"

definition upload_transcript_json :: "'t env \<Rightarrow> batch_env \<Rightarrow> string \<Rightarrow> item \<Rightarrow> ('t world, s3_uri) io" where
  "upload_transcript_json E B output_prefix transcript =
     bindE (liftE (parse_s3_uri B (join_prefix output_prefix ''transcript.json''))) (\<lambda>u.
     bindE (liftE (json_dumps transcript)) (\<lambda>body.
     bindE (invoke E (S3PutObject (uri_bucket u) (uri_key u) body ''application/json'')) (\<lambda>_. retE u)))"

section \<open>The speech model\<close>

definition whisper_load_error :: "string \<Rightarrow> exn" where
  "whisper_load_error msg = OtherError ''WhisperLoadError'' msg"

definition transcription_failed_error :: "string \<Rightarrow> exn" where
  "transcription_failed_error msg = OtherError ''TranscriptionFailedError'' msg"

fun is_error_class :: "string \<Rightarrow> exn \<Rightarrow> bool" where
  "is_error_class cls (OtherError c msg) = (c = cls)"
| "is_error_class cls _ = False"

definition py_basename :: "string \<Rightarrow> string" where
  "py_basename path = rev (takeWhile (\<lambda>c. c \<noteq> CHR ''/'') (rev path))"

text \<open>\<^verbatim>\<open>os.path.splitext(s)[0]\<close> of a file name: leading dots begin no extension.\<close>

definition py_stem :: "string \<Rightarrow> string" where
  "py_stem s =
     (if CHR ''.'' \<notin> set s then s
      else
        let root = take (length s - length (takeWhile (\<lambda>c. c \<noteq> CHR ''.'') (rev s)) - 1) s in
        if list_all (\<lambda>c. c = CHR ''.'') root then s else root)"

definition load_target :: "batch_env \<Rightarrow> string \<Rightarrow> string" where
  "load_target B model_path =
     (if be_exists B model_path then model_path
      else let stem = py_stem (py_basename model_path) in if stem = [] then ''large-v3'' else stem)"

definition load_model :: "'t env \<Rightarrow> batch_env \<Rightarrow> string \<Rightarrow> string \<Rightarrow> ('t world, unit) io" where
  "load_model E B model_path device =
     (if \<not> be_whisper B then raiseE (whisper_load_error (''whisper module is not importable; the container must include the '' @
        ''openai-whisper wheel (since 2026-05-20 it is a regular pyproject dep, not AMI-provided)''))
      else
        tryE (invoke E (LoadModel (load_target B model_path) device))
          (\<lambda>e. raiseE (whisper_load_error (''failed to load whisper model (target='' @ be_repr B (load_target B model_path) @
             '', mode='' @ (if be_exists B model_path then ''from_path'' else ''from_name'') @ '')'')))
          (\<lambda>_. retE ()))"

definition is_runtime_error :: "batch_env \<Rightarrow> exn \<Rightarrow> bool" where
  "is_runtime_error B e =
     (case e of
        RuntimeError _ \<Rightarrow> True
      | OtherError cls _ \<Rightarrow> cls = ''TranscriptionFailedError'' \<or> be_runtime B cls
      | _ \<Rightarrow> False)"

definition one_attempt :: "'t env \<Rightarrow> batch_env \<Rightarrow> string \<Rightarrow> ('t world, item) io" where
  "one_attempt E B audio_path =
     bindE (invoke E (RunModel audio_path)) (\<lambda>v.
     (case as_dict v of
        None \<Rightarrow> raiseE (transcription_failed_error (''whisper.transcribe returned a non-dict ('' @ be_type B v @ '')''))
      | Some d \<Rightarrow> retE d))"

text \<open>\<open>Suc n\<close> attempts at most; the last exception is raised again.\<close>

fun attempts :: "'t env \<Rightarrow> batch_env \<Rightarrow> string \<Rightarrow> nat \<Rightarrow> ('t world, item) io" where
  "attempts E B audio_path 0 = one_attempt E B audio_path"
| "attempts E B audio_path (Suc n) =
     tryE (one_attempt E B audio_path)
       (\<lambda>e. if is_runtime_error B e then attempts E B audio_path n else raiseE e)
       retE"

definition transcribe_with_retry :: "'t env \<Rightarrow> batch_env \<Rightarrow> string \<Rightarrow> ('t world, item) io" where
  "transcribe_with_retry E B audio_path = attempts E B audio_path 2"

text \<open>The canonical transcript; the segments have the fields of the ingestion service's model.\<close>

record canonical =
  cn_text :: string
  cn_language :: "string option"
  cn_duration :: rat
  cn_word_count :: int
  cn_segments :: "transcript_segment list"

definition py_text :: "batch_env \<Rightarrow> pyval \<Rightarrow> string" where
  "py_text B v = (case as_str v of Some s \<Rightarrow> s | None \<Rightarrow> be_show B v)"

definition finite_float :: "pyval \<Rightarrow> exn + rat" where
  "finite_float v =
     (case float_of v of
        Inl e \<Rightarrow> Inl e
      | Inr (Finite q) \<Rightarrow> Inr q
      | Inr _ \<Rightarrow> Inl (ValueError ''not a finite number''))"

definition canonical_word :: "batch_env \<Rightarrow> pyval \<Rightarrow> exn + transcript_word option" where
  "canonical_word B v =
     (case as_dict v of
        None \<Rightarrow> Inl AttributeError
      | Some word \<Rightarrow>
          if dget word ''word'' = PNone \<or> dget word ''start'' = PNone \<or> dget word ''end'' = PNone then Inr None
          else
            and_then (finite_float (dget word ''start'')) (\<lambda>s.
            and_then (finite_float (dget word ''end'')) (\<lambda>e.
            Inr (Some \<lparr>tw_text = strip (py_text B (dget word ''word'')), tw_start = s, tw_end = e\<rparr>))))"

definition canonical_segment :: "batch_env \<Rightarrow> pyval \<Rightarrow> exn + transcript_segment" where
  "canonical_segment B v =
     (case as_dict v of
        None \<Rightarrow> Inl AttributeError
      | Some seg \<Rightarrow>
          and_then (finite_float (dget_or seg ''end'' (PFloat 0))) (\<lambda>seg_end.
          and_then (resp_list v ''words'') (\<lambda>raw_words.
          and_then (map_records (canonical_word B) raw_words) (\<lambda>words.
          and_then (finite_float (dget_or seg ''start'' (PFloat 0))) (\<lambda>seg_start.
          Inr \<lparr>ts_text = strip (py_text B (dget_or seg ''text'' (PStr []))), ts_start = seg_start, ts_end = seg_end,
               ts_words = List.map_filter (\<lambda>w. w) words\<rparr>)))))"

definition to_canonical :: "batch_env \<Rightarrow> item \<Rightarrow> exn + canonical" where
  "to_canonical B raw =
     and_then (resp_list (PDict raw) ''segments'') (\<lambda>raw_segments.
     and_then (map_records (canonical_segment B) raw_segments) (\<lambda>segments.
     Inr \<lparr>cn_text = strip (py_text B (dget_or raw ''text'' (PStr []))),
          cn_language = (let v = dget raw ''language'' in if v = PNone then None else Some (py_text B v)),
          cn_duration = fold (\<lambda>s m. max m (ts_end s)) segments 0,
          cn_word_count = int (sum_list (map (\<lambda>s. length (ts_words s)) segments)),
          cn_segments = segments\<rparr>))"

definition canonical_item :: "(rat \<Rightarrow> pyval) \<Rightarrow> canonical \<Rightarrow> item" where
  "canonical_item num c =
     [(''text'', PStr (cn_text c)), (''language'', opt_val (cn_language c)), (''duration_seconds'', num (cn_duration c)),
      (''word_count'', PInt (cn_word_count c)), (''segments'', PList (map (segment_json num) (cn_segments c)))]"

definition transcribe_audio :: "'t env \<Rightarrow> batch_env \<Rightarrow> string \<Rightarrow> ('t world, canonical) io" where
  "transcribe_audio E B audio_path =
     tryE (transcribe_with_retry E B audio_path)
       (\<lambda>e. if is_error_class ''TranscriptionFailedError'' e then raiseE e
            else raiseE (transcription_failed_error (''whisper.transcribe raised '' @ be_class B e @ '' for '' @
              be_repr B audio_path @ '': '' @ str_exn E e)))
       (\<lambda>raw. liftE (to_canonical B raw))"

section \<open>Rows\<close>

definition batch_mark_uploaded :: "'t env \<Rightarrow> string \<Rightarrow> string \<Rightarrow> string \<Rightarrow> ('t world, unit) io" where
  "batch_mark_uploaded E tbl user_id ingestion_id =
     bindE (utcnow E) (\<lambda>now.
     bindE (update_item E tbl (ingestion_key user_id ingestion_id)
       [SetAttr ''status'' (PStr ''uploaded''), SetAttr ''transcript_status'' (PStr ''pending''),
        SetAttr ''updated_at'' (PStr (isoformat now))] CTrue) (\<lambda>_. retE ()))"

definition mark_succeeded :: "'t env \<Rightarrow> string \<Rightarrow> string \<Rightarrow> string \<Rightarrow> canonical \<Rightarrow> ('t world, unit) io" where
  "mark_succeeded E tbl user_id ingestion_id c =
     bindE (utcnow E) (\<lambda>now.
     bindE (update_item E tbl (ingestion_key user_id ingestion_id)
       [SetAttr ''transcript_status'' (PStr ''succeeded''), SetAttr ''transcript'' (PDict (canonical_item PDec c)),
        SetAttr ''updated_at'' (PStr (isoformat now)), RemoveAttr ''transcript_error_message''] CTrue) (\<lambda>_. retE ()))"

definition mark_failed :: "'t env \<Rightarrow> string \<Rightarrow> string \<Rightarrow> string \<Rightarrow> string \<Rightarrow> ('t world, unit) io" where
  "mark_failed E tbl user_id ingestion_id error_message =
     bindE (utcnow E) (\<lambda>now.
     bindE (update_item E tbl (ingestion_key user_id ingestion_id)
       [SetAttr ''transcript_status'' (PStr ''failed''), SetAttr ''transcript_error_message'' (PStr (take 500 error_message)),
        SetAttr ''updated_at'' (PStr (isoformat now))] CTrue) (\<lambda>_. retE ()))"

definition z_format :: "int \<Rightarrow> string" where
  "z_format now = take (length (isoformat now) - 6) (isoformat now) @ ''Z''"

definition session_status_update :: "'t env \<Rightarrow> string \<Rightarrow> string \<Rightarrow> string \<Rightarrow> item \<Rightarrow> ('t world, unit) io" where
  "session_status_update E tbl session_id status extra =
     bindE (utcnow E) (\<lambda>now.
     bindE (update_item E tbl [(''id'', PStr session_id)]
       ([SetAttr ''status'' (PStr status), SetAttr ''updated_at'' (PStr (z_format now))] @
        map (\<lambda>(field, v). SetAttr field v) extra) CTrue) (\<lambda>_. retE ()))"

definition mark_transcribing :: "'t env \<Rightarrow> string \<Rightarrow> string \<Rightarrow> ('t world, unit) io" where
  "mark_transcribing E tbl session_id = session_status_update E tbl session_id ''active'' []"

definition mark_completed :: "'t env \<Rightarrow> string \<Rightarrow> string \<Rightarrow> string \<Rightarrow> rat \<Rightarrow> int \<Rightarrow> ('t world, unit) io" where
  "mark_completed E tbl session_id transcript_uri duration_seconds word_count =
     session_status_update E tbl session_id ''completed''
       [(''transcript_uri'', PStr transcript_uri), (''duration_seconds'', PDec duration_seconds), (''word_count'', PInt word_count)]"

definition mark_errored :: "'t env \<Rightarrow> string \<Rightarrow> string \<Rightarrow> string \<Rightarrow> ('t world, unit) io" where
  "mark_errored E tbl session_id error_message =
     session_status_update E tbl session_id ''errored'' [(''error_message'', PStr (take 500 error_message))]"

section \<open>Ingestion mode\<close>

record batch_ingestion_settings =
  bi_input_bucket :: string
  bi_input_key :: string
  bi_ingestion_id :: string
  bi_user_id :: string
  bi_table :: string
  bi_aws_region :: string
  bi_model_path :: string
  bi_device :: string
  bi_log_level :: string

definition needed_var :: "batch_env \<Rightarrow> string \<Rightarrow> exn + string" where
  "needed_var B name =
     (case be_vars B name of
        None \<Rightarrow> Inl (RuntimeError (name @ '' env var is required in TARGET_MODE=ingestion''))
      | Some v \<Rightarrow> if v = [] then Inl (RuntimeError (name @ '' env var is required in TARGET_MODE=ingestion'')) else Inr v)"

definition var_or :: "batch_env \<Rightarrow> string \<Rightarrow> string \<Rightarrow> string" where
  "var_or B name dflt = (case be_vars B name of None \<Rightarrow> dflt | Some v \<Rightarrow> v)"

definition load_ingestion_settings :: "batch_env \<Rightarrow> exn + batch_ingestion_settings" where
  "load_ingestion_settings B =
     and_then (needed_var B ''S3_INPUT_BUCKET'') (\<lambda>bucket.
     and_then (needed_var B ''S3_INPUT_KEY'') (\<lambda>key.
     and_then (needed_var B ''INGESTION_ID'') (\<lambda>ingestion_id.
     and_then (needed_var B ''USER_ID'') (\<lambda>user_id.
     and_then (needed_var B ''DDB_INGESTION_TABLE'') (\<lambda>table.
     Inr \<lparr>bi_input_bucket = bucket, bi_input_key = key, bi_ingestion_id = ingestion_id, bi_user_id = user_id,
          bi_table = table, bi_aws_region = var_or B ''AWS_REGION'' ''us-east-1'',
          bi_model_path = var_or B ''MODEL_PATH'' ''/opt/whisper/models/large-v3.pt'',
          bi_device = var_or B ''DEVICE'' ''cuda'', bi_log_level = var_or B ''LOG_LEVEL'' ''INFO''\<rparr>)))))"

definition audio_path :: "batch_env \<Rightarrow> string" where
  "audio_path B = be_tmpdir B @ ''/audio.bin''"

text \<open>Download, load and transcribe, which both modes share.\<close>

definition batch_work :: "'t env \<Rightarrow> batch_env \<Rightarrow> string \<Rightarrow> string \<Rightarrow> string \<Rightarrow> ('t world, canonical) io" where
  "batch_work E B input_uri model_path device =
     bindE (download_audio E B input_uri (audio_path B)) (\<lambda>_.
     bindE (load_model E B model_path device) (\<lambda>_.
     transcribe_audio E B (audio_path B)))"

definition failure_message :: "'t env \<Rightarrow> exn \<Rightarrow> string" where
  "failure_message E e =
     (if is_error_class ''WhisperLoadError'' e then ''model load failed: ''
      else if is_error_class ''TranscriptionFailedError'' e then ''transcription failed: ''
      else ''unexpected failure: '') @ str_exn E e"

definition safe_mark_ingestion_failed :: "'t env \<Rightarrow> batch_ingestion_settings \<Rightarrow> string \<Rightarrow> ('t world, unit) io" where
  "safe_mark_ingestion_failed E S message =
     tryE (mark_failed E (bi_table S) (bi_user_id S) (bi_ingestion_id S) message) (\<lambda>e. retE ()) (\<lambda>_. retE ())"

definition input_uri :: "batch_ingestion_settings \<Rightarrow> string" where
  "input_uri S = ''s3://'' @ bi_input_bucket S @ ''/'' @ bi_input_key S"

definition run_ingestion_mode :: "'t env \<Rightarrow> batch_env \<Rightarrow> batch_ingestion_settings \<Rightarrow> ('t world, int) io" where
  "run_ingestion_mode E B S =
     tryE (batch_mark_uploaded E (bi_table S) (bi_user_id S) (bi_ingestion_id S))
       (\<lambda>e. retE 1)
       (\<lambda>_.
          tryE (bindE (batch_work E B (input_uri S) (bi_model_path S) (bi_device S)) (\<lambda>c.
                mark_succeeded E (bi_table S) (bi_user_id S) (bi_ingestion_id S) c))
            (\<lambda>e. bindE (safe_mark_ingestion_failed E S (failure_message E e)) (\<lambda>_. retE 1))
            (\<lambda>_. retE 0))"

section \<open>Streaming mode\<close>

record batch_settings =
  bs_input_uri :: string
  bs_output_prefix :: string
  bs_job_id :: string
  bs_session_id :: string
  bs_model_path :: string
  bs_sessions_table :: string
  bs_aws_region :: string
  bs_log_level :: string
  bs_device :: string

text \<open>The settings reader ignores the case of names; \<open>be_vars\<close> answers for the upper-case form.\<close>

definition present_var :: "batch_env \<Rightarrow> string \<Rightarrow> exn + string" where
  "present_var B name =
     (case be_vars B name of None \<Rightarrow> Inl (OtherError ''ValidationError'' name) | Some v \<Rightarrow> Inr v)"

definition load_settings :: "batch_env \<Rightarrow> exn + batch_settings" where
  "load_settings B =
     and_then (present_var B ''S3_INPUT_URI'') (\<lambda>input.
     and_then (present_var B ''S3_OUTPUT_PREFIX'') (\<lambda>output.
     and_then (present_var B ''JOB_ID'') (\<lambda>job.
     and_then (present_var B ''SESSION_ID'') (\<lambda>session.
     Inr \<lparr>bs_input_uri = input, bs_output_prefix = output, bs_job_id = job, bs_session_id = session,
          bs_model_path = var_or B ''MODEL_PATH'' ''/opt/whisper/models/large-v3.pt'',
          bs_sessions_table = var_or B ''SESSIONS_TABLE'' ''panakoes-dev-streaming-sessions'',
          bs_aws_region = var_or B ''AWS_REGION'' ''us-east-1'', bs_log_level = var_or B ''LOG_LEVEL'' ''INFO'',
          bs_device = var_or B ''DEVICE'' ''cuda''\<rparr>))))"

definition safe_mark_errored :: "'t env \<Rightarrow> batch_settings \<Rightarrow> string \<Rightarrow> ('t world, unit) io" where
  "safe_mark_errored E S message =
     tryE (mark_errored E (bs_sessions_table S) (bs_session_id S) message) (\<lambda>e. retE ()) (\<lambda>_. retE ())"

definition run_streaming_mode :: "'t env \<Rightarrow> batch_env \<Rightarrow> batch_settings \<Rightarrow> ('t world, int) io" where
  "run_streaming_mode E B S =
     tryE (mark_transcribing E (bs_sessions_table S) (bs_session_id S))
       (\<lambda>e. retE 1)
       (\<lambda>_.
          tryE (bindE (batch_work E B (bs_input_uri S) (bs_model_path S) (bs_device S)) (\<lambda>c.
                bindE (upload_transcript_json E B (bs_output_prefix S) (canonical_item PFloat c)) (\<lambda>u.
                mark_completed E (bs_sessions_table S) (bs_session_id S) (s3_uri_text u) (cn_duration c) (cn_word_count c))))
            (\<lambda>e. bindE (safe_mark_errored E S (failure_message E e)) (\<lambda>_. retE 1))
            (\<lambda>_. retE 0))"

section \<open>The entry point\<close>

definition batch_main :: "'t env \<Rightarrow> batch_env \<Rightarrow> ('t world, int) io" where
  "batch_main E B =
     (if lower (strip (var_or B ''TARGET_MODE'' ''streaming'')) = ''ingestion''
      then bindE (liftE (load_ingestion_settings B)) (run_ingestion_mode E B)
      else bindE (liftE (load_settings B)) (run_streaming_mode E B))"

section \<open>The object a job reads\<close>

text \<open>Characters that \<^verbatim>\<open>urlsplit\<close> leaves in place.\<close>

definition url_plain :: "char \<Rightarrow> bool" where
  "url_plain c \<longleftrightarrow> 32 < (of_char c :: nat) \<and> c \<notin> set ''?#[]''"

lemma url_plain_gt: "url_plain c \<Longrightarrow> 32 < (of_char c :: nat)"
  by (simp add: url_plain_def)

lemma url_clean_plain: "s \<noteq> [] \<Longrightarrow> list_all url_plain s \<Longrightarrow> url_clean s = s"
proof -
  assume s: "s \<noteq> []" "list_all url_plain s"
  have "32 < (of_char (hd s) :: nat)" using s by (cases s) (auto dest: url_plain_gt)
  then have "dropWhile (\<lambda>c. (of_char c :: nat) \<le> 32) s = s" by (cases s) auto
  moreover have "c \<notin> {CHR 0x09, CHR 0x0A, CHR 0x0D}" if "32 < (of_char c :: nat)" for c
    using that by auto
  then have "\<forall>c\<in>set s. c \<notin> {CHR 0x09, CHR 0x0A, CHR 0x0D}"
    using s(2) url_plain_gt unfolding list_all_iff by blast
  then have "filter (\<lambda>c. c \<notin> {CHR 0x09, CHR 0x0A, CHR 0x0D}) s = s" by (rule filter_True)
  ultimately show ?thesis by (simp only: url_clean_def)
qed

lemma url_scheme_s3: "url_scheme (''s3:'' @ t) = (''s3'', t)"
proof -
  have "ascii_letter (CHR ''s'')" "list_all uri_scheme_char ''s3''" "lower ''s3'' = ''s3''" by code_simp+
  then show ?thesis by (simp add: url_scheme_def Let_def)
qed

lemma takeWhile_cut: "(\<And>x. x \<in> set a \<Longrightarrow> P x) \<Longrightarrow> \<not> P c \<Longrightarrow> takeWhile P (a @ c # b) = a"
  by (induction a) auto

lemma parse_s3_uri_plain:
  assumes "bucket \<noteq> []" "list_all url_plain bucket" "CHR ''/'' \<notin> set bucket"
    and "key \<noteq> []" "list_all url_plain key" "hd key \<noteq> CHR ''/''"
  shows "parse_s3_uri B (''s3://'' @ bucket @ ''/'' @ key) = Inr \<lparr>uri_bucket = bucket, uri_key = key\<rparr>"
proof -
  let ?u = "''s3://'' @ bucket @ ''/'' @ key"
  have "list_all url_plain ''s3:///''" by code_simp
  then have "url_clean ?u = ?u" using assms(2,5) by (intro url_clean_plain) auto
  moreover have "url_scheme ?u = (''s3'', ''//'' @ bucket @ ''/'' @ key)" using url_scheme_s3 [of "''//'' @ bucket @ ''/'' @ key"] by simp
  moreover have "takeWhile (\<lambda>c. c \<notin> set ''/?#'') (bucket @ CHR ''/'' # key) = bucket"
    using assms(2,3) by (intro takeWhile_cut) (auto simp: list_all_iff url_plain_def)
  moreover have "takeWhile (\<lambda>c. c \<notin> set ''?#'') (CHR ''/'' # key) = CHR ''/'' # key"
    using assms(5) by (auto simp: takeWhile_eq_all_conv list_all_iff url_plain_def)
  moreover have "CHR ''['' \<notin> set bucket \<and> CHR '']'' \<notin> set bucket"
    using assms(2) by (auto simp: list_all_iff url_plain_def)
  ultimately have "urlsplit ?u = Some (''s3'', bucket, CHR ''/'' # key)"
    by (simp add: urlsplit_def starts_with_def Let_def)
  moreover have "dropWhile (\<lambda>c. c = CHR ''/'') (CHR ''/'' # key) = key" using assms(4,6) by (cases key) auto
  ultimately show ?thesis
    unfolding parse_s3_uri_def Let_def using assms(1,4) by (simp only: option.case prod.case simp_thms if_True if_False)
qed

lemma object_key_plain:
  assumes "list_all url_plain user_id" "list_all url_plain ingestion_id"
  shows "list_all url_plain (build_object_key user_id ingestion_id filename)" "hd (build_object_key user_id ingestion_id filename) \<noteq> CHR ''/''"
proof -
  have "url_plain c" if "filename_safe c" for c
    using that by (auto simp: url_plain_def filename_safe_def is_alnum_def Let_def)
  then have "list_all url_plain (sanitize_filename filename)" using sanitize_chars by (auto simp: list_all_iff)
  moreover have "list_all url_plain ''audio//''" by code_simp
  ultimately show "list_all url_plain (build_object_key user_id ingestion_id filename)"
    using assms by (simp add: build_object_key_def)
qed (simp add: build_object_key_def)

section \<open>The row a job leaves\<close>

definition transcript_of :: "canonical \<Rightarrow> transcript" where
  "transcript_of c = \<lparr>tr_text = cn_text c, tr_segments = cn_segments c, tr_language = cn_language c, tr_duration = Some (cn_duration c)\<rparr>"

lemma word_reads_back: "float_lib_ok E \<Longrightarrow> validate_word E (reads_back (word_json PDec w)) = Some w"
  by (simp add: word_json_def validate_word_def dget_Cons)

lemma segment_reads_back:
  assumes "float_lib_ok E"
  shows "validate_segment E (reads_back (segment_json PDec s)) = Some s"
proof -
  have "traverse (validate_word E) (map (\<lambda>w. reads_back (word_json PDec w)) (ts_words s)) = Some (ts_words s)"
    by (rule traverse_map) (rule word_reads_back [OF assms])
  then show ?thesis
    using assms by (simp add: segment_json_def validate_segment_def list_field_def dget_Cons dget_or_def comp_def)
qed

lemma canonical_reads_back:
  assumes "float_lib_ok E"
  shows "opt_transcript E (reads_back (PDict (canonical_item PDec c))) = Some (Some (transcript_of c))"
proof -
  have "traverse (validate_segment E) (map (\<lambda>s. reads_back (segment_json PDec s)) (cn_segments c)) = Some (cn_segments c)"
    by (rule traverse_map) (rule segment_reads_back [OF assms])
  then have "validate_transcript E (reads_back (PDict (canonical_item PDec c))) = Some (transcript_of c)"
    using assms
    by (cases "cn_language c")
      (simp_all add: canonical_item_def validate_transcript_def list_field_def dget_Cons dget_or_def comp_def
        opt_str_field_def opt_float_field_def transcript_of_def)
  then show ?thesis by (simp add: opt_transcript_def canonical_item_def)
qed

definition times_parse :: "'t env \<Rightarrow> bool" where
  "times_parse E \<longleftrightarrow> (\<forall>n. pyd_dt E (PStr (isoformat (clock E n))) = Some (clock E n))"

lemma decode_marked_uploaded:
  assumes "ing_from_dynamo E it = Inr r" "times_parse E"
  shows "ing_from_dynamo E (apply_upds [SetAttr ''status'' (PStr ''uploaded''), SetAttr ''transcript_status'' (PStr ''pending''),
        SetAttr ''updated_at'' (PStr (isoformat (clock E n)))] it) =
     Inr (r\<lparr>in_status := IngUploaded, in_transcript_status := Some TsPending, in_updated_at := clock E n\<rparr>)"
  using assms
  by (simp add: ing_from_dynamo_iff validate_ingestion_iff dget_map_value times_parse_def parse_literal_def)

lemma decode_marked_failed:
  assumes "ing_from_dynamo E it = Inr r" "times_parse E"
  shows "ing_from_dynamo E (apply_upds [SetAttr ''transcript_status'' (PStr ''failed''), SetAttr ''transcript_error_message'' (PStr m),
        SetAttr ''updated_at'' (PStr (isoformat (clock E n)))] it) =
     Inr (r\<lparr>in_transcript_status := Some TsFailed, in_transcript_error := Some m, in_updated_at := clock E n\<rparr>)"
  using assms
  by (simp add: ing_from_dynamo_iff validate_ingestion_iff dget_map_value times_parse_def opt_str_field_def)

lemma decode_with_transcript:
  assumes "ing_from_dynamo E it = Inr r" "times_parse E" "opt_transcript E (reads_back v) = Some (Some t)"
  shows "ing_from_dynamo E (apply_upds [SetAttr ''transcript_status'' (PStr ''succeeded''), SetAttr ''transcript'' v,
        SetAttr ''updated_at'' (PStr (isoformat (clock E n))), RemoveAttr ''transcript_error_message''] it) =
     Inr (r\<lparr>in_transcript_status := Some TsSucceeded, in_transcript := Some t, in_transcript_error := None,
            in_updated_at := clock E n\<rparr>)"
  using assms
  by (simp add: ing_from_dynamo_iff validate_ingestion_iff dget_map_value times_parse_def opt_str_field_def)

lemmas decode_marked_succeeded = decode_with_transcript [OF _ _ canonical_reads_back]

section \<open>The outcome of a job\<close>

text \<open>The work touches no row, and what it answers depends on the calls made before only.\<close>

lemma download_rows: "preorder_on_worlds (rows_rel V R) \<Longrightarrow> keeps (rows_rel V R) (download_audio E B u p)"
  unfolding download_audio_def by (intro keeps_intros)

lemma load_rows: "preorder_on_worlds (rows_rel V R) \<Longrightarrow> keeps (rows_rel V R) (load_model E B p d)"
  unfolding load_model_def by (auto intro!: keeps_intros)

lemma attempt_rows: "preorder_on_worlds (rows_rel V R) \<Longrightarrow> keeps (rows_rel V R) (one_attempt E B p)"
  unfolding one_attempt_def by (auto intro!: keeps_intros split: option.split)

lemma attempts_rows: "preorder_on_worlds (rows_rel V R) \<Longrightarrow> keeps (rows_rel V R) (attempts E B p n)"
  by (induction n) (auto intro!: keeps_intros attempt_rows)

lemma work_rows:
  assumes "preorder_on_worlds (rows_rel V R)"
  shows "keeps (rows_rel V R) (batch_work E B u p d)"
  unfolding batch_work_def transcribe_audio_def transcribe_with_retry_def
  by (auto intro!: keeps_intros download_rows load_rows attempts_rows assms)

lemma work_same_rows:
  assumes "batch_work E B u p d w = (r, w')"
  shows "rows V w' = rows V w"
proof -
  have pre: "preorder_on_worlds (rows_rel V (=))" by (rule preorder_rows_rel) auto
  from keepsD [OF work_rows [OF pre] assms] show ?thesis by (simp add: rows_rel_def)
qed

lemma utc_bind: "bindE (utcnow E) f w = f (clock E (ticks w)) (w\<lparr>ticks := Suc (ticks w)\<rparr>)"
  by (simp add: bindE_def utcnow_def tick_def)

lemma store_row_twice: "store_row (store_row v tbl k a) tbl k b = store_row v tbl k b"
  by (rule ext)+ (simp add: store_row_apply)

text \<open>The three states a job moves the record of its ingestion through.\<close>

definition pending_job :: "ingestion_record \<Rightarrow> int \<Rightarrow> ingestion_record" where
  "pending_job r t = r\<lparr>in_status := IngUploaded, in_transcript_status := Some TsPending, in_updated_at := t\<rparr>"

definition succeeded_job :: "ingestion_record \<Rightarrow> canonical \<Rightarrow> int \<Rightarrow> ingestion_record" where
  "succeeded_job r c t = r\<lparr>in_transcript_status := Some TsSucceeded, in_transcript := Some (transcript_of c),
     in_transcript_error := None, in_updated_at := t\<rparr>"

definition failed_job :: "ingestion_record \<Rightarrow> string \<Rightarrow> int \<Rightarrow> ingestion_record" where
  "failed_job r m t = r\<lparr>in_transcript_status := Some TsFailed, in_transcript_error := Some (take 500 m), in_updated_at := t\<rparr>"

abbreviation job_key :: "batch_ingestion_settings \<Rightarrow> item" where
  "job_key S \<equiv> ingestion_key (bi_user_id S) (bi_ingestion_id S)"

lemmas job_written = update_row_written [of E V tbl "ingestion_key uid iid" for E V tbl uid iid, simplified]

lemma batch_mark_uploaded_written:
  assumes "ddb_ok E V" "times_parse E" "batch_mark_uploaded E tbl uid iid w = (q, w')"
    and "rows V w tbl (ingestion_key uid iid) = Some row" "ing_from_dynamo E row = Inr r"
  shows "\<exists>new. row_written V tbl (ingestion_key uid iid) new q w w' \<and> trace w' = trace w \<and>
    ing_from_dynamo E new = Inr (pending_job r (clock E (ticks w)))"
  using job_written [OF assms(1) assms(3) [unfolded batch_mark_uploaded_def utc_bind], simplified, OF assms(4)]
    decode_marked_uploaded [OF assms(5,2)]
  by (auto simp: row_written_def pending_job_def)

lemma mark_succeeded_written:
  assumes "ddb_ok E V" "float_lib_ok E" "times_parse E" "mark_succeeded E tbl uid iid c w = (q, w')"
    and "rows V w tbl (ingestion_key uid iid) = Some row" "ing_from_dynamo E row = Inr r"
  shows "\<exists>new. row_written V tbl (ingestion_key uid iid) new q w w' \<and> trace w' = trace w \<and>
    ing_from_dynamo E new = Inr (succeeded_job r c (clock E (ticks w)))"
  using job_written [OF assms(1) assms(4) [unfolded mark_succeeded_def utc_bind], simplified, OF assms(5)]
    decode_marked_succeeded [OF assms(6,3,2)]
  by (auto simp: row_written_def succeeded_job_def)

lemma mark_failed_written:
  assumes "ddb_ok E V" "times_parse E" "mark_failed E tbl uid iid m w = (q, w')"
    and "rows V w tbl (ingestion_key uid iid) = Some row" "ing_from_dynamo E row = Inr r"
  shows "\<exists>new. row_written V tbl (ingestion_key uid iid) new q w w' \<and> trace w' = trace w \<and>
    ing_from_dynamo E new = Inr (failed_job r m (clock E (ticks w)))"
  using job_written [OF assms(1) assms(3) [unfolded mark_failed_def utc_bind], simplified, OF assms(4)]
    decode_marked_failed [OF assms(5,2)]
  by (auto simp: row_written_def failed_job_def)

text \<open>A row that decodes to \<open>base\<close> after the job tried to record the failure \<open>m\<close> in it.\<close>

definition failure_recorded :: "'t env \<Rightarrow> batch_ingestion_settings \<Rightarrow> string \<Rightarrow> 't world \<Rightarrow> ingestion_record \<Rightarrow> item \<Rightarrow> bool" where
  "failure_recorded E S m w base new \<longleftrightarrow>
     (case fst (mark_failed E (bi_table S) (bi_user_id S) (bi_ingestion_id S) m w) of
        Inr _ \<Rightarrow> ing_from_dynamo E new = Inr (failed_job base m (clock E (ticks w)))
      | Inl _ \<Rightarrow> ing_from_dynamo E new \<in> {Inr base, Inr (failed_job base m (clock E (ticks w)))})"

lemma safe_mark_records:
  assumes "ddb_ok E V" "times_parse E" "safe_mark_ingestion_failed E S m w = (q, w')"
    and "rows V w = store_row v (bi_table S) (job_key S) row" "ing_from_dynamo E row = Inr base"
  shows "q = Inr () \<and> trace w' = trace w \<and>
    (\<exists>new. rows V w' = store_row v (bi_table S) (job_key S) new \<and> failure_recorded E S m w base new)"
proof -
  obtain p w1 where m: "mark_failed E (bi_table S) (bi_user_id S) (bi_ingestion_id S) m w = (p, w1)" by fastforce
  then have "q = Inr ()" "w' = w1"
    using assms(3) by (auto simp: safe_mark_ingestion_failed_def tryE_def retE_def split: sum.splits)
  moreover from mark_failed_written [OF assms(1,2) m _ assms(5)] assms(4) obtain new where
    "row_written V (bi_table S) (job_key S) new p w w1" "trace w1 = trace w"
    "ing_from_dynamo E new = Inr (failed_job base m (clock E (ticks w)))"
    by (auto simp: store_row_apply)
  moreover have "rows V w1 = store_row v (bi_table S) (job_key S) new \<or>
      (\<exists>e. p = Inl e) \<and> rows V w1 = store_row v (bi_table S) (job_key S) row"
    using calculation(3) assms(4) by (auto simp: row_written_def store_row_twice)
  ultimately show ?thesis using assms(5) m
    by (cases p) (auto simp: failure_recorded_def)
qed

text \<open>What a job leaves after its work answered with \<open>work\<close> in the world \<open>w2\<close>.\<close>

definition job_ended :: "'t env \<Rightarrow> batch_ingestion_settings \<Rightarrow> ingestion_record \<Rightarrow> exn + canonical \<Rightarrow> 't world \<Rightarrow>
    exn + int \<Rightarrow> item \<Rightarrow> bool" where
  "job_ended E S base work w2 res new \<longleftrightarrow>
     (case work of
        Inl e \<Rightarrow> res = Inr 1 \<and> failure_recorded E S (failure_message E e) w2 base new
      | Inr c \<Rightarrow>
          let marked = mark_succeeded E (bi_table S) (bi_user_id S) (bi_ingestion_id S) c w2;
              finished = succeeded_job base c (clock E (ticks w2)) in
          (case fst marked of
             Inr _ \<Rightarrow> res = Inr 0 \<and> ing_from_dynamo E new = Inr finished
           | Inl e \<Rightarrow> res = Inr 1 \<and>
               (failure_recorded E S (failure_message E e) (snd marked) base new \<or>
                failure_recorded E S (failure_message E e) (snd marked) finished new)))"

lemma job_after_work:
  assumes "ddb_ok E V" "float_lib_ok E" "times_parse E"
    and "batch_work E B (input_uri S) (bi_model_path S) (bi_device S) w1 = (work, w2)"
    and "tryE (bindE (batch_work E B (input_uri S) (bi_model_path S) (bi_device S)) (\<lambda>c.
                mark_succeeded E (bi_table S) (bi_user_id S) (bi_ingestion_id S) c))
            (\<lambda>e. bindE (safe_mark_ingestion_failed E S (failure_message E e)) (\<lambda>_. retE 1))
            (\<lambda>_. retE 0) w1 = (res, w')"
    and "rows V w1 = store_row v (bi_table S) (job_key S) row" "ing_from_dynamo E row = Inr base"
  shows "trace w' = trace w2 \<and>
    (\<exists>new. rows V w' = store_row v (bi_table S) (job_key S) new \<and> job_ended E S base work w2 res new)"
proof -
  have r2: "rows V w2 = store_row v (bi_table S) (job_key S) row" using work_same_rows [OF assms(4)] assms(6) by simp
  have failing: "\<exists>new. trace w' = trace wf \<and> res = Inr 1 \<and> rows V w' = store_row v (bi_table S) (job_key S) new \<and>
      failure_recorded E S m wf b new"
    if "bindE (safe_mark_ingestion_failed E S m) (\<lambda>_. retE 1) wf = (res, w')"
      "rows V wf = store_row v (bi_table S) (job_key S) it" "ing_from_dynamo E it = Inr b" for m wf it b
  proof -
    obtain q w3 where sm: "safe_mark_ingestion_failed E S m wf = (q, w3)" by fastforce
    from safe_mark_records [OF assms(1,3) this that(2,3)] that(1) sm show ?thesis by (auto simp: bindE_def retE_def)
  qed
  show ?thesis
  proof (cases work)
    case (Inl e)
    then have "bindE (safe_mark_ingestion_failed E S (failure_message E e)) (\<lambda>_. retE 1) w2 = (res, w')"
      using assms(4,5) by (simp add: tryE_def bindE_def)
    from failing [OF this r2 assms(7)] Inl show ?thesis by (auto simp: job_ended_def)
  next
    case (Inr c)
    obtain q w3 where m: "mark_succeeded E (bi_table S) (bi_user_id S) (bi_ingestion_id S) c w2 = (q, w3)" by fastforce
    from mark_succeeded_written [OF assms(1-3) m _ assms(7)] r2 obtain new where
      new: "row_written V (bi_table S) (job_key S) new q w2 w3" "trace w3 = trace w2"
        "ing_from_dynamo E new = Inr (succeeded_job base c (clock E (ticks w2)))"
      by (auto simp: store_row_apply)
    have r3: "rows V w3 = store_row v (bi_table S) (job_key S) new \<or>
        (\<exists>e. q = Inl e) \<and> rows V w3 = store_row v (bi_table S) (job_key S) row"
      using new(1) r2 by (auto simp: row_written_def store_row_twice)
    show ?thesis
    proof (cases q)
      case (Inl e)
      then have "bindE (safe_mark_ingestion_failed E S (failure_message E e)) (\<lambda>_. retE 1) w3 = (res, w')"
        using assms(4,5) \<open>work = Inr c\<close> m by (simp add: tryE_def bindE_def)
      note f = failing [OF this]
      from r3 f [OF _ new(3)] f [OF _ assms(7)] new(2) Inl \<open>work = Inr c\<close> m show ?thesis
        by (auto simp: job_ended_def)
    next
      case marked: (Inr u)
      then have "res = Inr 0" "w' = w3"
        using assms(4,5) \<open>work = Inr c\<close> m by (simp_all add: tryE_def bindE_def retE_def)
      with r3 new(2,3) marked \<open>work = Inr c\<close> m show ?thesis by (auto simp: job_ended_def)
    qed
  qed
qed

text \<open>
  C16. What a batch job leaves in a row that the ingestion service reads, whatever the store answers to its
  writes. The row is marked \<^verbatim>\<open>uploaded\<close> and \<^verbatim>\<open>pending\<close> first; if that write fails the job exits with 1
  and does no work. Otherwise the work is done (download, model load, transcription). If it answers a transcript
  and the store acknowledges its write, the job exits with 0, and the row decodes to exactly that transcript. In every other
  case it exits with 1: the failure of the work, or of the write of the transcript, is
  recorded with a message of at most 500 characters if the store takes that write; if it does not, the row
  is what the writes before left (\<^verbatim>\<open>pending\<close>, or the transcript whose write lost its answer) or the
  recorded failure. So exit code 0 means that the transcript is stored. No other row and no other field changes.
\<close>

theorem batch_job_outcome:
  assumes "ddb_ok E V" "float_lib_ok E" "times_parse E"
    and "rows V w (bi_table S) (job_key S) = Some row" "ing_from_dynamo E row = Inr r"
    and "run_ingestion_mode E B S w = (res, w')"
  shows "case fst (batch_mark_uploaded E (bi_table S) (bi_user_id S) (bi_ingestion_id S) w) of
      Inl _ \<Rightarrow> res = Inr 1 \<and> trace w' = trace w \<and>
        (rows V w' = rows V w \<or>
         (\<exists>new. rows V w' = store_row (rows V w) (bi_table S) (job_key S) new \<and>
            ing_from_dynamo E new = Inr (pending_job r (clock E (ticks w)))))
    | Inr _ \<Rightarrow> \<exists>w1 work w2 new.
        trace w1 = trace w \<and> batch_work E B (input_uri S) (bi_model_path S) (bi_device S) w1 = (work, w2) \<and>
        trace w' = trace w2 \<and> rows V w' = store_row (rows V w) (bi_table S) (job_key S) new \<and>
        job_ended E S (pending_job r (clock E (ticks w))) work w2 res new"
proof -
  obtain q w1 where m1: "batch_mark_uploaded E (bi_table S) (bi_user_id S) (bi_ingestion_id S) w = (q, w1)" by fastforce
  from batch_mark_uploaded_written [OF assms(1,3) m1 assms(4,5)] obtain new where
    new: "row_written V (bi_table S) (job_key S) new q w w1" "trace w1 = trace w"
      "ing_from_dynamo E new = Inr (pending_job r (clock E (ticks w)))" by blast
  show ?thesis
  proof (cases q)
    case (Inl e)
    with assms(6) m1 have "res = Inr 1" "w' = w1" by (simp_all add: run_ingestion_mode_def tryE_def retE_def)
    with new Inl m1 show ?thesis by (auto simp: row_written_def)
  next
    case (Inr u)
    with new(1) have r1: "rows V w1 = store_row (rows V w) (bi_table S) (job_key S) new" by (simp add: row_written_def)
    obtain work w2 where wk: "batch_work E B (input_uri S) (bi_model_path S) (bi_device S) w1 = (work, w2)" by fastforce
    from assms(6) m1 Inr have go: "tryE (bindE (batch_work E B (input_uri S) (bi_model_path S) (bi_device S)) (\<lambda>c.
                mark_succeeded E (bi_table S) (bi_user_id S) (bi_ingestion_id S) c))
            (\<lambda>e. bindE (safe_mark_ingestion_failed E S (failure_message E e)) (\<lambda>_. retE 1))
            (\<lambda>_. retE 0) w1 = (res, w')"
      by (simp add: run_ingestion_mode_def tryE_def)
    from job_after_work [OF assms(1-3) wk go r1 new(3)] new(2) wk m1 Inr show ?thesis by auto
  qed
qed

section \<open>The model is called three times at most\<close>

lemma one_attempt_trace: "trace (snd (one_attempt E B p w)) = trace w @ [RunModel p]"
  by (simp add: one_attempt_def bindE_def invoke_def raiseE_def retE_def split: sum.split option.split)

lemma attempts_calls:
  "\<exists>m. m \<le> Suc n \<and> trace (snd (attempts E B p n w)) = trace w @ replicate m (RunModel p)"
proof (induction n arbitrary: w)
  case 0
  show ?case by (rule exI [of _ "Suc 0"]) (simp add: one_attempt_trace)
next
  case (Suc n)
  obtain r w1 where a: "one_attempt E B p w = (r, w1)" by fastforce
  then have t: "trace w1 = trace w @ [RunModel p]" using one_attempt_trace [of E B p w] by simp
  show ?case
  proof (cases "\<exists>e. r = Inl e \<and> is_runtime_error B e")
    case True
    then obtain e where e: "r = Inl e" "is_runtime_error B e" by blast
    from Suc [of w1] obtain m where m: "m \<le> Suc n" "trace (snd (attempts E B p n w1)) = trace w1 @ replicate m (RunModel p)"
      by blast
    have "attempts E B p (Suc n) w = attempts E B p n w1" using a e by (simp add: tryE_def)
    then have "trace (snd (attempts E B p (Suc n) w)) = trace w @ replicate (Suc m) (RunModel p)"
      using m(2) t by (simp only: append_assoc append.simps replicate_Suc)
    with m(1) show ?thesis by (intro exI [of _ "Suc m"]) (simp only: Suc_le_mono simp_thms)
  next
    case False
    then have "snd (attempts E B p (Suc n) w) = w1"
      using a by (cases r) (simp_all add: tryE_def raiseE_def retE_def)
    with t show ?thesis by (intro exI [of _ "Suc 0"]) simp
  qed
qed

lemma transcribe_calls_bounded:
  "\<exists>m. m \<le> 3 \<and> trace (snd (transcribe_with_retry E B p w)) = trace w @ replicate m (RunModel p)"
  using attempts_calls [of 2 E B p w] by (simp add: transcribe_with_retry_def)

section \<open>A dispatched job\<close>

text \<open>The variables of a submitted job override those of its definition.\<close>

definition runs_job :: "call \<Rightarrow> (string \<Rightarrow> string option) \<Rightarrow> batch_env \<Rightarrow> bool" where
  "runs_job job base B \<longleftrightarrow>
     (\<exists>name queue defn vars. job = BatchSubmit name queue defn vars \<and>
        be_vars B = (\<lambda>n. case map_of vars n of None \<Rightarrow> base n | Some v \<Rightarrow> Some v))"

text \<open>
  C17. The worker and the batch container agree: a job that the worker submitted for an upload runs in ingestion mode
  on the row of that upload, and the object it asks S3 for is the one the ingestion service presigned, for every
  file name, as long as bucket and identifiers hold no character that a URI reserves.
\<close>

theorem dispatched_job_fetches_upload:
  assumes "runs_job (batch_call W WS user_id ingestion_id (build_object_key user_id ingestion_id filename)) base B"
    and "wk_bucket WS \<noteq> []" "list_all url_plain (wk_bucket WS)" "CHR ''/'' \<notin> set (wk_bucket WS)"
    and "wk_table WS \<noteq> []" "user_id \<noteq> []" "list_all url_plain user_id" "ingestion_id \<noteq> []" "list_all url_plain ingestion_id"
  shows "\<exists>S. batch_main E B = run_ingestion_mode E B S \<and>
    bi_table S = wk_table WS \<and> bi_user_id S = user_id \<and> bi_ingestion_id S = ingestion_id \<and>
    download_audio E B (input_uri S) dest =
      bindE (invoke E (S3Download (wk_bucket WS) (build_object_key user_id ingestion_id filename) dest)) (\<lambda>_. retE ())"
proof -
  let ?key = "build_object_key user_id ingestion_id filename"
  have key: "?key \<noteq> []" by (simp add: build_object_key_def)
  have vars: "be_vars B ''TARGET_MODE'' = Some ''ingestion''" "be_vars B ''S3_INPUT_BUCKET'' = Some (wk_bucket WS)"
    "be_vars B ''S3_INPUT_KEY'' = Some ?key" "be_vars B ''INGESTION_ID'' = Some ingestion_id"
    "be_vars B ''USER_ID'' = Some user_id" "be_vars B ''DDB_INGESTION_TABLE'' = Some (wk_table WS)"
    using assms(1) by (auto simp: runs_job_def batch_call_def)
  have mode: "lower (strip ''ingestion'') = ''ingestion''" by code_simp
  obtain S where S: "load_ingestion_settings B = Inr S" and f: "bi_table S = wk_table WS" "bi_user_id S = user_id"
    "bi_ingestion_id S = ingestion_id" "bi_input_bucket S = wk_bucket WS" "bi_input_key S = ?key"
    using vars assms(2,5,6,8) key by (auto simp: load_ingestion_settings_def needed_var_def)
  have "batch_main E B = run_ingestion_mode E B S"
    using mode by (simp add: batch_main_def var_or_def vars(1) S bindE_def liftE_def fun_eq_iff)
  moreover have "parse_s3_uri B (input_uri S) = Inr \<lparr>uri_bucket = wk_bucket WS, uri_key = ?key\<rparr>"
    unfolding input_uri_def f
    by (rule parse_s3_uri_plain [OF assms(2-4) key object_key_plain [OF assms(7,9)]])
  ultimately show ?thesis using f by (auto simp: download_audio_def bindE_def liftE_def fun_eq_iff)
qed

section \<open>The streaming mode\<close>

text \<open>
  The streaming mode never does anything. It addresses a session by the attribute \<open>id\<close>; the table of sessions is
  keyed by \<open>session_id\<close>, and DynamoDB refuses an update whose key is not the table's. So the first update fails, and
  the job exits with 1 before any download.
\<close>

lemma streaming_mode_never_runs:
  assumes "\<And>k us c t. map fst k \<noteq> key_attrs E (bs_sessions_table S) \<Longrightarrow>
      \<exists>e. d_update E (bs_sessions_table S) k us c t = (Inl e, t)"
    and "key_attrs E (bs_sessions_table S) = [''session_id'']"
  shows "\<exists>w'. run_streaming_mode E B S w = (Inr 1, w') \<and> trace w' = trace w \<and> db w' = db w"
proof -
  obtain e where e: "d_update E (bs_sessions_table S) [(''id'', PStr (bs_session_id S))]
      [SetAttr ''status'' (PStr ''active''), SetAttr ''updated_at'' (PStr (z_format (clock E (ticks w))))] CTrue (db w) = (Inl e, db w)"
    using assms by fastforce
  have "mark_transcribing E (bs_sessions_table S) (bs_session_id S) w = (Inl e, w\<lparr>ticks := Suc (ticks w)\<rparr>)"
    unfolding mark_transcribing_def session_status_update_def utc_bind
    using e by (simp add: bindE_def update_item_def on_db_def)
  then show ?thesis by (simp add: run_streaming_mode_def tryE_def retE_def)
qed

section \<open>Witnesses\<close>

definition batch_demo_answers :: "call list \<Rightarrow> call \<Rightarrow> exn + pyval" where
  "batch_demo_answers cs c = (case c of RunModel _ \<Rightarrow> Inr (PDict [(''text'', PStr ''hi'')]) | _ \<Rightarrow> Inr PNone)"

definition batch_demo_vars :: "string \<Rightarrow> string option" where
  "batch_demo_vars n = map_of [(''TARGET_MODE'', ''ingestion''), (''S3_INPUT_BUCKET'', ''b''),
     (''S3_INPUT_KEY'', build_object_key ''alice'' ''i'' ''a.wav''), (''INGESTION_ID'', ''i''), (''USER_ID'', ''alice''),
     (''DDB_INGESTION_TABLE'', ''t'')] n"

definition batch_demo :: batch_env where
  "batch_demo = \<lparr>be_vars = batch_demo_vars, be_exists = (\<lambda>p. False), be_whisper = True, be_show = (\<lambda>v. []), be_repr = (\<lambda>s. s),
     be_runtime = (\<lambda>c. False), be_class = (\<lambda>e. []), be_type = (\<lambda>v. []), be_tmpdir = ''/tmp''\<rparr>"

definition batch_demo_settings :: batch_ingestion_settings where
  "batch_demo_settings = \<lparr>bi_input_bucket = ''b'', bi_input_key = ''audio/alice/i/a.wav'', bi_ingestion_id = ''i'',
     bi_user_id = ''alice'', bi_table = ''t'', bi_aws_region = ''r'', bi_model_path = ''m'', bi_device = ''cuda'', bi_log_level = ''INFO''\<rparr>"

definition batch_demo_canonical :: canonical where
  "batch_demo_canonical = \<lparr>cn_text = ''hi'', cn_language = None, cn_duration = 0, cn_word_count = 0, cn_segments = []\<rparr>"

lemma batch_demo_work:
  "\<exists>w'. batch_work (ing_demo_env batch_demo_answers) batch_demo (input_uri batch_demo_settings) p d w =
     (Inr batch_demo_canonical, w')"
proof -
  have u: "parse_s3_uri batch_demo (input_uri batch_demo_settings) = Inr \<lparr>uri_bucket = ''b'', uri_key = ''audio/alice/i/a.wav''\<rparr>"
    by code_simp
  have c: "to_canonical batch_demo [(''text'', PStr ''hi'')] = Inr batch_demo_canonical" by code_simp
  have s: "svc (ing_demo_env batch_demo_answers) = batch_demo_answers" by (simp add: ing_demo_env_def)
  show ?thesis
    by (simp add: batch_work_def download_audio_def load_model_def transcribe_audio_def transcribe_with_retry_def numeral_2_eq_2
        one_attempt_def bindE_def tryE_def liftE_def retE_def invoke_def u c s batch_demo_answers_def)
      (simp add: batch_demo_def)
qed

theorem batch_job_outcome_witness:
  "\<exists>w' new t. run_ingestion_mode (ing_demo_env batch_demo_answers) batch_demo batch_demo_settings (ing_demo_world None) = (Inr 0, w') \<and>
     rows mem_view w' ''t'' (ingestion_key ''alice'' ''i'') = Some new \<and>
     ing_from_dynamo (ing_demo_env batch_demo_answers) new =
       Inr (succeeded_job (pending_job (ing_demo_record None) 0) batch_demo_canonical t)"
proof -
  let ?E = "ing_demo_env batch_demo_answers" and ?S = batch_demo_settings
  have S: "bi_table ?S = ''t''" "bi_user_id ?S = ''alice''" "bi_ingestion_id ?S = ''i''"
    by (simp_all add: batch_demo_settings_def)
  have times: "times_parse ?E" and clk: "clock ?E n = 0" for n by (simp_all add: times_parse_def ing_demo_env_def mem_env_def)
  have row: "rows mem_view (ing_demo_world None) (bi_table ?S) (job_key ?S) = Some (ing_demo_row None)"
    unfolding S by (rule ing_demo_row_stored)
  have answers: "fst (bindE (update_item ?E tbl k us CTrue) (\<lambda>_. retE ()) w) = Inr ()" for tbl k us w
    by (simp add: bindE_def ing_demo_update retE_def)
  have first: "fst (batch_mark_uploaded ?E tbl u i w) = Inr ()" for tbl u i w
    by (simp add: batch_mark_uploaded_def utc_bind answers)
  have second: "fst (mark_succeeded ?E tbl u i c w) = Inr ()" for tbl u i c w
    by (simp add: mark_succeeded_def utc_bind answers)
  obtain res w' where run: "run_ingestion_mode ?E batch_demo ?S (ing_demo_world None) = (res, w')" by fastforce
  from batch_job_outcome [OF ing_demo_ok ing_demo_floats times row ing_demo_decode run] obtain w1 work w2 new where
    wk: "batch_work ?E batch_demo (input_uri ?S) (bi_model_path ?S) (bi_device ?S) w1 = (work, w2)"
    and st: "rows mem_view w' = store_row (rows mem_view (ing_demo_world None)) (bi_table ?S) (job_key ?S) new"
    and out: "job_ended ?E ?S (pending_job (ing_demo_record None) 0) work w2 res new"
    by (auto simp: first clk)
  have "work = Inr batch_demo_canonical" using batch_demo_work [of "bi_model_path ?S" "bi_device ?S" w1] wk by auto
  with out st run show ?thesis by (auto simp: store_row_apply S job_ended_def second Let_def)
qed

theorem dispatched_job_fetches_upload_witness:
  "\<exists>S. batch_main (ing_demo_env batch_demo_answers) batch_demo = run_ingestion_mode (ing_demo_env batch_demo_answers) batch_demo S \<and>
     download_audio (ing_demo_env batch_demo_answers) batch_demo (input_uri S) ''/tmp/audio.bin'' =
       bindE (invoke (ing_demo_env batch_demo_answers) (S3Download ''b'' (build_object_key ''alice'' ''i'' ''a.wav'') ''/tmp/audio.bin''))
         (\<lambda>_. retE ())"
proof -
  have job: "runs_job (batch_call (worker_demo_env ''batch'' demo_backend) worker_demo_settings ''alice'' ''i''
      (build_object_key ''alice'' ''i'' ''a.wav'')) (\<lambda>n. None) batch_demo"
    by (simp add: runs_job_def batch_call_def batch_demo_def batch_demo_vars_def worker_demo_settings_def fun_eq_iff split: option.split)
  have plain: "list_all url_plain ''b''" "list_all url_plain ''alice''" "list_all url_plain ''i''" by code_simp+
  from dispatched_job_fetches_upload [OF job _ _ _ _ _ plain(2) _ plain(3), of "ing_demo_env batch_demo_answers" "''/tmp/audio.bin''"] plain(1)
  show ?thesis by (auto simp: worker_demo_settings_def)
qed

definition keyed_env :: "mem env" where
  "keyed_env = (mem_env (\<lambda>t. [''session_id'']) (\<lambda>cs c. Inr PNone))\<lparr>d_update := \<lambda>tbl k us c t.
     if map fst k = [''session_id''] then d_update (mem_env (\<lambda>t. [''session_id'']) (\<lambda>cs c. Inr PNone)) tbl k us c t
     else (Inl (ClientError ''ValidationException'' []), t)\<rparr>"

definition streaming_demo_settings :: batch_settings where
  "streaming_demo_settings = \<lparr>bs_input_uri = ''s3://b/k'', bs_output_prefix = ''s3://b/out'', bs_job_id = ''j'', bs_session_id = ''s'',
     bs_model_path = ''m'', bs_sessions_table = ''t'', bs_aws_region = ''r'', bs_log_level = ''INFO'', bs_device = ''cuda''\<rparr>"

end
