(* ===== verification/Notification.thy ===== *)
theory Notification
  imports Query_Api Transcriber_Batch
begin

text \<open>
  The notification service (\<^verbatim>\<open>services/notification\<close>): its bearer gate, which also admits service tokens
  (\<^verbatim>\<open>auth.py\<close>), the templates (\<^verbatim>\<open>templates_loader.py\<close>), the two senders (\<^verbatim>\<open>clients/ses.py\<close>,
  \<^verbatim>\<open>clients/webhook.py\<close>), the store (\<^verbatim>\<open>storage/dynamodb.py\<close>) and the routes (\<^verbatim>\<open>routes/notify.py\<close>,
  \<^verbatim>\<open>routes/notifications.py\<close>). The template engine and the HTTP client's exception classes are parameters;
  the requests are the records the framework's validation yields.
\<close>

section \<open>The bearer gate\<close>

record sender =
  sd_user_id :: string
  sd_email :: string
  sd_session_id :: string
  sd_actor_type :: string

definition verify_sender :: "jwt_lib \<Rightarrow> string \<Rightarrow> jwt_settings \<Rightarrow> exn + sender" where
  "verify_sender L token S =
     (case decode L (jwt_secret S) [''HS256''] (jwt_issuer S) (jwt_audience S) token of
        Inl e \<Rightarrow> Inl (on_jwt_error (unauthorized ''token expired'') (unauthorized ''invalid token'') e)
      | Inr payload \<Rightarrow>
          (case (nonempty_str (dget payload ''sub''), nonempty_str (dget payload ''email''), nonempty_str (dget payload ''jti'')) of
             (Some sub, Some email, Some jti) \<Rightarrow>
               (case as_str (dget_or payload ''actor_type'' (PStr ''user'')) of
                  None \<Rightarrow> Inl (unauthorized ''invalid token claims'')
                | Some actor \<Rightarrow>
                    if actor \<in> {''user'', ''service''}
                    then Inr \<lparr>sd_user_id = sub, sd_email = email, sd_session_id = jti, sd_actor_type = actor\<rparr>
                    else Inl (unauthorized ''invalid token claims''))
           | _ \<Rightarrow> Inl (unauthorized ''invalid token claims'')))"

definition current_sender :: "jwt_lib \<Rightarrow> string option \<Rightarrow> jwt_settings \<Rightarrow> exn + sender" where
  "current_sender L authorization S =
     (case extract_bearer_token authorization of
        None \<Rightarrow> Inl (unauthorized ''missing or malformed Authorization header'')
      | Some token \<Rightarrow> verify_sender L token S)"

section \<open>Requests, settings and records\<close>

record email_request =
  er_to :: string
  er_subject :: string
  er_template :: string
  er_vars :: item

record webhook_request =
  wq_url :: string
  wq_payload :: item
  wq_headers :: "item option"

record notify_settings =
  ny_table :: string
  ny_list_max_limit :: int
  ny_from_address :: string
  ny_max_attempts :: int
  ny_base_backoff :: rat

datatype channel = EmailChannel | WebhookChannel

fun channel_str :: "channel \<Rightarrow> string" where
  "channel_str EmailChannel = ''email''"
| "channel_str WebhookChannel = ''webhook''"

datatype delivery = Sent | Failed

fun delivery_str :: "delivery \<Rightarrow> string" where
  "delivery_str Sent = ''sent''"
| "delivery_str Failed = ''failed''"

record notification_record =
  no_notification_id :: string
  no_user_id :: string
  no_channel :: channel
  no_status :: delivery
  no_target :: string
  no_subject :: "string option"
  no_template :: "string option"
  no_error :: "string option"
  no_attempts :: int
  no_created_at :: int

text \<open>\<open>NotificationRecord.model_validate\<close>: the number of attempts is \<open>1\<close> when it is absent.\<close>

definition validate_notification :: "'t env \<Rightarrow> item \<Rightarrow> notification_record option" where
  "validate_notification E d =
     (case (as_str (dget d ''notification_id''), as_str (dget d ''user_id''),
            parse_literal channel_str [EmailChannel, WebhookChannel] (dget d ''channel''),
            parse_literal delivery_str [Sent, Failed] (dget d ''status''), as_str (dget d ''target'')) of
        (Some nid, Some uid, Some ch, Some st, Some target) \<Rightarrow>
          (case (opt_str_field (dget d ''subject''), opt_str_field (dget d ''template''), opt_str_field (dget d ''error''),
                 pyd_int E (dget_or d ''attempts'' (PInt 1)), pyd_dt E (dget d ''created_at'')) of
             (Some subject, Some template, Some err, Some n, Some c) \<Rightarrow>
               Some \<lparr>no_notification_id = nid, no_user_id = uid, no_channel = ch, no_status = st, no_target = target,
                     no_subject = subject, no_template = template, no_error = err, no_attempts = n, no_created_at = c\<rparr>
           | _ \<Rightarrow> None)
      | _ \<Rightarrow> None)"

section \<open>The templates\<close>

text \<open>
  The engine: \<open>load_template autoescape name\<close> and \<open>render_template\<close> of what was loaded. A missing file is its
  exception \<^verbatim>\<open>TemplateNotFound\<close>.
\<close>

record 'p template_lib =
  load_template :: "bool \<Rightarrow> string \<Rightarrow> exn + 'p"
  render_template :: "'p \<Rightarrow> item \<Rightarrow> exn + string"

definition html_body :: "'p template_lib \<Rightarrow> string \<Rightarrow> item \<Rightarrow> exn + string option" where
  "html_body L name variables =
     (case load_template L True (name @ ''.html.j2'') of
        Inl e \<Rightarrow> if is_error_class ''TemplateNotFound'' e then Inr None else Inl e
      | Inr p \<Rightarrow> and_then (render_template L p variables) (\<lambda>t. Inr (Some t)))"

definition render :: "'p template_lib \<Rightarrow> string \<Rightarrow> item \<Rightarrow> exn + (string \<times> string option)" where
  "render L name variables =
     (case load_template L False (name @ ''.txt.j2'') of
        Inl e \<Rightarrow> Inl (if is_error_class ''TemplateNotFound'' e then OtherError ''TemplateNotFoundError'' name else e)
      | Inr p \<Rightarrow>
          and_then (render_template L p variables) (\<lambda>text_body.
          and_then (html_body L name variables) (\<lambda>html. Inr (text_body, html))))"

section \<open>The senders\<close>

definition utf8_part :: "string \<Rightarrow> pyval" where
  "utf8_part s = PDict [(''Data'', PStr s), (''Charset'', PStr ''UTF-8'')]"

definition ses_message :: "notify_settings \<Rightarrow> string \<Rightarrow> string \<Rightarrow> string \<Rightarrow> string option \<Rightarrow> item" where
  "ses_message S to_address subject text_body html =
     [(''Source'', PStr (ny_from_address S)),
      (''Destination'', PDict [(''ToAddresses'', PList [PStr to_address])]),
      (''Message'', PDict [(''Subject'', utf8_part subject),
         (''Body'', PDict ([(''Text'', utf8_part text_body)] @
            (case html of None \<Rightarrow> [] | Some h \<Rightarrow> [(''Html'', utf8_part h)])))])]"

definition ses_send :: "'t env \<Rightarrow> notify_settings \<Rightarrow> string \<Rightarrow> string \<Rightarrow> string \<Rightarrow> string option \<Rightarrow> ('t world, pyval) io" where
  "ses_send E S to_address subject text_body html =
     bindE (invoke E (SesSendEmail (ses_message S to_address subject text_body html))) (\<lambda>response.
     liftE (case as_dict response of None \<Rightarrow> Inl TypeError | Some d \<Rightarrow> item_at d ''MessageId''))"

text \<open>Which exceptions are subclasses of \<^verbatim>\<open>httpx.HTTPError\<close>, and the name of an exception's class.\<close>

record http_lib =
  hl_http_error :: "exn \<Rightarrow> bool"
  hl_class :: "exn \<Rightarrow> string"

record webhook_result =
  wr_success :: bool
  wr_attempts :: int
  wr_status_code :: "int option"
  wr_error :: "string option"

definition attempt_limit :: "notify_settings \<Rightarrow> nat" where
  "attempt_limit S = nat (max 1 (ny_max_attempts S))"

definition backoff :: "notify_settings \<Rightarrow> nat \<Rightarrow> rat" where
  "backoff S attempt = max 0 (ny_base_backoff S) * 2 ^ (attempt - 1)"

definition response_status :: "pyval \<Rightarrow> exn + int" where
  "response_status response =
     (case as_int (attr_or response ''status_code'' PNone) of None \<Rightarrow> Inl AttributeError | Some n \<Rightarrow> Inr n)"

text \<open>
  The loop of \<open>post\<close>: \<open>n\<close> attempts are left, the next one is number \<open>attempt\<close>; the state of the loop is the last
  status and the last error. The wait comes before the next attempt, if there is one.
\<close>

fun webhook_tries :: "'t env \<Rightarrow> http_lib \<Rightarrow> notify_settings \<Rightarrow> string \<Rightarrow> item \<Rightarrow> item option \<Rightarrow> nat \<Rightarrow> nat \<Rightarrow>
    int option \<Rightarrow> string option \<Rightarrow> ('t world, webhook_result) io" where
  "webhook_tries E H S url payload headers 0 attempt last_status last_error =
     retE \<lparr>wr_success = False, wr_attempts = int (attempt_limit S), wr_status_code = last_status, wr_error = last_error\<rparr>"
| "webhook_tries E H S url payload headers (Suc n) attempt last_status last_error =
     (let retry = (\<lambda>status err.
            if attempt < attempt_limit S
            then bindE (note_call (SleepSeconds (backoff S attempt))) (\<lambda>_.
                 webhook_tries E H S url payload headers n (Suc attempt) status err)
            else webhook_tries E H S url payload headers n (Suc attempt) status err)
      in tryE (invoke E (WebhookPost url payload headers))
           (\<lambda>e. if hl_http_error H e then retry None (Some (hl_class H e @ '': '' @ str_exn E e)) else raiseE e)
           (\<lambda>response.
              bindE (liftE (response_status response)) (\<lambda>status.
              if 200 \<le> status \<and> status < 300
              then retE \<lparr>wr_success = True, wr_attempts = int attempt, wr_status_code = Some status, wr_error = None\<rparr>
              else if 400 \<le> status \<and> status < 500
              then retE \<lparr>wr_success = False, wr_attempts = int attempt, wr_status_code = Some status,
                         wr_error = Some (''HTTP '' @ str_int status)\<rparr>
              else retry (Some status) (Some (''HTTP '' @ str_int status)))))"

definition webhook_post :: "'t env \<Rightarrow> http_lib \<Rightarrow> notify_settings \<Rightarrow> string \<Rightarrow> item \<Rightarrow> item option \<Rightarrow> ('t world, webhook_result) io" where
  "webhook_post E H S url payload headers =
     webhook_tries E H S url payload headers (attempt_limit S) 1 None None"

section \<open>The store\<close>

definition notification_sk :: "string \<Rightarrow> string" where
  "notification_sk notification_id = ''NOTIFY#'' @ notification_id"

definition notification_key :: "string \<Rightarrow> string \<Rightarrow> item" where
  "notification_key user_id notification_id =
     [(''pk'', PStr (user_pk user_id)), (''sk'', PStr (notification_sk notification_id))]"

definition notification_item :: "notification_record \<Rightarrow> item" where
  "notification_item r =
     [(''pk'', PStr (user_pk (no_user_id r))),
      (''sk'', PStr (notification_sk (no_notification_id r))),
      (''notification_id'', PStr (no_notification_id r)),
      (''user_id'', PStr (no_user_id r)),
      (''channel'', PStr (channel_str (no_channel r))),
      (''status'', PStr (delivery_str (no_status r))),
      (''target'', PStr (no_target r)),
      (''attempts'', PInt (no_attempts r)),
      (''created_at'', PStr (isoformat (no_created_at r)))] @
     (case no_subject r of None \<Rightarrow> [] | Some s \<Rightarrow> [(''subject'', PStr s)]) @
     (case no_template r of None \<Rightarrow> [] | Some t \<Rightarrow> [(''template'', PStr t)]) @
     (case no_error r of None \<Rightarrow> [] | Some m \<Rightarrow> [(''error'', PStr m)])"

definition notification_of :: "'t env \<Rightarrow> item \<Rightarrow> exn + notification_record" where
  "notification_of E it = view_or_error ''NotificationRecord'' (validate_notification E (top_level_ints it))"

definition notification_put :: "'t env \<Rightarrow> string \<Rightarrow> notification_record \<Rightarrow> ('t world, unit) io" where
  "notification_put E tbl r = put_item E tbl (notification_item r) CTrue"

definition notification_get :: "'t env \<Rightarrow> string \<Rightarrow> string \<Rightarrow> string \<Rightarrow> ('t world, notification_record option) io" where
  "notification_get E tbl user_id notification_id =
     bindE (get_item E tbl (notification_key user_id notification_id)) (\<lambda>i.
     (case i of
        None \<Rightarrow> retE None
      | Some it \<Rightarrow> bindE (liftE (notification_of E it)) (\<lambda>r. retE (Some r))))"

definition notification_list :: "'t env \<Rightarrow> string \<Rightarrow> string \<Rightarrow> int \<Rightarrow> string option \<Rightarrow>
    ('t world, notification_record list \<times> string option) io" where
  "notification_list E tbl user_id limit cursor =
     bindE (query_items E tbl
        \<lparr>q_index = None, q_hash = (''pk'', PStr (user_pk user_id)), q_prefix = Some (''sk'', ''NOTIFY#''),
         q_limit = Some limit, q_forward = False, q_start = map_option (notification_key user_id) cursor\<rparr>) (\<lambda>response.
     bindE (liftE (map_records (notification_of E) (p_items response))) (\<lambda>items.
     retE (items, bare_cursor ''NOTIFY#'' (p_last response))))"

section \<open>The routes\<close>

record send_response =
  sr_notification_id :: string
  sr_delivery :: delivery
  sr_attempts :: int

definition notify_audit :: "sender \<Rightarrow> string \<Rightarrow> string \<Rightarrow> item \<Rightarrow> audit_args" where
  "notify_audit user action notification_id details =
     \<lparr>ra_actor_id = sd_user_id user, ra_actor_type = sd_actor_type user, ra_action = action, ra_resource_type = ''notification'',
      ra_resource_id = notification_id, ra_source_service = ''notification'', ra_details = details\<rparr>"

definition email_record :: "sender \<Rightarrow> email_request \<Rightarrow> string \<Rightarrow> int \<Rightarrow> notification_record" where
  "email_record user request notification_id now =
     \<lparr>no_notification_id = notification_id, no_user_id = sd_user_id user, no_channel = EmailChannel, no_status = Sent,
      no_target = er_to request, no_subject = Some (er_subject request), no_template = Some (er_template request),
      no_error = None, no_attempts = 1, no_created_at = now\<rparr>"

definition send_email :: "'t env \<Rightarrow> 'p template_lib \<Rightarrow> notify_settings \<Rightarrow> sender \<Rightarrow> email_request \<Rightarrow> ('t world, send_response) io" where
  "send_email E L S user request =
     tryE (liftE (render L (er_template request) (er_vars request)))
       (\<lambda>e. if is_error_class ''TemplateNotFoundError'' e
            then raiseE (HTTPException 404 (''template not found: '' @ er_template request)) else raiseE e)
       (\<lambda>rendered.
          bindE (new_id E) (\<lambda>notification_id.
          bindE (utcnow E) (\<lambda>now.
          bindE (ses_send E S (er_to request) (er_subject request) (fst rendered) (snd rendered)) (\<lambda>_.
          bindE (notification_put E (ny_table S) (email_record user request notification_id now)) (\<lambda>_.
          bindE (record_event E (notify_audit user ''notification.email_sent'' notification_id
                   [(''template'', PStr (er_template request)), (''to'', PStr (er_to request)),
                    (''subject'', PStr (er_subject request))])) (\<lambda>_.
          retE \<lparr>sr_notification_id = notification_id, sr_delivery = Sent, sr_attempts = 1\<rparr>))))))"

definition webhook_record :: "sender \<Rightarrow> webhook_request \<Rightarrow> webhook_result \<Rightarrow> string \<Rightarrow> int \<Rightarrow> notification_record" where
  "webhook_record user request result notification_id now =
     \<lparr>no_notification_id = notification_id, no_user_id = sd_user_id user, no_channel = WebhookChannel,
      no_status = (if wr_success result then Sent else Failed), no_target = wq_url request, no_subject = None,
      no_template = None, no_error = wr_error result, no_attempts = wr_attempts result, no_created_at = now\<rparr>"

definition int_val :: "int option \<Rightarrow> pyval" where
  "int_val v = (case v of None \<Rightarrow> PNone | Some n \<Rightarrow> PInt n)"

text \<open>What follows the delivery, and the delivery with the client closed however it ends.\<close>

definition record_webhook :: "'t env \<Rightarrow> notify_settings \<Rightarrow> sender \<Rightarrow> webhook_request \<Rightarrow> webhook_result \<Rightarrow> ('t world, send_response) io" where
  "record_webhook E S user request result =
     bindE (new_id E) (\<lambda>notification_id.
     bindE (utcnow E) (\<lambda>now.
     bindE (notification_put E (ny_table S) (webhook_record user request result notification_id now)) (\<lambda>_.
     bindE (record_event E (notify_audit user
              (if wr_success result then ''notification.webhook_sent'' else ''notification.webhook_failed'') notification_id
              [(''url'', PStr (wq_url request)), (''attempts'', PInt (wr_attempts result)),
               (''status_code'', int_val (wr_status_code result))])) (\<lambda>_.
     retE \<lparr>sr_notification_id = notification_id, sr_delivery = (if wr_success result then Sent else Failed),
           sr_attempts = wr_attempts result\<rparr>))))"

definition deliver_webhook :: "'t env \<Rightarrow> http_lib \<Rightarrow> notify_settings \<Rightarrow> webhook_request \<Rightarrow> ('t world, webhook_result) io" where
  "deliver_webhook E H S request =
     tryE (webhook_post E H S (wq_url request) (wq_payload request) (wq_headers request))
       (\<lambda>e. bindE (note_call WebhookClose) (\<lambda>_. raiseE e))
       (\<lambda>result. bindE (note_call WebhookClose) (\<lambda>_. retE result))"

definition send_webhook :: "'t env \<Rightarrow> http_lib \<Rightarrow> notify_settings \<Rightarrow> sender \<Rightarrow> webhook_request \<Rightarrow> ('t world, send_response) io" where
  "send_webhook E H S user request =
     (if \<not> starts_with (lower (wq_url request)) ''https://''
      then raiseE (HTTPException 400 ''webhook URL must use https://'')
      else bindE (deliver_webhook E H S request) (record_webhook E S user request))"

definition list_notifications :: "'t env \<Rightarrow> notify_settings \<Rightarrow> string \<Rightarrow> int \<Rightarrow> string option \<Rightarrow>
    ('t world, notification_record list \<times> string option) io" where
  "list_notifications E S user_id limit cursor =
     (if limit < 1 \<or> 100 < limit then raiseE (HTTPException 422 ''limit'')
      else notification_list E (ny_table S) user_id (min limit (ny_list_max_limit S)) cursor)"

definition get_notification :: "'t env \<Rightarrow> notify_settings \<Rightarrow> string \<Rightarrow> string \<Rightarrow> ('t world, notification_record) io" where
  "get_notification E S user_id notification_id =
     bindE (notification_get E (ny_table S) user_id notification_id) (\<lambda>r.
     (case r of None \<Rightarrow> raiseE (HTTPException 404 ''notification not found'') | Some record \<Rightarrow> retE record))"


text \<open>The two send routes as one operation on the two kinds of requests.\<close>

fun send_notification :: "'t env \<Rightarrow> 'p template_lib \<Rightarrow> http_lib \<Rightarrow> notify_settings \<Rightarrow> sender \<Rightarrow> email_request + webhook_request \<Rightarrow>
    ('t world, send_response) io" where
  "send_notification E L H S user (Inl request) = send_email E L S user request"
| "send_notification E L H S user (Inr request) = send_webhook E H S user request"

section \<open>Deliveries of a webhook\<close>

text \<open>The calls of a delivery that took \<open>k\<close> attempts, from attempt \<open>a\<close> on, and the seconds waited in a list of calls.\<close>

definition delivery_from :: "notify_settings \<Rightarrow> call \<Rightarrow> nat \<Rightarrow> nat \<Rightarrow> call list" where
  "delivery_from S post a k = post # concat (map (\<lambda>i. [SleepSeconds (backoff S i), post]) [a..<k])"

definition slept :: "call list \<Rightarrow> rat" where
  "slept cs = sum_list (map (\<lambda>c. case c of SleepSeconds q \<Rightarrow> q | _ \<Rightarrow> 0) cs)"

lemma delivery_from_last: "delivery_from S post a a = [post]"
  by (simp add: delivery_from_def)

lemma delivery_from_step: "a < k \<Longrightarrow> delivery_from S post a k = post # SleepSeconds (backoff S a) # delivery_from S post (Suc a) k"
  by (simp add: delivery_from_def upt_conv_Cons)

lemma slept_delivery:
  assumes "post = WebhookPost url payload headers" "1 \<le> k"
  shows "slept (delivery_from S post 1 k) = max 0 (ny_base_backoff S) * (2 ^ (k - 1) - 1)"
proof -
  have "slept (concat (map (\<lambda>i. [SleepSeconds (backoff S i), post]) [1..<Suc n])) = max 0 (ny_base_backoff S) * (2 ^ n - 1)" for n
    by (induction n) (simp_all add: slept_def backoff_def assms(1) algebra_simps)
  from this [of "k - 1"] assms show ?thesis by (simp add: delivery_from_def slept_def)
qed

text \<open>An answer after which the loop goes on, and the end of a delivery: what the last answer makes of it.\<close>

definition retryable :: "'t env \<Rightarrow> http_lib \<Rightarrow> call list \<Rightarrow> call \<Rightarrow> bool" where
  "retryable E H pre post =
     (case svc E pre post of
        Inl e \<Rightarrow> hl_http_error H e
      | Inr response \<Rightarrow> (case response_status response of
                        Inl e \<Rightarrow> False
                      | Inr s \<Rightarrow> \<not> (200 \<le> s \<and> s < 300) \<and> \<not> (400 \<le> s \<and> s < 500)))"

definition delivered :: "'t env \<Rightarrow> http_lib \<Rightarrow> notify_settings \<Rightarrow> call list \<Rightarrow> call \<Rightarrow> nat \<Rightarrow> exn + webhook_result \<Rightarrow> bool" where
  "delivered E H S pre post k out =
     (case svc E pre post of
        Inl e \<Rightarrow>
          if hl_http_error H e
          then k = attempt_limit S \<and> out = Inr \<lparr>wr_success = False, wr_attempts = int k, wr_status_code = None,
                 wr_error = Some (hl_class H e @ '': '' @ str_exn E e)\<rparr>
          else out = Inl e
      | Inr response \<Rightarrow>
          (case response_status response of
             Inl e \<Rightarrow> out = Inl e
           | Inr s \<Rightarrow>
               (retryable E H pre post \<longrightarrow> k = attempt_limit S) \<and>
               out = Inr \<lparr>wr_success = (200 \<le> s \<and> s < 300), wr_attempts = int k, wr_status_code = Some s,
                 wr_error = (if 200 \<le> s \<and> s < 300 then None else Some (''HTTP '' @ str_int s))\<rparr>))"

lemma webhook_tries_outcome:
  assumes "webhook_tries E H S url payload headers (Suc n) a st err w = (out, w')"
    and "a + n = attempt_limit S" "post = WebhookPost url payload headers"
  shows "\<exists>k. a \<le> k \<and> k \<le> attempt_limit S \<and> w' = w\<lparr>trace := trace w @ delivery_from S post a k\<rparr> \<and>
    delivered E H S (trace w @ butlast (delivery_from S post a k)) post k out \<and>
    (\<forall>i. a \<le> i \<longrightarrow> i < k \<longrightarrow> retryable E H (trace w @ butlast (delivery_from S post a i)) post)"
  using assms(1,2)
proof (induction n arbitrary: a st err w)
  case 0
  have lim: "\<not> a < attempt_limit S" "attempt_limit S = a" using 0(2) by simp_all
  have ret: "retryable E H (trace w) post \<longrightarrow> a = attempt_limit S" using lim by simp
  have "w' = w\<lparr>trace := trace w @ [post]\<rparr> \<and> delivered E H S (trace w) post a out"
    using 0(1) lim assms(3)
    by (auto simp: tryE_def bindE_def invoke_def liftE_def retE_def raiseE_def delivered_def split: sum.splits if_splits)
  then show ?case by (intro exI [of _ a]) (simp add: delivery_from_last lim)
next
  case (Suc n)
  have lim: "a < attempt_limit S" using Suc.prems(2) by simp
  let ?w1 = "w\<lparr>trace := trace w @ [post]\<rparr>"
  let ?w2 = "w\<lparr>trace := trace w @ [post, SleepSeconds (backoff S a)]\<rparr>"
  show ?case
  proof (cases "retryable E H (trace w) post")
    case False
    have "w' = ?w1 \<and> delivered E H S (trace w) post a out"
      using Suc.prems(1) False assms(3)
      by (auto simp: tryE_def bindE_def invoke_def liftE_def retE_def raiseE_def delivered_def retryable_def Let_def
          simp del: webhook_tries.simps(2) simp add: webhook_tries.simps(2) [of _ _ _ _ _ _ "Suc n"]
          split: sum.splits if_splits)
    then show ?thesis using lim by (intro exI [of _ a]) (simp add: delivery_from_last)
  next
    case True
    have "\<exists>st' err'. webhook_tries E H S url payload headers (Suc n) (Suc a) st' err' ?w2 = (out, w')"
      using Suc.prems(1) True assms(3) lim
      by (auto simp: tryE_def bindE_def invoke_def liftE_def retE_def raiseE_def retryable_def Let_def note_call_def
          simp del: webhook_tries.simps(2) simp add: webhook_tries.simps(2) [of _ _ _ _ _ _ "Suc n"]
          split: sum.splits if_splits)
    then obtain st' err' where "webhook_tries E H S url payload headers (Suc n) (Suc a) st' err' ?w2 = (out, w')" by blast
    from Suc.IH [OF this] Suc.prems(2) obtain k where k: "Suc a \<le> k" "k \<le> attempt_limit S"
        "w' = ?w2\<lparr>trace := trace ?w2 @ delivery_from S post (Suc a) k\<rparr>"
        "delivered E H S (trace ?w2 @ butlast (delivery_from S post (Suc a) k)) post k out"
        "\<And>i. Suc a \<le> i \<Longrightarrow> i < k \<Longrightarrow> retryable E H (trace ?w2 @ butlast (delivery_from S post (Suc a) i)) post"
      by auto
    have ne: "delivery_from S post b j \<noteq> []" for b j by (simp add: delivery_from_def)
    have "retryable E H (trace w @ butlast (delivery_from S post a i)) post" if "a \<le> i" "i < k" for i
    proof (cases "i = a")
      case True
      with \<open>retryable E H (trace w) post\<close> show ?thesis by (simp add: delivery_from_last)
    next
      case False
      with that k(5) [of i] ne show ?thesis by (simp add: delivery_from_step)
    qed
    then show ?thesis
      using k(1-4) ne by (intro exI [of _ k]) (simp add: delivery_from_step)
  qed
qed


lemma attempt_limit_Suc: "\<exists>n. attempt_limit S = Suc n"
  by (cases "attempt_limit S") (auto simp: attempt_limit_def)

lemma webhook_post_rows:
  assumes "webhook_post E H S url payload headers w = (out, w')"
  shows "rows V w' = rows V w"
proof -
  obtain n where n: "attempt_limit S = Suc n" using attempt_limit_Suc by blast
  have "webhook_tries E H S url payload headers (Suc n) 1 None None w = (out, w')"
    using assms by (simp add: webhook_post_def n)
  from webhook_tries_outcome [OF this _ refl] n show ?thesis by auto
qed

text \<open>
  C22. Deliveries of a webhook. Whatever the receiver answers, the loop ends after at most the configured number
  of attempts (at least one): the calls it makes are exactly the posts with the doubling waits between them, the
  waits adding up to \<open>2 ^ (k - 1) - 1\<close> times the base; every attempt but the last was answered by a network
  error or by a status outside \<^verbatim>\<open>2xx\<close> and \<^verbatim>\<open>4xx\<close>; and the result is that of the last answer, with the number of
  attempts made. Nothing else changes.
\<close>

theorem webhook_delivery_bounded:
  assumes "webhook_post E H S url payload headers w = (out, w')"
  shows "\<exists>k. 1 \<le> k \<and> k \<le> attempt_limit S \<and>
    w' = w\<lparr>trace := trace w @ delivery_from S (WebhookPost url payload headers) 1 k\<rparr> \<and>
    slept (new_calls w w') = max 0 (ny_base_backoff S) * (2 ^ (k - 1) - 1) \<and>
    delivered E H S (trace w @ butlast (delivery_from S (WebhookPost url payload headers) 1 k)) (WebhookPost url payload headers) k out \<and>
    (\<forall>i. 1 \<le> i \<longrightarrow> i < k \<longrightarrow>
       retryable E H (trace w @ butlast (delivery_from S (WebhookPost url payload headers) 1 i)) (WebhookPost url payload headers))"
proof -
  obtain n where n: "attempt_limit S = Suc n" using attempt_limit_Suc by blast
  have "webhook_tries E H S url payload headers (Suc n) 1 None None w = (out, w')"
    using assms by (simp add: webhook_post_def n)
  from webhook_tries_outcome [OF this _ refl] n obtain k where k: "1 \<le> k" "k \<le> attempt_limit S"
      "w' = w\<lparr>trace := trace w @ delivery_from S (WebhookPost url payload headers) 1 k\<rparr>"
      "delivered E H S (trace w @ butlast (delivery_from S (WebhookPost url payload headers) 1 k)) (WebhookPost url payload headers) k out"
      "\<forall>i. 1 \<le> i \<longrightarrow> i < k \<longrightarrow>
        retryable E H (trace w @ butlast (delivery_from S (WebhookPost url payload headers) 1 i)) (WebhookPost url payload headers)"
    by auto
  have "slept (new_calls w w') = max 0 (ny_base_backoff S) * (2 ^ (k - 1) - 1)"
    using slept_delivery [OF refl k(1)] k(3) by (simp add: new_calls_def)
  with k show ?thesis by blast
qed

text \<open>
  An attempt that raises out of the loop: with an exception that is not one of the HTTP client's errors,
  or by reading the status of an answer that has none. A delivery whose attempts before the \<open>k\<close>-th were
  retried and whose \<open>k\<close>-th raises ends there, with that exception.
\<close>

definition attempt_raises :: "'t env \<Rightarrow> http_lib \<Rightarrow> call list \<Rightarrow> call \<Rightarrow> exn \<Rightarrow> bool" where
  "attempt_raises E H pre post e =
     (case svc E pre post of
        Inl e' \<Rightarrow> \<not> hl_http_error H e' \<and> e = e'
      | Inr response \<Rightarrow> response_status response = Inl e)"

lemma raising_delivery:
  assumes "webhook_post E H S url payload headers w = (out, w')" "post = WebhookPost url payload headers"
    and "1 \<le> k" "k \<le> attempt_limit S"
    and "\<forall>i. 1 \<le> i \<longrightarrow> i < k \<longrightarrow> retryable E H (trace w @ butlast (delivery_from S post 1 i)) post"
    and "attempt_raises E H (trace w @ butlast (delivery_from S post 1 k)) post e"
  shows "out = Inl e \<and> w' = w\<lparr>trace := trace w @ delivery_from S post 1 k\<rparr>"
proof -
  obtain n where n: "attempt_limit S = Suc n" using attempt_limit_Suc by blast
  have "webhook_tries E H S url payload headers (Suc n) 1 None None w = (out, w')"
    using assms(1) by (simp add: webhook_post_def n)
  from webhook_tries_outcome [OF this _ assms(2)] n obtain j where j: "1 \<le> j" "j \<le> attempt_limit S"
      "w' = w\<lparr>trace := trace w @ delivery_from S post 1 j\<rparr>"
      "delivered E H S (trace w @ butlast (delivery_from S post 1 j)) post j out"
      "\<forall>i. 1 \<le> i \<longrightarrow> i < j \<longrightarrow> retryable E H (trace w @ butlast (delivery_from S post 1 i)) post"
    by auto
  have "\<not> retryable E H (trace w @ butlast (delivery_from S post 1 k)) post"
    using assms(6) by (auto simp: attempt_raises_def retryable_def split: sum.splits)
  with j(5) assms(3) have "\<not> k < j" by blast
  moreover have "\<not> j < k"
  proof
    assume "j < k"
    with assms(5) j(1) have "retryable E H (trace w @ butlast (delivery_from S post 1 j)) post" by blast
    with j(4) have "j = attempt_limit S" by (auto simp: delivered_def retryable_def split: sum.splits if_splits)
    with \<open>j < k\<close> assms(4) show False by simp
  qed
  ultimately have "j = k" by simp
  with j(3,4) assms(6) show ?thesis by (auto simp: delivered_def attempt_raises_def split: sum.splits)
qed

section \<open>Records of notifications\<close>

lemma parse_channel: "parse_literal channel_str [EmailChannel, WebhookChannel] (PStr (channel_str c)) = Some c"
  by (cases c) (simp_all add: parse_literal_def)

lemma parse_delivery: "parse_literal delivery_str [Sent, Failed] (PStr (delivery_str d)) = Some d"
  by (cases d) (simp_all add: parse_literal_def)

lemma ddb_notification_key [simp]: "ddb_item (notification_key u n) = notification_key u n"
  by (simp add: ddb_item_def notification_key_def)

lemma notification_roundtrip:
  assumes "pyd_dt E (PStr (isoformat (no_created_at r))) = Some (no_created_at r)"
    and "pyd_int E (PInt (no_attempts r)) = Some (no_attempts r)"
  shows "notification_of E (ddb_item (notification_item r)) = Inr r"
proof -
  let ?d = "top_level_ints (ddb_item (notification_item r))"
  have f: "dget ?d ''notification_id'' = PStr (no_notification_id r)" "dget ?d ''user_id'' = PStr (no_user_id r)"
    "dget ?d ''channel'' = PStr (channel_str (no_channel r))" "dget ?d ''status'' = PStr (delivery_str (no_status r))"
    "dget ?d ''target'' = PStr (no_target r)" "dget_or ?d ''attempts'' (PInt 1) = PInt (no_attempts r)"
    "dget ?d ''created_at'' = PStr (isoformat (no_created_at r))"
    by (simp_all add: dget_ints notification_item_def ddb_item_def dget_Cons) (simp add: top_level_ints_def dget_or_def)
  have g: "opt_str_field (dget ?d ''subject'') = Some (no_subject r)" "opt_str_field (dget ?d ''template'') = Some (no_template r)"
    "opt_str_field (dget ?d ''error'') = Some (no_error r)"
    by (cases "no_subject r"; cases "no_template r"; cases "no_error r";
        simp add: dget_ints notification_item_def ddb_item_def dget_Cons opt_str_field_def)+
  show ?thesis
    unfolding notification_of_def view_or_error_def validate_notification_def f g parse_channel parse_delivery assms
    by simp
qed

lemma ddb_notification_item_key:
  "key_attrs E tbl = [''pk'', ''sk''] \<Longrightarrow>
     ddb_item (key_of E tbl (notification_item r)) = notification_key (no_user_id r) (no_notification_id r)"
  by (simp add: key_of_def notification_item_def dget_Cons ddb_item_def notification_key_def)

text \<open>Storing the record and writing the audit log, which both send routes end with.\<close>

lemma stored_then_audited:
  assumes "ddb_ok E V" "key_attrs E T = [''pk'', ''sk'']" "audit_table (audit_cfg E) \<noteq> T"
    and "bindE (notification_put E T r) (\<lambda>_. bindE (record_event E a) (\<lambda>_. retE resp)) w = (Inr x, w')"
  shows "rows V w' T = (rows V w T)(notification_key (no_user_id r) (no_notification_id r) \<mapsto> ddb_item (notification_item r))"
    and "x = resp"
proof -
  obtain u w1 ev where put: "put_item E T (notification_item r) CTrue w = (Inr u, w1)"
    and au: "record_event E a w1 = (Inr ev, w')" and x: "x = resp"
    using assms(4) by (auto simp: notification_put_def bindE_Inr_iff retE_def)
  show "rows V w' T = (rows V w T)(notification_key (no_user_id r) (no_notification_id r) \<mapsto> ddb_item (notification_item r))"
    using put_item_cases(1) [OF assms(1) put refl] record_event_other_tables [OF assms(1) au, of T] assms(3)
    by (simp add: write_outcome_simps ddb_notification_item_key [OF assms(2)] store_row_def eq_commute)
  show "x = resp" by (rule x)
qed

definition agrees_with :: "sender \<Rightarrow> send_response \<Rightarrow> notification_record \<Rightarrow> bool" where
  "agrees_with user resp r \<longleftrightarrow> no_user_id r = sd_user_id user \<and> no_notification_id r = sr_notification_id resp \<and>
     no_status r = sr_delivery resp \<and> no_attempts r = sr_attempts resp"

lemma send_email_stored:
  assumes "ddb_ok E V" "key_attrs E (ny_table S) = [''pk'', ''sk'']" "audit_table (audit_cfg E) \<noteq> ny_table S"
    and "send_email E L S user rq w = (Inr resp, w')"
  shows "\<exists>r n. agrees_with user resp r \<and> no_channel r = EmailChannel \<and> no_target r = er_to rq \<and> no_created_at r = clock E n \<and>
    rows V w' (ny_table S) = (rows V w (ny_table S))(notification_key (no_user_id r) (no_notification_id r) \<mapsto> ddb_item (notification_item r))"
proof -
  obtain rendered nid now w1 w2 w3 m where nid: "new_id E w = (Inr nid, w1)" and now: "utcnow E w1 = (Inr now, w2)"
    and ses: "ses_send E S (er_to rq) (er_subject rq) (fst rendered) (snd rendered) w2 = (Inr m, w3)"
    and fin: "bindE (notification_put E (ny_table S) (email_record user rq nid now)) (\<lambda>_.
       bindE (record_event E (notify_audit user ''notification.email_sent'' nid [(''template'', PStr (er_template rq)), (''to'', PStr (er_to rq)),
                    (''subject'', PStr (er_subject rq))])) (\<lambda>_.
       retE \<lparr>sr_notification_id = nid, sr_delivery = Sent, sr_attempts = 1\<rparr>)) w3 = (Inr resp, w')"
    using assms(4) unfolding send_email_def tryE_iff liftE_def
    by (fastforce simp: raiseE_def bindE_Inr_iff split: if_splits)
  have same: "rows V w3 = rows V w" "now = clock E (ticks w1)"
    using nid now ses
    by (auto simp: new_id_def utcnow_def tick_def ses_send_def bindE_Inr_iff liftE_def invoke_def)
  note st = stored_then_audited [OF assms(1-3) fin]
  show ?thesis
    by (intro exI [of _ "email_record user rq nid now"] exI [of _ "ticks w1"])
      (use st same in \<open>simp add: agrees_with_def email_record_def\<close>)
qed

lemma send_webhook_stored:
  assumes "ddb_ok E V" "key_attrs E (ny_table S) = [''pk'', ''sk'']" "audit_table (audit_cfg E) \<noteq> ny_table S"
    and "send_webhook E H S user rq w = (Inr resp, w')"
  shows "\<exists>r n. agrees_with user resp r \<and> no_channel r = WebhookChannel \<and> no_target r = wq_url rq \<and> no_created_at r = clock E n \<and>
    rows V w' (ny_table S) = (rows V w (ny_table S))(notification_key (no_user_id r) (no_notification_id r) \<mapsto> ddb_item (notification_item r))"
proof -
  obtain result w1 where dl: "deliver_webhook E H S rq w = (Inr result, w1)"
    and rec: "record_webhook E S user rq result w1 = (Inr resp, w')"
    using assms(4) by (auto simp: send_webhook_def raiseE_def bindE_Inr_iff split: if_splits)
  have d: "rows V w1 = rows V w"
  proof -
    obtain out w0 where p: "webhook_post E H S (wq_url rq) (wq_payload rq) (wq_headers rq) w = (out, w0)" by force
    have "rows V w0 = rows V w" using webhook_post_rows [OF p] .
    then show ?thesis using dl p by (cases out) (auto simp: deliver_webhook_def tryE_def bindE_def note_call_def raiseE_def retE_def)
  qed
  obtain nid now w2 w3 where nid: "new_id E w1 = (Inr nid, w2)" and now: "utcnow E w2 = (Inr now, w3)"
    and fin: "bindE (notification_put E (ny_table S) (webhook_record user rq result nid now)) (\<lambda>_.
       bindE (record_event E (notify_audit user
              (if wr_success result then ''notification.webhook_sent'' else ''notification.webhook_failed'') nid
              [(''url'', PStr (wq_url rq)), (''attempts'', PInt (wr_attempts result)),
               (''status_code'', int_val (wr_status_code result))])) (\<lambda>_.
       retE \<lparr>sr_notification_id = nid, sr_delivery = (if wr_success result then Sent else Failed),
           sr_attempts = wr_attempts result\<rparr>)) w3 = (Inr resp, w')"
    using rec by (auto simp: record_webhook_def bindE_Inr_iff)
  have same: "rows V w3 = rows V w" "now = clock E (ticks w2)"
    using nid now d by (auto simp: new_id_def utcnow_def tick_def)
  note st = stored_then_audited [OF assms(1-3) fin]
  show ?thesis
    by (intro exI [of _ "webhook_record user rq result nid now"] exI [of _ "ticks w2"])
      (use st same in \<open>simp add: agrees_with_def webhook_record_def\<close>)
qed

text \<open>The address and the channel a request asks for.\<close>

fun request_target :: "email_request + webhook_request \<Rightarrow> channel \<times> string" where
  "request_target (Inl request) = (EmailChannel, er_to request)"
| "request_target (Inr request) = (WebhookChannel, wq_url request)"

lemma send_notification_stored:
  assumes "ddb_ok E V" "key_attrs E (ny_table S) = [''pk'', ''sk'']" "audit_table (audit_cfg E) \<noteq> ny_table S"
    and "send_notification E L H S user rq w = (Inr resp, w')"
  shows "\<exists>r n. agrees_with user resp r \<and> (no_channel r, no_target r) = request_target rq \<and> no_created_at r = clock E n \<and>
    rows V w' (ny_table S) = (rows V w (ny_table S))(notification_key (no_user_id r) (no_notification_id r) \<mapsto> ddb_item (notification_item r))"
proof (cases rq)
  case (Inl er)
  show ?thesis using send_email_stored [OF assms(1-3)] assms(4) by (simp add: Inl)
next
  case (Inr wr)
  show ?thesis using send_webhook_stored [OF assms(1-3)] assms(4) by (simp add: Inr)
qed

section \<open>Tenant isolation\<close>

datatype notification_call =
    SendNotification sender "email_request + webhook_request"
  | ListNotifications int "string option"
  | GetNotification string

fun serve_notification :: "'t env \<Rightarrow> 'p template_lib \<Rightarrow> http_lib \<Rightarrow> notify_settings \<Rightarrow> string \<Rightarrow> notification_call \<Rightarrow>
    ('t world, unit) io" where
  "serve_notification E L H S uid (SendNotification user rq) =
     bindE (send_notification E L H S (user\<lparr>sd_user_id := uid\<rparr>) rq) (\<lambda>_. retE ())"
| "serve_notification E L H S uid (ListNotifications limit cursor) = bindE (list_notifications E S uid limit cursor) (\<lambda>_. retE ())"
| "serve_notification E L H S uid (GetNotification nid) = bindE (get_notification E S uid nid) (\<lambda>_. retE ())"

lemma keeps_webhook_post: "keeps (rows_rel V (rows_protected tbl owned uid)) (webhook_post E H S url payload headers)"
proof (rule keepsI)
  fix w r w'
  assume "webhook_post E H S url payload headers w = (r, w')"
  from webhook_post_rows [OF this, of V] show "rows_rel V (rows_protected tbl owned uid) w w'" by (simp add: rows_rel_def)
qed

lemma keeps_notification_put:
  assumes "tenant_table E V (ny_table S) [''pk'', ''sk'']" "no_user_id r = uid"
  shows "keeps (rows_rel V (rows_protected (ny_table S) owned_partition uid)) (notification_put E (ny_table S) r)"
proof -
  have key: "key_attrs E (ny_table S) = [''pk'', ''sk'']" using assms by (simp add: tenant_table_def)
  show ?thesis
    unfolding notification_put_def
    by (rule keeps_put_item [OF tenant_table_ddb [OF assms(1)] _ refl])
      (auto simp: rows_protected_def store_row_apply ddb_notification_item_key [OF key] owned_partition_def
        notification_key_def dget_Cons user_pk_def assms(2))
qed

lemma keeps_serve_notification:
  assumes "tenant_table E V (ny_table S) [''pk'', ''sk'']"
  shows "keeps (rows_rel V (rows_protected (ny_table S) owned_partition uid)) (serve_notification E L H S uid c)"
proof (cases c)
  case (SendNotification user rq)
  show ?thesis
  proof (cases rq)
    case (Inl er)
    show ?thesis
      unfolding SendNotification Inl serve_notification.simps send_notification.simps send_email_def ses_send_def
      by (auto intro!: keeps_intros rows_protected_preorder keeps_audit_protected [OF assms] keeps_notification_put [OF assms]
          simp: email_record_def)
  next
    case (Inr wr)
    show ?thesis
      unfolding SendNotification Inr serve_notification.simps send_notification.simps send_webhook_def deliver_webhook_def record_webhook_def
      by (auto intro!: keeps_intros rows_protected_preorder keeps_audit_protected [OF assms] keeps_notification_put [OF assms]
          keeps_webhook_post simp: webhook_record_def)
  qed
next
  case (ListNotifications limit cursor)
  then show ?thesis
    by (auto simp: list_notifications_def notification_list_def
        intro!: keeps_intros rows_protected_preorder tenant_table_ddb [OF assms])
next
  case (GetNotification nid)
  then show ?thesis
    by (auto simp: get_notification_def notification_get_def
        intro!: keeps_intros rows_protected_preorder tenant_table_ddb [OF assms] split: option.split)
qed

interpretation notification: owner_scoped "tenant_table E V (ny_table S) [''pk'', ''sk'']" V
    "ny_table S" owned_partition "serve_notification E L H S" for E V S L H
  by unfold_locales (rule keeps_serve_notification)

lemma notifications_isolated:
  assumes "tenant_table E V (ny_table S) [''pk'', ''sk'']"
    and "rows V w (ny_table S) k = Some row" "owned_partition owner k row"
    and "owner \<notin> fst ` set history"
  shows "rows V (serve_all (serve_notification E L H S) history w) (ny_table S) k = Some row"
  using assms by (rule notification.isolated_history)

section \<open>Properties of the routes\<close>

definition note_demo_settings :: notify_settings where
  "note_demo_settings = \<lparr>ny_table = ''panakoes-notification'', ny_list_max_limit = 100,
     ny_from_address = ''no-reply@panakoes.com'', ny_max_attempts = 3, ny_base_backoff = 1\<rparr>"

text \<open>A receiver that is down once, a mail service that refuses every message.\<close>

definition note_demo_svc :: "call list \<Rightarrow> call \<Rightarrow> exn + pyval" where
  "note_demo_svc pre c =
     (case c of
        WebhookPost u p h \<Rightarrow> Inr (PDict [(''status_code'', PInt (if pre = [] then 503 else 200))])
      | SesSendEmail m \<Rightarrow> Inl (ClientError ''MessageRejected'' [])
      | _ \<Rightarrow> Inr PNone)"

definition note_demo_env :: "mem env" where
  "note_demo_env = mem_env (\<lambda>t. [''pk'', ''sk'']) note_demo_svc"

definition note_demo_http :: http_lib where
  "note_demo_http = \<lparr>hl_http_error = (\<lambda>e. False), hl_class = (\<lambda>e. ''Exception'')\<rparr>"

definition note_demo_templates :: "string template_lib" where
  "note_demo_templates = \<lparr>load_template = (\<lambda>a n. if n = ''welcome.txt.j2'' then Inr ''hi'' else Inl (OtherError ''TemplateNotFound'' n)),
     render_template = (\<lambda>p v. Inr p)\<rparr>"

definition note_demo_user :: sender where
  "note_demo_user = \<lparr>sd_user_id = ''u1'', sd_email = ''u1@x.io'', sd_session_id = ''s1'', sd_actor_type = ''user''\<rparr>"

definition note_demo_webhook :: webhook_request where
  "note_demo_webhook = \<lparr>wq_url = ''https://x.io/hook'', wq_payload = [], wq_headers = None\<rparr>"

definition note_demo_email :: email_request where
  "note_demo_email = \<lparr>er_to = ''u2@x.io'', er_subject = ''Hello'', er_template = ''welcome'', er_vars = []\<rparr>"

definition note_demo_world :: "mem world" where
  "note_demo_world = \<lparr>db = (\<lambda>t k. None), trace = [], ticks = 0\<rparr>"

lemma note_demo_ok: "ddb_ok note_demo_env mem_view" "key_attrs note_demo_env t = [''pk'', ''sk'']"
    "svc note_demo_env = note_demo_svc" "audit_table (audit_cfg note_demo_env) \<noteq> ny_table note_demo_settings"
  by (simp_all add: note_demo_env_def mem_env_ok note_demo_settings_def) (simp add: mem_env_def)

definition note_demo_post :: call where
  "note_demo_post = WebhookPost (wq_url note_demo_webhook) (wq_payload note_demo_webhook) (wq_headers note_demo_webhook)"

lemma note_demo_delivery:
  "webhook_post note_demo_env note_demo_http note_demo_settings (wq_url note_demo_webhook) (wq_payload note_demo_webhook)
      (wq_headers note_demo_webhook) note_demo_world =
    (Inr \<lparr>wr_success = True, wr_attempts = 2, wr_status_code = Some 200, wr_error = None\<rparr>,
     note_demo_world\<lparr>trace := [note_demo_post, SleepSeconds 1, note_demo_post]\<rparr>)"
proof -
  have lim: "attempt_limit note_demo_settings = 3" by (simp add: attempt_limit_def note_demo_settings_def)
  have b: "backoff note_demo_settings (Suc 0) = 1" by (simp add: backoff_def note_demo_settings_def)
  show ?thesis
    by (simp add: webhook_post_def lim eval_nat_numeral Let_def tryE_def bindE_def invoke_def note_call_def liftE_def retE_def b
        note_demo_ok(3) note_demo_svc_def response_status_def attr_or_def dget_or_def note_demo_world_def note_demo_post_def)
qed

text \<open>The receiver answers \<^verbatim>\<open>503\<close>, then \<^verbatim>\<open>200\<close>.\<close>

theorem webhook_delivery_bounded_witness:
  "\<exists>k. 1 \<le> k \<and> k \<le> attempt_limit note_demo_settings \<and>
    slept [note_demo_post, SleepSeconds 1, note_demo_post] = max 0 (ny_base_backoff note_demo_settings) * (2 ^ (k - 1) - 1) \<and>
    delivered note_demo_env note_demo_http note_demo_settings
      (butlast (delivery_from note_demo_settings note_demo_post 1 k)) note_demo_post k
      (Inr \<lparr>wr_success = True, wr_attempts = 2, wr_status_code = Some 200, wr_error = None\<rparr>)"
  using webhook_delivery_bounded [OF note_demo_delivery]
  by (auto simp: note_demo_post_def note_demo_world_def new_calls_def)

text \<open>
  C23. Notifications read back. After an email or a webhook was answered, the caller's own read of the answered
  identifier returns a record: the caller's, for the address and the channel asked for, with the status and the
  number of attempts of the answer (also for a webhook whose every attempt failed). Hypotheses: the table's key
  is \<^verbatim>\<open>pk\<close>, \<^verbatim>\<open>sk\<close>, the audit log is another table, the framework parses back the times and numbers that were written,
  and the read of the row is answered.
\<close>

theorem notification_reads_back:
  assumes "ddb_ok E V" "key_attrs E (ny_table S) = [''pk'', ''sk'']" "audit_table (audit_cfg E) \<noteq> ny_table S"
    and "send_notification E L H S user rq w = (Inr resp, w')"
    and "\<And>n. pyd_dt E (PStr (isoformat (clock E n))) = Some (clock E n)" "\<And>n. pyd_int E (PInt n) = Some n"
    and "get_item E (ny_table S) (notification_key (sd_user_id user) (sr_notification_id resp)) w' = (Inr i, w1)"
  shows "\<exists>r. fst (get_notification E S (sd_user_id user) (sr_notification_id resp) w') = Inr r \<and>
    agrees_with user resp r \<and> (no_channel r, no_target r) = request_target rq"
proof -
  obtain r n where r: "agrees_with user resp r" "(no_channel r, no_target r) = request_target rq" "no_created_at r = clock E n"
    and row: "rows V w' (ny_table S) =
      (rows V w (ny_table S))(notification_key (no_user_id r) (no_notification_id r) \<mapsto> ddb_item (notification_item r))"
    using send_notification_stored [OF assms(1-4)] by blast
  have ids: "no_user_id r = sd_user_id user" "no_notification_id r = sr_notification_id resp"
    using r(1) by (simp_all add: agrees_with_def)
  have i: "i = Some (ddb_item (notification_item r))"
    using get_item_cases [OF assms(1,7)] row by (simp add: ids)
  have rt: "notification_of E (ddb_item (notification_item r)) = Inr r"
    by (rule notification_roundtrip) (simp_all add: r(3) assms(5,6))
  have "fst (get_notification E S (sd_user_id user) (sr_notification_id resp) w') = Inr r"
    by (simp add: get_notification_def notification_get_def bindE_def assms(7) i liftE_def rt retE_def)
  with r show ?thesis by blast
qed

definition note_demo_stored :: "mem world" where
  "note_demo_stored = snd (send_notification note_demo_env note_demo_templates note_demo_http note_demo_settings note_demo_user
     (Inr note_demo_webhook) note_demo_world)"

lemma note_demo_steps:
  "new_id note_demo_env w = (Inr (''id-'' @ str_int (int (ticks w))), w\<lparr>ticks := Suc (ticks w)\<rparr>)"
  "utcnow note_demo_env w = (Inr 0, w\<lparr>ticks := Suc (ticks w)\<rparr>)"
  "fst (put_item note_demo_env tbl it CTrue w) = Inr ()"
  by (simp_all add: new_id_def utcnow_def tick_def put_item_def on_db_def note_demo_env_def mem_env_def Let_def)

lemma note_demo_audit:
  assumes "a = notify_audit note_demo_user ''notification.webhook_sent'' ''id-0'' d"
  shows "\<exists>ev w'. record_event note_demo_env a w = (Inr ev, w')"
proof -
  have "strip ''u1'' = ''u1''" "strip ''id-0'' = ''id-0''" "strip ''notification'' = ''notification''"
    "strip ''notification.webhook_sent'' = ''notification.webhook_sent''" "action_re ''notification.webhook_sent''"
    by code_simp+
  then have "\<not> isl (make_audit_event 0 0 rid a)" for rid
    by (simp add: make_audit_event_def notify_audit_def assms note_demo_user_def actor_types_def)
  then have "\<exists>ev. make_audit_event 0 0 rid a = Inr ev" for rid
    by (metis sum.collapse(2))
  then obtain ev where "\<And>rid. make_audit_event 0 0 rid a = Inr (ev rid)" by metis
  moreover have "select_store_from_env (audit_cfg note_demo_env) = StdoutAuditStore"
    by (simp add: note_demo_env_def mem_env_def select_store_from_env_def)
  ultimately show ?thesis
    by (auto simp: record_event_eq bindE_def note_demo_steps liftE_def note_call_def retE_def split: sum.split prod.split)
qed

lemma note_demo_runs:
  "send_notification note_demo_env note_demo_templates note_demo_http note_demo_settings note_demo_user
     (Inr note_demo_webhook) note_demo_world =
   (Inr \<lparr>sr_notification_id = ''id-0'', sr_delivery = Sent, sr_attempts = 2\<rparr>, note_demo_stored)"
proof -
  let ?result = "\<lparr>wr_success = True, wr_attempts = 2, wr_status_code = Some 200, wr_error = None\<rparr>"
  have url: "starts_with (lower (wq_url note_demo_webhook)) ''https://''" by code_simp
  obtain w1 where dl: "deliver_webhook note_demo_env note_demo_http note_demo_settings note_demo_webhook note_demo_world = (Inr ?result, w1)"
      and t: "ticks w1 = 0"
    by (simp add: deliver_webhook_def tryE_def note_demo_delivery bindE_def note_call_def retE_def) (simp add: note_demo_world_def)
  have id0: "str_int 0 = ''0''" by code_simp
  obtain w2 where put: "notification_put note_demo_env (ny_table note_demo_settings)
      (webhook_record note_demo_user note_demo_webhook ?result ''id-0'' 0) (w1\<lparr>ticks := 2\<rparr>) = (Inr (), w2)"
    using note_demo_steps(3) by (metis notification_put_def prod.collapse)
  obtain ev w3 where au: "record_event note_demo_env (notify_audit note_demo_user ''notification.webhook_sent'' ''id-0''
      [(''url'', PStr (wq_url note_demo_webhook)), (''attempts'', PInt 2), (''status_code'', int_val (Some 200))]) w2 = (Inr ev, w3)"
    using note_demo_audit [OF refl] by blast
  have "fst (record_webhook note_demo_env note_demo_settings note_demo_user note_demo_webhook ?result w1) =
      Inr \<lparr>sr_notification_id = ''id-0'', sr_delivery = Sent, sr_attempts = 2\<rparr>"
    by (simp add: record_webhook_def bindE_def note_demo_steps t id0 put [simplified numeral_2_eq_2] au retE_def)
  then show ?thesis
    by (simp add: note_demo_stored_def prod_eq_iff send_webhook_def url bindE_def dl)
qed

theorem notification_reads_back_witness:
  "\<exists>r. fst (get_notification note_demo_env note_demo_settings ''u1'' ''id-0'' note_demo_stored) = Inr r \<and>
     no_status r = Sent \<and> no_attempts r = 2 \<and> no_target r = ''https://x.io/hook''"
proof -
  let ?E = note_demo_env and ?S = note_demo_settings
  let ?k = "notification_key (sd_user_id note_demo_user) ''id-0''"
  have get: "get_item ?E (ny_table ?S) ?k note_demo_stored = (Inr (db note_demo_stored (ny_table ?S) ?k), note_demo_stored)"
    by (simp add: get_item_def on_db_def note_demo_env_def mem_env_def)
  have reads: "pyd_dt ?E (PStr (isoformat (clock ?E n))) = Some (clock ?E n)" "pyd_int ?E (PInt j) = Some j" for n j
    by (simp_all add: note_demo_env_def mem_env_def)
  show ?thesis
    using notification_reads_back [OF note_demo_ok(1,2,4) note_demo_runs reads] get
    by (force simp: agrees_with_def note_demo_user_def note_demo_webhook_def)
qed


text \<open>A receiver whose second attempt ends in an exception that the loop does not catch.\<close>

definition note_fault_env :: "mem env" where
  "note_fault_env = mem_env (\<lambda>t. [''pk'', ''sk'']) (\<lambda>pre c.
     if pre = [] then Inr (PDict [(''status_code'', PInt 503)]) else Inl (OtherError ''InvalidURL'' []))"


end
