(* ===== verification/Transcriber_Groq.thy ===== *)
theory Transcriber_Groq
  imports Ingestion Py_Number "HOL-Library.Multiset"
begin

text \<open>
  The hosted speech recogniser (\<^verbatim>\<open>services/transcriber-groq\<close>), a backend of the ingestion API, over the result types of
  \<^verbatim>\<open>services/transcriber-lib\<close>: the request, the mapping of the answer's status to the library's errors, and the mapping
  of the answer to words and segments. The HTTP client is a parameter (\<open>groq_http\<close>): the answer of the address to a
  request after the calls made so far, and which of its exceptions are timeouts. \<open>show_val\<close> is \<^verbatim>\<open>str\<close> of a value
  that is not a string.
\<close>

section \<open>Results\<close>

record spoken_word =
  sw_text :: string
  sw_start :: pyfloat
  sw_end :: pyfloat

record spoken_segment =
  ss_text :: string
  ss_start :: pyfloat
  ss_end :: pyfloat
  ss_words :: "spoken_word list"

record spoken_result =
  sp_text :: string
  sp_segments :: "spoken_segment list"
  sp_language :: "string option"
  sp_duration :: "pyfloat option"

section \<open>The answer\<close>

definition shown :: "(pyval \<Rightarrow> string) \<Rightarrow> pyval \<Rightarrow> string" where
  "shown show_val v = (case as_str v of Some s \<Rightarrow> s | None \<Rightarrow> show_val v)"

text \<open>\<^verbatim>\<open>for raw in (payload.get(k) or [])\<close>.\<close>

fun iterated :: "pyval \<Rightarrow> exn + pyval list" where
  "iterated (PList xs) = Inr xs"
| "iterated (PDict d) = Inr (map (\<lambda>(k, v). PStr k) d)"
| "iterated (PStr s) = Inr (map (\<lambda>c. PStr [c]) s)"
| "iterated v = Inl TypeError"

definition raw_list :: "pyval \<Rightarrow> string \<Rightarrow> exn + pyval list" where
  "raw_list payload k = and_then (get_attr payload k) (\<lambda>v. iterated (py_or v (PList [])))"

definition parse_word :: "(pyval \<Rightarrow> string) \<Rightarrow> pyval \<Rightarrow> exn + spoken_word option" where
  "parse_word show_val raw =
     and_then (get_attr raw ''word'') (\<lambda>word_text.
     and_then (get_attr raw ''start'') (\<lambda>start.
     and_then (get_attr raw ''end'') (\<lambda>stop.
       if word_text = PNone \<or> start = PNone \<or> stop = PNone then Inr None
       else and_then (float_of start) (\<lambda>a. and_then (float_of stop) (\<lambda>b.
              Inr (Some \<lparr>sw_text = shown show_val word_text, sw_start = a, sw_end = b\<rparr>))))))"

fun parse_words :: "(pyval \<Rightarrow> string) \<Rightarrow> pyval list \<Rightarrow> exn + spoken_word list" where
  "parse_words show_val [] = Inr []"
| "parse_words show_val (raw # raws) =
     and_then (parse_word show_val raw) (\<lambda>w.
     and_then (parse_words show_val raws) (\<lambda>ws. Inr (case w of None \<Rightarrow> ws | Some x \<Rightarrow> x # ws)))"

definition midpoint :: "spoken_word \<Rightarrow> pyfloat" where
  "midpoint word = float_half (float_add (sw_start word) (sw_end word))"

definition inside :: "pyfloat \<Rightarrow> pyfloat \<Rightarrow> spoken_word \<Rightarrow> bool" where
  "inside seg_start seg_end word \<longleftrightarrow> float_le seg_start (midpoint word) \<and> float_less (midpoint word) seg_end"

definition words_inside :: "spoken_word list \<Rightarrow> pyfloat \<Rightarrow> pyfloat \<Rightarrow> spoken_word list" where
  "words_inside words seg_start seg_end = filter (inside seg_start seg_end) words"

definition parse_segment :: "(pyval \<Rightarrow> string) \<Rightarrow> spoken_word list \<Rightarrow> pyval \<Rightarrow> exn + spoken_segment" where
  "parse_segment show_val words raw =
     and_then (get_default raw ''text'' (PStr [])) (\<lambda>seg_text.
     and_then (and_then (get_default raw ''start'' (PFloat 0)) float_of) (\<lambda>seg_start.
     and_then (and_then (get_default raw ''end'' (PFloat 0)) float_of) (\<lambda>seg_end.
       Inr \<lparr>ss_text = shown show_val seg_text, ss_start = seg_start, ss_end = seg_end,
            ss_words = words_inside words seg_start seg_end\<rparr>)))"

definition parse_response :: "(pyval \<Rightarrow> string) \<Rightarrow> pyval \<Rightarrow> exn + spoken_result" where
  "parse_response show_val payload =
     and_then (get_default payload ''text'' (PStr [])) (\<lambda>t.
     and_then (get_attr payload ''language'') (\<lambda>language_value.
     and_then (get_attr payload ''duration'') (\<lambda>duration_value.
     and_then (if duration_value = PNone then Inr None else map_sum id Some (float_of duration_value)) (\<lambda>duration.
     and_then (get_attr payload ''segments'') (\<lambda>raw_segments.
     and_then (raw_list payload ''words'') (\<lambda>raw_words.
     and_then (parse_words show_val raw_words) (\<lambda>words.
     and_then (iterated (py_or raw_segments (PList []))) (\<lambda>raws.
     and_then (map_records (parse_segment show_val words) raws) (\<lambda>segments.
       Inr \<lparr>sp_text = shown show_val t, sp_segments = segments,
            sp_language = (if language_value = PNone then None else Some (shown show_val language_value)),
            sp_duration = duration\<rparr>)))))))))"

section \<open>The request\<close>

record groq_config =
  gq_api_key :: string
  gq_model :: string
  gq_base_url :: string
  gq_timeout :: string

definition groq_init :: "string \<Rightarrow> string \<Rightarrow> string \<Rightarrow> string \<Rightarrow> exn + groq_config" where
  "groq_init api_key model base_url timeout =
     (if api_key = [] then Inl (ValueError ''api_key is required'')
      else Inr \<lparr>gq_api_key = api_key, gq_model = model,
                gq_base_url = rev (dropWhile (\<lambda>c. c = CHR ''/'') (rev base_url)), gq_timeout = timeout\<rparr>)"

record groq_post =
  gp_url :: string
  gp_authorization :: string
  gp_filename :: string
  gp_audio :: pyval
  gp_data :: item

definition groq_request :: "groq_config \<Rightarrow> pyval \<Rightarrow> string \<Rightarrow> string option \<Rightarrow> groq_post" where
  "groq_request G audio_bytes filename language_hint =
     \<lparr>gp_url = gq_base_url G @ ''/audio/transcriptions'', gp_authorization = ''Bearer '' @ gq_api_key G,
      gp_filename = filename, gp_audio = audio_bytes,
      gp_data = [(''model'', PStr (gq_model G)), (''response_format'', PStr ''verbose_json''),
         (''timestamp_granularities[]'', PList [PStr ''word'', PStr ''segment''])] @
         (case language_hint of None \<Rightarrow> [] | Some h \<Rightarrow> [(''language'', PStr h)])\<rparr>"

record groq_response =
  gr_status :: int
  gr_text :: string
  gr_retry_after :: "string option"
  gr_json :: "exn + pyval"

record groq_http =
  gh_post :: "call list \<Rightarrow> groq_post \<Rightarrow> exn + groq_response"
  gh_timeout :: "exn \<Rightarrow> bool"

text \<open>An error, with the attribute \<^verbatim>\<open>retry_after_seconds\<close> of a rate limit.\<close>

type_synonym groq_error = "exn \<times> pyfloat option"

definition parse_retry_after :: "string option \<Rightarrow> pyfloat option" where
  "parse_retry_after header_value = (case header_value of None \<Rightarrow> None | Some h \<Rightarrow> float_of_str h)"

definition raise_for_status :: "groq_response \<Rightarrow> groq_error option" where
  "raise_for_status response =
     (let status = gr_status response; body_snippet = take 500 (gr_text response) in
      if status < 400 then None
      else if status = 401
      then Some (TranscriberError ''TranscriberAuthError'' (''Groq rejected credentials: '' @ body_snippet), None)
      else if status = 429
      then Some (TranscriberError ''TranscriberRateLimitError'' (''Groq rate-limited the request: '' @ body_snippet),
                 parse_retry_after (gr_retry_after response))
      else if 400 \<le> status \<and> status < 500
      then Some (TranscriberError ''TranscriberRequestError''
             (''Groq rejected the request ('' @ str_int status @ ''): '' @ body_snippet), None)
      else Some (TranscriberError ''TranscriberUpstreamError''
             (''Groq upstream error ('' @ str_int status @ ''): '' @ body_snippet), None))"

definition groq_transcribe :: "(pyval \<Rightarrow> string) \<Rightarrow> groq_http \<Rightarrow> groq_config \<Rightarrow> call list \<Rightarrow> pyval \<Rightarrow> string \<Rightarrow> string option \<Rightarrow>
    groq_error + spoken_result" where
  "groq_transcribe show_val H G calls audio_bytes filename language_hint =
     (case gh_post H calls (groq_request G audio_bytes filename language_hint) of
        Inl e \<Rightarrow> Inl (if gh_timeout H e
                    then TranscriberError ''TranscriberTimeoutError'' (''Groq request timed out after '' @ gq_timeout G @ ''s'')
                    else e, None)
      | Inr response \<Rightarrow>
          (case raise_for_status response of
             Some err \<Rightarrow> Inl err
           | None \<Rightarrow> map_sum (\<lambda>e. (e, None)) id (and_then (gr_json response) (parse_response show_val))))"

section \<open>Words and segments\<close>

lemma parse_segments:
  "map_records (parse_segment show_val words) raws = Inr segs \<Longrightarrow>
     s \<in> set segs \<Longrightarrow> ss_words s = filter (inside (ss_start s) (ss_end s)) words"
  by (induction raws arbitrary: segs) (auto simp: parse_segment_def words_inside_def and_then_def split: sum.splits)

text \<open>Segments that follow one another without a gap, from \<open>a\<close> to \<open>b\<close>.\<close>

fun tiles :: "pyfloat \<Rightarrow> spoken_segment list \<Rightarrow> pyfloat \<Rightarrow> bool" where
  "tiles a [] b \<longleftrightarrow> a = b \<and> a \<noteq> NaN"
| "tiles a (s # segs) b \<longleftrightarrow> ss_start s = a \<and> float_le a (ss_end s) \<and> tiles (ss_end s) segs b"

lemma float_le_refl: "float_le a a \<longleftrightarrow> a \<noteq> NaN"
  by (cases a) (auto simp: float_le_def)

lemma inside_empty: "\<not> inside a a w"
  using float_le_less_trans [of a "midpoint w" a] by (cases a) (auto simp: inside_def)

lemma tiles_le: "tiles a segs b \<Longrightarrow> float_le a b"
  by (induction segs arbitrary: a) (auto simp: float_le_refl intro: float_le_trans)

lemma inside_split:
  assumes "float_le a b" "float_le b c"
  shows "(inside a c w \<longleftrightarrow> inside a b w \<or> inside b c w)" "\<not> (inside a b w \<and> inside b c w)"
proof -
  have n: "b \<noteq> NaN" using assms(1) by (cases a; cases b) (auto simp: float_le_def)
  show "inside a c w \<longleftrightarrow> inside a b w \<or> inside b c w"
    using assms n float_less_le_iff [of "midpoint w" b] float_le_trans [of a b "midpoint w"]
      float_less_le_trans [of "midpoint w" b c] 
    by (cases "midpoint w = NaN") (auto simp: inside_def float_le_def)
  show "\<not> (inside a b w \<and> inside b c w)"
    using float_le_less_trans [of b "midpoint w" b] n by (cases b) (auto simp: inside_def)
qed

lemma filter_inside_split:
  assumes "float_le a b" "float_le b c"
  shows "mset (filter (inside a c) ws) = mset (filter (inside a b) ws) + mset (filter (inside b c) ws)"
  using inside_split [OF assms] by (induction ws) auto

lemma tiled_words:
  assumes "\<And>s. s \<in> set segs \<Longrightarrow> ss_words s = filter (inside (ss_start s) (ss_end s)) ws" "tiles a segs b"
  shows "mset (concat (map ss_words segs)) = mset (filter (inside a b) ws)"
  using assms
proof (induction segs arbitrary: a)
  case Nil
  then show ?case by (simp add: inside_empty)
next
  case (Cons s segs)
  then have "tiles (ss_end s) segs b" "float_le a (ss_end s)" "ss_start s = a" by auto
  with Cons.IH [of "ss_end s"] Cons.prems(1) filter_inside_split [OF _ tiles_le, of a "ss_end s" segs b ws]
  show ?case by simp
qed

section \<open>Groq as the backend of the ingestion API\<close>

text \<open>A result without infinities and NaNs as the transcription result of the ingestion model.\<close>

fun finite_part :: "pyfloat \<Rightarrow> rat option" where
  "finite_part (Finite q) = Some q"
| "finite_part v = None"

fun all_some :: "'a option list \<Rightarrow> 'a list option" where
  "all_some [] = Some []"
| "all_some (x # xs) = (case (x, all_some xs) of (Some y, Some ys) \<Rightarrow> Some (y # ys) | _ \<Rightarrow> None)"

definition finite_word :: "spoken_word \<Rightarrow> transcript_word option" where
  "finite_word w =
     (case (finite_part (sw_start w), finite_part (sw_end w)) of
        (Some a, Some b) \<Rightarrow> Some \<lparr>tw_text = sw_text w, tw_start = a, tw_end = b\<rparr>
      | _ \<Rightarrow> None)"

definition finite_segment :: "spoken_segment \<Rightarrow> transcript_segment option" where
  "finite_segment s =
     (case (finite_part (ss_start s), finite_part (ss_end s), all_some (map finite_word (ss_words s))) of
        (Some a, Some b, Some ws) \<Rightarrow> Some \<lparr>ts_text = ss_text s, ts_start = a, ts_end = b, ts_words = ws\<rparr>
      | _ \<Rightarrow> None)"

definition finite_result :: "spoken_result \<Rightarrow> transcription_result option" where
  "finite_result r =
     (case (all_some (map finite_segment (sp_segments r)),
            (case sp_duration r of None \<Rightarrow> Some None | Some d \<Rightarrow> map_option Some (finite_part d))) of
        (Some segs, Some d) \<Rightarrow>
          Some \<lparr>res_text = sp_text r, res_segments = segs, res_language = sp_language r, res_duration = d\<rparr>
      | _ \<Rightarrow> None)"

definition uses_groq :: "(pyval \<Rightarrow> string) \<Rightarrow> groq_http \<Rightarrow> groq_config \<Rightarrow> backend \<Rightarrow> bool" where
  "uses_groq show_val H G B \<longleftrightarrow> (\<forall>calls audio filename.
     case groq_transcribe show_val H G calls audio filename None of
       Inl (e, _) \<Rightarrow> B calls audio filename = Inl e
     | Inr r \<Rightarrow> (\<forall>t. finite_result r = Some t \<longrightarrow> B calls audio filename = Inr t))"

lemma uses_groq_Inl:
  "uses_groq show_val H G B \<Longrightarrow> groq_transcribe show_val H G calls audio filename None = Inl err \<Longrightarrow>
     B calls audio filename = Inl (fst err)"
  unfolding uses_groq_def by (metis (mono_tags, lifting) old.sum.simps(5) prod.case_eq_if)

lemma uses_groq_Inr:
  "uses_groq show_val H G B \<Longrightarrow> groq_transcribe show_val H G calls audio filename None = Inr r \<Longrightarrow> finite_result r = Some t \<Longrightarrow>
     B calls audio filename = Inr t"
  unfolding uses_groq_def by (metis (mono_tags, lifting) old.sum.simps(6))

lemma raise_for_status_iff: "raise_for_status resp = None \<longleftrightarrow> gr_status resp < 400"
  by (auto simp: raise_for_status_def Let_def)

text \<open>Only a timeout is translated: any other exception of the HTTP client passes as it is.\<close>

lemma groq_network_error_unmapped:
  "gh_post H calls (groq_request G audio filename hint) = Inl e \<Longrightarrow> \<not> gh_timeout H e \<Longrightarrow>
     groq_transcribe show_val H G calls audio filename hint = Inl (e, None)"
  by (simp add: groq_transcribe_def)

text \<open>
  C26. Words and segments. When the segments of an answer follow one another without a gap from \<open>a\<close> to \<open>b\<close>, every
  word of the answer whose midpoint (a double, rounded as the code computes it) lies from \<open>a\<close> up to but excluding \<open>b\<close>
  stands in exactly one segment, and no other word does; in particular a word whose midpoint is the end of the last
  segment is dropped, against the comment that every word is attributed.
\<close>

theorem words_attributed_once:
  assumes "parse_response show_val payload = Inr r" "tiles a (sp_segments r) b"
  shows "\<exists>ws. and_then (raw_list payload ''words'') (parse_words show_val) = Inr ws \<and>
     mset (concat (map ss_words (sp_segments r))) = mset (filter (inside a b) ws) \<and>
     (\<forall>w \<in> set ws. midpoint w = b \<longrightarrow> (\<forall>s \<in> set (sp_segments r). w \<notin> set (ss_words s)))"
proof -
  obtain raws ws segs where ws: "raw_list payload ''words'' = Inr raws" "parse_words show_val raws = Inr ws"
    and segs: "map_records (parse_segment show_val ws) segs = Inr (sp_segments r)"
    using assms(1) unfolding parse_response_def and_then_def by (auto split: sum.splits)
  have m: "mset (concat (map ss_words (sp_segments r))) = mset (filter (inside a b) ws)"
    using tiled_words [OF parse_segments [OF segs] assms(2)] by simp
  have "w \<notin> set (ss_words s)" if "s \<in> set (sp_segments r)" "midpoint w = b" for w s
  proof
    assume "w \<in> set (ss_words s)"
    then have "w \<in># mset (concat (map ss_words (sp_segments r)))" using that(1) by auto
    then have "inside a b w" unfolding m by simp
    then show False using that(2) by (cases b) (auto simp: inside_def)
  qed
  with ws m show ?thesis by auto
qed

definition groq_demo_payload :: pyval where
  "groq_demo_payload = PDict [(''text'', PStr ''hi''), (''language'', PStr ''en''),
     (''segments'', PList [PDict [(''text'', PStr ''hi''), (''start'', PFloat 0), (''end'', PFloat (5 / 2))]]),
     (''words'', PList [PDict [(''word'', PStr ''hi''), (''start'', PFloat 0), (''end'', PFloat 1)]])]"

definition groq_demo_word :: spoken_word where
  "groq_demo_word = \<lparr>sw_text = ''hi'', sw_start = Finite 0, sw_end = Finite 1\<rparr>"

definition groq_demo_result :: spoken_result where
  "groq_demo_result = \<lparr>sp_text = ''hi'',
     sp_segments = [\<lparr>ss_text = ''hi'', ss_start = Finite 0, ss_end = Finite (5 / 2), ss_words = [groq_demo_word]\<rparr>],
     sp_language = Some ''en'', sp_duration = None\<rparr>"

lemma groq_demo_parse: "parse_response show_val groq_demo_payload = Inr groq_demo_result"
proof -
  have "fl 1 = 1" by code_simp
  then show ?thesis
    by (simp add: parse_response_def groq_demo_payload_def get_default_def get_attr_def dget_or_def dget_def raw_list_def
        py_or_def parse_word_def parse_segment_def words_inside_def inside_def midpoint_def float_le_def shown_def
        groq_demo_result_def groq_demo_word_def)
qed

theorem words_attributed_once_witness:
  "\<exists>ws. and_then (raw_list groq_demo_payload ''words'') (parse_words (\<lambda>v. [])) = Inr ws \<and>
     mset [groq_demo_word] = mset (filter (inside (Finite 0) (Finite (5 / 2))) ws)"
  using words_attributed_once [OF groq_demo_parse, of "Finite 0" "Finite (5 / 2)" "\<lambda>v. []"]
  by (simp add: groq_demo_result_def float_le_def) blast

text \<open>
  C25. Groq's answer in the row of the upload. Let the task run with Groq as its backend and the audio be read. An
  answer with an error status leaves the row failed, with the library's error class for the status and the text of
  that error; any other answer whose times are finite leaves it succeeded with the parsed transcript.
\<close>

theorem groq_answer_recorded:
  assumes "ddb_ok E V" "float_lib_ok E" "uses_groq show_val H G B"
    and "transcribe_ingestion E B tbl bucket uid iid w = (Inr (), w')"
    and "rows V w tbl (ingestion_key uid iid) = Some row" "ing_from_dynamo E row = Inr r"
    and "svc E (trace w) (S3GetObject bucket (in_s3_key r)) = Inr audio"
    and "gh_post H (trace w @ [S3GetObject bucket (in_s3_key r)]) (groq_request G audio (in_filename r) None) = Inr response"
  shows "\<exists>new. rows V w' = store_row (rows V w) tbl (ingestion_key uid iid) new \<and>
     (400 \<le> gr_status response \<longrightarrow>
        (\<exists>cls msg. ing_from_dynamo E new = Inr (failed_record r (cls @ '': '' @ str_exn E (TranscriberError cls msg))) \<and>
           (gr_status response = 401 \<longrightarrow> cls = ''TranscriberAuthError'') \<and>
           (gr_status response = 429 \<longrightarrow> cls = ''TranscriberRateLimitError'') \<and>
           (gr_status response \<notin> {401, 429} \<longrightarrow> gr_status response < 500 \<longrightarrow> cls = ''TranscriberRequestError'') \<and>
           (500 \<le> gr_status response \<longrightarrow> cls = ''TranscriberUpstreamError''))) \<and>
     (gr_status response < 400 \<longrightarrow>
        (\<forall>sp t. and_then (gr_json response) (parse_response show_val) = Inr sp \<longrightarrow> finite_result sp = Some t \<longrightarrow>
           ing_from_dynamo E new = Inr (r\<lparr>in_transcript_status := Some TsSucceeded,
             in_transcript := Some (to_transcript_model t), in_transcript_error := None\<rparr>)))"
proof -
  let ?c = "trace w @ [S3GetObject bucket (in_s3_key r)]"
  obtain new where new: "rows V w' = store_row (rows V w) tbl (ingestion_key uid iid) new"
      "ing_from_dynamo E new = Inr (transcription_outcome E B bucket (trace w) r)"
    using transcribe_ingestion_row [OF assms(1,2,4-6)] by blast
  have refused: "\<exists>cls msg. transcription_outcome E B bucket (trace w) r =
        failed_record r (cls @ '': '' @ str_exn E (TranscriberError cls msg)) \<and>
        (gr_status response = 401 \<longrightarrow> cls = ''TranscriberAuthError'') \<and>
        (gr_status response = 429 \<longrightarrow> cls = ''TranscriberRateLimitError'') \<and>
        (gr_status response \<notin> {401, 429} \<longrightarrow> gr_status response < 500 \<longrightarrow> cls = ''TranscriberRequestError'') \<and>
        (500 \<le> gr_status response \<longrightarrow> cls = ''TranscriberUpstreamError'')" if "400 \<le> gr_status response"
  proof -
    have "raise_for_status response \<noteq> None" using that by (simp add: raise_for_status_iff)
    then obtain err where err: "raise_for_status response = Some err" by blast
    then have "groq_transcribe show_val H G ?c audio (in_filename r) None = Inl err"
      by (simp add: groq_transcribe_def assms(8))
    note B = uses_groq_Inl [OF assms(3) this]
    show ?thesis
      using err that
      by (auto simp: transcription_outcome_def assms(7) B backend_error_message_def raise_for_status_def Let_def split: if_splits)
  qed
  have accepted: "transcription_outcome E B bucket (trace w) r = r\<lparr>in_transcript_status := Some TsSucceeded,
        in_transcript := Some (to_transcript_model t), in_transcript_error := None\<rparr>"
    if "gr_status response < 400" "and_then (gr_json response) (parse_response show_val) = Inr sp" "finite_result sp = Some t" for sp t
  proof -
    have "groq_transcribe show_val H G ?c audio (in_filename r) None = Inr sp"
      using that raise_for_status_iff [of response] by (simp add: groq_transcribe_def assms(8))
    from uses_groq_Inr [OF assms(3) this that(3)] show ?thesis
      by (simp add: transcription_outcome_def assms(7))
  qed
  show ?thesis using new refused accepted by auto
qed

definition groq_demo_http :: groq_http where
  "groq_demo_http = \<lparr>gh_post = (\<lambda>calls p. Inr \<lparr>gr_status = 200, gr_text = [], gr_retry_after = None, gr_json = Inr groq_demo_payload\<rparr>),
     gh_timeout = (\<lambda>e. False)\<rparr>"

definition groq_demo_config :: groq_config where
  "groq_demo_config = \<lparr>gq_api_key = ''k'', gq_model = ''whisper-large-v3'', gq_base_url = ''https://api.groq.com/openai/v1'',
     gq_timeout = ''60.0''\<rparr>"

lemma groq_demo_finite: "finite_result groq_demo_result =
    Some \<lparr>res_text = tr_text demo_transcript, res_segments = tr_segments demo_transcript,
     res_language = tr_language demo_transcript, res_duration = tr_duration demo_transcript\<rparr>"
  by (simp add: finite_result_def groq_demo_result_def groq_demo_word_def finite_segment_def finite_word_def demo_transcript_def)

lemma groq_demo_uses: "uses_groq (\<lambda>v. []) groq_demo_http groq_demo_config demo_backend"
  by (simp add: uses_groq_def groq_transcribe_def groq_demo_http_def raise_for_status_def groq_demo_parse groq_demo_finite
      demo_backend_def)

theorem groq_answer_recorded_witness:
  "\<exists>w' new. transcribe_ingestion (ing_demo_env (\<lambda>_ _. Inr (PStr ''bytes''))) demo_backend ''t'' ''b'' ''alice'' ''i''
       (ing_demo_world (Some TsPending)) = (Inr (), w') \<and>
     ing_from_dynamo (ing_demo_env (\<lambda>_ _. Inr (PStr ''bytes''))) new =
       Inr ((ing_demo_record (Some TsPending))\<lparr>in_transcript_status := Some TsSucceeded,
              in_transcript := Some demo_transcript, in_transcript_error := None\<rparr>)"
proof -
  let ?E = "ing_demo_env (\<lambda>_ _. Inr (PStr ''bytes''))" and ?w = "ing_demo_world (Some TsPending)"
  obtain w' where run: "transcribe_ingestion ?E demo_backend ''t'' ''b'' ''alice'' ''i'' ?w = (Inr (), w')"
    using ing_demo_runs by blast
  have s3: "svc ?E (trace ?w) (S3GetObject ''b'' (in_s3_key (ing_demo_record (Some TsPending)))) = Inr (PStr ''bytes'')"
    by (simp add: ing_demo_env_def)
  have post: "gh_post groq_demo_http (trace ?w @ [S3GetObject ''b'' (in_s3_key (ing_demo_record (Some TsPending)))])
      (groq_request groq_demo_config (PStr ''bytes'') (in_filename (ing_demo_record (Some TsPending))) None) =
      Inr \<lparr>gr_status = 200, gr_text = [], gr_retry_after = None, gr_json = Inr groq_demo_payload\<rparr>"
    by (simp add: groq_demo_http_def)
  have model: "to_transcript_model \<lparr>res_text = tr_text demo_transcript, res_segments = tr_segments demo_transcript,
     res_language = tr_language demo_transcript, res_duration = tr_duration demo_transcript\<rparr> = demo_transcript"
    by (simp add: to_transcript_model_def demo_transcript_def)
  from groq_answer_recorded [OF ing_demo_ok ing_demo_floats groq_demo_uses run ing_demo_row_stored ing_demo_decode s3 post] run
  show ?thesis by (auto simp: groq_demo_parse groq_demo_finite model)
qed

end
