(* ===== verification/Health_Aggregator.thy ===== *)
theory Health_Aggregator
  imports Cost_Rollup
begin

text \<open>
  The health aggregator (\<^verbatim>\<open>services/health-aggregator\<close>): the clients of ECS, of the load balancer, of CloudWatch Logs and
  of CloudWatch, the static registry, the probe of one service with its decision matrix, the snapshot and the detail
  page. All calls are reads, made in parallel by \<^verbatim>\<open>asyncio.gather\<close>: \<open>he_aws\<close> is the answer of each call, and
  \<open>he_first\<close> is the schedule, which of the failures of a gather is raised first. Clocks, \<^verbatim>\<open>json.loads\<close> and the texts of
  foreign values and exceptions are fields of the same record; a log query without a filter has the empty filter.
\<close>

datatype log_query = Heartbeat string | RecentEvents string | RecentErrors string

record health_env =
  he_aws :: "call \<Rightarrow> exn + pyval"
  he_first :: "exn list \<Rightarrow> exn"
  he_time :: "log_query \<Rightarrow> rat"
  he_metrics_now :: "string \<Rightarrow> int"
  he_checked :: "string \<Rightarrow> int"
  he_generated :: int
  he_loads :: "string \<Rightarrow> pyval option"
  he_show :: "pyval \<Rightarrow> string"
  he_str_exn :: "exn \<Rightarrow> string"

record health_settings =
  hs_cluster :: string
  hs_window :: int

text \<open>\<^verbatim>\<open>asyncio.gather\<close>: all results, or the failure that came first.\<close>

definition failures :: "exn + 'a \<Rightarrow> exn list" where
  "failures r = (case r of Inl e \<Rightarrow> [e] | Inr x \<Rightarrow> [])"

definition gathered :: "health_env \<Rightarrow> exn list \<Rightarrow> 'a \<Rightarrow> exn + 'a" where
  "gathered H errs x = (case errs of [] \<Rightarrow> Inr x | _ \<Rightarrow> Inl (he_first H errs))"

definition gather :: "health_env \<Rightarrow> (exn + 'a) list \<Rightarrow> exn + 'a list" where
  "gather H rs = gathered H (concat (map failures rs)) (map projr rs)"

definition int_value :: "pyval \<Rightarrow> exn + int" where
  "int_value v =
     (case to_int v of
        Some n \<Rightarrow> Inr n
      | None \<Rightarrow> Inl (case as_str v of Some s \<Rightarrow> ValueError ''invalid literal for int()'' | None \<Rightarrow> TypeError))"

fun len_value :: "pyval \<Rightarrow> exn + int" where
  "len_value (PList xs) = Inr (int (length xs))"
| "len_value (PDict d) = Inr (int (length d))"
| "len_value (PStr s) = Inr (int (length s))"
| "len_value v = Inl TypeError"

text \<open>A number of a JSON answer in arithmetic.\<close>

fun number :: "pyval \<Rightarrow> exn + rat" where
  "number (PInt i) = Inr (of_int i)"
| "number (PFloat q) = Inr q"
| "number (PBool b) = Inr (if b then 1 else 0)"
| "number v = Inl TypeError"

section \<open>ECS and the load balancer\<close>

record ecs_state =
  es_running :: int
  es_desired :: int
  es_deployments :: int

definition ecs_state_of :: "pyval \<Rightarrow> exn + ecs_state" where
  "ecs_state_of service =
     and_then (and_then (get_default service ''runningCount'' (PInt 0)) int_value) (\<lambda>running.
     and_then (and_then (get_default service ''desiredCount'' (PInt 0)) int_value) (\<lambda>desired.
     and_then (and_then (get_attr service ''deployments'') (\<lambda>d. len_value (py_or d (PList [])))) (\<lambda>deployments.
       Inr \<lparr>es_running = running, es_desired = desired, es_deployments = deployments\<rparr>)))"

definition describe_service :: "health_env \<Rightarrow> health_settings \<Rightarrow> string \<Rightarrow> exn + ecs_state option" where
  "describe_service H S name =
     and_then (he_aws H (EcsDescribe (hs_cluster S) name)) (\<lambda>response.
     and_then (resp_list response ''services'') (\<lambda>services.
     (case services of
        [] \<Rightarrow> Inr None
      | service # _ \<Rightarrow> and_then (ecs_state_of service) (\<lambda>st. Inr (Some st)))))"

definition target_healthy :: "pyval \<Rightarrow> exn + bool" where
  "target_healthy t =
     and_then (get_attr t ''TargetHealth'') (\<lambda>h.
     and_then (get_attr (py_or h (PDict [])) ''State'') (\<lambda>state. Inr (state = PStr ''healthy'')))"

text \<open>\<^verbatim>\<open>all(...)\<close> of a generator stops at the first target that is not healthy.\<close>

fun all_healthy :: "pyval list \<Rightarrow> exn + bool" where
  "all_healthy [] = Inr True"
| "all_healthy (t # ts) = and_then (target_healthy t) (\<lambda>ok. if ok then all_healthy ts else Inr False)"

definition all_targets_healthy :: "health_env \<Rightarrow> string \<Rightarrow> exn + bool" where
  "all_targets_healthy H arn =
     and_then (he_aws H (TargetHealth arn)) (\<lambda>response.
     and_then (resp_list response ''TargetHealthDescriptions'') (\<lambda>targets.
       if targets = [] then Inr False else all_healthy targets))"

section \<open>Logs\<close>

datatype log_level = Debug | Info | Warn | ErrorLevel

record log_entry =
  lg_timestamp :: int
  lg_level :: log_level
  lg_message :: string

record error_entry =
  ee_timestamp :: int
  ee_message :: string
  ee_count :: int

text \<open>\<^verbatim>\<open>str.upper\<close> as far as a search for the names of levels can tell.\<close>

definition upper_char :: "char \<Rightarrow> char" where
  "upper_char c = (let n = (of_char c :: nat) in if 97 \<le> n \<and> n \<le> 122 then char_of (n - 32) else c)"

definition occurs :: "string \<Rightarrow> string \<Rightarrow> bool" where
  "occurs p s = list_ex (\<lambda>n. starts_with (drop n s) p) [0..<Suc (length s)]"

definition level_named :: "string \<Rightarrow> log_level option" where
  "level_named raw =
     (if raw = ''DEBUG'' then Some Debug else if raw = ''INFO'' then Some Info
      else if raw = ''WARN'' \<or> raw = ''WARNING'' then Some Warn else if raw = ''ERROR'' then Some ErrorLevel else None)"

definition level_in_text :: "string \<Rightarrow> log_level" where
  "level_in_text message =
     (let u = map upper_char message in
      if occurs ''ERROR'' u then ErrorLevel else if occurs ''WARN'' u then Warn
      else if occurs ''INFO'' u then Info else if occurs ''DEBUG'' u then Debug else Info)"

definition parse_level :: "health_env \<Rightarrow> string \<Rightarrow> log_level" where
  "parse_level H message =
     (case Option.bind (he_loads H message) as_dict of
        None \<Rightarrow> level_in_text message
      | Some data \<Rightarrow>
          let level = dget_or data ''level'' (PStr []);
              raw = map upper_char (case as_str level of Some s \<Rightarrow> s | None \<Rightarrow> he_show H level)
          in (case level_named raw of Some l \<Rightarrow> l | None \<Rightarrow> Info))"

definition start_ms :: "health_env \<Rightarrow> log_query \<Rightarrow> int \<Rightarrow> int" where
  "start_ms H q window_seconds = trunc_rat (fl (fl (he_time H q - of_int window_seconds) * 1000))"

text \<open>One query of a log group; a group that does not exist is the second argument.\<close>

definition log_events :: "health_env \<Rightarrow> log_query \<Rightarrow> string \<Rightarrow> int \<Rightarrow> int \<Rightarrow> string \<Rightarrow> 'a \<Rightarrow> (pyval list \<Rightarrow> exn + 'a) \<Rightarrow> exn + 'a" where
  "log_events H q log_group window_seconds limit pattern missing use =
     (case he_aws H (FilterLogEvents log_group (start_ms H q window_seconds) limit pattern) of
        Inl e \<Rightarrow> if is_client_error e \<and> error_code e = ''ResourceNotFoundException'' then Inr missing else Inl e
      | Inr response \<Rightarrow> and_then (resp_list response ''events'') use)"

definition has_recent_event :: "health_env \<Rightarrow> string \<Rightarrow> int \<Rightarrow> exn + bool" where
  "has_recent_event H log_group window_seconds =
     log_events H (Heartbeat log_group) log_group window_seconds 1 [] False (\<lambda>events. Inr (events \<noteq> []))"

text \<open>\<^verbatim>\<open>datetime.fromtimestamp(ev["timestamp"] / 1000, tz=UTC)\<close>: the fraction is rounded to microseconds.\<close>

definition event_time :: "pyval \<Rightarrow> exn + int" where
  "event_time ev =
     (case as_dict ev of
        None \<Rightarrow> Inl TypeError
      | Some d \<Rightarrow>
          (case map_of d ''timestamp'' of
             None \<Rightarrow> Inl (KeyError ''timestamp'')
           | Some v \<Rightarrow>
               and_then (number v) (\<lambda>t.
                 let x = fl (t / 1000); whole = trunc_rat x;
                     us = whole * 1000000 + round_half_even (fl ((x - of_int whole) * 1000000))
                 in if - 62135596800000000 \<le> us \<and> us \<le> 253402300799999999 then Inr us
                    else Inl (ValueError ''year is out of range''))))"

definition log_entry_of :: "health_env \<Rightarrow> pyval \<Rightarrow> exn + log_entry" where
  "log_entry_of H ev =
     and_then (get_default ev ''message'' (PStr [])) (\<lambda>msg.
     and_then (event_time ev) (\<lambda>t.
     (case as_str msg of
        None \<Rightarrow> Inl TypeError
      | Some m \<Rightarrow> Inr \<lparr>lg_timestamp = t, lg_level = parse_level H m, lg_message = strip m\<rparr>)))"

definition get_recent_events :: "health_env \<Rightarrow> string \<Rightarrow> int \<Rightarrow> int \<Rightarrow> exn + log_entry list" where
  "get_recent_events H log_group window_seconds limit =
     log_events H (RecentEvents log_group) log_group window_seconds limit [] [] (map_records (log_entry_of H))"

definition error_event :: "pyval \<Rightarrow> exn + string \<times> int" where
  "error_event ev =
     and_then (get_default ev ''message'' (PStr [])) (\<lambda>msg.
     (case as_str msg of
        None \<Rightarrow> Inl AttributeError
      | Some m \<Rightarrow> and_then (event_time ev) (\<lambda>t. Inr (strip m, t))))"

definition count_error :: "string \<times> int \<Rightarrow> (string \<times> error_entry) list \<Rightarrow> (string \<times> error_entry) list" where
  "count_error x seen =
     (case x of (msg, ts) \<Rightarrow>
        (case map_of seen msg of
           Some e \<Rightarrow> AList.update msg \<lparr>ee_timestamp = max (ee_timestamp e) ts, ee_message = msg, ee_count = ee_count e + 1\<rparr> seen
         | None \<Rightarrow> AList.update msg \<lparr>ee_timestamp = ts, ee_message = msg, ee_count = 1\<rparr> seen))"

fun collect_errors :: "(string \<times> error_entry) list \<Rightarrow> pyval list \<Rightarrow> exn + (string \<times> error_entry) list" where
  "collect_errors seen [] = Inr seen"
| "collect_errors seen (ev # evs) = and_then (error_event ev) (\<lambda>x. collect_errors (count_error x seen) evs)"

definition error_entries :: "pyval list \<Rightarrow> exn + error_entry list" where
  "error_entries events = and_then (collect_errors [] events) (\<lambda>seen. Inr (sort_desc ee_timestamp (map snd seen)))"

definition get_recent_errors :: "health_env \<Rightarrow> string \<Rightarrow> int \<Rightarrow> int \<Rightarrow> exn + error_entry list" where
  "get_recent_errors H log_group window_seconds limit =
     log_events H (RecentErrors log_group) log_group window_seconds limit ''ERROR'' [] error_entries"

section \<open>Metrics\<close>

record metric_snapshot =
  mt_cpu_percent :: rat
  mt_memory_mb :: int
  mt_memory_limit_mb :: int

definition no_metrics :: metric_snapshot where
  "no_metrics = \<lparr>mt_cpu_percent = 0, mt_memory_mb = 0, mt_memory_limit_mb = 0\<rparr>"

definition metric_query :: "health_settings \<Rightarrow> string \<Rightarrow> string \<times> string \<Rightarrow> item" where
  "metric_query S ecs_service metric =
     (case metric of (name, qid) \<Rightarrow>
       [(''Id'', PStr qid),
        (''MetricStat'', PDict [(''Metric'', PDict [(''Namespace'', PStr ''ECS/ContainerInsights''), (''MetricName'', PStr name),
            (''Dimensions'', PList [PDict [(''Name'', PStr ''ClusterName''), (''Value'', PStr (hs_cluster S))],
                                 PDict [(''Name'', PStr ''ServiceName''), (''Value'', PStr ecs_service)]])]),
          (''Period'', PInt 60), (''Stat'', PStr ''Average'')]),
        (''ReturnData'', PBool True)])"

definition metrics_call :: "health_env \<Rightarrow> health_settings \<Rightarrow> string \<Rightarrow> call" where
  "metrics_call H S ecs_service =
     GetMetricData (map (metric_query S ecs_service) [(''CpuUtilized'', ''cpuutilized''), (''CpuReserved'', ''cpureserved''),
         (''MemoryUtilized'', ''memoryutilized''), (''MemoryReserved'', ''memoryreserved'')])
       (he_metrics_now H ecs_service - 600000000) (he_metrics_now H ecs_service)"

definition metric_result :: "pyval \<Rightarrow> exn + string \<times> pyval" where
  "metric_result r =
     (case as_dict r of
        None \<Rightarrow> Inl TypeError
      | Some d \<Rightarrow>
          (case map_of d ''Id'' of
             None \<Rightarrow> Inl (KeyError ''Id'')
           | Some (PStr k) \<Rightarrow> Inr (k, dget_or d ''Values'' (PList []))
           | Some _ \<Rightarrow> Inl TypeError))"

text \<open>\<^verbatim>\<open>v[0] if v else zero\<close>; later results of an identifier overwrite earlier ones.\<close>

definition first_value :: "(string \<times> pyval) list \<Rightarrow> string \<Rightarrow> pyval \<Rightarrow> exn + pyval" where
  "first_value results k zero =
     (let v = dget_or (rev results) k (PList []) in
      if \<not> truthy v then Inr zero
      else (case as_list v of Some (x # _) \<Rightarrow> Inr x | _ \<Rightarrow> Inl TypeError))"

definition cpu_percent :: "pyval \<Rightarrow> pyval \<Rightarrow> exn + rat" where
  "cpu_percent used reserved =
     (if \<not> truthy reserved then Inr 0
      else and_then (number used) (\<lambda>u. and_then (number reserved) (\<lambda>cap.
        Inr (fl (of_int (round_half_even (fl (fl (u / cap) * 100) * 10)) / 10)))))"

definition metrics_of :: "pyval \<Rightarrow> exn + metric_snapshot" where
  "metrics_of response =
     and_then (get_default response ''MetricDataResults'' (PList [])) (\<lambda>raw.
     and_then (case as_list raw of Some rs \<Rightarrow> map_records metric_result rs | None \<Rightarrow> Inl TypeError) (\<lambda>results.
     and_then (first_value results ''cpuutilized'' (PFloat 0)) (\<lambda>cpu_val.
     and_then (first_value results ''cpureserved'' (PFloat 0)) (\<lambda>cpu_cap.
     and_then (and_then (first_value results ''memoryutilized'' (PInt 0)) int_value) (\<lambda>mem_val.
     and_then (and_then (first_value results ''memoryreserved'' (PInt 0)) int_value) (\<lambda>mem_limit.
     and_then (cpu_percent cpu_val cpu_cap) (\<lambda>cpu_pct.
       Inr \<lparr>mt_cpu_percent = cpu_pct, mt_memory_mb = mem_val, mt_memory_limit_mb = mem_limit\<rparr>)))))))"

definition get_service_metrics :: "health_env \<Rightarrow> health_settings \<Rightarrow> string \<Rightarrow> exn + metric_snapshot" where
  "get_service_metrics H S ecs_service =
     (case he_aws H (metrics_call H S ecs_service) of
        Inl e \<Rightarrow> Inr no_metrics
      | Inr response \<Rightarrow> metrics_of response)"

section \<open>The registry\<close>

record monitored_service =
  ms_service :: string
  ms_display_name :: string
  ms_ecs_service :: string
  ms_target_groups :: "string list"
  ms_log_group :: "string option"
  ms_check_logs :: bool

definition monitored :: "string \<times> string \<Rightarrow> monitored_service" where
  "monitored p = \<lparr>ms_service = fst p, ms_display_name = snd p, ms_ecs_service = ''panakoes-dev-'' @ fst p, ms_target_groups = [],
     ms_log_group = Some (''/panakoes/dev/'' @ fst p), ms_check_logs = True\<rparr>"

definition service_registry :: "monitored_service list" where
  "service_registry = map monitored
     [(''auth'', ''Auth''), (''admin-api'', ''Admin API''), (''cost-api'', ''Cost API''), (''ingestion-api'', ''Ingestion API''),
      (''summarization'', ''Summarization''), (''notification'', ''Notification''), (''query-api'', ''Query API''),
      (''session-manager'', ''Session Manager''), (''gpu-spawner'', ''GPU Spawner''),
      (''transcriber-batch'', ''Transcriber (batch)''), (''transcriber-stream'', ''Transcriber (stream)''),
      (''event-router'', ''Event Router''), (''billing'', ''Billing'')]"

definition get_service :: "string \<Rightarrow> monitored_service option" where
  "get_service name = find (\<lambda>entry. ms_service entry = name) service_registry"

section \<open>Probe and status\<close>

record service_probe =
  sb_running :: int
  sb_desired :: int
  sb_deployments :: int
  sb_targets :: "bool option"
  sb_heartbeat :: "bool option"
  sb_error :: "string option"

definition probe_targets :: "health_env \<Rightarrow> monitored_service \<Rightarrow> exn + bool option" where
  "probe_targets H entry =
     (if ms_target_groups entry = [] then Inr None
      else and_then (gather H (map (all_targets_healthy H) (ms_target_groups entry))) (\<lambda>results. Inr (Some (list_all id results))))"

definition probe_logs :: "health_env \<Rightarrow> health_settings \<Rightarrow> monitored_service \<Rightarrow> exn + bool option" where
  "probe_logs H S entry =
     (case ms_log_group entry of
        None \<Rightarrow> Inr None
      | Some g \<Rightarrow> if \<not> ms_check_logs entry then Inr None
                  else map_sum id Some (has_recent_event H g (hs_window S)))"

definition probe :: "health_env \<Rightarrow> health_settings \<Rightarrow> monitored_service \<Rightarrow> service_probe" where
  "probe H S entry =
     (let ecs = describe_service H S (ms_ecs_service entry); tgs = probe_targets H entry; logs = probe_logs H S entry in
      case gathered H (failures ecs @ failures tgs @ failures logs) () of
        Inl e \<Rightarrow> \<lparr>sb_running = 0, sb_desired = 0, sb_deployments = 0, sb_targets = None, sb_heartbeat = None,
                 sb_error = Some (he_str_exn H e)\<rparr>
      | Inr _ \<Rightarrow>
          (case projr ecs of
             None \<Rightarrow> \<lparr>sb_running = 0, sb_desired = 0, sb_deployments = 0, sb_targets = projr tgs, sb_heartbeat = projr logs,
                      sb_error = Some ''ecs service not found''\<rparr>
           | Some st \<Rightarrow> \<lparr>sb_running = es_running st, sb_desired = es_desired st, sb_deployments = es_deployments st,
                         sb_targets = projr tgs, sb_heartbeat = projr logs, sb_error = None\<rparr>))"

datatype health_status = Healthy | Unknown | Unhealthy

definition status_from_probe :: "service_probe \<Rightarrow> health_status \<times> string option" where
  "status_from_probe b =
     (case sb_error b of
        Some m \<Rightarrow> (Unknown, Some m)
      | None \<Rightarrow>
          if sb_deployments b \<noteq> 1
          then (Unknown, Some (''rollout in progress ('' @ str_int (sb_deployments b) @ '' active deployments)''))
          else if sb_running b \<noteq> sb_desired b
          then (Unhealthy, Some (''running='' @ str_int (sb_running b) @ '' desired='' @ str_int (sb_desired b)))
          else if sb_targets b = Some False then (Unhealthy, Some ''one or more target group targets are unhealthy'')
          else if sb_heartbeat b = Some False then (Unknown, Some ''no log events in the heartbeat window'')
          else (Healthy, None))"

record service_health =
  sh_service :: string
  sh_display_name :: string
  sh_status :: health_status
  sh_last_check :: int
  sh_message :: "string option"

definition health_for :: "health_env \<Rightarrow> health_settings \<Rightarrow> monitored_service \<Rightarrow> service_health" where
  "health_for H S entry =
     (case status_from_probe (probe H S entry) of (st, message) \<Rightarrow>
        \<lparr>sh_service = ms_service entry, sh_display_name = ms_display_name entry, sh_status = st,
         sh_last_check = he_checked H (ms_service entry), sh_message = message\<rparr>)"

record health_snapshot =
  hp_generated_at :: int
  hp_services :: "service_health list"

definition snapshot :: "health_env \<Rightarrow> health_settings \<Rightarrow> monitored_service list \<Rightarrow> health_snapshot" where
  "snapshot H S registry = \<lparr>hp_generated_at = he_generated H, hp_services = map (health_for H S) registry\<rparr>"

record service_detail =
  sv_service :: string
  sv_display_name :: string
  sv_health :: service_health
  sv_recent_logs :: "log_entry list"
  sv_recent_errors :: "error_entry list"
  sv_metrics :: metric_snapshot

definition detail_for :: "health_env \<Rightarrow> health_settings \<Rightarrow> monitored_service \<Rightarrow> exn + service_detail" where
  "detail_for H S entry =
     (let logs = (case ms_log_group entry of None \<Rightarrow> Inr [] | Some g \<Rightarrow> if g = [] then Inr [] else get_recent_events H g 3600 20);
          errors = (case ms_log_group entry of None \<Rightarrow> Inr [] | Some g \<Rightarrow> if g = [] then Inr [] else get_recent_errors H g 86400 10);
          metrics = get_service_metrics H S (ms_ecs_service entry)
      in and_then (gathered H (failures logs @ failures errors @ failures metrics) ()) (\<lambda>_.
         Inr \<lparr>sv_service = ms_service entry, sv_display_name = ms_display_name entry, sv_health = health_for H S entry,
              sv_recent_logs = projr logs, sv_recent_errors = projr errors, sv_metrics = projr metrics\<rparr>))"

definition get_health_snapshot :: "health_env \<Rightarrow> health_settings \<Rightarrow> health_snapshot" where
  "get_health_snapshot H S = snapshot H S service_registry"

definition get_service_detail :: "health_env \<Rightarrow> health_settings \<Rightarrow> string \<Rightarrow> exn + service_detail" where
  "get_service_detail H S name =
     (case get_service name of
        None \<Rightarrow> Inl (HTTPException 404 (''unknown service: '' @ name))
      | Some entry \<Rightarrow> detail_for H S entry)"

section \<open>Summaries of errors\<close>

definition error_summary :: "(string \<times> int) list \<Rightarrow> string \<Rightarrow> error_entry option" where
  "error_summary xs m =
     (if m \<in> fst ` set xs
      then Some \<lparr>ee_timestamp = Max (snd ` {x \<in> set xs. fst x = m}), ee_message = m,
                 ee_count = int (length (filter (\<lambda>x. fst x = m) xs))\<rparr>
      else None)"

lemma error_summary_snoc:
  "error_summary (xs @ [(k, t)]) m =
     (if m = k
      then Some (case error_summary xs k of
                   Some e \<Rightarrow> \<lparr>ee_timestamp = max (ee_timestamp e) t, ee_message = k, ee_count = ee_count e + 1\<rparr>
                 | None \<Rightarrow> \<lparr>ee_timestamp = t, ee_message = k, ee_count = 1\<rparr>)
      else error_summary xs m)"
proof (cases "m = k")
  case False
  then have "{x. (x = (k, t) \<or> x \<in> set xs) \<and> fst x = m} = {x \<in> set xs. fst x = m}" by auto
  with False show ?thesis by (auto simp: error_summary_def)
next
  case True
  have ins: "{x. (x = (k, t) \<or> x \<in> set xs) \<and> fst x = k} = insert (k, t) {x \<in> set xs. fst x = k}" by auto
  show ?thesis
  proof (cases "k \<in> fst ` set xs")
    case False
    then have "{x \<in> set xs. fst x = k} = {}" "filter (\<lambda>x. fst x = k) xs = []" by (force simp: filter_empty_conv)+
    with False True ins show ?thesis by (simp add: error_summary_def)
  next
    case inner: True
    then have "snd ` {x \<in> set xs. fst x = k} \<noteq> {}" by auto
    with inner True ins show ?thesis by (simp add: error_summary_def max.commute)
  qed
qed

lemma count_error_step:
  assumes "distinct (map fst seen)" "\<And>m. map_of seen m = error_summary xs m"
  shows "distinct (map fst (count_error x seen))" "map_of (count_error x seen) m = error_summary (xs @ [x]) m"
proof -
  obtain k t where x: "x = (k, t)" by force
  obtain v where v: "error_summary (xs @ [x]) k = Some v" by (simp add: x error_summary_snoc)
  then have c: "count_error x seen = AList.update k v seen"
    by (auto simp: count_error_def x assms(2) error_summary_snoc split: option.splits)
  show "distinct (map fst (count_error x seen))" using assms(1) by (simp add: c distinct_update)
  show "map_of (count_error x seen) m = error_summary (xs @ [x]) m"
    using v by (cases "m = k") (simp_all add: c [unfolded x] update_conv' assms(2) x error_summary_snoc)
qed

lemma collect_errors_ok:
  assumes "collect_errors seen raw = Inr seen'" "distinct (map fst seen)" "\<And>m. map_of seen m = error_summary xs m"
  shows "\<exists>evs. map error_event raw = map Inr evs \<and> distinct (map fst seen') \<and>
     (\<forall>m. map_of seen' m = error_summary (xs @ evs) m)"
  using assms
proof (induction raw arbitrary: seen xs)
  case Nil
  then show ?case by (intro exI [of _ "[]"]) simp
next
  case (Cons ev raw)
  then obtain x where x: "error_event ev = Inr x" "collect_errors (count_error x seen) raw = Inr seen'"
    by (auto simp: and_then_def split: sum.splits)
  from Cons.IH [OF x(2) count_error_step [OF Cons.prems(2,3)]] obtain evs where
    "map error_event raw = map Inr evs" "distinct (map fst seen')" "\<forall>m. map_of seen' m = error_summary ((xs @ [x]) @ evs) m"
    by blast
  with x(1) show ?case by (intro exI [of _ "x # evs"]) simp
qed

lemma error_entries_ok:
  assumes "error_entries raw = Inr es"
  shows "\<exists>evs. map error_event raw = map Inr evs \<and> distinct (map ee_message es) \<and>
     sorted_wrt (\<lambda>x y. ee_timestamp y \<le> ee_timestamp x) es \<and> (\<forall>e. e \<in> set es \<longleftrightarrow> error_summary evs (ee_message e) = Some e)"
proof -
  obtain seen where seen: "collect_errors [] raw = Inr seen" "es = sort_desc ee_timestamp (map snd seen)"
    using assms by (auto simp: error_entries_def and_then_def split: sum.splits)
  have "map_of ([] :: (string \<times> error_entry) list) m = error_summary [] m" for m by (simp add: error_summary_def)
  note ok = collect_errors_ok [OF seen(1) _ this, simplified]
  then obtain evs where evs: "map error_event raw = map Inr evs" "distinct (map fst seen)"
    and sm: "\<And>m. map_of seen m = error_summary evs m" by blast
  have key: "ee_message e = m" if "(m, e) \<in> set seen" for m e
    using that evs(2) sm [of m] by (auto simp: error_summary_def split: if_splits)
  have "map (ee_message \<circ> snd) seen = map fst seen" using key by auto
  then have "distinct (map (ee_message \<circ> snd) seen)" using evs(2) by metis
  then have d: "distinct (map ee_message es)" by (simp add: seen(2) distinct_sort_desc)
  have mem: "e \<in> set es \<longleftrightarrow> error_summary evs (ee_message e) = Some e" for e
  proof
    assume "e \<in> set es"
    then obtain m where m: "(m, e) \<in> set seen" by (auto simp: seen(2))
    with evs(2) sm [of m] key [OF m] show "error_summary evs (ee_message e) = Some e" by simp
  next
    assume "error_summary evs (ee_message e) = Some e"
    then have "(ee_message e, e) \<in> set seen" using sm map_of_SomeD by metis
    then show "e \<in> set es" by (force simp: seen(2))
  qed
  have "sorted_wrt (\<lambda>x y. ee_timestamp y \<le> ee_timestamp x) es" unfolding seen(2) by (rule sorted_sort_desc)
  with evs(1) d mem show ?thesis by (intro exI [of _ evs]) simp
qed

section \<open>Statuses\<close>

lemma no_failures: "concat (map failures rs) = [] \<longleftrightarrow> (\<exists>ys. rs = map Inr ys)"
proof (induction rs)
  case (Cons r rs)
  then show ?case by (cases r) (auto simp: failures_def Cons_eq_map_conv)
qed simp

lemma gather_Inr_iff: "gather H rs = Inr xs \<longleftrightarrow> rs = map Inr xs"
proof (cases "concat (map failures rs)")
  case Nil
  then obtain ys where rs: "rs = map Inr ys" using no_failures by blast
  have ys: "map projr rs = ys" unfolding rs by (induction ys) auto
  have "gather H rs = Inr ys" unfolding gather_def gathered_def Nil ys by simp
  moreover have "map Inr ys = (map Inr xs :: (exn + 'a) list) \<longleftrightarrow> ys = xs" by (rule inj_map_eq_map) (simp add: inj_def)
  ultimately show ?thesis using rs by simp
next
  case (Cons e es)
  then have "rs \<noteq> map Inr xs" using no_failures [of rs] by auto
  then show ?thesis using Cons by (simp add: gather_def gathered_def)
qed

lemma failures_empty: "failures r = [] \<longleftrightarrow> (\<exists>x. r = Inr x)"
  by (cases r) (auto simp: failures_def)

text \<open>What the three probes of a service say, when all of them were answered.\<close>

lemma probe_targets_Inr:
  "probe_targets H entry = Inr t \<longleftrightarrow>
     (\<forall>arn \<in> set (ms_target_groups entry). \<exists>b. all_targets_healthy H arn = Inr b) \<and>
     t = (if ms_target_groups entry = [] then None
          else Some (\<forall>arn \<in> set (ms_target_groups entry). all_targets_healthy H arn = Inr True))"
proof (cases "ms_target_groups entry = []")
  case False
  let ?f = "all_targets_healthy H" and ?as = "ms_target_groups entry"
  have m: "map f as = map Inr bs \<longleftrightarrow> (\<forall>a \<in> set as. \<exists>b. f a = Inr b) \<and> bs = map (projr \<circ> f) as"
    for f :: "string \<Rightarrow> exn + bool" and as bs
    by (induction as arbitrary: bs) (auto simp: Cons_eq_map_conv)
  have all: "list_all id (map (projr \<circ> ?f) ?as) = (\<forall>a \<in> set ?as. ?f a = Inr True)" if "\<forall>a \<in> set ?as. \<exists>b. ?f a = Inr b"
    using that by (force simp: list_all_iff)
  have "probe_targets H entry = Inr t \<longleftrightarrow> (\<exists>bs. gather H (map ?f ?as) = Inr bs \<and> t = Some (list_all id bs))"
    using False by (cases "gather H (map ?f ?as)") (auto simp: probe_targets_def)
  also have "\<dots> \<longleftrightarrow> (\<forall>a \<in> set ?as. \<exists>b. ?f a = Inr b) \<and> t = Some (list_all id (map (projr \<circ> ?f) ?as))"
    unfolding gather_Inr_iff m by blast
  finally show ?thesis using False all by auto
qed (auto simp: probe_targets_def)

lemma probe_logs_Inr:
  "probe_logs H S entry = Inr t \<longleftrightarrow>
     (case ms_log_group entry of
        Some g \<Rightarrow> if ms_check_logs entry then (\<exists>b. has_recent_event H g (hs_window S) = Inr b \<and> t = Some b) else t = None
      | None \<Rightarrow> t = None)"
  by (cases "ms_log_group entry"; cases "has_recent_event H (the (ms_log_group entry)) (hs_window S)")
    (auto simp: probe_logs_def)

lemma probe_error_free:
  "sb_error (probe H S entry) = None \<longleftrightarrow>
     (\<exists>st t l. describe_service H S (ms_ecs_service entry) = Inr (Some st) \<and> probe_targets H entry = Inr t \<and> probe_logs H S entry = Inr l \<and>
        probe H S entry = \<lparr>sb_running = es_running st, sb_desired = es_desired st, sb_deployments = es_deployments st,
          sb_targets = t, sb_heartbeat = l, sb_error = None\<rparr>)"
proof (cases "failures (describe_service H S (ms_ecs_service entry)) @ failures (probe_targets H entry) @ failures (probe_logs H S entry)")
  case Nil
  then obtain e t l where "describe_service H S (ms_ecs_service entry) = Inr e" "probe_targets H entry = Inr t" "probe_logs H S entry = Inr l"
    by (auto simp: failures_empty)
  then show ?thesis by (cases e) (auto simp: probe_def gathered_def failures_def)
next
  case (Cons x xs)
  then have "\<not> (failures (describe_service H S (ms_ecs_service entry)) = [] \<and> failures (probe_targets H entry) = [] \<and>
      failures (probe_logs H S entry) = [])" by auto
  with Cons show ?thesis by (auto simp: probe_def gathered_def failures_empty)
qed

definition logs_answer :: "health_env \<Rightarrow> health_settings \<Rightarrow> monitored_service \<Rightarrow> (exn + bool \<Rightarrow> bool) \<Rightarrow> bool" where
  "logs_answer H S entry P \<longleftrightarrow>
     (case ms_log_group entry of Some g \<Rightarrow> ms_check_logs entry \<longrightarrow> P (has_recent_event H g (hs_window S)) | None \<Rightarrow> True)"

text \<open>
  C27. The status of a service, over the answers of the calls made for it, whatever their order. It is healthy exactly
  when the service is found with one deployment and as many running tasks as desired, every target group is
  answered as healthy, and, where logs are checked, there is a recent event; it is unhealthy exactly when every
  call was answered, there is one deployment, and a task is missing (or too many) or a target group is not healthy;
  otherwise it is unknown. Only a healthy service carries no message.
\<close>

theorem health_status_matrix:
  "(sh_status (health_for H S entry) = Healthy \<longleftrightarrow>
      (\<exists>st. describe_service H S (ms_ecs_service entry) = Inr (Some st) \<and> es_deployments st = 1 \<and> es_running st = es_desired st) \<and>
      list_all (\<lambda>arn. all_targets_healthy H arn = Inr True) (ms_target_groups entry) \<and>
      logs_answer H S entry (\<lambda>r. r = Inr True)) \<and>
   (sh_status (health_for H S entry) = Unhealthy \<longleftrightarrow>
      (\<exists>st. describe_service H S (ms_ecs_service entry) = Inr (Some st) \<and> es_deployments st = 1 \<and>
         \<not> (es_running st = es_desired st \<and> list_all (\<lambda>arn. all_targets_healthy H arn = Inr True) (ms_target_groups entry))) \<and>
      list_all (\<lambda>arn. \<exists>b. all_targets_healthy H arn = Inr b) (ms_target_groups entry) \<and>
      logs_answer H S entry (\<lambda>r. \<exists>b. r = Inr b)) \<and>
   (sh_message (health_for H S entry) = None \<longleftrightarrow> sh_status (health_for H S entry) = Healthy)"
proof (cases "sb_error (probe H S entry)")
  case None
  then obtain st t l where p: "describe_service H S (ms_ecs_service entry) = Inr (Some st)" "probe_targets H entry = Inr t"
      "probe_logs H S entry = Inr l"
      "probe H S entry = \<lparr>sb_running = es_running st, sb_desired = es_desired st, sb_deployments = es_deployments st,
          sb_targets = t, sb_heartbeat = l, sb_error = None\<rparr>"
    unfolding probe_error_free by blast
  show ?thesis
    using p(2,3)
    by (auto simp: health_for_def p(1,4) status_from_probe_def probe_targets_Inr probe_logs_Inr logs_answer_def list_all_iff
        split: option.splits if_splits)
next
  case (Some m)
  have st: "sh_status (health_for H S entry) = Unknown" "sh_message (health_for H S entry) = Some m"
    by (simp_all add: health_for_def status_from_probe_def Some)
  have "\<not> ((\<exists>st. describe_service H S (ms_ecs_service entry) = Inr (Some st)) \<and>
      list_all (\<lambda>arn. \<exists>b. all_targets_healthy H arn = Inr b) (ms_target_groups entry) \<and> logs_answer H S entry (\<lambda>r. \<exists>b. r = Inr b))"
  proof
    assume a: "(\<exists>st. describe_service H S (ms_ecs_service entry) = Inr (Some st)) \<and>
      list_all (\<lambda>arn. \<exists>b. all_targets_healthy H arn = Inr b) (ms_target_groups entry) \<and> logs_answer H S entry (\<lambda>r. \<exists>b. r = Inr b)"
    then obtain st where "describe_service H S (ms_ecs_service entry) = Inr (Some st)" by blast
    moreover have "\<exists>t. probe_targets H entry = Inr t" using a by (auto simp: probe_targets_Inr list_all_iff)
    moreover have "\<exists>l. probe_logs H S entry = Inr l" using a
      by (cases "ms_log_group entry") (auto simp: probe_logs_Inr logs_answer_def)
    ultimately obtain st t l where "describe_service H S (ms_ecs_service entry) = Inr (Some st)" "probe_targets H entry = Inr t"
        "probe_logs H S entry = Inr l"
      by blast
    then have "sb_error (probe H S entry) = None" by (simp add: probe_def gathered_def failures_def)
    with Some show False by simp
  qed
  then show ?thesis
    using st by (auto simp: list_all_iff logs_answer_def split: option.splits) 
qed

text \<open>The calls a service's row of the snapshot depends on.\<close>

fun asks_about :: "monitored_service \<Rightarrow> call \<Rightarrow> bool" where
  "asks_about entry (EcsDescribe cluster name) = (name = ms_ecs_service entry)"
| "asks_about entry (TargetHealth arn) = (arn \<in> set (ms_target_groups entry))"
| "asks_about entry (FilterLogEvents g start limit pattern) = (ms_log_group entry = Some g)"
| "asks_about entry c = False"

lemma gathered_aws: "gathered (H\<lparr>he_aws := aws\<rparr>) errs x = gathered H errs x"
  by (cases errs) (simp_all add: gathered_def)

lemma gather_aws: "gather (H\<lparr>he_aws := aws\<rparr>) rs = gather H rs"
  by (simp only: gather_def gathered_aws)

lemma health_for_cong:
  assumes "\<And>c. asks_about entry c \<Longrightarrow> aws c = he_aws H c"
  shows "health_for (H\<lparr>he_aws := aws\<rparr>) S entry = health_for H S entry"
proof -
  let ?H = "H\<lparr>he_aws := aws\<rparr>"
  have e: "describe_service ?H S (ms_ecs_service entry) = describe_service H S (ms_ecs_service entry)"
    using assms by (simp add: describe_service_def)
  have "all_targets_healthy ?H arn = all_targets_healthy H arn" if "arn \<in> set (ms_target_groups entry)" for arn
    using assms that by (simp add: all_targets_healthy_def)
  then have "map (all_targets_healthy ?H) (ms_target_groups entry) = map (all_targets_healthy H) (ms_target_groups entry)"
    by simp
  then have t: "probe_targets ?H entry = probe_targets H entry"
    by (simp only: probe_targets_def gather_aws)
  have "probe_logs ?H S entry = probe_logs H S entry"
    using assms by (cases "ms_log_group entry") (simp_all add: probe_logs_def has_recent_event_def log_events_def start_ms_def)
  moreover have "he_str_exn ?H = he_str_exn H" by simp
  ultimately have "probe ?H S entry = probe H S entry" by (simp only: probe_def e t gathered_aws)
  then show ?thesis by (simp add: health_for_def)
qed

lemma registry_asks_apart:
  assumes "i < length service_registry" "j < length service_registry" "i \<noteq> j" "asks_about (service_registry ! i) c"
  shows "\<not> asks_about (service_registry ! j) c"
proof -
  have "distinct (map ms_ecs_service service_registry)" "distinct (map ms_log_group service_registry)"
    by (simp_all add: service_registry_def monitored_def)
  then have ne: "ms_ecs_service (service_registry ! i) \<noteq> ms_ecs_service (service_registry ! j)"
      "ms_log_group (service_registry ! i) \<noteq> ms_log_group (service_registry ! j)"
    using assms(1-3) by (simp_all add: distinct_conv_nth)
  have "list_all (\<lambda>e. ms_target_groups e = []) service_registry"
    by (simp add: service_registry_def monitored_def)
  then have "ms_target_groups (service_registry ! i) = []"
    using assms(1) by (simp add: list_all_length)
  with ne assms(4) show ?thesis by (cases c) auto
qed

text \<open>
  One service does not disturb the others: however the answers of the calls for one service of the registry
  change (they may all fail), the snapshot has one row per service of the registry, in its order, and every row but
  that service's is what it was.
\<close>

lemma snapshot_isolates_services:
  assumes "i < length service_registry"
    and "\<And>c. \<not> asks_about (service_registry ! i) c \<Longrightarrow> aws c = he_aws H c"
  shows "map sh_service (hp_services (get_health_snapshot (H\<lparr>he_aws := aws\<rparr>) S)) = map ms_service service_registry \<and>
     (\<forall>j < length service_registry. j \<noteq> i \<longrightarrow>
        hp_services (get_health_snapshot (H\<lparr>he_aws := aws\<rparr>) S) ! j = hp_services (get_health_snapshot H S) ! j)"
proof (intro conjI allI impI)
  have "map sh_service (map (health_for H' S) r) = map ms_service r" for H' r
    by (simp add: health_for_def split: prod.split)
  then show "map sh_service (hp_services (get_health_snapshot (H\<lparr>he_aws := aws\<rparr>) S)) = map ms_service service_registry"
    by (simp add: get_health_snapshot_def snapshot_def)
  fix j assume j: "j < length service_registry" "j \<noteq> i"
  have "health_for (H\<lparr>he_aws := aws\<rparr>) S (service_registry ! j) = health_for H S (service_registry ! j)"
    using registry_asks_apart [OF j(1) assms(1) j(2)] assms(2) by (intro health_for_cong) blast
  with j show "hp_services (get_health_snapshot (H\<lparr>he_aws := aws\<rparr>) S) ! j = hp_services (get_health_snapshot H S) ! j"
    by (simp add: get_health_snapshot_def snapshot_def)
qed

text \<open>A demonstration: every service runs one task of one, and one message was logged twice.\<close>

fun health_demo_aws :: "call \<Rightarrow> exn + pyval" where
  "health_demo_aws (EcsDescribe cluster name) = Inr (PDict [(''services'', PList [PDict [(''runningCount'', PInt 1),
     (''desiredCount'', PInt 1), (''deployments'', PList [PDict []])]])])"
| "health_demo_aws (FilterLogEvents g start limit pattern) = Inr (PDict [(''events'', PList
     [PDict [(''message'', PStr ''boom''), (''timestamp'', PInt 1000)], PDict [(''message'', PStr ''boom''), (''timestamp'', PInt 2000)]])])"
| "health_demo_aws c = Inl (ClientError ''AccessDenied'' [])"

definition health_demo :: health_env where
  "health_demo = \<lparr>he_aws = health_demo_aws, he_first = hd, he_time = (\<lambda>q. 0), he_metrics_now = (\<lambda>n. 0), he_checked = (\<lambda>n. 0),
     he_generated = 0, he_loads = (\<lambda>s. None), he_show = (\<lambda>v. []), he_str_exn = (\<lambda>e. ''error'')\<rparr>"

text \<open>
  C28. The recent errors of a service. When the page of log events is answered and every event can be read, the
  summary has one entry per different message, newest first; an entry counts the events with its message and
  carries the time of the last of them; so the counts add up to the number of events.
\<close>

theorem recent_errors_summarise:
  assumes "get_recent_errors H g window_seconds limit = Inr es"
    and "he_aws H (FilterLogEvents g (start_ms H (RecentErrors g) window_seconds) limit ''ERROR'') = Inr response"
  shows "\<exists>raw evs. resp_list response ''events'' = Inr raw \<and> map error_event raw = map Inr evs \<and>
     distinct (map ee_message es) \<and> ee_message ` set es = fst ` set evs \<and>
     sorted_wrt (\<lambda>x y. ee_timestamp y \<le> ee_timestamp x) es \<and>
     (\<forall>e \<in> set es. ee_count e = int (length (filter (\<lambda>x. fst x = ee_message e) evs)) \<and>
        ee_timestamp e = Max (snd ` {x \<in> set evs. fst x = ee_message e})) \<and>
     sum_list (map ee_count es) = int (length raw)"
proof -
  obtain raw where raw: "resp_list response ''events'' = Inr raw" "error_entries raw = Inr es"
    using assms by (auto simp: get_recent_errors_def log_events_def and_then_def split: sum.splits)
  obtain evs where evs: "map error_event raw = map Inr evs" "distinct (map ee_message es)"
      "sorted_wrt (\<lambda>x y. ee_timestamp y \<le> ee_timestamp x) es"
    and mem: "\<And>e. e \<in> set es \<longleftrightarrow> error_summary evs (ee_message e) = Some e"
    using error_entries_ok [OF raw(2)] by blast
  have e: "ee_message e \<in> fst ` set evs \<and> ee_count e = int (length (filter (\<lambda>x. fst x = ee_message e) evs)) \<and>
      ee_timestamp e = Max (snd ` {x \<in> set evs. fst x = ee_message e})" if "e \<in> set es" for e
    using that mem [of e] by (cases e) (auto simp: error_summary_def split: if_splits)
  have "m \<in> ee_message ` set es" if "m \<in> fst ` set evs" for m
  proof -
    have "\<exists>x. error_summary evs m = Some x \<and> ee_message x = m" using that by (simp only: error_summary_def if_True) simp
    then obtain x where "error_summary evs m = Some x" "ee_message x = m" by blast
    then show ?thesis using mem [of x] by force
  qed
  with e have msgs: "ee_message ` set es = fst ` set evs" by blast
  have "sum_list (map ee_count es) = (\<Sum>e \<in> set es. ee_count e)"
    using evs(2) by (simp add: sum_list_distinct_conv_sum_set distinct_map)
  also have "\<dots> = (\<Sum>e \<in> set es. int (length (filter (\<lambda>x. fst x = ee_message e) evs)))" using e by simp
  also have "\<dots> = (\<Sum>m \<in> fst ` set evs. int (length (filter (\<lambda>x. fst x = m) evs)))"
    using evs(2) by (simp add: msgs [symmetric] sum.reindex distinct_map)
  also have "\<dots> = int (\<Sum>m \<in> set (map fst evs). count_list (map fst evs) m)"
    by (simp add: count_list_eq_length_filter filter_map comp_def eq_commute)
  also have "\<dots> = int (length raw)"
    using sum_count_set [of "map fst evs" "set (map fst evs)"] map_eq_imp_length_eq [OF evs(1)] by simp
  finally show ?thesis using raw(1) evs msgs e by blast
qed

definition boom :: error_entry where
  "boom = \<lparr>ee_timestamp = 2000000, ee_message = ''boom'', ee_count = 2\<rparr>"

lemma health_demo_event:
  "event_time (PDict [(''message'', m), (''timestamp'', PInt 1000)]) = Inr 1000000"
  "event_time (PDict [(''message'', m), (''timestamp'', PInt 2000)]) = Inr 2000000"
proof -
  have "fl 1 = 1" "fl 2 = 2" "fl 0 = 0" by code_simp+
  then show "event_time (PDict [(''message'', m), (''timestamp'', PInt 1000)]) = Inr 1000000"
    "event_time (PDict [(''message'', m), (''timestamp'', PInt 2000)]) = Inr 2000000"
    using trunc_rat_of_int [of 1] trunc_rat_of_int [of 2] round_half_even_of_int [of 0]
    by (simp_all add: event_time_def Let_def)
qed

lemma health_demo_errors: "get_recent_errors health_demo g 86400 10 = Inr [boom]"
proof -
  have "strip ''boom'' = ''boom''" by code_simp
  then show ?thesis
    by (simp add: get_recent_errors_def log_events_def health_demo_def resp_list_def get_attr_def dget_Cons error_entries_def
        error_event_def get_default_def dget_or_def health_demo_event count_error_def sort_desc_def boom_def)
qed

theorem recent_errors_summarise_witness:
  "ee_message ` set [boom] = {''boom''} \<and> sum_list (map ee_count [boom]) = int (length [''boom'', ''boom'']) \<and>
     (\<exists>raw evs. resp_list (projr (health_demo_aws (FilterLogEvents ''g'' 0 10 ''ERROR''))) ''events'' = Inr raw \<and>
        map error_event raw = map Inr evs \<and> sum_list (map ee_count [boom]) = int (length raw))"
proof -
  have "he_aws health_demo (FilterLogEvents ''g'' (start_ms health_demo (RecentErrors ''g'') 86400) 10 ''ERROR'') =
      Inr (projr (health_demo_aws (FilterLogEvents ''g'' 0 10 ''ERROR'')))"
    by (simp add: health_demo_def)
  from recent_errors_summarise [OF health_demo_errors this] show ?thesis by (auto simp: boom_def)
qed

text \<open>
  The detail page, unlike the status, is not shielded from its calls: a failure of one log query that is not a
  missing group ends the request.
\<close>

lemma detail_needs_logs:
  assumes "ms_log_group entry = Some g" "g \<noteq> []" "get_recent_errors H g 86400 10 = Inl e"
  shows "\<exists>e'. detail_for H S entry = Inl e'"
  using assms by (auto simp: detail_for_def failures_def gathered_def Let_def split: sum.splits list.splits)

end
