(* ===== verification/Api_Index.thy ===== *)
theory Api_Index
  imports Py_Prelude
begin

text \<open>
  The front door of the public API (\<^verbatim>\<open>services/api-index\<close>): the catalogue of routes (\<^verbatim>\<open>catalog.py\<close>), its two pages line by
  line (\<^verbatim>\<open>render.py\<close>) and the Lambda handler (\<^verbatim>\<open>handler.py\<close>). \<open>show_val\<close> is \<^verbatim>\<open>str\<close> of a value that is not a string and
  \<open>dumps\<close> is \<^verbatim>\<open>json.dumps\<close>.
\<close>

section \<open>The standard library\<close>

text \<open>\<^verbatim>\<open>html.escape\<close>.\<close>

definition escape_char :: "char \<Rightarrow> string" where
  "escape_char c =
     (if c = CHR 0x26 then ''&amp;'' else if c = CHR 0x3C then ''&lt;'' else if c = CHR 0x3E then ''&gt;''
      else if c = CHR 0x22 then ''&quot;'' else if c = CHR 0x27 then ''&#x27;'' else [c])"

definition escape :: "string \<Rightarrow> string" where
  "escape s = concat (map escape_char s)"

text \<open>\<^verbatim>\<open>s.replace\<close> of one character by a string.\<close>

definition replace_char :: "char \<Rightarrow> string \<Rightarrow> string \<Rightarrow> string" where
  "replace_char c r s = concat (map (\<lambda>d. if d = c then r else [d]) s)"

text \<open>Whether a string occurs in another.\<close>

definition contains_text :: "string \<Rightarrow> string \<Rightarrow> bool" where
  "contains_text p s = list_ex (\<lambda>n. starts_with (drop n s) p) [0..<Suc (length s)]"

section \<open>The catalogue\<close>

definition api_description :: string where
  "api_description = ''Cloud audio capture, transcription, and insights platform by LaFayette Labs''"

definition source_url :: string where
  "source_url = ''https://github.com/Aztec03hub/panakoes''"

definition dashboard_url :: string where
  "dashboard_url = ''https://admin.panakoes.com''"

definition health_probe_path :: string where
  "health_probe_path = ''/v1/auth/health''"

definition api_endpoints :: "(string \<times> string) list" where
  \<open>api_endpoints = [
      (''GET /'', ''This index (HTML for browsers, JSON otherwise).''),
      (''GET /health'', ''Liveness probe for the index service itself.''),
      (''ANY /v1/auth/{proxy+}'', ''Authentication, sessions, and JWT issuance (Better-Auth).''),
      (''ANY /v1/ingestion/{proxy+}'', ''Audio upload and ingestion record creation.''),
      (''ANY /v1/query/{proxy+}'', ''Read transcripts, summaries, and insights.''),
      (''ANY /v1/session-manager/{proxy+}'', ''Streaming session lifecycle and state.''),
      (''ANY /v1/summarization/{proxy+}'', ''AI summaries over transcribed audio.''),
      (''ANY /v1/billing/{proxy+}'', ''Stripe-backed plans, seats, and usage.''),
      (''ANY /v1/admin-api/{proxy+}'', ''Admin dashboard backend (tenant + ops surface).''),
      (''ANY /v1/cost-api/{proxy+}'', ''Per-tenant cost rollups and reporting.''),
      (''ANY /v1/health-aggregator/{proxy+}'', ''Cross-service health aggregation.'')]\<close>

section \<open>The pages\<close>

definition page_of :: "string list \<Rightarrow> string" where
  "page_of ls = join_with [CHR 10] ls"

definition js_string :: "string \<Rightarrow> string" where
  "js_string value =
     [CHR 0x27] @ replace_char (CHR 10) [CHR 0x5C, CHR ''n'']
        (replace_char (CHR 0x27) [CHR 0x5C, CHR 0x27] (replace_char (CHR 0x5C) [CHR 0x5C, CHR 0x5C] value)) @ [CHR 0x27]"

definition base_css :: string where
  \<open>base_css = page_of [[],
      ''  :root { color-scheme: dark; }'',
      ''  * { box-sizing: border-box; }'',
      ''  body {'',
      ''    margin: 0;'',
      ''    background: #0b0e14;'',
      ''    color: #e6e9ef;'',
      ''    font: 16px/1.55 -apple-system, BlinkMacSystemFont, "Segoe UI", Roboto, Helvetica, Arial, sans-serif;'',
      ''  }'',
      ''  .wrap { max-width: 860px; margin: 0 auto; padding: 48px 24px 72px; }'',
      ''  h1 { font-size: 2.2rem; margin: 0 0 4px; letter-spacing: -0.01em; }'',
      ''  .tagline { color: #9aa4b2; margin: 0 0 28px; font-size: 1.05rem; }'',
      ''  .badge {'',
      ''    display: inline-flex; align-items: center; gap: 8px;'',
      ''    padding: 6px 12px; border-radius: 999px; font-size: 0.85rem;'',
      ''    background: #161b26; border: 1px solid #232a39; color: #9aa4b2;'',
      ''  }'',
      ''  .dot { width: 9px; height: 9px; border-radius: 50%; background: #6b7280; }'',
      ''  .dot.ok { background: #2ecc71; }'',
      ''  .dot.down { background: #e74c3c; }'',
      ''  table { width: 100%; border-collapse: collapse; margin: 28px 0 8px; }'',
      ''  th, td { text-align: left; padding: 10px 12px; border-bottom: 1px solid #1c2230; vertical-align: top; }'',
      ''  th { color: #9aa4b2; font-weight: 600; font-size: 0.8rem; text-transform: uppercase; letter-spacing: 0.04em; }'',
      ''  td.route { font-family: ui-monospace, SFMono-Regular, Menlo, Consolas, monospace; color: #8ab4f8; white-space: nowrap; }'',
      ''  td.desc { color: #c7cdd9; }'',
      ''  .links { margin: 28px 0 0; display: flex; gap: 16px; flex-wrap: wrap; }'',
      ''  .links a {'',
      ''    color: #8ab4f8; text-decoration: none; padding: 8px 14px;'',
      ''    border: 1px solid #232a39; border-radius: 8px; background: #11151f;'',
      ''  }'',
      ''  .links a:hover { border-color: #2e80ff; }'',
      ''  footer { margin-top: 40px; color: #6b7280; font-size: 0.82rem; }'',
      ''  code { font-family: ui-monospace, SFMono-Regular, Menlo, Consolas, monospace; color: #c7cdd9; }'',
      []]\<close>

definition page_rows :: string where
  \<open>page_rows = page_of (map (\<lambda>(route, desc). ''      <tr><td class="route">'' @ escape route @ ''</td><td class="desc">'' @
      escape desc @ ''</td></tr>'') api_endpoints)\<close>

definition landing_html :: string where
  \<open>landing_html = page_of [
      ''<!doctype html>'',
      ''<html lang="en">'',
      ''<head>'',
      ''  <meta charset="utf-8" />'',
      ''  <meta name="viewport" content="width=device-width, initial-scale=1" />'',
      ''  <meta name="robots" content="noindex" />'',
      ''  <title>Panakoes API</title>'',
      ''  <style>'' @ base_css @ ''</style>'',
      ''</head>'',
      ''<body>'',
      ''  <main class="wrap">'',
      ''    <h1>Panakoes</h1>'',
      ''    <p class="tagline">'' @ escape api_description @ ''.</p>'',
      ''    <span class="badge"><span id="status-dot" class="dot"></span><span id="status-text">checking auth service...</span></span>'',
      [],
      ''    <table>'',
      ''      <thead><tr><th>Route</th><th>Description</th></tr></thead>'',
      ''      <tbody>'',
      page_rows,
      ''      </tbody>'',
      ''    </table>'',
      [],
      ''    <div class="links">'',
      ''      <a href="'' @ escape source_url @ ''">Source (GitHub)</a>'',
      ''      <a href="'' @ escape dashboard_url @ ''">Admin dashboard</a>'',
      ''      <a href="'' @ escape health_probe_path @ ''">Auth health (JSON)</a>'',
      ''    </div>'',
      [],
      ''    <footer>'',
      ''      Public HTTP API for Panakoes, a LaFayette Labs LLC project. All routes are versioned under <code>/v1</code>.'',
      ''      Request <code>GET /</code> with <code>Accept: application/json</code> for the machine-readable index.'',
      ''    </footer>'',
      ''  </main>'',
      [],
      ''  <script>'',
      ''    (function () {'',
      ''      var dot = document.getElementById("status-dot");'',
      ''      var text = document.getElementById("status-text");'',
      ''      fetch('' @ js_string health_probe_path @ '', { headers: { "Accept": "application/json" } })'',
      ''        .then(function (r) { return r.ok ? r.json() : Promise.reject(r.status); })'',
      ''        .then(function (body) {'',
      ''          dot.className = "dot ok";'',
      ''          text.textContent = "auth service: " + (body.status || "ok");'',
      ''        })'',
      ''        .catch(function () {'',
      ''          dot.className = "dot down";'',
      ''          text.textContent = "auth service: unreachable";'',
      ''        });'',
      ''    })();'',
      ''  </script>'',
      ''</body>'',
      ''</html>'',
      []]\<close>

definition not_found_head :: "string list" where
  \<open>not_found_head = [
      ''<!doctype html>'',
      ''<html lang="en">'',
      ''<head>'',
      ''  <meta charset="utf-8" />'',
      ''  <meta name="viewport" content="width=device-width, initial-scale=1" />'',
      ''  <meta name="robots" content="noindex" />'',
      ''  <title>Not found - Panakoes API</title>'',
      ''  <style>'' @ base_css @ ''</style>'',
      ''</head>'',
      ''<body>'',
      ''  <main class="wrap">'',
      ''    <h1>404</h1>'']\<close>

definition not_found_tail :: "string list" where
  \<open>not_found_tail = [
      ''    <div class="links">'',
      ''      <a href="/">Route index</a>'',
      ''      <a href="'' @ escape source_url @ ''">Source (GitHub)</a>'',
      ''    </div>'',
      ''  </main>'',
      ''</body>'',
      ''</html>'',
      []]\<close>

definition not_found_html :: "string \<Rightarrow> string" where
  \<open>not_found_html path = page_of (not_found_head @ [''    <p class="tagline">No route matched <code>'' @ escape path @ ''</code>.</p>''] @ not_found_tail)\<close>

section \<open>The handler\<close>

record api_response =
  ap_status :: int
  ap_content_type :: string
  ap_cache_control :: string
  ap_body :: string

definition api_html :: "int \<Rightarrow> string \<Rightarrow> api_response" where
  "api_html status body =
     \<lparr>ap_status = status, ap_content_type = ''text/html; charset=utf-8'', ap_cache_control = ''no-store'', ap_body = body\<rparr>"

definition api_json :: "(pyval \<Rightarrow> string) \<Rightarrow> int \<Rightarrow> item \<Rightarrow> api_response" where
  "api_json dumps status payload =
     \<lparr>ap_status = status, ap_content_type = ''application/json'', ap_cache_control = ''no-store'', ap_body = dumps (PDict payload)\<rparr>"

definition index_payload :: item where
  "index_payload =
     [(''name'', PStr ''panakoes-api''), (''description'', PStr api_description), (''status'', PStr ''ok''),
      (''endpoints'', PDict (map (\<lambda>(route, desc). (route, PStr desc)) api_endpoints)),
      (''source'', PStr source_url), (''dashboard'', PStr dashboard_url)]"

definition wants_html :: "item \<Rightarrow> exn + bool" where
  "wants_html event =
     (case as_dict (py_or (dget event ''headers'') (PDict [])) of
        None \<Rightarrow> Inl AttributeError
      | Some headers \<Rightarrow>
          (case find (\<lambda>(key, v). lower key = ''accept'') headers of
             None \<Rightarrow> Inr False
           | Some (key, v) \<Rightarrow>
               (case as_str (py_or v (PStr [])) of
                  None \<Rightarrow> Inl AttributeError
                | Some accept \<Rightarrow> Inr (contains_text ''text/html'' (lower accept)))))"

definition request_context :: "item \<Rightarrow> pyval" where
  "request_context event = py_or (dget event ''requestContext'') (PDict [])"

definition api_request_path :: "(pyval \<Rightarrow> string) \<Rightarrow> item \<Rightarrow> exn + pyval" where
  "api_request_path show_val event =
     and_then (get_attr (request_context event) ''http'') (\<lambda>http_value.
     and_then (get_attr (py_or http_value (PDict [])) ''path'') (\<lambda>http_path.
     and_then (get_attr (request_context event) ''stage'') (\<lambda>stage_value.
       let path = py_or (py_or http_path (dget event ''rawPath'')) (PStr ''/'');
           stage = py_or stage_value (PStr []);
           prefix = ''/'' @ (case as_str stage of Some t \<Rightarrow> t | None \<Rightarrow> show_val stage)
       in if \<not> truthy stage \<or> stage = PStr ''$default'' then Inr path
          else if path = PStr prefix then Inr (PStr ''/'')
          else (case as_str path of
                  None \<Rightarrow> Inl AttributeError
                | Some p \<Rightarrow> Inr (if starts_with p (prefix @ ''/'') then PStr (drop (length prefix) p) else path)))))"

definition route_key :: "item \<Rightarrow> exn + pyval" where
  "route_key event =
     and_then (get_attr (request_context event) ''routeKey'') (\<lambda>k.
       Inr (py_or (py_or k (dget event ''routeKey'')) (PStr [])))"

definition api_not_found :: "(pyval \<Rightarrow> string) \<Rightarrow> (pyval \<Rightarrow> string) \<Rightarrow> item \<Rightarrow> exn + api_response" where
  "api_not_found show_val dumps event =
     and_then (api_request_path show_val event) (\<lambda>path.
     and_then (wants_html event) (\<lambda>html.
       if html then (case as_str path of
                       None \<Rightarrow> Inl AttributeError
                     | Some p \<Rightarrow> Inr (api_html 404 (not_found_html p)))
       else Inr (api_json dumps 404
              [(''error'', PStr ''not_found''), (''hint'', PStr ''GET / for the route index''), (''path'', path)])))"

definition api_handler :: "(pyval \<Rightarrow> string) \<Rightarrow> (pyval \<Rightarrow> string) \<Rightarrow> item \<Rightarrow> exn + api_response" where
  "api_handler show_val dumps event =
     and_then (route_key event) (\<lambda>route.
     and_then (api_request_path show_val event) (\<lambda>path.
       if route = PStr ''GET /health'' \<or> path = PStr ''/health''
       then Inr (api_json dumps 200 [(''status'', PStr ''ok''), (''service'', PStr ''api-index'')])
       else if route = PStr ''GET /'' \<or> path = PStr ''/''
       then and_then (wants_html event) (\<lambda>html.
              Inr (if html then api_html 200 landing_html else api_json dumps 200 index_payload))
       else api_not_found show_val dumps event))"

section \<open>Lemmas\<close>

text \<open>The characters that can open or close markup or an attribute.\<close>

definition markup :: "char \<Rightarrow> bool" where
  "markup c \<longleftrightarrow> c \<in> {CHR 0x3C, CHR 0x3E, CHR 0x22, CHR 0x27}"

lemma escape_no_markup: "filter markup (escape s) = []"
  by (induction s) (auto simp: escape_def escape_char_def markup_def)

lemma escape_injective: "escape s = escape t \<Longrightarrow> s = t"
proof (induction s arbitrary: t)
  case Nil
  then show ?case by (cases t) (auto simp: escape_def escape_char_def split: if_splits)
next
  case (Cons c s)
  obtain d u where t: "t = d # u"
    using Cons.prems by (cases t) (auto simp: escape_def escape_char_def split: if_splits)
  then have "c = d \<and> escape s = escape u"
    using Cons.prems by (auto simp: escape_def escape_char_def split: if_splits)
  with Cons.IH t show ?case by simp
qed

lemma page_of_middle:
  assumes "A \<noteq> []" "B \<noteq> []"
  shows "page_of (A @ [a @ l @ b] @ B) = (page_of A @ [CHR 10] @ a) @ l @ (b @ [CHR 10] @ page_of B)"
proof -
  have cons: "join_with sep (x # xs) = x @ sep @ join_with sep xs" if "xs \<noteq> []" for sep x xs
    using that by (cases xs) simp_all
  show ?thesis
    using assms(1) unfolding page_of_def
  proof (induction A)
    case (Cons x A)
    then show ?case by (cases "A = []") (simp_all add: cons assms(2))
  qed simp
qed

text \<open>
  The page for an unknown path says which path it was and takes no markup from it: apart from the escaped path the
  page is fixed, so its markup is that of the page for the empty path.
\<close>

lemma not_found_page_safe:
  "filter markup (not_found_html path) = filter markup (not_found_html []) \<and>
     (not_found_html path = not_found_html path' \<longrightarrow> path = path')"
proof -
  have e: "escape [] = []" by (simp add: escape_def)
  have ne: "not_found_head \<noteq> []" "not_found_tail \<noteq> []" by (simp_all add: not_found_head_def not_found_tail_def)
  obtain before after where page: "\<And>p. not_found_html p = before @ escape p @ after"
    unfolding not_found_html_def page_of_middle [OF ne] by blast
  have "filter markup (not_found_html path) = filter markup (not_found_html [])"
    unfolding page by (simp add: escape_no_markup e)
  moreover have "not_found_html path = not_found_html path' \<longrightarrow> path = path'"
    unfolding page using escape_injective by simp
  ultimately show ?thesis by blast
qed

text \<open>
  Which answer an event gets: by its route key or its path, whatever its method, so that a request of any method for
  one of the two paths is answered as if it were a read.
\<close>

lemma api_handler_routes:
  assumes "route_key event = Inr route" "api_request_path show_val event = Inr (PStr p)" "wants_html event = Inr html"
  shows "\<exists>r. api_handler show_val dumps event = Inr r \<and>
     (ap_status r = 200 \<longleftrightarrow> route \<in> {PStr ''GET /health'', PStr ''GET /''} \<or> p \<in> {''/health'', ''/''}) \<and>
     (ap_status r = 404 \<longleftrightarrow> ap_status r \<noteq> 200)"
  using assms by (auto simp: api_handler_def api_not_found_def api_html_def api_json_def)

lemma stage_is_stripped:
  assumes "request_context event = PDict ctx" "dget ctx ''http'' = PDict http" "dget http ''path'' = PStr (''/'' @ stage @ ''/'' @ p)"
    and "dget ctx ''stage'' = PStr stage" "stage \<noteq> []" "stage \<noteq> ''$default''"
  shows "api_request_path show_val event = Inr (PStr (''/'' @ p))"
proof -
  have "http \<noteq> []" using assms(3) by (auto simp: dget_def)
  with assms show ?thesis by (simp add: api_request_path_def get_attr_def py_or_def Let_def starts_with_def)
qed

end
