(* ===== verification/Shared_Models.thy ===== *)
theory Shared_Models
  imports Notification
begin

text \<open>
  The shared models of \<^verbatim>\<open>services/models-lib\<close>, which call themselves the contract between the services: the patterns of
  identifiers, the times in UTC, and the validation of each model, which strips strings and forbids unknown fields. What
  the framework accepts as a time (with its offset in minutes, or none), a whole number, a finite number and an address
  is the record \<open>canon_lib\<close>. A validated model is \<open>Some\<close>, a \<^verbatim>\<open>ValidationError\<close> is \<open>None\<close>.
\<close>

record canon_lib =
  cl_dt :: "pyval \<Rightarrow> (int \<times> int option) option"
  cl_int :: "pyval \<Rightarrow> int option"
  cl_float :: "pyval \<Rightarrow> rat option"
  cl_email :: "string \<Rightarrow> string option"

section \<open>Fields\<close>

text \<open>The blanks that the framework strips; unlike \<^verbatim>\<open>str.strip\<close> not the separators \<open>28\<close> to \<open>31\<close>.\<close>

definition trim_space :: "char \<Rightarrow> bool" where
  "trim_space c = (let n = (of_char c :: nat) in 9 \<le> n \<and> n \<le> 13 \<or> n = 32 \<or> n = 133 \<or> n = 160)"

definition trimmed :: "string \<Rightarrow> string" where
  "trimmed s = rev (dropWhile trim_space (rev (dropWhile trim_space s)))"

definition text_field :: "nat \<Rightarrow> pyval \<Rightarrow> string option" where
  "text_field min_length v =
     Option.bind (as_str v) (\<lambda>s. if min_length \<le> length (trimmed s) then Some (trimmed s) else None)"

text \<open>The patterns \<^verbatim>\<open>^prefix[a-zA-Z0-9]{n,}$\<close> and \<^verbatim>\<open>^[0-9A-HJKMNP-TV-Z]{26}$\<close>.\<close>

definition token_id :: "string \<Rightarrow> nat \<Rightarrow> string \<Rightarrow> bool" where
  "token_id prefix n s \<longleftrightarrow>
     starts_with s prefix \<and> n \<le> length (drop (length prefix) s) \<and> list_all is_alnum (drop (length prefix) s)"

definition token_field :: "string \<Rightarrow> nat \<Rightarrow> pyval \<Rightarrow> string option" where
  "token_field prefix n v = Option.bind (text_field 0 v) (\<lambda>s. if token_id prefix n s then Some s else None)"

definition user_id_field :: "pyval \<Rightarrow> string option" where
  "user_id_field v = token_field ''user_'' 12 v"

definition ulid_shaped :: "string \<Rightarrow> bool" where
  "ulid_shaped s \<longleftrightarrow> length s = 26 \<and> list_all (\<lambda>c. c \<in> set ''0123456789ABCDEFGHJKMNPQRSTVWXYZ'') s"

definition ulid_field :: "pyval \<Rightarrow> string option" where
  "ulid_field v = Option.bind (text_field 0 v) (\<lambda>s. if ulid_shaped s then Some s else None)"

definition email_field :: "canon_lib \<Rightarrow> pyval \<Rightarrow> string option" where
  "email_field L v = Option.bind (text_field 0 v) (cl_email L)"

definition utc_field :: "canon_lib \<Rightarrow> pyval \<Rightarrow> int option" where
  "utc_field L v =
     (case cl_dt L v of
        None \<Rightarrow> None
      | Some (t, None) \<Rightarrow> None
      | Some (t, Some offset) \<Rightarrow> if offset \<noteq> 0 then None else Some t)"

definition int_field :: "canon_lib \<Rightarrow> int \<Rightarrow> int option \<Rightarrow> pyval \<Rightarrow> int option" where
  "int_field L lo hi v =
     Option.bind (cl_int L v) (\<lambda>n. if lo \<le> n \<and> (case hi of None \<Rightarrow> True | Some h \<Rightarrow> n \<le> h) then Some n else None)"

definition seconds_field :: "canon_lib \<Rightarrow> pyval \<Rightarrow> rat option" where
  "seconds_field L v = Option.bind (cl_float L v) (\<lambda>q. if 0 \<le> q then Some q else None)"

text \<open>A field of a model, required or with the default \<^verbatim>\<open>None\<close>, and the ban on other fields.\<close>

definition required :: "item \<Rightarrow> string \<Rightarrow> (pyval \<Rightarrow> 'a option) \<Rightarrow> 'a option" where
  "required d k f = Option.bind (map_of d k) f"

definition optional :: "item \<Rightarrow> string \<Rightarrow> (pyval \<Rightarrow> 'a option) \<Rightarrow> 'a option option" where
  "optional d k f =
     (case map_of d k of
        None \<Rightarrow> Some None
      | Some v \<Rightarrow> if v = PNone then Some None else map_option Some (f v))"

definition only_keys :: "string list \<Rightarrow> item \<Rightarrow> bool" where
  "only_keys ks d = list_all (\<lambda>x. fst x \<in> set ks) d"

section \<open>Enumerations\<close>

datatype user_role = UserRole | AdminRole

fun user_role_str :: "user_role \<Rightarrow> string" where
  "user_role_str UserRole = ''user''"
| "user_role_str AdminRole = ''admin''"

datatype user_tier = FreeTier | ProTier | TeamTier

fun user_tier_str :: "user_tier \<Rightarrow> string" where
  "user_tier_str FreeTier = ''free''"
| "user_tier_str ProTier = ''pro''"
| "user_tier_str TeamTier = ''team''"

datatype canon_status = CsPending | CsUploaded | CsTranscribing | CsTranscribed | CsSummarizing | CsSummarized | CsFailed

fun canon_status_str :: "canon_status \<Rightarrow> string" where
  "canon_status_str CsPending = ''pending''"
| "canon_status_str CsUploaded = ''uploaded''"
| "canon_status_str CsTranscribing = ''transcribing''"
| "canon_status_str CsTranscribed = ''transcribed''"
| "canon_status_str CsSummarizing = ''summarizing''"
| "canon_status_str CsSummarized = ''summarized''"
| "canon_status_str CsFailed = ''failed''"

definition canon_statuses :: "canon_status list" where
  "canon_statuses = [CsPending, CsUploaded, CsTranscribing, CsTranscribed, CsSummarizing, CsSummarized, CsFailed]"

datatype notification_kind = EmailKind | WebhookKind | SmsKind

fun kind_str :: "notification_kind \<Rightarrow> string" where
  "kind_str EmailKind = ''email''"
| "kind_str WebhookKind = ''webhook''"
| "kind_str SmsKind = ''sms''"

datatype canon_delivery = QueuedState | SentState | FailedState

fun canon_delivery_str :: "canon_delivery \<Rightarrow> string" where
  "canon_delivery_str QueuedState = ''queued''"
| "canon_delivery_str SentState = ''sent''"
| "canon_delivery_str FailedState = ''failed''"

text \<open>Ten gibibytes.\<close>

definition max_ingestion_size :: int where
  "max_ingestion_size = 10 * 1024 * 1024 * 1024"

section \<open>Models\<close>

text \<open>A user.\<close>

record canon_user =
  cu_id :: string
  cu_email :: string
  cu_created_at :: int
  cu_role :: user_role
  cu_tier :: user_tier

definition validate_canon_user :: "canon_lib \<Rightarrow> item \<Rightarrow> canon_user option" where
  "validate_canon_user L d =
     (if \<not> only_keys [''id'', ''email'', ''created_at'', ''role'', ''tier''] d then None else
      Option.bind (required d ''id'' user_id_field) (\<lambda>x1.
      Option.bind (required d ''email'' (email_field L)) (\<lambda>x2.
      Option.bind (required d ''created_at'' (utc_field L)) (\<lambda>x3.
      Option.bind (required d ''role'' (parse_literal user_role_str [UserRole, AdminRole])) (\<lambda>x4.
      Option.bind (required d ''tier'' (parse_literal user_tier_str [FreeTier, ProTier, TeamTier])) (\<lambda>x5.
      Some \<lparr>cu_id = x1, cu_email = x2, cu_created_at = x3, cu_role = x4, cu_tier = x5\<rparr>))))))"

text \<open>An ingestion.\<close>

record canon_ingestion =
  ci_id :: string
  ci_user_id :: string
  ci_filename :: string
  ci_content_type :: string
  ci_size_bytes :: int
  ci_status :: canon_status
  ci_created_at :: int
  ci_updated_at :: int
  ci_s3_key :: string
  ci_error :: "string option"

definition validate_canon_ingestion :: "canon_lib \<Rightarrow> item \<Rightarrow> canon_ingestion option" where
  "validate_canon_ingestion L d =
     (if \<not> only_keys [''id'', ''user_id'', ''filename'', ''content_type'', ''size_bytes'', ''status'', ''created_at'', ''updated_at'', ''s3_key'', ''error''] d then None else
      Option.bind (required d ''id'' (token_field ''ingest_'' 16)) (\<lambda>x1.
      Option.bind (required d ''user_id'' user_id_field) (\<lambda>x2.
      Option.bind (required d ''filename'' (text_field 1)) (\<lambda>x3.
      Option.bind (required d ''content_type'' (text_field 1)) (\<lambda>x4.
      Option.bind (required d ''size_bytes'' (int_field L 1 (Some max_ingestion_size))) (\<lambda>x5.
      Option.bind (required d ''status'' (parse_literal canon_status_str canon_statuses)) (\<lambda>x6.
      Option.bind (required d ''created_at'' (utc_field L)) (\<lambda>x7.
      Option.bind (required d ''updated_at'' (utc_field L)) (\<lambda>x8.
      Option.bind (required d ''s3_key'' (text_field 1)) (\<lambda>x9.
      Option.bind (optional d ''error'' (text_field 0)) (\<lambda>x10.
      Some \<lparr>ci_id = x1, ci_user_id = x2, ci_filename = x3, ci_content_type = x4, ci_size_bytes = x5, ci_status = x6, ci_created_at = x7, ci_updated_at = x8, ci_s3_key = x9, ci_error = x10\<rparr>)))))))))))"

text \<open>A transcript and a segment of one.\<close>

record canon_transcript =
  ct_id :: string
  ct_ingestion_id :: string
  ct_user_id :: string
  ct_text :: string
  ct_language :: "string option"
  ct_duration_seconds :: "rat option"
  ct_model :: string
  ct_created_at :: int

definition validate_canon_transcript :: "canon_lib \<Rightarrow> item \<Rightarrow> canon_transcript option" where
  "validate_canon_transcript L d =
     (if \<not> only_keys [''id'', ''ingestion_id'', ''user_id'', ''text'', ''language'', ''duration_seconds'', ''model'', ''created_at''] d then None else
      Option.bind (required d ''id'' (token_field ''tx_'' 16)) (\<lambda>x1.
      Option.bind (required d ''ingestion_id'' (token_field ''ingest_'' 16)) (\<lambda>x2.
      Option.bind (required d ''user_id'' user_id_field) (\<lambda>x3.
      Option.bind (required d ''text'' (text_field 0)) (\<lambda>x4.
      Option.bind (optional d ''language'' (text_field 0)) (\<lambda>x5.
      Option.bind (optional d ''duration_seconds'' (seconds_field L)) (\<lambda>x6.
      Option.bind (required d ''model'' (text_field 1)) (\<lambda>x7.
      Option.bind (required d ''created_at'' (utc_field L)) (\<lambda>x8.
      Some \<lparr>ct_id = x1, ct_ingestion_id = x2, ct_user_id = x3, ct_text = x4, ct_language = x5, ct_duration_seconds = x6, ct_model = x7, ct_created_at = x8\<rparr>)))))))))"

record canon_segment =
  cg_start :: rat
  cg_end :: rat
  cg_speaker :: "string option"
  cg_text :: string

definition validate_canon_segment :: "canon_lib \<Rightarrow> item \<Rightarrow> canon_segment option" where
  "validate_canon_segment L d =
     (if \<not> only_keys [''start_seconds'', ''end_seconds'', ''speaker'', ''text''] d then None else
      Option.bind (required d ''start_seconds'' (seconds_field L)) (\<lambda>x1.
      Option.bind (required d ''end_seconds'' (seconds_field L)) (\<lambda>x2.
      Option.bind (optional d ''speaker'' (text_field 0)) (\<lambda>x3.
      Option.bind (required d ''text'' (text_field 0)) (\<lambda>x4.
      (let r = \<lparr>cg_start = x1, cg_end = x2, cg_speaker = x3, cg_text = x4\<rparr> in if cg_start r \<le> cg_end r then Some r else None))))))"

text \<open>A summary; the tiers are those of the summarization service.\<close>

record canon_summary =
  cy_id :: string
  cy_transcript_id :: string
  cy_user_id :: string
  cy_tier :: tier
  cy_text :: string
  cy_model :: string
  cy_created_at :: int
  cy_prompt_tokens :: int
  cy_completion_tokens :: int

definition validate_canon_summary :: "canon_lib \<Rightarrow> item \<Rightarrow> canon_summary option" where
  "validate_canon_summary L d =
     (if \<not> only_keys [''id'', ''transcript_id'', ''user_id'', ''tier'', ''text'', ''model'', ''created_at'', ''prompt_tokens'', ''completion_tokens''] d then None else
      Option.bind (required d ''id'' (token_field ''sum_'' 16)) (\<lambda>x1.
      Option.bind (required d ''transcript_id'' (token_field ''tx_'' 16)) (\<lambda>x2.
      Option.bind (required d ''user_id'' user_id_field) (\<lambda>x3.
      Option.bind (required d ''tier'' (parse_literal tier_str [Haiku, Sonnet])) (\<lambda>x4.
      Option.bind (required d ''text'' (text_field 0)) (\<lambda>x5.
      Option.bind (required d ''model'' (text_field 1)) (\<lambda>x6.
      Option.bind (required d ''created_at'' (utc_field L)) (\<lambda>x7.
      Option.bind (required d ''prompt_tokens'' (int_field L 0 None)) (\<lambda>x8.
      Option.bind (required d ''completion_tokens'' (int_field L 0 None)) (\<lambda>x9.
      Some \<lparr>cy_id = x1, cy_transcript_id = x2, cy_user_id = x3, cy_tier = x4, cy_text = x5, cy_model = x6, cy_created_at = x7, cy_prompt_tokens = x8, cy_completion_tokens = x9\<rparr>))))))))))"

text \<open>A streaming session; the states are those of the session manager.\<close>

record canon_session =
  cs_id :: string
  cs_user_id :: string
  cs_status :: session_status
  cs_gpu_instance_id :: "string option"
  cs_created_at :: int
  cs_updated_at :: int
  cs_ttl :: "int option"

definition validate_canon_session :: "canon_lib \<Rightarrow> item \<Rightarrow> canon_session option" where
  "validate_canon_session L d =
     (if \<not> only_keys [''id'', ''user_id'', ''status'', ''gpu_instance_id'', ''created_at'', ''updated_at'', ''ttl''] d then None else
      Option.bind (required d ''id'' (token_field ''sess_'' 16)) (\<lambda>x1.
      Option.bind (required d ''user_id'' user_id_field) (\<lambda>x2.
      Option.bind (required d ''status'' (parse_literal status_str [Starting, Active, Paused, Completed, Errored])) (\<lambda>x3.
      Option.bind (optional d ''gpu_instance_id'' (text_field 0)) (\<lambda>x4.
      Option.bind (required d ''created_at'' (utc_field L)) (\<lambda>x5.
      Option.bind (required d ''updated_at'' (utc_field L)) (\<lambda>x6.
      Option.bind (optional d ''ttl'' (cl_int L)) (\<lambda>x7.
      Some \<lparr>cs_id = x1, cs_user_id = x2, cs_status = x3, cs_gpu_instance_id = x4, cs_created_at = x5, cs_updated_at = x6, cs_ttl = x7\<rparr>))))))))"

text \<open>A notification.\<close>

record canon_notification =
  cn_id :: string
  cn_user_id :: string
  cn_kind :: notification_kind
  cn_status :: canon_delivery
  cn_target :: string
  cn_template :: string
  cn_error :: "string option"
  cn_sent_at :: "int option"
  cn_created_at :: int

definition validate_canon_notification :: "canon_lib \<Rightarrow> item \<Rightarrow> canon_notification option" where
  "validate_canon_notification L d =
     (if \<not> only_keys [''id'', ''user_id'', ''kind'', ''status'', ''target'', ''template'', ''error'', ''sent_at'', ''created_at''] d then None else
      Option.bind (required d ''id'' ulid_field) (\<lambda>x1.
      Option.bind (required d ''user_id'' user_id_field) (\<lambda>x2.
      Option.bind (required d ''kind'' (parse_literal kind_str [EmailKind, WebhookKind, SmsKind])) (\<lambda>x3.
      Option.bind (required d ''status'' (parse_literal canon_delivery_str [QueuedState, SentState, FailedState])) (\<lambda>x4.
      Option.bind (required d ''target'' (text_field 1)) (\<lambda>x5.
      Option.bind (required d ''template'' (text_field 1)) (\<lambda>x6.
      Option.bind (optional d ''error'' (text_field 0)) (\<lambda>x7.
      Option.bind (optional d ''sent_at'' (utc_field L)) (\<lambda>x8.
      Option.bind (required d ''created_at'' (utc_field L)) (\<lambda>x9.
      Some \<lparr>cn_id = x1, cn_user_id = x2, cn_kind = x3, cn_status = x4, cn_target = x5, cn_template = x6, cn_error = x7, cn_sent_at = x8, cn_created_at = x9\<rparr>))))))))))"

text \<open>A subscription.\<close>

record canon_subscription =
  cb_id :: string
  cb_user_id :: string
  cb_tier :: user_tier
  cb_stripe_customer_id :: string
  cb_stripe_subscription_id :: string
  cb_status :: string
  cb_started_at :: int
  cb_current_period_end :: int

definition validate_canon_subscription :: "canon_lib \<Rightarrow> item \<Rightarrow> canon_subscription option" where
  "validate_canon_subscription L d =
     (if \<not> only_keys [''id'', ''user_id'', ''tier'', ''stripe_customer_id'', ''stripe_subscription_id'', ''status'', ''started_at'', ''current_period_end''] d then None else
      Option.bind (required d ''id'' (text_field 1)) (\<lambda>x1.
      Option.bind (required d ''user_id'' user_id_field) (\<lambda>x2.
      Option.bind (required d ''tier'' (parse_literal user_tier_str [FreeTier, ProTier, TeamTier])) (\<lambda>x3.
      Option.bind (required d ''stripe_customer_id'' (text_field 1)) (\<lambda>x4.
      Option.bind (required d ''stripe_subscription_id'' (text_field 1)) (\<lambda>x5.
      Option.bind (required d ''status'' (text_field 1)) (\<lambda>x6.
      Option.bind (required d ''started_at'' (utc_field L)) (\<lambda>x7.
      Option.bind (required d ''current_period_end'' (utc_field L)) (\<lambda>x8.
      Some \<lparr>cb_id = x1, cb_user_id = x2, cb_tier = x3, cb_stripe_customer_id = x4, cb_stripe_subscription_id = x5, cb_status = x6, cb_started_at = x7, cb_current_period_end = x8\<rparr>)))))))))"

text \<open>The error envelope.\<close>

record api_error =
  er2_code :: string
  er2_message :: string
  er2_request_id :: "string option"
  er2_details :: "item option"

definition validate_api_error :: "item \<Rightarrow> api_error option" where
  "validate_api_error d =
     (if \<not> only_keys [''code'', ''message'', ''request_id'', ''details''] d then None else
      Option.bind (required d ''code'' (text_field 1)) (\<lambda>x1.
      Option.bind (required d ''message'' (text_field 1)) (\<lambda>x2.
      Option.bind (optional d ''request_id'' (text_field 0)) (\<lambda>x3.
      Option.bind (optional d ''details'' as_dict) (\<lambda>x4.
      Some \<lparr>er2_code = x1, er2_message = x2, er2_request_id = x3, er2_details = x4\<rparr>)))))"

section \<open>What a validated model satisfies\<close>

lemma required_Some: "required d k f = Some x \<longleftrightarrow> (\<exists>v. map_of d k = Some v \<and> f v = Some x)"
  by (simp add: required_def bind_eq_Some_conv)

lemma token_field_Some: "token_field prefix n v = Some s \<Longrightarrow> token_id prefix n s"
  by (auto simp: token_field_def bind_eq_Some_conv split: if_splits)

lemma canonical_ids:
  "validate_canon_ingestion L d = Some i \<Longrightarrow> token_id ''ingest_'' 16 (ci_id i) \<and> token_id ''user_'' 12 (ci_user_id i)"
  "validate_canon_transcript L d = Some t \<Longrightarrow> token_id ''tx_'' 16 (ct_id t) \<and> token_id ''user_'' 12 (ct_user_id t)"
  "validate_canon_summary L d = Some y \<Longrightarrow> token_id ''sum_'' 16 (cy_id y) \<and> token_id ''tx_'' 16 (cy_transcript_id y)"
  "validate_canon_session L d = Some s \<Longrightarrow> token_id ''sess_'' 16 (cs_id s) \<and> token_id ''user_'' 12 (cs_user_id s)"
  unfolding validate_canon_ingestion_def validate_canon_transcript_def validate_canon_summary_def validate_canon_session_def
  by (auto simp: bind_eq_Some_conv required_Some user_id_field_def split: if_splits dest!: token_field_Some)

lemma canonical_bounds:
  "validate_canon_ingestion L d = Some i \<Longrightarrow> 1 \<le> ci_size_bytes i \<and> ci_size_bytes i \<le> max_ingestion_size"
  "validate_canon_segment L d = Some g \<Longrightarrow> 0 \<le> cg_start g \<and> cg_start g \<le> cg_end g"
  "validate_canon_summary L d = Some y \<Longrightarrow> 0 \<le> cy_prompt_tokens y \<and> 0 \<le> cy_completion_tokens y"
  unfolding validate_canon_ingestion_def validate_canon_segment_def validate_canon_summary_def
  by (auto simp: bind_eq_Some_conv required_Some int_field_def seconds_field_def Let_def split: if_splits)

text \<open>
  The contract and the rows. The shared models are said to mirror what the services write to their tables; no row
  that the ingestion-api, the session manager, the summarization service or the notification service writes is one
  of them: the rows carry the table's keys or other names of fields, and have no \<^verbatim>\<open>id\<close>.
\<close>

lemma service_rows_break_contract:
  "validate_canon_ingestion L (ddb_item (ing_to_dynamo i)) = None"
  "validate_canon_session L (ddb_item (to_dynamo s)) = None"
  "validate_canon_summary L (ddb_item (summary_item y)) = None"
  "validate_canon_notification L (ddb_item (notification_item n)) = None"
  by (simp_all add: validate_canon_ingestion_def validate_canon_session_def validate_canon_summary_def
      validate_canon_notification_def only_keys_def ing_to_dynamo_def to_dynamo_def summary_item_def notification_item_def ddb_item_def)

end
