(* ===== verification/Spec2Isabelle.thy ===== *)
theory Spec2Isabelle
  imports Session_Manager Ingestion Event_Router Transcribe_Worker Gpu_Spawner Streaming_Router Billing
    Ws_Authorizer Middleware Lifecycle_Safety Cost_Explorer Stream_Path Notification Transcriber_Groq Health_Aggregator Api_Index Shared_Models
begin

text \<open>
  A verification library for the Python services of Panakoes (\<^verbatim>\<open>src/services\<close>), an audio capture and
  transcription platform of small services around DynamoDB, S3, SQS, EventBridge and EC2.

  The program and its parts. A client records sessions (session-manager) and uploads audio through a
  presigned address (ingestion-api). S3 announces the upload; the event-router parses the object key, marks
  the upload's row from \<^verbatim>\<open>pending\<close> to \<^verbatim>\<open>uploaded\<close> with a conditional write and publishes one event; the
  transcribe-worker takes it from a queue and dispatches a transcription to AWS Batch, whose container
  (transcriber-batch) writes the transcript to the upload's row, or to a synchronous backend (transcriber-groq).
  The summarization service sends a transcript to a language model and keeps the answer as an object and a row;
  the query-api reads the rows of sessions, ingestions and summaries; the notification service sends emails and
  webhooks and records them. The streaming path opens a WebSocket: the ws-authorizer verifies the token, the streaming-router
  stores the connection, publishes an event and forwards audio frames to a queue, and the gpu-spawner
  consumes the event, claims a frame queue from a pool and launches an instance with a boot script. The
  container on that instance (transcriber-stream) puts the frames of the queue in order, feeds them to a speech
  processor, sends partial and final texts to the client, keeps the session row and writes a final object. The
  billing service sells plans through Stripe and projects Stripe's webhooks on subscription rows. The
  admin-api runs dangerous operations under a second factor, a typed confirmation, an idempotency key and
  audit rows. The cost-rollup-aggregator copies a day's costs per tenant and service from Cost Explorer to a
  table every night, and the cost-api answers from it, from Cost Explorer and from a response cache. The
  health-aggregator probes the deployed services, and the api-index answers at the root of the public API. The
  libraries audit-lib, auth-client, middleware-lib and transcriber-lib are shared by all of them.

  How the code is modelled. Python values are the datatype \<open>pyval\<close>, dictionaries association lists, an
  exception is the left side of a sum, and a function with effects is a computation \<open>('w, 'a) io\<close> from a
  world to a result and a world (Py_Prelude). The world (Cloud) holds the database state, the calls made to
  other services in order (\<open>trace\<close>) and the number of inputs read (\<open>ticks\<close>); DynamoDB is a record of
  operations on an abstract state, and what the code relies on is the hypothesis \<open>ddb_ok E V\<close>: a read
  returns the stored row, a conditional write that returns was applied to a row that satisfied its
  condition, one rejected by its condition changed nothing, and any other failure leaves open whether the
  write was applied. Every other call is answered by \<open>svc\<close>, an arbitrary function of the calls so far.
  Every definition follows one function or class of the source; PROJECT.json names the lines.

  The theories, in the order of the code.
  \<^item> Py_Prelude: values, dictionaries, exceptions, \<^verbatim>\<open>try\<close> and \<^verbatim>\<open>for\<close>, frame reasoning (\<open>keeps\<close>), text and time.
  \<^item> Cloud: the external services, condition and update expressions, frame rules per operation, and the
    in-memory environment \<open>mem_env\<close> in which every hypothesis of the development holds.
  \<^item> Owner_Scope: the interface of a multi-tenant table (locale \<open>owner_scoped\<close>), instantiated by
    session-manager, ingestion-api, the pool of frame queues, the streaming-router, summarization, the query-api
    (twice, for the tables it reads) and notification.
  \<^item> At_Most_Once: the interface of an operation that is safe to repeat (locale \<open>at_most_once\<close>),
    instantiated by the billing webhook and the admin operations.
  \<^item> Audit_Log (audit-lib), Auth (bearer tokens, \<^verbatim>\<open>auth-client\<close>, the second-factor gate of admin-api),
    Ulid (the two identifier generators).
  \<^item> Session_Manager, Ingestion, Event_Router, Transcribe_Worker, Transcriber_Batch: the asynchronous path;
    Transcriber_Groq: the hosted backend and the result types of transcriber-lib.
  \<^item> Summarization (the language model, objects and rows), Query_Api (the three readers and six routes) and
    Notification (templates, mail, the retry loop of webhooks, the store).
  \<^item> Ws_Authorizer, Streaming_Router, Pool_Claim, User_Data, Gpu_Spawner: the streaming path.
  \<^item> Frame_Sequencer (the reordering of audio frames), Transcriber_Stream (the container around it) and
    Stream_Path (router and container together).
  \<^item> Billing; Middleware (rate limit, plan gate, correlation, size and header checks, audit decorator, CORS);
    Admin_Lifecycle with its properties in Lifecycle_Safety.
  \<^item> Py_Number (rounding, doubles, decimals) and Cost_Rollup (rollup table, aggregator, response cache, by-tenant
    route), Cost_Explorer (retries, the by-service, forecast and anomaly routes, the alert store).
  \<^item> Health_Aggregator (clients, registry, decision matrix, snapshot and detail), Api_Index (catalogue, pages,
    handler) and Shared_Models (the validation of models-lib, which no row of the services passes).

  What the lemmas show. Owner isolation over any history of requests (sessions, ingestions, frame queues,
  connections, summaries, notifications); every session row stays decodable; status changes follow the transition table; an upload is
  published exactly when its row was moved; a dispatched transcription is not dispatched again; a message is
  deleted only after its spawn; an instance is terminated only for its owner; tokens are verified, with a shared secret or a published key, before
  anything is admitted; the limiter lets at most its limit of requests through in every window and admits
  every client that made fewer in the last one, and its Redis store refines the in-memory store; webhooks need Stripe's signature
  and are idempotent while their event is the last one; dangerous operations run only under a stored intent,
  leave records that agree with the answer, and are not run again under an answered key; both identifier
  generators write the same string; codecs are inverted by their readers; a run of the aggregator leaves the last
  cost of every pair it read, and the by-tenant totals are the sums of the rows; the container's frames come out in
  order and complete as long as no gap is skipped, every frame is accounted for, and a session that ends normally
  has written its final object and asked for the termination of its instance; a batch job exits with 0 only with its
  transcript in the row of the upload it was submitted for; every ending of a transcription task is accounted for;
  Groq's answer, or its error class, ends in that row, and its words stand in one segment each; a summary and a
  notification that were answered are read back by their user; the query-api reads ingestions as the ingestion-api does,
  and cannot read the later states of a session or any summary; a webhook is posted a bounded number of times; a
  service is healthy, unhealthy or unknown exactly as the matrix says, whatever order its calls fail in; the page for
  an unknown path takes no markup from the path.
  This theory adds what spans components: the spawn made for a connection is made for the subject of the verified token, and the
  administrator's block of a user misses connections that are being set up. The properties of kind \<^verbatim>\<open>error\<close>
  state behaviours the code has and its documentation does not expect.

  Bounds and fuel. Some loops of the code have no structural bound: draining a frame queue (\<open>drain_fuel\<close>),
  walking the pages of the event log (\<open>bl_page_fuel\<close>), and the scans and paged answers of the cost services
  (\<open>cc_pages\<close>). The fuel of the drain is enough whenever the monotonic clock advances (Pool_Claim); a fuel of
  the number of pages is enough for the others (Billing, Cost_Rollup). The generator of frames and the watchers of
  the container run until they are stopped: \<open>frames\<close>, \<open>lifecycle_watch\<close>, \<open>spot_watch\<close> and \<open>keepalive_pings\<close> take
  a number of iterations, and what is proved of them holds for every number. Identifiers are 26 characters for times below \<open>2 ^ 48\<close> milliseconds.

  Parameters. The token library (\<open>jwt_lib\<close>), the validation library's conversions (\<open>pyd_dt\<close>, \<open>pyd_int\<close>,
  \<open>pyd_float\<close>), \<^verbatim>\<open>json.loads\<close>, \<^verbatim>\<open>bytes.decode\<close>, \<^verbatim>\<open>str\<close> of foreign exceptions, the clocks, random numbers,
  the Redis server (\<open>redis_ok\<close>), the transcription backends and the vendored speech processor of the container
  (\<open>asr\<close>), the language model's answers, the template engine, the HTTP clients of Groq and of webhooks with their
  exception classes, and the schedule of \<^verbatim>\<open>asyncio.gather\<close> are arguments of the model; so is the moment at which a task beside a loop sets its event.

  Not modelled: the ASGI framework, logging and tracing, application start-up and settings read once at
  start-up, the process-wide audit store, the endless consumer thread around \<open>poll_once\<close>, and the
  components that PROJECT.json lists as not modelled: the TypeScript services and the front end (another language),
  the infrastructure and the operator scripts (glue around the services, the telemetry of the developers' tools),
  otel-lib and the test helpers. The vendored speech
  processor of the container is third-party code. Request validation that the framework derives from a model's
  declarations is modelled where a route depends on it; addresses of emails and webhooks are taken as validated.
  Texts are sequences of characters up to \<open>255\<close>.
\<close>

section \<open>The streaming path: from the token to the spawn\<close>

text \<open>API Gateway hands the authorizer's context to the router unchanged.\<close>

definition carries_context :: "item \<Rightarrow> item \<Rightarrow> bool" where
  "carries_context resp event \<longleftrightarrow> (\<exists>ctx. dget_or event ''requestContext'' (PDict []) = PDict ctx \<and>
     dget ctx ''authorizer'' = dget resp ''context'')"

lemma text_of_str [simp]: "text_or_empty f (PStr s) = s"
  by (simp add: text_or_empty_def)

lemma identity_of_context:
  assumes "carries_context (build_response True (build_context L token sub role) arn p) event"
    and "from_event show_val event = Inr auth"
  shows "ac_user_id auth = sub"
proof -
  obtain ctx where ctx: "dget_or event ''requestContext'' (PDict []) = PDict ctx"
    "dget ctx ''authorizer'' = PDict (build_context L token sub role)"
    using assms(1) by (auto simp: carries_context_def)
  have "build_context L token sub role \<noteq> []" using build_context_fields(1) [of L token sub role] by auto
  with ctx assms(2) show ?thesis
    by (auto simp: from_event_def get_attr_def py_or_def build_context_fields)
qed

text \<open>
  C11. A spawn is made for a verified user: when the authorizer admits a connection and the router, given
  the authorizer's context, connects it, then the session's row carries the subject of the verified
  token, and the event the router publishes reaches the spawner as the intent to spawn for this session
  and this subject.
\<close>

theorem spawn_intent_is_verified:
  assumes "jwks_wf (ax_jwks s)" "authorizer_handler X request s = (Inr resp, s')" "policy_effect resp = Some ''Allow''"
    and "stream_setting E V C" "carries_context resp event" "route_connect E C event cid w = (Inr x, w')" "cid \<noteq> []"
  shows "\<exists>token v c it detail intent. extract_token request = Inr (Some token) \<and> verified_by (ax_lib X) v (ax_jwks s) (ax_jwks s') token c \<and>
     rows V w' (st_sessions_table C) (stream_key cid) = Some (ddb_item it) \<and> dget it ''user_id'' = PStr (cl_sub c) \<and>
     PutEvents ''panakoes.streaming-router'' ''streaming.session.connecting'' detail (st_event_bus C) \<in> set (new_calls w w') \<and>
     si_session_id intent = cid \<and> si_user_id intent = cl_sub c \<and>
     (\<forall>message body receipt envelope. dget message ''Body'' = PStr body \<longrightarrow> dget message ''ReceiptHandle'' = PStr receipt \<longrightarrow>
        jloads Q body = Some (PDict envelope) \<longrightarrow> dget envelope ''detail'' = PDict detail \<longrightarrow> asks_for Q message intent receipt)"
proof -
  from authorizer_Allow [OF assms(1-3)] obtain token v c where
    token: "extract_token request = Inr (Some token)" "verified_by (ax_lib X) v (ax_jwks s) (ax_jwks s') token c"
    and resp: "resp = build_response True (build_context (ax_lib X) token (cl_sub c) (cl_role c)) (method_arn_of X request) (cl_sub c)"
    by metis
  from connect_outcome [OF assms(4,6)] obtain auth it where
    auth: "from_event (st_show C) event = Inr auth"
    and row: "rows V w' = store_row (rows V w) (st_sessions_table C) (stream_key cid) (ddb_item it)"
    and uid: "dget it ''user_id'' = PStr (ac_user_id auth)" and sent: "connecting_event C auth cid \<in> set (new_calls w w')"
    by metis
  have sub: "ac_user_id auth = cl_sub c" using identity_of_context assms(5) auth resp by metis
  let ?detail = "[(''session_id'', PStr cid), (''user_id'', PStr (ac_user_id auth)), (''tenant_id'', PStr (ac_tenant_id auth))]"
  let ?intent = "\<lparr>si_session_id = cid, si_user_id = cl_sub c, si_tenant_id = ac_tenant_id auth\<rparr>"
  have intent: "from_event_detail (co_show Q) ?detail = Inr ?intent"
    using assms(7) sub by (simp add: from_event_detail_def dget_Cons)
  show ?thesis
    by (rule exI [of _ token], rule exI [of _ v], rule exI [of _ c], rule exI [of _ it], rule exI [of _ ?detail],
        rule exI [of _ ?intent])
      (use token row uid sub sent intent in \<open>auto simp: store_row_apply connecting_event_def asks_for_def\<close>)
qed

section \<open>Administration of the streaming path\<close>

text \<open>A row the router writes for a new connection, as DynamoDB returns it.\<close>

definition connecting_row :: "item \<Rightarrow> bool" where
  "connecting_row row \<longleftrightarrow> (\<exists>auth cid now epoch parent seed it.
     connect_item (connect_base auth cid now epoch) parent seed = Inr it \<and> row = ddb_item it)"

lemma connecting_row_status: "connecting_row row \<Longrightarrow> dget row ''status'' = PStr ''connecting''"
proof -
  assume "connecting_row row"
  then obtain auth cid now epoch parent seed it where
    "connect_item (connect_base auth cid now epoch) parent seed = Inr it" "row = ddb_item it"
    by (auto simp: connecting_row_def)
  then have "map_of it ''status'' = Some (PStr ''connecting'')"
    by (cases seed) (auto simp: connect_item_def connect_base_def Let_def split: if_splits)
  with \<open>row = ddb_item it\<close> show ?thesis by (simp add: dget_def dget_or_def map_of_ddb_item)
qed

text \<open>
  Blocking a user misses connections that are being set up: the rows the router writes are in no
  status the operation takes for active, so when all of a user's sessions are connecting, the operation
  changes nothing and reports success with nothing blocked.
\<close>

lemma block_user_misses_connecting:
  assumes "ddb_ok E V" "query_items E (ad_sessions_table C) (user_sessions_query user_id) w = (Inr page, w1)"
    and "\<forall>row \<in> set (p_items page). connecting_row row"
    and "required_reason C ''block-user-sessions'' params = Inr reason"
  shows "\<exists>res. block_user_handler E C user_id params w = (Inr res, w1) \<and> rows V w1 = rows V w \<and>
     dget res ''affected_count'' = PInt 0 \<and> dget res ''skipped_count'' = PInt (int (length (p_items page)))"
proof -
  have "active_sessions (p_items page) = []"
    using assms(3) connecting_row_status by (auto simp: active_sessions_def active_statuses_def filter_empty_conv)
  with assms(2,4) query_items_cases(1) [OF assms(1,2)] show ?thesis
    by (simp add: block_user_handler_def bindE_def liftE_def retE_def Let_def dget_Cons)
qed

section \<open>Witnesses\<close>

definition chain_event :: "item \<Rightarrow> item" where
  "chain_event resp = [(''requestContext'', PDict [(''authorizer'', dget resp ''context'')])]"

lemma context_accepted:
  assumes "dget resp ''context'' = PDict (build_context L token sub role)"
  shows "\<exists>auth. from_event f (chain_event resp) = Inr auth"
proof -
  have "build_context L token sub role \<noteq> []" using build_context_fields(1) [of L token sub role] by auto
  then show ?thesis
    using assms build_context_fields(3) [of L token sub role]
    by (simp add: from_event_def chain_event_def dget_or_def dget_Cons get_attr_def py_or_def)
qed

lemma chain_connect:
  assumes "from_event (st_show stream_demo_cfg) event = Inr auth" "dget event ''queryStringParameters'' = PNone"
  shows "\<exists>x w'. route_connect stream_demo_env stream_demo_cfg event ''c'' stream_demo_world = (Inr x, w')"
proof -
  let ?E = stream_demo_env and ?C = stream_demo_cfg
  have param: "query_param event k = Inr PNone" for k
    using assms(2) by (simp add: query_param_def sub_dict_def py_or_def get_attr_def)
  have now: "utcnow ?E w = (Inr 0, w\<lparr>ticks := Suc (ticks w)\<rparr>)" for w
    by (simp add: utcnow_def tick_def stream_demo_env_def mem_env_def)
  have put: "\<exists>w'. put_item ?E tbl it CTrue w = (Inr (), w')" for tbl it w
    unfolding stream_demo_env_def by (rule mem_put)
  have event: "\<exists>w'. tryE (invoke ?E call) (\<lambda>e. retE ()) (\<lambda>_. retE ()) w = (Inr (), w')" for call w
    by (auto simp: tryE_def invoke_def retE_def split: sum.split)
  have post: "router_post_status ?E ?C i st d w = (Inr (), w)" for i st d w
    by (simp add: router_post_status_def stream_demo_cfg_def retE_def)
  have item: "connect_item base PNone PNone = Inr base" for base by (simp add: connect_item_def)
  obtain w1 where w1: "put_item ?E (st_sessions_table ?C) (connect_base auth ''c'' 0 (epoch_secs 0)) CTrue
      (stream_demo_world\<lparr>ticks := Suc (Suc (ticks stream_demo_world))\<rparr>) = (Inr (), w1)" using put by blast
  obtain w2 where "tryE (invoke ?E (connecting_event ?C auth ''c'')) (\<lambda>e. retE ()) (\<lambda>_. retE ()) w1 = (Inr (), w2)"
    using event by blast
  with w1 assms(1) show ?thesis
    by (simp add: route_connect_def bindE_def liftE_def now param item post retE_def)
qed

theorem spawn_intent_is_verified_witness:
  "\<exists>resp s' x w' it (c :: jwt_claims). authorizer_handler authz_demo_cfg authz_demo_event authz_start = (Inr resp, s') \<and>
     route_connect stream_demo_env stream_demo_cfg (chain_event resp) ''c'' stream_demo_world = (Inr x, w') \<and>
     rows mem_view w' ''s'' (stream_key ''c'') = Some (ddb_item it) \<and> dget it ''user_id'' = PStr (cl_sub c) \<and> cl_sub c \<noteq> []"
proof -
  obtain resp s' where run: "authorizer_handler authz_demo_cfg authz_demo_event authz_start = (Inr resp, s')"
    "policy_effect resp = Some ''Allow''" using authz_demo_run by blast
  have wf: "jwks_wf (ax_jwks authz_start)" using demo_cache_wf by (simp add: authz_start_def)
  have carries: "carries_context resp (chain_event resp)"
    by (simp add: carries_context_def chain_event_def dget_or_def dget_def)
  obtain token v c where "verified_by (ax_lib authz_demo_cfg) v (ax_jwks authz_start) (ax_jwks s') token c" and
    "resp = build_response True (build_context (ax_lib authz_demo_cfg) token (cl_sub c) (cl_role c)) (method_arn_of authz_demo_cfg authz_demo_event) (cl_sub c)"
    by (rule authorizer_Allow [OF wf run]) (rule that)
  from this(2) have ctx: "dget resp ''context'' = PDict (build_context (ax_lib authz_demo_cfg) token (cl_sub c) (cl_role c))"
    by (simp only: context_build)
  obtain auth where auth: "from_event (st_show stream_demo_cfg) (chain_event resp) = Inr auth"
    using context_accepted [OF ctx] by blast
  from chain_connect [OF auth] obtain x w' where conn:
    "route_connect stream_demo_env stream_demo_cfg (chain_event resp) ''c'' stream_demo_world = (Inr x, w')"
    by (auto simp: chain_event_def dget_Cons)
  have ne: "''c'' \<noteq> []" by simp
  obtain token v c it where verified: "verified_by (ax_lib authz_demo_cfg) v (ax_jwks authz_start) (ax_jwks s') token c"
    and row: "rows mem_view w' (st_sessions_table stream_demo_cfg) (stream_key ''c'') = Some (ddb_item it)"
    and uid: "dget it ''user_id'' = PStr (cl_sub c)"
    using spawn_intent_is_verified [OF wf run stream_demo_ok carries conn ne, of spawn_demo_consumer] by - (elim exE conjE, rule that)
  have sub: "cl_sub c \<noteq> []" by (rule verified_sub [OF verified])
  have "st_sessions_table stream_demo_cfg = ''s''" by (simp add: stream_demo_cfg_def)
  with row have row': "rows mem_view w' ''s'' (stream_key ''c'') = Some (ddb_item it)" by (simp only:)
  show ?thesis by (intro exI conjI) (rule run(1) conn row' uid sub)+
qed

definition chain_row :: item where
  "chain_row = ddb_item (connect_base \<lparr>ac_user_id = ''u'', ac_tenant_id = ''t'', ac_role = ''r''\<rparr> ''c'' 0 0)"

definition chain_block_env :: "mem env" where
  "chain_block_env = lc_env\<lparr>d_query := (\<lambda>tbl q t. (Inr \<lparr>p_items = [chain_row], p_last = None\<rparr>, t))\<rparr>"

lemma chain_block_ok: "ddb_ok chain_block_env mem_view"
proof -
  have "reads_ok lc_env mem_view" "writes_ok lc_env mem_view"
    using mem_env_ok unfolding lc_env_def ddb_ok_def by blast+
  then show ?thesis by (simp add: ddb_ok_def reads_ok_def writes_ok_def chain_block_env_def mem_view_def key_of_def)
qed

end
